(* ===== verification/Base.thy ===== *)
theory Base
  imports Main "HOL-Library.AList"
begin

text \<open>
  Shared vocabulary of the development.

  \<^item> A JavaScript \<open>Map\<close> is an association list with distinct keys in insertion order:
    \<open>AList.update\<close> overwrites in place or appends (as \<open>Map.set\<close> does), \<open>AList.delete\<close>
    removes the key, \<open>map_of\<close> is \<open>Map.get\<close>. A JavaScript \<open>Set\<close> is a distinct list.
  \<^item> A function that may throw returns \<open>'e + 'a\<close>, \<open>Inl\<close> the error.
  \<^item> Three interfaces that several components share are locales: \<open>js_map\<close> (what a keyed
    container promises its clients), \<open>codec\<close> (an encoder and a decoder with the round-trip
    law) and \<open>step_system\<close> (a state machine with an invariant every step keeps).
\<close>

subsection \<open>Computations that may throw\<close>

definition and_then :: "'e + 'a \<Rightarrow> ('a \<Rightarrow> 'e + 'b) \<Rightarrow> 'e + 'b" where
  "and_then r f = (case r of Inl e \<Rightarrow> Inl e | Inr x \<Rightarrow> f x)"

definition require :: "bool \<Rightarrow> 'e \<Rightarrow> 'e + unit" where
  "require b e = (if b then Inr () else Inl e)"

lemma and_then_simps [simp]:
  "and_then (Inl e) f = Inl e" "and_then (Inr x) f = f x"
  by (simp_all add: and_then_def)

lemma and_then_Inr: "(and_then r f = Inr y) = (\<exists>x. r = Inr x \<and> f x = Inr y)"
  by (cases r) auto

lemma and_then_Inl: "(and_then r f = Inl e) = (r = Inl e \<or> (\<exists>x. r = Inr x \<and> f x = Inl e))"
  by (cases r) auto

lemma require_simps [simp]:
  "require True e = Inr ()" "require False e = Inl e"
  "(require b e = Inr u) = b" "(require b e = Inl e') = (\<not> b \<and> e' = e)"
  by (auto simp: require_def)

lemma and_then_cong [fundef_cong]:
  "r = r' \<Longrightarrow> (\<And>x. r' = Inr x \<Longrightarrow> f x = g x) \<Longrightarrow> and_then r f = and_then r' g"
  by (cases r') simp_all

subsection \<open>Insertion-ordered sets\<close>

definition set_add :: "'a \<Rightarrow> 'a list \<Rightarrow> 'a list" where
  "set_add x xs = (if x \<in> set xs then xs else xs @ [x])"

definition set_remove :: "'a \<Rightarrow> 'a list \<Rightarrow> 'a list" where
  "set_remove x xs = filter (\<lambda>y. y \<noteq> x) xs"

lemma set_set_add [simp]: "set (set_add x xs) = insert x (set xs)"
  by (auto simp: set_add_def)

lemma set_set_remove [simp]: "set (set_remove x xs) = set xs - {x}"
  by (auto simp: set_remove_def)

lemma distinct_set_add [simp]: "distinct xs \<Longrightarrow> distinct (set_add x xs)"
  by (simp add: set_add_def)

lemma distinct_set_remove [simp]: "distinct xs \<Longrightarrow> distinct (set_remove x xs)"
  by (simp add: set_remove_def)

subsection \<open>The keyed container interface\<close>

text \<open>
  What the clients of a JavaScript \<open>Map\<close> rely on: look-up after \<open>set\<close> and \<open>delete\<close>, and
  that iteration follows insertion order.
\<close>

locale js_map =
  fixes empty :: "'m"
    and put :: "'k \<Rightarrow> 'v \<Rightarrow> 'm \<Rightarrow> 'm"
    and del :: "'k \<Rightarrow> 'm \<Rightarrow> 'm"
    and get :: "'m \<Rightarrow> 'k \<Rightarrow> 'v option"
    and keys :: "'m \<Rightarrow> 'k list"
    and invar :: "'m \<Rightarrow> bool"
  assumes get_empty: "get empty k = None"
    and get_put: "get (put k v m) j = (if j = k then Some v else get m j)"
    and get_del: "invar m \<Longrightarrow> get (del k m) j = (if j = k then None else get m j)"
    and keys_empty: "keys empty = []"
    and keys_put: "keys (put k v m) = (if k \<in> set (keys m) then keys m else keys m @ [k])"
    and keys_del: "keys (del k m) = filter (\<lambda>j. j \<noteq> k) (keys m)"
    and keys_get: "(get m k \<noteq> None) = (k \<in> set (keys m))"
    and invar_distinct: "invar m = distinct (keys m)"
begin

lemma invar_empty: "invar empty"
  by (simp add: invar_distinct keys_empty)

lemma invar_put: "invar m \<Longrightarrow> invar (put k v m)"
  by (auto simp: invar_distinct keys_put)

lemma invar_del: "invar m \<Longrightarrow> invar (del k m)"
  by (simp add: invar_distinct keys_del)

lemma put_overwrites: "get (put k v (put k w m)) = get (put k v m)"
  by (rule ext) (simp add: get_put)

lemma put_commutes: "k \<noteq> j \<Longrightarrow> get (put k v (put j w m)) = get (put j w (put k v m))"
  by (rule ext) (simp add: get_put)

lemma get_fold_put_notin:
  "k \<notin> f ` set xs \<Longrightarrow> get (fold (\<lambda>x. put (f x) (g x)) xs m) k = get m k"
  by (induction xs arbitrary: m) (auto simp: get_put)

text \<open>Filling a map from a list keeps, for each key, the last element with that key.\<close>

lemma get_fold_put:
  "get (fold (\<lambda>x. put (f x) (g x)) xs m) k =
     (case find (\<lambda>x. f x = k) (rev xs) of Some x \<Rightarrow> Some (g x) | None \<Rightarrow> get m k)"
proof (induction xs rule: rev_induct)
  case Nil
  then show ?case by simp
next
  case (snoc x xs)
  then show ?case by (simp add: get_put)
qed

lemma keys_put_new: "k \<notin> set (keys m) \<Longrightarrow> keys (put k v m) = keys m @ [k]"
  by (simp add: keys_put)

lemma keys_put_old: "k \<in> set (keys m) \<Longrightarrow> keys (put k v m) = keys m"
  by (simp add: keys_put)

end

definition map_keys :: "('k \<times> 'v) list \<Rightarrow> 'k list" where
  "map_keys m = map fst m"

lemma map_fst_update:
  "map fst (AList.update k v m) = (if k \<in> set (map fst m) then map fst m else map fst m @ [k])"
  by (induction m) auto

lemma map_fst_delete: "map fst (AList.delete k m) = filter (\<lambda>j. j \<noteq> k) (map fst m)"
  by (induction m) (auto simp: AList.delete_eq)

interpretation amap: js_map "[]" AList.update AList.delete map_of map_keys
  "\<lambda>m. distinct (map_keys m)"
proof unfold_locales
  fix k j :: 'a and v :: 'b and m :: "('a \<times> 'b) list"
  show "map_of (AList.update k v m) j = (if j = k then Some v else map_of m j)"
    by (simp add: update_conv')
  show "map_of (AList.delete k m) j = (if j = k then None else map_of m j)"
    by (simp add: delete_conv')
  show "map_keys (AList.update k v m) = (if k \<in> set (map_keys m) then map_keys m else map_keys m @ [k])"
    by (simp add: map_keys_def map_fst_update)
  show "map_keys (AList.delete k m) = filter (\<lambda>j. j \<noteq> k) (map_keys m)"
    by (simp add: map_keys_def map_fst_delete)
  show "(map_of m k \<noteq> None) = (k \<in> set (map_keys m))"
    by (metis map_keys_def image_set map_of_eq_None_iff)
qed (simp_all add: map_keys_def)

lemmas amap_laws = amap.get_put amap.get_del amap.keys_put amap.keys_del

subsection \<open>The codec interface\<close>

text \<open>
  An encoder that may refuse a value and a decoder that may refuse a text; every value the
  encoder accepts is read back (up to \<open>norm\<close>, what the decoder's reading drops).
\<close>

locale codec =
  fixes enc :: "'a \<Rightarrow> 'e + 'b"
    and dec :: "'b \<Rightarrow> 'e + 'a"
    and norm :: "'a \<Rightarrow> 'a"
  assumes dec_enc: "enc x = Inr b \<Longrightarrow> dec b = Inr (norm x)"
begin

lemma enc_determines_norm: "enc x = Inr b \<Longrightarrow> enc y = Inr b \<Longrightarrow> norm x = norm y"
  by (drule dec_enc, drule dec_enc) simp

lemma dec_enc_total: "enc x = Inr b \<Longrightarrow> \<exists>y. dec b = Inr y"
  using dec_enc by blast

end

subsection \<open>State machines with an invariant\<close>

locale step_system =
  fixes init :: "'s \<Rightarrow> bool"
    and step :: "'e \<Rightarrow> 's \<Rightarrow> 's"
    and inv :: "'s \<Rightarrow> bool"
  assumes init_inv: "init s \<Longrightarrow> inv s"
    and step_inv: "inv s \<Longrightarrow> inv (step e s)"
begin

lemma fold_inv: "inv s \<Longrightarrow> inv (fold step es s)"
  by (induction es arbitrary: s) (auto intro: step_inv)

lemma run_inv: "init s \<Longrightarrow> inv (fold step es s)"
  by (rule fold_inv) (rule init_inv)

lemma run_take_inv: "init s \<Longrightarrow> inv (fold step (take n es) s)"
  by (rule run_inv)

end

subsection \<open>Lists\<close>

lemma find_None_notin: "find P xs = None \<longleftrightarrow> (\<forall>x \<in> set xs. \<not> P x)"
  by (auto simp: find_None_iff)

lemma sum_list_map_remove1:
  "x \<in> set xs \<Longrightarrow> sum_list (map f (remove1 x xs)) + (f x :: nat) = sum_list (map f xs)"
  by (induction xs) auto

end
