(* ===== verification/Bytes.thy ===== *)
theory Bytes
  imports Base "HOL-Library.Word"
begin

text \<open>
  Bytes and the \<open>DataView\<close> accessors the codecs use. A \<open>Uint8Array\<close> is a list of
  \<open>8 word\<close>; \<open>setUint8/16/32\<close> and \<open>setBigUint64\<close> write the value modulo the width, so
  they take an \<open>int\<close>; the getters return a \<open>nat\<close> (or an \<open>int\<close> for \<open>getInt32\<close>).
\<close>

type_synonym byte = "8 word"
type_synonym bytes = "8 word list"

primrec le_bytes :: "nat \<Rightarrow> int \<Rightarrow> bytes" where
  "le_bytes 0 v = []"
| "le_bytes (Suc n) v = word_of_int v # le_bytes n (v div 256)"

definition be_bytes :: "nat \<Rightarrow> int \<Rightarrow> bytes" where
  "be_bytes n v = rev (le_bytes n v)"

fun le_value :: "bytes \<Rightarrow> nat" where
  "le_value [] = 0"
| "le_value (b # bs) = unat b + 256 * le_value bs"

definition be_value :: "bytes \<Rightarrow> nat" where
  "be_value bs = le_value (rev bs)"

definition get_le :: "nat \<Rightarrow> nat \<Rightarrow> bytes \<Rightarrow> nat" where
  "get_le n off bs = le_value (take n (drop off bs))"

definition get_be :: "nat \<Rightarrow> nat \<Rightarrow> bytes \<Rightarrow> nat" where
  "get_be n off bs = be_value (take n (drop off bs))"

definition signed32 :: "nat \<Rightarrow> int" where
  "signed32 n = (if n < 2 ^ 31 then int n else int n - 2 ^ 32)"

lemma length_le_bytes [simp]: "length (le_bytes n v) = n"
  by (induction n arbitrary: v) auto

lemma length_be_bytes [simp]: "length (be_bytes n v) = n"
  by (simp add: be_bytes_def)

lemma unat_byte_bound: "unat (b :: byte) < 256"
  using unsigned_less [of b] by simp

lemma unat_byte_of_int: "unat (word_of_int v :: byte) = nat (v mod 256)"
  by (simp add: unat_eq_nat_uint uint_word_of_int)

lemma le_value_bound: "le_value bs < 256 ^ length bs"
proof (induction bs)
  case Nil
  then show ?case by simp
next
  case (Cons b bs)
  have "unat b + 256 * le_value bs < 256 * (le_value bs + 1)"
    using unat_byte_bound [of b] by simp
  also have "\<dots> \<le> 256 * 256 ^ length bs"
    using Cons.IH by (intro mult_le_mono2) simp
  finally show ?case by simp
qed

lemma int_le_value_le_bytes: "int (le_value (le_bytes n v)) = v mod 256 ^ n"
proof (induction n arbitrary: v)
  case 0
  then show ?case by simp
next
  case (Suc n)
  have "int (le_value (le_bytes (Suc n) v)) = v mod 256 + 256 * (v div 256 mod 256 ^ n)"
    by (simp add: unat_byte_of_int Suc.IH)
  also have "\<dots> = v mod (256 * 256 ^ n)"
    by (simp add: zmod_zmult2_eq)
  finally show ?case by simp
qed

lemma le_value_le_bytes: "0 \<le> v \<Longrightarrow> v < 256 ^ n \<Longrightarrow> le_value (le_bytes n v) = nat v"
  using int_le_value_le_bytes [of n v] by simp

lemma be_value_be_bytes: "0 \<le> v \<Longrightarrow> v < 256 ^ n \<Longrightarrow> be_value (be_bytes n v) = nat v"
  by (simp add: be_value_def be_bytes_def le_value_le_bytes)

lemma le_bytes_le_value: "le_bytes (length bs) (int (le_value bs)) = bs"
proof (induction bs)
  case Nil
  then show ?case by simp
next
  case (Cons b bs)
  have b: "int (unat b) div 256 = 0" "int (unat b) mod 256 = int (unat b)"
    using uint_lt2p [of b] by (simp_all add: div_pos_pos_trivial mod_pos_pos_trivial)
  have "word_of_int (int (unat b) + 256 * int (le_value bs)) = b"
    by (simp only: word_unat_eq_iff unat_byte_of_int mod_mult_self2 b nat_int)
  moreover have "(int (unat b) + 256 * int (le_value bs)) div 256 = int (le_value bs)"
    using b by simp
  ultimately show ?case using Cons.IH by simp
qed

lemma signed32_mod:
  "- (2 ^ 31) \<le> v \<Longrightarrow> v < 2 ^ 31 \<Longrightarrow> signed32 (nat (v mod 2 ^ 32)) = v"
proof -
  assume v: "- (2 ^ 31) \<le> v" "v < 2 ^ 31"
  show ?thesis
  proof (cases "0 \<le> v")
    case True
    then have "v mod 2 ^ 32 = v" using v by simp
    then show ?thesis using v True by (simp add: signed32_def)
  next
    case False
    have "(v + 2 ^ 32) mod 2 ^ 32 = v + 2 ^ 32"
      by (rule mod_pos_pos_trivial) (use v False in simp_all)
    then have "v mod 2 ^ 32 = v + 2 ^ 32" by simp
    then show ?thesis using v False by (simp add: signed32_def)
  qed
qed

text \<open>Fields of a record laid out one after the other.\<close>

lemma get_le_here:
  "length pre = off \<Longrightarrow> length f = n \<Longrightarrow> get_le n off (pre @ f @ rest) = le_value f"
  by (simp add: get_le_def)

lemma get_be_here:
  "length pre = off \<Longrightarrow> length f = n \<Longrightarrow> get_be n off (pre @ f @ rest) = be_value f"
  by (simp add: get_be_def)

lemma get_le_skip:
  "length pre \<le> off \<Longrightarrow> get_le n off (pre @ rest) = get_le n (off - length pre) rest"
  by (simp add: get_le_def)

lemma get_le_bound: "get_le n off bs < 256 ^ n"
proof -
  have "le_value (take n (drop off bs)) < 256 ^ length (take n (drop off bs))"
    by (rule le_value_bound)
  also have "\<dots> \<le> 256 ^ n" by (rule power_increasing) simp_all
  finally show ?thesis by (simp add: get_le_def)
qed

end
