(* ===== verification/Utf8.thy ===== *)
theory Utf8
  imports Bytes
begin

text \<open>
  JavaScript strings and the two Web text codecs the program calls. A string is its list of
  UTF-16 code units; \<open>new TextEncoder().encode(s)\<close> replaces a lone surrogate by U+FFFD and
  writes UTF-8; \<open>new TextDecoder("utf-8", { fatal: true }).decode(b)\<close> drops one leading byte
  order mark and throws on any malformed sequence (\<open>None\<close> here).
\<close>

type_synonym code_unit = "16 word"
type_synonym js_string = "16 word list"

definition high_surrogate :: "code_unit \<Rightarrow> bool" where
  "high_surrogate u \<longleftrightarrow> 0xD800 \<le> unat u \<and> unat u < 0xDC00"

definition low_surrogate :: "code_unit \<Rightarrow> bool" where
  "low_surrogate u \<longleftrightarrow> 0xDC00 \<le> unat u \<and> unat u < 0xE000"

definition pair_value :: "code_unit \<Rightarrow> code_unit \<Rightarrow> nat" where
  "pair_value u v = 0x10000 + (unat u - 0xD800) * 0x400 + (unat v - 0xDC00)"

definition unit_value :: "code_unit \<Rightarrow> nat" where
  "unit_value u = (if high_surrogate u \<or> low_surrogate u then 0xFFFD else unat u)"

fun scalar_values :: "js_string \<Rightarrow> nat list" where
  "scalar_values [] = []"
| "scalar_values [u] = [unit_value u]"
| "scalar_values (u # v # s) =
     (if high_surrogate u \<and> low_surrogate v then pair_value u v # scalar_values s
      else unit_value u # scalar_values (v # s))"

definition utf8_scalar :: "nat \<Rightarrow> bytes" where
  "utf8_scalar c = map of_nat
     (if c < 0x80 then [c]
      else if c < 0x800 then [0xC0 + c div 64, 0x80 + c mod 64]
      else if c < 0x10000 then [0xE0 + c div 4096, 0x80 + c div 64 mod 64, 0x80 + c mod 64]
      else [0xF0 + c div 262144, 0x80 + c div 4096 mod 64, 0x80 + c div 64 mod 64, 0x80 + c mod 64])"

definition text_encode :: "js_string \<Rightarrow> bytes" where
  "text_encode s = concat (map utf8_scalar (scalar_values s))"

definition in_range :: "nat \<Rightarrow> nat \<Rightarrow> byte \<Rightarrow> bool" where
  "in_range lo hi b \<longleftrightarrow> lo \<le> unat b \<and> unat b \<le> hi"

fun decode_scalars :: "bytes \<Rightarrow> nat list option" where
  "decode_scalars [] = Some []"
| "decode_scalars (a # r) =
     (if unat a < 0x80 then map_option ((#) (unat a)) (decode_scalars r)
      else if in_range 0xC2 0xDF a then
        (case r of b # r1 \<Rightarrow>
           if in_range 0x80 0xBF b
           then map_option ((#) ((unat a - 0xC0) * 64 + (unat b - 0x80))) (decode_scalars r1) else None
         | _ \<Rightarrow> None)
      else if in_range 0xE0 0xEF a then
        (case r of b # c # r2 \<Rightarrow>
           if in_range (if unat a = 0xE0 then 0xA0 else 0x80) (if unat a = 0xED then 0x9F else 0xBF) b
              \<and> in_range 0x80 0xBF c
           then map_option ((#) ((unat a - 0xE0) * 4096 + (unat b - 0x80) * 64 + (unat c - 0x80)))
                  (decode_scalars r2)
           else None
         | _ \<Rightarrow> None)
      else if in_range 0xF0 0xF4 a then
        (case r of b # c # d # r3 \<Rightarrow>
           if in_range (if unat a = 0xF0 then 0x90 else 0x80) (if unat a = 0xF4 then 0x8F else 0xBF) b
              \<and> in_range 0x80 0xBF c \<and> in_range 0x80 0xBF d
           then map_option ((#) ((unat a - 0xF0) * 262144 + (unat b - 0x80) * 4096
                                 + (unat c - 0x80) * 64 + (unat d - 0x80)))
                  (decode_scalars r3)
           else None
         | _ \<Rightarrow> None)
      else None)"

declare decode_scalars.simps(2) [simp del]

definition utf16_scalar :: "nat \<Rightarrow> js_string" where
  "utf16_scalar c = map of_nat
     (if c < 0x10000 then [c] else [0xD800 + (c - 0x10000) div 0x400, 0xDC00 + (c - 0x10000) mod 0x400])"

definition byte_order_mark :: bytes where
  "byte_order_mark = [0xEF, 0xBB, 0xBF]"

definition text_decode :: "bytes \<Rightarrow> js_string option" where
  "text_decode bs =
     map_option (\<lambda>cs. concat (map utf16_scalar cs))
       (decode_scalars (if take 3 bs = byte_order_mark then drop 3 bs else bs))"

subsection \<open>Scalar values\<close>

definition scalar :: "nat \<Rightarrow> bool" where
  "scalar c \<longleftrightarrow> c < 0x110000 \<and> \<not> (0xD800 \<le> c \<and> c < 0xE000)"

lemma unat_unit_bound: "unat (u :: code_unit) < 65536"
  using unsigned_less [of u] by simp

lemma scalar_unit_value: "scalar (unit_value u)"
  using unat_unit_bound [of u]
  by (auto simp: scalar_def unit_value_def high_surrogate_def low_surrogate_def)

lemma scalar_pair_value: "high_surrogate u \<Longrightarrow> low_surrogate v \<Longrightarrow> scalar (pair_value u v)"
  by (auto simp: scalar_def pair_value_def high_surrogate_def low_surrogate_def)

lemma scalar_values_scalar: "list_all scalar (scalar_values s)"
  by (induction s rule: scalar_values.induct) (auto simp: scalar_unit_value scalar_pair_value)

lemma unat_of_nat_byte: "n < 256 \<Longrightarrow> unat (of_nat n :: byte) = n"
  by (simp add: unat_of_nat)

lemma unat_of_nat_unit: "n < 65536 \<Longrightarrow> unat (of_nat n :: code_unit) = n"
  by (simp add: unat_of_nat)

subsection \<open>Reading back one scalar value\<close>

lemma decode_one_byte:
  "c < 0x80 \<Longrightarrow> decode_scalars (utf8_scalar c @ r) = map_option ((#) c) (decode_scalars r)"
  by (simp add: utf8_scalar_def decode_scalars.simps(2) unat_of_nat_byte)

lemma decode_two_bytes:
  assumes "0x80 \<le> c" "c < 0x800"
  shows "decode_scalars (utf8_scalar c @ r) = map_option ((#) c) (decode_scalars r)"
proof -
  define a b where "a = c div 64" and "b = c mod 64"
  have c: "c = a * 64 + b" by (simp add: a_def b_def)
  have "2 \<le> a" "a < 32" "b < 64" using assms by (auto simp: a_def b_def)
  moreover have "utf8_scalar c = [of_nat (0xC0 + a), of_nat (0x80 + b)]"
    using assms by (simp add: utf8_scalar_def a_def b_def)
  ultimately show ?thesis
    using c by (simp add: decode_scalars.simps(2) in_range_def unat_of_nat_byte del: of_nat_add)
qed

lemma decode_three_bytes:
  assumes "0x800 \<le> c" "c < 0x10000" "scalar c"
  shows "decode_scalars (utf8_scalar c @ r) = map_option ((#) c) (decode_scalars r)"
proof -
  define a b d where "a = c div 4096" and "b = c div 64 mod 64" and "d = c mod 64"
  have "c div 64 div 64 = a" by (simp add: a_def flip: div_mult2_eq)
  then have c: "c = a * 4096 + b * 64 + d"
    using div_mult_mod_eq [of "c div 64" 64] div_mult_mod_eq [of c 64]
    unfolding b_def d_def by linarith
  have bounds: "a < 16" "b < 64" "d < 64" using assms by (auto simp: a_def b_def d_def)
  have low: "a = 0 \<Longrightarrow> 32 \<le> b" using c assms(1) bounds by simp
  have surr: "a = 13 \<Longrightarrow> b < 32"
    using c assms(3) bounds by (simp add: scalar_def)
  have "utf8_scalar c = [of_nat (0xE0 + a), of_nat (0x80 + b), of_nat (0x80 + d)]"
    using assms by (simp add: utf8_scalar_def a_def b_def d_def)
  then show ?thesis
    using c bounds low surr
    by (auto simp: decode_scalars.simps(2) in_range_def unat_of_nat_byte simp del: of_nat_add)
qed

lemma decode_four_bytes:
  assumes "0x10000 \<le> c" "c < 0x110000"
  shows "decode_scalars (utf8_scalar c @ r) = map_option ((#) c) (decode_scalars r)"
proof -
  define a b d e where "a = c div 262144" and "b = c div 4096 mod 64" and "d = c div 64 mod 64"
    and "e = c mod 64"
  have "c div 64 div 64 = c div 4096" "c div 4096 div 64 = a"
    by (simp_all add: a_def flip: div_mult2_eq)
  then have c: "c = a * 262144 + b * 4096 + d * 64 + e"
    using div_mult_mod_eq [of "c div 4096" 64] div_mult_mod_eq [of "c div 64" 64]
      div_mult_mod_eq [of c 64]
    unfolding b_def d_def e_def by linarith
  have bounds: "a < 5" "b < 64" "d < 64" "e < 64"
    using assms by (auto simp: a_def b_def d_def e_def)
  have low: "a = 0 \<Longrightarrow> 16 \<le> b" using c assms(1) bounds by simp
  have high: "a = 4 \<Longrightarrow> b < 16" using c assms(2) bounds by simp
  have "utf8_scalar c = [of_nat (0xF0 + a), of_nat (0x80 + b), of_nat (0x80 + d), of_nat (0x80 + e)]"
    using assms by (simp add: utf8_scalar_def a_def b_def d_def e_def)
  then show ?thesis
    using c bounds low high
    by (auto simp: decode_scalars.simps(2) in_range_def unat_of_nat_byte simp del: of_nat_add)
qed

lemma decode_utf8_scalar:
  "scalar c \<Longrightarrow> decode_scalars (utf8_scalar c @ r) = map_option ((#) c) (decode_scalars r)"
  by (cases "c < 0x80"; cases "c < 0x800"; cases "c < 0x10000")
    (simp_all add: decode_one_byte decode_two_bytes decode_three_bytes decode_four_bytes scalar_def)

lemma decode_scalars_encode:
  "list_all scalar cs \<Longrightarrow> decode_scalars (concat (map utf8_scalar cs)) = Some cs"
  by (induction cs) (simp_all add: decode_utf8_scalar)

subsection \<open>Reading back a string\<close>

text \<open>
  What a string becomes on the way through the two codecs: lone surrogates are U+FFFD and one
  leading U+FEFF is gone.
\<close>

definition strip_bom :: "nat list \<Rightarrow> nat list" where
  "strip_bom cs = (case cs of [] \<Rightarrow> [] | c # r \<Rightarrow> if c = 0xFEFF then r else cs)"

definition text_norm :: "js_string \<Rightarrow> js_string" where
  "text_norm s = concat (map utf16_scalar (strip_bom (scalar_values s)))"

lemma utf8_bom: "utf8_scalar 0xFEFF = byte_order_mark"
  by (simp add: utf8_scalar_def byte_order_mark_def)

lemma utf8_scalar_nonempty: "utf8_scalar c \<noteq> []"
  by (simp add: utf8_scalar_def)

lemma decode_bom: "decode_scalars (byte_order_mark @ r) = map_option ((#) 0xFEFF) (decode_scalars r)"
  using decode_utf8_scalar [of "0xFEFF" r] by (simp add: utf8_bom scalar_def)

lemma starts_with_bom:
  assumes "list_all scalar cs"
  shows "take 3 (concat (map utf8_scalar cs)) = byte_order_mark \<longleftrightarrow> (\<exists>r. cs = 0xFEFF # r)"
proof
  assume bom: "take 3 (concat (map utf8_scalar cs)) = byte_order_mark"
  have "concat (map utf8_scalar cs) = byte_order_mark @ drop 3 (concat (map utf8_scalar cs))"
    using bom by (metis append_take_drop_id)
  then have "Some cs = map_option ((#) 0xFEFF) (decode_scalars (drop 3 (concat (map utf8_scalar cs))))"
    using decode_scalars_encode [OF assms] decode_bom by metis
  then obtain r where "cs = 0xFEFF # r" by (metis map_option_eq_Some)
  then show "\<exists>r. cs = 0xFEFF # r" by blast
qed (auto simp: utf8_bom byte_order_mark_def)

lemma text_decode_encode: "text_decode (text_encode s) = Some (text_norm s)"
proof (cases "\<exists>r. scalar_values s = 0xFEFF # r")
  case True
  then obtain r where r: "scalar_values s = 0xFEFF # r" by blast
  then have "list_all scalar r" using scalar_values_scalar [of s] by simp
  then show ?thesis
    using r decode_scalars_encode [of r]
    by (simp add: text_decode_def text_encode_def text_norm_def strip_bom_def utf8_bom
        byte_order_mark_def)
next
  case False
  then have "strip_bom (scalar_values s) = scalar_values s"
    by (auto simp: strip_bom_def split: list.splits)
  then show ?thesis
    using False starts_with_bom [OF scalar_values_scalar, of s]
      decode_scalars_encode [OF scalar_values_scalar, of s]
    by (simp add: text_decode_def text_encode_def text_norm_def)
qed

interpretation utf8: codec "\<lambda>s. Inr (text_encode s) :: unit + bytes"
  "\<lambda>b. case text_decode b of Some s \<Rightarrow> Inr s | None \<Rightarrow> Inl ()" text_norm
  by unfold_locales (auto simp: text_decode_encode)

text \<open>A string with no lone surrogate and no leading U+FEFF comes back unchanged.\<close>

fun well_paired :: "js_string \<Rightarrow> bool" where
  "well_paired [] = True"
| "well_paired [u] = (\<not> high_surrogate u \<and> \<not> low_surrogate u)"
| "well_paired (u # v # s) =
     (if high_surrogate u \<and> low_surrogate v then well_paired s
      else \<not> high_surrogate u \<and> \<not> low_surrogate u \<and> well_paired (v # s))"

definition plain_text :: "js_string \<Rightarrow> bool" where
  "plain_text s \<longleftrightarrow> well_paired s \<and> (case s of [] \<Rightarrow> True | u # _ \<Rightarrow> u \<noteq> 0xFEFF)"

lemma utf16_unit_value:
  "\<not> high_surrogate u \<Longrightarrow> \<not> low_surrogate u \<Longrightarrow> utf16_scalar (unit_value u) = [u]"
  using unat_unit_bound [of u] by (simp add: unit_value_def utf16_scalar_def)

lemma utf16_pair_value:
  assumes "high_surrogate u" "low_surrogate v"
  shows "utf16_scalar (pair_value u v) = [u, v]"
proof -
  define a b where "a = unat u - 0xD800" and "b = unat v - 0xDC00"
  have u: "unat u = 0xD800 + a" and v: "unat v = 0xDC00 + b" and b: "b < 0x400" and a: "a < 0x400"
    using assms by (auto simp: a_def b_def high_surrogate_def low_surrogate_def)
  have "pair_value u v = 0x10000 + (a * 0x400 + b)"
    by (simp add: pair_value_def a_def b_def)
  then have "utf16_scalar (pair_value u v) = map of_nat [0xD800 + a, 0xDC00 + b]"
    using b by (simp add: utf16_scalar_def)
  then show ?thesis by (simp only: u [symmetric] v [symmetric]) simp
qed

lemma utf16_scalar_values: "well_paired s \<Longrightarrow> concat (map utf16_scalar (scalar_values s)) = s"
  by (induction s rule: scalar_values.induct)
    (auto simp: utf16_unit_value utf16_pair_value split: if_splits)

lemma scalar_values_Cons:
  "scalar_values (u # s) \<noteq> [] \<and>
   (hd (scalar_values (u # s)) = 0xFEFF \<longrightarrow> u = 0xFEFF)"
proof (cases s)
  case Nil
  then show ?thesis by (auto simp: unit_value_def word_unat_eq_iff split: if_splits)
next
  case (Cons v t)
  then show ?thesis
    by (auto simp: unit_value_def pair_value_def word_unat_eq_iff split: if_splits)
qed

lemma text_norm_plain: "plain_text s \<Longrightarrow> text_norm s = s"
proof (cases s)
  case Nil
  then show ?thesis by (simp add: text_norm_def strip_bom_def)
next
  case (Cons u t)
  assume p: "plain_text s"
  then have "strip_bom (scalar_values s) = scalar_values s"
    using scalar_values_Cons [of u t] Cons
    by (auto simp: strip_bom_def plain_text_def split: list.splits)
  then show ?thesis using p by (simp add: text_norm_def utf16_scalar_values plain_text_def)
qed

lemma length_utf8_scalar: "1 \<le> length (utf8_scalar c)" "length (utf8_scalar c) \<le> 4"
  by (simp_all add: utf8_scalar_def)

text \<open>UTF-16 code units never outnumber UTF-8 bytes (the paste limit's early check).\<close>

lemma length_text_encode: "length s \<le> length (text_encode s)"
proof (induction s rule: scalar_values.induct)
  case 1
  then show ?case by simp
next
  case (2 u)
  then show ?case using length_utf8_scalar(1) by (simp add: text_encode_def)
next
  case (3 u v s)
  show ?case
  proof (cases "high_surrogate u \<and> low_surrogate v")
    case True
    then have "length (utf8_scalar (pair_value u v)) = 4"
      by (simp add: utf8_scalar_def pair_value_def)
    then show ?thesis using 3(1) True by (simp add: text_encode_def)
  next
    case False
    then show ?thesis
      using 3(2) length_utf8_scalar(1) [of "unit_value u"] by (auto simp: text_encode_def)
  qed
qed

end
