(* ===== verification/Protocol_Tables.thy ===== *)
theory Protocol_Tables
  imports Base
begin

text \<open>
  The code tables of \<open>src/botster/generated/terminal-protocol.ts\<close>: each \<open>as const\<close> object is
  a datatype of its names, the names in the object's order and the code of each name. \<open>nameOf\<close>
  searches the table in that order and throws on an unknown value. The table
  \<open>TerminalKey\<close>, keyed by the W3C \<open>KeyboardEvent.code\<close> string, stays an association list.
\<close>

datatype protocol_error =
    TruncatedHeader
  | WrongSchemeVersion nat
  | BodyLengthMismatch nat nat
  | BodyLength nat nat
  | UnknownKind nat
  | UnknownValue nat
  | InvalidDetail
  | InvalidUtf8
  | BodyTooLarge nat
  | InvalidOperationId int
  | PayloadTooLarge nat nat nat
  | EmptyPaste

subsection \<open>Tables\<close>

datatype terminal_kind = TK_output | TK_snapshot_ready | TK_snapshot_history | TK_snapshot_finish |
    TK_process_exit | TK_modes | TK_attach_state | TK_input_result | TK_history_unavailable |
    TK_route_resync

definition terminal_kind_names :: "terminal_kind list" where
  "terminal_kind_names = [TK_output, TK_snapshot_ready, TK_snapshot_history, TK_snapshot_finish,
    TK_process_exit, TK_modes, TK_attach_state, TK_input_result, TK_history_unavailable, TK_route_resync]"

primrec terminal_kind_code :: "terminal_kind \<Rightarrow> nat" where
  "terminal_kind_code TK_output = 1"
| "terminal_kind_code TK_snapshot_ready = 2"
| "terminal_kind_code TK_snapshot_history = 3"
| "terminal_kind_code TK_snapshot_finish = 4"
| "terminal_kind_code TK_process_exit = 5"
| "terminal_kind_code TK_modes = 6"
| "terminal_kind_code TK_attach_state = 16"
| "terminal_kind_code TK_input_result = 17"
| "terminal_kind_code TK_history_unavailable = 18"
| "terminal_kind_code TK_route_resync = 19"

datatype attach_state = AS_attaching | AS_attached | AS_detached | AS_failed

definition attach_state_names :: "attach_state list" where
  "attach_state_names = [AS_attaching, AS_attached, AS_detached, AS_failed]"

primrec attach_state_code :: "attach_state \<Rightarrow> nat" where
  "attach_state_code AS_attaching = 1"
| "attach_state_code AS_attached = 2"
| "attach_state_code AS_detached = 3"
| "attach_state_code AS_failed = 4"

datatype history_reason = HU_evicted | HU_restart | HU_oversize | HU_capture_failed

definition history_reason_names :: "history_reason list" where
  "history_reason_names = [HU_evicted, HU_restart, HU_oversize, HU_capture_failed]"

primrec history_reason_code :: "history_reason \<Rightarrow> nat" where
  "history_reason_code HU_evicted = 1"
| "history_reason_code HU_restart = 2"
| "history_reason_code HU_oversize = 3"
| "history_reason_code HU_capture_failed = 4"

datatype input_outcome = IO_written | IO_partial_write | IO_write_failed | IO_cancelled |
    IO_rejected_not_writable | IO_rejected_too_large | IO_rejected_unsafe_paste | IO_rejected_lane_full |
    IO_rejected_protocol | IO_session_ended | IO_outcome_unknown

definition input_outcome_names :: "input_outcome list" where
  "input_outcome_names = [IO_written, IO_partial_write, IO_write_failed, IO_cancelled,
    IO_rejected_not_writable, IO_rejected_too_large, IO_rejected_unsafe_paste, IO_rejected_lane_full,
    IO_rejected_protocol, IO_session_ended, IO_outcome_unknown]"

primrec input_outcome_code :: "input_outcome \<Rightarrow> nat" where
  "input_outcome_code IO_written = 1"
| "input_outcome_code IO_partial_write = 2"
| "input_outcome_code IO_write_failed = 3"
| "input_outcome_code IO_cancelled = 4"
| "input_outcome_code IO_rejected_not_writable = 5"
| "input_outcome_code IO_rejected_too_large = 6"
| "input_outcome_code IO_rejected_unsafe_paste = 7"
| "input_outcome_code IO_rejected_lane_full = 8"
| "input_outcome_code IO_rejected_protocol = 9"
| "input_outcome_code IO_session_ended = 10"
| "input_outcome_code IO_outcome_unknown = 11"

datatype mode_bit = MB_kitty_keyboard | MB_cursor_visible | MB_bracketed_paste | MB_mouse_normal |
    MB_mouse_any | MB_mouse_button | MB_mouse_sgr | MB_alt_screen | MB_focus_reporting |
    MB_application_cursor

definition mode_bit_names :: "mode_bit list" where
  "mode_bit_names = [MB_kitty_keyboard, MB_cursor_visible, MB_bracketed_paste, MB_mouse_normal,
    MB_mouse_any, MB_mouse_button, MB_mouse_sgr, MB_alt_screen, MB_focus_reporting, MB_application_cursor]"

primrec mode_bit_code :: "mode_bit \<Rightarrow> nat" where
  "mode_bit_code MB_kitty_keyboard = 1"
| "mode_bit_code MB_cursor_visible = 2"
| "mode_bit_code MB_bracketed_paste = 4"
| "mode_bit_code MB_mouse_normal = 8"
| "mode_bit_code MB_mouse_any = 16"
| "mode_bit_code MB_mouse_button = 32"
| "mode_bit_code MB_mouse_sgr = 64"
| "mode_bit_code MB_alt_screen = 128"
| "mode_bit_code MB_focus_reporting = 256"
| "mode_bit_code MB_application_cursor = 512"

datatype input_kind = IK_raw_bytes | IK_key | IK_mouse | IK_focus | IK_resize | IK_paste_begin |
    IK_paste_chunk | IK_paste_commit | IK_paste_abort

definition input_kind_names :: "input_kind list" where
  "input_kind_names = [IK_raw_bytes, IK_key, IK_mouse, IK_focus, IK_resize, IK_paste_begin, IK_paste_chunk,
    IK_paste_commit, IK_paste_abort]"

primrec input_kind_code :: "input_kind \<Rightarrow> nat" where
  "input_kind_code IK_raw_bytes = 1"
| "input_kind_code IK_key = 2"
| "input_kind_code IK_mouse = 3"
| "input_kind_code IK_focus = 4"
| "input_kind_code IK_resize = 5"
| "input_kind_code IK_paste_begin = 6"
| "input_kind_code IK_paste_chunk = 7"
| "input_kind_code IK_paste_commit = 8"
| "input_kind_code IK_paste_abort = 9"

datatype key_action = KA_press | KA_release | KA_repeat

definition key_action_names :: "key_action list" where
  "key_action_names = [KA_press, KA_release, KA_repeat]"

primrec key_action_code :: "key_action \<Rightarrow> nat" where
  "key_action_code KA_press = 1"
| "key_action_code KA_release = 2"
| "key_action_code KA_repeat = 3"

datatype mouse_action = MA_press | MA_release | MA_motion

definition mouse_action_names :: "mouse_action list" where
  "mouse_action_names = [MA_press, MA_release, MA_motion]"

primrec mouse_action_code :: "mouse_action \<Rightarrow> nat" where
  "mouse_action_code MA_press = 1"
| "mouse_action_code MA_release = 2"
| "mouse_action_code MA_motion = 3"

datatype mouse_button = MBt_left | MBt_right | MBt_middle | MBt_wheel_up | MBt_wheel_down | MBt_wheel_left |
    MBt_wheel_right | MBt_button8 | MBt_button9 | MBt_button10 | MBt_button11

definition mouse_button_names :: "mouse_button list" where
  "mouse_button_names = [MBt_left, MBt_right, MBt_middle, MBt_wheel_up, MBt_wheel_down, MBt_wheel_left,
    MBt_wheel_right, MBt_button8, MBt_button9, MBt_button10, MBt_button11]"

primrec mouse_button_code :: "mouse_button \<Rightarrow> nat" where
  "mouse_button_code MBt_left = 1"
| "mouse_button_code MBt_right = 2"
| "mouse_button_code MBt_middle = 3"
| "mouse_button_code MBt_wheel_up = 4"
| "mouse_button_code MBt_wheel_down = 5"
| "mouse_button_code MBt_wheel_left = 6"
| "mouse_button_code MBt_wheel_right = 7"
| "mouse_button_code MBt_button8 = 8"
| "mouse_button_code MBt_button9 = 9"
| "mouse_button_code MBt_button10 = 10"
| "mouse_button_code MBt_button11 = 11"

datatype terminal_mod = TM_shift | TM_ctrl | TM_alt | TM_super | TM_caps_lock | TM_num_lock | TM_shift_side
    | TM_ctrl_side | TM_alt_side | TM_super_side

definition terminal_mod_names :: "terminal_mod list" where
  "terminal_mod_names = [TM_shift, TM_ctrl, TM_alt, TM_super, TM_caps_lock, TM_num_lock, TM_shift_side,
    TM_ctrl_side, TM_alt_side, TM_super_side]"

primrec terminal_mod_code :: "terminal_mod \<Rightarrow> nat" where
  "terminal_mod_code TM_shift = 1"
| "terminal_mod_code TM_ctrl = 2"
| "terminal_mod_code TM_alt = 4"
| "terminal_mod_code TM_super = 8"
| "terminal_mod_code TM_caps_lock = 16"
| "terminal_mod_code TM_num_lock = 32"
| "terminal_mod_code TM_shift_side = 64"
| "terminal_mod_code TM_ctrl_side = 128"
| "terminal_mod_code TM_alt_side = 256"
| "terminal_mod_code TM_super_side = 512"

definition terminal_key_table :: "(string \<times> nat) list" where
  "terminal_key_table = [
    (''Unidentified'', 0), (''Backquote'', 1), (''Backslash'', 2), (''BracketLeft'', 3),
    (''BracketRight'', 4), (''Comma'', 5), (''Digit0'', 6), (''Digit1'', 7),
    (''Digit2'', 8), (''Digit3'', 9), (''Digit4'', 10), (''Digit5'', 11),
    (''Digit6'', 12), (''Digit7'', 13), (''Digit8'', 14), (''Digit9'', 15),
    (''Equal'', 16), (''IntlBackslash'', 17), (''IntlRo'', 18), (''IntlYen'', 19),
    (''KeyA'', 20), (''KeyB'', 21), (''KeyC'', 22), (''KeyD'', 23),
    (''KeyE'', 24), (''KeyF'', 25), (''KeyG'', 26), (''KeyH'', 27),
    (''KeyI'', 28), (''KeyJ'', 29), (''KeyK'', 30), (''KeyL'', 31),
    (''KeyM'', 32), (''KeyN'', 33), (''KeyO'', 34), (''KeyP'', 35),
    (''KeyQ'', 36), (''KeyR'', 37), (''KeyS'', 38), (''KeyT'', 39),
    (''KeyU'', 40), (''KeyV'', 41), (''KeyW'', 42), (''KeyX'', 43),
    (''KeyY'', 44), (''KeyZ'', 45), (''Minus'', 46), (''Period'', 47),
    (''Quote'', 48), (''Semicolon'', 49), (''Slash'', 50), (''AltLeft'', 51),
    (''AltRight'', 52), (''Backspace'', 53), (''CapsLock'', 54), (''ContextMenu'', 55),
    (''ControlLeft'', 56), (''ControlRight'', 57), (''Enter'', 58), (''MetaLeft'', 59),
    (''MetaRight'', 60), (''ShiftLeft'', 61), (''ShiftRight'', 62), (''Space'', 63),
    (''Tab'', 64), (''Convert'', 65), (''KanaMode'', 66), (''NonConvert'', 67),
    (''Delete'', 68), (''End'', 69), (''Help'', 70), (''Home'', 71),
    (''Insert'', 72), (''PageDown'', 73), (''PageUp'', 74), (''ArrowDown'', 75),
    (''ArrowLeft'', 76), (''ArrowRight'', 77), (''ArrowUp'', 78), (''NumLock'', 79),
    (''Numpad0'', 80), (''Numpad1'', 81), (''Numpad2'', 82), (''Numpad3'', 83),
    (''Numpad4'', 84), (''Numpad5'', 85), (''Numpad6'', 86), (''Numpad7'', 87),
    (''Numpad8'', 88), (''Numpad9'', 89), (''NumpadAdd'', 90), (''NumpadBackspace'', 91),
    (''NumpadClear'', 92), (''NumpadClearEntry'', 93), (''NumpadComma'', 94), (''NumpadDecimal'', 95),
    (''NumpadDivide'', 96), (''NumpadEnter'', 97), (''NumpadEqual'', 98), (''NumpadMemoryAdd'', 99),
    (''NumpadMemoryClear'', 100), (''NumpadMemoryRecall'', 101), (''NumpadMemoryStore'', 102), (''NumpadMemorySubtract'', 103),
    (''NumpadMultiply'', 104), (''NumpadParenLeft'', 105), (''NumpadParenRight'', 106), (''NumpadSubtract'', 107),
    (''NumpadSeparator'', 108), (''NumpadUp'', 109), (''NumpadDown'', 110), (''NumpadRight'', 111),
    (''NumpadLeft'', 112), (''NumpadBegin'', 113), (''NumpadHome'', 114), (''NumpadEnd'', 115),
    (''NumpadInsert'', 116), (''NumpadDelete'', 117), (''NumpadPageUp'', 118), (''NumpadPageDown'', 119),
    (''Escape'', 120), (''F1'', 121), (''F2'', 122), (''F3'', 123),
    (''F4'', 124), (''F5'', 125), (''F6'', 126), (''F7'', 127),
    (''F8'', 128), (''F9'', 129), (''F10'', 130), (''F11'', 131),
    (''F12'', 132), (''F13'', 133), (''F14'', 134), (''F15'', 135),
    (''F16'', 136), (''F17'', 137), (''F18'', 138), (''F19'', 139),
    (''F20'', 140), (''F21'', 141), (''F22'', 142), (''F23'', 143),
    (''F24'', 144), (''F25'', 145), (''Fn'', 146), (''FnLock'', 147),
    (''PrintScreen'', 148), (''ScrollLock'', 149), (''Pause'', 150), (''BrowserBack'', 151),
    (''BrowserFavorites'', 152), (''BrowserForward'', 153), (''BrowserHome'', 154), (''BrowserRefresh'', 155),
    (''BrowserSearch'', 156), (''BrowserStop'', 157), (''Eject'', 158), (''LaunchApp1'', 159),
    (''LaunchApp2'', 160), (''LaunchMail'', 161), (''MediaPlayPause'', 162), (''MediaSelect'', 163),
    (''MediaStop'', 164), (''MediaTrackNext'', 165), (''MediaTrackPrevious'', 166), (''Power'', 167),
    (''Sleep'', 168), (''AudioVolumeDown'', 169), (''AudioVolumeMute'', 170), (''AudioVolumeUp'', 171),
    (''WakeUp'', 172), (''Copy'', 173), (''Cut'', 174), (''Paste'', 175)]"

subsection \<open>Name look-up\<close>

definition name_of :: "'n list \<Rightarrow> ('n \<Rightarrow> nat) \<Rightarrow> nat \<Rightarrow> protocol_error + 'n" where
  "name_of names code v =
     (case find (\<lambda>n. code n = v) names of Some n \<Rightarrow> Inr n | None \<Rightarrow> Inl (UnknownValue v))"

text \<open>A table lists every name once with its own code, so a code reads back as its name.\<close>

locale code_table =
  fixes names :: "'n list" and code :: "'n \<Rightarrow> nat"
  assumes names_all: "n \<in> set names"
    and code_inj: "code n = code m \<Longrightarrow> n = m"
begin

lemma name_of_code: "name_of names code (code n) = Inr n"
proof (cases "find (\<lambda>m. code m = code n) names")
  case None
  then show ?thesis using names_all [of n] by (auto simp: find_None_iff)
next
  case (Some m)
  then have "code m = code n" by (auto simp: find_Some_iff)
  with Some show ?thesis by (simp add: name_of_def code_inj)
qed

lemma name_of_Inr: "name_of names code v = Inr n \<Longrightarrow> code n = v"
  by (auto simp: name_of_def find_Some_iff split: option.splits)

lemma name_of_Inr_iff: "name_of names code v = Inr n \<longleftrightarrow> code n = v"
  using name_of_Inr name_of_code by blast

lemma name_of_Inl_iff: "name_of names code v = Inl e \<longleftrightarrow> e = UnknownValue v \<and> v \<notin> range code"
proof
  assume l: "name_of names code v = Inl e"
  then have "e = UnknownValue v" "find (\<lambda>n. code n = v) names = None"
    by (auto simp: name_of_def split: option.splits)
  then show "e = UnknownValue v \<and> v \<notin> range code"
    using names_all by (auto simp: find_None_iff)
next
  assume r: "e = UnknownValue v \<and> v \<notin> range code"
  then have "find (\<lambda>n. code n = v) names = None" by (auto simp: find_None_iff)
  with r show "name_of names code v = Inl e" by (simp add: name_of_def)
qed

end

interpretation attach_states: code_table attach_state_names attach_state_code
proof unfold_locales
  fix n m :: attach_state
  show "n \<in> set attach_state_names" by (cases n) (simp_all add: attach_state_names_def)
  show "attach_state_code n = attach_state_code m \<Longrightarrow> n = m" by (cases n; cases m) simp_all
qed

interpretation history_reasons: code_table history_reason_names history_reason_code
proof unfold_locales
  fix n m :: history_reason
  show "n \<in> set history_reason_names" by (cases n) (simp_all add: history_reason_names_def)
  show "history_reason_code n = history_reason_code m \<Longrightarrow> n = m" by (cases n; cases m) simp_all
qed

interpretation input_outcomes: code_table input_outcome_names input_outcome_code
proof unfold_locales
  fix n m :: input_outcome
  show "n \<in> set input_outcome_names" by (cases n) (simp_all add: input_outcome_names_def)
  show "input_outcome_code n = input_outcome_code m \<Longrightarrow> n = m" by (cases n; cases m) simp_all
qed

text \<open>Every code of the tables a one-byte field carries fits in the byte.\<close>

lemma attach_state_code_bound: "attach_state_code x < 256"
  by (cases x) simp_all

lemma history_reason_code_bound: "history_reason_code x < 256"
  by (cases x) simp_all

lemma input_outcome_code_bound: "input_outcome_code x < 256"
  by (cases x) simp_all

lemma terminal_kind_code_bound: "terminal_kind_code x < 256"
  by (cases x) simp_all

lemma input_kind_code_bound: "input_kind_code x < 256"
  by (cases x) simp_all

lemma key_action_code_bound: "key_action_code x < 256"
  by (cases x) simp_all

lemma mouse_action_code_bound: "mouse_action_code x < 256"
  by (cases x) simp_all

lemma mouse_button_code_bound: "mouse_button_code x < 256"
  by (cases x) simp_all

lemmas code_bounds = attach_state_code_bound history_reason_code_bound input_outcome_code_bound terminal_kind_code_bound
  input_kind_code_bound key_action_code_bound mouse_action_code_bound mouse_button_code_bound

subsection \<open>Physical keys\<close>

text \<open>
  \<open>terminalKeyFromCode\<close> reads a property of the table object and falls back to
  \<open>Unidentified\<close>. A name of \<open>Object.prototype\<close> reads a non-number there, which the
  \<open>setUint16\<close> of the encoder writes as 0, the code of \<open>Unidentified\<close> too.
\<close>

definition terminal_key_from_code :: "string \<Rightarrow> nat" where
  "terminal_key_from_code code =
     (case map_of terminal_key_table code of Some value \<Rightarrow> value | None \<Rightarrow> 0)"

lemma terminal_key_table_codes: "map snd terminal_key_table = [0..<176]"
  by code_simp

lemma terminal_key_from_code_bound: "terminal_key_from_code code < 176"
proof (cases "map_of terminal_key_table code")
  case None
  then show ?thesis by (simp add: terminal_key_from_code_def)
next
  case (Some v)
  then have "v \<in> set (map snd terminal_key_table)"
    by (force dest: map_of_SomeD)
  then show ?thesis using Some by (simp add: terminal_key_table_codes terminal_key_from_code_def)
qed

end
