(* ===== verification/Terminal_Protocol.thy ===== *)
theory Terminal_Protocol
  imports Utf8 Protocol_Tables
begin

text \<open>
  The terminal stream codec of \<open>src/botster/generated/terminal-protocol.ts\<close>:
  \<open>decodeTerminalBody\<close> (Core to Web) and \<open>encodeTerminalBody\<close>. JavaScript numbers and bigints
  are \<open>int\<close>; a \<open>DataView\<close> setter reduces them modulo its width. The input frames (Web to
  Core) are in the theory \<open>Terminal_Input_Frames\<close>.
\<close>

unbundle bit_operations_syntax

subsection \<open>Constants\<close>

definition TERMINAL_STREAM_SCHEME_VERSION :: nat where "TERMINAL_STREAM_SCHEME_VERSION = 2"
definition TERMINAL_BODY_HEADER_BYTES :: nat where "TERMINAL_BODY_HEADER_BYTES = 8"
definition MAX_TERMINAL_BODY_BYTES :: nat where "MAX_TERMINAL_BODY_BYTES = 4194296"
definition MAX_INPUT_RESULT_DETAIL_BYTES :: nat where "MAX_INPUT_RESULT_DETAIL_BYTES = 1024"
definition MAX_OPERATION_ID :: int where "MAX_OPERATION_ID = 2 ^ 64 - 1"

lemmas stream_constants =
  TERMINAL_STREAM_SCHEME_VERSION_def TERMINAL_BODY_HEADER_BYTES_def MAX_TERMINAL_BODY_BYTES_def
  MAX_INPUT_RESULT_DETAIL_BYTES_def

subsection \<open>Events\<close>

record input_result_body =
  operation_id :: int
  outcome :: input_outcome
  accepted_payload_bytes :: "int option"
  written_pty_bytes :: "int option"
  result_mode_bits :: int
  result_detail :: js_string

datatype terminal_event =
    Output bytes
  | Snapshot_ready bytes
  | Snapshot_history bytes
  | Snapshot_finish
  | Process_exit "int option"
  | Modes int int int
  | Attach_state attach_state
  | Input_result input_result_body
  | History_unavailable history_reason
  | Route_resync int int

subsection \<open>Mode flags\<close>

record mode_flags =
  kitty_enabled :: bool
  cursor_visible :: bool
  bracketed_paste :: bool
  mouse_normal :: bool
  mouse_any :: bool
  mouse_button_mode :: bool
  mouse_sgr :: bool
  alt_screen :: bool
  focus_reporting :: bool
  application_cursor :: bool

definition mode_set :: "int \<Rightarrow> mode_bit \<Rightarrow> bool" where
  "mode_set bits m \<longleftrightarrow> bits AND int (mode_bit_code m) \<noteq> 0"

definition decode_mode_flags :: "int \<Rightarrow> mode_flags" where
  "decode_mode_flags bits = \<lparr>
     kitty_enabled = mode_set bits MB_kitty_keyboard,
     cursor_visible = mode_set bits MB_cursor_visible,
     bracketed_paste = mode_set bits MB_bracketed_paste,
     mouse_normal = mode_set bits MB_mouse_normal,
     mouse_any = mode_set bits MB_mouse_any,
     mouse_button_mode = mode_set bits MB_mouse_button,
     mouse_sgr = mode_set bits MB_mouse_sgr,
     alt_screen = mode_set bits MB_alt_screen,
     focus_reporting = mode_set bits MB_focus_reporting,
     application_cursor = mode_set bits MB_application_cursor\<rparr>"

subsection \<open>Decoding\<close>

definition expect_length :: "bytes \<Rightarrow> nat \<Rightarrow> protocol_error + unit" where
  "expect_length body expected = require (length body = expected) (BodyLength expected (length body))"

definition optional_u64 :: "nat \<Rightarrow> bytes \<Rightarrow> int option" where
  "optional_u64 off body =
     (if body ! off = 1 then Some (int (get_le 8 (off + 1) body)) else None)"

definition decode_input_result :: "bytes \<Rightarrow> protocol_error + input_result_body" where
  "decode_input_result body =
     (if length body < 33 then Inl (BodyLength 33 (length body))
      else let detail_len = get_le 2 31 body; detail_bytes = drop 33 body in
        if detail_len \<noteq> length detail_bytes \<or> detail_len > MAX_INPUT_RESULT_DETAIL_BYTES
        then Inl InvalidDetail
        else and_then (name_of input_outcome_names input_outcome_code (unat (body ! 8))) (\<lambda>oc.
          case text_decode detail_bytes of
            None \<Rightarrow> Inl InvalidUtf8
          | Some detail \<Rightarrow> Inr \<lparr>
              operation_id = int (get_le 8 0 body),
              outcome = oc,
              accepted_payload_bytes = optional_u64 9 body,
              written_pty_bytes = optional_u64 18 body,
              result_mode_bits = int (get_le 4 27 body),
              result_detail = detail\<rparr>))"

definition decode_process_exit :: "bytes \<Rightarrow> int option" where
  "decode_process_exit body =
     (if body ! 0 = 1 then Some (signed32 (get_le 4 1 body)) else None)"

definition decode_body :: "nat \<Rightarrow> bytes \<Rightarrow> protocol_error + terminal_event" where
  "decode_body kind body =
     (if kind = terminal_kind_code TK_output then Inr (Output body)
      else if kind = terminal_kind_code TK_snapshot_ready then Inr (Snapshot_ready body)
      else if kind = terminal_kind_code TK_snapshot_history then Inr (Snapshot_history body)
      else if kind = terminal_kind_code TK_snapshot_finish then
        and_then (expect_length body 0) (\<lambda>_. Inr Snapshot_finish)
      else if kind = terminal_kind_code TK_process_exit then
        and_then (expect_length body 5) (\<lambda>_. Inr (Process_exit (decode_process_exit body)))
      else if kind = terminal_kind_code TK_modes then
        and_then (expect_length body 8) (\<lambda>_.
          Inr (Modes (int (get_le 4 0 body)) (int (get_le 2 4 body)) (int (get_le 2 6 body))))
      else if kind = terminal_kind_code TK_attach_state then
        and_then (expect_length body 1) (\<lambda>_.
          and_then (name_of attach_state_names attach_state_code (unat (body ! 0))) (\<lambda>s. Inr (Attach_state s)))
      else if kind = terminal_kind_code TK_input_result then
        and_then (decode_input_result body) (\<lambda>r. Inr (Input_result r))
      else if kind = terminal_kind_code TK_history_unavailable then
        and_then (expect_length body 1) (\<lambda>_.
          and_then (name_of history_reason_names history_reason_code (unat (body ! 0)))
            (\<lambda>r. Inr (History_unavailable r)))
      else if kind = terminal_kind_code TK_route_resync then
        and_then (expect_length body 8) (\<lambda>_.
          Inr (Route_resync (int (get_le 4 0 body)) (int (get_le 4 4 body))))
      else Inl (UnknownKind kind))"

definition decode_terminal_body :: "bytes \<Rightarrow> protocol_error + terminal_event" where
  "decode_terminal_body bytes =
     (if length bytes < TERMINAL_BODY_HEADER_BYTES then Inl TruncatedHeader
      else if unat (bytes ! 0) \<noteq> TERMINAL_STREAM_SCHEME_VERSION
        then Inl (WrongSchemeVersion (unat (bytes ! 0)))
      else let declared = get_le 4 4 bytes; body = drop TERMINAL_BODY_HEADER_BYTES bytes in
        if declared \<noteq> length body then Inl (BodyLengthMismatch declared (length body))
        else decode_body (unat (bytes ! 1)) body)"

subsection \<open>Encoding\<close>

datatype op_id = Id_number int | Id_bigint int

definition MAX_SAFE_INTEGER :: int where "MAX_SAFE_INTEGER = 2 ^ 53 - 1"

text \<open>\<open>Number.isSafeInteger\<close> on an integral number; a fractional id is outside the model.\<close>

fun to_operation_id :: "op_id \<Rightarrow> protocol_error + int" where
  "to_operation_id (Id_number n) =
     (if \<bar>n\<bar> > MAX_SAFE_INTEGER \<or> n < 1 then Inl (InvalidOperationId n) else Inr n)"
| "to_operation_id (Id_bigint n) =
     (if n < 1 \<or> n > MAX_OPERATION_ID then Inl (InvalidOperationId n) else Inr n)"

definition encode_terminal_frame :: "terminal_kind \<Rightarrow> bytes \<Rightarrow> protocol_error + bytes" where
  "encode_terminal_frame kind body =
     (if length body > MAX_TERMINAL_BODY_BYTES then Inl (BodyTooLarge (length body))
      else Inr ([of_nat TERMINAL_STREAM_SCHEME_VERSION, of_nat (terminal_kind_code kind)]
                @ le_bytes 2 0 @ le_bytes 4 (int (length body)) @ body))"

definition encode_optional_u64 :: "int option \<Rightarrow> bytes" where
  "encode_optional_u64 v =
     (case v of None \<Rightarrow> 0 # le_bytes 8 0 | Some n \<Rightarrow> 1 # le_bytes 8 n)"

definition encode_input_result :: "input_result_body \<Rightarrow> protocol_error + bytes" where
  "encode_input_result r =
     (let detail = text_encode (result_detail r) in
      if length detail > MAX_INPUT_RESULT_DETAIL_BYTES then Inl InvalidDetail
      else and_then (to_operation_id (Id_bigint (operation_id r))) (\<lambda>id.
        Inr (le_bytes 8 id @ [of_nat (input_outcome_code (outcome r))]
             @ encode_optional_u64 (accepted_payload_bytes r)
             @ encode_optional_u64 (written_pty_bytes r)
             @ le_bytes 4 (result_mode_bits r) @ le_bytes 2 (int (length detail)) @ detail)))"

fun encode_terminal_body :: "terminal_event \<Rightarrow> protocol_error + bytes" where
  "encode_terminal_body (Output p) = encode_terminal_frame TK_output p"
| "encode_terminal_body (Snapshot_ready p) = encode_terminal_frame TK_snapshot_ready p"
| "encode_terminal_body (Snapshot_history p) = encode_terminal_frame TK_snapshot_history p"
| "encode_terminal_body Snapshot_finish = encode_terminal_frame TK_snapshot_finish []"
| "encode_terminal_body (Process_exit code) =
     encode_terminal_frame TK_process_exit
       (case code of None \<Rightarrow> [0, 0, 0, 0, 0] | Some c \<Rightarrow> 1 # le_bytes 4 c)"
| "encode_terminal_body (Modes bits rows cols) =
     encode_terminal_frame TK_modes (le_bytes 4 bits @ le_bytes 2 rows @ le_bytes 2 cols)"
| "encode_terminal_body (Attach_state s) =
     encode_terminal_frame TK_attach_state [of_nat (attach_state_code s)]"
| "encode_terminal_body (Input_result r) =
     and_then (encode_input_result r) (encode_terminal_frame TK_input_result)"
| "encode_terminal_body (History_unavailable r) =
     encode_terminal_frame TK_history_unavailable [of_nat (history_reason_code r)]"
| "encode_terminal_body (Route_resync from_epoch to_epoch) =
     encode_terminal_frame TK_route_resync (le_bytes 4 from_epoch @ le_bytes 4 to_epoch)"

subsection \<open>Round trip\<close>

text \<open>What the widths of the wire fields make of an event's numbers and text.\<close>

definition norm_result :: "input_result_body \<Rightarrow> input_result_body" where
  "norm_result r = r\<lparr>
     accepted_payload_bytes := map_option (\<lambda>n. n mod 2 ^ 64) (accepted_payload_bytes r),
     written_pty_bytes := map_option (\<lambda>n. n mod 2 ^ 64) (written_pty_bytes r),
     result_mode_bits := result_mode_bits r mod 2 ^ 32,
     result_detail := text_norm (result_detail r)\<rparr>"

fun norm_event :: "terminal_event \<Rightarrow> terminal_event" where
  "norm_event (Process_exit code) = Process_exit (map_option (\<lambda>c. signed32 (nat (c mod 2 ^ 32))) code)"
| "norm_event (Modes bits rows cols) = Modes (bits mod 2 ^ 32) (rows mod 2 ^ 16) (cols mod 2 ^ 16)"
| "norm_event (Input_result r) = Input_result (norm_result r)"
| "norm_event (Route_resync f t) = Route_resync (f mod 2 ^ 32) (t mod 2 ^ 32)"
| "norm_event ev = ev"

text \<open>Events whose numbers fit their fields and whose text survives the text codecs.\<close>

definition u_fits :: "nat \<Rightarrow> int \<Rightarrow> bool" where
  "u_fits w n \<longleftrightarrow> 0 \<le> n \<and> n < 2 ^ w"

fun well_ranged :: "terminal_event \<Rightarrow> bool" where
  "well_ranged (Process_exit code) =
     (case code of None \<Rightarrow> True | Some c \<Rightarrow> - (2 ^ 31) \<le> c \<and> c < 2 ^ 31)"
| "well_ranged (Modes bits rows cols) = (u_fits 32 bits \<and> u_fits 16 rows \<and> u_fits 16 cols)"
| "well_ranged (Input_result r) =
     (u_fits 64 (operation_id r) \<and> pred_option (u_fits 64) (accepted_payload_bytes r)
      \<and> pred_option (u_fits 64) (written_pty_bytes r) \<and> u_fits 32 (result_mode_bits r))"
| "well_ranged (Route_resync f t) = (u_fits 32 f \<and> u_fits 32 t)"
| "well_ranged _ = True"

fun encodable :: "terminal_event \<Rightarrow> bool" where
  "encodable (Output p) = (length p \<le> MAX_TERMINAL_BODY_BYTES)"
| "encodable (Snapshot_ready p) = (length p \<le> MAX_TERMINAL_BODY_BYTES)"
| "encodable (Snapshot_history p) = (length p \<le> MAX_TERMINAL_BODY_BYTES)"
| "encodable (Input_result r) =
     (1 \<le> operation_id r \<and> length (text_encode (result_detail r)) \<le> MAX_INPUT_RESULT_DETAIL_BYTES)"
| "encodable _ = True"

fun plain_event :: "terminal_event \<Rightarrow> bool" where
  "plain_event (Input_result r) = plain_text (result_detail r)"
| "plain_event _ = True"

lemma decode_frame:
  assumes "encode_terminal_frame k body = Inr b"
  shows "decode_terminal_body b = decode_body (terminal_kind_code k) body"
proof -
  have len: "length body \<le> 4194296" and
    b: "b = [2, of_nat (terminal_kind_code k)] @ le_bytes 2 0 @ le_bytes 4 (int (length body)) @ body"
    using assms by (auto simp: encode_terminal_frame_def stream_constants split: if_splits)
  have "get_le 4 4 b = length body"
    using len by (simp add: b get_le_def numeral_2_eq_2 le_value_le_bytes)
  moreover have "unat (of_nat (terminal_kind_code k) :: byte) = terminal_kind_code k"
    using code_bounds(4) by (simp add: unat_of_nat_byte)
  ultimately show ?thesis
    by (simp add: decode_terminal_body_def stream_constants b)
qed

lemma int_get_le_here:
  "length pre = off \<Longrightarrow> int (get_le n off (pre @ le_bytes n v @ rest)) = v mod 256 ^ n"
  by (simp add: get_le_here int_le_value_le_bytes)

lemma length_encode_optional_u64 [simp]: "length (encode_optional_u64 v) = 9"
  by (simp add: encode_optional_u64_def split: option.splits)

lemma optional_u64_here:
  assumes "length pre = off"
  shows "optional_u64 off (pre @ encode_optional_u64 v @ rest) = map_option (\<lambda>n. n mod 2 ^ 64) v"
proof (cases v)
  case None
  then show ?thesis using assms by (simp add: optional_u64_def encode_optional_u64_def nth_append)
next
  case (Some n)
  have "int (get_le 8 (off + 1) ((pre @ [1]) @ le_bytes 8 n @ rest)) = n mod 256 ^ 8"
    by (rule int_get_le_here) (simp add: assms)
  then show ?thesis
    using assms Some by (simp add: optional_u64_def encode_optional_u64_def nth_append)
qed

lemma decode_encode_input_result:
  assumes "encode_input_result r = Inr body"
  shows "decode_input_result body = Inr (norm_result r)"
proof -
  define d where "d = text_encode (result_detail r)"
  have d: "length d \<le> 1024" and id: "1 \<le> operation_id r" "operation_id r < 2 ^ 64"
    and body: "body = le_bytes 8 (operation_id r) @ [of_nat (input_outcome_code (outcome r))]
      @ encode_optional_u64 (accepted_payload_bytes r) @ encode_optional_u64 (written_pty_bytes r)
      @ le_bytes 4 (result_mode_bits r) @ le_bytes 2 (int (length d)) @ d"
    using assms
    by (auto simp: encode_input_result_def Let_def and_then_Inr d_def MAX_OPERATION_ID_def
        stream_constants split: if_splits)
  let ?id = "le_bytes 8 (operation_id r)" and ?oc = "[of_nat (input_outcome_code (outcome r))] :: bytes"
  let ?a = "encode_optional_u64 (accepted_payload_bytes r)"
  let ?w = "encode_optional_u64 (written_pty_bytes r)" and ?m = "le_bytes 4 (result_mode_bits r)"
  let ?n = "le_bytes 2 (int (length d))"
  have len: "get_le 2 31 body = length d"
    using int_get_le_here [of "?id @ ?oc @ ?a @ ?w @ ?m" 31 2 "int (length d)" d] d by (simp add: body)
  have "int (get_le 8 0 body) = operation_id r"
    using int_get_le_here [of "[]" 0 8 "operation_id r" "?oc @ ?a @ ?w @ ?m @ ?n @ d"] id
    by (simp add: body)
  moreover have "optional_u64 9 body = map_option (\<lambda>n. n mod 2 ^ 64) (accepted_payload_bytes r)"
    using optional_u64_here [of "?id @ ?oc" 9 _ "?w @ ?m @ ?n @ d"] by (simp add: body)
  moreover have "optional_u64 18 body = map_option (\<lambda>n. n mod 2 ^ 64) (written_pty_bytes r)"
    using optional_u64_here [of "?id @ ?oc @ ?a" 18 _ "?m @ ?n @ d"] by (simp add: body)
  moreover have "int (get_le 4 27 body) = result_mode_bits r mod 2 ^ 32"
    using int_get_le_here [of "?id @ ?oc @ ?a @ ?w" 27 4 _ "?n @ d"] by (simp add: body)
  moreover have "unat (body ! 8) = input_outcome_code (outcome r)"
    using code_bounds(3) by (simp add: body nth_append unat_of_nat_byte)
  moreover have "drop 33 body = d" "\<not> length body < 33" by (simp_all add: body)
  ultimately show ?thesis
    using len d
    by (simp add: decode_input_result_def stream_constants input_outcomes.name_of_code d_def
        text_decode_encode norm_result_def)
qed

lemma decode_encode_process_exit:
  "decode_process_exit (1 # le_bytes 4 c) = Some (signed32 (nat (c mod 2 ^ 32)))"
proof -
  have "get_le 4 1 (1 # le_bytes 4 c) = nat (c mod 2 ^ 32)"
    using int_get_le_here [of "[1]" 1 4 c "[]"] by simp
  then show ?thesis by (simp add: decode_process_exit_def)
qed

lemma decode_encode_exit_body:
  "decode_body 5 (1 # le_bytes 4 c) = Inr (norm_event (Process_exit (Some c)))"
  "decode_body 5 [0, 0, 0, 0, 0] = Inr (norm_event (Process_exit None))"
  by (simp_all add: decode_body_def expect_length_def decode_encode_process_exit)
    (simp add: decode_process_exit_def)

lemma decode_encode_modes:
  "decode_body 6 (le_bytes 4 m @ le_bytes 2 r @ le_bytes 2 c) = Inr (norm_event (Modes m r c))"
  using int_get_le_here [of "[]" 0 4 m "le_bytes 2 r @ le_bytes 2 c"]
    int_get_le_here [of "le_bytes 4 m" 4 2 r "le_bytes 2 c"]
    int_get_le_here [of "le_bytes 4 m @ le_bytes 2 r" 6 2 c "[]"]
  by (simp add: decode_body_def expect_length_def)

lemma decode_encode_resync:
  "decode_body 19 (le_bytes 4 f @ le_bytes 4 t) = Inr (norm_event (Route_resync f t))"
  using int_get_le_here [of "[]" 0 4 f "le_bytes 4 t"] int_get_le_here [of "le_bytes 4 f" 4 4 t "[]"]
  by (simp add: decode_body_def expect_length_def)

lemma decode_encode_event:
  assumes "encode_terminal_body ev = Inr b"
  shows "decode_terminal_body b = Inr (norm_event ev)"
proof (cases ev)
  case (Process_exit code)
  then show ?thesis using decode_frame assms decode_encode_exit_body by (cases code) fastforce+
next
  case (Modes m r c)
  then show ?thesis using decode_frame assms decode_encode_modes by fastforce
next
  case (Route_resync f t)
  then show ?thesis using decode_frame assms decode_encode_resync by fastforce
next
  case (Input_result r)
  then show ?thesis using decode_frame assms decode_encode_input_result
    by (fastforce simp: decode_body_def and_then_Inr)
qed (use assms decode_frame code_bounds(1,2) in \<open>fastforce simp: decode_body_def expect_length_def
      unat_of_nat_byte attach_states.name_of_code history_reasons.name_of_code\<close>)+

interpretation stream: codec encode_terminal_body decode_terminal_body norm_event
  by unfold_locales (rule decode_encode_event)

lemma norm_event_id: "well_ranged ev \<Longrightarrow> plain_event ev \<Longrightarrow> norm_event ev = ev"
proof (cases ev)
  case (Input_result r)
  assume "well_ranged ev" "plain_event ev"
  then show ?thesis using Input_result
    by (cases "accepted_payload_bytes r"; cases "written_pty_bytes r")
      (auto simp: norm_result_def u_fits_def text_norm_plain)
qed (auto simp: u_fits_def signed32_mod [simplified] split: option.splits)

lemma encodable_encodes: "well_ranged ev \<Longrightarrow> encodable ev \<Longrightarrow> \<exists>b. encode_terminal_body ev = Inr b"
  by (cases ev)
    (auto simp: encode_terminal_frame_def stream_constants encode_input_result_def u_fits_def
      MAX_OPERATION_ID_def Let_def split: option.splits)

subsection \<open>What a decoded event satisfies\<close>

lemma get_le_fits: "u_fits (8 * n) (int (get_le n off bs))"
proof -
  have "get_le n off bs < 2 ^ (8 * n)"
    using get_le_bound [of n off bs] by (simp add: power_mult)
  then have "int (get_le n off bs) < int (2 ^ (8 * n))" by (simp only: of_nat_less_iff)
  then show ?thesis by (simp add: u_fits_def)
qed

lemmas get_le_fits_widths =
  get_le_fits [of 2, simplified] get_le_fits [of 4, simplified] get_le_fits [of 8, simplified]

lemma optional_u64_fits: "pred_option (u_fits 64) (optional_u64 off body)"
  by (simp add: optional_u64_def get_le_fits_widths)

lemma signed32_range: "n < 2 ^ 32 \<Longrightarrow> - (2 ^ 31) \<le> signed32 n \<and> signed32 n < 2 ^ 31"
  by (simp add: signed32_def)

lemma decode_process_exit_range:
  "decode_process_exit body = Some c \<Longrightarrow> - 2147483648 \<le> c \<and> c < 2147483648"
  using get_le_bound [of 4 1 body] signed32_range [of "get_le 4 1 body"]
  by (auto simp: decode_process_exit_def split: if_splits)

lemma decode_body_ranged: "decode_body k body = Inr ev \<Longrightarrow> well_ranged ev"
  by (auto simp: decode_body_def and_then_Inr decode_input_result_def Let_def
      get_le_fits_widths optional_u64_fits dest: decode_process_exit_range
      split: if_splits option.splits)

subsection \<open>Properties\<close>

text \<open>
  C37. The stream codec round trip: a body \<open>encodeTerminalBody\<close> returns is decoded by
  \<open>decodeTerminalBody\<close> to the same event, with each number reduced to its field width and the
  detail text as the text codecs leave it.
\<close>

theorem decode_encode_terminal_body:
  "encode_terminal_body ev = Inr b \<Longrightarrow> decode_terminal_body b = Inr (norm_event ev)"
  by (rule stream.dec_enc)

theorem decode_encode_terminal_body_witness:
  "\<exists>b. encode_terminal_body (Modes 5 24 80) = Inr b \<and> decode_terminal_body b = Inr (Modes 5 24 80)"
proof -
  obtain b where b: "encode_terminal_body (Modes 5 24 80) = Inr b"
    by (simp add: encode_terminal_frame_def stream_constants)
  show ?thesis using b decode_encode_terminal_body [OF b] by simp
qed

text \<open>
  An event whose numbers fit their fields, whose payload is within the frame limit and whose
  detail is plain text is always encoded, and comes back exactly.
\<close>

theorem encode_terminal_body_exact:
  assumes "well_ranged ev" "encodable ev" "plain_event ev"
  shows "\<exists>b. encode_terminal_body ev = Inr b \<and> decode_terminal_body b = Inr ev"
  using encodable_encodes [OF assms(1,2)] stream.dec_enc norm_event_id [OF assms(1,3)] by metis

theorem encode_terminal_body_exact_witness:
  "\<exists>b. encode_terminal_body (Process_exit (Some (- 9))) = Inr b
     \<and> decode_terminal_body b = Inr (Process_exit (Some (- 9)))"
  by (rule encode_terminal_body_exact) simp_all

text \<open>
  A decoded event is well ranged: every mode word, size, epoch, counter and exit code lies in
  the range of the field it was read from.
\<close>

theorem decode_terminal_body_ranged:
  "decode_terminal_body b = Inr ev \<Longrightarrow> well_ranged ev"
  by (auto simp: decode_terminal_body_def Let_def dest: decode_body_ranged split: if_splits)

theorem decode_terminal_body_ranged_witness:
  "well_ranged (Route_resync 7 8)"
proof -
  have "decode_terminal_body [2, 19, 0, 0, 8, 0, 0, 0, 7, 0, 0, 0, 8, 0, 0, 0] = Inr (Route_resync 7 8)"
    by (simp add: decode_terminal_body_def stream_constants get_le_def decode_body_def expect_length_def)
  then show ?thesis by (rule decode_terminal_body_ranged)
qed

text \<open>
  \<open>encodeTerminalBody\<close> is not an inverse of \<open>decodeTerminalBody\<close> on every body: an
  \<open>input_result\<close> with operation id 0 is decoded, and the event it gives is refused by the encoder.
\<close>

definition result_for_id_zero :: bytes where
  "result_for_id_zero =
     [2, 17, 0, 0, 33, 0, 0, 0,  0, 0, 0, 0, 0, 0, 0, 0, 1,
      0, 0, 0, 0, 0, 0, 0, 0, 0, 0, 0, 0, 0, 0, 0, 0, 0, 0, 0, 0, 0, 0, 0, 0]"

theorem input_result_id_zero_not_reencoded:
  "\<exists>ev. decode_terminal_body result_for_id_zero = Inr ev
     \<and> encode_terminal_body ev = Inl (InvalidOperationId 0)"
proof -
  let ?r = "\<lparr>operation_id = 0, outcome = IO_written, accepted_payload_bytes = None,
    written_pty_bytes = None, result_mode_bits = 0, result_detail = []\<rparr>"
  have "name_of input_outcome_names input_outcome_code 1 = Inr IO_written"
    using input_outcomes.name_of_code [of IO_written] by simp
  then have "decode_terminal_body result_for_id_zero = Inr (Input_result ?r)"
    by (simp add: result_for_id_zero_def decode_terminal_body_def stream_constants get_le_def
        decode_body_def decode_input_result_def optional_u64_def text_decode_def
        byte_order_mark_def)
  moreover have "encode_terminal_body (Input_result ?r) = Inl (InvalidOperationId 0)"
    by (simp add: encode_input_result_def text_encode_def)
  ultimately show ?thesis by blast
qed

end
