(* ===== verification/Terminal_Input_Frames.thy ===== *)
theory Terminal_Input_Frames
  imports Terminal_Protocol
begin

text \<open>
  The Core input frames Web sends (\<open>encodeInputFrame\<close>, \<open>encodeRawBytes\<close>, \<open>encodeKey\<close>,
  \<open>encodeMouse\<close>, \<open>encodeFocus\<close>, \<open>encodeResize\<close>, \<open>encodePaste\<close>, \<open>encodePasteAbort\<close> of
  \<open>src/botster/generated/terminal-protocol.ts\<close>): a 12-byte big-endian header (scheme, kind,
  body length, operation id) and a body. \<open>parse_input_frame\<close> states the layout from the
  receiver's side; the properties say every frame an encoder returns parses back.
\<close>

definition TERMINAL_INPUT_SCHEME_VERSION :: nat where "TERMINAL_INPUT_SCHEME_VERSION = 2"
definition INPUT_HEADER_BYTES :: nat where "INPUT_HEADER_BYTES = 12"
definition MAX_TERMINAL_INPUT_BODY_BYTES :: nat where "MAX_TERMINAL_INPUT_BODY_BYTES = 65535"
definition MAX_RAW_INPUT_BYTES :: nat where "MAX_RAW_INPUT_BYTES = 65535"
definition MAX_PASTE_CHUNK_DATA_BYTES :: nat where "MAX_PASTE_CHUNK_DATA_BYTES = 65531"
definition MAX_PASTE_BYTES :: nat where "MAX_PASTE_BYTES = 1048576"
definition MAX_PASTE_CHUNKS :: nat where "MAX_PASTE_CHUNKS = 17"
definition MAX_INPUT_OPERATIONS_PER_SESSION :: nat where "MAX_INPUT_OPERATIONS_PER_SESSION = 32"
definition MAX_RETAINED_INPUT_BYTES_PER_SESSION :: nat where
  "MAX_RETAINED_INPUT_BYTES_PER_SESSION = 2097152"

lemmas input_constants =
  TERMINAL_INPUT_SCHEME_VERSION_def INPUT_HEADER_BYTES_def MAX_TERMINAL_INPUT_BODY_BYTES_def
  MAX_RAW_INPUT_BYTES_def MAX_PASTE_CHUNK_DATA_BYTES_def MAX_PASTE_BYTES_def MAX_PASTE_CHUNKS_def

subsection \<open>Encoders\<close>

definition encode_input_frame :: "input_kind \<Rightarrow> op_id \<Rightarrow> bytes \<Rightarrow> protocol_error + bytes" where
  "encode_input_frame kind op body =
     and_then (to_operation_id op) (\<lambda>id.
       if length body > MAX_TERMINAL_INPUT_BODY_BYTES
       then Inl (PayloadTooLarge (input_kind_code kind) MAX_TERMINAL_INPUT_BODY_BYTES (length body))
       else Inr ([of_nat TERMINAL_INPUT_SCHEME_VERSION, of_nat (input_kind_code kind)]
                 @ be_bytes 2 (int (length body)) @ be_bytes 8 id @ body))"

definition encode_raw_bytes :: "op_id \<Rightarrow> bytes \<Rightarrow> protocol_error + bytes" where
  "encode_raw_bytes op data =
     (if length data > MAX_RAW_INPUT_BYTES
      then Inl (PayloadTooLarge (input_kind_code IK_raw_bytes) MAX_RAW_INPUT_BYTES (length data))
      else encode_input_frame IK_raw_bytes op data)"

record key_input =
  ki_action :: key_action
  ki_key :: int
  ki_mods :: int
  ki_consumed_mods :: int
  ki_composing :: bool
  ki_unshifted_codepoint :: int
  ki_text :: js_string

definition bool_byte :: "bool \<Rightarrow> byte" where
  "bool_byte b = (if b then 1 else 0)"

definition key_body :: "key_input \<Rightarrow> bytes" where
  "key_body k =
     [of_nat (key_action_code (ki_action k))] @ be_bytes 2 (ki_key k) @ be_bytes 2 (ki_mods k)
     @ be_bytes 2 (ki_consumed_mods k) @ [bool_byte (ki_composing k)]
     @ be_bytes 4 (ki_unshifted_codepoint k) @ text_encode (ki_text k)"

definition encode_key :: "op_id \<Rightarrow> key_input \<Rightarrow> protocol_error + bytes" where
  "encode_key op k = encode_input_frame IK_key op (key_body k)"

record mouse_input =
  mi_action :: mouse_action
  mi_button :: "mouse_button option"
  mi_mods :: int
  mi_col :: int
  mi_row :: int
  mi_x_px :: int
  mi_y_px :: int

definition mouse_body :: "mouse_input \<Rightarrow> bytes" where
  "mouse_body m =
     [of_nat (mouse_action_code (mi_action m)),
      (case mi_button m of None \<Rightarrow> 0 | Some _ \<Rightarrow> 1),
      (case mi_button m of None \<Rightarrow> 0 | Some b \<Rightarrow> of_nat (mouse_button_code b))]
     @ be_bytes 2 (mi_mods m) @ be_bytes 2 (mi_col m) @ be_bytes 2 (mi_row m)
     @ be_bytes 4 (mi_x_px m) @ be_bytes 4 (mi_y_px m)"

definition encode_mouse :: "op_id \<Rightarrow> mouse_input \<Rightarrow> protocol_error + bytes" where
  "encode_mouse op m = encode_input_frame IK_mouse op (mouse_body m)"

definition encode_focus :: "op_id \<Rightarrow> bool \<Rightarrow> protocol_error + bytes" where
  "encode_focus op focused = encode_input_frame IK_focus op [bool_byte focused]"

definition encode_resize :: "op_id \<Rightarrow> int \<Rightarrow> int \<Rightarrow> int \<Rightarrow> int \<Rightarrow> protocol_error + bytes" where
  "encode_resize op rows cols width_px height_px =
     encode_input_frame IK_resize op
       (be_bytes 2 rows @ be_bytes 2 cols @ be_bytes 4 width_px @ be_bytes 4 height_px)"

text \<open>
  The chunk loop of \<open>encodePaste\<close>: \<open>offset\<close> steps by the chunk size, \<open>index\<close> by one,
  and each chunk frame may throw.
\<close>

function paste_chunks :: "op_id \<Rightarrow> bytes \<Rightarrow> nat \<Rightarrow> nat \<Rightarrow> protocol_error + bytes list" where
  "paste_chunks op data offset index =
     (if offset < length data then
        and_then (encode_input_frame IK_paste_chunk op
            (be_bytes 4 (int index) @
             drop offset (take (min (offset + MAX_PASTE_CHUNK_DATA_BYTES) (length data)) data)))
          (\<lambda>frame. and_then (paste_chunks op data (offset + MAX_PASTE_CHUNK_DATA_BYTES) (index + 1))
            (\<lambda>frames. Inr (frame # frames)))
      else Inr [])"
  by pat_completeness auto
termination
  by (relation "measure (\<lambda>(op, data, offset, index). length data - offset)")
    (auto simp: MAX_PASTE_CHUNK_DATA_BYTES_def)

declare paste_chunks.simps [simp del]

definition encode_paste :: "op_id \<Rightarrow> bool \<Rightarrow> bytes \<Rightarrow> protocol_error + bytes list" where
  "encode_paste op allow_unsafe data =
     (if length data = 0 then Inl EmptyPaste
      else if length data > MAX_PASTE_BYTES
        then Inl (PayloadTooLarge (input_kind_code IK_paste_begin) MAX_PASTE_BYTES (length data))
      else and_then (encode_input_frame IK_paste_begin op
               (be_bytes 4 (int (length data)) @ [bool_byte allow_unsafe])) (\<lambda>begin_frame.
           and_then (paste_chunks op data 0 0) (\<lambda>chunks.
           and_then (encode_input_frame IK_paste_commit op []) (\<lambda>commit_frame.
             Inr (begin_frame # chunks @ [commit_frame])))))"

definition encode_paste_abort :: "op_id \<Rightarrow> protocol_error + bytes" where
  "encode_paste_abort op = encode_input_frame IK_paste_abort op []"

subsection \<open>The receiver's reading of a frame\<close>

record input_frame =
  fr_kind :: nat
  fr_op :: nat
  fr_body :: bytes

definition parse_input_frame :: "bytes \<Rightarrow> input_frame option" where
  "parse_input_frame f =
     (if length f < 12 \<or> unat (f ! 0) \<noteq> 2 \<or> get_be 2 2 f \<noteq> length f - 12 then None
      else Some \<lparr>fr_kind = unat (f ! 1), fr_op = get_be 8 4 f, fr_body = drop 12 f\<rparr>)"

fun op_value :: "op_id \<Rightarrow> int" where
  "op_value (Id_number n) = n"
| "op_value (Id_bigint n) = n"

definition valid_op :: "op_id \<Rightarrow> bool" where
  "valid_op op \<longleftrightarrow> to_operation_id op = Inr (op_value op)"

lemma to_operation_id_Inr: "to_operation_id op = Inr n \<longleftrightarrow> valid_op op \<and> n = op_value op"
  by (cases op) (auto simp: valid_op_def)

lemma valid_op_range: "valid_op op \<Longrightarrow> 1 \<le> op_value op \<and> op_value op < 2 ^ 64"
  by (cases op) (auto simp: valid_op_def MAX_SAFE_INTEGER_def MAX_OPERATION_ID_def split: if_splits)

lemma encode_input_frame_Inr:
  "encode_input_frame kind op body = Inr f \<longleftrightarrow>
     valid_op op \<and> length body \<le> 65535 \<and>
     f = [2, of_nat (input_kind_code kind)] @ be_bytes 2 (int (length body))
         @ be_bytes 8 (op_value op) @ body"
  by (auto simp: encode_input_frame_def and_then_Inr to_operation_id_Inr input_constants
      split: if_splits)

lemma get_be_field:
  "length pre = off \<Longrightarrow> 0 \<le> v \<Longrightarrow> v < 256 ^ n \<Longrightarrow>
     get_be n off (pre @ be_bytes n v @ rest) = nat v"
  by (simp add: get_be_here be_value_be_bytes)

lemma parse_encode_input_frame:
  assumes "encode_input_frame kind op body = Inr f"
  shows "parse_input_frame f =
    Some \<lparr>fr_kind = input_kind_code kind, fr_op = nat (op_value op), fr_body = body\<rparr>"
proof -
  have v: "valid_op op" "length body \<le> 65535" and
    f: "f = [2, of_nat (input_kind_code kind)] @ be_bytes 2 (int (length body))
         @ be_bytes 8 (op_value op) @ body"
    using assms by (auto simp: encode_input_frame_Inr)
  have len: "get_be 2 2 f = length body"
    using get_be_field [of "[2, of_nat (input_kind_code kind)]" 2 "int (length body)" 2] v(2)
    by (simp add: f)
  have op: "get_be 8 4 f = nat (op_value op)"
    using get_be_field [of "[2, of_nat (input_kind_code kind)] @ be_bytes 2 (int (length body))"
        4 "op_value op" 8 body] valid_op_range [OF v(1)]
    by (simp add: f)
  have "unat (of_nat (input_kind_code kind) :: byte) = input_kind_code kind"
    using code_bounds(5) by (simp add: unat_of_nat_byte)
  then show ?thesis using len op by (simp add: parse_input_frame_def f)
qed

lemma length_encode_input_frame:
  "encode_input_frame kind op body = Inr f \<Longrightarrow> length f = 12 + length body"
  by (auto simp: encode_input_frame_Inr)

subsection \<open>The chunks of a paste\<close>

definition frame_data :: "bytes \<Rightarrow> bytes" where
  "frame_data f = drop 16 f"

definition frame_index :: "bytes \<Rightarrow> nat" where
  "frame_index f = get_be 4 12 f"

text \<open>
  From any offset the loop returns the rest of the data, split into chunks numbered from
  \<open>index\<close>, each a well-formed frame of at most 65547 bytes.
\<close>

lemma chunk_frame:
  assumes "encode_input_frame IK_paste_chunk op (be_bytes 4 (int i) @ d) = Inr f" "i < 2 ^ 32"
  shows "frame_index f = i" "frame_data f = d" "length f = 16 + length d"
proof -
  have f: "f = [2, of_nat (input_kind_code IK_paste_chunk)] @ be_bytes 2 (int (4 + length d))
         @ be_bytes 8 (op_value op) @ be_bytes 4 (int i) @ d"
    using assms(1) by (simp add: encode_input_frame_Inr)
  show "frame_index f = i"
    using get_be_field [of "[2, of_nat (input_kind_code IK_paste_chunk)]
        @ be_bytes 2 (int (4 + length d)) @ be_bytes 8 (op_value op)" 12 "int i" 4 d] assms(2)
    by (simp add: f frame_index_def)
  show "frame_data f = d" "length f = 16 + length d" by (simp_all add: f frame_data_def)
qed

lemma chunk_slice: "drop off (take (min (off + n) (length data)) data) = take n (drop off data)"
  by (cases "off + n \<le> length data") (simp_all add: drop_take min_def)

lemma chunk_slice_append:
  "drop off (take (min (off + n) (length data)) data) @ drop (off + n) data = drop off data"
  by (metis chunk_slice append_take_drop_id drop_drop add.commute)

lemma chunk_count_step:
  assumes "offset < (n :: nat)"
  shows "Suc ((n - (offset + 65531) + 65530) div 65531) = (n - offset + 65530) div 65531"
proof (cases "offset + 65531 \<le> n")
  case True
  then obtain k where n: "n = offset + 65531 + k" using le_Suc_ex by blast
  have "(n - offset + 65530) div 65531 = (k + 65530 + 65531) div 65531" by (simp add: n)
  also have "\<dots> = Suc ((k + 65530) div 65531)" by (subst div_add_self2) simp_all
  finally show ?thesis by (simp add: n)
next
  case False
  then have "n - offset + 65530 = n - offset - 1 + 65531" "n - offset - 1 < 65531"
    using assms by simp_all
  then have "(n - offset + 65530) div 65531 = 1" by (simp only: div_add_self2)
  then show ?thesis using False by simp
qed

lemma paste_chunks_Cons:
  assumes "offset < length data" "paste_chunks op data offset index = Inr frames"
  obtains f fs where
    "encode_input_frame IK_paste_chunk op (be_bytes 4 (int index) @
       drop offset (take (min (offset + MAX_PASTE_CHUNK_DATA_BYTES) (length data)) data)) = Inr f"
    "paste_chunks op data (offset + MAX_PASTE_CHUNK_DATA_BYTES) (index + 1) = Inr fs"
    "frames = f # fs"
  using assms by (subst (asm) (2) paste_chunks.simps) (auto simp: and_then_Inr)

lemma paste_chunks_correct:
  assumes "paste_chunks op data offset index = Inr frames" "index + (length data - offset) < 2 ^ 32"
  shows "concat (map frame_data frames) = drop offset data \<and>
         map frame_index frames = [index ..< index + length frames] \<and>
         length frames = (length data - offset + 65530) div 65531"
  using assms
proof (induction op data offset index arbitrary: frames rule: paste_chunks.induct)
  case (1 op data offset index)
  show ?case
  proof (cases "offset < length data")
    case False
    then show ?thesis using "1.prems" by (simp add: paste_chunks.simps)
  next
    case True
    obtain f fs where f: "encode_input_frame IK_paste_chunk op (be_bytes 4 (int index) @
          drop offset (take (min (offset + MAX_PASTE_CHUNK_DATA_BYTES) (length data)) data)) = Inr f"
      and fs: "paste_chunks op data (offset + MAX_PASTE_CHUNK_DATA_BYTES) (index + 1) = Inr fs"
      and frames: "frames = f # fs"
      by (rule paste_chunks_Cons [OF True "1.prems"(1)])
    have bound: "index + 1 + (length data - (offset + MAX_PASTE_CHUNK_DATA_BYTES)) < 2 ^ 32"
      using "1.prems"(2) True by (simp add: MAX_PASTE_CHUNK_DATA_BYTES_def)
    note IH = "1.IH" [OF True f fs bound]
    have i: "index < 2 ^ 32" using "1.prems"(2) True by simp
    have "concat (map frame_data frames) = drop offset data"
      using IH by (simp only: frames list.map concat.simps chunk_frame(2) [OF f i] chunk_slice_append)
    moreover have "map frame_index frames = [index ..< index + length frames]"
      using IH by (simp add: frames chunk_frame(1) [OF f i] upt_conv_Cons del: upt_Suc)
    moreover have "length frames = (length data - offset + 65530) div 65531"
      using IH chunk_count_step [OF True]
      by (simp only: frames list.size MAX_PASTE_CHUNK_DATA_BYTES_def)
    ultimately show ?thesis by blast
  qed
qed

lemma paste_chunks_returns:
  "valid_op op \<Longrightarrow> \<exists>frames. paste_chunks op data offset index = Inr frames"
proof (induction op data offset index rule: paste_chunks.induct)
  case (1 op data offset index)
  show ?case
  proof (cases "offset < length data")
    case False
    then show ?thesis by (simp add: paste_chunks.simps)
  next
    case True
    let ?d = "drop offset (take (min (offset + MAX_PASTE_CHUNK_DATA_BYTES) (length data)) data)"
    have "length ?d \<le> 65531" by (simp add: input_constants)
    then obtain f where f: "encode_input_frame IK_paste_chunk op (be_bytes 4 (int index) @ ?d) = Inr f"
      using "1.prems" by (auto simp: encode_input_frame_Inr)
    then obtain fs where "paste_chunks op data (offset + MAX_PASTE_CHUNK_DATA_BYTES) (index + 1) = Inr fs"
      using "1.IH" [OF True f "1.prems"] by blast
    with f True show ?thesis by (subst paste_chunks.simps) simp
  qed
qed

lemma paste_chunk_ops:
  "paste_chunks op data offset index = Inr frames \<Longrightarrow> f \<in> set frames \<Longrightarrow>
     \<exists>body. encode_input_frame IK_paste_chunk op body = Inr f"
proof (induction op data offset index arbitrary: frames rule: paste_chunks.induct)
  case (1 op data offset index)
  show ?case
  proof (cases "offset < length data")
    case False
    then show ?thesis using "1.prems" by (simp add: paste_chunks.simps)
  next
    case True
    obtain g gs where g: "encode_input_frame IK_paste_chunk op (be_bytes 4 (int index) @
          drop offset (take (min (offset + MAX_PASTE_CHUNK_DATA_BYTES) (length data)) data)) = Inr g"
      and gs: "paste_chunks op data (offset + MAX_PASTE_CHUNK_DATA_BYTES) (index + 1) = Inr gs"
      and "frames = g # gs"
      using True "1.prems"(1) by (subst (asm) paste_chunks.simps) (auto simp: and_then_Inr)
    then show ?thesis using "1.IH" [OF True g gs] "1.prems"(2) by auto
  qed
qed

lemma paste_frames:
  assumes "encode_paste op allow_unsafe data = Inr frames"
  obtains b cs c where "frames = b # cs @ [c]" "length data \<le> 1048576"
    "encode_input_frame IK_paste_begin op (be_bytes 4 (int (length data)) @ [bool_byte allow_unsafe]) = Inr b"
    "paste_chunks op data 0 0 = Inr cs" "encode_input_frame IK_paste_commit op [] = Inr c"
  using assms
  by (auto simp: encode_paste_def and_then_Inr MAX_PASTE_BYTES_def not_less split: if_splits)

lemma chunk_frame_parse:
  assumes "encode_input_frame IK_paste_chunk op body = Inr f"
  shows "\<exists>d. parse_input_frame f = Some \<lparr>fr_kind = 7, fr_op = nat (op_value op), fr_body = d\<rparr>"
  using parse_encode_input_frame [OF assms] by simp

lemma encode_paste_returns:
  assumes "valid_op op" "0 < length data" "length data \<le> MAX_PASTE_BYTES"
  shows "\<exists>frames. encode_paste op allow_unsafe data = Inr frames"
proof -
  obtain cs where "paste_chunks op data 0 0 = Inr cs"
    using paste_chunks_returns [OF assms(1)] by blast
  moreover obtain b where
    "encode_input_frame IK_paste_begin op (be_bytes 4 (int (length data)) @ [bool_byte allow_unsafe]) = Inr b"
    using assms(1) by (simp add: encode_input_frame_Inr)
  moreover obtain c where "encode_input_frame IK_paste_commit op [] = Inr c"
    using assms(1) by (simp add: encode_input_frame_Inr)
  ultimately show ?thesis using assms by (simp add: encode_paste_def)
qed

subsection \<open>Properties\<close>

text \<open>
  Every input frame an encoder returns parses back on the receiving side to the kind, the
  operation id and the body it was built from.
\<close>

theorem input_frame_parses:
  "encode_input_frame kind op body = Inr f \<Longrightarrow>
     parse_input_frame f = Some \<lparr>fr_kind = input_kind_code kind, fr_op = nat (op_value op), fr_body = body\<rparr>"
  by (rule parse_encode_input_frame)

theorem input_frame_parses_witness:
  "\<exists>f. encode_focus (Id_number 7) True = Inr f \<and>
     parse_input_frame f = Some \<lparr>fr_kind = 4, fr_op = 7, fr_body = [1]\<rparr>"
proof -
  obtain f where f: "encode_input_frame IK_focus (Id_number 7) [1] = Inr f"
    by (simp add: encode_input_frame_def MAX_SAFE_INTEGER_def input_constants)
  show ?thesis using f input_frame_parses [OF f] by (simp add: encode_focus_def bool_byte_def)
qed

text \<open>
  A paste is one PASTE_BEGIN that declares the total size and the unsafe flag, at most 17
  PASTE_CHUNK frames numbered from 0 whose data concatenate to the pasted bytes, and one
  PASTE_COMMIT, all under the one operation id.
\<close>

theorem encode_paste_frames:
  assumes "encode_paste op allow_unsafe data = Inr frames"
  shows "\<exists>b cs c. frames = b # cs @ [c]
    \<and> parse_input_frame b = Some \<lparr>fr_kind = 6, fr_op = nat (op_value op),
        fr_body = be_bytes 4 (int (length data)) @ [bool_byte allow_unsafe]\<rparr>
    \<and> concat (map frame_data cs) = data
    \<and> map frame_index cs = [0 ..< length cs]
    \<and> length cs \<le> MAX_PASTE_CHUNKS
    \<and> list_all (\<lambda>f. \<exists>d. parse_input_frame f =
          Some \<lparr>fr_kind = 7, fr_op = nat (op_value op), fr_body = d\<rparr>) cs
    \<and> parse_input_frame c = Some \<lparr>fr_kind = 8, fr_op = nat (op_value op), fr_body = []\<rparr>"
proof -
  obtain b cs c where fr: "frames = b # cs @ [c]" and len: "length data \<le> 1048576"
    and b: "encode_input_frame IK_paste_begin op (be_bytes 4 (int (length data)) @ [bool_byte allow_unsafe]) = Inr b"
    and cs: "paste_chunks op data 0 0 = Inr cs" and c: "encode_input_frame IK_paste_commit op [] = Inr c"
    by (rule paste_frames [OF assms])
  have chunks: "concat (map frame_data cs) = data" "map frame_index cs = [0 ..< length cs]"
    "length cs = (length data + 65530) div 65531"
    using paste_chunks_correct [OF cs] len by simp_all
  then have "length cs \<le> (1048576 + 65530) div 65531" using len by (simp add: div_le_mono)
  then have "length cs \<le> MAX_PASTE_CHUNKS" by (simp add: MAX_PASTE_CHUNKS_def)
  moreover have "list_all (\<lambda>f. \<exists>d. parse_input_frame f =
      Some \<lparr>fr_kind = 7, fr_op = nat (op_value op), fr_body = d\<rparr>) cs"
    using paste_chunk_ops [OF cs] chunk_frame_parse unfolding list_all_iff by blast
  ultimately show ?thesis
    using fr chunks parse_encode_input_frame [OF b] parse_encode_input_frame [OF c] by simp
qed

theorem encode_paste_frames_witness:
  "\<exists>frames b cs c. encode_paste (Id_number 3) False [65, 66] = Inr frames \<and> frames = b # cs @ [c]
     \<and> concat (map frame_data cs) = [65, 66] \<and> length cs \<le> MAX_PASTE_CHUNKS"
proof -
  have "valid_op (Id_number 3)" by (simp add: valid_op_def MAX_SAFE_INTEGER_def)
  then obtain frames where "encode_paste (Id_number 3) False [65, 66] = Inr frames"
    using encode_paste_returns [of "Id_number 3" "[65, 66]" False] by (auto simp: MAX_PASTE_BYTES_def)
  then show ?thesis using encode_paste_frames by metis
qed

text \<open>
  \<open>encodePaste\<close> returns frames exactly when the operation id is valid and the data is not
  empty and within the paste limit; every other input throws.
\<close>

theorem encode_paste_total:
  "(\<exists>frames. encode_paste op allow_unsafe data = Inr frames)
     = (valid_op op \<and> data \<noteq> [] \<and> length data \<le> MAX_PASTE_BYTES)"
proof
  assume "\<exists>frames. encode_paste op allow_unsafe data = Inr frames"
  then obtain frames where f: "encode_paste op allow_unsafe data = Inr frames" by blast
  then have "valid_op op" by (rule paste_frames) (auto simp: encode_input_frame_Inr)
  with f show "valid_op op \<and> data \<noteq> [] \<and> length data \<le> MAX_PASTE_BYTES"
    by (auto simp: encode_paste_def split: if_splits)
qed (use encode_paste_returns in auto)

end
