(* ===== verification/Terminal_Input.thy ===== *)
theory Terminal_Input
  imports Complex_Main Terminal_Input_Frames
begin

text \<open>
  Semantic terminal input: the records of \<open>src/botster/terminalInputEvents.ts\<close>, their
  encoding in \<open>terminalInputEncoding.ts\<close> and the mouse policy of \<open>mouseMode.ts\<close>.

  DOM coordinates and wheel deltas are finite doubles in the program; here they are exact
  rationals (\<open>rat\<close>), so rounding of the arithmetic itself is not modelled. A key record's
  \<open>toLowerCase\<close> is the parameter \<open>lower\<close>.
\<close>

unbundle bit_operations_syntax

subsection \<open>Records\<close>

record modifier_state =
  m_shift :: bool
  m_ctrl :: bool
  m_alt :: bool
  m_super :: bool
  m_caps_lock :: bool
  m_num_lock :: bool

definition no_modifiers :: modifier_state where
  "no_modifiers = \<lparr>m_shift = False, m_ctrl = False, m_alt = False, m_super = False,
     m_caps_lock = False, m_num_lock = False\<rparr>"

record key_event =
  kv_action :: key_action
  kv_code :: string
  kv_key :: js_string
  kv_mods :: modifier_state
  kv_text :: js_string
  kv_composing :: bool
  kv_unshifted :: nat

datatype pointer_button =
  PB_left | PB_middle | PB_right | PB_back | PB_forward | PB_wheel_up | PB_wheel_down
| PB_wheel_left | PB_wheel_right

record mouse_event =
  mv_action :: mouse_action
  mv_button :: "pointer_button option"
  mv_mods :: modifier_state
  mv_col :: int
  mv_row :: int
  mv_x_px :: int
  mv_y_px :: int

record geometry =
  g_rows :: int
  g_cols :: int
  g_width_px :: int
  g_height_px :: int

datatype semantic_input =
    In_key key_event
  | In_mouse mouse_event
  | In_focus bool
  | In_resize geometry
  | In_paste js_string
  | In_raw bytes

subsection \<open>Keys\<close>

text \<open>\<open>Array.from(s)\<close> and \<open>codePointAt(0)\<close>: a surrogate pair is one element.\<close>

fun code_points :: "js_string \<Rightarrow> nat list" where
  "code_points [] = []"
| "code_points [u] = [unat u]"
| "code_points (u # v # s) =
     (if high_surrogate u \<and> low_surrogate v then pair_value u v # code_points s
      else unat u # code_points (v # s))"

record keyboard_event =
  kb_key :: js_string
  kb_code :: string
  kb_mods :: modifier_state
  kb_key_code :: int
  kb_is_composing :: bool
  kb_repeat :: bool

definition is_printable_key_value :: "js_string \<Rightarrow> bool" where
  "is_printable_key_value key \<longleftrightarrow> key \<noteq> [] \<and> length (code_points key) = 1"

definition js :: "string \<Rightarrow> js_string" where
  "js s = map (\<lambda>c. of_nat (of_char c)) s"

definition is_composition_placeholder_key :: "keyboard_event \<Rightarrow> bool" where
  "is_composition_placeholder_key e \<longleftrightarrow>
     kb_is_composing e \<or> kb_key e = js ''Process'' \<or> kb_key e = js ''Unidentified''
     \<or> kb_key e = js ''Dead'' \<or> kb_key_code e = 229"

definition committed_text_for_keydown :: "keyboard_event \<Rightarrow> js_string" where
  "committed_text_for_keydown e =
     (if \<not> is_printable_key_value (kb_key e) then []
      else if m_ctrl (kb_mods e) \<or> m_super (kb_mods e) then []
      else kb_key e)"

definition code_point_at_0 :: "js_string \<Rightarrow> nat" where
  "code_point_at_0 s = (case code_points s of [] \<Rightarrow> 0 | c # _ \<Rightarrow> c)"

definition unshifted_codepoint_for_keydown :: "(js_string \<Rightarrow> js_string) \<Rightarrow> keyboard_event \<Rightarrow> nat" where
  "unshifted_codepoint_for_keydown lower e =
     (if \<not> is_printable_key_value (kb_key e) then 0
      else code_point_at_0 (if m_shift (kb_mods e) then lower (kb_key e) else kb_key e))"

definition key_input_from_keyboard_event ::
    "(js_string \<Rightarrow> js_string) \<Rightarrow> keyboard_event \<Rightarrow> key_action \<Rightarrow> key_event" where
  "key_input_from_keyboard_event lower e action = \<lparr>
     kv_action = action,
     kv_code = kb_code e,
     kv_key = kb_key e,
     kv_mods = kb_mods e,
     kv_text = (if action = KA_release then [] else committed_text_for_keydown e),
     kv_composing = False,
     kv_unshifted = unshifted_codepoint_for_keydown lower e\<rparr>"

definition key_input_from_committed_text :: "js_string \<Rightarrow> bool \<Rightarrow> key_event" where
  "key_input_from_committed_text text composing = \<lparr>
     kv_action = KA_press, kv_code = [], kv_key = [], kv_mods = no_modifiers,
     kv_text = text, kv_composing = composing, kv_unshifted = 0\<rparr>"

subsection \<open>Pointer\<close>

fun mouse_button_from_pointer_button :: "int \<Rightarrow> pointer_button option" where
  "mouse_button_from_pointer_button n =
     (if n = 0 then Some PB_left else if n = 1 then Some PB_middle
      else if n = 2 then Some PB_right else if n = 3 then Some PB_back
      else if n = 4 then Some PB_forward else None)"

record cell_geometry =
  cg_cols :: int
  cg_rows :: int
  cg_left :: rat
  cg_top :: rat
  cg_width :: rat
  cg_height :: rat
  cg_scale_x :: rat
  cg_scale_y :: rat

record pointer_position =
  pp_col :: int
  pp_row :: int
  pp_x_px :: int
  pp_y_px :: int

definition js_round :: "rat \<Rightarrow> int" where
  "js_round x = \<lfloor>x + 1 / 2\<rfloor>"

definition pointer_position_in_geometry ::
    "rat \<Rightarrow> rat \<Rightarrow> cell_geometry \<Rightarrow> pointer_position" where
  "pointer_position_in_geometry client_x client_y g =
     (let css_x = max 0 (client_x - cg_left g);
          css_y = max 0 (client_y - cg_top g);
          x_px = js_round (css_x * (if cg_scale_x g > 0 then cg_scale_x g else 1));
          y_px = js_round (css_y * (if cg_scale_y g > 0 then cg_scale_y g else 1)) in
      if cg_width g \<le> 0 \<or> cg_height g \<le> 0 \<or> cg_cols g \<le> 0 \<or> cg_rows g \<le> 0
      then \<lparr>pp_col = 0, pp_row = 0, pp_x_px = x_px, pp_y_px = y_px\<rparr>
      else \<lparr>pp_col = min (cg_cols g - 1) (max 0 \<lfloor>css_x / cg_width g * of_int (cg_cols g)\<rfloor>),
            pp_row = min (cg_rows g - 1) (max 0 \<lfloor>css_y / cg_height g * of_int (cg_rows g)\<rfloor>),
            pp_x_px = x_px, pp_y_px = y_px\<rparr>)"

record pointer_event =
  pe_client_x :: rat
  pe_client_y :: rat
  pe_button :: int
  pe_buttons :: int
  pe_mods :: modifier_state

definition mouse_input_from_pointer_event ::
    "pointer_event \<Rightarrow> mouse_action \<Rightarrow> cell_geometry \<Rightarrow> mouse_event" where
  "mouse_input_from_pointer_event e action g =
     (let p = pointer_position_in_geometry (pe_client_x e) (pe_client_y e) g in \<lparr>
        mv_action = action,
        mv_button = (if action = MA_motion then None
                     else mouse_button_from_pointer_button (pe_button e)),
        mv_mods = pe_mods e,
        mv_col = pp_col p, mv_row = pp_row p, mv_x_px = pp_x_px p, mv_y_px = pp_y_px p\<rparr>)"

subsection \<open>Wheel\<close>

definition WHEEL_REPORTS_PER_BURST :: int where "WHEEL_REPORTS_PER_BURST = 3"

text \<open>A wheel delta as the DOM delivers it: a finite number, or NaN or an infinity.\<close>

datatype js_number = Finite rat | Not_finite

definition wheel_delta_pixels :: "js_number \<Rightarrow> int \<Rightarrow> rat \<Rightarrow> int \<Rightarrow> rat" where
  "wheel_delta_pixels delta delta_mode cell_size spanned =
     (case delta of
        Not_finite \<Rightarrow> 0
      | Finite d \<Rightarrow>
          if d = 0 then 0
          else let size = max 1 cell_size; count = max 1 spanned in
            if delta_mode = 1 then d * size
            else if delta_mode = 2 then d * of_int count * size
            else d)"

record wheel =
  pending_x :: rat
  pending_y :: rat

definition wheel_reset :: wheel where
  "wheel_reset = \<lparr>pending_x = 0, pending_y = 0\<rparr>"

definition js_trunc :: "rat \<Rightarrow> int" where
  "js_trunc x = (if x \<ge> 0 then \<lfloor>x\<rfloor> else \<lceil>x\<rceil>)"

text \<open>One axis: the new pending value and the whole steps of this event.\<close>

definition consume_axis :: "rat \<Rightarrow> rat \<Rightarrow> rat \<Rightarrow> int \<Rightarrow> rat \<times> int" where
  "consume_axis pending0 delta_px cell_size spanned =
     (if delta_px = 0 then (pending0, 0)
      else let size = max 1 cell_size;
               pending = (if pending0 \<noteq> 0 \<and> sgn pending0 \<noteq> sgn delta_px then 0 else pending0) + delta_px;
               raw_steps = js_trunc (pending / size);
               cap = max 1 (min WHEEL_REPORTS_PER_BURST (if spanned = 0 then 24 else spanned));
               steps = sgn raw_steps * min \<bar>raw_steps\<bar> cap
           in (pending - of_int steps * size, steps))"

definition wheel_consume ::
    "wheel \<Rightarrow> js_number \<Rightarrow> js_number \<Rightarrow> int \<Rightarrow> rat \<Rightarrow> rat \<Rightarrow> int \<Rightarrow> int
     \<Rightarrow> wheel \<times> (pointer_button \<times> nat) list" where
  "wheel_consume w delta_x delta_y delta_mode cell_width cell_height cols rows =
     (let (py, step_y) = consume_axis (pending_y w)
            (wheel_delta_pixels delta_y delta_mode cell_height rows) cell_height rows;
          (px, step_x) = consume_axis (pending_x w)
            (wheel_delta_pixels delta_x delta_mode cell_width cols) cell_width cols
      in (\<lparr>pending_x = px, pending_y = py\<rparr>,
          (if step_y \<noteq> 0 then [(if step_y < 0 then PB_wheel_up else PB_wheel_down, nat \<bar>step_y\<bar>)] else [])
          @ (if step_x \<noteq> 0 then [(if step_x < 0 then PB_wheel_left else PB_wheel_right, nat \<bar>step_x\<bar>)] else [])))"

subsection \<open>Mouse policy\<close>

record mouse_policy =
  mp_tracking :: bool
  mp_drag_motion :: bool
  mp_any_motion :: bool

definition mouse_capture_policy_from_modes :: "int \<Rightarrow> mouse_policy" where
  "mouse_capture_policy_from_modes mode_bits =
     (let flags = decode_mode_flags mode_bits in \<lparr>
        mp_tracking = mouse_normal flags \<or> mouse_button_mode flags \<or> mouse_any flags,
        mp_drag_motion = mouse_button_mode flags \<or> mouse_any flags,
        mp_any_motion = mouse_any flags\<rparr>)"

subsection \<open>Encoding\<close>

definition terminal_mods_bits :: "modifier_state \<Rightarrow> int" where
  "terminal_mods_bits m =
     (let bits = 0;
          bits = (if m_shift m then bits OR int (terminal_mod_code TM_shift) else bits);
          bits = (if m_ctrl m then bits OR int (terminal_mod_code TM_ctrl) else bits);
          bits = (if m_alt m then bits OR int (terminal_mod_code TM_alt) else bits);
          bits = (if m_super m then bits OR int (terminal_mod_code TM_super) else bits);
          bits = (if m_caps_lock m then bits OR int (terminal_mod_code TM_caps_lock) else bits);
          bits = (if m_num_lock m then bits OR int (terminal_mod_code TM_num_lock) else bits)
      in bits)"

fun terminal_mouse_button_name :: "pointer_button option \<Rightarrow> mouse_button option" where
  "terminal_mouse_button_name (Some PB_left) = Some MBt_left"
| "terminal_mouse_button_name (Some PB_middle) = Some MBt_middle"
| "terminal_mouse_button_name (Some PB_right) = Some MBt_right"
| "terminal_mouse_button_name (Some PB_back) = Some MBt_button8"
| "terminal_mouse_button_name (Some PB_forward) = Some MBt_button9"
| "terminal_mouse_button_name (Some PB_wheel_up) = Some MBt_wheel_up"
| "terminal_mouse_button_name (Some PB_wheel_down) = Some MBt_wheel_down"
| "terminal_mouse_button_name (Some PB_wheel_left) = Some MBt_wheel_left"
| "terminal_mouse_button_name (Some PB_wheel_right) = Some MBt_wheel_right"
| "terminal_mouse_button_name None = None"

definition consumed_mods_for_key :: "key_event \<Rightarrow> int \<Rightarrow> int" where
  "consumed_mods_for_key k mods =
     (if kv_text k = [] \<or> \<not> m_shift (kv_mods k) then 0
      else if code_point_at_0 (kv_text k) \<noteq> kv_unshifted k
        then mods AND int (terminal_mod_code TM_shift) else 0)"

text \<open>
  \<open>EncodedInputOperation\<close>: its payload size for the accounting, and what its \<open>frames\<close>
  closure encodes. \<open>Src_released\<close> is \<open>releasedOperation\<close> of \<open>hubTerminalDataPlane.ts\<close>, whose
  closure throws.
\<close>

datatype op_source = Src_input semantic_input | Src_paste bytes bool | Src_released

record encoded_operation =
  body_bytes :: nat
  op_source :: op_source

definition encode_paste_operation :: "bytes \<Rightarrow> bool \<Rightarrow> encoded_operation" where
  "encode_paste_operation data allow_unsafe =
     \<lparr>body_bytes = length data, op_source = Src_paste data allow_unsafe\<rparr>"

definition encode_semantic_input :: "semantic_input \<Rightarrow> encoded_operation" where
  "encode_semantic_input inp =
     (case inp of
        In_raw bs \<Rightarrow> \<lparr>body_bytes = length bs, op_source = Src_input inp\<rparr>
      | In_key k \<Rightarrow> \<lparr>body_bytes = 12 + length (kv_text k), op_source = Src_input inp\<rparr>
      | In_mouse m \<Rightarrow> \<lparr>body_bytes = 17, op_source = Src_input inp\<rparr>
      | In_focus f \<Rightarrow> \<lparr>body_bytes = 1, op_source = Src_input inp\<rparr>
      | In_resize g \<Rightarrow> \<lparr>body_bytes = 12, op_source = Src_input inp\<rparr>
      | In_paste text \<Rightarrow> encode_paste_operation (text_encode text) False)"

datatype frames_error = Codec_error protocol_error | Frames_already_sent

definition codec_result :: "protocol_error + 'a \<Rightarrow> frames_error + 'a" where
  "codec_result r = (case r of Inl e \<Rightarrow> Inl (Codec_error e) | Inr x \<Rightarrow> Inr x)"

definition key_input_of_event :: "key_event \<Rightarrow> key_input" where
  "key_input_of_event k =
     (let mods = terminal_mods_bits (kv_mods k) in \<lparr>
        ki_action = kv_action k,
        ki_key = int (if kv_code k \<noteq> [] then terminal_key_from_code (kv_code k)
                      else terminal_key_from_code ''Unidentified''),
        ki_mods = mods,
        ki_consumed_mods = consumed_mods_for_key k mods,
        ki_composing = kv_composing k,
        ki_unshifted_codepoint = int (kv_unshifted k),
        ki_text = kv_text k\<rparr>)"

definition mouse_input_of_event :: "mouse_event \<Rightarrow> mouse_input" where
  "mouse_input_of_event m = \<lparr>
     mi_action = mv_action m,
     mi_button = terminal_mouse_button_name (mv_button m),
     mi_mods = terminal_mods_bits (mv_mods m),
     mi_col = mv_col m, mi_row = mv_row m, mi_x_px = mv_x_px m, mi_y_px = mv_y_px m\<rparr>"

definition input_frames :: "semantic_input \<Rightarrow> op_id \<Rightarrow> protocol_error + bytes list" where
  "input_frames inp op =
     (case inp of
        In_raw bs \<Rightarrow> and_then (encode_raw_bytes op bs) (\<lambda>f. Inr [f])
      | In_key k \<Rightarrow> and_then (encode_key op (key_input_of_event k)) (\<lambda>f. Inr [f])
      | In_mouse m \<Rightarrow> and_then (encode_mouse op (mouse_input_of_event m)) (\<lambda>f. Inr [f])
      | In_focus b \<Rightarrow> and_then (encode_focus op b) (\<lambda>f. Inr [f])
      | In_resize g \<Rightarrow> and_then (encode_resize op (g_rows g) (g_cols g) (g_width_px g) (g_height_px g))
          (\<lambda>f. Inr [f])
      | In_paste text \<Rightarrow> encode_paste op False (text_encode text))"

definition operation_frames :: "encoded_operation \<Rightarrow> op_id \<Rightarrow> frames_error + bytes list" where
  "operation_frames e op =
     (case op_source e of
        Src_input inp \<Rightarrow> codec_result (input_frames inp op)
      | Src_paste data allow_unsafe \<Rightarrow> codec_result (encode_paste op allow_unsafe data)
      | Src_released \<Rightarrow> Inl Frames_already_sent)"

text \<open>Only a paste has an \<open>abortFrame\<close>; for the others the optional call is skipped.\<close>

definition operation_abort_frame :: "encoded_operation \<Rightarrow> op_id \<Rightarrow> (frames_error + bytes) option" where
  "operation_abort_frame e op =
     (case op_source e of
        Src_paste _ _ \<Rightarrow> Some (codec_result (encode_paste_abort op))
      | _ \<Rightarrow> None)"

subsection \<open>Wheel steps\<close>

lemma js_trunc_bound: "\<bar>of_int (js_trunc x)\<bar> \<le> \<bar>x :: rat\<bar>"
proof (cases "x \<ge> 0")
  case True
  then show ?thesis by (simp add: js_trunc_def of_int_floor_le)
next
  case False
  then have "\<lceil>x\<rceil> \<le> 0" by (simp add: ceiling_le_zero)
  then show ?thesis using False le_of_int_ceiling [of x] by (simp add: js_trunc_def)
qed

lemma js_trunc_sgn: "js_trunc x = 0 \<or> (0 < js_trunc x \<and> 0 < x) \<or> (js_trunc x < 0 \<and> x < 0)"
  by (auto simp: js_trunc_def not_le) linarith+

text \<open>The pending distance after the direction reset and before whole steps are taken off.\<close>

definition axis_distance :: "rat \<Rightarrow> rat \<Rightarrow> rat" where
  "axis_distance pending0 delta_px =
     (if pending0 \<noteq> 0 \<and> sgn pending0 \<noteq> sgn delta_px then 0 else pending0) + delta_px"

lemma axis_distance_sgn: "delta \<noteq> 0 \<Longrightarrow> sgn (axis_distance p delta) = sgn delta"
  by (auto simp: axis_distance_def sgn_if split: if_splits)

lemma capped_steps:
  fixes raw cap :: int
  assumes "1 \<le> cap"
  shows "\<bar>sgn raw * min \<bar>raw\<bar> cap\<bar> = min \<bar>raw\<bar> cap"
  using assms by (simp add: abs_mult sgn_if)

definition wheel_cap :: "int \<Rightarrow> int" where
  "wheel_cap spanned = max 1 (min WHEEL_REPORTS_PER_BURST (if spanned = 0 then 24 else spanned))"

lemma wheel_cap_bounds: "1 \<le> wheel_cap spanned" "wheel_cap spanned \<le> 3"
  by (simp_all add: wheel_cap_def WHEEL_REPORTS_PER_BURST_def)

definition raw_steps_of :: "rat \<Rightarrow> rat \<Rightarrow> rat \<Rightarrow> int" where
  "raw_steps_of p delta cell_size = js_trunc (axis_distance p delta / max 1 cell_size)"

lemma consume_axis_eq:
  assumes "delta \<noteq> 0"
  shows "consume_axis p delta cell_size spanned =
       (axis_distance p delta - of_int (sgn (raw_steps_of p delta cell_size)
          * min \<bar>raw_steps_of p delta cell_size\<bar> (wheel_cap spanned)) * max 1 cell_size,
        sgn (raw_steps_of p delta cell_size)
          * min \<bar>raw_steps_of p delta cell_size\<bar> (wheel_cap spanned))"
  by (simp only: consume_axis_def raw_steps_of_def axis_distance_def wheel_cap_def Let_def assms if_False)

lemma consume_axis_bound: "\<bar>snd (consume_axis p delta cell_size spanned)\<bar> \<le> 3"
proof (cases "delta = 0")
  case False
  then show ?thesis
    using capped_steps [OF wheel_cap_bounds(1)] wheel_cap_bounds(2) [of spanned]
    by (simp add: consume_axis_eq)
qed (simp add: consume_axis_def)

lemma consume_axis_split:
  assumes "delta \<noteq> 0" "consume_axis p delta cell_size spanned = (p', n)"
  shows "p' + of_int n * max 1 cell_size = axis_distance p delta"
    and "n = 0 \<or> sgn (of_int n) = sgn delta"
    and "p' = 0 \<or> sgn p' = sgn delta"
proof -
  define size where "size = max 1 cell_size"
  have size: "1 \<le> size" by (simp add: size_def)
  define d where "d = axis_distance p delta"
  define raw where "raw = raw_steps_of p delta cell_size"
  define cap where "cap = wheel_cap spanned"
  have cap: "1 \<le> cap" "cap \<le> 3" by (simp_all add: cap_def wheel_cap_bounds)
  have raw: "raw = js_trunc (d / size)" by (simp add: raw_def raw_steps_of_def d_def size_def)
  have eq: "(p', n) = (d - of_int (sgn raw * min \<bar>raw\<bar> cap) * size, sgn raw * min \<bar>raw\<bar> cap)"
    using consume_axis_eq [OF assms(1), of p cell_size spanned] assms(2)
    by (simp only: raw_def cap_def size_def d_def)
  have dsgn: "sgn d = sgn delta" using axis_distance_sgn [OF assms(1)] by (simp add: d_def)
  show "p' + of_int n * max 1 cell_size = axis_distance p delta"
    using eq by (simp add: size_def d_def)
  have rsgn: "raw = 0 \<or> (0 < raw \<and> 0 < d) \<or> (raw < 0 \<and> d < 0)"
    using js_trunc_sgn [of "d / size"] size raw by (simp add: zero_less_divide_iff divide_less_0_iff)
  then show "n = 0 \<or> sgn (of_int n) = sgn delta"
    using eq cap dsgn by (auto simp: sgn_if split: if_splits)
  have "\<bar>of_int raw\<bar> \<le> \<bar>d / size\<bar>" unfolding raw by (rule js_trunc_bound)
  then have "\<bar>of_int raw\<bar> * size \<le> \<bar>d\<bar>"
    using size by (simp add: abs_divide pos_le_divide_eq)
  moreover have "of_int (min \<bar>raw\<bar> cap) * size \<le> of_int \<bar>raw\<bar> * size"
    using size by (intro mult_right_mono) simp_all
  ultimately have le: "of_int (min \<bar>raw\<bar> cap) * size \<le> \<bar>d\<bar>" by simp
  show "p' = 0 \<or> sgn p' = sgn delta"
    using rsgn le eq dsgn cap by (auto simp: sgn_if split: if_splits)
qed

subsection \<open>Modifier bits\<close>

lemma terminal_mods_bits_flags:
  "(terminal_mods_bits m AND int (terminal_mod_code TM_shift) \<noteq> 0) = m_shift m"
  "(terminal_mods_bits m AND int (terminal_mod_code TM_ctrl) \<noteq> 0) = m_ctrl m"
  "(terminal_mods_bits m AND int (terminal_mod_code TM_alt) \<noteq> 0) = m_alt m"
  "(terminal_mods_bits m AND int (terminal_mod_code TM_super) \<noteq> 0) = m_super m"
  "(terminal_mods_bits m AND int (terminal_mod_code TM_caps_lock) \<noteq> 0) = m_caps_lock m"
  "(terminal_mods_bits m AND int (terminal_mod_code TM_num_lock) \<noteq> 0) = m_num_lock m"
  by (cases "m_shift m"; cases "m_ctrl m"; cases "m_alt m"; cases "m_super m";
      cases "m_caps_lock m"; cases "m_num_lock m"; simp add: terminal_mods_bits_def)+

lemma terminal_mods_bits_range: "0 \<le> terminal_mods_bits m \<and> terminal_mods_bits m < 64"
  by (cases "m_shift m"; cases "m_ctrl m"; cases "m_alt m"; cases "m_super m";
      cases "m_caps_lock m"; cases "m_num_lock m"; simp add: terminal_mods_bits_def)

subsection \<open>Frames of an operation\<close>

text \<open>Client payload that the frames of an operation carry: paste data, or the frame body.\<close>

definition frames_payload :: "op_source \<Rightarrow> bytes list \<Rightarrow> nat" where
  "frames_payload src frames =
     (case src of
        Src_paste _ _ \<Rightarrow> length (concat (map frame_data (butlast (tl frames))))
      | _ \<Rightarrow> sum_list (map (\<lambda>f. length f - 12) frames))"

lemma codec_result_Inr: "codec_result r = Inr x \<longleftrightarrow> r = Inr x"
  by (simp add: codec_result_def split: sum.splits)

lemma paste_frames_payload:
  assumes "encode_paste op allow_unsafe data = Inr frames"
  shows "concat (map frame_data (butlast (tl frames))) = data"
proof -
  obtain b cs c where "frames = b # cs @ [c]" "length data \<le> 1048576"
    "paste_chunks op data 0 0 = Inr cs"
    by (rule paste_frames [OF assms])
  then show ?thesis using paste_chunks_correct [of op data 0 0 cs] by simp
qed

lemma length_key_body: "length (key_body k) = 12 + length (text_encode (ki_text k))"
  by (simp add: key_body_def)

lemma length_mouse_body: "length (mouse_body m) = 17"
  by (simp add: mouse_body_def)

text \<open>ASCII text takes one byte per code unit.\<close>

lemma length_text_encode_ascii:
  "list_all (\<lambda>u. unat u < 0x80) s \<Longrightarrow> length (text_encode s) = length s"
proof (induction s rule: scalar_values.induct)
  case (3 u v s)
  then show ?case by (auto simp: text_encode_def high_surrogate_def unit_value_def low_surrogate_def
      utf8_scalar_def)
qed (auto simp: text_encode_def unit_value_def high_surrogate_def low_surrogate_def utf8_scalar_def)

definition ascii :: "js_string \<Rightarrow> bool" where
  "ascii s \<longleftrightarrow> list_all (\<lambda>u. unat u < 0x80) s"

lemma encode_key_length:
  "encode_key op (key_input_of_event k) = Inr f \<Longrightarrow> length f = 24 + length (text_encode (kv_text k))"
  by (auto simp: encode_key_def length_key_body key_input_of_event_def Let_def
      dest!: length_encode_input_frame)

lemma encode_mouse_length: "encode_mouse op m = Inr f \<Longrightarrow> length f = 29"
  by (auto simp: encode_mouse_def length_mouse_body dest!: length_encode_input_frame)

lemma encode_raw_length: "encode_raw_bytes op bs = Inr f \<Longrightarrow> length f = 12 + length bs"
  by (auto simp: encode_raw_bytes_def dest!: length_encode_input_frame split: if_splits)

lemma encode_focus_length: "encode_focus op b = Inr f \<Longrightarrow> length f = 13"
  by (auto simp: encode_focus_def dest!: length_encode_input_frame)

lemma encode_resize_length: "encode_resize op r c w h = Inr f \<Longrightarrow> length f = 24"
  by (auto simp: encode_resize_def dest!: length_encode_input_frame)

lemmas encode_lengths = encode_key_length encode_mouse_length encode_raw_length encode_focus_length
  encode_resize_length

lemma semantic_payload:
  assumes "operation_frames (encode_semantic_input inp) op = Inr frames"
  shows "frames_payload (op_source (encode_semantic_input inp)) frames =
    (case inp of In_key k \<Rightarrow> 12 + length (text_encode (kv_text k))
     | _ \<Rightarrow> body_bytes (encode_semantic_input inp))"
  using assms
  by (cases inp)
    (auto simp: encode_semantic_input_def encode_paste_operation_def operation_frames_def
      codec_result_Inr input_frames_def frames_payload_def and_then_Inr paste_frames_payload
      dest!: encode_lengths)

subsection \<open>Properties\<close>

text \<open>
  One wheel event on one axis takes off at most three whole steps, in the direction of the
  event; steps and the distance left over add up to the accumulated distance, and what is left
  over never points against the event.
\<close>

theorem wheel_axis_conserves:
  assumes "delta \<noteq> 0" "consume_axis p delta cell_size spanned = (p', n)"
  shows "p' + of_int n * max 1 cell_size = axis_distance p delta
    \<and> \<bar>n\<bar> \<le> WHEEL_REPORTS_PER_BURST
    \<and> (n = 0 \<or> sgn (of_int n) = sgn delta) \<and> (p' = 0 \<or> sgn p' = sgn delta)"
  using consume_axis_split [OF assms] consume_axis_bound [of p delta cell_size spanned] assms(2)
  by (simp add: WHEEL_REPORTS_PER_BURST_def)

theorem wheel_axis_conserves_witness:
  "consume_axis 5 100 10 24 = (75, 3) \<and> (75 :: rat) + of_int 3 * max 1 10 = axis_distance 5 100"
proof -
  have e: "consume_axis 5 100 10 24 = (75, 3)"
    by (simp add: consume_axis_def js_trunc_def WHEEL_REPORTS_PER_BURST_def floor_divide_eq_div_numeral)
  show ?thesis using e wheel_axis_conserves [OF _ e] by simp
qed

text \<open>
  The cell reported for a pointer always lies in the grid, whatever the coordinates and the
  canvas rectangle are.
\<close>

theorem pointer_cell_in_grid:
  assumes "0 < cg_cols g" "0 < cg_rows g"
  shows "0 \<le> pp_col (pointer_position_in_geometry x y g)
    \<and> pp_col (pointer_position_in_geometry x y g) < cg_cols g
    \<and> 0 \<le> pp_row (pointer_position_in_geometry x y g)
    \<and> pp_row (pointer_position_in_geometry x y g) < cg_rows g"
  using assms by (auto simp: pointer_position_in_geometry_def Let_def min_less_iff_disj)

theorem pointer_cell_in_grid_witness:
  "pp_col (pointer_position_in_geometry 5000 (- 3)
     \<lparr>cg_cols = 80, cg_rows = 24, cg_left = 0, cg_top = 0, cg_width = 800, cg_height = 480,
      cg_scale_x = 2, cg_scale_y = 2\<rparr>) < 80"
  using pointer_cell_in_grid [of "\<lparr>cg_cols = 80, cg_rows = 24, cg_left = 0, cg_top = 0,
      cg_width = 800, cg_height = 480, cg_scale_x = 2, cg_scale_y = 2\<rparr>" 5000 "- 3"]
  by simp

text \<open>
  The size an input operation is accounted with never exceeds the client payload its frames
  carry, and equals it for every operation but a key whose text is not ASCII.
\<close>

theorem operation_accounting:
  assumes "operation_frames (encode_semantic_input inp) op = Inr frames"
  shows "if (case inp of In_key k \<Rightarrow> \<not> ascii (kv_text k) | _ \<Rightarrow> False)
    then body_bytes (encode_semantic_input inp)
      \<le> frames_payload (op_source (encode_semantic_input inp)) frames
    else body_bytes (encode_semantic_input inp)
      = frames_payload (op_source (encode_semantic_input inp)) frames"
proof (cases inp)
  case (In_key k)
  then show ?thesis
    using semantic_payload [OF assms] length_text_encode [of "kv_text k"]
      length_text_encode_ascii [of "kv_text k"]
    by (auto simp: ascii_def encode_semantic_input_def)
qed (use semantic_payload [OF assms] in simp_all)

theorem operation_accounting_witness:
  "\<exists>frames. operation_frames (encode_semantic_input (In_focus True)) (Id_number 1) = Inr frames
     \<and> body_bytes (encode_semantic_input (In_focus True))
       = frames_payload (op_source (encode_semantic_input (In_focus True))) frames"
proof -
  obtain frames where f: "operation_frames (encode_semantic_input (In_focus True)) (Id_number 1) = Inr frames"
    by (simp add: operation_frames_def encode_semantic_input_def input_frames_def encode_focus_def
        encode_input_frame_def MAX_SAFE_INTEGER_def input_constants codec_result_def)
  show ?thesis using f operation_accounting [OF f] by simp
qed

text \<open>
  A key operation counts UTF-16 units where its frame carries UTF-8 bytes: for text outside
  ASCII the accounted size is smaller than the client payload that is sent and retained.
\<close>

definition cjk_key :: key_event where
  "cjk_key = key_input_from_committed_text [0x4E2D] False"

theorem key_accounting_undercounts:
  "\<exists>frames. operation_frames (encode_semantic_input (In_key cjk_key)) (Id_number 1) = Inr frames
     \<and> body_bytes (encode_semantic_input (In_key cjk_key)) = 13
     \<and> frames_payload (op_source (encode_semantic_input (In_key cjk_key))) frames = 15"
proof -
  have utf8: "length (text_encode [0x4E2D]) = 3"
    by (simp add: text_encode_def unit_value_def high_surrogate_def low_surrogate_def utf8_scalar_def)
  obtain frames where f:
    "operation_frames (encode_semantic_input (In_key cjk_key)) (Id_number 1) = Inr frames"
    using utf8
    by (simp add: operation_frames_def encode_semantic_input_def input_frames_def encode_key_def
        encode_input_frame_def MAX_SAFE_INTEGER_def input_constants codec_result_def length_key_body
        key_input_of_event_def Let_def cjk_key_def key_input_from_committed_text_def)
  show ?thesis
    using f semantic_payload [OF f] utf8
    by (simp add: encode_semantic_input_def cjk_key_def key_input_from_committed_text_def)
qed

end
