(* ===== verification/Data_Plane.thy ===== *)
theory Data_Plane
  imports Terminal_Input
begin

text \<open>
  One terminal route: the class \<open>HubTerminalDataPlane\<close> of
  \<open>src/botster/hubTerminalDataPlane.ts\<close>. This theory holds its state and its operations; the
  scheduler of its asynchronous parts is \<open>Data_Plane_Steps\<close>.

  \<^item> The record \<open>plane\<close> is the object's private state. What the code does to the outside
    (calls of listeners, of the stream handle, of the bridge, of the snapshot reader) is
    appended to \<open>log\<close>, in order. Listeners are numbers; a listener that calls back into the
    plane is a later step, never a nested one.
  \<^item> Object identity (\<open>===\<close> on streams, hydrations and in-flight operations) is a serial number
    drawn from \<open>next_serial\<close>. A subscription id minted by \<open>createTerminalSubscriptionId\<close> is
    \<open>Minted n\<close>: the random or time-based ids of the code are taken to be distinct.
  \<^item> Promises the code chains on (the send chain, the event queue, the attach promise) are
    lists of pending tasks in the state; a step runs one task up to its next \<open>await\<close>.
  \<^item> \<open>admitted\<close>, \<open>settled\<close>, \<open>dropped\<close> and \<open>pasted\<close> are ghost fields: the serial numbers of the
    operations taken in, of those that have been settled, of the RESIZE operations released unsent,
    and of those that \<open>writePaste\<close> took in. \<open>oo_serial\<close> is a ghost field too: the operation an
    outcome answers, none for an input that was refused. So the log shows which operations a
    listener has heard of, and the theorems compare that with the ghost fields of the plane.
  \<^item> The operator-harness recorder and the test hooks (undefined in production) are left out,
    and the bridge is one that streams terminals.
\<close>

subsection \<open>Bounds\<close>

definition MAX_PENDING_TERMINAL_ITEMS :: nat where "MAX_PENDING_TERMINAL_ITEMS = 256"
definition MAX_PENDING_TERMINAL_BYTES :: nat where "MAX_PENDING_TERMINAL_BYTES = 8 * 1024 * 1024"
definition MAX_INFLIGHT_INPUT_OPERATIONS :: nat where
  "MAX_INFLIGHT_INPUT_OPERATIONS = MAX_INPUT_OPERATIONS_PER_SESSION"
definition MAX_QUEUED_INPUT_BYTES :: nat where
  "MAX_QUEUED_INPUT_BYTES = MAX_RETAINED_INPUT_BYTES_PER_SESSION"
definition MAX_QUEUED_INPUT_OPERATIONS :: nat where
  "MAX_QUEUED_INPUT_OPERATIONS = MAX_PENDING_TERMINAL_ITEMS"
definition UNSAFE_PASTE_CONSENT_TIMEOUT_MS :: nat where "UNSAFE_PASTE_CONSENT_TIMEOUT_MS = 30000"

lemmas plane_bounds =
  MAX_PENDING_TERMINAL_ITEMS_def MAX_PENDING_TERMINAL_BYTES_def MAX_INFLIGHT_INPUT_OPERATIONS_def
  MAX_QUEUED_INPUT_BYTES_def MAX_QUEUED_INPUT_OPERATIONS_def MAX_INPUT_OPERATIONS_PER_SESSION_def
  MAX_RETAINED_INPUT_BYTES_PER_SESSION_def UNSAFE_PASTE_CONSENT_TIMEOUT_MS_def

subsection \<open>Messages, statuses and outcomes\<close>

text \<open>A template literal is the list of its parts.\<close>

datatype message_part =
    T string
  | Num int
  | Text js_string
  | Frames_error frames_error
  | Protocol_error protocol_error
  | Outcome_name input_outcome

type_synonym message = "message_part list"

datatype attachment_state = ST_attaching | ST_attached | ST_exited | ST_failed

record status =
  st_state :: attachment_state
  st_message :: message
  st_close_reason :: "string option"

definition status_of :: "attachment_state \<Rightarrow> message \<Rightarrow> status" where
  "status_of st msg = \<lparr>st_state = st, st_message = msg, st_close_reason = None\<rparr>"

record terminal_modes =
  tm_mode_bits :: int
  tm_rows :: int
  tm_cols :: int

datatype operation_kind = K_raw | K_key | K_mouse | K_focus | K_resize | K_paste

datatype outcome_name = Core input_outcome | Rejected_locally

record paste_consent =
  pc_generation :: nat
  pc_operation_id :: nat
  pc_expires_at :: nat

record operation_outcome =
  oo_serial :: "nat option"
  oo_kind :: operation_kind
  oo_outcome :: outcome_name
  oo_operation_id :: "nat option"
  oo_requested_bytes :: "nat option"
  oo_accepted_payload_bytes :: "int option"
  oo_written_pty_bytes :: "int option"
  oo_reason :: "string option"
  oo_consent :: "paste_consent option"
  oo_detail :: message

subsection \<open>State\<close>

datatype subscription_id = Given string | Minted nat

text \<open>What settling an operation calls: the outcome listeners, \<open>writePaste\<close>'s promise, or the
  callback of a confirmed paste.\<close>

datatype resolver = Publish | Resolve_write_paste | Resolve_confirm

record queued_operation =
  q_serial :: nat
  q_operation :: encoded_operation
  q_kind :: operation_kind
  q_requested_bytes :: nat
  q_paste_data :: "bytes option"
  q_paste_attempt :: "nat option"
  q_resolve :: resolver

record inflight_operation = queued_operation +
  if_generation :: nat
  if_operation_id :: nat
  if_retained_bytes :: nat

record screen_hydration =
  hy_serial :: nat
  hy_generation :: nat
  hy_buffered_output :: "bytes list"
  hy_buffered_bytes :: nat
  hy_pending_exit :: "int option option"
  hy_ready_received :: bool
  hy_decoder_finished :: bool
  hy_finish_received :: bool
  hy_history_incomplete :: bool
  hy_completed :: bool
  hy_timer :: bool
  hy_reader :: bool

record pending_paste =
  pp_consent :: paste_consent
  pp_data :: bytes

record stream_handle =
  sh_serial :: nat
  sh_can_send :: bool

datatype send_phase =
    Send_waiting
  | Sending "bytes list" nat nat "bytes option"
  | Aborting message

record send_task =
  tk_chain :: nat
  tk_inflight :: inflight_operation
  tk_stream :: nat
  tk_phase :: send_phase

datatype stream_event =
    Route_frame subscription_id int int bytes
  | Subscription_closed subscription_id string int string

datatype snapshot_progress = SP_ready | SP_page | SP_finish | SP_unknown

datatype event_phase =
    Event_queued stream_event
  | Installing nat bytes bool
  | Reading nat bool

record event_task =
  et_chain :: nat
  et_generation :: nat
  et_phase :: event_phase

text \<open>\<open>at_waiters\<close> counts the callers whose \<open>catch\<close> reports a rejected attach as a status.\<close>

datatype attach_phase = Attach_hook nat | Attach_ready nat nat | Attach_settled "message option"

record attach_task =
  at_serial :: nat
  at_phase :: attach_phase
  at_waiters :: nat

datatype effect =
    E_status nat status
  | E_output nat bytes
  | E_modes nat terminal_modes
  | E_outcome nat operation_outcome
  | E_paste_returned operation_outcome
  | E_stream_terminal nat subscription_id
  | E_abandon nat
  | E_send_frame nat bytes
  | E_detach_request subscription_id
  | E_reader_read nat bytes
  | E_reader_cancel nat
  | E_accounting_error

record plane =
  session_id :: string
  subscription :: subscription_id
  fixed_subscription :: bool
  listeners :: "nat list"
  status_listeners :: "nat list"
  modes_listeners :: "nat list"
  outcome_listeners :: "nat list"
  current_status :: status
  current_modes :: "terminal_modes option"
  stream :: "stream_handle option"
  attach_promise :: "nat option"
  detached :: bool
  transport_lost :: bool
  generation :: nat
  attached_received :: bool
  route_generation :: "int option"
  accepted_epoch :: "int option"
  detach_sent_for :: "(subscription_id \<times> nat) option"
  last_abandoned :: "(subscription_id \<times> nat \<times> bool) option"
  lifecycle_subscribed :: bool
  hydration :: "screen_hydration option"
  reader_factory :: bool
  snapshot_recoveries :: nat
  next_operation_id :: nat
  queued_inputs :: "queued_operation list"
  queued_input_bytes :: int
  inflight_input_bytes :: int
  inflight_inputs :: "(nat \<times> inflight_operation) list"
  desired_geometry :: "geometry option"
  sent_geometry :: "geometry option"
  geometry_operation :: "nat option"
  paste_attempt :: nat
  pending_unsafe_paste :: "pending_paste option"
  consent_retained_bytes :: int
  send_chain :: nat
  send_tasks :: "send_task list"
  event_chain :: nat
  event_tasks :: "event_task list"
  attach_tasks :: "attach_task list"
  recover_microtasks :: nat
  recover_waits :: nat
  paste_results :: "operation_outcome list"
  opened_streams :: "(nat \<times> nat) list"
  next_serial :: nat
  clock :: nat
  admitted :: "nat list"
  settled :: "nat list"
  dropped :: "nat list"
  pasted :: "nat list"
  log :: "effect list"

subsection \<open>Listeners\<close>

definition emit :: "effect list \<Rightarrow> plane \<Rightarrow> plane" where
  "emit es s = s\<lparr>log := log s @ es\<rparr>"

definition emit_status :: "status \<Rightarrow> plane \<Rightarrow> plane" where
  "emit_status st s =
     emit (map (\<lambda>l. E_status l st) (status_listeners s)) (s\<lparr>current_status := st\<rparr>)"

definition emit_output :: "bytes \<Rightarrow> plane \<Rightarrow> plane" where
  "emit_output data s = emit (map (\<lambda>l. E_output l data) (listeners s)) s"

definition publish_outcome :: "operation_outcome \<Rightarrow> plane \<Rightarrow> plane" where
  "publish_outcome oc s = emit (map (\<lambda>l. E_outcome l oc) (outcome_listeners s)) s"

definition receive_modes :: "terminal_modes \<Rightarrow> plane \<Rightarrow> plane" where
  "receive_modes m s =
     emit (map (\<lambda>l. E_modes l m) (modes_listeners s)) (s\<lparr>current_modes := Some m\<rparr>)"

definition emit_process_exit :: "int option \<Rightarrow> plane \<Rightarrow> plane" where
  "emit_process_exit code =
     emit_status (status_of ST_exited
       (case code of Some c \<Rightarrow> [T ''Terminal process exited with '', Num c, T ''.'']
        | None \<Rightarrow> [T ''Terminal process exited.'']))"

subsection \<open>Guards\<close>

definition is_current_attachment :: "nat \<Rightarrow> plane \<Rightarrow> bool" where
  "is_current_attachment g s \<longleftrightarrow> \<not> detached s \<and> generation s = g"

definition screen_hydrated :: "plane \<Rightarrow> bool" where
  "screen_hydrated s \<longleftrightarrow>
     (case hydration s of None \<Rightarrow> False
      | Some h \<Rightarrow> hy_generation h = generation s \<and> hy_completed h)"

definition same_geometry :: "geometry \<Rightarrow> geometry option \<Rightarrow> bool" where
  "same_geometry left right \<longleftrightarrow>
     (case right of None \<Rightarrow> False
      | Some r \<Rightarrow> g_rows left = g_rows r \<and> g_cols left = g_cols r
          \<and> g_width_px left = g_width_px r \<and> g_height_px left = g_height_px r)"

text \<open>The stream the pump may send on: a handle with \<open>sendFrame\<close>, attached, not detached.\<close>

definition sendable_stream :: "plane \<Rightarrow> stream_handle option" where
  "sendable_stream s =
     (case stream s of None \<Rightarrow> None
      | Some h \<Rightarrow> if \<not> sh_can_send h \<or> \<not> attached_received s \<or> detached s then None else Some h)"

definition current_inflight :: "inflight_operation \<Rightarrow> plane \<Rightarrow> bool" where
  "current_inflight i s \<longleftrightarrow>
     (case map_of (inflight_inputs s) (if_operation_id i) of None \<Rightarrow> False
      | Some j \<Rightarrow> q_serial j = q_serial i)"

definition retained_input_bytes :: "plane \<Rightarrow> int" where
  "retained_input_bytes s =
     queued_input_bytes s + inflight_input_bytes s + consent_retained_bytes s"

subsection \<open>The in-flight window\<close>

definition inflight_of :: "queued_operation \<Rightarrow> nat \<Rightarrow> nat \<Rightarrow> inflight_operation" where
  "inflight_of e g op = \<lparr>q_serial = q_serial e, q_operation = q_operation e, q_kind = q_kind e,
     q_requested_bytes = q_requested_bytes e, q_paste_data = q_paste_data e,
     q_paste_attempt = q_paste_attempt e, q_resolve = q_resolve e,
     if_generation = g, if_operation_id = op, if_retained_bytes = body_bytes (q_operation e)\<rparr>"

definition append_operation :: "queued_operation \<Rightarrow> stream_handle \<Rightarrow> plane \<Rightarrow> plane" where
  "append_operation e h s =
     (let op = next_operation_id s; i = inflight_of e (generation s) op in
      s\<lparr>next_operation_id := op + 1,
        inflight_inputs := AList.update op i (inflight_inputs s),
        inflight_input_bytes := inflight_input_bytes s + int (if_retained_bytes i),
        send_tasks := send_tasks s @ [\<lparr>tk_chain = send_chain s, tk_inflight = i,
          tk_stream = sh_serial h, tk_phase = Send_waiting\<rparr>]\<rparr>)"

definition resize_entry :: "geometry \<Rightarrow> nat \<Rightarrow> queued_operation" where
  "resize_entry g serial =
     (let encoded = encode_semantic_input (In_resize g) in
      \<lparr>q_serial = serial, q_operation = encoded, q_kind = K_resize,
       q_requested_bytes = body_bytes encoded, q_paste_data = None, q_paste_attempt = None,
       q_resolve = Publish\<rparr>)"

definition maybe_send_geometry :: "plane \<Rightarrow> plane" where
  "maybe_send_geometry s =
     (case sendable_stream s of None \<Rightarrow> s
      | Some h \<Rightarrow>
        (case desired_geometry s of None \<Rightarrow> s
         | Some g \<Rightarrow>
           if geometry_operation s \<noteq> None \<or> \<not> screen_hydrated s then s
           else if length (inflight_inputs s) \<ge> MAX_INFLIGHT_INPUT_OPERATIONS
                   \<or> same_geometry g (sent_geometry s) then s
           else (append_operation (resize_entry g (next_serial s)) h s)
                  \<lparr>geometry_operation := Some (next_serial s),
                   next_serial := Suc (next_serial s),
                   admitted := next_serial s # admitted s\<rparr>))"

text \<open>The loop of \<open>pumpInputs\<close>; the list is the queue itself.\<close>

fun pump_loop :: "stream_handle \<Rightarrow> queued_operation list \<Rightarrow> plane \<Rightarrow> plane" where
  "pump_loop h [] s = s"
| "pump_loop h (e # es) s =
     (if length (inflight_inputs s) < MAX_INFLIGHT_INPUT_OPERATIONS
      then pump_loop h es (append_operation e h
             (s\<lparr>queued_inputs := es,
                queued_input_bytes := queued_input_bytes s - int (body_bytes (q_operation e))\<rparr>))
      else s)"

definition pump_inputs :: "plane \<Rightarrow> plane" where
  "pump_inputs s =
     (case sendable_stream s of None \<Rightarrow> s
      | Some h \<Rightarrow> (let s = maybe_send_geometry s in pump_loop h (queued_inputs s) s))"

definition remove_inflight :: "inflight_operation \<Rightarrow> plane \<Rightarrow> plane" where
  "remove_inflight i s =
     s\<lparr>inflight_inputs := AList.delete (if_operation_id i) (inflight_inputs s),
       inflight_input_bytes := inflight_input_bytes s - int (if_retained_bytes i),
       geometry_operation := (if geometry_operation s = Some (q_serial i) then None
                              else geometry_operation s)\<rparr>"

definition release_unsent_operation :: "inflight_operation \<Rightarrow> plane \<Rightarrow> plane" where
  "release_unsent_operation i s =
     (if \<not> current_inflight i s then s
      else (remove_inflight i s)\<lparr>dropped := q_serial i # dropped s\<rparr>)"

subsection \<open>Settling\<close>

text \<open>
  \<open>assertUnsafePasteConsentAccounting\<close>: the retained count must equal the held data's length.
  \<open>releaseUnsafePasteConsent\<close> clears both before it checks, so only the other caller can fail.
\<close>

definition consent_accounting_ok :: "plane \<Rightarrow> bool" where
  "consent_accounting_ok s \<longleftrightarrow>
     consent_retained_bytes s =
       (case pending_unsafe_paste s of None \<Rightarrow> 0 | Some p \<Rightarrow> int (length (pp_data p)))"

definition release_unsafe_paste_consent :: "plane \<Rightarrow> plane" where
  "release_unsafe_paste_consent s = s\<lparr>pending_unsafe_paste := None, consent_retained_bytes := 0\<rparr>"

definition outcome_of ::
    "inflight_operation \<Rightarrow> outcome_name \<Rightarrow> message \<Rightarrow> int option \<Rightarrow> int option \<Rightarrow> paste_consent option
     \<Rightarrow> operation_outcome" where
  "outcome_of i oc detail acc wr consent = \<lparr>
     oo_serial = Some (q_serial i), oo_kind = q_kind i, oo_outcome = oc, oo_operation_id = Some (if_operation_id i),
     oo_requested_bytes = Some (q_requested_bytes i), oo_accepted_payload_bytes = acc,
     oo_written_pty_bytes = wr, oo_reason = None, oo_consent = consent, oo_detail = detail\<rparr>"

text \<open>
  \<open>inflight.resolve(result)\<close> or \<open>publishOutcome(result)\<close>: \<open>writePaste\<close> publishes in a later
  microtask, a confirmed paste at once.
\<close>

definition resolve_outcome :: "resolver \<Rightarrow> operation_outcome \<Rightarrow> plane \<Rightarrow> plane" where
  "resolve_outcome r oc s =
     (case r of
        Resolve_write_paste \<Rightarrow> s\<lparr>paste_results := paste_results s @ [oc]\<rparr>
      | _ \<Rightarrow> publish_outcome oc s)"

definition consent_due ::
    "inflight_operation \<Rightarrow> outcome_name \<Rightarrow> int option \<Rightarrow> int option \<Rightarrow> plane \<Rightarrow> bool" where
  "consent_due i oc acc wr s \<longleftrightarrow>
     oc = Core IO_rejected_unsafe_paste \<and> acc = Some 0 \<and> wr = Some 0 \<and> q_kind i = K_paste
     \<and> q_paste_data i \<noteq> None \<and> q_paste_attempt i = Some (paste_attempt s)
     \<and> is_current_attachment (if_generation i) s"

definition new_consent :: "inflight_operation \<Rightarrow> plane \<Rightarrow> paste_consent" where
  "new_consent i s = \<lparr>pc_generation = if_generation i, pc_operation_id = if_operation_id i,
     pc_expires_at = clock s + UNSAFE_PASTE_CONSENT_TIMEOUT_MS\<rparr>"

definition hold_consent :: "inflight_operation \<Rightarrow> plane \<Rightarrow> plane" where
  "hold_consent i s =
     (release_unsafe_paste_consent s)
       \<lparr>pending_unsafe_paste := Some \<lparr>pp_consent = new_consent i s,
          pp_data = (case q_paste_data i of Some d \<Rightarrow> d | None \<Rightarrow> [])\<rparr>,
        consent_retained_bytes := int (if_retained_bytes i)\<rparr>"

definition settle_inflight ::
    "inflight_operation \<Rightarrow> outcome_name \<Rightarrow> message \<Rightarrow> int option \<Rightarrow> int option \<Rightarrow> plane \<Rightarrow> plane" where
  "settle_inflight i oc detail acc wr s0 =
     (if \<not> current_inflight i s0 then s0
      else let s = remove_inflight i s0 in
        if consent_due i oc acc wr s then
          (let held = hold_consent i s in
           if \<not> consent_accounting_ok held then emit [E_accounting_error] held
           else pump_inputs (resolve_outcome (q_resolve i)
                  (outcome_of i oc detail acc wr (Some (new_consent i s)))
                  (held\<lparr>settled := q_serial i # settled s\<rparr>)))
        else pump_inputs (resolve_outcome (q_resolve i) (outcome_of i oc detail acc wr None)
               (s\<lparr>settled := q_serial i # settled s\<rparr>)))"

definition cancelled_outcome :: "queued_operation \<Rightarrow> message \<Rightarrow> operation_outcome" where
  "cancelled_outcome e reason = \<lparr>
     oo_serial = Some (q_serial e), oo_kind = q_kind e, oo_outcome = Core IO_cancelled, oo_operation_id = None,
     oo_requested_bytes = Some (q_requested_bytes e), oo_accepted_payload_bytes = None,
     oo_written_pty_bytes = None, oo_reason = None, oo_consent = None, oo_detail = reason\<rparr>"

definition cancel_queued :: "message \<Rightarrow> queued_operation \<Rightarrow> plane \<Rightarrow> plane" where
  "cancel_queued reason e s =
     resolve_outcome (q_resolve e) (cancelled_outcome e reason) (s\<lparr>settled := q_serial e # settled s\<rparr>)"

definition abandon_inputs :: "message \<Rightarrow> plane \<Rightarrow> plane" where
  "abandon_inputs reason s =
     (let s = fold (\<lambda>i. settle_inflight i (Core IO_outcome_unknown) reason None None)
                (map snd (inflight_inputs s)) s;
          s = fold (cancel_queued reason) (queued_inputs s) (s\<lparr>queued_inputs := []\<rparr>)
      in (release_unsafe_paste_consent (s\<lparr>queued_input_bytes := 0, inflight_input_bytes := 0\<rparr>))
           \<lparr>sent_geometry := None, geometry_operation := None, next_operation_id := 1\<rparr>)"

subsection \<open>Input results\<close>

fun outcome_kind_label :: "operation_kind \<Rightarrow> string" where
  "outcome_kind_label K_raw = ''raw''"
| "outcome_kind_label K_key = ''key''"
| "outcome_kind_label K_mouse = ''mouse''"
| "outcome_kind_label K_focus = ''focus''"
| "outcome_kind_label K_resize = ''resize''"
| "outcome_kind_label K_paste = ''paste''"

definition written_part :: "int option \<Rightarrow> message" where
  "written_part wr = (case wr of Some n \<Rightarrow> [Num n, T '' PTY bytes written'']
                      | None \<Rightarrow> [T ''PTY byte count unknown''])"

definition describe_outcome :: "operation_kind \<Rightarrow> input_outcome \<Rightarrow> int option \<Rightarrow> message" where
  "describe_outcome kind oc wr =
     (if oc = IO_written then [T ''Terminal accepted the '', T (outcome_kind_label kind), T '' operation; '']
        @ written_part wr @ [T ''.'']
      else if oc = IO_partial_write then [T ''The PTY write stopped after ''] @ written_part wr @ [T ''.'']
      else if oc = IO_write_failed then [T ''The PTY write made no progress.'']
      else if oc = IO_cancelled then [T ''The operation was cancelled; ''] @ written_part wr @ [T ''.'']
      else [T ''Terminal reported '', Outcome_name oc, T '' for the '', T (outcome_kind_label kind),
            T '' operation.''])"

definition handle_input_result :: "input_result_body \<Rightarrow> plane \<Rightarrow> plane" where
  "handle_input_result r s =
     (case map_of (inflight_inputs s) (nat (operation_id r)) of
        None \<Rightarrow> s
      | Some i \<Rightarrow>
          if if_generation i \<noteq> generation s then s
          else settle_inflight i (Core (outcome r))
                 (if result_detail r \<noteq> [] then [Text (result_detail r)]
                  else describe_outcome (q_kind i) (outcome r) (written_pty_bytes r))
                 (accepted_payload_bytes r) (written_pty_bytes r) s)"

subsection \<open>Detach requests and attachment reset\<close>

definition has_sent_detach_for :: "subscription_id \<Rightarrow> nat \<Rightarrow> plane \<Rightarrow> bool" where
  "has_sent_detach_for sub g s \<longleftrightarrow>
     (case detach_sent_for s of None \<Rightarrow> False
      | Some (sub', g') \<Rightarrow> (detached s \<and> sub' = sub) \<or> (sub' = sub \<and> g' = g))"

definition send_detach_request_once :: "subscription_id \<Rightarrow> nat \<Rightarrow> plane \<Rightarrow> plane" where
  "send_detach_request_once sub g s =
     (if has_sent_detach_for sub g s then s
      else emit [E_detach_request sub] (s\<lparr>detach_sent_for := Some (sub, g)\<rparr>))"

definition cancel_hydration :: "plane \<Rightarrow> plane" where
  "cancel_hydration s =
     (case hydration s of None \<Rightarrow> s
      | Some h \<Rightarrow> emit (if hy_reader h then [E_reader_cancel (hy_serial h)] else [])
                     (s\<lparr>hydration := None\<rparr>))"

definition reset_attachment_state :: "message \<Rightarrow> plane \<Rightarrow> plane" where
  "reset_attachment_state reason s0 =
     (let s = s0\<lparr>stream := None, attach_promise := None, generation := Suc (generation s0),
            attached_received := False, route_generation := None, accepted_epoch := None\<rparr>;
          s = cancel_hydration s;
          s = s\<lparr>event_chain := Suc (event_chain s), send_chain := Suc (send_chain s)\<rparr>
      in (abandon_inputs reason s)\<lparr>current_modes := None\<rparr>)"

definition abandon_stream :: "plane \<Rightarrow> plane" where
  "abandon_stream s =
     (case stream s of None \<Rightarrow> s | Some h \<Rightarrow> emit [E_abandon (sh_serial h)] s)"

definition close_stream_without_detach_request :: "message \<Rightarrow> plane \<Rightarrow> plane" where
  "close_stream_without_detach_request reason s = reset_attachment_state reason (abandon_stream s)"

text \<open>\<open>this.hydration?.generation ?? this.attachmentGeneration\<close>\<close>

definition held_generation :: "plane \<Rightarrow> nat" where
  "held_generation s = (case hydration s of Some h \<Rightarrow> hy_generation h | None \<Rightarrow> generation s)"

definition close_stream :: "plane \<Rightarrow> plane" where
  "close_stream s =
     reset_attachment_state [T ''Terminal stream closed before the operation completed.'']
       (if stream s = None then s
        else send_detach_request_once (subscription s) (held_generation s) (abandon_stream s))"

subsection \<open>Attach\<close>

text \<open>
  The part of \<open>attachToAuthoritativeSession\<close> before its first \<open>await\<close>; \<open>w\<close> is 1 when the
  caller reports a rejection. With a stream, or with no listener, the promise it returns is
  resolved at once, and \<open>attachPromise\<close> holds it until the next microtask.
\<close>

definition start_attach :: "nat \<Rightarrow> plane \<Rightarrow> plane" where
  "start_attach w s =
     (let p = next_serial s; s = s\<lparr>next_serial := Suc p, attach_promise := Some p\<rparr> in
      if stream s \<noteq> None \<or> listeners s = []
      then s\<lparr>attach_tasks := attach_tasks s @
             [\<lparr>at_serial = p, at_phase = Attach_settled None, at_waiters = w\<rparr>]\<rparr>
      else let g = Suc (generation s) in
        s\<lparr>generation := g, next_operation_id := 1, attached_received := False,
          attach_tasks := attach_tasks s @
            [\<lparr>at_serial = p, at_phase = Attach_hook g, at_waiters = w\<rparr>]\<rparr>)"

definition add_waiter :: "nat \<Rightarrow> nat \<Rightarrow> plane \<Rightarrow> plane" where
  "add_waiter p w s =
     s\<lparr>attach_tasks := map (\<lambda>t. if at_serial t = p then t\<lparr>at_waiters := at_waiters t + w\<rparr> else t)
        (attach_tasks s)\<rparr>"

definition ensure_attached :: "nat \<Rightarrow> plane \<Rightarrow> plane" where
  "ensure_attached w s =
     (if detached s \<and> listeners s = [] then s
      else case attach_promise s of
          Some p \<Rightarrow> add_waiter p w s
        | None \<Rightarrow> if stream s \<noteq> None then s else start_attach w s)"

subsection \<open>Input admission\<close>

definition enqueue_input :: "queued_operation \<Rightarrow> plane \<Rightarrow> plane \<times> bool" where
  "enqueue_input e s =
     (let bytes = int (body_bytes (q_operation e)) in
      if length (queued_inputs s) \<ge> MAX_QUEUED_INPUT_OPERATIONS
         \<or> retained_input_bytes s + bytes > int MAX_QUEUED_INPUT_BYTES
      then (s, False)
      else (pump_inputs (ensure_attached 0
              (s\<lparr>queued_inputs := queued_inputs s @ [e\<lparr>q_serial := next_serial s\<rparr>],
                 queued_input_bytes := queued_input_bytes s + bytes,
                 next_serial := Suc (next_serial s),
                 admitted := next_serial s # admitted s,
                 pasted := (if q_resolve e = Resolve_write_paste then next_serial s # pasted s
                            else pasted s)\<rparr>)), True))"

definition queue_bounds_detail :: "string \<Rightarrow> plane \<Rightarrow> message" where
  "queue_bounds_detail subject s =
     [T subject, T '' refused: '', Num (int (length (inflight_inputs s))), T '' operations are in flight, '',
      Num (int (length (queued_inputs s))), T '' are queued, and '', Num (retained_input_bytes s),
      T '' bytes are retained against the '', Num (int MAX_QUEUED_INPUT_OPERATIONS),
      T ''-operation and '', Num (int MAX_QUEUED_INPUT_BYTES), T ''-byte bounds.'']"

definition rejected_locally ::
    "operation_kind \<Rightarrow> string \<Rightarrow> message \<Rightarrow> nat option \<Rightarrow> operation_outcome" where
  "rejected_locally kind reason detail requested = \<lparr>
     oo_serial = None, oo_kind = kind, oo_outcome = Rejected_locally, oo_operation_id = None,
     oo_requested_bytes = requested, oo_accepted_payload_bytes = None, oo_written_pty_bytes = None,
     oo_reason = Some reason, oo_consent = None, oo_detail = detail\<rparr>"

definition paste_entry :: "bytes \<Rightarrow> bool \<Rightarrow> bytes option \<Rightarrow> nat option \<Rightarrow> resolver \<Rightarrow> queued_operation" where
  "paste_entry data allow_unsafe held attempt r = \<lparr>
     q_serial = 0, q_operation = encode_paste_operation data allow_unsafe, q_kind = K_paste,
     q_requested_bytes = length data, q_paste_data = held, q_paste_attempt = attempt, q_resolve = r\<rparr>"

text \<open>
  \<open>writePaste\<close>: every refusal resolves the inner promise, so it is reported by the same later
  microtask as an outcome from Core (\<open>paste_results\<close>).
\<close>

definition paste_refused :: "string \<Rightarrow> message \<Rightarrow> nat option \<Rightarrow> plane \<Rightarrow> plane" where
  "paste_refused reason detail requested =
     resolve_outcome Resolve_write_paste (rejected_locally K_paste reason detail requested)"

definition write_paste :: "js_string \<Rightarrow> plane \<Rightarrow> plane" where
  "write_paste text0 s0 =
     (let s = release_unsafe_paste_consent s0;
          attempt = Suc (paste_attempt s);
          s = s\<lparr>paste_attempt := attempt\<rparr> in
      if text0 = [] then paste_refused ''empty'' [T ''Clipboard paste was empty.''] None s
      else if detached s then
        paste_refused ''detached'' [T ''Terminal is detached; paste was not delivered.''] None s
      else if length text0 > MAX_PASTE_BYTES then
        paste_refused ''too_large''
          [T ''Paste of at least '', Num (int (length text0)), T '' bytes exceeds the '',
           Num (int MAX_PASTE_BYTES), T ''-byte paste limit.''] None s
      else let data = text_encode text0 in
        if length data > MAX_PASTE_BYTES then
          paste_refused ''too_large''
            [T ''Paste of '', Num (int (length data)), T '' bytes exceeds the '',
             Num (int MAX_PASTE_BYTES), T ''-byte paste limit.''] (Some (length data)) s
        else case enqueue_input (paste_entry data False (Some data) (Some attempt) Resolve_write_paste) s of
            (s', True) \<Rightarrow> s'
          | (s', False) \<Rightarrow> paste_refused ''queue_bounds'' (queue_bounds_detail ''Paste'' s')
              (Some (length data)) s')"

definition resize :: "geometry \<Rightarrow> plane \<Rightarrow> plane" where
  "resize g s =
     (if detached s then s
      else pump_inputs (ensure_attached 0 (s\<lparr>desired_geometry := Some g\<rparr>)))"

fun input_kind_of :: "semantic_input \<Rightarrow> operation_kind" where
  "input_kind_of (In_key _) = K_key"
| "input_kind_of (In_mouse _) = K_mouse"
| "input_kind_of (In_focus _) = K_focus"
| "input_kind_of (In_resize _) = K_resize"
| "input_kind_of (In_paste _) = K_paste"
| "input_kind_of (In_raw _) = K_raw"

definition send_input :: "semantic_input \<Rightarrow> plane \<Rightarrow> plane" where
  "send_input inp s =
     (if detached s then s
      else case inp of
          In_resize g \<Rightarrow> resize g s
        | In_paste t \<Rightarrow> write_paste t s
        | _ \<Rightarrow>
          (let encoded = encode_semantic_input inp;
               requested = (case inp of In_raw bs \<Rightarrow> length bs | _ \<Rightarrow> body_bytes encoded) in
           case enqueue_input \<lparr>q_serial = 0, q_operation = encoded, q_kind = input_kind_of inp,
                  q_requested_bytes = requested, q_paste_data = None, q_paste_attempt = None,
                  q_resolve = Publish\<rparr> s of
             (s', True) \<Rightarrow> s'
           | (s', False) \<Rightarrow> publish_outcome
               (rejected_locally (input_kind_of inp) ''queue_bounds'' (queue_bounds_detail ''Input'' s')
                  (Some requested)) s'))"

definition confirm_unsafe_paste :: "paste_consent \<Rightarrow> plane \<Rightarrow> plane \<times> bool" where
  "confirm_unsafe_paste consent s =
     (case pending_unsafe_paste s of None \<Rightarrow> (s, False)
      | Some p \<Rightarrow>
          if pp_consent p \<noteq> consent then (s, False)
          else if \<not> is_current_attachment (pc_generation consent) s \<or> clock s \<ge> pc_expires_at consent
            then (release_unsafe_paste_consent s, False)
          else case enqueue_input (paste_entry (pp_data p) True None None Resolve_confirm)
                      (release_unsafe_paste_consent s) of
              (s', True) \<Rightarrow> (s', True)
            | (s', False) \<Rightarrow> (publish_outcome (rejected_locally K_paste ''queue_bounds''
                  (queue_bounds_detail ''Paste'' s') (Some (length (pp_data p)))) s', False))"

definition cancel_unsafe_paste :: "paste_consent \<Rightarrow> plane \<Rightarrow> plane \<times> bool" where
  "cancel_unsafe_paste consent s =
     (case pending_unsafe_paste s of None \<Rightarrow> (s, False)
      | Some p \<Rightarrow> if pp_consent p \<noteq> consent then (s, False)
                  else (release_unsafe_paste_consent s, True))"

subsection \<open>Route failure and recovery\<close>

definition fail_route :: "message \<Rightarrow> plane \<Rightarrow> plane" where
  "fail_route msg s = close_stream (emit_status (status_of ST_failed msg) s)"

definition hydration_is :: "nat \<Rightarrow> plane \<Rightarrow> bool" where
  "hydration_is serial s \<longleftrightarrow>
     (case hydration s of None \<Rightarrow> False | Some h \<Rightarrow> hy_serial h = serial)"

definition recover_route :: "nat \<Rightarrow> message \<Rightarrow> plane \<Rightarrow> plane" where
  "recover_route serial msg s0 =
     (if \<not> hydration_is serial s0 then s0
      else if snapshot_recoveries s0 \<ge> 1 \<or> fixed_subscription s0 then fail_route msg s0
      else let s = close_stream (s0\<lparr>snapshot_recoveries := Suc (snapshot_recoveries s0)\<rparr>);
               s = s\<lparr>subscription := Minted (next_serial s), next_serial := Suc (next_serial s)\<rparr>;
               s = emit_status (status_of ST_attaching
                     [T ''Lost snapshot page; starting a fresh attach.'']) s
           in ensure_attached 1 s)"

subsection \<open>Hydration\<close>

definition new_hydration :: "nat \<Rightarrow> nat \<Rightarrow> bool \<Rightarrow> screen_hydration" where
  "new_hydration serial g reader = \<lparr>
     hy_serial = serial, hy_generation = g, hy_buffered_output = [], hy_buffered_bytes = 0,
     hy_pending_exit = None, hy_ready_received = False, hy_decoder_finished = False,
     hy_finish_received = False, hy_history_incomplete = False, hy_completed = False,
     hy_timer = False, hy_reader = reader\<rparr>"

definition ensure_hydration :: "nat \<Rightarrow> plane \<Rightarrow> plane" where
  "ensure_hydration g s =
     (case hydration s of
        Some h \<Rightarrow> if hy_generation h = g then s
          else s\<lparr>hydration := Some (new_hydration (next_serial s) g (reader_factory s)),
                 next_serial := Suc (next_serial s)\<rparr>
      | None \<Rightarrow> s\<lparr>hydration := Some (new_hydration (next_serial s) g (reader_factory s)),
                  next_serial := Suc (next_serial s)\<rparr>)"

definition update_hydration :: "(screen_hydration \<Rightarrow> screen_hydration) \<Rightarrow> plane \<Rightarrow> plane" where
  "update_hydration f s = s\<lparr>hydration := map_option f (hydration s)\<rparr>"

text \<open>Clearing an armed timer and arming a new one both leave it armed.\<close>

definition arm_hydration_progress_bound :: "plane \<Rightarrow> plane" where
  "arm_hydration_progress_bound =
     update_hydration (\<lambda>h. if hy_completed h then h else h\<lparr>hy_timer := True\<rparr>)"

definition buffer_hydrating_output :: "bytes \<Rightarrow> screen_hydration \<Rightarrow> plane \<Rightarrow> plane" where
  "buffer_hydrating_output data h s =
     (let buffered_bytes = hy_buffered_bytes h + length data in
      if buffered_bytes > MAX_PENDING_TERMINAL_BYTES
         \<or> length (hy_buffered_output h) + 1 > MAX_PENDING_TERMINAL_ITEMS
      then recover_route (hy_serial h)
             [T ''Terminal pending output exceeded the client bound during snapshot history.''] s
      else update_hydration (\<lambda>h. h\<lparr>hy_buffered_output := hy_buffered_output h @ [data],
                                   hy_buffered_bytes := buffered_bytes\<rparr>) s)"

definition hydrating :: "nat \<Rightarrow> plane \<Rightarrow> screen_hydration option" where
  "hydrating g s =
     (case hydration s of None \<Rightarrow> None
      | Some h \<Rightarrow> if hy_generation h = g \<and> \<not> hy_completed h then Some h else None)"

definition receive_output :: "bytes \<Rightarrow> nat \<Rightarrow> plane \<Rightarrow> plane" where
  "receive_output data g s =
     (case hydrating g s of Some h \<Rightarrow> buffer_hydrating_output data h s
      | None \<Rightarrow> emit_output data s)"

definition receive_process_exit :: "int option \<Rightarrow> nat \<Rightarrow> plane \<Rightarrow> plane" where
  "receive_process_exit code g s =
     (case hydrating g s of
        Some h \<Rightarrow> update_hydration (\<lambda>h. h\<lparr>hy_pending_exit := Some code\<rparr>) s
      | None \<Rightarrow> emit_process_exit code s)"

definition complete_hydration :: "message \<Rightarrow> plane \<Rightarrow> plane" where
  "complete_hydration msg s0 =
     (case hydration s0 of None \<Rightarrow> s0
      | Some h \<Rightarrow>
          if hy_completed h then s0
          else let s = update_hydration (\<lambda>h. h\<lparr>hy_completed := True, hy_timer := False\<rparr>) s0;
                   s = emit_status (status_of ST_attached msg) s in
            if hy_buffered_output h \<noteq> [] \<and> \<not> is_current_attachment (hy_generation h) s then s
            else let s = fold emit_output (hy_buffered_output h) s;
                     s = update_hydration (\<lambda>h. h\<lparr>hy_buffered_output := [], hy_buffered_bytes := 0\<rparr>) s;
                     s = (case hy_pending_exit h of None \<Rightarrow> s | Some code \<Rightarrow> emit_process_exit code s)
                 in pump_inputs s)"

definition cancel_reader :: "plane \<Rightarrow> plane" where
  "cancel_reader s =
     (case hydration s of None \<Rightarrow> s
      | Some h \<Rightarrow> if hy_reader h then emit [E_reader_cancel (hy_serial h)] s else s)"

definition receive_snapshot_finish :: "plane \<Rightarrow> plane" where
  "receive_snapshot_finish s0 =
     (case hydration s0 of None \<Rightarrow> s0
      | Some h \<Rightarrow>
          if hy_completed h then s0
          else if \<not> hy_ready_received h
            then fail_route [T ''Terminal sent SNAPSHOT_FINISH before SNAPSHOT_READY.''] s0
          else let s = update_hydration (\<lambda>h. h\<lparr>hy_finish_received := True\<rparr>) s0;
                   ended_early = \<not> hy_decoder_finished h \<and> \<not> hy_history_incomplete h;
                   s = (if ended_early
                        then cancel_reader (update_hydration (\<lambda>h. h\<lparr>hy_history_incomplete := True\<rparr>) s)
                        else s)
               in complete_hydration
                    (if hy_history_incomplete h \<or> ended_early
                     then [T ''Terminal attached with incomplete snapshot history.'']
                     else [T ''Terminal attached after incremental snapshot history.'']) s)"

fun history_unavailable_label :: "history_reason \<Rightarrow> string" where
  "history_unavailable_label HU_evicted = ''history evicted''"
| "history_unavailable_label HU_restart = ''hub restarted''"
| "history_unavailable_label HU_oversize = ''history oversize''"
| "history_unavailable_label HU_capture_failed = ''capture failed''"

definition receive_history_unavailable :: "history_reason \<Rightarrow> nat \<Rightarrow> plane \<Rightarrow> plane" where
  "receive_history_unavailable reason g s0 =
     (let s = ensure_hydration g s0; label = history_unavailable_label reason in
      case hydration s of None \<Rightarrow> s
      | Some h \<Rightarrow>
          if \<not> hy_ready_received h
          then fail_route [T ''Terminal sent HISTORY_UNAVAILABLE ('', T label, T '') before SNAPSHOT_READY.'']
                 (cancel_reader s)
          else emit_status (status_of ST_attaching
                 [T ''Terminal screen restored; scrollback history is unavailable ('', T label, T '').''])
                 (cancel_reader (update_hydration (\<lambda>h. h\<lparr>hy_history_incomplete := True\<rparr>) s)))"

definition receive_route_resync :: "int \<Rightarrow> nat \<Rightarrow> plane \<Rightarrow> plane" where
  "receive_route_resync to_epoch g s0 =
     (let s = s0\<lparr>accepted_epoch := Some to_epoch\<rparr>;
          s = release_unsafe_paste_consent s;
          s = ensure_hydration g (cancel_hydration s);
          s = emit_status (status_of ST_attaching
                [T ''Terminal route resynchronizing after egress overflow.'']) s
      in arm_hydration_progress_bound s)"

definition receive_attach_state :: "attach_state \<Rightarrow> nat \<Rightarrow> plane \<Rightarrow> plane" where
  "receive_attach_state state g s =
     (case state of
        AS_attached \<Rightarrow>
          pump_inputs (emit_status (status_of ST_attaching
            [T ''Terminal route attached; waiting for the visible screen.''])
            (s\<lparr>attached_received := True, accepted_epoch := Some 0\<rparr>))
      | AS_attaching \<Rightarrow> emit_status (status_of ST_attaching [T ''Terminal route is attaching.'']) s
      | AS_failed \<Rightarrow>
          (case hydration s of
             Some h \<Rightarrow> if hy_generation h = g \<and> \<not> hy_ready_received h
               then recover_route (hy_serial h) [T ''Terminal attach failed before the visible screen.''] s
               else fail_route [T ''Terminal attach failed.''] s
           | None \<Rightarrow> fail_route [T ''Terminal attach failed.''] s)
      | AS_detached \<Rightarrow>
          close_stream (emit_status (status_of ST_failed
            [T ''Terminal route was detached by the host.'']) s))"

end
