(* ===== verification/Data_Plane_Steps.thy ===== *)
theory Data_Plane_Steps
  imports Data_Plane
begin

text \<open>
  The asynchronous half of \<open>src/botster/hubTerminalDataPlane.ts\<close> as a state machine. A step is
  one uninterrupted run of the code: a call from the view, a transport event, a timer, or one
  pending task run up to its next \<open>await\<close>. What the outside decides (how \<open>streamTerminal\<close>,
  \<open>sendFrame\<close> and the snapshot reader answer) is an argument of the step.
\<close>

subsection \<open>Route frames\<close>

definition admit_route_generation :: "int \<Rightarrow> plane \<Rightarrow> plane \<times> bool" where
  "admit_route_generation g s =
     (case route_generation s of
        None \<Rightarrow> (s\<lparr>route_generation := Some g\<rparr>, True)
      | Some r \<Rightarrow> (s, g = r))"

definition admit_stream_epoch :: "int \<Rightarrow> terminal_event \<Rightarrow> plane \<Rightarrow> bool" where
  "admit_stream_epoch epoch decoded s =
     (case decoded of
        Attach_state _ \<Rightarrow> True
      | Input_result _ \<Rightarrow> True
      | _ \<Rightarrow>
        (case accepted_epoch s of None \<Rightarrow> False
         | Some accepted \<Rightarrow>
            (case decoded of
               Route_resync from_epoch to_epoch \<Rightarrow>
                 from_epoch = accepted \<and> to_epoch \<noteq> from_epoch \<and> to_epoch = epoch
             | _ \<Rightarrow> epoch = accepted)))"

text \<open>
  \<open>receiveRouteFrame\<close>. A snapshot frame goes on to \<open>installIncrementalSnapshotFrame\<close>, which
  awaits: its continuation is the task's next phase.
\<close>

definition dispatch_event :: "terminal_event \<Rightarrow> nat \<Rightarrow> plane \<Rightarrow> plane \<times> event_phase option" where
  "dispatch_event decoded g s =
     (let install = (\<lambda>payload ready.
            let s = ensure_hydration g s in
            (s, case hydration s of None \<Rightarrow> None
                | Some h \<Rightarrow> Some (Installing (hy_serial h) payload ready)))
      in case decoded of
        Output p \<Rightarrow> (receive_output p g s, None)
      | Snapshot_ready p \<Rightarrow> install p True
      | Snapshot_history p \<Rightarrow> install p False
      | Snapshot_finish \<Rightarrow> (receive_snapshot_finish (ensure_hydration g s), None)
      | Process_exit code \<Rightarrow> (receive_process_exit code g s, None)
      | Modes bits rows cols \<Rightarrow>
          (receive_modes \<lparr>tm_mode_bits = bits, tm_rows = rows, tm_cols = cols\<rparr> s, None)
      | Attach_state st \<Rightarrow> (receive_attach_state st g s, None)
      | Input_result r \<Rightarrow> (handle_input_result r s, None)
      | History_unavailable reason \<Rightarrow> (receive_history_unavailable reason g s, None)
      | Route_resync _ to_epoch \<Rightarrow> (receive_route_resync to_epoch g s, None))"

definition receive_route_frame ::
    "int \<Rightarrow> int \<Rightarrow> bytes \<Rightarrow> nat \<Rightarrow> plane \<Rightarrow> plane \<times> event_phase option" where
  "receive_route_frame frame_generation epoch body g s0 =
     (case decode_terminal_body body of
        Inl e \<Rightarrow> (fail_route [T ''Terminal frame could not be decoded: '', Protocol_error e] s0, None)
      | Inr decoded \<Rightarrow>
          (case admit_route_generation frame_generation s0 of
             (s, False) \<Rightarrow> (s, None)
           | (s, True) \<Rightarrow>
               if \<not> admit_stream_epoch epoch decoded s then (s, None)
               else dispatch_event decoded g s))"

definition terminal_close_message :: "string \<Rightarrow> message" where
  "terminal_close_message reason =
     (if reason = ''worker_lost'' then [T ''The session crashed: its worker process was lost.'']
      else [T ''The Hub closed the terminal ('',
            T (if reason \<noteq> [] then reason else ''no reason given''), T '').''])"

definition emit_terminal_event ::
    "stream_event \<Rightarrow> nat \<Rightarrow> plane \<Rightarrow> plane \<times> event_phase option" where
  "emit_terminal_event ev g s =
     (if \<not> is_current_attachment g s then (s, None)
      else case ev of
        Subscription_closed sub session closed_generation reason \<Rightarrow>
          (if sub \<noteq> subscription s \<or> session \<noteq> session_id s then s
           else if reason = ''core_adapter_closed'' then
             close_stream (emit_status (status_of ST_failed
               [T ''Terminal subscription closed by Core write-budget.'']) s)
           else close_stream_without_detach_request
             [T ''Terminal closed by the Hub before the operation completed.'']
             (emit_status \<lparr>st_state = ST_failed, st_message = terminal_close_message reason,
                st_close_reason = Some reason\<rparr> s), None)
      | Route_frame route frame_generation epoch body \<Rightarrow>
          if route \<noteq> subscription s then (s, None)
          else receive_route_frame frame_generation epoch body g s)"

subsection \<open>Snapshot installation\<close>

text \<open>After the hook: the checks before \<open>reader.read\<close>, and the call.\<close>

definition install_begin ::
    "nat \<Rightarrow> nat \<Rightarrow> bytes \<Rightarrow> bool \<Rightarrow> plane \<Rightarrow> plane \<times> event_phase option" where
  "install_begin g serial payload ready s =
     (if \<not> is_current_attachment g s \<or> \<not> hydration_is serial s then (s, None)
      else case hydration s of None \<Rightarrow> (s, None)
      | Some h \<Rightarrow>
          if hy_completed h then
            (fail_route [T ''Terminal snapshot frame arrived after the route completed hydration.''] s, None)
          else if (if ready then hy_ready_received h else \<not> hy_ready_received h) then
            (fail_route (if ready then [T ''Terminal sent SNAPSHOT_READY twice.'']
               else [T ''Terminal sent SNAPSHOT_HISTORY before SNAPSHOT_READY.'']) s, None)
          else if hy_history_incomplete h \<or> hy_decoder_finished h then (s, None)
          else if \<not> hy_reader h then
            (fail_route [T ''Restty incremental snapshot reader is not bound.''] s, None)
          else (emit [E_reader_read serial payload] s, Some (Reading serial ready)))"

definition install_finish ::
    "nat \<Rightarrow> nat \<Rightarrow> bool \<Rightarrow> message + snapshot_progress \<Rightarrow> plane \<Rightarrow> plane" where
  "install_finish g serial ready result s =
     (if \<not> is_current_attachment g s \<or> \<not> hydration_is serial s then s
      else case result of
        Inl msg \<Rightarrow> recover_route serial msg s
      | Inr progress \<Rightarrow>
          (case progress of
             SP_ready \<Rightarrow>
               if \<not> ready then fail_route [T ''Restty returned READY for a history frame.''] s
               else arm_hydration_progress_bound (emit_status (status_of ST_attaching
                 [T ''Visible terminal screen restored at snapshot READY; loading history.''])
                 (update_hydration (\<lambda>h. h\<lparr>hy_ready_received := True\<rparr>) s))
           | SP_page \<Rightarrow>
               if ready then fail_route [T ''Restty returned PAGE for the READY frame.''] s
               else arm_hydration_progress_bound s
           | SP_finish \<Rightarrow>
               if ready then fail_route [T ''Restty returned FINISH for the READY frame.''] s
               else arm_hydration_progress_bound
                      (update_hydration (\<lambda>h. h\<lparr>hy_decoder_finished := True\<rparr>) s)
           | SP_unknown \<Rightarrow> fail_route [T ''Restty returned unknown snapshot progress.''] s))"

definition run_event :: "nat \<Rightarrow> plane \<Rightarrow> plane" where
  "run_event chain s0 =
     (case find (\<lambda>t. et_chain t = chain) (event_tasks s0) of
        None \<Rightarrow> s0
      | Some t \<Rightarrow>
          (let s = s0\<lparr>event_tasks := remove1 t (event_tasks s0)\<rparr>;
               continue = (\<lambda>(s, next_phase). case next_phase of None \<Rightarrow> s
                 | Some ph \<Rightarrow> s\<lparr>event_tasks := t\<lparr>et_phase := ph\<rparr> # event_tasks s\<rparr>)
           in case et_phase t of
                Event_queued ev \<Rightarrow> continue (emit_terminal_event ev (et_generation t) s)
              | Installing serial payload ready \<Rightarrow>
                  continue (install_begin (et_generation t) serial payload ready s)
              | Reading _ _ \<Rightarrow> s0))"

definition reader_result :: "nat \<Rightarrow> message + snapshot_progress \<Rightarrow> plane \<Rightarrow> plane" where
  "reader_result chain result s =
     (case find (\<lambda>t. et_chain t = chain) (event_tasks s) of
        None \<Rightarrow> s
      | Some t \<Rightarrow>
          (case et_phase t of
             Reading serial ready \<Rightarrow>
               install_finish (et_generation t) serial ready result
                 (s\<lparr>event_tasks := remove1 t (event_tasks s)\<rparr>)
           | _ \<Rightarrow> s))"

text \<open>The callback handed to \<open>streamTerminal\<close> captures the attachment generation it opened for.\<close>

definition enqueue_terminal_event :: "nat \<Rightarrow> stream_event \<Rightarrow> plane \<Rightarrow> plane" where
  "enqueue_terminal_event serial ev s =
     (case map_of (opened_streams s) serial of
        None \<Rightarrow> s
      | Some g \<Rightarrow> s\<lparr>event_tasks := event_tasks s @
          [\<lparr>et_chain = event_chain s, et_generation = g, et_phase = Event_queued ev\<rparr>]\<rparr>)"

subsection \<open>The send chain\<close>

definition set_operation :: "inflight_operation \<Rightarrow> encoded_operation \<Rightarrow> plane \<Rightarrow> plane" where
  "set_operation i op s =
     (if current_inflight i s
      then s\<lparr>inflight_inputs := map (\<lambda>(k, j). if k = if_operation_id i then (k, j\<lparr>q_operation := op\<rparr>)
               else (k, j)) (inflight_inputs s)\<rparr>
      else s)"

definition released_operation :: "nat \<Rightarrow> encoded_operation" where
  "released_operation n = \<lparr>body_bytes = n, op_source = Src_released\<rparr>"

definition abort_bytes :: "encoded_operation \<Rightarrow> nat \<Rightarrow> bytes option" where
  "abort_bytes op n =
     (case operation_abort_frame op (Id_number (int n)) of
        Some (Inr f) \<Rightarrow> Some f | _ \<Rightarrow> None)"

definition not_sent :: "message \<Rightarrow> message" where
  "not_sent err = [T ''Input was not sent: ''] @ err"

definition settle_cancelled :: "inflight_operation \<Rightarrow> message \<Rightarrow> plane \<Rightarrow> plane" where
  "settle_cancelled i detail = settle_inflight i (Core IO_cancelled) detail None None"

text \<open>
  Build the frames, release the payload, and send the first frame. Building them is one
  expression for every operation; it throws when an encoder does.
\<close>

definition send_frames :: "send_task \<Rightarrow> encoded_operation \<Rightarrow> plane \<Rightarrow> plane" where
  "send_frames t op s =
     (let i = tk_inflight t; n = if_operation_id i in
      case operation_frames op (Id_number (int n)) of
        Inl e \<Rightarrow> settle_cancelled i (not_sent [Frames_error e]) s
      | Inr [] \<Rightarrow> set_operation i (released_operation (if_retained_bytes i)) s
      | Inr (f # fs) \<Rightarrow>
          (let s = emit [E_send_frame (tk_stream t) f]
                 (set_operation i (released_operation (if_retained_bytes i)) s)
           in s\<lparr>send_tasks := t\<lparr>tk_phase := Sending fs 0 (Suc (length fs)) (abort_bytes op n)\<rparr>
                 # send_tasks s\<rparr>))"

definition start_send :: "send_task \<Rightarrow> plane \<Rightarrow> plane" where
  "start_send t s =
     (let i = tk_inflight t in
      if \<not> is_current_attachment (if_generation i) s
         \<or> map_option sh_serial (stream s) \<noteq> Some (tk_stream t)
      then settle_cancelled i [T ''Terminal attachment changed before the operation was sent.''] s
      else if geometry_operation s = Some (q_serial i) then
        (case desired_geometry s of
           None \<Rightarrow> pump_inputs (release_unsent_operation i s)
         | Some g \<Rightarrow>
             if screen_hydrated s \<and> \<not> same_geometry g (sent_geometry s)
             then (let op = encode_semantic_input (In_resize g) in
                   send_frames t op (set_operation i op (s\<lparr>sent_geometry := Some g\<rparr>)))
             else pump_inputs (release_unsent_operation i s))
      else send_frames t (q_operation i) s)"

definition first_send_task :: "nat \<Rightarrow> plane \<Rightarrow> send_task option" where
  "first_send_task chain s = find (\<lambda>t. tk_chain t = chain) (send_tasks s)"

definition drop_send_task :: "send_task \<Rightarrow> plane \<Rightarrow> plane" where
  "drop_send_task t s = s\<lparr>send_tasks := remove1 t (send_tasks s)\<rparr>"

definition run_send :: "nat \<Rightarrow> plane \<Rightarrow> plane" where
  "run_send chain s =
     (case first_send_task chain s of
        None \<Rightarrow> s
      | Some t \<Rightarrow> if tk_phase t = Send_waiting then start_send t (drop_send_task t s) else s)"

text \<open>\<open>sendFrame\<close> resolved: the next frame, or the end of the task.\<close>

definition frame_sent :: "nat \<Rightarrow> plane \<Rightarrow> plane" where
  "frame_sent chain s0 =
     (case first_send_task chain s0 of
        None \<Rightarrow> s0
      | Some t \<Rightarrow>
          (case tk_phase t of
             Sending rest sent count abort \<Rightarrow>
               (let s = drop_send_task t s0 in
                case rest of
                  [] \<Rightarrow> s
                | f # fs \<Rightarrow> (emit [E_send_frame (tk_stream t) f] s)
                     \<lparr>send_tasks := t\<lparr>tk_phase := Sending fs (Suc sent) count abort\<rparr> # send_tasks s\<rparr>)
           | Aborting err \<Rightarrow>
               settle_cancelled (tk_inflight t) (not_sent err) (drop_send_task t s0)
           | Send_waiting \<Rightarrow> s0))"

text \<open>\<open>sendFrame\<close> rejected: a paste that stopped midway is aborted on the same stream first.\<close>

definition frame_failed :: "nat \<Rightarrow> message \<Rightarrow> plane \<Rightarrow> plane" where
  "frame_failed chain err s0 =
     (case first_send_task chain s0 of
        None \<Rightarrow> s0
      | Some t \<Rightarrow>
          (let s = drop_send_task t s0; i = tk_inflight t in
           case tk_phase t of
             Sending rest sent count abort \<Rightarrow>
               (case abort of
                  Some f \<Rightarrow>
                    if sent > 0 \<and> sent < count \<and> map_option sh_serial (stream s) = Some (tk_stream t)
                    then (emit [E_send_frame (tk_stream t) f] s)
                           \<lparr>send_tasks := t\<lparr>tk_phase := Aborting err\<rparr> # send_tasks s\<rparr>
                    else settle_cancelled i (not_sent err) s
                | None \<Rightarrow> settle_cancelled i (not_sent err) s)
           | Aborting err' \<Rightarrow> settle_cancelled i (not_sent err') s
           | Send_waiting \<Rightarrow> s0))"

subsection \<open>The attach task\<close>

datatype open_result = Stream_opened bool | Stream_throws message

definition find_attach :: "nat \<Rightarrow> plane \<Rightarrow> attach_task option" where
  "find_attach p s = find (\<lambda>t. at_serial t = p) (attach_tasks s)"

definition set_attach_phase :: "nat \<Rightarrow> attach_phase \<Rightarrow> plane \<Rightarrow> plane" where
  "set_attach_phase p ph s =
     s\<lparr>attach_tasks := map (\<lambda>t. if at_serial t = p then t\<lparr>at_phase := ph\<rparr> else t) (attach_tasks s)\<rparr>"

definition attach_resume :: "nat \<Rightarrow> open_result \<Rightarrow> plane \<Rightarrow> plane" where
  "attach_resume p result s0 =
     (case find_attach p s0 of
        None \<Rightarrow> s0
      | Some t \<Rightarrow>
          (case at_phase t of
             Attach_hook g \<Rightarrow>
               if \<not> is_current_attachment g s0 \<or> listeners s0 = []
               then set_attach_phase p (Attach_settled None) s0
               else (let s = ensure_hydration g s0 in
                 case result of
                   Stream_throws err \<Rightarrow> set_attach_phase p (Attach_settled (Some err)) s
                 | Stream_opened can_send \<Rightarrow>
                     (let n = next_serial s;
                          s = emit [E_stream_terminal n (subscription s)] s
                      in set_attach_phase p (Attach_ready g n)
                           (s\<lparr>next_serial := Suc n,
                              opened_streams := (n, g) # opened_streams s,
                              stream := Some \<lparr>sh_serial = n, sh_can_send = can_send\<rparr>,
                              route_generation := None, accepted_epoch := None,
                              detach_sent_for := (if detached s then detach_sent_for s else None)\<rparr>)))
           | _ \<Rightarrow> s0))"

text \<open>\<open>streamSubscription.ready\<close> resolved (with the route generation, when it is a number).\<close>

definition stream_ready :: "nat \<Rightarrow> int option \<Rightarrow> plane \<Rightarrow> plane" where
  "stream_ready p route s0 =
     (case find_attach p s0 of
        None \<Rightarrow> s0
      | Some t \<Rightarrow>
          (case at_phase t of
             Attach_ready g n \<Rightarrow>
               (let s = set_attach_phase p (Attach_settled None) s0 in
                if \<not> is_current_attachment g s then s
                else let s = (case route of None \<Rightarrow> s | Some r \<Rightarrow> s\<lparr>route_generation := Some r\<rparr>) in
                  (case hydrating g s of None \<Rightarrow> s | Some _ \<Rightarrow> arm_hydration_progress_bound s))
           | _ \<Rightarrow> s0))"

definition stream_rejected :: "nat \<Rightarrow> message \<Rightarrow> plane \<Rightarrow> plane" where
  "stream_rejected p err s =
     (case find_attach p s of
        None \<Rightarrow> s
      | Some t \<Rightarrow>
          (case at_phase t of
             Attach_ready _ _ \<Rightarrow> set_attach_phase p (Attach_settled (Some err)) s
           | _ \<Rightarrow> s))"

text \<open>The microtask after the promise settled: \<open>clearAttachPromise\<close>, then the callers' catches.\<close>

definition attach_microtask :: "nat \<Rightarrow> plane \<Rightarrow> plane" where
  "attach_microtask p s0 =
     (case find_attach p s0 of
        None \<Rightarrow> s0
      | Some t \<Rightarrow>
          (case at_phase t of
             Attach_settled failure \<Rightarrow>
               (let s = s0\<lparr>attach_tasks := filter (\<lambda>t. at_serial t \<noteq> p) (attach_tasks s0),
                      attach_promise := (if attach_promise s0 = Some p then None else attach_promise s0)\<rparr>
                in case failure of None \<Rightarrow> s
                   | Some err \<Rightarrow> (emit_status (status_of ST_failed err) ^^ at_waiters t) s)
           | _ \<Rightarrow> s0))"

subsection \<open>Transport loss and recovery\<close>

definition handle_transport_lost :: "bool \<Rightarrow> plane \<Rightarrow> plane" where
  "handle_transport_lost stream_attach_sent s0 =
     (if detached s0 \<or> transport_lost s0 then s0
      else let s = s0\<lparr>transport_lost := True,
                 last_abandoned := Some (subscription s0, held_generation s0,
                   attached_received s0 \<or> (stream s0 \<noteq> None \<and> stream_attach_sent))\<rparr>;
               s = close_stream_without_detach_request
                     [T ''Terminal stream was lost; delivery is unknown.''] s
           in emit_status (status_of ST_attaching
                [T ''WebRTC data channel lost; waiting to reattach terminal stream.'']) s)"

definition reattach :: "plane \<Rightarrow> plane" where
  "reattach s = (if detached s \<or> listeners s = [] then s else ensure_attached 1 s)"

definition handle_transport_recovered :: "plane \<Rightarrow> plane" where
  "handle_transport_recovered s0 =
     (if detached s0 \<or> \<not> transport_lost s0 \<or> listeners s0 = [] then s0
      else let previous = subscription s0;
               s = s0\<lparr>transport_lost := False, snapshot_recoveries := 0\<rparr>;
               s = (if fixed_subscription s then s
                    else s\<lparr>subscription := Minted (next_serial s), next_serial := Suc (next_serial s)\<rparr>);
               s = emit_status (status_of ST_attaching
                     [T ''Reattaching terminal stream after WebRTC recovery.'']) s;
               abandoned = last_abandoned s;
               s = s\<lparr>last_abandoned := None\<rparr>
           in case abandoned of
                Some (sub, g, attach_sent) \<Rightarrow>
                  if previous \<noteq> subscription s \<and> attach_sent
                  then (send_detach_request_once sub g s)\<lparr>recover_waits := Suc (recover_waits s)\<rparr>
                  else reattach s
              | None \<Rightarrow> reattach s)"

text \<open>The awaited Detach settled, either way.\<close>

definition recover_resume :: "plane \<Rightarrow> plane" where
  "recover_resume s =
     (case recover_waits s of 0 \<Rightarrow> s | Suc n \<Rightarrow> reattach (s\<lparr>recover_waits := n\<rparr>))"

definition recover_microtask :: "plane \<Rightarrow> plane" where
  "recover_microtask s =
     (case recover_microtasks s of 0 \<Rightarrow> s
      | Suc n \<Rightarrow> handle_transport_recovered (s\<lparr>recover_microtasks := n\<rparr>))"

datatype lifecycle_event =
    Data_channel_closed
  | Data_channel_error
  | Terminal_channel_closed string subscription_id
  | Encrypted_stream_ready
  | Other_lifecycle

definition handle_lifecycle_event :: "lifecycle_event \<Rightarrow> bool \<Rightarrow> plane \<Rightarrow> plane" where
  "handle_lifecycle_event ev stream_attach_sent s =
     (if \<not> lifecycle_subscribed s \<or> detached s then s
      else case ev of
        Data_channel_closed \<Rightarrow> handle_transport_lost stream_attach_sent s
      | Data_channel_error \<Rightarrow> handle_transport_lost stream_attach_sent s
      | Terminal_channel_closed session sub \<Rightarrow>
          if session = session_id s \<and> sub = subscription s then
            if transport_lost s then s
            else (let s = handle_transport_lost stream_attach_sent s in
                  s\<lparr>recover_microtasks := Suc (recover_microtasks s)\<rparr>)
          else s
      | Encrypted_stream_ready \<Rightarrow> handle_transport_recovered s
      | Other_lifecycle \<Rightarrow> s)"

subsection \<open>Subscriptions, detach, timers\<close>

definition subscribe_output :: "nat \<Rightarrow> plane \<Rightarrow> plane" where
  "subscribe_output l s0 =
     (let s = s0\<lparr>listeners := set_add l (listeners s0)\<rparr> in
      if detached s then s
      else ensure_attached 1
             (emit_status (status_of ST_attaching [T ''Attaching terminal stream.'']) s))"

definition unsubscribe_output :: "nat \<Rightarrow> plane \<Rightarrow> plane" where
  "unsubscribe_output l s0 =
     (let s = s0\<lparr>listeners := set_remove l (listeners s0)\<rparr> in
      if listeners s = [] \<and> \<not> detached s then close_stream s else s)"

definition subscribe_status :: "nat \<Rightarrow> plane \<Rightarrow> plane" where
  "subscribe_status l s =
     emit [E_status l (current_status s)] (s\<lparr>status_listeners := set_add l (status_listeners s)\<rparr>)"

definition subscribe_modes :: "nat \<Rightarrow> plane \<Rightarrow> plane" where
  "subscribe_modes l s =
     emit (case current_modes s of Some m \<Rightarrow> [E_modes l m] | None \<Rightarrow> [])
       (s\<lparr>modes_listeners := set_add l (modes_listeners s)\<rparr>)"

definition subscribe_input_outcomes :: "nat \<Rightarrow> plane \<Rightarrow> plane" where
  "subscribe_input_outcomes l s = s\<lparr>outcome_listeners := set_add l (outcome_listeners s)\<rparr>"

definition unsubscribe_status :: "nat \<Rightarrow> plane \<Rightarrow> plane" where
  "unsubscribe_status l s = s\<lparr>status_listeners := set_remove l (status_listeners s)\<rparr>"

definition unsubscribe_modes :: "nat \<Rightarrow> plane \<Rightarrow> plane" where
  "unsubscribe_modes l s = s\<lparr>modes_listeners := set_remove l (modes_listeners s)\<rparr>"

definition unsubscribe_input_outcomes :: "nat \<Rightarrow> plane \<Rightarrow> plane" where
  "unsubscribe_input_outcomes l s = s\<lparr>outcome_listeners := set_remove l (outcome_listeners s)\<rparr>"

definition detach :: "plane \<Rightarrow> plane" where
  "detach s0 =
     (if detached s0 then s0
      else let held_subscription = subscription s0; held = held_generation s0;
               s = close_stream_without_detach_request
                     [T ''Terminal detached before the operation completed.'']
                     (s0\<lparr>detached := True, transport_lost := False\<rparr>)
           in send_detach_request_once held_subscription held
                (s\<lparr>listeners := [], status_listeners := [], modes_listeners := [],
                   outcome_listeners := [], lifecycle_subscribed := False\<rparr>))"

text \<open>\<open>writePaste\<close> goes on when its operation has settled: it publishes the outcome and returns it.\<close>

definition paste_microtask :: "plane \<Rightarrow> plane" where
  "paste_microtask s =
     (case paste_results s of [] \<Rightarrow> s
      | oc # rest \<Rightarrow> emit [E_paste_returned oc] (publish_outcome oc (s\<lparr>paste_results := rest\<rparr>)))"

definition consent_timer :: "plane \<Rightarrow> plane" where
  "consent_timer s =
     (if pending_unsafe_paste s = None then s else release_unsafe_paste_consent s)"

definition hydration_timer :: "plane \<Rightarrow> plane" where
  "hydration_timer s0 =
     (case hydration s0 of None \<Rightarrow> s0
      | Some h \<Rightarrow>
          if \<not> hy_timer h then s0
          else let s = update_hydration (\<lambda>h. h\<lparr>hy_timer := False\<rparr>) s0 in
            if hy_completed h then s
            else recover_route (hy_serial h)
                   [T ''Terminal snapshot attach made no progress within the bound.''] s)"

subsection \<open>The step function\<close>

datatype plane_event =
    Send_input semantic_input
  | Resize geometry
  | Write_paste js_string
  | Confirm_paste paste_consent
  | Cancel_paste paste_consent
  | Subscribe_output nat
  | Unsubscribe_output nat
  | Subscribe_status nat
  | Unsubscribe_status nat
  | Subscribe_modes nat
  | Unsubscribe_modes nat
  | Subscribe_outcomes nat
  | Unsubscribe_outcomes nat
  | Bind_reader
  | Detach_plane
  | Lifecycle lifecycle_event bool
  | Deliver nat stream_event
  | Run_event nat
  | Reader_result nat "message + snapshot_progress"
  | Run_send nat
  | Frame_sent nat
  | Frame_failed nat message
  | Attach_resume nat open_result
  | Stream_ready nat "int option"
  | Stream_rejected nat message
  | Attach_microtask nat
  | Recover_microtask
  | Recover_resume
  | Paste_microtask
  | Consent_timer
  | Hydration_timer
  | Clock_advance nat

fun plane_step :: "plane_event \<Rightarrow> plane \<Rightarrow> plane" where
  "plane_step (Send_input inp) s = send_input inp s"
| "plane_step (Resize g) s = resize g s"
| "plane_step (Write_paste t) s = write_paste t s"
| "plane_step (Confirm_paste c) s = fst (confirm_unsafe_paste c s)"
| "plane_step (Cancel_paste c) s = fst (cancel_unsafe_paste c s)"
| "plane_step (Subscribe_output l) s = subscribe_output l s"
| "plane_step (Unsubscribe_output l) s = unsubscribe_output l s"
| "plane_step (Subscribe_status l) s = subscribe_status l s"
| "plane_step (Unsubscribe_status l) s = unsubscribe_status l s"
| "plane_step (Subscribe_modes l) s = subscribe_modes l s"
| "plane_step (Unsubscribe_modes l) s = unsubscribe_modes l s"
| "plane_step (Subscribe_outcomes l) s = subscribe_input_outcomes l s"
| "plane_step (Unsubscribe_outcomes l) s = unsubscribe_input_outcomes l s"
| "plane_step Bind_reader s = s\<lparr>reader_factory := True\<rparr>"
| "plane_step Detach_plane s = detach s"
| "plane_step (Lifecycle ev sent) s = handle_lifecycle_event ev sent s"
| "plane_step (Deliver n ev) s = enqueue_terminal_event n ev s"
| "plane_step (Run_event c) s = run_event c s"
| "plane_step (Reader_result c r) s = reader_result c r s"
| "plane_step (Run_send c) s = run_send c s"
| "plane_step (Frame_sent c) s = frame_sent c s"
| "plane_step (Frame_failed c err) s = frame_failed c err s"
| "plane_step (Attach_resume p r) s = attach_resume p r s"
| "plane_step (Stream_ready p r) s = stream_ready p r s"
| "plane_step (Stream_rejected p err) s = stream_rejected p err s"
| "plane_step (Attach_microtask p) s = attach_microtask p s"
| "plane_step Recover_microtask s = recover_microtask s"
| "plane_step Recover_resume s = recover_resume s"
| "plane_step Paste_microtask s = paste_microtask s"
| "plane_step Consent_timer s = consent_timer s"
| "plane_step Hydration_timer s = hydration_timer s"
| "plane_step (Clock_advance n) s = s\<lparr>clock := clock s + n\<rparr>"

text \<open>
  The constructor; \<open>sub\<close> is the caller's subscription id, if it gave one. An empty id is kept
  (\<open>??\<close>) and does not count as fixed (\<open>Boolean\<close>).
\<close>

definition new_plane :: "string \<Rightarrow> string option \<Rightarrow> plane" where
  "new_plane session sub = \<lparr>
     session_id = session,
     subscription = (case sub of Some x \<Rightarrow> Given x | None \<Rightarrow> Minted 0),
     fixed_subscription = (case sub of Some x \<Rightarrow> x \<noteq> [] | None \<Rightarrow> False),
     listeners = [], status_listeners = [], modes_listeners = [], outcome_listeners = [],
     current_status = status_of ST_attaching [T ''Attaching terminal stream.''],
     current_modes = None, stream = None, attach_promise = None, detached = False,
     transport_lost = False, generation = 0, attached_received = False, route_generation = None,
     accepted_epoch = None, detach_sent_for = None, last_abandoned = None,
     lifecycle_subscribed = True, hydration = None, reader_factory = False,
     snapshot_recoveries = 0, next_operation_id = 1, queued_inputs = [], queued_input_bytes = 0,
     inflight_input_bytes = 0, inflight_inputs = [], desired_geometry = None, sent_geometry = None,
     geometry_operation = None, paste_attempt = 0, pending_unsafe_paste = None,
     consent_retained_bytes = 0, send_chain = 0, send_tasks = [], event_chain = 0,
     event_tasks = [], attach_tasks = [], recover_microtasks = 0, recover_waits = 0,
     paste_results = [], opened_streams = [], next_serial = 1, clock = 0, admitted = [],
     settled = [], dropped = [], pasted = [], log = []\<rparr>"

definition create_plane :: "string \<Rightarrow> string option \<Rightarrow> string + plane" where
  "create_plane session sub =
     (if session = [] then Inl ''Hub terminal data plane requires a session id.''
      else Inr (new_plane session sub))"

definition run_plane :: "plane_event list \<Rightarrow> plane \<Rightarrow> plane" where
  "run_plane es s = fold plane_step es s"

end
