(* ===== verification/Data_Plane_Inputs.thy ===== *)
theory Data_Plane_Inputs
  imports Data_Plane_Steps "HOL-Library.Multiset"
begin

text \<open>
  The input side of the data plane over whole runs: what the counters count, the window and
  queue bounds, that no operation is lost or reported twice, and what abandoning an attachment
  reports. The invariant \<open>inputs_ok\<close> is the conjunction of the parts below; every step keeps it.
\<close>

subsection \<open>Reporting\<close>

definition reports :: "nat list \<Rightarrow> (resolver \<times> operation_outcome) list \<Rightarrow> effect list" where
  "reports ls rs = concat (map (\<lambda>(r, oc). if r = Resolve_write_paste then []
     else map (\<lambda>l. E_outcome l oc) ls) rs)"

definition paste_reports :: "(resolver \<times> operation_outcome) list \<Rightarrow> operation_outcome list" where
  "paste_reports rs = map snd (filter (\<lambda>(r, _). r = Resolve_write_paste) rs)"

lemma reports_simps [simp]:
  "reports ls [] = []" "reports ls (rs @ qs) = reports ls rs @ reports ls qs"
  "paste_reports [] = []" "paste_reports (rs @ qs) = paste_reports rs @ paste_reports qs"
  by (simp_all add: reports_def paste_reports_def)

lemma resolve_outcome_reports:
  "resolve_outcome r oc s = s\<lparr>log := log s @ reports (outcome_listeners s) [(r, oc)],
     paste_results := paste_results s @ paste_reports [(r, oc)]\<rparr>"
  by (cases r) (simp_all add: resolve_outcome_def reports_def paste_reports_def publish_outcome_def
      emit_def)

subsection \<open>Nothing is pumped without a sendable stream\<close>

lemma not_sendable: "\<not> attached_received s \<Longrightarrow> sendable_stream s = None"
  by (simp add: sendable_stream_def split: option.splits)

lemma pump_idle: "sendable_stream s = None \<Longrightarrow> pump_inputs s = s"
  by (simp add: pump_inputs_def)

subsection \<open>Abandoning an attachment\<close>

definition unknown_report :: "message \<Rightarrow> inflight_operation \<Rightarrow> resolver \<times> operation_outcome" where
  "unknown_report reason i =
     (q_resolve i, outcome_of i (Core IO_outcome_unknown) reason None None None)"

definition cancelled_report :: "message \<Rightarrow> queued_operation \<Rightarrow> resolver \<times> operation_outcome" where
  "cancelled_report reason e = (q_resolve e, cancelled_outcome e reason)"

lemma settle_unknown:
  assumes "\<not> attached_received s" "inflight_inputs s = (if_operation_id i, i) # xs"
    "distinct (map fst (inflight_inputs s))"
  shows "settle_inflight i (Core IO_outcome_unknown) reason None None s =
    s\<lparr>inflight_inputs := xs, inflight_input_bytes := inflight_input_bytes s - int (if_retained_bytes i),
      geometry_operation := (if geometry_operation s = Some (q_serial i) then None else geometry_operation s),
      settled := q_serial i # settled s,
      log := log s @ reports (outcome_listeners s) [unknown_report reason i],
      paste_results := paste_results s @ paste_reports [unknown_report reason i]\<rparr>"
  using assms
  by (simp add: settle_inflight_def current_inflight_def remove_inflight_def consent_due_def
      resolve_outcome_reports unknown_report_def pump_idle not_sendable delete_idem)

lemma settle_all_unknown:
  assumes "\<not> attached_received s" "distinct (map fst (inflight_inputs s))"
    "\<forall>(k, i) \<in> set (inflight_inputs s). k = if_operation_id i"
  shows "\<exists>b g. fold (\<lambda>i. settle_inflight i (Core IO_outcome_unknown) reason None None)
       (map snd (inflight_inputs s)) s =
     s\<lparr>inflight_inputs := [], inflight_input_bytes := b, geometry_operation := g,
       settled := rev (map (q_serial \<circ> snd) (inflight_inputs s)) @ settled s,
       log := log s @ reports (outcome_listeners s) (map (unknown_report reason \<circ> snd) (inflight_inputs s)),
       paste_results := paste_results s
         @ paste_reports (map (unknown_report reason \<circ> snd) (inflight_inputs s))\<rparr>"
  using assms
proof (induction "inflight_inputs s" arbitrary: s)
  case Nil
  then show ?case by (intro exI [of _ "inflight_input_bytes s"] exI [of _ "geometry_operation s"]) simp
next
  case (Cons x xs)
  obtain k i where x: "x = (k, i)" by (cases x)
  with Cons have k: "k = if_operation_id i" by (metis (mono_tags, lifting) case_prodD list.set_intros(1))
  define t where "t = settle_inflight i (Core IO_outcome_unknown) reason None None s"
  have t: "t = s\<lparr>inflight_inputs := xs,
      inflight_input_bytes := inflight_input_bytes s - int (if_retained_bytes i),
      geometry_operation := (if geometry_operation s = Some (q_serial i) then None else geometry_operation s),
      settled := q_serial i # settled s,
      log := log s @ reports (outcome_listeners s) [unknown_report reason i],
      paste_results := paste_results s @ paste_reports [unknown_report reason i]\<rparr>"
    unfolding t_def using Cons x k by (intro settle_unknown) auto
  have xs: "xs = inflight_inputs t" by (simp add: t)
  have "\<exists>b g. fold (\<lambda>i. settle_inflight i (Core IO_outcome_unknown) reason None None)
       (map snd (inflight_inputs t)) t =
     t\<lparr>inflight_inputs := [], inflight_input_bytes := b, geometry_operation := g,
       settled := rev (map (q_serial \<circ> snd) (inflight_inputs t)) @ settled t,
       log := log t @ reports (outcome_listeners t) (map (unknown_report reason \<circ> snd) (inflight_inputs t)),
       paste_results := paste_results t
         @ paste_reports (map (unknown_report reason \<circ> snd) (inflight_inputs t))\<rparr>"
    by (rule Cons.hyps(1) [OF xs])
      (use Cons.hyps(2) [symmetric] Cons.prems in \<open>simp_all add: t x\<close>)
  then obtain b g where bg: "fold (\<lambda>i. settle_inflight i (Core IO_outcome_unknown) reason None None)
       (map snd (inflight_inputs t)) t =
     t\<lparr>inflight_inputs := [], inflight_input_bytes := b, geometry_operation := g,
       settled := rev (map (q_serial \<circ> snd) (inflight_inputs t)) @ settled t,
       log := log t @ reports (outcome_listeners t) (map (unknown_report reason \<circ> snd) (inflight_inputs t)),
       paste_results := paste_results t
         @ paste_reports (map (unknown_report reason \<circ> snd) (inflight_inputs t))\<rparr>"
    by blast
  have step: "fold (\<lambda>i. settle_inflight i (Core IO_outcome_unknown) reason None None)
      (map snd (inflight_inputs s)) s = fold (\<lambda>i. settle_inflight i (Core IO_outcome_unknown) reason None None)
      (map snd (inflight_inputs t)) t"
    using Cons.hyps(2) [symmetric] by (simp add: x t_def [symmetric] xs)
  have lists: "reports ls (unknown_report reason i # map (unknown_report reason \<circ> snd) xs) =
      reports ls [unknown_report reason i] @ reports ls (map (unknown_report reason \<circ> snd) xs)"
    "paste_reports (unknown_report reason i # map (unknown_report reason \<circ> snd) xs) =
      paste_reports [unknown_report reason i] @ paste_reports (map (unknown_report reason \<circ> snd) xs)" for ls
    by (simp_all add: reports_def paste_reports_def)
  show ?case
    unfolding step bg using Cons.hyps(2) [symmetric]
    by (intro exI [of _ b] exI [of _ g]) (simp add: x t lists)
qed

lemma cancel_all_queued:
  "fold (cancel_queued reason) es s =
     s\<lparr>settled := rev (map q_serial es) @ settled s,
       log := log s @ reports (outcome_listeners s) (map (cancelled_report reason) es),
       paste_results := paste_results s @ paste_reports (map (cancelled_report reason) es)\<rparr>"
proof (induction es arbitrary: s)
  case Nil
  then show ?case by simp
next
  case (Cons e es)
  have lists: "reports ls (cancelled_report reason e # map (cancelled_report reason) es) =
      reports ls [cancelled_report reason e] @ reports ls (map (cancelled_report reason) es)"
    "paste_reports (cancelled_report reason e # map (cancelled_report reason) es) =
      paste_reports [cancelled_report reason e] @ paste_reports (map (cancelled_report reason) es)" for ls
    by (simp_all add: reports_def paste_reports_def)
  show ?case
    by (simp add: Cons.IH lists cancel_queued_def [of reason e] resolve_outcome_reports
        cancelled_report_def [of reason e, symmetric])
qed

lemma abandon_inputs_closed_form:
  assumes "\<not> attached_received s" "distinct (map fst (inflight_inputs s))"
    "\<forall>(k, i) \<in> set (inflight_inputs s). k = if_operation_id i"
  shows "abandon_inputs reason s =
     s\<lparr>inflight_inputs := [], queued_inputs := [], queued_input_bytes := 0, inflight_input_bytes := 0,
       pending_unsafe_paste := None, consent_retained_bytes := 0, sent_geometry := None,
       geometry_operation := None, next_operation_id := 1,
       settled := rev (map q_serial (queued_inputs s))
         @ rev (map (q_serial \<circ> snd) (inflight_inputs s)) @ settled s,
       log := log s @ reports (outcome_listeners s) (map (unknown_report reason \<circ> snd) (inflight_inputs s)
         @ map (cancelled_report reason) (queued_inputs s)),
       paste_results := paste_results s @ paste_reports (map (unknown_report reason \<circ> snd) (inflight_inputs s)
         @ map (cancelled_report reason) (queued_inputs s))\<rparr>"
proof -
  obtain b g where bg: "fold (\<lambda>i. settle_inflight i (Core IO_outcome_unknown) reason None None)
       (map snd (inflight_inputs s)) s =
     s\<lparr>inflight_inputs := [], inflight_input_bytes := b, geometry_operation := g,
       settled := rev (map (q_serial \<circ> snd) (inflight_inputs s)) @ settled s,
       log := log s @ reports (outcome_listeners s) (map (unknown_report reason \<circ> snd) (inflight_inputs s)),
       paste_results := paste_results s
         @ paste_reports (map (unknown_report reason \<circ> snd) (inflight_inputs s))\<rparr>"
    using settle_all_unknown [OF assms] by blast
  show ?thesis
    unfolding abandon_inputs_def bg by (simp add: cancel_all_queued release_unsafe_paste_consent_def)
qed

subsection \<open>The invariant\<close>

definition inputs_counted :: "plane \<Rightarrow> bool" where
  "inputs_counted s \<longleftrightarrow>
     queued_input_bytes s = int (sum_list (map (body_bytes \<circ> q_operation) (queued_inputs s)))
     \<and> inflight_input_bytes s = int (sum_list (map (if_retained_bytes \<circ> snd) (inflight_inputs s)))"

definition inflight_keyed :: "plane \<Rightarrow> bool" where
  "inflight_keyed s \<longleftrightarrow>
     distinct (map fst (inflight_inputs s))
     \<and> (\<forall>(k, i) \<in> set (inflight_inputs s). k = if_operation_id i \<and> k < next_operation_id s
          \<and> if_generation i = generation s)
     \<and> (stream s = None \<longrightarrow> inflight_inputs s = [])"

definition RESIZE_BODY_BYTES :: nat where "RESIZE_BODY_BYTES = 12"

definition geometry_allowance :: "plane \<Rightarrow> int" where
  "geometry_allowance s = (if geometry_operation s = None then 0 else int RESIZE_BODY_BYTES)"

definition inputs_bounded :: "plane \<Rightarrow> bool" where
  "inputs_bounded s \<longleftrightarrow>
     length (inflight_inputs s) \<le> MAX_INFLIGHT_INPUT_OPERATIONS
     \<and> length (queued_inputs s) \<le> MAX_QUEUED_INPUT_OPERATIONS
     \<and> retained_input_bytes s \<le> int MAX_QUEUED_INPUT_BYTES + geometry_allowance s"

definition queued_serials :: "plane \<Rightarrow> nat list" where
  "queued_serials s = map q_serial (queued_inputs s)"

definition inflight_serials :: "plane \<Rightarrow> nat list" where
  "inflight_serials s = map (q_serial \<circ> snd) (inflight_inputs s)"

definition inputs_conserved :: "plane \<Rightarrow> bool" where
  "inputs_conserved s \<longleftrightarrow>
     mset (admitted s) = mset (queued_serials s) + mset (inflight_serials s)
       + mset (settled s) + mset (dropped s)
     \<and> distinct (admitted s) \<and> (\<forall>n \<in> set (admitted s). n < next_serial s)"

definition geometry_tracked :: "plane \<Rightarrow> bool" where
  "geometry_tracked s \<longleftrightarrow>
     (\<forall>n. geometry_operation s = Some n \<longrightarrow>
        (\<exists>(k, i) \<in> set (inflight_inputs s). q_serial i = n \<and> if_retained_bytes i = RESIZE_BODY_BYTES
           \<and> q_paste_data i = None))"

definition pastes_held :: "plane \<Rightarrow> bool" where
  "pastes_held s \<longleftrightarrow>
     consent_accounting_ok s
     \<and> (\<forall>e \<in> set (queued_inputs s). \<forall>d. q_paste_data e = Some d \<longrightarrow> body_bytes (q_operation e) = length d)
     \<and> (\<forall>(k, i) \<in> set (inflight_inputs s). \<forall>d. q_paste_data i = Some d \<longrightarrow> if_retained_bytes i = length d)"

text \<open>Two views of one operation: everything but the payload, which sending releases.\<close>

definition same_operation :: "inflight_operation \<Rightarrow> inflight_operation \<Rightarrow> bool" where
  "same_operation i j \<longleftrightarrow> i\<lparr>q_operation := q_operation j\<rparr> = j"

definition sends_owned :: "plane \<Rightarrow> bool" where
  "sends_owned s \<longleftrightarrow>
     (\<forall>t \<in> set (send_tasks s).
        q_serial (tk_inflight t) \<in> set (inflight_serials s) \<union> set (settled s) \<union> set (dropped s)
        \<and> (\<forall>(k, j) \<in> set (inflight_inputs s). q_serial j = q_serial (tk_inflight t)
             \<longrightarrow> same_operation (tk_inflight t) j))"

definition inputs_ok :: "plane \<Rightarrow> bool" where
  "inputs_ok s \<longleftrightarrow> inputs_counted s \<and> inflight_keyed s \<and> inputs_bounded s \<and> inputs_conserved s
     \<and> geometry_tracked s \<and> pastes_held s \<and> sends_owned s"

lemmas inputs_parts = inputs_counted_def inflight_keyed_def inputs_bounded_def inputs_conserved_def
  geometry_tracked_def pastes_held_def sends_owned_def

lemmas inputs_views = queued_serials_def inflight_serials_def geometry_allowance_def
  retained_input_bytes_def consent_accounting_ok_def

subsection \<open>Steps that leave the inputs alone\<close>

text \<open>A field the invariant does not read may be set to anything.\<close>

lemma inputs_ok_frame [simp]:
  "inputs_ok (s\<lparr>log := a1\<rparr>) = inputs_ok s"
  "inputs_ok (s\<lparr>paste_results := a2\<rparr>) = inputs_ok s"
  "inputs_ok (s\<lparr>current_status := a3\<rparr>) = inputs_ok s"
  "inputs_ok (s\<lparr>current_modes := a4\<rparr>) = inputs_ok s"
  "inputs_ok (s\<lparr>listeners := a5\<rparr>) = inputs_ok s"
  "inputs_ok (s\<lparr>status_listeners := a6\<rparr>) = inputs_ok s"
  "inputs_ok (s\<lparr>modes_listeners := a7\<rparr>) = inputs_ok s"
  "inputs_ok (s\<lparr>outcome_listeners := a8\<rparr>) = inputs_ok s"
  "inputs_ok (s\<lparr>attach_promise := a9\<rparr>) = inputs_ok s"
  "inputs_ok (s\<lparr>detached := a10\<rparr>) = inputs_ok s"
  "inputs_ok (s\<lparr>transport_lost := a11\<rparr>) = inputs_ok s"
  "inputs_ok (s\<lparr>attached_received := a12\<rparr>) = inputs_ok s"
  "inputs_ok (s\<lparr>route_generation := a13\<rparr>) = inputs_ok s"
  "inputs_ok (s\<lparr>accepted_epoch := a14\<rparr>) = inputs_ok s"
  "inputs_ok (s\<lparr>detach_sent_for := a15\<rparr>) = inputs_ok s"
  "inputs_ok (s\<lparr>last_abandoned := a16\<rparr>) = inputs_ok s"
  "inputs_ok (s\<lparr>lifecycle_subscribed := a17\<rparr>) = inputs_ok s"
  "inputs_ok (s\<lparr>hydration := a18\<rparr>) = inputs_ok s"
  "inputs_ok (s\<lparr>reader_factory := a19\<rparr>) = inputs_ok s"
  "inputs_ok (s\<lparr>snapshot_recoveries := a20\<rparr>) = inputs_ok s"
  "inputs_ok (s\<lparr>desired_geometry := a21\<rparr>) = inputs_ok s"
  "inputs_ok (s\<lparr>sent_geometry := a22\<rparr>) = inputs_ok s"
  "inputs_ok (s\<lparr>paste_attempt := a23\<rparr>) = inputs_ok s"
  "inputs_ok (s\<lparr>send_chain := a24\<rparr>) = inputs_ok s"
  "inputs_ok (s\<lparr>event_chain := a25\<rparr>) = inputs_ok s"
  "inputs_ok (s\<lparr>event_tasks := a26\<rparr>) = inputs_ok s"
  "inputs_ok (s\<lparr>attach_tasks := a27\<rparr>) = inputs_ok s"
  "inputs_ok (s\<lparr>recover_microtasks := a28\<rparr>) = inputs_ok s"
  "inputs_ok (s\<lparr>recover_waits := a29\<rparr>) = inputs_ok s"
  "inputs_ok (s\<lparr>opened_streams := a30\<rparr>) = inputs_ok s"
  "inputs_ok (s\<lparr>clock := a31\<rparr>) = inputs_ok s"
  "inputs_ok (s\<lparr>subscription := a32\<rparr>) = inputs_ok s"
  "inputs_ok (s\<lparr>pasted := a33\<rparr>) = inputs_ok s"
  by (simp_all add: inputs_ok_def inputs_parts inputs_views)


subsection \<open>Taking an operation out of the window\<close>

lemma same_operation_fields:
  "same_operation i j \<Longrightarrow> q_serial j = q_serial i \<and> q_kind j = q_kind i
     \<and> q_requested_bytes j = q_requested_bytes i \<and> q_paste_data j = q_paste_data i
     \<and> q_paste_attempt j = q_paste_attempt i \<and> q_resolve j = q_resolve i
     \<and> if_generation j = if_generation i \<and> if_operation_id j = if_operation_id i
     \<and> if_retained_bytes j = if_retained_bytes i"
  by (cases i; cases j; simp add: same_operation_def)

lemma same_operation_refl [simp]: "same_operation i i"
  by (simp add: same_operation_def)

definition owned_by :: "plane \<Rightarrow> inflight_operation \<Rightarrow> bool" where
  "owned_by s i \<longleftrightarrow> (\<forall>(k, j) \<in> set (inflight_inputs s). q_serial j = q_serial i \<longrightarrow> same_operation i j)"

lemma task_owned: "inputs_ok s \<Longrightarrow> t \<in> set (send_tasks s) \<Longrightarrow> owned_by s (tk_inflight t)"
  by (simp add: inputs_ok_def sends_owned_def owned_by_def)

lemma current_split:
  assumes "distinct (map fst (inflight_inputs s))" "current_inflight i s" "owned_by s i"
  obtains xs j ys where "inflight_inputs s = xs @ (if_operation_id i, j) # ys"
    "AList.delete (if_operation_id i) (inflight_inputs s) = xs @ ys" "same_operation i j"
proof -
  from assms(2) obtain j where j: "map_of (inflight_inputs s) (if_operation_id i) = Some j"
    "q_serial j = q_serial i"
    by (auto simp: current_inflight_def split: option.splits)
  then have mem: "(if_operation_id i, j) \<in> set (inflight_inputs s)" by (simp add: map_of_SomeD)
  then obtain xs ys where s: "inflight_inputs s = xs @ (if_operation_id i, j) # ys"
    by (meson split_list)
  have "AList.delete (if_operation_id i) (inflight_inputs s) = xs @ ys"
  proof -
    have "k \<noteq> if_operation_id i" if "(k, l) \<in> set xs \<union> set ys" for k l
      using assms(1) that unfolding s by force
    then have "filter (\<lambda>(k, _). if_operation_id i \<noteq> k) xs = xs"
      "filter (\<lambda>(k, _). if_operation_id i \<noteq> k) ys = ys"
      unfolding filter_id_conv by fast+
    then show ?thesis unfolding s by (simp add: AList.delete_eq)
  qed
  moreover have "same_operation i j" using assms(3) mem j(2) by (auto simp: owned_by_def)
  ultimately show thesis using that s by blast
qed

lemma conserved_distinct:
  "inputs_conserved s \<Longrightarrow>
     distinct (queued_serials s @ inflight_serials s @ settled s @ dropped s)"
  unfolding inputs_conserved_def
  by (metis (no_types, lifting) mset_append mset_eq_imp_distinct_iff union_assoc)

lemma inputs_ok_serials:
  "inputs_ok s \<Longrightarrow> distinct (queued_serials s @ inflight_serials s @ settled s @ dropped s)"
  by (rule conserved_distinct) (simp add: inputs_ok_def)

lemma inputs_ok_remove:
  assumes "inputs_ok s" "current_inflight i s" "owned_by s i"
  shows "inputs_ok (remove_inflight i s\<lparr>settled := q_serial i # settled s\<rparr>)"
    and "inputs_ok (remove_inflight i s\<lparr>dropped := q_serial i # dropped s\<rparr>)"
proof -
  have dk: "distinct (map fst (inflight_inputs s))"
    using assms(1) by (simp add: inputs_ok_def inflight_keyed_def)
  from current_split [OF dk assms(2,3)] obtain xs j ys where
    split: "inflight_inputs s = xs @ (if_operation_id i, j) # ys"
    and del: "AList.delete (if_operation_id i) (inflight_inputs s) = xs @ ys"
    and same: "same_operation i j" .
  note j = same_operation_fields [OF same]
  have ser: "q_serial i \<notin> (q_serial \<circ> snd) ` set (xs @ ys)"
    using inputs_ok_serials [OF assms(1)] j by (auto simp: inflight_serials_def split)
  define r where "r = remove_inflight i s"
  have r: "inflight_inputs r = xs @ ys" "inflight_input_bytes r = inflight_input_bytes s - int (if_retained_bytes i)"
    "geometry_operation r = (if geometry_operation s = Some (q_serial i) then None else geometry_operation s)"
    "queued_inputs r = queued_inputs s" "queued_input_bytes r = queued_input_bytes s"
    "settled r = settled s" "dropped r = dropped s" "admitted r = admitted s"
    "next_serial r = next_serial s" "next_operation_id r = next_operation_id s"
    "generation r = generation s" "stream r = stream s" "send_tasks r = send_tasks s"
    "consent_retained_bytes r = consent_retained_bytes s"
    "pending_unsafe_paste r = pending_unsafe_paste s"
    unfolding r_def remove_inflight_def by (simp_all add: del)
  have counted: "inputs_counted s" and keyed: "inflight_keyed s" and bounded: "inputs_bounded s"
    and cons: "inputs_conserved s" and geo: "geometry_tracked s" and held: "pastes_held s"
    and owned: "sends_owned s"
    using assms(1) by (simp_all add: inputs_ok_def)
  have c: "inputs_counted r" using counted j by (simp add: inputs_counted_def r split)
  have k: "inflight_keyed r" using keyed by (auto simp: inflight_keyed_def r split)
  have retained_geo: "if_retained_bytes i = RESIZE_BODY_BYTES" if "geometry_operation s = Some (q_serial i)"
  proof -
    from geo that obtain l where l: "l \<in> set (inflight_inputs s)" "q_serial (snd l) = q_serial i"
      "if_retained_bytes (snd l) = RESIZE_BODY_BYTES"
      by (auto simp: geometry_tracked_def)
    have "l \<notin> set (xs @ ys)" using ser l(2) by (metis comp_apply imageI)
    with l(1) have "snd l = j" by (auto simp: split)
    with l j show ?thesis by simp
  qed
  have b: "inputs_bounded r" using bounded retained_geo
    by (auto simp: inputs_bounded_def retained_input_bytes_def geometry_allowance_def r split split: if_splits)
  have g: "geometry_tracked r" using geo j by (auto simp: geometry_tracked_def r split)
  have h: "pastes_held r" using held by (auto simp: pastes_held_def consent_accounting_ok_def r split)
  have q: "queued_serials r = queued_serials s" "inflight_serials r = map (q_serial \<circ> snd) (xs @ ys)"
    by (simp_all add: queued_serials_def inflight_serials_def r)
  have o: "q_serial (tk_inflight t) \<in> insert (q_serial i) (set (inflight_serials r)) \<union> set (settled s) \<union> set (dropped s)
      \<and> (\<forall>(k, j) \<in> set (inflight_inputs r). q_serial j = q_serial (tk_inflight t) \<longrightarrow> same_operation (tk_inflight t) j)"
    if "t \<in> set (send_tasks s)" for t
    using owned that j by (force simp: sends_owned_def inflight_serials_def r split)
  have m: "mset (inflight_serials s) = add_mset (q_serial i) (mset (inflight_serials r))"
    by (simp add: inflight_serials_def r split j)
  have o': "sends_owned (r\<lparr>settled := q_serial i # settled s\<rparr>)"
    "sends_owned (r\<lparr>dropped := q_serial i # dropped s\<rparr>)"
    unfolding sends_owned_def using o by (force simp: inflight_serials_def r)+
  have cons': "inputs_conserved (r\<lparr>settled := q_serial i # settled s\<rparr>)"
    "inputs_conserved (r\<lparr>dropped := q_serial i # dropped s\<rparr>)"
    using cons m by (simp_all add: inputs_conserved_def queued_serials_def inflight_serials_def r)
  show "inputs_ok (remove_inflight i s\<lparr>settled := q_serial i # settled s\<rparr>)"
    unfolding r_def [symmetric] inputs_ok_def using c k b g h o'(1) cons'(1)
    by (simp add: inputs_counted_def inflight_keyed_def inputs_bounded_def geometry_tracked_def
        pastes_held_def inputs_views)
  show "inputs_ok (remove_inflight i s\<lparr>dropped := q_serial i # dropped s\<rparr>)"
    unfolding r_def [symmetric] inputs_ok_def using c k b g h o'(2) cons'(2)
    by (simp add: inputs_counted_def inflight_keyed_def inputs_bounded_def geometry_tracked_def
        pastes_held_def inputs_views)
qed

subsection \<open>Putting an operation into the window\<close>

lemma update_fresh: "k \<notin> fst ` set xs \<Longrightarrow> AList.update k v xs = xs @ [(k, v)]"
  by (induction xs) auto

lemma append_operation_fresh:
  assumes "inflight_keyed s"
  shows "append_operation e h s =
     s\<lparr>next_operation_id := next_operation_id s + 1,
       inflight_inputs := inflight_inputs s
         @ [(next_operation_id s, inflight_of e (generation s) (next_operation_id s))],
       inflight_input_bytes := inflight_input_bytes s + int (body_bytes (q_operation e)),
       send_tasks := send_tasks s @ [\<lparr>tk_chain = send_chain s,
         tk_inflight = inflight_of e (generation s) (next_operation_id s),
         tk_stream = sh_serial h, tk_phase = Send_waiting\<rparr>]\<rparr>"
proof -
  have "next_operation_id s \<notin> fst ` set (inflight_inputs s)"
    using assms by (fastforce simp: inflight_keyed_def)
  then show ?thesis by (simp add: append_operation_def Let_def update_fresh inflight_of_def)
qed

lemma inflight_of_fields [simp]:
  "q_serial (inflight_of e g n) = q_serial e" "q_operation (inflight_of e g n) = q_operation e"
  "q_paste_data (inflight_of e g n) = q_paste_data e" "if_generation (inflight_of e g n) = g"
  "if_operation_id (inflight_of e g n) = n"
  "if_retained_bytes (inflight_of e g n) = body_bytes (q_operation e)"
  by (simp_all add: inflight_of_def)

lemma sends_owned_append:
  assumes owned: "sends_owned s" and fresh: "q_serial i \<notin> set (inflight_serials s)"
    "q_serial i \<notin> set (settled s)" "q_serial i \<notin> set (dropped s)"
    and new: "inflight_inputs s' = inflight_inputs s @ [(k, i)]" "settled s' = settled s"
    "dropped s' = dropped s" "send_tasks s' = send_tasks s @ [t]" "tk_inflight t = i"
  shows "sends_owned s'"
proof -
  have serials: "inflight_serials s' = inflight_serials s @ [q_serial i]"
    by (simp add: inflight_serials_def new)
  have other: "q_serial (tk_inflight u) \<noteq> q_serial i" if "u \<in> set (send_tasks s)" for u
    using owned fresh that unfolding sends_owned_def by fastforce
  have own: "q_serial j \<noteq> q_serial i" if "(l, j) \<in> set (inflight_inputs s)" for l j
    using fresh(1) that by (force simp: inflight_serials_def)
  have old: "owned_by s' (tk_inflight u)" if u: "u \<in> set (send_tasks s)" for u
    using owned u other [OF u] by (auto simp: sends_owned_def owned_by_def new(1))
  have "owned_by s' i" using own by (auto simp: owned_by_def new(1))
  with owned old show ?thesis
    by (simp add: sends_owned_def serials new(2-5) owned_by_def [symmetric])
qed

lemma inputs_ok_pump_one:
  assumes ok: "inputs_ok s" and q: "queued_inputs s = e # es" and st: "stream s \<noteq> None"
    and room: "length (inflight_inputs s) < MAX_INFLIGHT_INPUT_OPERATIONS"
  shows "inputs_ok (append_operation e h (s\<lparr>queued_inputs := es,
           queued_input_bytes := queued_input_bytes s - int (body_bytes (q_operation e))\<rparr>))"
    (is "inputs_ok ?a")
proof -
  define r where "r = ?a"
  have counted: "inputs_counted s" and keyed: "inflight_keyed s" and bounded: "inputs_bounded s"
    and cons: "inputs_conserved s" and geo: "geometry_tracked s" and held: "pastes_held s"
    and owned: "sends_owned s"
    using ok by (simp_all add: inputs_ok_def)
  have r: "r = s\<lparr>queued_inputs := es,
      queued_input_bytes := queued_input_bytes s - int (body_bytes (q_operation e)),
      next_operation_id := next_operation_id s + 1,
      inflight_inputs := inflight_inputs s
        @ [(next_operation_id s, inflight_of e (generation s) (next_operation_id s))],
      inflight_input_bytes := inflight_input_bytes s + int (body_bytes (q_operation e)),
      send_tasks := send_tasks s @ [\<lparr>tk_chain = send_chain s,
        tk_inflight = inflight_of e (generation s) (next_operation_id s),
        tk_stream = sh_serial h, tk_phase = Send_waiting\<rparr>]\<rparr>"
    unfolding r_def by (subst append_operation_fresh) (use keyed in \<open>simp_all add: inflight_keyed_def\<close>)
  have fresh: "q_serial e \<notin> set (inflight_serials s)" "q_serial e \<notin> set (settled s)"
    "q_serial e \<notin> set (dropped s)"
    using inputs_ok_serials [OF ok] by (auto simp: queued_serials_def q)
  have o: "sends_owned r"
    by (rule sends_owned_append [OF owned]) (use fresh in \<open>simp_all add: r\<close>)
  have c: "inputs_counted r"
    using counted by (simp add: inputs_counted_def r q)
  have k: "inflight_keyed r"
    using keyed st by (fastforce simp: inflight_keyed_def r)
  have b: "inputs_bounded r"
    using bounded room by (simp add: inputs_bounded_def retained_input_bytes_def geometry_allowance_def r q)
  have m: "inputs_conserved r"
    using cons by (simp add: inputs_conserved_def queued_serials_def inflight_serials_def r q)
  have g: "geometry_tracked r"
    using geo by (auto simp: geometry_tracked_def r)
  have p: "pastes_held r"
    using held by (auto simp: pastes_held_def consent_accounting_ok_def r q)
  show ?thesis unfolding r_def [symmetric] using o c k b m g p by (simp add: inputs_ok_def)
qed

lemma resize_entry_fields [simp]:
  "q_serial (resize_entry g n) = n" "q_paste_data (resize_entry g n) = None"
  "body_bytes (q_operation (resize_entry g n)) = RESIZE_BODY_BYTES"
  by (simp_all add: resize_entry_def encode_semantic_input_def RESIZE_BODY_BYTES_def)

lemma conserved_fresh:
  assumes "inputs_conserved s"
  shows "next_serial s \<notin> set (queued_serials s)" "next_serial s \<notin> set (inflight_serials s)"
    "next_serial s \<notin> set (settled s)" "next_serial s \<notin> set (dropped s)" "next_serial s \<notin> set (admitted s)"
proof -
  have "set (admitted s) = set (queued_serials s) \<union> set (inflight_serials s) \<union> set (settled s) \<union> set (dropped s)"
    using assms unfolding inputs_conserved_def
    by (metis (no_types, lifting) set_mset_mset set_mset_union)
  moreover have "next_serial s \<notin> set (admitted s)" using assms by (auto simp: inputs_conserved_def)
  ultimately show "next_serial s \<notin> set (queued_serials s)" "next_serial s \<notin> set (inflight_serials s)"
    "next_serial s \<notin> set (settled s)" "next_serial s \<notin> set (dropped s)" "next_serial s \<notin> set (admitted s)"
    by auto
qed

lemma inputs_ok_geometry:
  assumes ok: "inputs_ok s" and none: "geometry_operation s = None" and st: "stream s \<noteq> None"
    and room: "length (inflight_inputs s) < MAX_INFLIGHT_INPUT_OPERATIONS"
  shows "inputs_ok ((append_operation (resize_entry g (next_serial s)) h s)
           \<lparr>geometry_operation := Some (next_serial s), next_serial := Suc (next_serial s),
            admitted := next_serial s # admitted s\<rparr>)" (is "inputs_ok ?r")
proof -
  have counted: "inputs_counted s" and keyed: "inflight_keyed s" and bounded: "inputs_bounded s"
    and cons: "inputs_conserved s" and geo: "geometry_tracked s" and held: "pastes_held s"
    and owned: "sends_owned s"
    using ok by (simp_all add: inputs_ok_def)
  define r where "r = ?r"
  have r: "r = s\<lparr>geometry_operation := Some (next_serial s), next_serial := Suc (next_serial s),
      admitted := next_serial s # admitted s,
      next_operation_id := next_operation_id s + 1,
      inflight_inputs := inflight_inputs s @ [(next_operation_id s,
        inflight_of (resize_entry g (next_serial s)) (generation s) (next_operation_id s))],
      inflight_input_bytes := inflight_input_bytes s + int RESIZE_BODY_BYTES,
      send_tasks := send_tasks s @ [\<lparr>tk_chain = send_chain s,
        tk_inflight = inflight_of (resize_entry g (next_serial s)) (generation s) (next_operation_id s),
        tk_stream = sh_serial h, tk_phase = Send_waiting\<rparr>]\<rparr>"
    unfolding r_def by (subst append_operation_fresh [OF keyed])+ simp
  note fresh = conserved_fresh [OF cons]
  have o: "sends_owned r"
    by (rule sends_owned_append [OF owned]) (use fresh in \<open>simp_all add: r\<close>)
  have c: "inputs_counted r" using counted by (simp add: inputs_counted_def r)
  have k: "inflight_keyed r" using keyed st by (fastforce simp: inflight_keyed_def r)
  have b: "inputs_bounded r"
    using bounded room none
    by (simp add: inputs_bounded_def retained_input_bytes_def geometry_allowance_def r)
  have m: "inputs_conserved r"
    using cons by (auto simp: inputs_conserved_def queued_serials_def inflight_serials_def r)
  have t: "geometry_tracked r" by (auto simp: geometry_tracked_def r)
  have p: "pastes_held r"
    using held by (auto simp: pastes_held_def consent_accounting_ok_def r)
  show ?thesis unfolding r_def [symmetric] using o c k b m t p by (simp add: inputs_ok_def)
qed

lemma sendable_stream_Some: "sendable_stream s = Some h \<Longrightarrow> stream s = Some h"
  by (auto simp: sendable_stream_def split: option.splits if_splits)

lemma inputs_ok_maybe_send_geometry: "inputs_ok s \<Longrightarrow> inputs_ok (maybe_send_geometry s)"
  by (auto simp: maybe_send_geometry_def dest: sendable_stream_Some intro!: inputs_ok_geometry
      split: option.splits)

lemma stream_append_operation [simp]: "stream (append_operation e h s) = stream s"
  by (simp add: append_operation_def Let_def)

lemma queued_append_operation [simp]: "queued_inputs (append_operation e h s) = queued_inputs s"
  by (simp add: append_operation_def Let_def)

lemma queued_maybe_send_geometry [simp]: "queued_inputs (maybe_send_geometry s) = queued_inputs s"
  by (simp add: maybe_send_geometry_def split: option.splits)

lemma stream_maybe_send_geometry [simp]: "stream (maybe_send_geometry s) = stream s"
  by (simp add: maybe_send_geometry_def split: option.splits)

lemma inputs_ok_pump_loop:
  "inputs_ok s \<Longrightarrow> queued_inputs s = es \<Longrightarrow> stream s \<noteq> None \<Longrightarrow> inputs_ok (pump_loop h es s)"
proof (induction es arbitrary: s)
  case Nil
  then show ?case by simp
next
  case (Cons e es)
  then show ?case using inputs_ok_pump_one [of s e es h] by (auto intro!: Cons.IH)
qed

lemma inputs_ok_pump_inputs: "inputs_ok s \<Longrightarrow> inputs_ok (pump_inputs s)"
  by (auto simp: pump_inputs_def Let_def dest: sendable_stream_Some
      intro!: inputs_ok_pump_loop inputs_ok_maybe_send_geometry split: option.splits)

subsection \<open>Settling\<close>

lemma retained_paste_bound:
  assumes ok: "inputs_ok s" and cur: "current_inflight i s" and own: "owned_by s i"
    and data: "q_paste_data i = Some d"
  shows "if_retained_bytes i = length d" "geometry_operation s \<noteq> Some (q_serial i)"
proof -
  have dk: "distinct (map fst (inflight_inputs s))"
    using ok by (simp add: inputs_ok_def inflight_keyed_def)
  from current_split [OF dk cur own] obtain xs j ys where
    split: "inflight_inputs s = xs @ (if_operation_id i, j) # ys" and same: "same_operation i j" .
  note j = same_operation_fields [OF same]
  show "if_retained_bytes i = length d"
    using ok data j by (auto simp: inputs_ok_def pastes_held_def split)
  have ser: "q_serial i \<notin> (q_serial \<circ> snd) ` set (xs @ ys)"
    using inputs_ok_serials [OF ok] j by (auto simp: inflight_serials_def split)
  show "geometry_operation s \<noteq> Some (q_serial i)"
  proof
    assume "geometry_operation s = Some (q_serial i)"
    with ok obtain l where l: "l \<in> set (inflight_inputs s)" "q_serial (snd l) = q_serial i"
      "q_paste_data (snd l) = None"
      by (auto simp: inputs_ok_def geometry_tracked_def)
    have "l \<notin> set (xs @ ys)" using ser l(2) by (metis comp_apply imageI)
    with l(1) have "snd l = j" by (auto simp: split)
    with l j data show False by simp
  qed
qed

lemma consent_bytes_nonneg: "inputs_ok s \<Longrightarrow> 0 \<le> consent_retained_bytes s"
  by (simp add: inputs_ok_def pastes_held_def consent_accounting_ok_def split: option.splits)

lemma inputs_ok_hold_consent:
  assumes "inputs_ok r" "q_paste_data i = Some d" "if_retained_bytes i = length d"
    "retained_input_bytes r + int (length d) \<le> int MAX_QUEUED_INPUT_BYTES + geometry_allowance r"
  shows "inputs_ok (hold_consent i r)"
  using assms consent_bytes_nonneg [OF assms(1)]
  by (simp add: hold_consent_def release_unsafe_paste_consent_def inputs_ok_def inputs_parts
      inputs_views)

lemma inputs_ok_release_consent: "inputs_ok s \<Longrightarrow> inputs_ok (release_unsafe_paste_consent s)"
  using consent_bytes_nonneg [of s]
  by (simp add: release_unsafe_paste_consent_def inputs_ok_def inputs_parts inputs_views
      split: if_splits)

lemma consent_held_ok:
  "q_paste_data i = Some d \<Longrightarrow> if_retained_bytes i = length d \<Longrightarrow> consent_accounting_ok (hold_consent i s)"
  by (simp add: hold_consent_def consent_accounting_ok_def)

lemma inputs_ok_resolve [simp]: "inputs_ok (resolve_outcome r oc s) = inputs_ok s"
  by (simp add: resolve_outcome_reports)

lemma inputs_ok_settle_consent:
  assumes ok: "inputs_ok s" and cur: "current_inflight i s" and own: "owned_by s i"
    and data: "q_paste_data i = Some d"
  shows "inputs_ok ((hold_consent i (remove_inflight i s))\<lparr>settled := q_serial i # settled s\<rparr>)"
proof -
  let ?r = "remove_inflight i s\<lparr>settled := q_serial i # settled s\<rparr>"
  note len = retained_paste_bound [OF ok cur own data]
  have "inputs_ok (hold_consent i ?r)"
  proof (rule inputs_ok_hold_consent [OF inputs_ok_remove(1) [OF ok cur own] data len(1)])
    have "retained_input_bytes s \<le> int MAX_QUEUED_INPUT_BYTES + geometry_allowance s"
      using ok by (simp add: inputs_ok_def inputs_bounded_def)
    then show "retained_input_bytes ?r + int (length d) \<le> int MAX_QUEUED_INPUT_BYTES + geometry_allowance ?r"
      using len by (simp add: retained_input_bytes_def geometry_allowance_def remove_inflight_def)
  qed
  moreover have "hold_consent i ?r = (hold_consent i (remove_inflight i s))\<lparr>settled := q_serial i # settled s\<rparr>"
    by (rule plane.equality)
      (simp_all add: hold_consent_def release_unsafe_paste_consent_def new_consent_def)
  ultimately show ?thesis by simp
qed

lemma inputs_ok_settle:
  assumes ok: "inputs_ok s" and own: "owned_by s i"
  shows "inputs_ok (settle_inflight i oc detail acc wr s)"
proof (cases "current_inflight i s")
  case cur: True
  have [simp]: "settled (remove_inflight i s) = settled s" by (simp add: remove_inflight_def)
  show ?thesis
  proof (cases "consent_due i oc acc wr (remove_inflight i s)")
    case True
    then obtain d where d: "q_paste_data i = Some d" by (auto simp: consent_due_def)
    show ?thesis
      using cur True consent_held_ok [OF d retained_paste_bound(1) [OF ok cur own d]]
        inputs_ok_settle_consent [OF ok cur own d]
      by (simp add: settle_inflight_def Let_def inputs_ok_pump_inputs)
  next
    case False
    then show ?thesis
      using cur inputs_ok_remove(1) [OF ok cur own]
      by (simp add: settle_inflight_def Let_def inputs_ok_pump_inputs)
  qed
qed (simp add: settle_inflight_def ok)

lemma inputs_ok_release_unsent:
  "inputs_ok s \<Longrightarrow> owned_by s i \<Longrightarrow> inputs_ok (release_unsent_operation i s)"
  using inputs_ok_remove(2) [of s i]
  by (simp add: release_unsent_operation_def remove_inflight_def)

lemma held_owned:
  assumes "inputs_ok s" "(k, i) \<in> set (inflight_inputs s)"
  shows "owned_by s i"
proof -
  have d: "distinct (map (q_serial \<circ> snd) (inflight_inputs s))"
    using inputs_ok_serials [OF assms(1)] by (simp add: inflight_serials_def)
  have "j = i" if "(l, j) \<in> set (inflight_inputs s)" "q_serial j = q_serial i" for l j
    using d assms(2) that by (metis comp_apply distinct_map inj_onD snd_conv)
  then show ?thesis unfolding owned_by_def by (metis (mono_tags, lifting) case_prodI2 same_operation_refl)
qed

lemma inputs_ok_handle_result: "inputs_ok s \<Longrightarrow> inputs_ok (handle_input_result r s)"
  by (auto simp: handle_input_result_def Let_def intro!: inputs_ok_settle dest: map_of_SomeD
      intro: held_owned split: option.splits)

subsection \<open>Attachments\<close>

definition reader_cancelled :: "plane \<Rightarrow> effect list" where
  "reader_cancelled s = (case hydration s of None \<Rightarrow> []
     | Some h \<Rightarrow> if hy_reader h then [E_reader_cancel (hy_serial h)] else [])"

lemma cancel_hydration_form:
  "cancel_hydration s = s\<lparr>log := log s @ reader_cancelled s, hydration := None\<rparr>"
  by (rule plane.equality)
    (simp_all add: cancel_hydration_def reader_cancelled_def emit_def split: option.splits)

lemma reset_attachment_form:
  assumes "inputs_ok s"
  shows "reset_attachment_state reason s =
     s\<lparr>stream := None, attach_promise := None, generation := Suc (generation s),
       attached_received := False, accepted_epoch := None, hydration := None, route_generation := None,
       event_chain := Suc (event_chain s), send_chain := Suc (send_chain s),
       inflight_inputs := [], queued_inputs := [], queued_input_bytes := 0, inflight_input_bytes := 0,
       pending_unsafe_paste := None, consent_retained_bytes := 0, sent_geometry := None,
       geometry_operation := None, next_operation_id := 1,
       settled := rev (queued_serials s) @ rev (inflight_serials s) @ settled s,
       log := log s @ reader_cancelled s @ reports (outcome_listeners s)
         (map (unknown_report reason \<circ> snd) (inflight_inputs s)
          @ map (cancelled_report reason) (queued_inputs s)),
       paste_results := paste_results s @ paste_reports
         (map (unknown_report reason \<circ> snd) (inflight_inputs s)
          @ map (cancelled_report reason) (queued_inputs s)),
       current_modes := None\<rparr>"
proof -
  let ?t = "s\<lparr>stream := None, attach_promise := None, generation := Suc (generation s),
     attached_received := False, route_generation := None, accepted_epoch := None,
     log := log s @ reader_cancelled s, hydration := None,
     event_chain := Suc (event_chain s), send_chain := Suc (send_chain s)\<rparr>"
  have d: "distinct (map fst (inflight_inputs ?t))"
    "\<forall>(k, i) \<in> set (inflight_inputs ?t). k = if_operation_id i"
    using assms by (auto simp: inputs_ok_def inflight_keyed_def)
  have "reset_attachment_state reason s = (abandon_inputs reason ?t)\<lparr>current_modes := None\<rparr>"
    by (simp add: reset_attachment_state_def Let_def cancel_hydration_form reader_cancelled_def)
  also have "\<dots> = s\<lparr>stream := None, attach_promise := None, generation := Suc (generation s),
       attached_received := False, accepted_epoch := None, hydration := None, route_generation := None,
       event_chain := Suc (event_chain s), send_chain := Suc (send_chain s),
       inflight_inputs := [], queued_inputs := [], queued_input_bytes := 0, inflight_input_bytes := 0,
       pending_unsafe_paste := None, consent_retained_bytes := 0, sent_geometry := None,
       geometry_operation := None, next_operation_id := 1,
       settled := rev (queued_serials s) @ rev (inflight_serials s) @ settled s,
       log := log s @ reader_cancelled s @ reports (outcome_listeners s)
         (map (unknown_report reason \<circ> snd) (inflight_inputs s)
          @ map (cancelled_report reason) (queued_inputs s)),
       paste_results := paste_results s @ paste_reports
         (map (unknown_report reason \<circ> snd) (inflight_inputs s)
          @ map (cancelled_report reason) (queued_inputs s)),
       current_modes := None\<rparr>"
    by (subst abandon_inputs_closed_form [OF _ d])
      (simp, rule plane.equality, simp_all add: queued_serials_def inflight_serials_def)
  finally show ?thesis .
qed

lemma inputs_ok_reset:
  assumes "inputs_ok s"
  shows "inputs_ok (reset_attachment_state reason s)"
proof -
  define r where "r = reset_attachment_state reason s"
  note r = reset_attachment_form [OF assms, of reason, folded r_def]
  have "set (map (q_serial \<circ> tk_inflight) (send_tasks s)) \<subseteq>
      set (inflight_serials s) \<union> set (settled s) \<union> set (dropped s)"
    using assms by (auto simp: inputs_ok_def sends_owned_def)
  then have o: "sends_owned r" by (auto simp: sends_owned_def r)
  have "queued_inputs r = []" "inflight_inputs r = []" by (simp_all add: r)
  then have "queued_serials r = []" "inflight_serials r = []"
    by (simp_all add: queued_serials_def inflight_serials_def)
  then have c: "inputs_conserved r"
    using assms by (simp add: inputs_ok_def inputs_conserved_def) (simp add: r union_ac)
  have "inputs_ok r"
    using c o by (simp add: inputs_ok_def inputs_counted_def inflight_keyed_def inputs_bounded_def
        geometry_tracked_def pastes_held_def inputs_views r plane_bounds)
  then show ?thesis by (simp add: r_def)
qed

lemma inputs_ok_detach_request [simp]: "inputs_ok (send_detach_request_once sub g s) = inputs_ok s"
  by (simp add: send_detach_request_once_def emit_def)

lemma inputs_ok_abandon_stream [simp]: "inputs_ok (abandon_stream s) = inputs_ok s"
  by (simp add: abandon_stream_def emit_def split: option.splits)

lemma inputs_ok_close: "inputs_ok s \<Longrightarrow> inputs_ok (close_stream s)"
  by (simp add: close_stream_def inputs_ok_reset)

lemma inputs_ok_close_without: "inputs_ok s \<Longrightarrow> inputs_ok (close_stream_without_detach_request r s)"
  by (simp add: close_stream_without_detach_request_def inputs_ok_reset)

lemma inputs_ok_fail_route: "inputs_ok s \<Longrightarrow> inputs_ok (fail_route msg s)"
  by (simp add: fail_route_def inputs_ok_close emit_status_def emit_def)

lemma inputs_ok_serial: "inputs_ok s \<Longrightarrow> next_serial s \<le> n \<Longrightarrow> inputs_ok (s\<lparr>next_serial := n\<rparr>)"
  by (fastforce simp: inputs_ok_def inputs_parts inputs_views)

lemma inputs_ok_stream: "inputs_ok s \<Longrightarrow> inputs_ok (s\<lparr>stream := Some h\<rparr>)"
  by (simp add: inputs_ok_def inputs_parts inputs_views)

lemma inputs_ok_start_attach:
  assumes "inputs_ok s" "stream s = None"
  shows "inputs_ok (start_attach w s)"
proof -
  have "inflight_inputs s = []" using assms by (simp add: inputs_ok_def inflight_keyed_def)
  with assms show ?thesis
    by (auto simp: start_attach_def Let_def inputs_ok_serial)
      (auto simp: inputs_ok_def inputs_parts inputs_views less_Suc_eq)
qed

lemma inputs_ok_ensure_attached: "inputs_ok s \<Longrightarrow> inputs_ok (ensure_attached w s)"
  by (simp add: ensure_attached_def inputs_ok_start_attach add_waiter_def split: option.splits)

subsection \<open>Admission\<close>

definition entry_ok :: "queued_operation \<Rightarrow> bool" where
  "entry_ok e \<longleftrightarrow> (\<forall>d. q_paste_data e = Some d \<longrightarrow> body_bytes (q_operation e) = length d)"

lemma entry_ok_paste [simp]: "held = None \<or> held = Some data \<Longrightarrow> entry_ok (paste_entry data a held n r)"
  by (auto simp: entry_ok_def paste_entry_def encode_paste_operation_def)

lemma inputs_ok_admit:
  assumes ok: "inputs_ok s" and entry: "entry_ok e"
    and room: "length (queued_inputs s) < MAX_QUEUED_INPUT_OPERATIONS"
      "retained_input_bytes s + int (body_bytes (q_operation e)) \<le> int MAX_QUEUED_INPUT_BYTES"
  shows "inputs_ok (s\<lparr>queued_inputs := queued_inputs s @ [e\<lparr>q_serial := next_serial s\<rparr>],
           queued_input_bytes := queued_input_bytes s + int (body_bytes (q_operation e)),
           next_serial := Suc (next_serial s), admitted := next_serial s # admitted s\<rparr>)"
    (is "inputs_ok ?r")
proof -
  define r where "r = ?r"
  have c: "inputs_conserved r"
    using ok conserved_fresh [of s]
    by (auto simp: inputs_ok_def inputs_conserved_def queued_serials_def inflight_serials_def r_def)
  have k: "inputs_counted r" "inflight_keyed r" "geometry_tracked r" "sends_owned r"
    using ok by (simp_all add: inputs_ok_def inputs_parts inflight_serials_def r_def)
  have p: "pastes_held r"
    using ok entry by (auto simp: inputs_ok_def pastes_held_def consent_accounting_ok_def entry_ok_def r_def)
  have b: "inputs_bounded r"
    using ok room by (simp add: inputs_ok_def inputs_bounded_def retained_input_bytes_def
        geometry_allowance_def r_def)
  show ?thesis using c k p b by (simp add: inputs_ok_def r_def)
qed

lemma inputs_ok_enqueue:
  assumes "inputs_ok s" "entry_ok e"
  shows "inputs_ok (fst (enqueue_input e s))"
  using assms
  by (auto simp: enqueue_input_def Let_def intro!: inputs_ok_pump_inputs inputs_ok_ensure_attached
      inputs_ok_admit)

lemma inputs_ok_enqueue_pair: "enqueue_input e s = (s', b) \<Longrightarrow> inputs_ok s \<Longrightarrow> entry_ok e \<Longrightarrow> inputs_ok s'"
  using inputs_ok_enqueue [of s e] by simp

lemma inputs_ok_publish [simp]: "inputs_ok (publish_outcome oc s) = inputs_ok s"
  by (simp add: publish_outcome_def emit_def)

lemma inputs_ok_paste_refused [simp]: "inputs_ok (paste_refused r d n s) = inputs_ok s"
  by (simp add: paste_refused_def)

lemma inputs_ok_write_paste: "inputs_ok s \<Longrightarrow> inputs_ok (write_paste t s)"
  by (auto simp: write_paste_def Let_def inputs_ok_release_consent split: prod.splits bool.splits
      intro!: inputs_ok_release_consent elim!: inputs_ok_enqueue_pair)

lemma inputs_ok_resize: "inputs_ok s \<Longrightarrow> inputs_ok (resize g s)"
  by (simp add: resize_def inputs_ok_pump_inputs inputs_ok_ensure_attached)

lemma inputs_ok_send_input: "inputs_ok s \<Longrightarrow> inputs_ok (send_input inp s)"
  by (auto simp: send_input_def Let_def inputs_ok_resize inputs_ok_write_paste entry_ok_def
      split: semantic_input.splits prod.splits bool.splits elim!: inputs_ok_enqueue_pair)

lemma inputs_ok_confirm: "inputs_ok s \<Longrightarrow> inputs_ok (fst (confirm_unsafe_paste c s))"
  by (auto simp: confirm_unsafe_paste_def inputs_ok_release_consent split: option.splits prod.splits
      bool.splits elim!: inputs_ok_enqueue_pair)

lemma inputs_ok_cancel: "inputs_ok s \<Longrightarrow> inputs_ok (fst (cancel_unsafe_paste c s))"
  by (auto simp: cancel_unsafe_paste_def inputs_ok_release_consent split: option.splits)

subsection \<open>Route frames\<close>

lemmas effect_defs = emit_def emit_status_def emit_output_def receive_modes_def emit_process_exit_def

lemma inputs_ok_effects [simp]:
  "inputs_ok (emit es s) = inputs_ok s" "inputs_ok (emit_status st s) = inputs_ok s"
  "inputs_ok (emit_output d s) = inputs_ok s" "inputs_ok (receive_modes m s) = inputs_ok s"
  "inputs_ok (emit_process_exit code s) = inputs_ok s"
  "inputs_ok (update_hydration f s) = inputs_ok s" "inputs_ok (arm_hydration_progress_bound s) = inputs_ok s"
  "inputs_ok (cancel_reader s) = inputs_ok s" "inputs_ok (cancel_hydration s) = inputs_ok s"
  by (simp_all add: effect_defs update_hydration_def arm_hydration_progress_bound_def cancel_reader_def
      cancel_hydration_def split: option.splits)

lemma inputs_ok_ensure_hydration [simp]: "inputs_ok s \<Longrightarrow> inputs_ok (ensure_hydration g s)"
  by (simp add: ensure_hydration_def inputs_ok_serial split: option.splits)

lemma inputs_ok_fold_output [simp]: "inputs_ok (fold emit_output ds s) = inputs_ok s"
  by (induction ds arbitrary: s) simp_all

lemma inputs_ok_recover_route: "inputs_ok s \<Longrightarrow> inputs_ok (recover_route n msg s)"
  by (simp add: recover_route_def Let_def inputs_ok_fail_route inputs_ok_ensure_attached inputs_ok_serial
      inputs_ok_close)

lemma inputs_ok_receive:
  assumes "inputs_ok s"
  shows "inputs_ok (receive_output d g s)" "inputs_ok (receive_process_exit code g s)"
    "inputs_ok (complete_hydration msg s)" "inputs_ok (receive_history_unavailable reason g s)"
    "inputs_ok (receive_route_resync epoch g s)"
  using assms
  by (simp_all add: receive_output_def buffer_hydrating_output_def receive_process_exit_def Let_def
      complete_hydration_def receive_history_unavailable_def receive_route_resync_def
      inputs_ok_recover_route inputs_ok_pump_inputs inputs_ok_fail_route inputs_ok_release_consent
      split: option.splits)

lemma inputs_ok_receive_finish: "inputs_ok s \<Longrightarrow> inputs_ok (receive_snapshot_finish s)"
  by (simp add: receive_snapshot_finish_def Let_def inputs_ok_receive inputs_ok_fail_route
      split: option.splits)

lemma inputs_ok_attach_state: "inputs_ok s \<Longrightarrow> inputs_ok (receive_attach_state st g s)"
  by (simp add: receive_attach_state_def inputs_ok_pump_inputs inputs_ok_recover_route
      inputs_ok_fail_route inputs_ok_close split: attach_state.splits option.splits)

lemma inputs_ok_dispatch: "inputs_ok s \<Longrightarrow> inputs_ok (fst (dispatch_event ev g s))"
  by (simp add: dispatch_event_def Let_def inputs_ok_receive inputs_ok_receive_finish
      inputs_ok_attach_state inputs_ok_handle_result split: terminal_event.splits)

lemma inputs_ok_admit_generation: "inputs_ok s \<Longrightarrow> inputs_ok (fst (admit_route_generation r s))"
  by (simp add: admit_route_generation_def split: option.splits)

lemma inputs_ok_route_frame: "inputs_ok s \<Longrightarrow> inputs_ok (fst (receive_route_frame r epoch body g s))"
  using inputs_ok_admit_generation [of s r]
  by (auto simp: receive_route_frame_def inputs_ok_fail_route inputs_ok_dispatch
      split: sum.splits prod.splits bool.splits)

lemma inputs_ok_emit_event: "inputs_ok s \<Longrightarrow> inputs_ok (fst (emit_terminal_event ev g s))"
  by (simp add: emit_terminal_event_def inputs_ok_route_frame inputs_ok_close inputs_ok_close_without
      split: stream_event.splits)

lemma inputs_ok_install: "inputs_ok s \<Longrightarrow> inputs_ok (fst (install_begin g n p r s))"
  "inputs_ok s \<Longrightarrow> inputs_ok (install_finish g n r result s)"
  by (simp_all add: install_begin_def install_finish_def inputs_ok_fail_route inputs_ok_recover_route
      split: option.splits sum.splits snapshot_progress.splits)

lemma inputs_ok_run_event: "inputs_ok s \<Longrightarrow> inputs_ok (run_event c s)"
  using inputs_ok_emit_event [of "s\<lparr>event_tasks := ts\<rparr>" for ts]
    inputs_ok_install(1) [of "s\<lparr>event_tasks := ts\<rparr>" for ts]
  by (simp add: run_event_def Let_def case_prod_beta split: option.splits event_phase.splits)

lemma inputs_ok_reader_result: "inputs_ok s \<Longrightarrow> inputs_ok (reader_result c r s)"
  by (simp add: reader_result_def inputs_ok_install split: option.splits event_phase.splits)

subsection \<open>The send chain\<close>

definition task_ok :: "plane \<Rightarrow> send_task \<Rightarrow> bool" where
  "task_ok s t \<longleftrightarrow>
     q_serial (tk_inflight t) \<in> set (inflight_serials s) \<union> set (settled s) \<union> set (dropped s)
     \<and> owned_by s (tk_inflight t)"

lemma sends_owned_tasks: "sends_owned s \<longleftrightarrow> (\<forall>t \<in> set (send_tasks s). task_ok s t)"
  by (simp add: sends_owned_def task_ok_def owned_by_def)

lemma task_ok_frame [simp]:
  "task_ok (s\<lparr>log := a\<rparr>) t = task_ok s t" "task_ok (s\<lparr>sent_geometry := b\<rparr>) t = task_ok s t"
  "task_ok (s\<lparr>send_tasks := c\<rparr>) t = task_ok s t"
  by (simp_all add: task_ok_def owned_by_def inflight_serials_def)

lemma inputs_ok_tasks:
  "inputs_ok s \<Longrightarrow> \<forall>t \<in> set ts. task_ok s t \<Longrightarrow> inputs_ok (s\<lparr>send_tasks := ts\<rparr>)"
  by (simp add: inputs_ok_def sends_owned_tasks) (simp add: inputs_parts inputs_views)

lemma inputs_ok_task: "inputs_ok s \<Longrightarrow> t \<in> set (send_tasks s) \<Longrightarrow> task_ok s t"
  by (simp add: inputs_ok_def sends_owned_tasks)

lemma inputs_ok_push_task:
  assumes "inputs_ok s" "task_ok s t"
  shows "inputs_ok (s\<lparr>send_tasks := t\<lparr>tk_phase := ph\<rparr> # send_tasks s\<rparr>)"
proof (rule inputs_ok_tasks [OF assms(1)])
  have "task_ok s (t\<lparr>tk_phase := ph\<rparr>)" using assms(2) by (simp add: task_ok_def)
  then show "\<forall>u \<in> set (t\<lparr>tk_phase := ph\<rparr> # send_tasks s). task_ok s u"
    using inputs_ok_task [OF assms(1)] by simp
qed

lemma inputs_ok_drop_task:
  assumes "inputs_ok s"
  shows "inputs_ok (drop_send_task t s)"
  unfolding drop_send_task_def
proof (rule inputs_ok_tasks [OF assms], rule ballI)
  fix u assume "u \<in> set (remove1 t (send_tasks s))"
  then have "u \<in> set (send_tasks s)" using set_remove1_subset [of t "send_tasks s"] by (rule subsetD [rotated])
  then show "task_ok s u" by (rule inputs_ok_task [OF assms])
qed

lemma task_ok_drop [simp]: "task_ok (drop_send_task u s) t = task_ok s t"
  by (simp add: drop_send_task_def)

lemma first_send_task_in: "first_send_task c s = Some t \<Longrightarrow> t \<in> set (send_tasks s)"
  by (auto simp: first_send_task_def find_Some_iff)

lemma same_operation_payload [simp]:
  "same_operation i (j\<lparr>q_operation := op\<rparr>) = same_operation i j"
  by (cases i; cases j; simp add: same_operation_def)

lemma set_operation_form:
  "set_operation i op s = s\<lparr>inflight_inputs := map (\<lambda>(k, j). (k, j\<lparr>q_operation :=
     if current_inflight i s \<and> k = if_operation_id i then op else q_operation j\<rparr>)) (inflight_inputs s)\<rparr>"
proof -
  have "map (\<lambda>(k, j). (k, j\<lparr>q_operation := q_operation j\<rparr>)) (inflight_inputs s) = inflight_inputs s"
    by (rule map_idI) auto
  moreover have "map (\<lambda>(k, j). if k = n then (k, j\<lparr>q_operation := op\<rparr>) else (k, j)) xs =
      map (\<lambda>(k, j). (k, j\<lparr>q_operation := if k = n then op else q_operation j\<rparr>)) xs" for n and xs :: "(nat \<times> inflight_operation) list"
    by (rule map_cong) auto
  ultimately show ?thesis by (cases "current_inflight i s") (simp_all add: set_operation_def)
qed

lemma set_operation_inputs:
  "inflight_inputs (set_operation i op s) = map (\<lambda>(k, j). (k, j\<lparr>q_operation :=
     if current_inflight i s \<and> k = if_operation_id i then op else q_operation j\<rparr>)) (inflight_inputs s)"
  by (subst set_operation_form) simp

lemma map_payload_views:
  "map fst (map (\<lambda>(k, j). (k, j\<lparr>q_operation := f k j\<rparr>)) xs) = map fst xs"
  "map (q_serial \<circ> snd) (map (\<lambda>(k, j). (k, j\<lparr>q_operation := f k j\<rparr>)) xs) = map (q_serial \<circ> snd) xs"
  "map (if_retained_bytes \<circ> snd) (map (\<lambda>(k, j). (k, j\<lparr>q_operation := f k j\<rparr>)) xs) =
     map (if_retained_bytes \<circ> snd) (xs :: (nat \<times> inflight_operation) list)"
  by (induction xs) auto

lemma set_operation_views:
  "map fst (inflight_inputs (set_operation i op s)) = map fst (inflight_inputs s)"
  "inflight_serials (set_operation i op s) = inflight_serials s"
  "map (if_retained_bytes \<circ> snd) (inflight_inputs (set_operation i op s)) =
     map (if_retained_bytes \<circ> snd) (inflight_inputs s)"
  "length (inflight_inputs (set_operation i op s)) = length (inflight_inputs s)"
  by (simp_all only: set_operation_inputs inflight_serials_def map_payload_views length_map)

lemma set_operation_fields [simp]:
  "next_serial (set_operation i op s) = next_serial s" "settled (set_operation i op s) = settled s"
  "dropped (set_operation i op s) = dropped s" "admitted (set_operation i op s) = admitted s"
  "send_tasks (set_operation i op s) = send_tasks s" "queued_inputs (set_operation i op s) = queued_inputs s"
  "queued_input_bytes (set_operation i op s) = queued_input_bytes s"
  "inflight_input_bytes (set_operation i op s) = inflight_input_bytes s"
  "generation (set_operation i op s) = generation s" "stream (set_operation i op s) = stream s"
  "next_operation_id (set_operation i op s) = next_operation_id s"
  "consent_retained_bytes (set_operation i op s) = consent_retained_bytes s"
  "pending_unsafe_paste (set_operation i op s) = pending_unsafe_paste s"
  "geometry_operation (set_operation i op s) = geometry_operation s"
  by (simp_all add: set_operation_def)

lemma set_operation_all:
  "(\<forall>(k, j) \<in> set (inflight_inputs (set_operation i op s)). P k j) \<longleftrightarrow>
     (\<forall>(k, j) \<in> set (inflight_inputs s). P k (j\<lparr>q_operation :=
        if current_inflight i s \<and> k = if_operation_id i then op else q_operation j\<rparr>))"
  by (simp add: set_operation_inputs case_prod_beta)

lemma set_operation_ex:
  "(\<exists>(k, j) \<in> set (inflight_inputs (set_operation i op s)). P k j) \<longleftrightarrow>
     (\<exists>(k, j) \<in> set (inflight_inputs s). P k (j\<lparr>q_operation :=
        if current_inflight i s \<and> k = if_operation_id i then op else q_operation j\<rparr>))"
  by (simp add: set_operation_inputs case_prod_beta)

lemma task_ok_set_operation [simp]: "task_ok (set_operation i op s) t = task_ok s t"
  by (simp add: task_ok_def owned_by_def set_operation_views(2) set_operation_all)

lemma inputs_ok_set_operation:
  assumes "inputs_ok s"
  shows "inputs_ok (set_operation i op s)"
proof -
  have empty: "inflight_inputs (set_operation i op s) = [] \<longleftrightarrow> inflight_inputs s = []"
    using set_operation_views(4) [of i op s] by (metis length_0_conv)
  show ?thesis
    using assms
    by (simp add: inputs_ok_def sends_owned_tasks)
      (simp add: inputs_counted_def inflight_keyed_def inputs_bounded_def
        inputs_conserved_def geometry_tracked_def pastes_held_def queued_serials_def
        consent_accounting_ok_def retained_input_bytes_def geometry_allowance_def
        set_operation_views set_operation_all set_operation_ex empty)
qed

lemma inputs_ok_settle_task: "inputs_ok s \<Longrightarrow> task_ok s t \<Longrightarrow> inputs_ok (settle_cancelled (tk_inflight t) d s)"
  by (simp add: settle_cancelled_def inputs_ok_settle task_ok_def)

lemma inputs_ok_resend:
  assumes "inputs_ok s" "task_ok s t"
  shows "inputs_ok (emit es s\<lparr>send_tasks := t\<lparr>tk_phase := ph\<rparr> # send_tasks s\<rparr>)"
  using inputs_ok_push_task [of "emit es s" t ph] assms by (simp add: emit_def)

lemma send_tasks_emit [simp]: "send_tasks (emit es s) = send_tasks s"
  by (simp add: emit_def)

lemma inputs_ok_send_frames:
  assumes "inputs_ok s" "task_ok s t"
  shows "inputs_ok (send_frames t op s)"
proof -
  let ?s = "set_operation (tk_inflight t) (released_operation (if_retained_bytes (tk_inflight t))) s"
  have "inputs_ok ?s" "task_ok ?s t" using assms by (simp_all add: inputs_ok_set_operation)
  from inputs_ok_resend [OF this] show ?thesis
    by (auto simp: send_frames_def Let_def inputs_ok_set_operation [OF assms(1)]
        inputs_ok_settle_task [OF assms] split: sum.splits list.splits)
qed

lemma task_ok_release:
  "task_ok s t \<Longrightarrow> owned_by s (tk_inflight t)"
  by (simp add: task_ok_def)

lemma inputs_ok_start_send:
  assumes "inputs_ok s" "task_ok s t"
  shows "inputs_ok (start_send t s)"
  using assms
  by (simp add: start_send_def Let_def inputs_ok_settle_task inputs_ok_pump_inputs
      inputs_ok_release_unsent task_ok_release inputs_ok_send_frames inputs_ok_set_operation
      split: option.splits)

lemma inputs_ok_run_send: "inputs_ok s \<Longrightarrow> inputs_ok (run_send c s)"
  by (auto simp: run_send_def intro!: inputs_ok_start_send inputs_ok_drop_task
      dest: first_send_task_in inputs_ok_task split: option.splits)

lemma inputs_ok_frame_done:
  assumes "inputs_ok s"
  shows "inputs_ok (frame_sent c s)" "inputs_ok (frame_failed c err s)"
proof -
  have ok: "inputs_ok (drop_send_task t s)" "task_ok (drop_send_task t s) t"
    if "first_send_task c s = Some t" for t
    using assms that by (auto intro: inputs_ok_drop_task inputs_ok_task dest: first_send_task_in)
  show "inputs_ok (frame_sent c s)" "inputs_ok (frame_failed c err s)"
    using assms ok
    by (auto simp: frame_sent_def frame_failed_def Let_def intro!: inputs_ok_resend inputs_ok_settle_task
        split: option.splits send_phase.splits list.splits)
qed

subsection \<open>Attaching, transport and subscriptions\<close>

lemma inputs_ok_set_attach_phase [simp]: "inputs_ok (set_attach_phase p ph s) = inputs_ok s"
  by (simp add: set_attach_phase_def)

lemma inputs_ok_attach:
  assumes "inputs_ok s"
  shows "inputs_ok (attach_resume p r s)" "inputs_ok (stream_ready p route s)"
    "inputs_ok (stream_rejected p err s)"
  using assms
  by (simp_all add: attach_resume_def stream_ready_def stream_rejected_def Let_def inputs_ok_stream
      inputs_ok_serial emit_def split: option.splits attach_phase.splits open_result.splits)

lemma inputs_ok_status_funpow [simp]: "inputs_ok ((emit_status st ^^ n) s) = inputs_ok s"
  by (induction n) simp_all

lemma inputs_ok_attach_microtask: "inputs_ok s \<Longrightarrow> inputs_ok (attach_microtask p s)"
  by (simp add: attach_microtask_def Let_def split: option.splits attach_phase.splits)

lemma inputs_ok_transport_lost: "inputs_ok s \<Longrightarrow> inputs_ok (handle_transport_lost b s)"
  by (simp add: handle_transport_lost_def Let_def inputs_ok_close_without)

lemma inputs_ok_reattach: "inputs_ok s \<Longrightarrow> inputs_ok (reattach s)"
  by (simp add: reattach_def inputs_ok_ensure_attached)

lemma inputs_ok_transport_recovered: "inputs_ok s \<Longrightarrow> inputs_ok (handle_transport_recovered s)"
  by (simp add: handle_transport_recovered_def Let_def inputs_ok_reattach inputs_ok_serial
      split: option.splits prod.splits)

lemma inputs_ok_lifecycle: "inputs_ok s \<Longrightarrow> inputs_ok (handle_lifecycle_event ev b s)"
  by (simp add: handle_lifecycle_event_def Let_def inputs_ok_transport_lost inputs_ok_transport_recovered
      split: lifecycle_event.splits)

lemma inputs_ok_subscribe:
  assumes "inputs_ok s"
  shows "inputs_ok (subscribe_output l s)" "inputs_ok (unsubscribe_output l s)"
    "inputs_ok (subscribe_status l s)" "inputs_ok (unsubscribe_status l s)"
    "inputs_ok (subscribe_modes l s)" "inputs_ok (unsubscribe_modes l s)"
    "inputs_ok (subscribe_input_outcomes l s)" "inputs_ok (unsubscribe_input_outcomes l s)"
    "inputs_ok (detach s)"
  using assms
  by (simp_all add: subscribe_output_def unsubscribe_output_def subscribe_status_def
      unsubscribe_status_def subscribe_modes_def unsubscribe_modes_def subscribe_input_outcomes_def
      unsubscribe_input_outcomes_def detach_def Let_def inputs_ok_ensure_attached inputs_ok_close
      inputs_ok_close_without)

lemma inputs_ok_microtasks:
  assumes "inputs_ok s"
  shows "inputs_ok (recover_resume s)" "inputs_ok (recover_microtask s)" "inputs_ok (paste_microtask s)"
    "inputs_ok (consent_timer s)" "inputs_ok (hydration_timer s)"
  using assms
  by (simp_all add: recover_resume_def recover_microtask_def paste_microtask_def consent_timer_def
      hydration_timer_def Let_def inputs_ok_reattach inputs_ok_transport_recovered
      inputs_ok_release_consent inputs_ok_recover_route split: nat.splits list.splits option.splits)

lemmas inputs_ok_steps = inputs_ok_send_input inputs_ok_resize inputs_ok_write_paste
  inputs_ok_confirm inputs_ok_cancel inputs_ok_subscribe inputs_ok_lifecycle inputs_ok_run_event
  inputs_ok_reader_result inputs_ok_run_send inputs_ok_frame_done inputs_ok_attach
  inputs_ok_attach_microtask inputs_ok_microtasks

lemma inputs_ok_step: "inputs_ok s \<Longrightarrow> inputs_ok (plane_step ev s)"
  by (cases ev) (simp_all add: inputs_ok_steps enqueue_terminal_event_def split: option.splits)

definition fresh_plane :: "plane \<Rightarrow> bool" where
  "fresh_plane s \<longleftrightarrow> (\<exists>session sub. s = new_plane session sub)"

interpretation input_system: step_system fresh_plane plane_step inputs_ok
proof unfold_locales
  show "inputs_ok s" if "fresh_plane s" for s
    using that by (auto simp: fresh_plane_def new_plane_def inputs_ok_def inputs_parts inputs_views
        plane_bounds)
qed (rule inputs_ok_step)

lemma run_inputs_ok: "inputs_ok (run_plane es (new_plane session sub))"
  unfolding run_plane_def by (rule input_system.run_inv) (auto simp: fresh_plane_def)

subsection \<open>Properties\<close>

text \<open>
  C2. After any sequence of calls, frames, timers and transport events, the client holds at most
  32 operations in flight and 256 in its queue, and the bytes it retains (queued, in flight and
  held for a paste decision) are within the 2 MiB retained-byte bound, except for at most one
  12-byte RESIZE body, which the window takes without asking.
\<close>

theorem input_bounds_hold:
  "let s = run_plane es (new_plane session sub) in
     length (inflight_inputs s) \<le> 32 \<and> length (queued_inputs s) \<le> 256
     \<and> retained_input_bytes s \<le> 2 * 1024 * 1024 + (if geometry_operation s = None then 0 else 12)"
  using run_inputs_ok [of es session sub]
  by (auto simp: Let_def inputs_ok_def inputs_bounded_def geometry_allowance_def RESIZE_BODY_BYTES_def
      plane_bounds)

text \<open>
  The byte counters never drift: after any run, \<open>queuedInputBytes\<close> is the sum of the queued
  payloads, \<open>inflightInputBytes\<close> the sum of what the in-flight operations retain, and the
  consent count is the length of the paste held for a decision (so the accounting check that
  would throw never fails).
\<close>

theorem input_bytes_counted:
  "let s = run_plane es (new_plane session sub) in
     queued_input_bytes s = int (sum_list (map (body_bytes \<circ> q_operation) (queued_inputs s)))
     \<and> inflight_input_bytes s = int (sum_list (map (if_retained_bytes \<circ> snd) (inflight_inputs s)))
     \<and> consent_retained_bytes s =
         (case pending_unsafe_paste s of None \<Rightarrow> 0 | Some p \<Rightarrow> int (length (pp_data p)))"
  using run_inputs_ok [of es session sub]
  by (simp add: Let_def inputs_ok_def inputs_counted_def pastes_held_def consent_accounting_ok_def)

text \<open>
  The in-flight map belongs to the current attachment: after any run its keys are the
  operations' own ids, they are distinct and below the next id to give out, every operation was
  sent for the current attachment generation, and without a stream nothing is in flight.
\<close>

theorem inflight_belongs_to_attachment:
  "let s = run_plane es (new_plane session sub) in
     distinct (map fst (inflight_inputs s))
     \<and> list_all (\<lambda>(k, i). k = if_operation_id i \<and> k < next_operation_id s
          \<and> if_generation i = generation s) (inflight_inputs s)
     \<and> \<not> (stream s = None \<and> inflight_inputs s \<noteq> [])"
  using run_inputs_ok [of es session sub]
  by (auto simp: Let_def inputs_ok_def inflight_keyed_def list_all_iff)

text \<open>
  Closing an attachment reports every operation it held, each once and in order: what was in
  flight is \<open>outcome_unknown\<close>, what was still queued is \<open>cancelled\<close> without an operation id, and
  nothing is left queued, in flight, retained or held for a paste decision. The next attachment
  counts its operation ids from 1.
\<close>

theorem reset_reports_every_input:
  "let s = run_plane es (new_plane session sub);
       r = reset_attachment_state reason s;
       answers = map (unknown_report reason \<circ> snd) (inflight_inputs s)
         @ map (cancelled_report reason) (queued_inputs s)
   in log r = log s @ reader_cancelled s @ reports (outcome_listeners s) answers
      \<and> paste_results r = paste_results s @ paste_reports answers
      \<and> queued_inputs r = [] \<and> inflight_inputs r = [] \<and> retained_input_bytes r = 0
      \<and> pending_unsafe_paste r = None \<and> next_operation_id r = 1
      \<and> generation r = Suc (generation s)"
  using run_inputs_ok [of es session sub]
  by (simp add: Let_def reset_attachment_form retained_input_bytes_def)

lemma pending_pump [simp]: "pending_unsafe_paste (pump_inputs s) = pending_unsafe_paste s"
proof -
  have "pending_unsafe_paste (pump_loop h es u) = pending_unsafe_paste u" for h es u
    by (induction h es u rule: pump_loop.induct) (simp_all add: append_operation_def Let_def)
  moreover have "pending_unsafe_paste (maybe_send_geometry u) = pending_unsafe_paste u" for u
    by (simp add: maybe_send_geometry_def append_operation_def Let_def split: option.splits)
  ultimately show ?thesis by (simp add: pump_inputs_def Let_def split: option.splits)
qed

lemma pending_ensure_attached [simp]: "pending_unsafe_paste (ensure_attached w s) = pending_unsafe_paste s"
  by (simp add: ensure_attached_def start_attach_def add_waiter_def Let_def split: option.splits)

text \<open>
  C36. An unsafe paste is released by its own decision, once, in time: confirming succeeds only
  with the token of the paste that is held, before it expires and for the current attachment; the
  held bytes are then queued with the allow flag, and the token is spent for confirm and cancel.
\<close>

theorem consent_spent_once:
  assumes "confirm_unsafe_paste c s = (s', True)"
  shows "\<exists>p. pending_unsafe_paste s = Some p \<and> pp_consent p = c
      \<and> is_current_attachment (pc_generation c) s \<and> clock s < pc_expires_at c
      \<and> enqueue_input (paste_entry (pp_data p) True None None Resolve_confirm)
          (release_unsafe_paste_consent s) = (s', True)
      \<and> confirm_unsafe_paste c s' = (s', False) \<and> cancel_unsafe_paste c s' = (s', False)"
proof -
  have "\<exists>p. pending_unsafe_paste s = Some p \<and> pp_consent p = c
      \<and> is_current_attachment (pc_generation c) s \<and> clock s < pc_expires_at c
      \<and> enqueue_input (paste_entry (pp_data p) True None None Resolve_confirm)
          (release_unsafe_paste_consent s) = (s', True)"
    using assms by (auto simp: confirm_unsafe_paste_def split: option.splits if_splits prod.splits bool.splits)
  moreover from this have "pending_unsafe_paste s' = None"
    by (auto simp: enqueue_input_def Let_def release_unsafe_paste_consent_def split: if_splits)
  then have "confirm_unsafe_paste c s' = (s', False) \<and> cancel_unsafe_paste c s' = (s', False)"
    by (simp add: confirm_unsafe_paste_def cancel_unsafe_paste_def)
  ultimately show ?thesis by blast
qed

definition sample_consent :: paste_consent where
  "sample_consent = \<lparr>pc_generation = 1, pc_operation_id = 1, pc_expires_at = 30000\<rparr>"

lemma consent_spent_once_witness:
  "let s = (new_plane ''a'' None)\<lparr>generation := 1, pending_unsafe_paste :=
         Some \<lparr>pp_consent = sample_consent, pp_data = [10, 65]\<rparr>, consent_retained_bytes := 2\<rparr>;
       s' = fst (confirm_unsafe_paste sample_consent s)
   in map q_kind (queued_inputs s') = [K_paste] \<and> confirm_unsafe_paste sample_consent s' = (s', False)"
proof -
  let ?s = "(new_plane ''a'' None)\<lparr>generation := 1, pending_unsafe_paste :=
     Some \<lparr>pp_consent = sample_consent, pp_data = [10, 65]\<rparr>, consent_retained_bytes := 2\<rparr>"
  have q: "snd (confirm_unsafe_paste sample_consent ?s) \<and>
      map q_kind (queued_inputs (fst (confirm_unsafe_paste sample_consent ?s))) = [K_paste]"
    by (simp add: confirm_unsafe_paste_def sample_consent_def is_current_attachment_def new_plane_def
        release_unsafe_paste_consent_def enqueue_input_def Let_def plane_bounds retained_input_bytes_def
        paste_entry_def encode_paste_operation_def pump_inputs_def sendable_stream_def
        ensure_attached_def start_attach_def)
  then have "confirm_unsafe_paste sample_consent ?s = (fst (confirm_unsafe_paste sample_consent ?s), True)"
    by (simp add: prod_eq_iff)
  from consent_spent_once [OF this] q show ?thesis by (auto simp: Let_def)
qed

end
