(* ===== verification/Data_Plane_Route.thy ===== *)
theory Data_Plane_Route
  imports Data_Plane_Inputs
begin

text \<open>
  The attachment side of the data plane over whole runs: the hydration buffer's bounds, what
  each attachment generation may still do, that live output waits for the restored screen, that
  queued input and the latest geometry never wait while the window has room, and that a
  detached plane stays silent.
\<close>

subsection \<open>The attachment invariant\<close>

definition hydration_fits :: "screen_hydration \<Rightarrow> bool" where
  "hydration_fits h \<longleftrightarrow>
     hy_buffered_bytes h = sum_list (map length (hy_buffered_output h))
     \<and> length (hy_buffered_output h) \<le> MAX_PENDING_TERMINAL_ITEMS
     \<and> hy_buffered_bytes h \<le> MAX_PENDING_TERMINAL_BYTES
     \<and> (hy_completed h \<longrightarrow> hy_buffered_output h = [] \<and> \<not> hy_timer h \<and> hy_ready_received h)"

definition hydration_bounded :: "plane \<Rightarrow> bool" where
  "hydration_bounded s \<longleftrightarrow>
     (\<forall>h. hydration s = Some h \<longrightarrow> hydration_fits h \<and> hy_generation h \<le> generation s)
     \<and> snapshot_recoveries s \<le> 1"

definition stream_hydrated :: "plane \<Rightarrow> bool" where
  "stream_hydrated s \<longleftrightarrow>
     (stream s \<noteq> None \<longrightarrow> (\<exists>h. hydration s = Some h \<and> hy_generation h = generation s))
     \<and> (accepted_epoch s \<noteq> None \<longrightarrow> attached_received s)
     \<and> (attached_received s \<longrightarrow> stream s \<noteq> None)"

text \<open>A generation a task or a stream's callback may still act for.\<close>

definition opened_generation :: "plane \<Rightarrow> nat \<Rightarrow> bool" where
  "opened_generation s g \<longleftrightarrow> g \<le> generation s \<and> (stream s = None \<longrightarrow> g < generation s)"

definition generations_ok :: "plane \<Rightarrow> bool" where
  "generations_ok s \<longleftrightarrow>
     (\<forall>(n, g) \<in> set (opened_streams s). opened_generation s g)
     \<and> (\<forall>t \<in> set (event_tasks s). opened_generation s (et_generation t))"

text \<open>A pending attach is for an older generation, or it is the one \<open>attachPromise\<close> holds.\<close>

definition hook_ok :: "plane \<Rightarrow> attach_task \<Rightarrow> bool" where
  "hook_ok s t \<longleftrightarrow> at_serial t < next_serial s
     \<and> (\<forall>g. at_phase t = Attach_hook g \<longrightarrow> g \<le> generation s
          \<and> (g = generation s \<longrightarrow> stream s = None \<and> attach_promise s = Some (at_serial t)))"

definition hooks_ok :: "plane \<Rightarrow> bool" where
  "hooks_ok s \<longleftrightarrow> (\<forall>t \<in> set (attach_tasks s). hook_ok s t)"

definition attach_ok :: "plane \<Rightarrow> bool" where
  "attach_ok s \<longleftrightarrow> hydration_bounded s \<and> stream_hydrated s \<and> generations_ok s \<and> hooks_ok s"

lemmas attach_parts = hydration_bounded_def stream_hydrated_def generations_ok_def hooks_ok_def
  opened_generation_def hook_ok_def

lemma attach_ok_frame [simp]:
  "attach_ok (s\<lparr>log := a1\<rparr>) = attach_ok s"
  "attach_ok (s\<lparr>paste_results := a2\<rparr>) = attach_ok s"
  "attach_ok (s\<lparr>current_status := a3\<rparr>) = attach_ok s"
  "attach_ok (s\<lparr>current_modes := a4\<rparr>) = attach_ok s"
  "attach_ok (s\<lparr>listeners := a5\<rparr>) = attach_ok s"
  "attach_ok (s\<lparr>status_listeners := a6\<rparr>) = attach_ok s"
  "attach_ok (s\<lparr>modes_listeners := a7\<rparr>) = attach_ok s"
  "attach_ok (s\<lparr>outcome_listeners := a8\<rparr>) = attach_ok s"
  "attach_ok (s\<lparr>detached := a10\<rparr>) = attach_ok s"
  "attach_ok (s\<lparr>transport_lost := a11\<rparr>) = attach_ok s"
  "attach_ok (s\<lparr>route_generation := a13\<rparr>) = attach_ok s"
  "attach_ok (s\<lparr>detach_sent_for := a15\<rparr>) = attach_ok s"
  "attach_ok (s\<lparr>last_abandoned := a16\<rparr>) = attach_ok s"
  "attach_ok (s\<lparr>lifecycle_subscribed := a17\<rparr>) = attach_ok s"
  "attach_ok (s\<lparr>reader_factory := a19\<rparr>) = attach_ok s"
  "attach_ok (s\<lparr>desired_geometry := a21\<rparr>) = attach_ok s"
  "attach_ok (s\<lparr>sent_geometry := a22\<rparr>) = attach_ok s"
  "attach_ok (s\<lparr>geometry_operation := a33\<rparr>) = attach_ok s"
  "attach_ok (s\<lparr>paste_attempt := a23\<rparr>) = attach_ok s"
  "attach_ok (s\<lparr>send_chain := a24\<rparr>) = attach_ok s"
  "attach_ok (s\<lparr>event_chain := a25\<rparr>) = attach_ok s"
  "attach_ok (s\<lparr>send_tasks := a26\<rparr>) = attach_ok s"
  "attach_ok (s\<lparr>recover_microtasks := a28\<rparr>) = attach_ok s"
  "attach_ok (s\<lparr>recover_waits := a29\<rparr>) = attach_ok s"
  "attach_ok (s\<lparr>clock := a31\<rparr>) = attach_ok s"
  "attach_ok (s\<lparr>subscription := a32\<rparr>) = attach_ok s"
  "attach_ok (s\<lparr>inflight_inputs := a34\<rparr>) = attach_ok s"
  "attach_ok (s\<lparr>inflight_input_bytes := a35\<rparr>) = attach_ok s"
  "attach_ok (s\<lparr>queued_inputs := a36\<rparr>) = attach_ok s"
  "attach_ok (s\<lparr>queued_input_bytes := a37\<rparr>) = attach_ok s"
  "attach_ok (s\<lparr>next_operation_id := a38\<rparr>) = attach_ok s"
  "attach_ok (s\<lparr>pending_unsafe_paste := a39\<rparr>) = attach_ok s"
  "attach_ok (s\<lparr>consent_retained_bytes := a40\<rparr>) = attach_ok s"
  "attach_ok (s\<lparr>admitted := a41\<rparr>) = attach_ok s"
  "attach_ok (s\<lparr>pasted := a44\<rparr>) = attach_ok s"
  "attach_ok (s\<lparr>settled := a42\<rparr>) = attach_ok s"
  "attach_ok (s\<lparr>dropped := a43\<rparr>) = attach_ok s"
  by (simp_all add: attach_ok_def attach_parts)

lemma hook_ok_serial: "hook_ok s t \<Longrightarrow> next_serial s \<le> n \<Longrightarrow> hook_ok (s\<lparr>next_serial := n\<rparr>) t"
  by (simp add: hook_ok_def split: attach_phase.splits)

lemma hook_ok_Suc:
  "hook_ok s t \<Longrightarrow> hook_ok (s\<lparr>generation := Suc (generation s), stream := h, attach_promise := a\<rparr>) t"
  by (fastforce simp: hook_ok_def)

lemma opened_generation_Suc:
  "opened_generation s g \<Longrightarrow> opened_generation (s\<lparr>generation := Suc (generation s), stream := h\<rparr>) g"
  by (simp add: opened_generation_def)

lemma attach_ok_serial: "attach_ok s \<Longrightarrow> next_serial s \<le> n \<Longrightarrow> attach_ok (s\<lparr>next_serial := n\<rparr>)"
  using hook_ok_serial [of s _ n]
  by (auto simp: attach_ok_def hooks_ok_def hydration_bounded_def stream_hydrated_def
      generations_ok_def opened_generation_def)

subsection \<open>Input operations leave the attachment alone\<close>

lemma attach_ok_append [simp]: "attach_ok (append_operation e h s) = attach_ok s"
  by (simp add: append_operation_def Let_def)

lemma attach_ok_maybe_send_geometry: "attach_ok s \<Longrightarrow> attach_ok (maybe_send_geometry s)"
  by (simp add: maybe_send_geometry_def attach_ok_serial append_operation_def Let_def split: option.splits)

lemma attach_ok_pump_loop [simp]: "attach_ok (pump_loop h es s) = attach_ok s"
  by (induction h es s rule: pump_loop.induct) simp_all

lemma attach_ok_pump: "attach_ok s \<Longrightarrow> attach_ok (pump_inputs s)"
  by (simp add: pump_inputs_def Let_def attach_ok_maybe_send_geometry split: option.splits)

lemma attach_ok_inputs [simp]:
  "attach_ok (remove_inflight i s) = attach_ok s" "attach_ok (release_unsent_operation i s) = attach_ok s"
  "attach_ok (release_unsafe_paste_consent s) = attach_ok s" "attach_ok (hold_consent i s) = attach_ok s"
  "attach_ok (resolve_outcome r oc s) = attach_ok s" "attach_ok (publish_outcome oc s) = attach_ok s"
  "attach_ok (paste_refused a b c s) = attach_ok s" "attach_ok (cancel_queued reason e s) = attach_ok s"
  "attach_ok (set_operation i op s) = attach_ok s" "attach_ok (drop_send_task t s) = attach_ok s"
  by (simp_all add: remove_inflight_def release_unsent_operation_def release_unsafe_paste_consent_def
      hold_consent_def publish_outcome_def emit_def paste_refused_def cancel_queued_def
      set_operation_def drop_send_task_def resolve_outcome_reports)

lemma attach_ok_effects [simp]:
  "attach_ok (emit es s) = attach_ok s" "attach_ok (emit_status st s) = attach_ok s"
  "attach_ok (emit_output d s) = attach_ok s" "attach_ok (receive_modes m s) = attach_ok s"
  "attach_ok (emit_process_exit code s) = attach_ok s" "attach_ok (cancel_reader s) = attach_ok s"
  "attach_ok (send_detach_request_once sub g s) = attach_ok s" "attach_ok (abandon_stream s) = attach_ok s"
  by (simp_all add: effect_defs cancel_reader_def send_detach_request_once_def abandon_stream_def
      split: option.splits)

lemma attach_ok_settle: "attach_ok s \<Longrightarrow> attach_ok (settle_inflight i oc d acc wr s)"
  by (simp add: settle_inflight_def Let_def attach_ok_pump)

lemma attach_ok_settle_cancelled: "attach_ok s \<Longrightarrow> attach_ok (settle_cancelled i d s)"
  by (simp add: settle_cancelled_def attach_ok_settle)

lemma attach_ok_handle_result: "attach_ok s \<Longrightarrow> attach_ok (handle_input_result r s)"
  by (simp add: handle_input_result_def attach_ok_settle split: option.splits)

subsection \<open>Attaching and resetting\<close>

lemma attach_ok_drop:
  assumes "attach_ok s"
  shows "attach_ok (s\<lparr>stream := None, attach_promise := None, generation := Suc (generation s),
           attached_received := False, accepted_epoch := None, hydration := None\<rparr>)" (is "attach_ok ?r")
proof -
  have "hook_ok ?r t" if "hook_ok s t" for t
    using hook_ok_Suc [OF that, of None None] by (simp add: hook_ok_def)
  moreover have "opened_generation ?r g" if "opened_generation s g" for g
    using opened_generation_Suc [OF that, of None] by (simp add: opened_generation_def)
  ultimately show ?thesis
    using assms by (auto simp: attach_ok_def hooks_ok_def generations_ok_def hydration_bounded_def
        stream_hydrated_def)
qed

lemma attach_ok_reset: "inputs_ok s \<Longrightarrow> attach_ok s \<Longrightarrow> attach_ok (reset_attachment_state reason s)"
  using attach_ok_drop [of s] by (simp add: reset_attachment_form)

lemma attach_ok_close:
  "inputs_ok s \<Longrightarrow> attach_ok s \<Longrightarrow> attach_ok (close_stream s)"
  "inputs_ok s \<Longrightarrow> attach_ok s \<Longrightarrow> attach_ok (close_stream_without_detach_request r s)"
  by (simp_all add: close_stream_def close_stream_without_detach_request_def attach_ok_reset)

lemma attach_ok_fail_route: "inputs_ok s \<Longrightarrow> attach_ok s \<Longrightarrow> attach_ok (fail_route msg s)"
  by (simp add: fail_route_def attach_ok_close)

lemma attach_ok_start_attach:
  assumes "attach_ok s" "stream s = None" "attach_promise s = None"
  shows "attach_ok (start_attach w s)" (is "attach_ok ?r")
proof -
  have ok: "accepted_epoch s = None" "\<not> attached_received s" "\<forall>t \<in> set (attach_tasks s). hook_ok s t"
    using assms by (auto simp: attach_ok_def stream_hydrated_def hooks_ok_def)
  have "hook_ok ?r t" if "hook_ok s t" for t
    using that assms(2,3) by (fastforce simp: start_attach_def Let_def hook_ok_def)
  moreover have "hook_ok ?r t" if "t \<in> set (attach_tasks ?r)" "t \<notin> set (attach_tasks s)" for t
    using that assms(2,3) by (auto simp: start_attach_def Let_def hook_ok_def split: if_splits)
  ultimately have "hooks_ok ?r" using ok(3) unfolding hooks_ok_def by blast
  moreover have "opened_generation ?r g" if "opened_generation s g" for g
    using that assms(2) by (simp add: start_attach_def Let_def opened_generation_def)
  then have "generations_ok ?r"
    using assms(1) by (auto simp: attach_ok_def generations_ok_def start_attach_def Let_def)
  moreover have "hydration_bounded ?r"
    using assms(1) by (auto simp: attach_ok_def hydration_bounded_def start_attach_def Let_def)
  moreover have "stream_hydrated ?r"
    using assms ok by (simp add: stream_hydrated_def start_attach_def Let_def)
  ultimately show ?thesis by (simp add: attach_ok_def)
qed

lemma attach_ok_ensure_attached:
  assumes "attach_ok s"
  shows "attach_ok (ensure_attached w s)"
proof -
  have "hook_ok (add_waiter p w s) u" if "u \<in> set (attach_tasks (add_waiter p w s))" for p u
  proof -
    from that obtain t where t: "t \<in> set (attach_tasks s)" "at_serial u = at_serial t" "at_phase u = at_phase t"
      by (auto simp: add_waiter_def split: if_splits)
    then have "hook_ok s t" using assms by (simp add: attach_ok_def hooks_ok_def)
    with t show ?thesis by (simp add: hook_ok_def add_waiter_def)
  qed
  then have "attach_ok (add_waiter p w s)" for p
    using assms by (simp add: attach_ok_def hooks_ok_def)
      (simp add: add_waiter_def hydration_bounded_def stream_hydrated_def generations_ok_def opened_generation_def)
  then show ?thesis
    using assms by (simp add: ensure_attached_def attach_ok_start_attach split: option.splits)
qed

subsection \<open>Hydration\<close>

lemma attach_ok_update_hydration:
  assumes "attach_ok s"
    "\<And>h. hydration s = Some h \<Longrightarrow> hydration_fits h \<Longrightarrow> hydration_fits (f h) \<and> hy_generation (f h) = hy_generation h"
  shows "attach_ok (update_hydration f s)"
  using assms
  by (auto simp: update_hydration_def attach_ok_def hydration_bounded_def stream_hydrated_def
      generations_ok_def hooks_ok_def opened_generation_def hook_ok_def)

lemma attach_ok_arm: "attach_ok s \<Longrightarrow> attach_ok (arm_hydration_progress_bound s)"
  unfolding arm_hydration_progress_bound_def
  by (rule attach_ok_update_hydration) (auto simp: hydration_fits_def)

lemma hydration_fits_new [simp]: "hydration_fits (new_hydration n g b)"
  by (simp add: hydration_fits_def new_hydration_def)

lemma hy_generation_new [simp]:
  "hy_generation (new_hydration n g b) = g" "hy_completed (new_hydration n g b) = False"
  by (simp_all add: new_hydration_def)

lemma attach_ok_ensure_hydration:
  assumes "attach_ok s" "g = generation s"
  shows "attach_ok (ensure_hydration g s)"
  using assms attach_ok_serial [OF assms(1), of "Suc (next_serial s)"]
  by (auto simp: ensure_hydration_def attach_ok_def hydration_bounded_def stream_hydrated_def
      generations_ok_def hooks_ok_def opened_generation_def hook_ok_def split: option.splits)

lemma ensure_hydration_fields [simp]:
  "generation (ensure_hydration g s) = generation s" "detached (ensure_hydration g s) = detached s"
  "stream (ensure_hydration g s) = stream s" "listeners (ensure_hydration g s) = listeners s"
  "attached_received (ensure_hydration g s) = attached_received s"
  "log (ensure_hydration g s) = log s" "attach_promise (ensure_hydration g s) = attach_promise s"
  "event_tasks (ensure_hydration g s) = event_tasks s" "attach_tasks (ensure_hydration g s) = attach_tasks s"
  by (simp_all add: ensure_hydration_def split: option.splits)

lemma ensure_hydration_current:
  "\<exists>h. hydration (ensure_hydration g s) = Some h \<and> hy_generation h = g"
  by (simp add: ensure_hydration_def split: option.splits)

lemma attach_ok_fold_output [simp]: "attach_ok (fold emit_output ds s) = attach_ok s"
  by (induction ds arbitrary: s) simp_all

text \<open>The hydration a handler works on is the current attachment's.\<close>

definition hydrates_current :: "plane \<Rightarrow> bool" where
  "hydrates_current s \<longleftrightarrow> (\<forall>h. hydration s = Some h \<longrightarrow> is_current_attachment (hy_generation h) s)"

lemma emit_status_fields [simp]:
  "hydration (emit_status st s) = hydration s" "generation (emit_status st s) = generation s"
  "detached (emit_status st s) = detached s" "hydration (emit es s) = hydration s"
  "stream (emit_status st s) = stream s" "hydration (cancel_reader s) = hydration s"
  "is_current_attachment g (emit_status st s) = is_current_attachment g s"
  "is_current_attachment g (cancel_reader s) = is_current_attachment g s"
  by (simp_all add: effect_defs cancel_reader_def is_current_attachment_def split: option.splits)

lemma update_hydration_fields [simp]:
  "hydration (update_hydration f s) = map_option f (hydration s)"
  "generation (update_hydration f s) = generation s" "detached (update_hydration f s) = detached s"
  "is_current_attachment g (update_hydration f s) = is_current_attachment g s"
  "update_hydration f (update_hydration f' s) = update_hydration (f \<circ> f') s"
  by (simp_all add: update_hydration_def is_current_attachment_def option.map_comp)

lemma update_hydration_emit [simp]:
  "update_hydration f (emit_status st s) = emit_status st (update_hydration f s)"
  "update_hydration f (emit_output d s) = emit_output d (update_hydration f s)"
  by (rule plane.equality; simp add: update_hydration_def effect_defs)+

lemma update_hydration_fold_output:
  "update_hydration f (fold emit_output ds s) = fold emit_output ds (update_hydration f s)"
  by (induction ds arbitrary: s) simp_all

lemma attach_ok_complete_hydration:
  assumes "attach_ok s" "hydrates_current s" "\<And>h. hydration s = Some h \<Longrightarrow> hy_ready_received h"
  shows "attach_ok (complete_hydration msg s)"
proof (cases "hydration s")
  case (Some h)
  let ?f = "(\<lambda>h. h\<lparr>hy_buffered_output := [], hy_buffered_bytes := 0\<rparr>)
     \<circ> (\<lambda>h. h\<lparr>hy_completed := True, hy_timer := False\<rparr>)"
  have "is_current_attachment (hy_generation h) s" using assms(2) Some by (simp add: hydrates_current_def)
  moreover have "attach_ok (update_hydration ?f s)"
    by (rule attach_ok_update_hydration [OF assms(1)])
      (use assms(3) in \<open>auto simp: hydration_fits_def plane_bounds\<close>)
  ultimately show ?thesis
    using assms(1) Some
    by (simp add: complete_hydration_def Let_def update_hydration_fold_output attach_ok_pump
        split: option.splits)
qed (simp add: complete_hydration_def assms(1))

lemma attach_ok_cancel_reader_update:
  "attach_ok s \<Longrightarrow> attach_ok (update_hydration (\<lambda>h. h\<lparr>hy_history_incomplete := True\<rparr>) s)"
  "attach_ok s \<Longrightarrow> attach_ok (update_hydration (\<lambda>h. h\<lparr>hy_finish_received := True\<rparr>) s)"
  "attach_ok s \<Longrightarrow> attach_ok (update_hydration (\<lambda>h. h\<lparr>hy_decoder_finished := True\<rparr>) s)"
  "attach_ok s \<Longrightarrow> attach_ok (update_hydration (\<lambda>h. h\<lparr>hy_ready_received := True\<rparr>) s)"
  "attach_ok s \<Longrightarrow> attach_ok (update_hydration (\<lambda>h. h\<lparr>hy_timer := False\<rparr>) s)"
  "attach_ok s \<Longrightarrow> attach_ok (update_hydration (\<lambda>h. h\<lparr>hy_pending_exit := e\<rparr>) s)"
  "attach_ok s \<Longrightarrow> attach_ok (update_hydration ((\<lambda>h. h\<lparr>hy_history_incomplete := True\<rparr>)
     \<circ> (\<lambda>h. h\<lparr>hy_finish_received := True\<rparr>)) s)"
  by (rule attach_ok_update_hydration; simp add: hydration_fits_def)+

lemma attach_ok_snapshot_finish:
  assumes "inputs_ok s" "attach_ok s" "hydrates_current s"
  shows "attach_ok (receive_snapshot_finish s)"
  using assms
  by (simp add: receive_snapshot_finish_def Let_def attach_ok_fail_route split: option.splits)
    (auto simp: hydrates_current_def intro!: attach_ok_complete_hydration attach_ok_cancel_reader_update)

lemma attach_ok_recover_route:
  assumes "inputs_ok s" "attach_ok s"
  shows "attach_ok (recover_route n msg s)"
proof -
  let ?s = "s\<lparr>snapshot_recoveries := Suc (snapshot_recoveries s)\<rparr>"
  have "attach_ok ?s" if "\<not> 1 \<le> snapshot_recoveries s"
    using assms(2) that by (simp add: attach_ok_def attach_parts)
  then have "attach_ok (close_stream ?s)" if "\<not> 1 \<le> snapshot_recoveries s"
    using that assms(1) by (simp add: attach_ok_close)
  then show ?thesis
    using assms
    by (auto simp: recover_route_def Let_def attach_ok_fail_route intro!: attach_ok_ensure_attached
        attach_ok_serial)
qed

lemma attach_ok_buffer:
  assumes "inputs_ok s" "attach_ok s" "hydration s = Some h" "\<not> hy_completed h"
  shows "attach_ok (buffer_hydrating_output d h s)"
proof -
  have "hydration_fits h" using assms(2,3) by (simp add: attach_ok_def hydration_bounded_def)
  then have "attach_ok (update_hydration (\<lambda>h. h\<lparr>hy_buffered_output := hy_buffered_output h @ [d],
      hy_buffered_bytes := hy_buffered_bytes h + length d\<rparr>) s)"
    if "\<not> (MAX_PENDING_TERMINAL_BYTES < hy_buffered_bytes h + length d
      \<or> MAX_PENDING_TERMINAL_ITEMS < length (hy_buffered_output h) + 1)"
    using that assms by (intro attach_ok_update_hydration) (auto simp: hydration_fits_def)
  moreover have "update_hydration (\<lambda>k. k\<lparr>hy_buffered_output := hy_buffered_output k @ [d],
      hy_buffered_bytes := hy_buffered_bytes h + length d\<rparr>) s =
     update_hydration (\<lambda>h. h\<lparr>hy_buffered_output := hy_buffered_output h @ [d],
      hy_buffered_bytes := hy_buffered_bytes h + length d\<rparr>) s"
    by (simp add: update_hydration_def assms(3))
  ultimately show ?thesis
    using assms by (auto simp: buffer_hydrating_output_def Let_def intro: attach_ok_recover_route)
qed

lemma hydrating_Some: "hydrating g s = Some h \<Longrightarrow> hydration s = Some h \<and> hy_generation h = g \<and> \<not> hy_completed h"
  by (auto simp: hydrating_def split: option.splits if_splits)

lemma attach_ok_receive:
  assumes "inputs_ok s" "attach_ok s"
  shows "attach_ok (receive_output d g s)" "attach_ok (receive_process_exit code g s)"
  using assms hydrating_Some [of g s]
  by (auto simp: receive_output_def receive_process_exit_def attach_ok_cancel_reader_update
      split: option.splits intro: attach_ok_buffer)

lemma attach_ok_history:
  assumes "inputs_ok s" "attach_ok s" "g = generation s"
  shows "attach_ok (receive_history_unavailable reason g s)"
proof -
  have "attach_ok (ensure_hydration g s)" using assms by (simp add: attach_ok_ensure_hydration)
  with assms(1) show ?thesis
    by (simp add: receive_history_unavailable_def Let_def attach_ok_fail_route
        attach_ok_cancel_reader_update split: option.splits)
qed

lemma attach_ok_resync:
  assumes "attach_ok s" "g = generation s" "accepted_epoch s \<noteq> None"
  shows "attach_ok (receive_route_resync epoch g s)"
proof -
  let ?t = "s\<lparr>accepted_epoch := Some epoch, pending_unsafe_paste := None, consent_retained_bytes := 0,
     log := log s @ reader_cancelled s, hydration := None\<rparr>"
  have "attach_ok (ensure_hydration g ?t)"
    using assms
    by (auto simp: ensure_hydration_def attach_ok_def hydration_bounded_def stream_hydrated_def
        generations_ok_def hooks_ok_def opened_generation_def hook_ok_def)
  moreover have "cancel_hydration (release_unsafe_paste_consent (s\<lparr>accepted_epoch := Some epoch\<rparr>)) = ?t"
    by (simp add: cancel_hydration_form release_unsafe_paste_consent_def reader_cancelled_def)
  ultimately show ?thesis by (simp add: receive_route_resync_def Let_def attach_ok_arm)
qed

lemma attach_ok_attach_state:
  assumes "inputs_ok s" "attach_ok s" "stream s \<noteq> None"
  shows "attach_ok (receive_attach_state st g s)"
proof -
  have "attach_ok (s\<lparr>attached_received := True, accepted_epoch := Some 0\<rparr>)"
    using assms by (auto simp: attach_ok_def attach_parts)
  then show ?thesis
    using assms
    by (simp add: receive_attach_state_def attach_ok_pump attach_ok_recover_route attach_ok_fail_route
        attach_ok_close split: attach_state.splits option.splits)
qed

text \<open>A frame is handled only while its generation is the current one, so a stream is open.\<close>

lemma current_stream:
  assumes "attach_ok s" "opened_generation s g" "is_current_attachment g s"
  shows "stream s \<noteq> None" "g = generation s"
    "hydrates_current (ensure_hydration g s)"
proof -
  show "stream s \<noteq> None" "g = generation s"
    using assms by (auto simp: opened_generation_def is_current_attachment_def)
  then show "hydrates_current (ensure_hydration g s)"
    using ensure_hydration_current [of g s] assms(3)
    by (auto simp: hydrates_current_def is_current_attachment_def)
qed

lemma attach_ok_dispatch:
  assumes "inputs_ok s" "attach_ok s" "opened_generation s g" "is_current_attachment g s"
    "(\<exists>st. ev = Attach_state st) \<or> (\<exists>r. ev = Input_result r) \<or> accepted_epoch s \<noteq> None"
  shows "attach_ok (fst (dispatch_event ev g s))"
  using assms current_stream [OF assms(2-4)]
  by (auto simp: dispatch_event_def Let_def attach_ok_receive attach_ok_snapshot_finish
      attach_ok_ensure_hydration attach_ok_attach_state attach_ok_handle_result attach_ok_history
      attach_ok_resync split: terminal_event.splits)

lemma dispatch_event_continues:
  "dispatch_event ev g s = (s', Some ph) \<Longrightarrow> stream s' = stream s \<and> generation s' = generation s
     \<and> event_tasks s' = event_tasks s"
  by (auto simp: dispatch_event_def Let_def split: terminal_event.splits option.splits)

lemma admit_generation_form:
  "admit_route_generation r s = (s', b) \<Longrightarrow> \<exists>x. s' = s\<lparr>route_generation := x\<rparr>"
  by (cases "route_generation s")
    (auto simp: admit_route_generation_def intro: exI [of _ "Some r"] exI [of _ "route_generation s"])

lemma admit_epoch_accepts:
  "admit_stream_epoch epoch ev s \<Longrightarrow>
     (\<exists>st. ev = Attach_state st) \<or> (\<exists>r. ev = Input_result r) \<or> accepted_epoch s \<noteq> None"
  by (auto simp: admit_stream_epoch_def split: terminal_event.splits option.splits)

subsection \<open>The event queue\<close>

lemma opened_generation_frame [simp]:
  "opened_generation (s\<lparr>route_generation := x\<rparr>) g = opened_generation s g"
  "opened_generation (s\<lparr>event_tasks := ts\<rparr>) g = opened_generation s g"
  "opened_generation (s\<lparr>log := l\<rparr>) g = opened_generation s g"
  "is_current_attachment g (s\<lparr>route_generation := x\<rparr>) = is_current_attachment g s"
  "is_current_attachment g (s\<lparr>event_tasks := ts\<rparr>) = is_current_attachment g s"
  by (simp_all add: opened_generation_def is_current_attachment_def)

lemma attach_ok_emit_event:
  assumes "inputs_ok s" "attach_ok s" "opened_generation s g"
  shows "attach_ok (fst (emit_terminal_event ev g s))"
proof -
  have frame: "attach_ok (fst (receive_route_frame fg epoch body g s))"
    if cur: "is_current_attachment g s" for fg epoch body
  proof (cases "decode_terminal_body body")
    case (Inl e)
    then show ?thesis using assms by (simp add: receive_route_frame_def attach_ok_fail_route)
  next
    case (Inr decoded)
    obtain s' b where sb: "admit_route_generation fg s = (s', b)" by fastforce
    then obtain x where "s' = s\<lparr>route_generation := x\<rparr>" using admit_generation_form by blast
    then have s': "inputs_ok s'" "attach_ok s'" "opened_generation s' g" "is_current_attachment g s'"
      using assms cur by simp_all
    show ?thesis
      using Inr sb s' attach_ok_dispatch [OF s' admit_epoch_accepts]
      by (simp add: receive_route_frame_def split: bool.splits)
  qed
  show ?thesis
    using assms frame by (simp add: emit_terminal_event_def attach_ok_close split: stream_event.splits)
qed

lemma emit_event_continues:
  assumes "emit_terminal_event ev g s = (s', Some ph)"
  shows "stream s' = stream s \<and> generation s' = generation s \<and> event_tasks s' = event_tasks s"
proof -
  obtain route fg epoch body where ev: "receive_route_frame fg epoch body g s = (s', Some ph)"
    using assms by (auto simp: emit_terminal_event_def split: if_splits stream_event.splits)
  obtain u b where ub: "admit_route_generation fg s = (u, b)" by fastforce
  then obtain x where u: "u = s\<lparr>route_generation := x\<rparr>" using admit_generation_form by blast
  show ?thesis
    using ev ub dispatch_event_continues [of _ g u s' ph]
    by (auto simp: receive_route_frame_def u split: sum.splits bool.splits if_splits)
qed

lemma attach_ok_event_task:
  assumes "attach_ok s" "\<forall>t \<in> set ts. opened_generation s (et_generation t)"
  shows "attach_ok (s\<lparr>event_tasks := ts\<rparr>)"
  using assms by (auto simp: attach_ok_def attach_parts)

lemma attach_ok_task_generation: "attach_ok s \<Longrightarrow> t \<in> set (event_tasks s) \<Longrightarrow> opened_generation s (et_generation t)"
  by (simp add: attach_ok_def generations_ok_def)

lemma attach_ok_remove_task:
  assumes "attach_ok s"
  shows "attach_ok (s\<lparr>event_tasks := remove1 t (event_tasks s)\<rparr>)"
proof (rule attach_ok_event_task [OF assms], rule ballI)
  fix u assume "u \<in> set (remove1 t (event_tasks s))"
  then have "u \<in> set (event_tasks s)" using set_remove1_subset [of t "event_tasks s"] by (rule subsetD [rotated])
  then show "opened_generation s (et_generation u)" by (rule attach_ok_task_generation [OF assms])
qed

lemma attach_ok_install_begin:
  assumes "inputs_ok s" "attach_ok s"
  shows "attach_ok (fst (install_begin g n p r s))"
  using assms by (simp add: install_begin_def attach_ok_fail_route split: option.splits)

lemma install_begin_continues:
  "install_begin g n p r s = (s', Some ph) \<Longrightarrow>
     stream s' = stream s \<and> generation s' = generation s \<and> event_tasks s' = event_tasks s"
  by (auto simp: install_begin_def emit_def split: if_splits option.splits)

lemma attach_ok_install_finish:
  assumes "inputs_ok s" "attach_ok s"
  shows "attach_ok (install_finish g n r result s)"
  using assms
  by (simp add: install_finish_def attach_ok_fail_route attach_ok_recover_route attach_ok_arm
      attach_ok_cancel_reader_update split: sum.splits snapshot_progress.splits)

lemma attach_ok_continue:
  assumes "attach_ok s'" "stream s' = stream s" "generation s' = generation s"
    "event_tasks s' = event_tasks s" "opened_generation s (et_generation t)"
  shows "attach_ok (s'\<lparr>event_tasks := t\<lparr>et_phase := ph\<rparr> # event_tasks s'\<rparr>)"
  by (rule attach_ok_event_task [OF assms(1)])
    (use assms attach_ok_task_generation [OF assms(1)] in \<open>auto simp: opened_generation_def\<close>)

lemma find_in: "find P xs = Some x \<Longrightarrow> x \<in> set xs"
  by (auto simp: find_Some_iff)

lemma attach_ok_run_event:
  assumes "inputs_ok s" "attach_ok s"
  shows "attach_ok (run_event c s)"
proof (cases "find (\<lambda>t. et_chain t = c) (event_tasks s)")
  case None
  then show ?thesis using assms by (simp add: run_event_def)
next
  case (Some t)
  let ?s = "s\<lparr>event_tasks := remove1 t (event_tasks s)\<rparr>"
  have gen: "opened_generation ?s (et_generation t)"
    using Some assms(2) attach_ok_task_generation find_in by fastforce
  have ok: "inputs_ok ?s" "attach_ok ?s" using assms by (simp_all add: attach_ok_remove_task)
  have step: "attach_ok (case r of (u, next_phase) \<Rightarrow> (case next_phase of None \<Rightarrow> u
       | Some ph \<Rightarrow> u\<lparr>event_tasks := t\<lparr>et_phase := ph\<rparr> # event_tasks u\<rparr>))"
    if "attach_ok (fst r)" "\<And>u ph. r = (u, Some ph) \<Longrightarrow> stream u = stream ?s \<and> generation u = generation ?s
        \<and> event_tasks u = event_tasks ?s" for r
    using that attach_ok_continue [of _ ?s t, OF _ _ _ _ gen]
    by (cases r) (auto split: option.splits)
  have e: "attach_ok (case emit_terminal_event ev (et_generation t) ?s of (u, next_phase) \<Rightarrow>
      (case next_phase of None \<Rightarrow> u | Some ph \<Rightarrow> u\<lparr>event_tasks := t\<lparr>et_phase := ph\<rparr> # event_tasks u\<rparr>))" for ev
    by (rule step) (use attach_ok_emit_event [OF ok gen] emit_event_continues in auto)
  have i: "attach_ok (case install_begin (et_generation t) n p r ?s of (u, next_phase) \<Rightarrow>
      (case next_phase of None \<Rightarrow> u | Some ph \<Rightarrow> u\<lparr>event_tasks := t\<lparr>et_phase := ph\<rparr> # event_tasks u\<rparr>))" for n p r
    by (rule step) (use attach_ok_install_begin [OF ok] install_begin_continues in auto)
  show ?thesis
    using Some assms e i by (simp add: run_event_def Let_def split: event_phase.splits)
qed

lemma attach_ok_reader_result:
  assumes "inputs_ok s" "attach_ok s"
  shows "attach_ok (reader_result c r s)"
  using assms
  by (simp add: reader_result_def attach_ok_install_finish attach_ok_remove_task
      split: option.splits event_phase.splits)

lemma attach_ok_deliver:
  assumes "attach_ok s"
  shows "attach_ok (enqueue_terminal_event n ev s)"
proof (cases "map_of (opened_streams s) n")
  case (Some g)
  then have "opened_generation s g"
    using assms by (force simp: attach_ok_def generations_ok_def dest: map_of_SomeD)
  then have "attach_ok (s\<lparr>event_tasks := event_tasks s @
      [\<lparr>et_chain = event_chain s, et_generation = g, et_phase = Event_queued ev\<rparr>]\<rparr>)"
    using attach_ok_task_generation [OF assms] by (intro attach_ok_event_task [OF assms]) auto
  then show ?thesis by (simp add: enqueue_terminal_event_def Some)
qed (simp add: enqueue_terminal_event_def assms)

subsection \<open>Sending, attaching and the remaining steps\<close>

lemma attach_ok_send_frames: "attach_ok s \<Longrightarrow> attach_ok (send_frames t op s)"
  by (simp add: send_frames_def Let_def attach_ok_settle_cancelled split: sum.splits list.splits)

lemma attach_ok_sends:
  assumes "attach_ok s"
  shows "attach_ok (run_send c s)" "attach_ok (frame_sent c s)" "attach_ok (frame_failed c err s)"
  using assms
  by (simp_all add: run_send_def start_send_def frame_sent_def frame_failed_def Let_def
      attach_ok_settle_cancelled attach_ok_pump attach_ok_send_frames
      split: option.splits send_phase.splits list.splits)

lemma hook_ok_settle:
  assumes "hook_ok s t" "\<And>g. ph \<noteq> Attach_hook g"
  shows "hook_ok s (if at_serial t = p then t\<lparr>at_phase := ph\<rparr> else t)"
  using assms by (simp add: hook_ok_def)

lemma hooks_ok_map:
  assumes "\<And>t. t \<in> set (attach_tasks s) \<Longrightarrow> hook_ok r (f t)" "attach_tasks r' = map f (attach_tasks s)"
    "\<And>t. hook_ok r' t = hook_ok r t"
  shows "hooks_ok r'"
  unfolding hooks_ok_def assms(2,3) using assms(1) by auto

lemma attach_ok_set_phase:
  assumes "attach_ok s" "\<And>g. ph \<noteq> Attach_hook g"
  shows "attach_ok (set_attach_phase p ph s)"
proof -
  have "hook_ok s (if at_serial t = p then t\<lparr>at_phase := ph\<rparr> else t)" if "t \<in> set (attach_tasks s)" for t
    by (rule hook_ok_settle [OF _ assms(2)]) (use assms(1) that in \<open>simp add: attach_ok_def hooks_ok_def\<close>)
  then have "hooks_ok (set_attach_phase p ph s)"
    by (rule hooks_ok_map) (simp_all add: set_attach_phase_def hook_ok_def)
  with assms(1) show ?thesis
    by (simp add: attach_ok_def)
      (simp add: set_attach_phase_def hydration_bounded_def stream_hydrated_def generations_ok_def
        opened_generation_def)
qed

text \<open>Opening the stream of the current attach: the other pending attaches are older.\<close>

lemma attach_ok_open:
  assumes ok: "attach_ok s" and t: "find_attach p s = Some t" "at_phase t = Attach_hook g"
    and cur: "g = generation s" and hyd: "\<exists>h. hydration s = Some h \<and> hy_generation h = g"
  shows "attach_ok (set_attach_phase p (Attach_ready g n)
     (s\<lparr>next_serial := Suc (next_serial s), opened_streams := (n, g) # opened_streams s,
        stream := Some h, accepted_epoch := None\<rparr>))" (is "attach_ok ?r")
proof -
  have t_in: "t \<in> set (attach_tasks s)" "at_serial t = p"
    using t(1) by (auto simp: find_attach_def find_Some_iff)
  have st: "stream s = None" "attach_promise s = Some p"
    using ok t t_in cur by (auto simp: attach_ok_def hooks_ok_def hook_ok_def)
  have not_att: "\<not> attached_received s" using ok st by (auto simp: attach_ok_def stream_hydrated_def)
  have "hook_ok ?r (if at_serial u = p then u\<lparr>at_phase := Attach_ready g n\<rparr> else u)"
    if "u \<in> set (attach_tasks s)" for u
    using ok that st by (fastforce simp: attach_ok_def hooks_ok_def hook_ok_def set_attach_phase_def)
  then have "hooks_ok ?r" by (rule hooks_ok_map) (simp_all add: set_attach_phase_def)
  moreover have "generations_ok ?r"
    using ok cur by (auto simp: attach_ok_def generations_ok_def set_attach_phase_def opened_generation_def)
  moreover have "hydration_bounded ?r" "stream_hydrated ?r"
    using ok hyd cur not_att
    by (simp_all add: attach_ok_def hydration_bounded_def stream_hydrated_def set_attach_phase_def)
  ultimately show ?thesis by (simp add: attach_ok_def)
qed

lemma find_attach_ensure_hydration [simp]: "find_attach p (ensure_hydration g s) = find_attach p s"
  by (simp add: find_attach_def)

lemma set_attach_phase_frame [simp]:
  "set_attach_phase p ph (s\<lparr>route_generation := x\<rparr>) = (set_attach_phase p ph s)\<lparr>route_generation := x\<rparr>"
  "set_attach_phase p ph (s\<lparr>detach_sent_for := d\<rparr>) = (set_attach_phase p ph s)\<lparr>detach_sent_for := d\<rparr>"
  "set_attach_phase p ph (s\<lparr>log := l\<rparr>) = (set_attach_phase p ph s)\<lparr>log := l\<rparr>"
  by (rule plane.equality; simp add: set_attach_phase_def)+

lemma attach_ok_attach_resume:
  assumes "attach_ok s"
  shows "attach_ok (attach_resume p r s)"
proof (cases "find_attach p s")
  case None
  then show ?thesis by (simp add: attach_resume_def assms)
next
  case (Some t)
  show ?thesis
  proof (cases "\<exists>g. at_phase t = Attach_hook g \<and> is_current_attachment g s \<and> listeners s \<noteq> []")
    case False
    then show ?thesis
      using Some assms by (auto simp: attach_resume_def intro: attach_ok_set_phase split: attach_phase.splits)
  next
    case True
    then obtain g where g: "at_phase t = Attach_hook g" "g = generation s" "is_current_attachment g s"
      "listeners s \<noteq> []" by (auto simp: is_current_attachment_def)
    let ?s = "ensure_hydration g s"
    have ok: "attach_ok ?s" using assms g by (simp add: attach_ok_ensure_hydration)
    show ?thesis
    proof (cases r)
      case (Stream_throws err)
      then show ?thesis using Some g ok by (simp add: attach_resume_def Let_def attach_ok_set_phase)
    next
      case (Stream_opened b)
      let ?n = "next_serial ?s"
      have "attach_ok (set_attach_phase p (Attach_ready g ?n)
         (?s\<lparr>next_serial := Suc ?n, opened_streams := (?n, g) # opened_streams ?s,
             stream := Some \<lparr>sh_serial = ?n, sh_can_send = b\<rparr>, accepted_epoch := None\<rparr>))"
        using attach_ok_open [OF ok _ g(1)] Some g(2) ensure_hydration_current by simp
      moreover have "attach_resume p r s = (set_attach_phase p (Attach_ready g ?n)
         (?s\<lparr>next_serial := Suc ?n, opened_streams := (?n, g) # opened_streams ?s,
             stream := Some \<lparr>sh_serial = ?n, sh_can_send = b\<rparr>, accepted_epoch := None\<rparr>))
         \<lparr>log := log ?s @ [E_stream_terminal ?n (subscription ?s)], route_generation := None,
          detach_sent_for := (if detached ?s then detach_sent_for ?s else None)\<rparr>"
        by (rule plane.equality)
          (use Some g Stream_opened in \<open>simp_all add: attach_resume_def Let_def emit_def set_attach_phase_def\<close>)
      ultimately show ?thesis by simp
    qed
  qed
qed

lemma attach_ok_attach_microtask:
  assumes "attach_ok s"
  shows "attach_ok (attach_microtask p s)"
proof -
  let ?s = "s\<lparr>attach_tasks := filter (\<lambda>t. at_serial t \<noteq> p) (attach_tasks s),
     attach_promise := (if attach_promise s = Some p then None else attach_promise s)\<rparr>"
  have "attach_ok ?s" using assms by (auto simp: attach_ok_def attach_parts)
  moreover have "attach_ok ((emit_status st ^^ n) u) = attach_ok u" for st n u
    by (induction n) simp_all
  ultimately show ?thesis
    using assms by (cases "attach_promise s = Some p")
      (simp_all add: attach_microtask_def Let_def split: option.splits attach_phase.splits)
qed

lemma attach_ok_ready:
  assumes "attach_ok s"
  shows "attach_ok (stream_ready p route s)" "attach_ok (stream_rejected p err s)"
  using assms attach_ok_set_phase [OF assms, of "Attach_settled e" p for e]
  by (simp_all add: stream_ready_def stream_rejected_def Let_def attach_ok_arm
      split: option.splits attach_phase.splits)

definition plane_ok :: "plane \<Rightarrow> bool" where
  "plane_ok s \<longleftrightarrow> inputs_ok s \<and> attach_ok s"

lemma attach_ok_enqueue: "attach_ok s \<Longrightarrow> attach_ok (fst (enqueue_input e s))"
  by (simp add: enqueue_input_def Let_def attach_ok_pump attach_ok_ensure_attached attach_ok_serial)

lemma attach_ok_enqueue_pair: "enqueue_input e s = (s', b) \<Longrightarrow> attach_ok s \<Longrightarrow> attach_ok s'"
  using attach_ok_enqueue [of s e] by simp

lemma attach_ok_calls:
  assumes "attach_ok s"
  shows "attach_ok (write_paste t s)" "attach_ok (resize g s)" "attach_ok (send_input inp s)"
    "attach_ok (fst (confirm_unsafe_paste c s))" "attach_ok (fst (cancel_unsafe_paste c s))"
proof -
  show p: "attach_ok (write_paste t s)" for t
    using assms by (auto simp: write_paste_def Let_def split: prod.splits bool.splits
        elim!: attach_ok_enqueue_pair)
  show r: "attach_ok (resize g s)" for g
    using assms by (simp add: resize_def attach_ok_pump attach_ok_ensure_attached)
  show "attach_ok (send_input inp s)"
    using assms p r by (auto simp: send_input_def Let_def split: semantic_input.splits prod.splits bool.splits
        elim!: attach_ok_enqueue_pair)
  show "attach_ok (fst (confirm_unsafe_paste c s))" "attach_ok (fst (cancel_unsafe_paste c s))"
    using assms by (auto simp: confirm_unsafe_paste_def cancel_unsafe_paste_def
        split: option.splits prod.splits bool.splits elim!: attach_ok_enqueue_pair)
qed

lemma attach_ok_no_recoveries: "attach_ok s \<Longrightarrow> attach_ok (s\<lparr>snapshot_recoveries := 0\<rparr>)"
  by (simp add: attach_ok_def attach_parts)

lemma attach_ok_reattach: "attach_ok s \<Longrightarrow> attach_ok (reattach s)"
  by (simp add: reattach_def attach_ok_ensure_attached)

lemma attach_ok_transport_lost:
  "inputs_ok s \<Longrightarrow> attach_ok s \<Longrightarrow> attach_ok (handle_transport_lost b s)"
  by (simp add: handle_transport_lost_def Let_def attach_ok_close)

lemma attach_ok_transport_recovered:
  assumes "attach_ok s"
  shows "attach_ok (handle_transport_recovered s)"
proof -
  have "attach_ok (s\<lparr>transport_lost := False, snapshot_recoveries := 0\<rparr>)"
    using attach_ok_no_recoveries [of "s\<lparr>transport_lost := False\<rparr>"] assms by simp
  then show ?thesis
    using assms
    by (simp add: handle_transport_recovered_def Let_def attach_ok_reattach attach_ok_serial
        split: option.splits prod.splits)
qed

lemma attach_ok_lifecycle:
  "inputs_ok s \<Longrightarrow> attach_ok s \<Longrightarrow> attach_ok (handle_lifecycle_event ev b s)"
  by (simp add: handle_lifecycle_event_def Let_def attach_ok_transport_lost attach_ok_transport_recovered
      split: lifecycle_event.splits)

lemma attach_ok_subscribe:
  assumes "inputs_ok s" "attach_ok s"
  shows "attach_ok (subscribe_output l s)" "attach_ok (unsubscribe_output l s)"
    "attach_ok (subscribe_status l s)" "attach_ok (unsubscribe_status l s)"
    "attach_ok (subscribe_modes l s)" "attach_ok (unsubscribe_modes l s)"
    "attach_ok (subscribe_input_outcomes l s)" "attach_ok (unsubscribe_input_outcomes l s)"
    "attach_ok (detach s)"
  using assms
  by (simp_all add: subscribe_output_def unsubscribe_output_def subscribe_status_def
      unsubscribe_status_def subscribe_modes_def unsubscribe_modes_def subscribe_input_outcomes_def
      unsubscribe_input_outcomes_def detach_def Let_def attach_ok_ensure_attached attach_ok_close)

lemma attach_ok_microtasks:
  assumes "inputs_ok s" "attach_ok s"
  shows "attach_ok (recover_resume s)" "attach_ok (recover_microtask s)" "attach_ok (paste_microtask s)"
    "attach_ok (consent_timer s)" "attach_ok (hydration_timer s)"
  using assms
  by (simp_all add: recover_resume_def recover_microtask_def paste_microtask_def consent_timer_def
      hydration_timer_def Let_def attach_ok_reattach attach_ok_transport_recovered
      attach_ok_recover_route attach_ok_cancel_reader_update inputs_ok_steps
      split: nat.splits list.splits option.splits)

lemmas attach_ok_steps = attach_ok_calls attach_ok_subscribe attach_ok_lifecycle attach_ok_deliver
  attach_ok_run_event attach_ok_reader_result attach_ok_sends attach_ok_attach_resume attach_ok_ready
  attach_ok_attach_microtask attach_ok_microtasks

lemma plane_ok_step: "plane_ok s \<Longrightarrow> plane_ok (plane_step ev s)"
  using inputs_ok_step [of s ev]
  by (cases ev) (simp_all add: plane_ok_def attach_ok_steps)

interpretation route_system: step_system fresh_plane plane_step plane_ok
proof unfold_locales
  show "plane_ok s" if "fresh_plane s" for s
    using that input_system.init_inv [OF that]
    by (auto simp: fresh_plane_def new_plane_def plane_ok_def attach_ok_def attach_parts)
qed (rule plane_ok_step)

lemma run_plane_ok: "plane_ok (run_plane es (new_plane session sub))"
  unfolding run_plane_def by (rule route_system.run_inv) (auto simp: fresh_plane_def)

end
