(* ===== verification/Data_Plane_Screen.thy ===== *)
theory Data_Plane_Screen
  imports Data_Plane_Route
begin

text \<open>
  What the view gets to see: live output waits for the restored screen and keeps its order, the
  hydration buffer is bounded, frames of another route generation or stream epoch change
  nothing, and a detached plane shows and requests nothing more.
\<close>

subsection \<open>The output a step delivers\<close>

fun is_output :: "effect \<Rightarrow> bool" where
  "is_output (E_output _ _) = True"
| "is_output _ = False"

definition outputs :: "plane \<Rightarrow> effect list" where
  "outputs s = filter is_output (log s)"

lemma outputs_frame [simp]:
  "outputs (s\<lparr>session_id := x0\<rparr>) = outputs s"
  "outputs (s\<lparr>subscription := x1\<rparr>) = outputs s"
  "outputs (s\<lparr>fixed_subscription := x2\<rparr>) = outputs s"
  "outputs (s\<lparr>listeners := x3\<rparr>) = outputs s"
  "outputs (s\<lparr>status_listeners := x4\<rparr>) = outputs s"
  "outputs (s\<lparr>modes_listeners := x5\<rparr>) = outputs s"
  "outputs (s\<lparr>outcome_listeners := x6\<rparr>) = outputs s"
  "outputs (s\<lparr>current_status := x7\<rparr>) = outputs s"
  "outputs (s\<lparr>current_modes := x8\<rparr>) = outputs s"
  "outputs (s\<lparr>stream := x9\<rparr>) = outputs s"
  "outputs (s\<lparr>attach_promise := x10\<rparr>) = outputs s"
  "outputs (s\<lparr>detached := x11\<rparr>) = outputs s"
  "outputs (s\<lparr>transport_lost := x12\<rparr>) = outputs s"
  "outputs (s\<lparr>generation := x13\<rparr>) = outputs s"
  "outputs (s\<lparr>attached_received := x14\<rparr>) = outputs s"
  "outputs (s\<lparr>route_generation := x15\<rparr>) = outputs s"
  "outputs (s\<lparr>accepted_epoch := x16\<rparr>) = outputs s"
  "outputs (s\<lparr>detach_sent_for := x17\<rparr>) = outputs s"
  "outputs (s\<lparr>last_abandoned := x18\<rparr>) = outputs s"
  "outputs (s\<lparr>lifecycle_subscribed := x19\<rparr>) = outputs s"
  "outputs (s\<lparr>hydration := x20\<rparr>) = outputs s"
  "outputs (s\<lparr>reader_factory := x21\<rparr>) = outputs s"
  "outputs (s\<lparr>snapshot_recoveries := x22\<rparr>) = outputs s"
  "outputs (s\<lparr>next_operation_id := x23\<rparr>) = outputs s"
  "outputs (s\<lparr>queued_inputs := x24\<rparr>) = outputs s"
  "outputs (s\<lparr>queued_input_bytes := x25\<rparr>) = outputs s"
  "outputs (s\<lparr>inflight_input_bytes := x26\<rparr>) = outputs s"
  "outputs (s\<lparr>inflight_inputs := x27\<rparr>) = outputs s"
  "outputs (s\<lparr>desired_geometry := x28\<rparr>) = outputs s"
  "outputs (s\<lparr>sent_geometry := x29\<rparr>) = outputs s"
  "outputs (s\<lparr>geometry_operation := x30\<rparr>) = outputs s"
  "outputs (s\<lparr>paste_attempt := x31\<rparr>) = outputs s"
  "outputs (s\<lparr>pending_unsafe_paste := x32\<rparr>) = outputs s"
  "outputs (s\<lparr>consent_retained_bytes := x33\<rparr>) = outputs s"
  "outputs (s\<lparr>send_chain := x34\<rparr>) = outputs s"
  "outputs (s\<lparr>send_tasks := x35\<rparr>) = outputs s"
  "outputs (s\<lparr>event_chain := x36\<rparr>) = outputs s"
  "outputs (s\<lparr>event_tasks := x37\<rparr>) = outputs s"
  "outputs (s\<lparr>attach_tasks := x38\<rparr>) = outputs s"
  "outputs (s\<lparr>recover_microtasks := x39\<rparr>) = outputs s"
  "outputs (s\<lparr>recover_waits := x40\<rparr>) = outputs s"
  "outputs (s\<lparr>paste_results := x41\<rparr>) = outputs s"
  "outputs (s\<lparr>opened_streams := x42\<rparr>) = outputs s"
  "outputs (s\<lparr>next_serial := x43\<rparr>) = outputs s"
  "outputs (s\<lparr>clock := x44\<rparr>) = outputs s"
  "outputs (s\<lparr>admitted := x45\<rparr>) = outputs s"
  "outputs (s\<lparr>pasted := x47\<rparr>) = outputs s"
  "outputs (s\<lparr>settled := x46\<rparr>) = outputs s"
  "outputs (s\<lparr>dropped := x47\<rparr>) = outputs s"
  by (simp_all add: outputs_def)

lemma outputs_emit [simp]: "outputs (emit es s) = outputs s @ filter is_output es"
  by (simp add: outputs_def emit_def)

lemma no_output_map [simp]: "(\<And>x. \<not> is_output (f x)) \<Longrightarrow> filter is_output (map f xs) = []"
  by (simp add: filter_empty_conv)

lemma outputs_effects [simp]:
  "outputs (emit_status st s) = outputs s" "outputs (receive_modes m s) = outputs s"
  "outputs (publish_outcome oc s) = outputs s" "outputs (resolve_outcome r oc s) = outputs s"
  "outputs (emit_process_exit code s) = outputs s" "outputs (cancel_reader s) = outputs s"
  "outputs (cancel_hydration s) = outputs s" "outputs (abandon_stream s) = outputs s"
  "outputs (send_detach_request_once sub g s) = outputs s"
  by (auto simp: emit_status_def receive_modes_def publish_outcome_def resolve_outcome_def
      emit_process_exit_def cancel_reader_def cancel_hydration_def abandon_stream_def
      send_detach_request_once_def split: option.splits resolver.splits)

lemma outputs_state [simp]:
  "outputs (append_operation e h s) = outputs s" "outputs (maybe_send_geometry s) = outputs s"
  "outputs (remove_inflight i s) = outputs s" "outputs (release_unsent_operation i s) = outputs s"
  "outputs (release_unsafe_paste_consent s) = outputs s" "outputs (hold_consent i s) = outputs s"
  "outputs (update_hydration f s) = outputs s" "outputs (arm_hydration_progress_bound s) = outputs s"
  "outputs (ensure_hydration g s) = outputs s" "outputs (start_attach w s) = outputs s"
  "outputs (ensure_attached w s) = outputs s" "outputs (set_operation i op s) = outputs s"
  "outputs (drop_send_task t s) = outputs s" "outputs (set_attach_phase p ph s) = outputs s"
  by (auto simp: append_operation_def maybe_send_geometry_def remove_inflight_def
      release_unsent_operation_def release_unsafe_paste_consent_def hold_consent_def
      update_hydration_def arm_hydration_progress_bound_def start_attach_def ensure_attached_def
      add_waiter_def set_operation_def drop_send_task_def set_attach_phase_def ensure_hydration_def
      Let_def split: option.splits)

lemma outputs_pump_loop [simp]: "outputs (pump_loop h es s) = outputs s"
  by (induction h es s rule: pump_loop.induct) simp_all

lemma outputs_pump [simp]: "outputs (pump_inputs s) = outputs s"
  by (simp add: pump_inputs_def Let_def split: option.splits)

lemma outputs_settle [simp]:
  "outputs (settle_inflight i oc d acc wr s) = outputs s" "outputs (cancel_queued reason e s) = outputs s"
  "outputs (settle_cancelled i d s) = outputs s" "outputs (handle_input_result r s) = outputs s"
  by (simp_all add: settle_inflight_def cancel_queued_def settle_cancelled_def handle_input_result_def
      Let_def split: option.splits)

lemma outputs_fold: "(\<And>x s. outputs (f x s) = outputs s) \<Longrightarrow> outputs (fold f xs s) = outputs s"
  by (induction xs arbitrary: s) auto

lemma outputs_reset [simp]:
  "outputs (abandon_inputs reason s) = outputs s" "outputs (reset_attachment_state reason s) = outputs s"
  "outputs (close_stream s) = outputs s" "outputs (close_stream_without_detach_request reason s) = outputs s"
  "outputs (fail_route msg s) = outputs s" "outputs (recover_route n msg s) = outputs s"
proof -
  show a: "outputs (abandon_inputs reason s) = outputs s" for reason s
    by (simp add: abandon_inputs_def Let_def outputs_fold)
  then show r: "outputs (reset_attachment_state reason s) = outputs s" for reason s
    by (simp add: reset_attachment_state_def Let_def)
  then show c: "outputs (close_stream s) = outputs s" for s
    by (simp add: close_stream_def)
  from r show "outputs (close_stream_without_detach_request reason s) = outputs s"
    by (simp add: close_stream_without_detach_request_def)
  show f: "outputs (fail_route msg s) = outputs s" for msg s by (simp add: fail_route_def c)
  show "outputs (recover_route n msg s) = outputs s" by (simp add: recover_route_def Let_def f c)
qed

lemma outputs_receive [simp]:
  "outputs (receive_process_exit code g s) = outputs s"
  "outputs (receive_history_unavailable reason g s) = outputs s"
  "outputs (receive_route_resync epoch g s) = outputs s"
  "outputs (receive_attach_state st g s) = outputs s"
  "outputs (buffer_hydrating_output d h s) = outputs s"
  by (auto simp: receive_process_exit_def receive_history_unavailable_def receive_route_resync_def
      receive_attach_state_def buffer_hydrating_output_def Let_def
      split: option.splits attach_state.splits)

lemma outputs_calls [simp]:
  "outputs (fst (enqueue_input e s)) = outputs s" "outputs (write_paste t s) = outputs s"
  "outputs (resize g s) = outputs s" "outputs (send_input inp s) = outputs s"
  "outputs (fst (confirm_unsafe_paste c s)) = outputs s"
  "outputs (fst (cancel_unsafe_paste c s)) = outputs s"
proof -
  show e: "outputs (fst (enqueue_input e s)) = outputs s" for e s
    by (simp add: enqueue_input_def Let_def)
  have pair: "outputs s' = outputs s" if "enqueue_input e s = (s', b)" for e s s' b
    using e [of e s] that by simp
  show w: "outputs (write_paste t s) = outputs s" for t s
    by (auto simp: write_paste_def paste_refused_def Let_def dest!: pair split: prod.splits bool.splits)
  show r: "outputs (resize g s) = outputs s" for g s by (simp add: resize_def)
  show "outputs (send_input inp s) = outputs s"
    by (auto simp: send_input_def w r Let_def dest!: pair split: prod.splits bool.splits semantic_input.splits)
  show "outputs (fst (confirm_unsafe_paste c s)) = outputs s"
    by (auto simp: confirm_unsafe_paste_def dest!: pair split: option.splits prod.splits bool.splits)
  show "outputs (fst (cancel_unsafe_paste c s)) = outputs s"
    by (auto simp: cancel_unsafe_paste_def split: option.splits)
qed

lemma outputs_tasks [simp]:
  "outputs (install_finish g n r result s) = outputs s" "outputs (fst (install_begin g n p r s)) = outputs s"
  "outputs (send_frames t op s) = outputs s" "outputs (run_send c s) = outputs s"
  "outputs (frame_sent c s) = outputs s" "outputs (frame_failed c err s) = outputs s"
  "outputs (attach_resume q res s) = outputs s" "outputs (stream_ready q route s) = outputs s"
  "outputs (stream_rejected q err s) = outputs s" "outputs (enqueue_terminal_event m ev s) = outputs s"
  by (auto simp: install_finish_def install_begin_def send_frames_def run_send_def start_send_def
      frame_sent_def frame_failed_def attach_resume_def stream_ready_def stream_rejected_def
      enqueue_terminal_event_def Let_def
      split: option.splits sum.splits snapshot_progress.splits list.splits send_phase.splits
        attach_phase.splits open_result.splits)

lemma outputs_reader_result [simp]: "outputs (reader_result c r s) = outputs s"
  by (auto simp: reader_result_def split: option.splits event_phase.splits)

lemma outputs_attach_microtask [simp]: "outputs (attach_microtask p s) = outputs s"
proof -
  have "outputs ((emit_status st ^^ n) u) = outputs u" for st n u by (induction n) simp_all
  then show ?thesis
    by (auto simp: attach_microtask_def Let_def split: option.splits attach_phase.splits)
qed

lemma outputs_transport [simp]:
  "outputs (reattach s) = outputs s" "outputs (handle_transport_lost b s) = outputs s"
  "outputs (handle_transport_recovered s) = outputs s" "outputs (handle_lifecycle_event ev b s) = outputs s"
  "outputs (recover_resume s) = outputs s" "outputs (recover_microtask s) = outputs s"
proof -
  show r: "outputs (reattach s) = outputs s" for s by (simp add: reattach_def)
  show l: "outputs (handle_transport_lost b s) = outputs s" for s by (simp add: handle_transport_lost_def Let_def)
  show v: "outputs (handle_transport_recovered s) = outputs s" for s
    by (auto simp: handle_transport_recovered_def r Let_def split: option.splits)
  show "outputs (handle_lifecycle_event ev b s) = outputs s"
    by (simp add: handle_lifecycle_event_def l v Let_def split: lifecycle_event.splits)
  show "outputs (recover_resume s) = outputs s" by (simp add: recover_resume_def r split: nat.splits)
  show "outputs (recover_microtask s) = outputs s" by (simp add: recover_microtask_def v split: nat.splits)
qed

lemma outputs_subscriptions [simp]:
  "outputs (subscribe_output l s) = outputs s" "outputs (unsubscribe_output l s) = outputs s"
  "outputs (subscribe_status l s) = outputs s" "outputs (unsubscribe_status l s) = outputs s"
  "outputs (subscribe_modes l s) = outputs s" "outputs (unsubscribe_modes l s) = outputs s"
  "outputs (subscribe_input_outcomes l s) = outputs s" "outputs (unsubscribe_input_outcomes l s) = outputs s"
  "outputs (detach s) = outputs s" "outputs (paste_microtask s) = outputs s"
  "outputs (consent_timer s) = outputs s" "outputs (hydration_timer s) = outputs s"
  by (auto simp: subscribe_output_def unsubscribe_output_def subscribe_status_def unsubscribe_status_def
      subscribe_modes_def unsubscribe_modes_def subscribe_input_outcomes_def
      unsubscribe_input_outcomes_def detach_def paste_microtask_def consent_timer_def
      hydration_timer_def Let_def split: list.splits option.splits)

text \<open>Only a route frame delivers output.\<close>

lemma outputs_step:
  "outputs (plane_step ev s) \<noteq> outputs s \<Longrightarrow> \<exists>c. ev = Run_event c"
  by (cases ev) (simp_all)

subsection \<open>Which steps deliver, and when\<close>

text \<open>What pumping inputs leaves alone.\<close>

lemma pump_fields [simp]:
  "hydration (pump_inputs s) = hydration s" "generation (pump_inputs s) = generation s"
  "detached (pump_inputs s) = detached s" "listeners (pump_inputs s) = listeners s"
  "attached_received (pump_inputs s) = attached_received s" "log (pump_inputs s) = log s"
  "stream (pump_inputs s) = stream s" "accepted_epoch (pump_inputs s) = accepted_epoch s"
  "screen_hydrated (pump_inputs s) = screen_hydrated s"
proof -
  have app: "append_operation e h u = u\<lparr>next_operation_id := next_operation_id (append_operation e h u),
      inflight_inputs := inflight_inputs (append_operation e h u),
      inflight_input_bytes := inflight_input_bytes (append_operation e h u),
      send_tasks := send_tasks (append_operation e h u)\<rparr>" for e h u
    by (simp add: append_operation_def Let_def)
  have loop: "hydration (pump_loop h es u) = hydration u \<and> generation (pump_loop h es u) = generation u
      \<and> detached (pump_loop h es u) = detached u \<and> listeners (pump_loop h es u) = listeners u
      \<and> attached_received (pump_loop h es u) = attached_received u \<and> log (pump_loop h es u) = log u
      \<and> stream (pump_loop h es u) = stream u \<and> accepted_epoch (pump_loop h es u) = accepted_epoch u" for h es u
    by (induction h es u rule: pump_loop.induct) (simp_all add: append_operation_def Let_def)
  have geo: "hydration (maybe_send_geometry u) = hydration u \<and> generation (maybe_send_geometry u) = generation u
      \<and> detached (maybe_send_geometry u) = detached u \<and> listeners (maybe_send_geometry u) = listeners u
      \<and> attached_received (maybe_send_geometry u) = attached_received u \<and> log (maybe_send_geometry u) = log u
      \<and> stream (maybe_send_geometry u) = stream u \<and> accepted_epoch (maybe_send_geometry u) = accepted_epoch u" for u
    by (simp add: maybe_send_geometry_def append_operation_def Let_def split: option.splits)
  show f: "hydration (pump_inputs s) = hydration s" "generation (pump_inputs s) = generation s"
    "detached (pump_inputs s) = detached s" "listeners (pump_inputs s) = listeners s"
    "attached_received (pump_inputs s) = attached_received s" "log (pump_inputs s) = log s"
    "stream (pump_inputs s) = stream s" "accepted_epoch (pump_inputs s) = accepted_epoch s"
    by (simp_all add: pump_inputs_def Let_def loop geo split: option.splits)
  show "screen_hydrated (pump_inputs s) = screen_hydrated s"
    by (simp add: screen_hydrated_def f cong: option.case_cong)
qed

lemma emit_fields [simp]:
  "generation (emit es s) = generation s" "detached (emit es s) = detached s"
  "listeners (emit es s) = listeners s" "listeners (emit_status st s) = listeners s"
  "generation (emit_output d s) = generation s" "hydration (emit_output d s) = hydration s"
  "detached (emit_output d s) = detached s" "listeners (emit_output d s) = listeners s"
  "listeners (update_hydration f s) = listeners s"
  by (simp_all add: effect_defs update_hydration_def)

lemma fold_output_fields [simp]:
  "generation (fold emit_output ds s) = generation s" "hydration (fold emit_output ds s) = hydration s"
  "detached (fold emit_output ds s) = detached s" "listeners (fold emit_output ds s) = listeners s"
  by (induction ds arbitrary: s) simp_all

definition output_effects :: "nat list \<Rightarrow> bytes list \<Rightarrow> effect list" where
  "output_effects ls ds = concat (map (\<lambda>d. map (\<lambda>l. E_output l d) ls) ds)"

lemma outputs_emit_output [simp]: "outputs (emit_output d s) = outputs s @ output_effects (listeners s) [d]"
  by (simp add: emit_output_def output_effects_def filter_map comp_def)

lemma outputs_fold_output [simp]:
  "outputs (fold emit_output ds s) = outputs s @ output_effects (listeners s) ds"
  by (induction ds arbitrary: s) (simp_all add: output_effects_def)

text \<open>\<open>completeHydration\<close> as the code runs it: its early return never applies.\<close>

lemma complete_hydration_form:
  assumes "hydration s = Some h" "\<not> hy_completed h" "is_current_attachment (hy_generation h) s"
  shows "complete_hydration msg s =
     pump_inputs ((case hy_pending_exit h of None \<Rightarrow> id | Some code \<Rightarrow> emit_process_exit code)
       (fold emit_output (hy_buffered_output h) (emit_status (status_of ST_attached msg)
         (s\<lparr>hydration := Some (h\<lparr>hy_completed := True, hy_timer := False,
            hy_buffered_output := [], hy_buffered_bytes := 0\<rparr>)\<rparr>))))"
proof -
  have "update_hydration ((\<lambda>h. h\<lparr>hy_buffered_output := [], hy_buffered_bytes := 0\<rparr>)
      \<circ> (\<lambda>h. h\<lparr>hy_completed := True, hy_timer := False\<rparr>)) s =
    s\<lparr>hydration := Some (h\<lparr>hy_completed := True, hy_timer := False,
            hy_buffered_output := [], hy_buffered_bytes := 0\<rparr>)\<rparr>"
    by (simp add: update_hydration_def assms)
  then show ?thesis
    using assms by (simp add: complete_hydration_def Let_def update_hydration_fold_output split: option.splits)
qed

lemma process_exit_fields [simp]:
  "hydration (emit_process_exit code s) = hydration s" "generation (emit_process_exit code s) = generation s"
  "detached (emit_process_exit code s) = detached s"
  by (simp_all add: emit_process_exit_def)

lemma complete_hydration_outputs:
  assumes "hydration s = Some h" "\<not> hy_completed h" "is_current_attachment (hy_generation h) s"
  shows "outputs (complete_hydration msg s) = outputs s @ output_effects (listeners s) (hy_buffered_output h)"
    "screen_hydrated (complete_hydration msg s)"
    "hydration (complete_hydration msg s) = Some (h\<lparr>hy_completed := True, hy_timer := False,
       hy_buffered_output := [], hy_buffered_bytes := 0\<rparr>)"
  using assms
  by (simp_all add: complete_hydration_form screen_hydrated_def is_current_attachment_def split: option.splits)

text \<open>An operation delivers nothing, or it leaves the restored screen on show.\<close>

definition after_screen :: "plane \<Rightarrow> plane \<Rightarrow> bool" where
  "after_screen s t \<longleftrightarrow> outputs t = outputs s \<or> screen_hydrated t"

lemma after_screen_receive_output:
  assumes "attach_ok s" "opened_generation s g" "is_current_attachment g s"
  shows "after_screen s (receive_output d g s)"
proof (cases "hydrating g s")
  case None
  have "\<exists>h. hydration s = Some h \<and> hy_generation h = g"
    using assms current_stream [OF assms] by (auto simp: attach_ok_def stream_hydrated_def)
  with None have "screen_hydrated s"
    using assms(3) by (auto simp: hydrating_def screen_hydrated_def is_current_attachment_def split: if_splits)
  then have "screen_hydrated (emit_output d s)" by (simp add: screen_hydrated_def cong: option.case_cong)
  then show ?thesis using None by (simp add: after_screen_def receive_output_def)
qed (simp add: after_screen_def receive_output_def)

lemma after_screen_complete:
  assumes "hydrates_current s"
  shows "after_screen s (complete_hydration msg s)"
proof (cases "\<exists>h. hydration s = Some h \<and> \<not> hy_completed h")
  case True
  then obtain h where h: "hydration s = Some h" "\<not> hy_completed h" by blast
  with assms have "is_current_attachment (hy_generation h) s" by (simp add: hydrates_current_def)
  then show ?thesis using complete_hydration_outputs(2) [OF h] by (simp add: after_screen_def)
next
  case False
  then show ?thesis by (auto simp: complete_hydration_def after_screen_def split: option.splits)
qed

lemma after_screen_finish:
  assumes "hydrates_current s"
  shows "after_screen s (receive_snapshot_finish s)"
proof -
  have c: "hydrates_current (cancel_reader (update_hydration (f \<circ> g) s))"
    "hydrates_current (update_hydration g s)"
    if "\<And>h. hy_generation (f h) = hy_generation h" "\<And>h. hy_generation (g h) = hy_generation h" for f g
    using assms that by (auto simp: hydrates_current_def)
  have "after_screen s (complete_hydration msg u)"
    if "hydrates_current u" "outputs u = outputs s" for msg u
    using after_screen_complete [OF that(1)] that(2) by (simp add: after_screen_def)
  then show ?thesis
    using c by (auto simp: receive_snapshot_finish_def Let_def after_screen_def split: option.splits)
qed

lemma after_screen_dispatch:
  assumes "attach_ok s" "opened_generation s g" "is_current_attachment g s"
  shows "after_screen s (fst (dispatch_event ev g s))"
proof -
  have "after_screen s (receive_snapshot_finish (ensure_hydration g s))"
    using after_screen_finish [OF current_stream(3) [OF assms]] by (simp add: after_screen_def)
  then show ?thesis
    using after_screen_receive_output [OF assms]
    by (auto simp: dispatch_event_def Let_def after_screen_def split: terminal_event.splits)
qed

lemma after_screen_emit_event:
  assumes "attach_ok s" "opened_generation s g"
  shows "after_screen s (fst (emit_terminal_event ev g s))"
proof -
  have frame: "after_screen s (fst (receive_route_frame fg epoch body g s))"
    if cur: "is_current_attachment g s" for fg epoch body
  proof -
    obtain s' b where sb: "admit_route_generation fg s = (s', b)" by fastforce
    then obtain x where s': "s' = s\<lparr>route_generation := x\<rparr>" using admit_generation_form by blast
    have "after_screen s' (fst (dispatch_event ev g s'))" for ev
      using after_screen_dispatch [of s' g ev] assms cur by (simp add: s')
    then show ?thesis
      using sb by (auto simp: receive_route_frame_def after_screen_def s' split: sum.splits bool.splits)
  qed
  show ?thesis using frame by (auto simp: emit_terminal_event_def after_screen_def split: stream_event.splits)
qed

lemma screen_hydrated_tasks [simp]: "screen_hydrated (s\<lparr>event_tasks := ts\<rparr>) = screen_hydrated s"
  by (simp add: screen_hydrated_def cong: option.case_cong)

lemma after_screen_run_event:
  assumes "attach_ok s"
  shows "after_screen s (run_event c s)"
proof (cases "find (\<lambda>t. et_chain t = c) (event_tasks s)")
  case None
  then show ?thesis by (simp add: run_event_def after_screen_def)
next
  case (Some t)
  let ?s = "s\<lparr>event_tasks := remove1 t (event_tasks s)\<rparr>"
  have gen: "opened_generation ?s (et_generation t)"
    using Some assms attach_ok_task_generation find_in by fastforce
  have e: "after_screen s (fst (emit_terminal_event ev (et_generation t) ?s))" for ev
    using after_screen_emit_event [OF attach_ok_remove_task [OF assms] gen] by (simp add: after_screen_def)
  have i: "after_screen s (fst (install_begin (et_generation t) n p r ?s))" for n p r
    by (simp add: after_screen_def)
  have step: "after_screen s (case r of (u, next_phase) \<Rightarrow> (case next_phase of None \<Rightarrow> u
       | Some ph \<Rightarrow> u\<lparr>event_tasks := t\<lparr>et_phase := ph\<rparr> # event_tasks u\<rparr>))" if "after_screen s (fst r)" for r
    using that by (cases r) (auto simp: after_screen_def split: option.splits)
  show ?thesis
    using Some step [OF e] step [OF i]
    by (simp add: run_event_def Let_def split: event_phase.splits) (simp add: after_screen_def)
qed

lemma after_screen_step: "attach_ok s \<Longrightarrow> after_screen s (plane_step ev s)"
  using outputs_step [of ev s] after_screen_run_event [of s] by (force simp: after_screen_def)


subsection \<open>After a detach\<close>

text \<open>Effects a detached plane must not have: delivery, new streams, requests, snapshot reads.\<close>

fun loud :: "effect \<Rightarrow> bool" where
  "loud (E_output _ _) = True"
| "loud (E_modes _ _) = True"
| "loud (E_stream_terminal _ _) = True"
| "loud (E_abandon _) = True"
| "loud (E_detach_request _) = True"
| "loud (E_reader_read _ _) = True"
| "loud (E_reader_cancel _) = True"
| "loud E_accounting_error = True"
| "loud _ = False"

definition louds :: "plane \<Rightarrow> effect list" where
  "louds s = filter loud (log s)"

definition gone :: "plane \<Rightarrow> bool" where
  "gone s \<longleftrightarrow> detached s \<and> stream s = None \<and> hydration s = None \<and> current_modes s = None
     \<and> \<not> lifecycle_subscribed s"

definition silent :: "plane \<Rightarrow> plane \<Rightarrow> bool" where
  "silent s t \<longleftrightarrow> gone t \<and> louds t = louds s"

lemma gone_current [simp]: "gone s \<Longrightarrow> \<not> is_current_attachment g s"
  by (simp add: gone_def is_current_attachment_def)

lemma gone_pump [simp]: "gone s \<Longrightarrow> pump_inputs s = s"
  by (simp add: pump_inputs_def sendable_stream_def gone_def)

lemma silent_refl [simp]: "gone s \<Longrightarrow> silent s s"
  by (simp add: silent_def)

lemma silent_emit:
  assumes "gone s" "\<And>e. e \<in> set es \<Longrightarrow> \<not> loud e"
  shows "silent s (emit es s)"
  using assms by (simp add: silent_def emit_def gone_def louds_def filter_empty_conv)

lemma silent_trans: "silent s t \<Longrightarrow> silent t u \<Longrightarrow> silent s u"
  by (simp add: silent_def)

lemma silent_frame [simp]:
  "silent s (t\<lparr>paste_results := a1\<rparr>) = silent s t" "silent s (t\<lparr>listeners := a2\<rparr>) = silent s t"
  "silent s (t\<lparr>status_listeners := a3\<rparr>) = silent s t" "silent s (t\<lparr>modes_listeners := a4\<rparr>) = silent s t"
  "silent s (t\<lparr>outcome_listeners := a5\<rparr>) = silent s t" "silent s (t\<lparr>paste_attempt := a6\<rparr>) = silent s t"
  "silent s (t\<lparr>pending_unsafe_paste := a7\<rparr>) = silent s t" "silent s (t\<lparr>consent_retained_bytes := a8\<rparr>) = silent s t"
  "silent s (t\<lparr>reader_factory := a9\<rparr>) = silent s t" "silent s (t\<lparr>event_tasks := a10\<rparr>) = silent s t"
  "silent s (t\<lparr>send_tasks := a11\<rparr>) = silent s t" "silent s (t\<lparr>attach_tasks := a12\<rparr>) = silent s t"
  "silent s (t\<lparr>attach_promise := a13\<rparr>) = silent s t" "silent s (t\<lparr>recover_waits := a14\<rparr>) = silent s t"
  "silent s (t\<lparr>recover_microtasks := a15\<rparr>) = silent s t" "silent s (t\<lparr>clock := a16\<rparr>) = silent s t"
  "silent s (t\<lparr>current_status := a17\<rparr>) = silent s t" "silent s (t\<lparr>settled := a18\<rparr>) = silent s t"
  "silent s (t\<lparr>inflight_inputs := a19\<rparr>) = silent s t" "silent s (t\<lparr>inflight_input_bytes := a20\<rparr>) = silent s t"
  "silent s (t\<lparr>geometry_operation := a21\<rparr>) = silent s t" "silent s (t\<lparr>sent_geometry := a22\<rparr>) = silent s t"
  "silent s (t\<lparr>dropped := a23\<rparr>) = silent s t"
  by (simp_all add: silent_def gone_def louds_def)

lemma silent_log: "silent s t \<Longrightarrow> (\<And>e. e \<in> set es \<Longrightarrow> \<not> loud e) \<Longrightarrow> silent s (emit es t)"
  using silent_emit [of t es] silent_trans by (simp add: silent_def)

lemma silent_effects:
  assumes "silent s t"
  shows "silent s (emit_status st t)" "silent s (publish_outcome oc t)" "silent s (resolve_outcome r oc t)"
    "silent s (release_unsafe_paste_consent t)" "silent s (remove_inflight i t)"
    "silent s (release_unsent_operation i t)" "silent s (set_operation i op t)" "silent s (drop_send_task k t)"
    "silent s (set_attach_phase p ph t)" "silent s (paste_refused a b c t)"
  using assms
  by (auto simp: emit_status_def publish_outcome_def resolve_outcome_def release_unsafe_paste_consent_def
      remove_inflight_def release_unsent_operation_def set_operation_def drop_send_task_def
      set_attach_phase_def paste_refused_def intro!: silent_log split: resolver.splits)

lemma silent_gone: "silent s t \<Longrightarrow> gone t"
  by (simp add: silent_def)

lemma silent_settle:
  assumes "silent s t"
  shows "silent s (settle_cancelled i d t)"
proof -
  have r: "silent s (remove_inflight i t)" by (rule silent_effects) (rule assms)
  then have "\<not> consent_due i oc a w (remove_inflight i t)" for oc a w
    using silent_gone [OF r] by (simp add: consent_due_def)
  moreover have u: "silent s (resolve_outcome q oc (remove_inflight i t\<lparr>settled := k\<rparr>))" for q oc k
    by (rule silent_effects) (simp add: r)
  ultimately show ?thesis
    using assms gone_pump [OF silent_gone [OF u]]
    by (simp add: settle_cancelled_def settle_inflight_def Let_def)
qed

lemma silent_send_frames: "silent s t \<Longrightarrow> silent s (send_frames k op t)"
  by (auto simp: send_frames_def Let_def intro!: silent_log intro: silent_effects silent_settle
      split: sum.splits list.splits)

lemma silent_sends:
  assumes "gone s"
  shows "silent s (run_send c s)" "silent s (frame_sent c s)" "silent s (frame_failed c err s)"
proof -
  have d: "silent s (drop_send_task t s)" for t by (rule silent_effects) (simp add: assms)
  then have "\<not> is_current_attachment g (drop_send_task t s)" for g t by (blast dest: silent_gone gone_current)
  then show "silent s (run_send c s)"
    using assms d by (auto simp: run_send_def start_send_def Let_def intro!: silent_settle split: option.splits)
  show "silent s (frame_sent c s)" "silent s (frame_failed c err s)"
    using assms d by (auto simp: frame_sent_def frame_failed_def Let_def
        intro!: silent_log intro: silent_settle split: option.splits send_phase.splits list.splits)
qed

lemma silent_calls:
  assumes "gone s"
  shows "silent s (send_input inp s)" "silent s (resize g s)" "silent s (write_paste t s)"
    "silent s (fst (confirm_unsafe_paste c s))" "silent s (fst (cancel_unsafe_paste c s))"
    "silent s (detach s)" "silent s (handle_lifecycle_event ev b s)"
proof -
  have d: "detached s" "\<not> lifecycle_subscribed s" using assms by (simp_all add: gone_def)
  have r: "silent s (release_unsafe_paste_consent s)" by (rule silent_effects) (simp add: assms)
  have "detached (release_unsafe_paste_consent s)" using d by (simp add: release_unsafe_paste_consent_def)
  then show "silent s (write_paste t s)"
    using assms r by (simp add: write_paste_def Let_def silent_effects(10))
  show "silent s (send_input inp s)" "silent s (resize g s)" "silent s (detach s)"
    "silent s (handle_lifecycle_event ev b s)"
    using assms d by (simp_all add: send_input_def resize_def detach_def handle_lifecycle_event_def)
  show "silent s (fst (confirm_unsafe_paste c s))" "silent s (fst (cancel_unsafe_paste c s))"
    using assms r by (simp_all add: confirm_unsafe_paste_def cancel_unsafe_paste_def split: option.splits)
qed

lemma silent_events:
  assumes "gone s"
  shows "silent s (run_event c s)" "silent s (reader_result c r s)" "silent s (enqueue_terminal_event n ev s)"
    "silent s (attach_resume p res s)" "silent s (stream_ready p route s)" "silent s (stream_rejected p err s)"
proof -
  have g: "gone (s\<lparr>event_tasks := ts\<rparr>)" for ts using assms by (simp add: gone_def)
  have p: "silent s (set_attach_phase p ph s)" for p ph by (rule silent_effects) (simp add: assms)
  show "silent s (run_event c s)"
    using assms by (auto simp: run_event_def emit_terminal_event_def install_begin_def Let_def
        split: option.splits event_phase.splits)
  show "silent s (reader_result c r s)" "silent s (enqueue_terminal_event n ev s)"
    using assms by (auto simp: reader_result_def enqueue_terminal_event_def install_finish_def
        split: option.splits event_phase.splits)
  show "silent s (attach_resume p res s)" "silent s (stream_ready p route s)" "silent s (stream_rejected p err s)"
    using assms p gone_current [OF silent_gone [OF p]]
    by (auto simp: attach_resume_def stream_ready_def stream_rejected_def Let_def
        split: option.splits attach_phase.splits)
qed

lemma silent_funpow: "silent s t \<Longrightarrow> silent s ((emit_status st ^^ n) t)"
  by (induction n) (simp_all add: silent_effects)

lemma silent_others:
  assumes "gone s"
  shows "silent s (subscribe_output l s)" "silent s (unsubscribe_output l s)"
    "silent s (subscribe_status l s)" "silent s (unsubscribe_status l s)"
    "silent s (subscribe_modes l s)" "silent s (unsubscribe_modes l s)"
    "silent s (subscribe_input_outcomes l s)" "silent s (unsubscribe_input_outcomes l s)"
    "silent s (attach_microtask p s)" "silent s (recover_microtask s)" "silent s (recover_resume s)"
    "silent s (paste_microtask s)" "silent s (consent_timer s)" "silent s (hydration_timer s)"
proof -
  have d: "detached s" "current_modes s = None" "hydration s = None" using assms by (simp_all add: gone_def)
  show "silent s (subscribe_output l s)" "silent s (unsubscribe_output l s)"
    "silent s (unsubscribe_status l s)" "silent s (unsubscribe_modes l s)"
    "silent s (subscribe_input_outcomes l s)" "silent s (unsubscribe_input_outcomes l s)"
    "silent s (recover_microtask s)" "silent s (recover_resume s)" "silent s (hydration_timer s)"
    using assms d by (simp_all add: subscribe_output_def unsubscribe_output_def unsubscribe_status_def
        unsubscribe_modes_def subscribe_input_outcomes_def unsubscribe_input_outcomes_def
        recover_microtask_def recover_resume_def reattach_def handle_transport_recovered_def
        hydration_timer_def split: nat.splits)
  show "silent s (subscribe_status l s)" "silent s (subscribe_modes l s)"
    using assms d by (auto simp: subscribe_status_def subscribe_modes_def intro!: silent_log)
  show "silent s (attach_microtask p s)" "silent s (paste_microtask s)" "silent s (consent_timer s)"
    using assms by (auto simp: attach_microtask_def paste_microtask_def consent_timer_def Let_def
        intro!: silent_log [where es = "[E_paste_returned x]" for x] silent_funpow silent_effects
        split: option.splits attach_phase.splits list.splits)
qed

lemma silent_step: "gone s \<Longrightarrow> silent s (plane_step ev s)"
  by (cases ev) (simp_all add: silent_sends silent_calls silent_events silent_others)

interpretation gone_system: step_system gone plane_step gone
  by unfold_locales (auto dest: silent_step simp: silent_def)

lemma silent_run: "gone s \<Longrightarrow> silent s (run_plane es s)"
proof (induction es arbitrary: s)
  case Nil
  then show ?case by (simp add: run_plane_def)
next
  case (Cons e es)
  have s: "silent s (plane_step e s)" by (rule silent_step) (rule Cons.prems)
  from silent_trans [OF s Cons.IH [OF silent_gone [OF s]]] show ?case by (simp add: run_plane_def)
qed

lemma gone_after_detach:
  assumes "inputs_ok s" "\<not> detached s"
  shows "gone (detach s)"
proof -
  define u where "u = abandon_stream (s\<lparr>detached := True, transport_lost := False\<rparr>)"
  have u: "inputs_ok u" "detached u"
    using assms by (simp_all add: u_def) (simp add: abandon_stream_def emit_def split: option.splits)
  note form = reset_attachment_form [OF u(1)]
  have "lifecycle_subscribed (send_detach_request_once a b u) = lifecycle_subscribed u"
    "detached (send_detach_request_once a b u) = detached u" "stream (send_detach_request_once a b u) = stream u"
    "hydration (send_detach_request_once a b u) = hydration u"
    "current_modes (send_detach_request_once a b u) = current_modes u" for a b u
    by (simp_all add: send_detach_request_once_def emit_def)
  then show ?thesis
    using assms u by (simp add: detach_def Let_def gone_def close_stream_without_detach_request_def
        u_def [symmetric] form)
qed

subsection \<open>A plane in use\<close>

text \<open>
  A plane whose host has attached it and whose screen is still being restored; the second state
  has one payload waiting.
\<close>

definition attached_plane :: plane where
  "attached_plane = run_plane [Bind_reader, Subscribe_output 7, Attach_resume 1 (Stream_opened True),
     Stream_ready 1 (Some 4), Attach_microtask 1,
     Deliver 3 (Route_frame (Minted 0) 4 0 [2, 16, 0, 0, 1, 0, 0, 0, 2]), Run_event 0]
     (new_plane ''a'' None)"

definition hydrating_plane :: plane where
  "hydrating_plane = update_hydration
     (\<lambda>h. h\<lparr>hy_buffered_output := [[72, 73]], hy_buffered_bytes := 2\<rparr>) attached_plane"

definition hydrating_screen :: screen_hydration where
  "hydrating_screen = (new_hydration 2 1 True)\<lparr>hy_buffered_output := [[72, 73]],
     hy_buffered_bytes := 2, hy_timer := True\<rparr>"

lemma hydrating_plane_state:
  "hydration hydrating_plane = Some hydrating_screen \<and> is_current_attachment 1 hydrating_plane
   \<and> route_generation hydrating_plane = Some 4 \<and> accepted_epoch hydrating_plane = Some 0
   \<and> listeners hydrating_plane = [7] \<and> outputs hydrating_plane = []"
  by code_simp

lemma hydrating_screen_fields [simp]:
  "hy_generation hydrating_screen = 1" "hy_buffered_bytes hydrating_screen = 2"
  "hy_buffered_output hydrating_screen = [[72, 73]]" "\<not> hy_completed hydrating_screen"
  by (simp_all add: hydrating_screen_def new_hydration_def)

subsection \<open>Properties\<close>

text \<open>
  C3. Live output never reaches a listener before the restored screen: whenever a step of a run
  delivers output, the plane is then on a completed hydration of the current attachment.
\<close>

theorem output_waits_for_screen:
  "let s = run_plane es (new_plane session sub); t = plane_step ev s
   in filter is_output (log t) = filter is_output (log s) \<or> screen_hydrated t"
  using after_screen_step [of "run_plane es (new_plane session sub)" ev] run_plane_ok [of es session sub]
  by (simp add: Let_def after_screen_def plane_ok_def outputs_def)

text \<open>
  Output held back during hydration is bounded and not miscounted: after any run the buffer
  has at most 256 items and 8 MiB, its byte count is the sum of its items, a completed hydration
  buffers nothing and has no timer, and a route retries a lost snapshot at most once.
\<close>

theorem hydration_buffer_bounded:
  "let s = run_plane es (new_plane session sub) in
     snapshot_recoveries s \<le> 1
     \<and> (case hydration s of None \<Rightarrow> True
        | Some h \<Rightarrow> hy_buffered_bytes h = sum_list (map length (hy_buffered_output h))
            \<and> length (hy_buffered_output h) \<le> 256 \<and> hy_buffered_bytes h \<le> 8 * 1024 * 1024
            \<and> (if hy_completed h then hy_buffered_output h = [] \<and> \<not> hy_timer h else True))"
  using run_plane_ok [of es session sub]
  by (auto simp: Let_def plane_ok_def attach_ok_def hydration_bounded_def hydration_fits_def plane_bounds
      split: option.splits)

text \<open>
  An open stream is always being hydrated for the current attachment, and frames of the
  stream are accepted only after the host attached it.
\<close>

theorem open_stream_has_hydration:
  "let s = run_plane es (new_plane session sub) in
     (stream s \<noteq> None \<longrightarrow> map_option hy_generation (hydration s) = Some (generation s))
     \<and> (accepted_epoch s \<noteq> None \<longrightarrow> attached_received s) \<and> (attached_received s \<longrightarrow> stream s \<noteq> None)"
  using run_plane_ok [of es session sub]
  by (auto simp: Let_def plane_ok_def attach_ok_def stream_hydrated_def)

lemma open_stream_has_hydration_witness:
  "map_option hy_generation (hydration attached_plane) = Some (generation attached_plane)
   \<and> attached_received attached_plane \<and> stream attached_plane \<noteq> None"
proof -
  have "accepted_epoch attached_plane \<noteq> None" by code_simp
  then show ?thesis
    using open_stream_has_hydration [of
        "[Bind_reader, Subscribe_output 7, Attach_resume 1 (Stream_opened True), Stream_ready 1 (Some 4),
          Attach_microtask 1, Deliver 3 (Route_frame (Minted 0) 4 0 [2, 16, 0, 0, 1, 0, 0, 0, 2]), Run_event 0]"
        "''a''" None]
    by (simp only: Let_def attached_plane_def [symmetric]) blast
qed

text \<open>
  Output is delivered in arrival order. While a screen is hydrating, a payload that fits goes
  to the end of the buffer and nobody is called; once hydrated it is delivered at once.
\<close>

theorem receive_output_order:
  assumes "hydration s = Some h" "hy_generation h = g"
    "hy_buffered_bytes h + length d \<le> MAX_PENDING_TERMINAL_BYTES"
    "length (hy_buffered_output h) < MAX_PENDING_TERMINAL_ITEMS"
  shows "let t = receive_output d g s in
     outputs t = outputs s @ (if hy_completed h then output_effects (listeners s) [d] else [])
     \<and> map_option hy_buffered_output (hydration t) =
         Some (hy_buffered_output h @ (if hy_completed h then [] else [d]))"
  using assms
  by (simp add: receive_output_def hydrating_def buffer_hydrating_output_def Let_def)

lemma receive_output_order_witness:
  "let t = receive_output [74] 1 hydrating_plane in
     outputs t = [] \<and> map_option hy_buffered_output (hydration t) = Some [[72, 73], [74]]"
  using receive_output_order [of hydrating_plane hydrating_screen 1 "[74]"] hydrating_plane_state
  by (simp add: plane_bounds Let_def)

text \<open>
  Completing a hydration delivers exactly what was buffered, in arrival order, to every
  listener, before anything else, and leaves the buffer empty.
\<close>

theorem complete_hydration_flushes:
  assumes "hydration s = Some h" "\<not> hy_completed h" "is_current_attachment (hy_generation h) s"
  shows "let t = complete_hydration msg s in
     outputs t = outputs s @ output_effects (listeners s) (hy_buffered_output h)
     \<and> map_option hy_buffered_output (hydration t) = Some [] \<and> screen_hydrated t"
  using complete_hydration_outputs [OF assms] by (simp add: Let_def)


lemma complete_hydration_flushes_witness:
  "let t = complete_hydration [T ''ok''] hydrating_plane in
     outputs t = [E_output 7 [72, 73]] \<and> screen_hydrated t"
  using complete_hydration_flushes [of hydrating_plane hydrating_screen "[T ''ok'']"] hydrating_plane_state
  by (simp add: Let_def output_effects_def)

text \<open>
  Detaching is final: after \<open>detach()\<close> on a plane in use, whatever the view, the timers, the
  transport or a late promise do, the plane opens no stream, sends no second Detach, delivers no
  output and no modes and reads no snapshot.
\<close>

theorem detached_stays_silent:
  assumes "\<not> detached (run_plane es (new_plane session sub))"
  shows "let s = plane_step Detach_plane (run_plane es (new_plane session sub));
             t = run_plane es' s
         in detached t \<and> stream t = None \<and> hydration t = None
            \<and> filter loud (log t) = filter loud (log s)"
proof -
  have "gone (detach (run_plane es (new_plane session sub)))"
    using gone_after_detach run_inputs_ok assms by blast
  from silent_run [OF this, of es'] show ?thesis
    by (simp add: Let_def silent_def gone_def louds_def)
qed

lemma detached_stays_silent_witness:
  "let s = plane_step Detach_plane (run_plane [Subscribe_output 7] (new_plane ''a'' None));
       t = run_plane [Attach_resume 1 (Stream_opened True), Subscribe_output 8, Send_input (In_focus True)] s
   in detached t \<and> stream t = None \<and> filter loud (log t) = filter loud (log s)"
proof -
  have "\<not> detached (run_plane [Subscribe_output 7] (new_plane ''a'' None))" by code_simp
  from detached_stays_silent [OF this] show ?thesis by (simp add: Let_def)
qed

text \<open>
  Frames of another life of the route change nothing. Once the stream's route generation is
  known, a frame of another generation is ignored whatever it holds, and a frame of the stream
  (everything but ATTACH_STATE, INPUT_RESULT and a resync) is ignored unless it carries exactly
  the accepted epoch.
\<close>

theorem stale_frame_changes_nothing:
  assumes "decode_terminal_body body = Inr ev" "route_generation s = Some r"
    "fg \<noteq> r \<or> (accepted_epoch s \<noteq> Some epoch
       \<and> (case ev of Attach_state _ \<Rightarrow> False | Input_result _ \<Rightarrow> False | Route_resync _ _ \<Rightarrow> False | _ \<Rightarrow> True))"
  shows "emit_terminal_event (Route_frame sub fg epoch body) g s = (s, None)"
  using assms
  by (auto simp: emit_terminal_event_def receive_route_frame_def admit_route_generation_def
      admit_stream_epoch_def split: terminal_event.splits option.splits bool.splits)

lemma stale_frame_changes_nothing_witness:
  "emit_terminal_event (Route_frame (Minted 0) 5 0 [2, 1, 0, 0, 2, 0, 0, 0, 72, 73]) 1 hydrating_plane
     = (hydrating_plane, None)"
proof -
  have "decode_terminal_body [2, 1, 0, 0, 2, 0, 0, 0, 72, 73] = Inr (Output [72, 73])" by code_simp
  then show ?thesis
    by (rule stale_frame_changes_nothing [where r = 4]) (simp_all add: hydrating_plane_state)
qed

end
