(* ===== verification/Data_Plane_Pump.thy ===== *)
theory Data_Plane_Pump
  imports Data_Plane_Route
begin

text \<open>
  The pump of the data plane is work-conserving: while the route can send, an operation waits in
  the queue, or the latest geometry stays unsent, only when the in-flight window is full (or a
  RESIZE is already on its way). Every step keeps \<open>pumped\<close>.
\<close>

subsection \<open>The invariant\<close>

definition window_full :: "plane \<Rightarrow> bool" where
  "window_full s \<longleftrightarrow> MAX_INFLIGHT_INPUT_OPERATIONS \<le> length (inflight_inputs s)"

definition geometry_current :: "plane \<Rightarrow> bool" where
  "geometry_current s \<longleftrightarrow>
     (case desired_geometry s of None \<Rightarrow> True | Some g \<Rightarrow> same_geometry g (sent_geometry s))"

definition pumped :: "plane \<Rightarrow> bool" where
  "pumped s \<longleftrightarrow> sendable_stream s = None
     \<or> ((queued_inputs s = [] \<or> window_full s)
        \<and> (\<not> screen_hydrated s \<or> geometry_operation s \<noteq> None \<or> window_full s \<or> geometry_current s))"

lemmas pumped_parts = pumped_def window_full_def geometry_current_def screen_hydrated_def
  sendable_stream_def

lemma pumped_frame [simp]:
  "pumped (s\<lparr>session_id := x0\<rparr>) = pumped s"
  "pumped (s\<lparr>subscription := x1\<rparr>) = pumped s"
  "pumped (s\<lparr>fixed_subscription := x2\<rparr>) = pumped s"
  "pumped (s\<lparr>listeners := x3\<rparr>) = pumped s"
  "pumped (s\<lparr>status_listeners := x4\<rparr>) = pumped s"
  "pumped (s\<lparr>modes_listeners := x5\<rparr>) = pumped s"
  "pumped (s\<lparr>outcome_listeners := x6\<rparr>) = pumped s"
  "pumped (s\<lparr>current_status := x7\<rparr>) = pumped s"
  "pumped (s\<lparr>current_modes := x8\<rparr>) = pumped s"
  "pumped (s\<lparr>attach_promise := x9\<rparr>) = pumped s"
  "pumped (s\<lparr>transport_lost := x10\<rparr>) = pumped s"
  "pumped (s\<lparr>route_generation := x11\<rparr>) = pumped s"
  "pumped (s\<lparr>accepted_epoch := x12\<rparr>) = pumped s"
  "pumped (s\<lparr>detach_sent_for := x13\<rparr>) = pumped s"
  "pumped (s\<lparr>last_abandoned := x14\<rparr>) = pumped s"
  "pumped (s\<lparr>lifecycle_subscribed := x15\<rparr>) = pumped s"
  "pumped (s\<lparr>reader_factory := x16\<rparr>) = pumped s"
  "pumped (s\<lparr>snapshot_recoveries := x17\<rparr>) = pumped s"
  "pumped (s\<lparr>next_operation_id := x18\<rparr>) = pumped s"
  "pumped (s\<lparr>queued_input_bytes := x19\<rparr>) = pumped s"
  "pumped (s\<lparr>inflight_input_bytes := x20\<rparr>) = pumped s"
  "pumped (s\<lparr>paste_attempt := x21\<rparr>) = pumped s"
  "pumped (s\<lparr>pending_unsafe_paste := x22\<rparr>) = pumped s"
  "pumped (s\<lparr>consent_retained_bytes := x23\<rparr>) = pumped s"
  "pumped (s\<lparr>send_chain := x24\<rparr>) = pumped s"
  "pumped (s\<lparr>send_tasks := x25\<rparr>) = pumped s"
  "pumped (s\<lparr>event_chain := x26\<rparr>) = pumped s"
  "pumped (s\<lparr>event_tasks := x27\<rparr>) = pumped s"
  "pumped (s\<lparr>attach_tasks := x28\<rparr>) = pumped s"
  "pumped (s\<lparr>recover_microtasks := x29\<rparr>) = pumped s"
  "pumped (s\<lparr>recover_waits := x30\<rparr>) = pumped s"
  "pumped (s\<lparr>paste_results := x31\<rparr>) = pumped s"
  "pumped (s\<lparr>opened_streams := x32\<rparr>) = pumped s"
  "pumped (s\<lparr>next_serial := x33\<rparr>) = pumped s"
  "pumped (s\<lparr>clock := x34\<rparr>) = pumped s"
  "pumped (s\<lparr>admitted := x35\<rparr>) = pumped s"
  "pumped (s\<lparr>pasted := x37\<rparr>) = pumped s"
  "pumped (s\<lparr>settled := x36\<rparr>) = pumped s"
  "pumped (s\<lparr>dropped := x37\<rparr>) = pumped s"
  "pumped (s\<lparr>log := x38\<rparr>) = pumped s"
  by (simp_all add: pumped_parts cong: option.case_cong)

lemma pumped_unsendable: "\<not> attached_received s \<Longrightarrow> pumped s"
  by (simp add: pumped_def not_sendable)

lemma pumped_detached: "detached s \<Longrightarrow> pumped s"
  by (simp add: pumped_def sendable_stream_def split: option.splits)

subsection \<open>Pumping establishes it\<close>

lemma append_operation_parts [simp]:
  "sendable_stream (append_operation e h s) = sendable_stream s"
  "screen_hydrated (append_operation e h s) = screen_hydrated s"
  "geometry_operation (append_operation e h s) = geometry_operation s"
  "geometry_current (append_operation e h s) = geometry_current s"
  by (simp_all add: append_operation_def Let_def sendable_stream_def screen_hydrated_def
      geometry_current_def cong: option.case_cong)

lemma window_full_append: "window_full s \<Longrightarrow> window_full (append_operation e h s)"
proof -
  have "length xs \<le> length (AList.update k v xs)" for k :: nat and v :: inflight_operation and xs
    by (induction xs) auto
  then show "window_full s \<Longrightarrow> window_full (append_operation e h s)"
    by (auto simp: window_full_def append_operation_def Let_def intro: le_trans)
qed

lemma queue_frame [simp]:
  "sendable_stream (s\<lparr>queued_inputs := es, queued_input_bytes := b\<rparr>) = sendable_stream s"
  "screen_hydrated (s\<lparr>queued_inputs := es, queued_input_bytes := b\<rparr>) = screen_hydrated s"
  "geometry_current (s\<lparr>queued_inputs := es, queued_input_bytes := b\<rparr>) = geometry_current s"
  "window_full (s\<lparr>queued_inputs := es, queued_input_bytes := b\<rparr>) = window_full s"
  by (simp_all add: sendable_stream_def screen_hydrated_def geometry_current_def window_full_def
      cong: option.case_cong)

lemma pump_loop_parts [simp]:
  "sendable_stream (pump_loop h es s) = sendable_stream s"
  "screen_hydrated (pump_loop h es s) = screen_hydrated s"
  "geometry_operation (pump_loop h es s) = geometry_operation s"
  "geometry_current (pump_loop h es s) = geometry_current s"
  by (induction h es s rule: pump_loop.induct) simp_all

lemma window_full_pump_loop: "window_full s \<Longrightarrow> window_full (pump_loop h es s)"
  by (induction h es s rule: pump_loop.induct) (simp_all add: window_full_append)

lemma pump_loop_drains:
  "queued_inputs s = es \<Longrightarrow> queued_inputs (pump_loop h es s) = [] \<or> window_full (pump_loop h es s)"
  by (induction h es s rule: pump_loop.induct) (simp_all add: window_full_def)

lemma geometry_parts:
  "sendable_stream (maybe_send_geometry s) = sendable_stream s"
  "screen_hydrated (maybe_send_geometry s) = screen_hydrated s"
proof -
  have "sendable_stream (t\<lparr>geometry_operation := a, next_serial := b, admitted := c\<rparr>) = sendable_stream t"
    "screen_hydrated (t\<lparr>geometry_operation := a, next_serial := b, admitted := c\<rparr>) = screen_hydrated t"
    for t a b c
    by (simp_all add: sendable_stream_def screen_hydrated_def cong: option.case_cong)
  then show "sendable_stream (maybe_send_geometry s) = sendable_stream s"
    "screen_hydrated (maybe_send_geometry s) = screen_hydrated s"
    by (simp_all add: maybe_send_geometry_def split: option.splits)
qed

lemma maybe_send_geometry_settles:
  assumes "sendable_stream s = Some h"
  shows "\<not> screen_hydrated s \<or> geometry_operation (maybe_send_geometry s) \<noteq> None
    \<or> window_full (maybe_send_geometry s) \<or> geometry_current (maybe_send_geometry s)"
  using assms
  by (auto simp: maybe_send_geometry_def window_full_def geometry_current_def split: option.splits)

lemma pumped_pump: "pumped (pump_inputs s)"
proof (cases "sendable_stream s")
  case None
  then show ?thesis by (simp add: pump_inputs_def pumped_def)
next
  case (Some h)
  let ?g = "maybe_send_geometry s"
  have "queued_inputs (pump_loop h (queued_inputs s) ?g) = [] \<or> window_full (pump_loop h (queued_inputs s) ?g)"
    by (rule pump_loop_drains) simp
  then show ?thesis
    using maybe_send_geometry_settles [OF Some] window_full_pump_loop [of ?g h "queued_inputs s"]
    by (auto simp: pump_inputs_def Some pumped_def geometry_parts)
qed

subsection \<open>Every step keeps it\<close>

lemma pumped_effects [simp]:
  "pumped (emit es s) = pumped s" "pumped (emit_status st s) = pumped s" "pumped (emit_output d s) = pumped s"
  "pumped (receive_modes m s) = pumped s" "pumped (publish_outcome oc s) = pumped s"
  "pumped (resolve_outcome r oc s) = pumped s" "pumped (emit_process_exit code s) = pumped s"
  "pumped (cancel_reader s) = pumped s" "pumped (abandon_stream s) = pumped s"
  "pumped (send_detach_request_once sub g s) = pumped s" "pumped (paste_refused a b c s) = pumped s"
  "pumped (release_unsafe_paste_consent s) = pumped s" "pumped (drop_send_task t s) = pumped s"
  "pumped (set_attach_phase p ph s) = pumped s"
  by (simp_all add: effect_defs publish_outcome_def resolve_outcome_reports cancel_reader_def
      abandon_stream_def send_detach_request_once_def paste_refused_def
      release_unsafe_paste_consent_def drop_send_task_def set_attach_phase_def split: option.splits)

lemma pumped_set_operation [simp]: "pumped (set_operation i op s) = pumped s"
proof -
  have "length (inflight_inputs (set_operation i op s)) = length (inflight_inputs s)"
    by (rule set_operation_views)
  then show ?thesis
    unfolding pumped_def window_full_def
    by (simp add: sendable_stream_def screen_hydrated_def geometry_current_def set_operation_def
        cong: option.case_cong)
qed

lemma pumped_settle:
  assumes "inputs_ok s" "owned_by s i" "pumped s"
  shows "pumped (settle_inflight i oc d acc wr s)"
proof (cases "current_inflight i s \<and> consent_due i oc acc wr (remove_inflight i s)")
  case True
  then obtain data where data: "q_paste_data i = Some data" by (auto simp: consent_due_def)
  have "consent_accounting_ok (hold_consent i (remove_inflight i s))"
    using True assms by (intro consent_held_ok [OF data] retained_paste_bound(1) [OF _ _ _ data]) auto
  then show ?thesis using True by (simp add: settle_inflight_def Let_def pumped_pump)
next
  case False
  then show ?thesis using assms by (auto simp: settle_inflight_def Let_def pumped_pump)
qed

lemma pumped_settle_task: "inputs_ok s \<Longrightarrow> task_ok s t \<Longrightarrow> pumped s \<Longrightarrow> pumped (settle_cancelled (tk_inflight t) d s)"
  by (simp add: settle_cancelled_def pumped_settle task_ok_def)

lemma pumped_handle_result: "inputs_ok s \<Longrightarrow> pumped s \<Longrightarrow> pumped (handle_input_result r s)"
  by (auto simp: handle_input_result_def intro!: pumped_settle dest: map_of_SomeD intro: held_owned
      split: option.splits)

lemma pumped_reset: "inputs_ok s \<Longrightarrow> pumped (reset_attachment_state reason s)"
  by (rule pumped_unsendable) (simp add: reset_attachment_form)

lemma pumped_close:
  "inputs_ok s \<Longrightarrow> pumped (close_stream s)" "inputs_ok s \<Longrightarrow> pumped (close_stream_without_detach_request r s)"
  "inputs_ok s \<Longrightarrow> pumped (fail_route msg s)"
  by (simp_all add: close_stream_def close_stream_without_detach_request_def fail_route_def pumped_reset)

lemma pumped_ensure_attached: "pumped s \<Longrightarrow> pumped (ensure_attached w s)"
proof -
  assume p: "pumped s"
  then have "pumped (add_waiter q w s)" for q by (simp add: add_waiter_def)
  moreover have "pumped (start_attach w s)"
    using p by (auto simp: start_attach_def Let_def intro: pumped_unsendable)
  ultimately show "pumped (ensure_attached w s)"
    using p by (simp add: ensure_attached_def split: option.splits)
qed

text \<open>Hydration may change as long as it does not become complete unpumped.\<close>

lemma pumped_hydration:
  assumes "pumped s" "screen_hydrated (s\<lparr>hydration := h\<rparr>) \<Longrightarrow> screen_hydrated s"
  shows "pumped (s\<lparr>hydration := h\<rparr>)"
  using assms by (auto simp: pumped_def window_full_def geometry_current_def sendable_stream_def
      cong: option.case_cong)

lemma pumped_update_hydration:
  assumes "pumped s" "\<And>h. hy_generation (f h) = hy_generation h" "\<And>h. hy_completed (f h) \<Longrightarrow> hy_completed h"
  shows "pumped (update_hydration f s)"
  unfolding update_hydration_def
  by (rule pumped_hydration [OF assms(1)]) (use assms in \<open>auto simp: screen_hydrated_def split: option.splits\<close>)

lemma pumped_arm: "pumped s \<Longrightarrow> pumped (arm_hydration_progress_bound s)"
  unfolding arm_hydration_progress_bound_def by (rule pumped_update_hydration) (auto split: if_splits)

lemma pumped_hydration_updates:
  "pumped s \<Longrightarrow> pumped (update_hydration (\<lambda>h. h\<lparr>hy_history_incomplete := True\<rparr>) s)"
  "pumped s \<Longrightarrow> pumped (update_hydration (\<lambda>h. h\<lparr>hy_finish_received := True\<rparr>) s)"
  "pumped s \<Longrightarrow> pumped (update_hydration (\<lambda>h. h\<lparr>hy_decoder_finished := True\<rparr>) s)"
  "pumped s \<Longrightarrow> pumped (update_hydration (\<lambda>h. h\<lparr>hy_ready_received := True\<rparr>) s)"
  "pumped s \<Longrightarrow> pumped (update_hydration (\<lambda>h. h\<lparr>hy_timer := False\<rparr>) s)"
  "pumped s \<Longrightarrow> pumped (update_hydration (\<lambda>h. h\<lparr>hy_pending_exit := e\<rparr>) s)"
  "pumped s \<Longrightarrow> pumped (update_hydration ((\<lambda>h. h\<lparr>hy_history_incomplete := True\<rparr>)
     \<circ> (\<lambda>h. h\<lparr>hy_finish_received := True\<rparr>)) s)"
  "pumped s \<Longrightarrow> pumped (update_hydration (\<lambda>h. h\<lparr>hy_buffered_output := hy_buffered_output h @ [d],
     hy_buffered_bytes := n\<rparr>) s)"
  by (rule pumped_update_hydration; simp)+

lemma pumped_ensure_hydration: "pumped s \<Longrightarrow> pumped (ensure_hydration g s)"
  using pumped_hydration [of s "Some (new_hydration (next_serial s) g (reader_factory s))"]
  by (auto simp: ensure_hydration_def screen_hydrated_def split: option.splits)

lemma pumped_cancel_hydration: "pumped s \<Longrightarrow> pumped (cancel_hydration s)"
  using pumped_hydration [of "s\<lparr>log := log s @ reader_cancelled s\<rparr>" None]
  by (simp add: cancel_hydration_form screen_hydrated_def)

lemma pumped_complete:
  assumes "pumped s" "hydrates_current s"
  shows "pumped (complete_hydration msg s)"
proof (cases "\<exists>h. hydration s = Some h \<and> \<not> hy_completed h")
  case True
  then obtain h where h: "hydration s = Some h" "\<not> hy_completed h" by blast
  with assms have "is_current_attachment (hy_generation h) s" by (simp add: hydrates_current_def)
  then show ?thesis
    using h by (simp add: complete_hydration_def Let_def pumped_pump)
next
  case False
  then show ?thesis using assms by (auto simp: complete_hydration_def split: option.splits)
qed

lemma pumped_snapshot_finish:
  assumes "inputs_ok s" "pumped s" "hydrates_current s"
  shows "pumped (receive_snapshot_finish s)"
  using assms
  by (simp add: receive_snapshot_finish_def Let_def pumped_close split: option.splits)
    (auto simp: hydrates_current_def intro!: pumped_complete pumped_hydration_updates)

lemma pumped_recover_route: "inputs_ok s \<Longrightarrow> pumped s \<Longrightarrow> pumped (recover_route n msg s)"
  by (simp add: recover_route_def Let_def pumped_close pumped_ensure_attached)

lemma pumped_receive:
  assumes "inputs_ok s" "pumped s"
  shows "pumped (receive_output d g s)" "pumped (receive_process_exit code g s)"
    "pumped (receive_history_unavailable reason g s)" "pumped (receive_route_resync epoch g s)"
    "pumped (receive_attach_state st g s)"
proof -
  show "pumped (receive_output d g s)" "pumped (receive_process_exit code g s)"
    using assms by (simp_all add: receive_output_def receive_process_exit_def buffer_hydrating_output_def
        Let_def pumped_recover_route pumped_hydration_updates split: option.splits)
  show "pumped (receive_history_unavailable reason g s)"
    using assms pumped_ensure_hydration [OF assms(2), of g]
    by (simp add: receive_history_unavailable_def Let_def pumped_close pumped_hydration_updates
        split: option.splits)
  show "pumped (receive_route_resync epoch g s)"
    using assms by (simp add: receive_route_resync_def Let_def pumped_arm pumped_ensure_hydration
        pumped_cancel_hydration)
  show "pumped (receive_attach_state st g s)"
    using assms by (simp add: receive_attach_state_def pumped_pump pumped_recover_route pumped_close
        split: attach_state.splits option.splits)
qed

lemma pumped_dispatch:
  assumes "inputs_ok s" "attach_ok s" "pumped s" "opened_generation s g" "is_current_attachment g s"
  shows "pumped (fst (dispatch_event ev g s))"
  using assms current_stream [OF assms(2,4,5)]
  by (auto simp: dispatch_event_def Let_def pumped_receive pumped_ensure_hydration
      pumped_snapshot_finish pumped_handle_result split: terminal_event.splits)

lemma pumped_emit_event:
  assumes "inputs_ok s" "attach_ok s" "pumped s" "opened_generation s g"
  shows "pumped (fst (emit_terminal_event ev g s))"
proof -
  have frame: "pumped (fst (receive_route_frame fg epoch body g s))"
    if cur: "is_current_attachment g s" for fg epoch body
  proof -
    obtain s' b where sb: "admit_route_generation fg s = (s', b)" by fastforce
    then obtain x where s': "s' = s\<lparr>route_generation := x\<rparr>" using admit_generation_form by blast
    have "pumped (fst (dispatch_event ev g s'))" for ev
      by (rule pumped_dispatch) (use assms cur s' in simp_all)
    then show ?thesis
      using assms sb by (auto simp: receive_route_frame_def pumped_close s' split: sum.splits bool.splits)
  qed
  show ?thesis
    using assms frame by (auto simp: emit_terminal_event_def pumped_close split: stream_event.splits)
qed

lemma pumped_install:
  assumes "inputs_ok s" "pumped s"
  shows "pumped (fst (install_begin g n p r s))" "pumped (install_finish g n r result s)"
  using assms
  by (simp_all add: install_begin_def install_finish_def pumped_close pumped_recover_route pumped_arm
      pumped_hydration_updates split: option.splits sum.splits snapshot_progress.splits)

lemma pumped_run_event:
  assumes "plane_ok s" "pumped s"
  shows "pumped (run_event c s)"
proof (cases "find (\<lambda>t. et_chain t = c) (event_tasks s)")
  case None
  then show ?thesis using assms by (simp add: run_event_def)
next
  case (Some t)
  let ?s = "s\<lparr>event_tasks := remove1 t (event_tasks s)\<rparr>"
  have ok: "inputs_ok ?s" "attach_ok ?s" "pumped ?s"
    using assms by (simp_all add: plane_ok_def attach_ok_remove_task)
  have gen: "opened_generation ?s (et_generation t)"
    using Some assms(1) attach_ok_task_generation find_in by (fastforce simp: plane_ok_def)
  have step: "pumped (case r of (u, next_phase) \<Rightarrow> (case next_phase of None \<Rightarrow> u
       | Some ph \<Rightarrow> u\<lparr>event_tasks := t\<lparr>et_phase := ph\<rparr> # event_tasks u\<rparr>))" if "pumped (fst r)" for r
    using that by (cases r) (auto split: option.splits)
  show ?thesis
    using Some assms(2) step [OF pumped_emit_event [OF ok gen]] step [OF pumped_install(1) [OF ok(1,3)]]
    by (simp add: run_event_def Let_def split: event_phase.splits)
qed

lemma pumped_reader_result: "inputs_ok s \<Longrightarrow> pumped s \<Longrightarrow> pumped (reader_result c r s)"
  by (simp add: reader_result_def pumped_install split: option.splits event_phase.splits)

lemma pumped_send_frames: "inputs_ok s \<Longrightarrow> task_ok s t \<Longrightarrow> pumped s \<Longrightarrow> pumped (send_frames t op s)"
  by (simp add: send_frames_def Let_def pumped_settle_task split: sum.splits list.splits)

lemma pumped_sent_geometry: "pumped s \<Longrightarrow> geometry_operation s \<noteq> None \<Longrightarrow> pumped (s\<lparr>sent_geometry := g\<rparr>)"
  by (auto simp: pumped_parts cong: option.case_cong)

lemma pumped_start_send:
  assumes "inputs_ok s" "task_ok s t" "pumped s"
  shows "pumped (start_send t s)"
  using assms
  by (simp add: start_send_def Let_def pumped_settle_task pumped_pump pumped_send_frames
      pumped_sent_geometry inputs_ok_set_operation split: option.splits)

lemma pumped_sends:
  assumes "inputs_ok s" "pumped s"
  shows "pumped (run_send c s)" "pumped (frame_sent c s)" "pumped (frame_failed c err s)"
proof -
  have ok: "inputs_ok (drop_send_task t s)" "task_ok (drop_send_task t s) t" "pumped (drop_send_task t s)"
    if "first_send_task c s = Some t" for t
    using assms that by (auto intro: inputs_ok_drop_task inputs_ok_task dest: first_send_task_in)
  show "pumped (run_send c s)" "pumped (frame_sent c s)" "pumped (frame_failed c err s)"
    using assms ok
    by (auto simp: run_send_def frame_sent_def frame_failed_def Let_def intro!: pumped_settle_task
        pumped_start_send split: option.splits send_phase.splits list.splits)
qed

lemma attached_ensure_hydration_frame:
  "attached_received (set_attach_phase p ph s) = attached_received s"
  by (simp add: set_attach_phase_def)

lemma pumped_attach_resume:
  assumes "attach_ok s" "pumped s"
  shows "pumped (attach_resume p r s)"
proof (cases "\<exists>t g. find_attach p s = Some t \<and> at_phase t = Attach_hook g \<and> is_current_attachment g s
    \<and> listeners s \<noteq> []")
  case True
  then obtain t g where t: "find_attach p s = Some t" "at_phase t = Attach_hook g"
    "is_current_attachment g s" "listeners s \<noteq> []" by blast
  then have "t \<in> set (attach_tasks s)" by (auto simp: find_attach_def find_Some_iff)
  then have "stream s = None"
    using assms(1) t by (auto simp: attach_ok_def hooks_ok_def hook_ok_def is_current_attachment_def)
  then have "\<not> attached_received s" using assms(1) by (auto simp: attach_ok_def stream_hydrated_def)
  then have "\<not> attached_received (attach_resume p r s)"
    using t by (simp add: attach_resume_def Let_def emit_def set_attach_phase_def split: open_result.splits)
  then show ?thesis by (rule pumped_unsendable)
next
  case False
  then show ?thesis
    using assms(2) by (auto simp: attach_resume_def split: option.splits attach_phase.splits)
qed

lemma pumped_attach_steps:
  assumes "pumped s"
  shows "pumped (stream_ready p route s)" "pumped (stream_rejected p err s)" "pumped (attach_microtask p s)"
proof -
  show "pumped (stream_ready p route s)" "pumped (stream_rejected p err s)"
    using assms by (auto simp: stream_ready_def stream_rejected_def Let_def pumped_arm
        split: option.splits attach_phase.splits)
  have "pumped ((emit_status st ^^ n) u) = pumped u" for st n u by (induction n) simp_all
  then show "pumped (attach_microtask p s)"
    using assms by (auto simp: attach_microtask_def Let_def split: option.splits attach_phase.splits)
qed

lemma pumped_enqueue: "pumped s \<Longrightarrow> pumped (fst (enqueue_input e s))"
  by (simp add: enqueue_input_def Let_def pumped_pump)

lemma pumped_enqueue_pair: "enqueue_input e s = (s', b) \<Longrightarrow> pumped s \<Longrightarrow> pumped s'"
  using pumped_enqueue [of s e] by simp

lemma pumped_calls:
  assumes "pumped s"
  shows "pumped (write_paste t s)" "pumped (resize g s)" "pumped (send_input inp s)"
    "pumped (fst (confirm_unsafe_paste c s))" "pumped (fst (cancel_unsafe_paste c s))"
proof -
  show p: "pumped (write_paste t s)" for t
    using assms by (auto simp: write_paste_def Let_def split: prod.splits bool.splits
        elim!: pumped_enqueue_pair)
  show r: "pumped (resize g s)" for g using assms by (simp add: resize_def pumped_pump)
  show "pumped (send_input inp s)"
    using assms p r by (auto simp: send_input_def Let_def split: semantic_input.splits prod.splits bool.splits
        elim!: pumped_enqueue_pair)
  show "pumped (fst (confirm_unsafe_paste c s))" "pumped (fst (cancel_unsafe_paste c s))"
    using assms by (auto simp: confirm_unsafe_paste_def cancel_unsafe_paste_def
        split: option.splits prod.splits bool.splits elim!: pumped_enqueue_pair)
qed

lemma pumped_reattach: "pumped s \<Longrightarrow> pumped (reattach s)"
  by (simp add: reattach_def pumped_ensure_attached)

lemma pumped_transport:
  assumes "inputs_ok s" "pumped s"
  shows "pumped (handle_transport_lost b s)" "pumped (handle_transport_recovered s)"
    "pumped (handle_lifecycle_event ev b s)"
proof -
  show l: "pumped (handle_transport_lost b s)" for b
    using assms by (simp add: handle_transport_lost_def Let_def pumped_close)
  show r: "pumped (handle_transport_recovered s)"
    using assms by (simp add: handle_transport_recovered_def Let_def pumped_reattach
        split: option.splits prod.splits)
  show "pumped (handle_lifecycle_event ev b s)"
    using assms by (simp add: handle_lifecycle_event_def Let_def l r split: lifecycle_event.splits)
qed

lemma pumped_others:
  assumes "inputs_ok s" "pumped s"
  shows "pumped (subscribe_output l s)" "pumped (unsubscribe_output l s)" "pumped (subscribe_status l s)"
    "pumped (unsubscribe_status l s)" "pumped (subscribe_modes l s)" "pumped (unsubscribe_modes l s)"
    "pumped (subscribe_input_outcomes l s)" "pumped (unsubscribe_input_outcomes l s)"
    "pumped (detach s)" "pumped (recover_resume s)" "pumped (recover_microtask s)"
    "pumped (paste_microtask s)" "pumped (consent_timer s)" "pumped (hydration_timer s)"
    "pumped (enqueue_terminal_event n ev s)"
  using assms
  by (simp_all add: subscribe_output_def unsubscribe_output_def subscribe_status_def
      unsubscribe_status_def subscribe_modes_def unsubscribe_modes_def subscribe_input_outcomes_def
      unsubscribe_input_outcomes_def detach_def recover_resume_def recover_microtask_def
      paste_microtask_def consent_timer_def hydration_timer_def enqueue_terminal_event_def Let_def
      pumped_ensure_attached pumped_close pumped_reattach pumped_transport pumped_recover_route
      pumped_hydration_updates split: nat.splits list.splits option.splits)

lemmas pumped_steps = pumped_calls pumped_transport pumped_others pumped_run_event
  pumped_reader_result pumped_sends pumped_attach_resume pumped_attach_steps

definition working_plane :: "plane \<Rightarrow> bool" where
  "working_plane s \<longleftrightarrow> plane_ok s \<and> pumped s"

lemma working_plane_step:
  assumes "working_plane s"
  shows "working_plane (plane_step ev s)"
proof -
  have ok: "plane_ok s" "inputs_ok s" "attach_ok s" "pumped s"
    using assms by (simp_all add: working_plane_def plane_ok_def)
  then have "pumped (plane_step ev s)" by (cases ev) (simp_all add: pumped_steps)
  with plane_ok_step [OF ok(1)] show ?thesis by (simp add: working_plane_def)
qed

interpretation pump_system: step_system fresh_plane plane_step working_plane
proof unfold_locales
  show "working_plane s" if "fresh_plane s" for s
    using that route_system.init_inv [OF that]
    by (auto simp: working_plane_def fresh_plane_def new_plane_def intro: pumped_unsendable)
qed (rule working_plane_step)

subsection \<open>Properties\<close>

text \<open>
  C24. The queue is drained as far as the window allows: after any step of any run, if the route
  can send (an attached, open stream with a \<open>sendFrame\<close>), either nothing is queued or 32
  operations are in flight.
\<close>

theorem queue_never_stalls:
  "let s = run_plane es (new_plane session sub) in
     sendable_stream s = None \<or> queued_inputs s = [] \<or> 32 \<le> length (inflight_inputs s)"
proof -
  have "working_plane (run_plane es (new_plane session sub))"
    unfolding run_plane_def by (rule pump_system.run_inv) (auto simp: fresh_plane_def)
  then show ?thesis
    by (auto simp: Let_def working_plane_def pumped_def window_full_def plane_bounds)
qed





text \<open>
  The other side of that promise: a \<open>resize\<close> on a plane nobody listens to yet (what the
  terminal grid does when a plane is bound) parks a resolved attach in \<open>attachPromise\<close>, so a
  \<open>subscribeOutput\<close> in the same tick starts no attach, and when the microtasks have run none is
  pending: the listener waits for a stream nobody is opening.
\<close>

theorem resize_before_subscribe_never_attaches:
  "let s = run_plane [Resize g, Subscribe_output l, Attach_microtask 1] (new_plane session None) in
     listeners s = [l] \<and> stream s = None \<and> attach_promise s = None \<and> attach_tasks s = []
     \<and> generation s = 0"
  by (simp add: run_plane_def new_plane_def resize_def ensure_attached_def start_attach_def Let_def
      pump_inputs_def sendable_stream_def subscribe_output_def set_add_def emit_status_def emit_def
      add_waiter_def attach_microtask_def find_attach_def)

end
