(* ===== verification/Entity_Store.thy ===== *)
theory Entity_Store
  imports Base Complex_Main
begin

text \<open>
  The client's entity store: \<open>InMemoryEntityFrameStore\<close> of \<open>src/botster/entities.ts\<close>, with the
  frames it applies, the sequence check that drops a stale delta, the records it hands out and
  the pulls it keeps. An abstract store (functions from families and ids) specifies it.

  \<^item> A record is its \<open>id\<close> and its other properties in insertion order; \<open>{...a, ...b}\<close> updates
    \<open>a\<close> with \<open>b\<close>'s properties one by one.
  \<^item> A \<open>number\<close> sequence is a rational; an absent one is \<open>None\<close>.
  \<^item> \<open>sendPull\<close> belongs to the Hub connection: a pull returns the request it sends.
\<close>

subsection \<open>Values and records\<close>

datatype json =
    J_null
  | J_bool bool
  | J_number rat
  | J_string string
  | J_array "json list"
  | J_object "(string \<times> json) list"

record entity_record =
  er_id :: string
  er_fields :: "(string \<times> json) list"

datatype delta_operation = Entity_upsert | Entity_patch | Entity_remove

datatype entity_frame =
    Entity_snapshot string "entity_record list" "rat option"
  | Entity_delta delta_operation string string "entity_record option" "rat option"

text \<open>\<open>{...base, ...more}\<close>\<close>

definition spread :: "(string \<times> json) list \<Rightarrow> (string \<times> json) list \<Rightarrow> (string \<times> json) list" where
  "spread base extra = fold (\<lambda>(k, v). AList.update k v) extra base"

definition merge_entity_record :: "entity_record option \<Rightarrow> entity_record \<Rightarrow> entity_record" where
  "merge_entity_record existing patch =
     (case existing of None \<Rightarrow> patch
      | Some e \<Rightarrow> \<lparr>er_id = er_id patch, er_fields = spread (er_fields e) (er_fields patch)\<rparr>)"

subsection \<open>The store\<close>

type_synonym family_records = "(string \<times> entity_record) list"

record pull_request =
  pr_family :: string
  pr_id :: "string option"
  pr_where :: "(string \<times> json) list option"
  pr_extra :: "(string \<times> json) list"

text \<open>The key is the tuple \<open>JSON.stringify\<close> writes out; equal keys are equal tuples.\<close>

type_synonym pull_key =
  "string \<times> string option \<times> (string \<times> json) list \<times> (string \<times> json) list"

record entity_store =
  es_records :: "(string \<times> family_records) list"
  es_sequences :: "(string \<times> rat) list"
  es_pulls :: "(pull_key \<times> pull_request) list"

definition empty_store :: entity_store where
  "empty_store = \<lparr>es_records = [], es_sequences = [], es_pulls = []\<rparr>"

definition family_of :: "string \<Rightarrow> entity_store \<Rightarrow> family_records" where
  "family_of f s = (case map_of (es_records s) f of None \<Rightarrow> [] | Some m \<Rightarrow> m)"

definition set_family :: "string \<Rightarrow> family_records \<Rightarrow> entity_store \<Rightarrow> entity_store" where
  "set_family f m s = s\<lparr>es_records := AList.update f m (es_records s)\<rparr>"

definition is_stale_delta :: "string \<Rightarrow> rat option \<Rightarrow> entity_store \<Rightarrow> bool" where
  "is_stale_delta f q s \<longleftrightarrow>
     (case q of None \<Rightarrow> False
      | Some n \<Rightarrow> (case map_of (es_sequences s) f of None \<Rightarrow> False | Some c \<Rightarrow> n < c))"

definition record_sequence :: "string \<Rightarrow> rat option \<Rightarrow> entity_store \<Rightarrow> entity_store" where
  "record_sequence f q s =
     (case q of None \<Rightarrow> s
      | Some n \<Rightarrow>
          (case map_of (es_sequences s) f of
             None \<Rightarrow> s\<lparr>es_sequences := AList.update f n (es_sequences s)\<rparr>
           | Some c \<Rightarrow> if n > c then s\<lparr>es_sequences := AList.update f n (es_sequences s)\<rparr> else s))"

definition snapshot_records :: "entity_record list \<Rightarrow> family_records" where
  "snapshot_records rs = fold (\<lambda>r. AList.update (er_id r) r) rs []"

text \<open>\<open>family(name)\<close> creates the family's map even when the frame then carries no record.\<close>

definition apply_delta ::
    "delta_operation \<Rightarrow> string \<Rightarrow> string \<Rightarrow> entity_record option \<Rightarrow> rat option \<Rightarrow> entity_store
     \<Rightarrow> entity_store" where
  "apply_delta oper f i rec q s0 =
     (if is_stale_delta f q s0 then s0
      else let m = family_of f s0; s = set_family f m s0 in
        if oper = Entity_remove then record_sequence f q (set_family f (AList.delete i m) s)
        else case rec of None \<Rightarrow> s
          | Some given \<Rightarrow>
             (let r = given\<lparr>er_id := i\<rparr>;
                  r = (if oper = Entity_patch then merge_entity_record (map_of m i) r else r)
              in record_sequence f q (set_family f (AList.update i r m) s)))"

fun apply_frame :: "entity_frame \<Rightarrow> entity_store \<Rightarrow> entity_store" where
  "apply_frame (Entity_snapshot f rs q) s =
     (let s = set_family f (snapshot_records rs) s in
      case q of None \<Rightarrow> s | Some n \<Rightarrow> s\<lparr>es_sequences := AList.update f n (es_sequences s)\<rparr>)"
| "apply_frame (Entity_delta oper f i rec q) s = apply_delta oper f i rec q s"

definition get_record :: "string \<Rightarrow> string \<Rightarrow> entity_store \<Rightarrow> entity_record option" where
  "get_record f i s = map_of (family_of f s) i"

definition list_records :: "string \<Rightarrow> entity_store \<Rightarrow> entity_record list" where
  "list_records f s = map snd (family_of f s)"

text \<open>\<open>localeCompare\<close> is the runtime's collation, so the order it sorts by is an argument.\<close>

definition pull_key_of :: "(string \<Rightarrow> string \<Rightarrow> bool) \<Rightarrow> pull_request \<Rightarrow> pull_key" where
  "pull_key_of before r =
     (let by_key = (\<lambda>m. foldr (\<lambda>x ys. takeWhile (\<lambda>y. before (fst y) (fst x)) ys @ [x]
            @ dropWhile (\<lambda>y. before (fst y) (fst x)) ys) m [])
      in (pr_family r, pr_id r,
          (case pr_where r of None \<Rightarrow> [] | Some w \<Rightarrow> by_key w), by_key (pr_extra r)))"

definition pull ::
    "(string \<Rightarrow> string \<Rightarrow> bool) \<Rightarrow> pull_request \<Rightarrow> entity_store \<Rightarrow> entity_store \<times> pull_request" where
  "pull before r s = (s\<lparr>es_pulls := AList.update (pull_key_of before r) r (es_pulls s)\<rparr>, r)"

definition replay_active_pulls :: "entity_store \<Rightarrow> pull_request list" where
  "replay_active_pulls s = map snd (es_pulls s)"

definition active_pull_count :: "entity_store \<Rightarrow> nat" where
  "active_pull_count s = length (es_pulls s)"

definition store_of_frames :: "entity_frame list \<Rightarrow> entity_store" where
  "store_of_frames frs = fold apply_frame frs empty_store"

subsection \<open>Specification\<close>



definition newer :: "rat option \<Rightarrow> rat option \<Rightarrow> bool" where
  "newer c q = (case q of None \<Rightarrow> False | Some n \<Rightarrow> (case c of None \<Rightarrow> True | Some m \<Rightarrow> m < n))"


subsection \<open>The store against its specification\<close>

lemma family_set [simp]: "family_of f (set_family g m s) = (if f = g then m else family_of f s)"
  by (simp add: family_of_def set_family_def update_conv')

lemma sequences_set_family [simp]: "es_sequences (set_family f m s) = es_sequences s"
  by (simp add: set_family_def)

lemma family_record_sequence [simp]: "family_of f (record_sequence g q s) = family_of f s"
  by (simp add: record_sequence_def family_of_def split: option.splits)


lemma sequences_record [simp]:
  "map_of (es_sequences (record_sequence f q s)) =
     (map_of (es_sequences s))(f := if newer (map_of (es_sequences s) f) q then q else map_of (es_sequences s) f)"
  by (rule ext) (simp add: record_sequence_def newer_def update_conv' split: option.splits)





subsection \<open>Invariant\<close>

text \<open>Families hold each id once, and each record under its own id.\<close>

definition keyed_by_id :: "family_records \<Rightarrow> bool" where
  "keyed_by_id m \<longleftrightarrow> distinct (map fst m) \<and> (\<forall>(i, r) \<in> set m. er_id r = i)"

definition store_ok :: "entity_store \<Rightarrow> bool" where
  "store_ok s \<longleftrightarrow> (\<forall>f. keyed_by_id (family_of f s))"

lemma keyed_update: "keyed_by_id m \<Longrightarrow> er_id r = i \<Longrightarrow> keyed_by_id (AList.update i r m)"
proof (induction m)
  case (Cons x m)
  obtain j q where x: "x = (j, q)" by (cases x)
  show ?case
  proof (cases "i = j")
    case True
    with Cons.prems x show ?thesis by (auto simp: keyed_by_id_def)
  next
    case False
    have "keyed_by_id (AList.update i r m)"
      using Cons x by (intro Cons.IH) (auto simp: keyed_by_id_def)
    moreover have "j \<notin> fst ` set (AList.update i r m)"
      using Cons.prems x False by (simp add: keyed_by_id_def dom_update)
    ultimately show ?thesis using False Cons.prems x by (auto simp: keyed_by_id_def)
  qed
qed (simp add: keyed_by_id_def)

lemma keyed_delete: "keyed_by_id m \<Longrightarrow> keyed_by_id (AList.delete i m)"
  using distinct_delete [of m i] by (auto simp: keyed_by_id_def) (auto simp: AList.delete_eq)

lemma keyed_snapshot: "keyed_by_id (snapshot_records rs)"
proof -
  have "keyed_by_id m \<Longrightarrow> keyed_by_id (fold (\<lambda>r. AList.update (er_id r) r) rs m)" for m
    by (induction rs arbitrary: m) (simp_all add: keyed_update)
  moreover have "keyed_by_id []" by (simp add: keyed_by_id_def)
  ultimately show ?thesis unfolding snapshot_records_def by blast
qed

lemma merge_id [simp]: "er_id (merge_entity_record e p) = er_id p"
  by (simp add: merge_entity_record_def split: option.splits)

lemma store_ok_apply: "store_ok s \<Longrightarrow> store_ok (apply_frame fr s)"
proof (cases fr)
  case (Entity_snapshot f rs q)
  assume "store_ok s"
  then have "store_ok (set_family f (snapshot_records rs) s)"
    by (simp add: store_ok_def keyed_snapshot)
  then show ?thesis
    by (simp add: Entity_snapshot Let_def store_ok_def family_of_def split: option.splits)
next
  case (Entity_delta oper f i rec q)
  assume "store_ok s"
  then show ?thesis
    by (auto simp: Entity_delta apply_delta_def Let_def store_ok_def keyed_delete keyed_update
        split: option.splits)
qed

definition is_new_store :: "entity_store \<Rightarrow> bool" where
  "is_new_store s \<longleftrightarrow> s = empty_store"

interpretation entity_system: step_system is_new_store apply_frame store_ok
proof unfold_locales
  show "store_ok s" if "is_new_store s" for s
    using that by (simp add: is_new_store_def store_ok_def empty_store_def family_of_def keyed_by_id_def)
qed (rule store_ok_apply)

subsection \<open>Sequences\<close>

text \<open>A family's sequence is at least \<open>q\<close>; only a snapshot of the family may lower it.\<close>

definition sequence_reached :: "string \<Rightarrow> rat \<Rightarrow> entity_store \<Rightarrow> bool" where
  "sequence_reached f q s \<longleftrightarrow> (\<exists>c. map_of (es_sequences s) f = Some c \<and> q \<le> c)"

fun snapshot_of :: "string \<Rightarrow> entity_frame \<Rightarrow> bool" where
  "snapshot_of f (Entity_snapshot g _ _) = (f = g)"
| "snapshot_of f (Entity_delta _ _ _ _ _) = False"

lemma sequence_reached_record:
  "sequence_reached f q s \<Longrightarrow> sequence_reached f q (record_sequence g r s)"
  by (auto simp: sequence_reached_def newer_def split: option.splits if_splits)

lemma sequence_reached_family [simp]:
  "sequence_reached f q (set_family g m s) = sequence_reached f q s"
  by (simp add: sequence_reached_def)

lemma sequence_reached_apply:
  assumes "sequence_reached f q s" "\<not> snapshot_of f fr"
  shows "sequence_reached f q (apply_frame fr s)"
proof (cases fr)
  case (Entity_snapshot g rs r)
  with assms show ?thesis
    by (auto simp: Let_def sequence_reached_def update_conv' split: option.splits)
next
  case (Entity_delta oper g i rec r)
  with assms(1) show ?thesis
    by (simp add: apply_delta_def Let_def sequence_reached_record split: option.splits)
qed

lemma sequence_reached_fold:
  "sequence_reached f q s \<Longrightarrow> \<forall>fr \<in> set frs. \<not> snapshot_of f fr \<Longrightarrow> sequence_reached f q (fold apply_frame frs s)"
  by (induction frs arbitrary: s) (auto simp: sequence_reached_apply)

lemma sequence_reached_own:
  assumes "oper = Entity_remove \<or> rec \<noteq> None"
  shows "sequence_reached f q (apply_frame (Entity_delta oper f i rec (Some q)) s)"
proof (cases "is_stale_delta f (Some q) s")
  case True
  then show ?thesis
    by (auto simp: apply_delta_def is_stale_delta_def sequence_reached_def split: option.splits)
next
  case False
  have "sequence_reached f q (record_sequence f (Some q) u)" if "es_sequences u = es_sequences s" for u
    using False that
    by (auto simp: sequence_reached_def newer_def is_stale_delta_def split: option.splits)
  then show ?thesis using False assms by (auto simp: apply_delta_def Let_def split: option.splits)
qed

lemma stale_is_ignored: "sequence_reached f c s \<Longrightarrow> q < c \<Longrightarrow> apply_frame (Entity_delta oper f i rec (Some q)) s = s"
  by (auto simp: sequence_reached_def apply_delta_def is_stale_delta_def)

subsection \<open>Properties\<close>


text \<open>
  What a family lists is what it answers: after any frames, \<open>list\<close> has one record per known
  id, under that id and carrying it, and \<open>get\<close> finds exactly those records.
\<close>

theorem entity_list_matches_get:
  "let s = store_of_frames frs in
     distinct (map er_id (list_records f s))
     \<and> (\<forall>i. get_record f i s = find (\<lambda>r. er_id r = i) (list_records f s))"
proof -
  have "store_ok (store_of_frames frs)"
    unfolding store_of_frames_def by (rule entity_system.run_inv) (simp add: is_new_store_def)
  then have ok: "keyed_by_id (family_of f (store_of_frames frs))" by (simp add: store_ok_def)
  have get: "map_of m i = find (\<lambda>r. er_id r = i) (map snd m)" if "keyed_by_id m" for m i
    using that by (induction m) (auto simp: keyed_by_id_def)
  have ids: "map er_id (map snd m) = map fst m" if "keyed_by_id m" for m
    using that by (auto simp: keyed_by_id_def)
  have "distinct (map fst (family_of f (store_of_frames frs)))" using ok by (simp add: keyed_by_id_def)
  then show ?thesis
    using get [OF ok] by (simp only: Let_def get_record_def list_records_def ids [OF ok] simp_thms)
qed

text \<open>
  Late deltas lose: once a delta of a family with a sequence has been applied, then whatever
  deltas and other families' snapshots follow, a delta of that family with a smaller sequence
  changes nothing.
\<close>

theorem late_delta_ignored:
  assumes "oper = Entity_remove \<or> rec \<noteq> None" "\<forall>fr \<in> set frs. \<not> snapshot_of f fr" "q' < q"
  shows "let s' = fold apply_frame frs (apply_frame (Entity_delta oper f i rec (Some q)) s)
         in apply_frame (Entity_delta oper' f i' rec' (Some q')) s' = s'"
  using stale_is_ignored [OF sequence_reached_fold [OF sequence_reached_own [OF assms(1)] assms(2)] assms(3)]
  by (simp add: Let_def)

lemma late_delta_ignored_witness:
  "let up = (\<lambda>q v. Entity_delta Entity_upsert ''session'' ''a''
         (Some \<lparr>er_id = ''a'', er_fields = [(''n'', J_number v)]\<rparr>) (Some q));
       s = fold apply_frame [Entity_snapshot ''package'' [] (Some 1)] (apply_frame (up 5 1) empty_store)
   in apply_frame (up 4 2) s = s"
  using late_delta_ignored [of Entity_upsert "Some \<lparr>er_id = ''a'', er_fields = [(''n'', J_number 1)]\<rparr>"
      "[Entity_snapshot ''package'' [] (Some 1)]" "''session''" 4 5 "''a''" empty_store Entity_upsert "''a''"
      "Some \<lparr>er_id = ''a'', er_fields = [(''n'', J_number 2)]\<rparr>"]
  by simp

end
