(* ===== verification/Action_Dispatcher.thy ===== *)
theory Action_Dispatcher
  imports Entity_Store
begin

text \<open>
  Correlated semantic actions: \<open>CorrelatedActionDispatcher\<close> of \<open>src/botster/actions.ts\<close>. A
  dispatch sends an envelope and returns a promise; a result frame, a failed send, the deadline
  or a transport loss settles it.

  \<^item> A promise is the serial number of its dispatch; \<open>resolved\<close> lists the settlements in order.
  \<^item> An id of the default generator, \<open>ui-action-n\<close>, is \<open>Generated n\<close>.
  \<^item> A timer is armed for a promise with the request id its closure holds.
\<close>

subsection \<open>Requests and results\<close>

datatype request_id = Generated nat | Supplied string

datatype action_origin = Ui_node | Terminal_view | Plugin_surface

record action_request =
  aq_action_id :: "string option"
  aq_origin :: action_origin
  aq_body :: json

record action_envelope =
  ae_request_id :: request_id
  ae_request :: action_request

record result_envelope =
  re_request_id :: request_id
  re_accepted :: "bool option"
  re_ok :: "bool option"
  re_result :: "json option"
  re_reason :: "string option"
  re_error :: "string option"

record action_result =
  ar_accepted :: bool
  ar_request_id :: request_id
  ar_result :: "json option"
  ar_reason :: "string option"
  ar_plugin_result :: "json option"

record recent_result =
  rr_request_id :: request_id
  rr_accepted :: bool
  rr_reason :: "string option"
  rr_action_id :: "string option"
  rr_origin :: action_origin
  rr_resolved_at :: nat

record pending_action =
  pa_promise :: nat
  pa_action_id :: "string option"
  pa_origin :: action_origin

definition MAX_RECENT_ACTION_RESULTS :: nat where "MAX_RECENT_ACTION_RESULTS = 32"

record dispatcher =
  pending :: "(request_id \<times> pending_action) list"
  recent :: "recent_result list"
  timers :: "(nat \<times> request_id) list"
  next_id :: nat
  next_promise :: nat
  envelopes :: "action_envelope list"
  resolved :: "(nat \<times> action_result) list"
  history :: "recent_result list"
  time :: nat

definition new_dispatcher :: dispatcher where
  "new_dispatcher = \<lparr>pending = [], recent = [], timers = [], next_id = 1, next_promise = 0,
     envelopes = [], resolved = [], history = [], time = 0\<rparr>"

subsection \<open>Operations\<close>

text \<open>A truthy optional string is one that is present and not empty.\<close>

definition truthy_string :: "string option \<Rightarrow> string option" where
  "truthy_string r = (case r of None \<Rightarrow> None | Some x \<Rightarrow> if x = [] then None else Some x)"

fun truthy :: "json \<Rightarrow> bool" where
  "truthy J_null = False"
| "truthy (J_bool b) = b"
| "truthy (J_number n) = (n \<noteq> 0)"
| "truthy (J_string s) = (s \<noteq> [])"
| "truthy (J_array _) = True"
| "truthy (J_object _) = True"

text \<open>The ledger drops its oldest entries beyond the bound.\<close>

definition push_recent :: "recent_result \<Rightarrow> recent_result list \<Rightarrow> recent_result list" where
  "push_recent r rs =
     drop (length (rs @ [r]) - MAX_RECENT_ACTION_RESULTS) (rs @ [r])"

definition resolve :: "request_id \<Rightarrow> action_result \<Rightarrow> dispatcher \<Rightarrow> dispatcher" where
  "resolve i res s =
     (case map_of (pending s) i of None \<Rightarrow> s
      | Some p \<Rightarrow>
          (let entry = \<lparr>rr_request_id = i, rr_accepted = ar_accepted res,
                 rr_reason = truthy_string (ar_reason res),
                 rr_action_id = truthy_string (pa_action_id p), rr_origin = pa_origin p,
                 rr_resolved_at = time s\<rparr>
           in s\<lparr>timers := filter (\<lambda>t. fst t \<noteq> pa_promise p) (timers s),
                pending := AList.delete i (pending s),
                recent := push_recent entry (recent s),
                history := history s @ [entry],
                resolved := resolved s @ [(pa_promise p, res)]\<rparr>))"

definition failed :: "request_id \<Rightarrow> string \<Rightarrow> action_result" where
  "failed i reason = \<lparr>ar_accepted = False, ar_request_id = i, ar_result = None,
     ar_reason = Some reason, ar_plugin_result = None\<rparr>"

definition dispatch_as :: "request_id \<Rightarrow> action_request \<Rightarrow> dispatcher \<Rightarrow> dispatcher" where
  "dispatch_as i q s =
     s\<lparr>timers := timers s @ [(next_promise s, i)],
       pending := AList.update i \<lparr>pa_promise = next_promise s, pa_action_id = aq_action_id q,
         pa_origin = aq_origin q\<rparr> (pending s),
       next_promise := Suc (next_promise s),
       envelopes := envelopes s @ [\<lparr>ae_request_id = i, ae_request = q\<rparr>]\<rparr>"

definition dispatch :: "action_request \<Rightarrow> dispatcher \<Rightarrow> dispatcher" where
  "dispatch q s = dispatch_as (Generated (next_id s)) q (s\<lparr>next_id := Suc (next_id s)\<rparr>)"

definition plugin_action_result :: "json option \<Rightarrow> json option" where
  "plugin_action_result r =
     (case r of Some (J_object fs) \<Rightarrow>
        (case map_of fs ''plugin_action_result'' of None \<Rightarrow> None
         | Some v \<Rightarrow> if truthy v then Some v else None)
      | _ \<Rightarrow> None)"

definition receive_result :: "result_envelope \<Rightarrow> dispatcher \<Rightarrow> dispatcher" where
  "receive_result e s =
     (if map_of (pending s) (re_request_id e) = None then s
      else resolve (re_request_id e)
        \<lparr>ar_accepted = (case re_accepted e of Some b \<Rightarrow> b | None \<Rightarrow>
             (case re_ok e of Some b \<Rightarrow> b | None \<Rightarrow> False)),
         ar_request_id = re_request_id e, ar_result = re_result e,
         ar_reason = (case re_reason e of Some r \<Rightarrow> Some r | None \<Rightarrow> re_error e),
         ar_plugin_result = plugin_action_result (re_result e)\<rparr> s)"

definition reject_pending :: "string \<Rightarrow> dispatcher \<Rightarrow> dispatcher" where
  "reject_pending reason s =
     fold (\<lambda>i. resolve i (failed i reason)) (map fst (pending s)) s"

definition pending_count :: "dispatcher \<Rightarrow> nat" where
  "pending_count s = length (pending s)"

definition timer_fires :: "nat \<Rightarrow> dispatcher \<Rightarrow> dispatcher" where
  "timer_fires n s =
     (case map_of (timers s) n of None \<Rightarrow> s
      | Some i \<Rightarrow> resolve i (failed i ''action_result timeout'')
                    (s\<lparr>timers := filter (\<lambda>t. fst t \<noteq> n) (timers s)\<rparr>))"

text \<open>The rejected promise of \<open>options.send(envelope)\<close>.\<close>

definition send_failed :: "request_id \<Rightarrow> string \<Rightarrow> dispatcher \<Rightarrow> dispatcher" where
  "send_failed i msg = resolve i (failed i msg)"

record request_state =
  rs_pending_count :: nat
  rs_pending_request_ids :: "request_id list"
  rs_recent_results :: "recent_result list"

definition get_request_state :: "dispatcher \<Rightarrow> request_state" where
  "get_request_state s = \<lparr>rs_pending_count = length (pending s),
     rs_pending_request_ids = map fst (pending s), rs_recent_results = recent s\<rparr>"

datatype dispatcher_event =
    Dispatch action_request
  | Result result_envelope
  | Reject string
  | Timer nat
  | Send_failed request_id string
  | Tick nat

fun dispatcher_step :: "dispatcher_event \<Rightarrow> dispatcher \<Rightarrow> dispatcher" where
  "dispatcher_step (Dispatch q) s = dispatch q s"
| "dispatcher_step (Result e) s = receive_result e s"
| "dispatcher_step (Reject r) s = reject_pending r s"
| "dispatcher_step (Timer n) s = timer_fires n s"
| "dispatcher_step (Send_failed i m) s = send_failed i m s"
| "dispatcher_step (Tick n) s = s\<lparr>time := time s + n\<rparr>"

subsection \<open>Invariant\<close>

definition last_recent :: "recent_result list \<Rightarrow> recent_result list" where
  "last_recent h = drop (length h - MAX_RECENT_ACTION_RESULTS) h"

lemma push_recent_last: "push_recent r (last_recent h) = last_recent (h @ [r])"
proof (cases "length h < MAX_RECENT_ACTION_RESULTS")
  case True
  then show ?thesis by (simp add: push_recent_def last_recent_def)
next
  case False
  then have len: "length h + 1 - MAX_RECENT_ACTION_RESULTS = Suc (length h - MAX_RECENT_ACTION_RESULTS)"
    by simp
  let ?k = "length h - MAX_RECENT_ACTION_RESULTS"
  have "length (last_recent h) = MAX_RECENT_ACTION_RESULTS" using False by (simp add: last_recent_def)
  then have "push_recent r (last_recent h) = drop 1 (last_recent h @ [r])"
    by (simp add: push_recent_def)
  also have "\<dots> = drop 1 (drop ?k h) @ [r]"
    using False by (simp add: last_recent_def MAX_RECENT_ACTION_RESULTS_def)
  also have "\<dots> = last_recent (h @ [r])"
    using len by (simp add: last_recent_def) (simp add: MAX_RECENT_ACTION_RESULTS_def)
  finally show ?thesis .
qed

definition pending_promises :: "dispatcher \<Rightarrow> nat list" where
  "pending_promises s = map (pa_promise \<circ> snd) (pending s)"

definition dispatcher_ok :: "dispatcher \<Rightarrow> bool" where
  "dispatcher_ok s \<longleftrightarrow>
     distinct (map fst (pending s)) \<and> (\<forall>i \<in> set (map fst (pending s)). \<exists>n. i = Generated n \<and> n < next_id s)
     \<and> distinct (pending_promises s @ map fst (resolved s))
     \<and> set (pending_promises s) \<union> set (map fst (resolved s)) = {..<next_promise s}
     \<and> (\<forall>t \<in> set (timers s). fst t < next_promise s)
     \<and> (\<forall>(i, p) \<in> set (pending s). map_of (timers s) (pa_promise p) = Some i)
     \<and> recent s = last_recent (history s) \<and> length (history s) = length (resolved s)"


lemma update_fresh_key: "k \<notin> set (map fst m) \<Longrightarrow> AList.update k v m = m @ [(k, v)]"
  by (induction m) auto

lemma dispatcher_ok_dispatch:
  assumes "dispatcher_ok s"
  shows "dispatcher_ok (dispatch q s)"
proof -
  have fresh: "Generated (next_id s) \<notin> set (map fst (pending s))"
    using assms by (auto simp: dispatcher_ok_def)
  have new: "next_promise s \<notin> set (pending_promises s)" "next_promise s \<notin> set (map fst (resolved s))"
    using assms by (auto simp: dispatcher_ok_def)
  have timer: "map_of (timers s) (next_promise s) = None"
    using assms by (auto simp: dispatcher_ok_def map_of_eq_None_iff)
  show ?thesis
    using assms fresh new timer
    by (auto simp: dispatcher_ok_def dispatch_def dispatch_as_def update_fresh_key pending_promises_def
        less_Suc_eq lessThan_Suc map_add_def split: option.splits)
qed

lemma delete_filter: "AList.delete i m = filter (\<lambda>x. fst x \<noteq> i) m"
  unfolding AList.delete_eq by (rule filter_cong) auto

lemma pending_split:
  assumes "distinct (map fst m)" "map_of m i = Some p"
  obtains xs ys where "m = xs @ (i, p) # ys" "AList.delete i m = xs @ ys"
proof -
  from assms(2) obtain xs ys where m: "m = xs @ (i, p) # ys" by (meson map_of_SomeD split_list)
  have "i \<notin> fst ` set xs" "i \<notin> fst ` set ys" using assms(1) unfolding m by auto
  then have "filter (\<lambda>x. fst x \<noteq> i) xs = xs" "filter (\<lambda>x. fst x \<noteq> i) ys = ys"
    by (force intro!: filter_True)+
  then have "AList.delete i m = xs @ ys" unfolding m delete_filter by simp
  with m that show thesis by blast
qed

lemma map_of_filter_key: "n \<noteq> k \<Longrightarrow> map_of (filter (\<lambda>t. fst t \<noteq> k) m) n = map_of m n"
  by (induction m) auto

lemma dispatcher_ok_resolve:
  assumes "dispatcher_ok s"
  shows "dispatcher_ok (resolve i r s)"
proof (cases "map_of (pending s) i")
  case None
  then show ?thesis using assms by (simp add: resolve_def)
next
  case (Some p)
  from assms have "distinct (map fst (pending s))" by (simp add: dispatcher_ok_def)
  from pending_split [OF this Some] obtain xs ys where m: "pending s = xs @ (i, p) # ys"
    "AList.delete i (pending s) = xs @ ys" by metis
  have dp: "distinct (map (pa_promise \<circ> snd) (xs @ (i, p) # ys) @ map fst (resolved s))"
    using assms by (simp add: dispatcher_ok_def pending_promises_def m(1))
  then have "pa_promise p \<notin> (pa_promise \<circ> snd) ` set (xs @ ys)" by auto
  then have other: "pa_promise q \<noteq> pa_promise p" if "(j, q) \<in> set (xs @ ys)" for j q
    using that by (metis comp_apply imageI snd_conv)
  have armed: "map_of (timers s) (pa_promise q) = Some j" if "(j, q) \<in> set (pending s)" for j q
    using assms that by (auto simp: dispatcher_ok_def)
  define entry where "entry = \<lparr>rr_request_id = i, rr_accepted = ar_accepted r,
     rr_reason = truthy_string (ar_reason r), rr_action_id = truthy_string (pa_action_id p),
     rr_origin = pa_origin p, rr_resolved_at = time s\<rparr>"
  have s': "resolve i r s = s\<lparr>timers := filter (\<lambda>t. fst t \<noteq> pa_promise p) (timers s), pending := xs @ ys,
      recent := push_recent entry (recent s), history := history s @ [entry],
      resolved := resolved s @ [(pa_promise p, r)]\<rparr>"
    using Some m by (simp add: resolve_def entry_def Let_def)
  have timers: "map_of (filter (\<lambda>t. fst t \<noteq> pa_promise p) (timers s)) (pa_promise q) = Some j"
    if "(j, q) \<in> set (xs @ ys)" for j q
    using map_of_filter_key [OF other [OF that], of "timers s"] armed [of j q] that by (auto simp: m(1))
  have sets: "set (pending_promises (resolve i r s)) \<union> set (map fst (resolved (resolve i r s))) =
      set (pending_promises s) \<union> set (map fst (resolved s))"
    unfolding s' pending_promises_def m(1) by auto
  have dist: "distinct (pending_promises (resolve i r s) @ map fst (resolved (resolve i r s)))"
    using dp by (simp add: s' pending_promises_def)
  have keys: "distinct (map fst (xs @ ys))" "set (map fst (xs @ ys)) \<subseteq> set (map fst (pending s))"
    using assms by (auto simp: dispatcher_ok_def m(1))
  have ids: "\<forall>j \<in> set (map fst (pending s)). \<exists>n. j = Generated n \<and> n < next_id s"
    "set (pending_promises s) \<union> set (map fst (resolved s)) = {..<next_promise s}"
    "\<forall>t \<in> set (timers s). fst t < next_promise s" "recent s = last_recent (history s)"
    "length (history s) = length (resolved s)"
    using assms by (simp_all add: dispatcher_ok_def)
  have ids': "\<forall>j \<in> set (map fst (xs @ ys)). \<exists>n. j = Generated n \<and> n < next_id s"
    using ids(1) keys(2) by blast
  have fields: "pending (resolve i r s) = xs @ ys" "next_id (resolve i r s) = next_id s"
    "next_promise (resolve i r s) = next_promise s"
    "timers (resolve i r s) = filter (\<lambda>t. fst t \<noteq> pa_promise p) (timers s)"
    "recent (resolve i r s) = push_recent entry (recent s)" "history (resolve i r s) = history s @ [entry]"
    "length (resolved (resolve i r s)) = Suc (length (resolved s))"
    by (simp_all add: s')
  show ?thesis
    unfolding dispatcher_ok_def
  proof (intro conjI)
    show "set (pending_promises (resolve i r s)) \<union> set (map fst (resolved (resolve i r s))) =
        {..<next_promise (resolve i r s)}"
      unfolding sets fields by (rule ids)
    show "\<forall>t \<in> set (timers (resolve i r s)). fst t < next_promise (resolve i r s)"
      using ids(3) by (simp add: fields)
    show "recent (resolve i r s) = last_recent (history (resolve i r s))"
      by (simp add: fields ids(4) push_recent_last)
    show "distinct (map fst (pending (resolve i r s)))"
      "\<forall>j \<in> set (map fst (pending (resolve i r s))). \<exists>n. j = Generated n \<and> n < next_id (resolve i r s)"
      using keys(1) ids' by (simp_all only: fields)
    show "\<forall>(j, q) \<in> set (pending (resolve i r s)). map_of (timers (resolve i r s)) (pa_promise q) = Some j"
      using timers by (simp only: fields) blast
    show "length (history (resolve i r s)) = length (resolved (resolve i r s))"
      by (simp add: fields ids(5))
  qed (rule dist)
qed

lemma resolve_next [simp]: "next_promise (resolve i r s) = next_promise s"
  by (simp add: resolve_def Let_def split: option.splits)

text \<open>A timer that fired is spent; its closure then settles its own request, if still pending.\<close>

lemma dispatcher_ok_timer:
  assumes "dispatcher_ok s"
  shows "dispatcher_ok (timer_fires n s)"
proof (cases "map_of (timers s) n")
  case None
  then show ?thesis using assms by (simp add: timer_fires_def)
next
  case (Some i)
  define r where "r = failed i ''action_result timeout''"
  let ?s = "s\<lparr>timers := filter (\<lambda>t. fst t \<noteq> n) (timers s)\<rparr>"
  have fire: "timer_fires n s = resolve i r ?s" by (simp add: timer_fires_def Some r_def)
  show ?thesis
  proof (cases "\<exists>p. map_of (pending s) i = Some p \<and> pa_promise p = n")
    case True
    then obtain p where p: "map_of (pending s) i = Some p" "pa_promise p = n" by blast
    then have "resolve i r ?s = resolve i r s" by (simp add: resolve_def Let_def)
    then show ?thesis using dispatcher_ok_resolve [OF assms] fire by simp
  next
    case False
    have "pa_promise q \<noteq> n" if "(j, q) \<in> set (pending s)" for j q
    proof
      assume "pa_promise q = n"
      moreover have "map_of (timers s) (pa_promise q) = Some j" using assms that by (auto simp: dispatcher_ok_def)
      ultimately have "j = i" using Some by simp
      moreover have "map_of (pending s) j = Some q" using assms that by (simp add: dispatcher_ok_def)
      ultimately show False using False \<open>pa_promise q = n\<close> by blast
    qed
    then have "dispatcher_ok ?s"
      using assms by (auto simp: dispatcher_ok_def pending_promises_def map_of_filter_key)
    then show ?thesis using dispatcher_ok_resolve fire by simp
  qed
qed

lemma dispatcher_ok_reject: "dispatcher_ok s \<Longrightarrow> dispatcher_ok (reject_pending reason s)"
proof -
  have "dispatcher_ok s \<Longrightarrow> dispatcher_ok (fold (\<lambda>i. resolve i (failed i reason)) is s)" for "is"
    by (induction "is" arbitrary: s) (simp_all add: dispatcher_ok_resolve)
  then show "dispatcher_ok s \<Longrightarrow> dispatcher_ok (reject_pending reason s)" by (simp add: reject_pending_def)
qed

lemma dispatcher_ok_step: "dispatcher_ok s \<Longrightarrow> dispatcher_ok (dispatcher_step ev s)"
proof (cases ev)
  case (Tick n)
  assume "dispatcher_ok s"
  then show ?thesis by (simp add: Tick) (simp add: dispatcher_ok_def pending_promises_def)
qed (simp_all add: dispatcher_ok_dispatch dispatcher_ok_resolve dispatcher_ok_timer
    dispatcher_ok_reject receive_result_def send_failed_def)

interpretation action_system: step_system "\<lambda>s. s = new_dispatcher" dispatcher_step dispatcher_ok
proof unfold_locales
  show "dispatcher_ok s" if "s = new_dispatcher" for s
    using that by (simp add: new_dispatcher_def dispatcher_ok_def pending_promises_def last_recent_def)
qed (rule dispatcher_ok_step)

lemma run_dispatcher_ok: "dispatcher_ok (fold dispatcher_step es new_dispatcher)"
  by (rule action_system.run_inv) (rule refl)

subsection \<open>Rejecting everything\<close>

lemma resolve_pending: "pending (resolve i r s) = filter (\<lambda>x. fst x \<noteq> i) (pending s)"
proof (cases "map_of (pending s) i")
  case None
  then have "i \<notin> fst ` set (pending s)" by (simp add: map_of_eq_None_iff)
  then have "filter (\<lambda>x. fst x \<noteq> i) (pending s) = pending s" by (auto simp: filter_id_conv image_iff)
  then show ?thesis by (simp add: resolve_def None)
qed (simp add: resolve_def Let_def delete_filter)

lemma reject_pending_empties: "pending (reject_pending reason s) = []"
proof -
  have "pending (fold (\<lambda>i. resolve i (failed i reason)) is s) = filter (\<lambda>x. fst x \<notin> set is) (pending s)" for "is"
    by (induction "is" arbitrary: s) (simp_all add: resolve_pending conj_commute)
  then show ?thesis by (simp add: reject_pending_def filter_empty_conv)
qed

subsection \<open>Properties\<close>

text \<open>
  C39. Every dispatched action is answered exactly once. After any run, a promise given out is
  either still pending or settled, never both and never twice, and a pending one has its deadline
  timer armed for its own request id, so it cannot hang.
\<close>

theorem action_answered_once:
  "let s = fold dispatcher_step es new_dispatcher in
     distinct (map (pa_promise \<circ> snd) (pending s) @ map fst (resolved s))
     \<and> set (map (pa_promise \<circ> snd) (pending s) @ map fst (resolved s)) = {..<next_promise s}
     \<and> list_all (\<lambda>(i, p). map_of (timers s) (pa_promise p) = Some i) (pending s)"
  using run_dispatcher_ok [of es]
  by (simp add: Let_def dispatcher_ok_def pending_promises_def list_all_iff)

text \<open>
  The recent-result ledger holds exactly the last 32 settlements, oldest first, one for each
  settled promise; and when the transport is lost, \<open>rejectPending\<close> leaves nothing pending.
\<close>

theorem recent_results_are_the_last:
  "let s = fold dispatcher_step es new_dispatcher in
     recent s = drop (length (history s) - 32) (history s) \<and> length (history s) = length (resolved s)
     \<and> length (recent s) \<le> 32 \<and> pending (reject_pending reason s) = []"
  using run_dispatcher_ok [of es] reject_pending_empties [of reason]
  by (simp add: Let_def dispatcher_ok_def last_recent_def MAX_RECENT_ACTION_RESULTS_def)

end
