(* ===== verification/Delivery_Chunks.thy ===== *)
theory Delivery_Chunks
  imports Terminal_Input "HOL-Library.Sublist"
begin

text \<open>
  What the WebRTC client reads before it trusts a message (\<open>src/botster/webrtcDaemonClient.ts\<close>):
  the values \<open>JSON.parse\<close> returns, the checks of \<open>parseDeliveryChunk\<close> and \<open>parseServerFrame\<close>, the
  compatibility check of a Hello acknowledgement (\<open>src/botster/protocolPlanes.ts\<close>), and the
  decryption of a JSON envelope. WebCrypto, \<open>JSON.parse\<close>, \<open>atob\<close> and the coercion of a string or an
  object to a number are fields of \<open>platform\<close>, an argument of what uses them.
\<close>

subsection \<open>Values and failures\<close>

datatype js_num = Num rat | Plus_infinity | Minus_infinity | Not_a_number

datatype jvalue =
    V_null
  | V_bool bool
  | V_number js_num
  | V_string js_string
  | V_array "jvalue list"
  | V_object "(js_string \<times> jvalue) list"

text \<open>A property read; \<open>None\<close> is \<open>undefined\<close>. Of two members with one name \<open>JSON.parse\<close> keeps the last.\<close>

definition field :: "string \<Rightarrow> (js_string \<times> jvalue) list \<Rightarrow> jvalue option" where
  "field k fs = map_of (rev fs) (js k)"

record platform =
  json_parse :: "js_string \<Rightarrow> jvalue option"
  base64_decode :: "jvalue option \<Rightarrow> bytes option"
  gcm_seal :: "bytes \<Rightarrow> bytes \<Rightarrow> bytes"
  gcm_open :: "bytes \<Rightarrow> bytes \<Rightarrow> bytes option"
  decode_text :: "bytes \<Rightarrow> js_string"
  coerce_number :: "jvalue \<Rightarrow> js_num"

datatype failure_stage = Bootstrap | Signaling | Transport | Encryption | Data_plane

datatype failure_part = L string | S js_string | N nat | Shown "jvalue option"

datatype failure =
    Webrtc_failure failure_stage "failure_part list"
  | Thrown string

definition fails :: "failure_stage \<Rightarrow> string \<Rightarrow> failure + 'a" where
  "fails stage msg = Inl (Webrtc_failure stage [L msg])"

definition utf8_byte_length :: "js_string \<Rightarrow> nat" where
  "utf8_byte_length s = length (text_encode s)"

definition rat_is_int :: "rat \<Rightarrow> bool" where
  "rat_is_int q \<longleftrightarrow> of_int \<lfloor>q\<rfloor> = q"

definition safe_integer :: "jvalue option \<Rightarrow> int option" where
  "safe_integer v =
     (case v of
        Some (V_number (Num q)) \<Rightarrow>
          if rat_is_int q \<and> \<bar>\<lfloor>q\<rfloor>\<bar> \<le> MAX_SAFE_INTEGER then Some \<lfloor>q\<rfloor> else None
      | _ \<Rightarrow> None)"

definition is_integer_in_range :: "jvalue option \<Rightarrow> int \<Rightarrow> int \<Rightarrow> bool" where
  "is_integer_in_range v lo hi =
     (case safe_integer v of None \<Rightarrow> False | Some i \<Rightarrow> lo \<le> i \<and> i \<le> hi)"

subsection \<open>Delivery chunks\<close>

definition LOCAL_WEBRTC_DELIVERY_CHUNK_VERSION :: nat where "LOCAL_WEBRTC_DELIVERY_CHUNK_VERSION = 2"
definition MAX_FRAME_BYTES_EXCLUSIVE :: nat where "MAX_FRAME_BYTES_EXCLUSIVE = 65536"
definition MAX_RESPONSE_BYTES :: nat where "MAX_RESPONSE_BYTES = 16777216"

datatype delivery_kind = Server_frame

record delivery_chunk =
  dc_kind :: delivery_kind
  dc_message_id :: js_string
  dc_index :: nat
  dc_count :: nat
  dc_total :: nat
  dc_payload :: js_string

text \<open>The safe integer a checked member holds.\<close>

definition int_of :: "jvalue option \<Rightarrow> int" where
  "int_of v = (case safe_integer v of None \<Rightarrow> 0 | Some i \<Rightarrow> i)"

definition string_of :: "jvalue option \<Rightarrow> js_string option" where
  "string_of v = (case v of Some (V_string s) \<Rightarrow> Some s | _ \<Rightarrow> None)"

definition parse_delivery_chunk :: "jvalue option \<Rightarrow> failure + delivery_chunk" where
  "parse_delivery_chunk value =
     (case value of
        None \<Rightarrow> fails Data_plane ''local WebRTC response chunk is not valid JSON''
      | Some (V_object chunk) \<Rightarrow>
          (let message_id = string_of (field ''message_id'' chunk);
               payload = string_of (field ''payload'' chunk);
               count = int_of (field ''chunk_count'' chunk);
               total = int_of (field ''total_bytes'' chunk) in
           if field ''version'' chunk \<noteq> Some (V_number (Num 2))
           then fails Data_plane ''local WebRTC delivery chunk version is unsupported''
           else if string_of (field ''delivery_kind'' chunk) \<noteq> Some (js ''server_frame'')
           then fails Data_plane ''local WebRTC delivery chunk kind is unsupported''
           else if message_id = None \<or> message_id = Some []
           then fails Data_plane ''local WebRTC response chunk message id is invalid''
           else if \<not> is_integer_in_range (field ''chunk_count'' chunk) 1 MAX_SAFE_INTEGER
           then fails Data_plane ''local WebRTC response chunk count is invalid''
           else if \<not> is_integer_in_range (field ''total_bytes'' chunk) 1 (int MAX_RESPONSE_BYTES)
           then fails Data_plane ''local WebRTC response total bytes are invalid''
           else if count > total
           then fails Data_plane ''local WebRTC response chunk count exceeds total bytes''
           else if \<not> is_integer_in_range (field ''chunk_index'' chunk) 0 (count - 1)
           then fails Data_plane ''local WebRTC response chunk index is invalid''
           else (case payload of
               None \<Rightarrow> fails Data_plane ''local WebRTC response chunk payload is empty or invalid''
             | Some p \<Rightarrow>
                 if utf8_byte_length p = 0 \<or> int (utf8_byte_length p) > total
                 then fails Data_plane ''local WebRTC response chunk payload bytes are invalid''
                 else Inr \<lparr>dc_kind = Server_frame, dc_message_id = the message_id,
                   dc_index = nat (int_of (field ''chunk_index'' chunk)), dc_count = nat count,
                   dc_total = nat total, dc_payload = p\<rparr>))
      | _ \<Rightarrow> fails Data_plane ''local WebRTC response chunk must be an object'')"

text \<open>What the checks promise of a chunk that passes.\<close>

definition chunk_ok :: "delivery_chunk \<Rightarrow> bool" where
  "chunk_ok c \<longleftrightarrow> dc_message_id c \<noteq> [] \<and> dc_index c < dc_count c \<and> dc_count c \<le> dc_total c
     \<and> dc_total c \<le> MAX_RESPONSE_BYTES \<and> dc_payload c \<noteq> []
     \<and> 0 < utf8_byte_length (dc_payload c) \<and> utf8_byte_length (dc_payload c) \<le> dc_total c"

lemma in_range_int_of: "is_integer_in_range v lo hi \<Longrightarrow> lo \<le> int_of v \<and> int_of v \<le> hi"
  by (auto simp: is_integer_in_range_def int_of_def split: option.splits)

lemma utf8_byte_length_Nil [simp]: "utf8_byte_length [] = 0"
  by (simp add: utf8_byte_length_def text_encode_def)

lemma parsed_chunk_ok: "parse_delivery_chunk v = Inr c \<Longrightarrow> chunk_ok c"
proof -
  assume p: "parse_delivery_chunk v = Inr c"
  then obtain fs where v: "v = Some (V_object fs)"
    by (auto simp: parse_delivery_chunk_def fails_def split: option.splits jvalue.splits)
  note in_range = in_range_int_of [of "field ''chunk_count'' fs"]
    in_range_int_of [of "field ''total_bytes'' fs"] in_range_int_of [of "field ''chunk_index'' fs"]
  show ?thesis
    using p in_range
    by (fastforce simp: v parse_delivery_chunk_def fails_def Let_def chunk_ok_def MAX_RESPONSE_BYTES_def
        split: if_splits option.splits)
qed

subsection \<open>Server frames\<close>

datatype server_frame =
    Hello_ack jvalue
  | Response js_string jvalue
  | Host_event jvalue
  | Entity_delivery jvalue
  | Close_frame jvalue

definition is_object :: "jvalue option \<Rightarrow> bool" where
  "is_object v = (case v of Some (V_array _) \<Rightarrow> True | Some (V_object _) \<Rightarrow> True | _ \<Rightarrow> False)"

definition digit :: "code_unit \<Rightarrow> bool" where
  "digit u \<longleftrightarrow> 48 \<le> u \<and> u \<le> 57"

text \<open>\<open>/^[1-9][0-9]{0,19}$/\<close>\<close>

fun decimal_request_id :: "js_string \<Rightarrow> bool" where
  "decimal_request_id [] = False"
| "decimal_request_id (u # us) = (digit u \<and> u \<noteq> 48 \<and> list_all digit us \<and> length us \<le> 19)"

definition parse_server_frame :: "jvalue \<Rightarrow> failure + server_frame" where
  "parse_server_frame value =
     (case value of
        V_object frame \<Rightarrow>
          (let tag = string_of (field ''frame'' frame);
               malformed = Inl (Webrtc_failure Data_plane
                 [L ''host control frame is malformed: '', Shown (field ''frame'' frame)]);
               carrying = (\<lambda>k con. if is_object (field k frame) then Inr (con (the (field k frame)))
                             else malformed) in
           if tag = Some (js ''hello_ack'') then carrying ''ack'' Hello_ack
           else if tag = Some (js ''response'') then
             (case string_of (field ''request_id'' frame) of
                None \<Rightarrow> malformed
              | Some i \<Rightarrow> if decimal_request_id i then carrying ''response'' (Response i) else malformed)
           else if tag = Some (js ''event'') then carrying ''event'' Host_event
           else if tag = Some (js ''entity'') then carrying ''entity'' Entity_delivery
           else if tag = Some (js ''close'') then carrying ''reason'' Close_frame
           else malformed)
      | _ \<Rightarrow> fails Data_plane ''host control frame must be a JSON object'')"

text \<open>A property of a value that is not \<open>null\<close> or \<open>undefined\<close>.\<close>

definition property_of :: "string \<Rightarrow> jvalue \<Rightarrow> jvalue option" where
  "property_of k v = (case v of V_object fs \<Rightarrow> field k fs | _ \<Rightarrow> None)"

definition describe_close_reason :: "jvalue \<Rightarrow> failure_part list" where
  "describe_close_reason reason =
     (if property_of ''reason'' reason = Some (V_string (js ''protocol_error''))
      then [L ''protocol error '', Shown (property_of ''code'' reason)]
      else [Shown (property_of ''reason'' reason)])"

subsection \<open>Compatibility\<close>

definition HOST_PROTOCOL :: js_string where "HOST_PROTOCOL = js ''botster-hub-daemon-v1''"
definition TERMINAL_PROTOCOL :: js_string where "TERMINAL_PROTOCOL = js ''botster-terminal-v2''"
definition TERMINAL_PROTOCOL_VERSION :: rat where "TERMINAL_PROTOCOL_VERSION = 2"
definition TERMINAL_CONFORMANCE :: rat where "TERMINAL_CONFORMANCE = 4"

definition required_terminal_features :: "js_string list" where
  "required_terminal_features = map js [''terminal_streaming'', ''resize'', ''transport=duplex_binary'',
     ''snapshot_delivery=ready_then_history'']"

definition truthy_value :: "jvalue option \<Rightarrow> bool" where
  "truthy_value v =
     (case v of None \<Rightarrow> False | Some V_null \<Rightarrow> False | Some (V_bool b) \<Rightarrow> b
      | Some (V_number x) \<Rightarrow> x \<noteq> Num 0 \<and> x \<noteq> Not_a_number | Some (V_string s) \<Rightarrow> s \<noteq> []
      | Some (V_array _) \<Rightarrow> True | Some (V_object _) \<Rightarrow> True)"

definition to_number :: "platform \<Rightarrow> jvalue option \<Rightarrow> js_num" where
  "to_number P v =
     (case v of None \<Rightarrow> Not_a_number | Some V_null \<Rightarrow> Num 0 | Some (V_bool b) \<Rightarrow> Num (if b then 1 else 0)
      | Some (V_number x) \<Rightarrow> x | Some w \<Rightarrow> coerce_number P w)"

text \<open>\<open>value < bound\<close>: a comparison with \<open>NaN\<close> is false.\<close>

definition below :: "platform \<Rightarrow> jvalue option \<Rightarrow> rat \<Rightarrow> bool" where
  "below P v bound =
     (case to_number P v of Num q \<Rightarrow> q < bound | Minus_infinity \<Rightarrow> True
      | Plus_infinity \<Rightarrow> False | Not_a_number \<Rightarrow> False)"

text \<open>\<open>features.includes\<close>, on an array or a string; on any other value the call throws.\<close>

definition features_include :: "jvalue option \<Rightarrow> js_string \<Rightarrow> bool option" where
  "features_include v feature =
     (case v of Some (V_array vs) \<Rightarrow> Some (V_string feature \<in> set vs)
      | Some (V_string s) \<Rightarrow> Some (sublist feature s)
      | _ \<Rightarrow> None)"

definition every_feature :: "jvalue option \<Rightarrow> failure + bool" where
  "every_feature v =
     (if features_include v [] = None then Inl (Thrown ''TypeError'')
      else Inr (list_all (\<lambda>f. features_include v f = Some True) required_terminal_features))"

definition is_terminal_compatibility_accepted :: "platform \<Rightarrow> jvalue option \<Rightarrow> failure + bool" where
  "is_terminal_compatibility_accepted P compatibility =
     (if \<not> truthy_value compatibility then Inr False
      else let c = the compatibility in
        if property_of ''protocol'' c \<noteq> Some (V_string TERMINAL_PROTOCOL) then Inr False
        else if below P (property_of ''protocol_version'' c) TERMINAL_PROTOCOL_VERSION then Inr False
        else if below P (property_of ''conformance_fixture_revision'' c) TERMINAL_CONFORMANCE then Inr False
        else every_feature (property_of ''features'' c))"

subsection \<open>Encrypted envelopes\<close>

text \<open>
  \<open>decryptDaemonPayload\<close>: the envelope is JSON with a base64 nonce and ciphertext, the plaintext
  is JSON again. A library call that throws gives \<open>None\<close>.
\<close>

definition decrypt_daemon_payload :: "platform \<Rightarrow> js_string \<Rightarrow> jvalue option" where
  "decrypt_daemon_payload P envelope_json =
     (case json_parse P envelope_json of
        None \<Rightarrow> None
      | Some V_null \<Rightarrow> None
      | Some envelope \<Rightarrow>
          (case (base64_decode P (property_of ''nonce'' envelope),
                 base64_decode P (property_of ''ciphertext'' envelope)) of
             (Some nonce, Some ciphertext) \<Rightarrow>
               (case gcm_open P nonce ciphertext of
                  None \<Rightarrow> None
                | Some plaintext \<Rightarrow> json_parse P (decode_text P plaintext))
           | _ \<Rightarrow> None))"

end
