(* ===== verification/Terminal_Chunks.thy ===== *)
theory Terminal_Chunks
  imports Delivery_Chunks
begin

text \<open>
  Binary terminal chunks (\<open>parseTerminalChunk\<close>, \<open>sealTerminalChunk\<close>, \<open>openTerminalChunk\<close> and the
  chunking loop of \<open>sendTerminalFrame\<close> in \<open>src/botster/webrtcDaemonClient.ts\<close>), and what the
  messages of one frame say to the peer that opens them. Encryption is \<open>gcm_seal\<close> and
  \<open>gcm_open\<close> of the platform; \<open>gcm_ok\<close> is the documented behaviour of AES-GCM the code relies on.
\<close>

subsection \<open>Layout\<close>

definition TERMINAL_CHUNK_HEADER_BYTES :: nat where "TERMINAL_CHUNK_HEADER_BYTES = 33"
definition TERMINAL_CHUNK_NONCE_BYTES :: nat where "TERMINAL_CHUNK_NONCE_BYTES = 12"
definition TERMINAL_CHUNK_TAG_BYTES :: nat where "TERMINAL_CHUNK_TAG_BYTES = 16"
definition TERMINAL_CHUNK_PLAINTEXT_BYTES :: nat where "TERMINAL_CHUNK_PLAINTEXT_BYTES = 12288"
definition LOCAL_WEBRTC_MAX_FRAME_BYTES :: nat where "LOCAL_WEBRTC_MAX_FRAME_BYTES = 65536"
definition LOCAL_WEBRTC_MAX_DELIVERY_BYTES :: nat where "LOCAL_WEBRTC_MAX_DELIVERY_BYTES = 16777216"

lemmas chunk_constants = TERMINAL_CHUNK_HEADER_BYTES_def TERMINAL_CHUNK_NONCE_BYTES_def
  TERMINAL_CHUNK_TAG_BYTES_def TERMINAL_CHUNK_PLAINTEXT_BYTES_def LOCAL_WEBRTC_MAX_FRAME_BYTES_def
  LOCAL_WEBRTC_MAX_DELIVERY_BYTES_def LOCAL_WEBRTC_DELIVERY_CHUNK_VERSION_def

record chunk_header =
  ch_message_id :: nat
  ch_index :: nat
  ch_count :: nat
  ch_total :: nat
  ch_generation :: nat
  ch_epoch :: nat

definition parse_terminal_chunk :: "bytes \<Rightarrow> (chunk_header \<times> bytes) option" where
  "parse_terminal_chunk m =
     (if length m < TERMINAL_CHUNK_HEADER_BYTES + (TERMINAL_CHUNK_NONCE_BYTES + TERMINAL_CHUNK_TAG_BYTES)
      then None
      else if unat (m ! 0) \<noteq> LOCAL_WEBRTC_DELIVERY_CHUNK_VERSION then None
      else let h = \<lparr>ch_message_id = get_le 8 1 m, ch_index = get_le 4 9 m, ch_count = get_le 4 13 m,
                    ch_total = get_le 4 17 m, ch_generation = get_le 8 21 m, ch_epoch = get_le 4 29 m\<rparr>
           in if ch_count h = 0 \<or> ch_count h \<le> ch_index h
                \<or> LOCAL_WEBRTC_MAX_DELIVERY_BYTES < ch_total h \<or> max 1 (ch_total h) < ch_count h
              then None
              else Some (h, drop TERMINAL_CHUNK_HEADER_BYTES m))"

definition header_bytes :: "chunk_header \<Rightarrow> bytes" where
  "header_bytes h = [word_of_int (int LOCAL_WEBRTC_DELIVERY_CHUNK_VERSION)] @ le_bytes 8 (int (ch_message_id h))
     @ le_bytes 4 (int (ch_index h)) @ le_bytes 4 (int (ch_count h)) @ le_bytes 4 (int (ch_total h))
     @ le_bytes 8 (int (ch_generation h)) @ le_bytes 4 (int (ch_epoch h))"

definition seal_terminal_chunk :: "platform \<Rightarrow> bytes \<Rightarrow> chunk_header \<Rightarrow> bytes \<Rightarrow> bytes" where
  "seal_terminal_chunk P nonce h plaintext = header_bytes h @ nonce @ gcm_seal P nonce plaintext"

definition open_terminal_chunk :: "platform \<Rightarrow> bytes \<Rightarrow> bytes option" where
  "open_terminal_chunk P sealed =
     gcm_open P (take TERMINAL_CHUNK_NONCE_BYTES sealed) (drop TERMINAL_CHUNK_NONCE_BYTES sealed)"

definition chunk_count :: "bytes \<Rightarrow> nat" where
  "chunk_count frame =
     max 1 ((length frame + TERMINAL_CHUNK_PLAINTEXT_BYTES - 1) div TERMINAL_CHUNK_PLAINTEXT_BYTES)"

definition chunk_slice :: "bytes \<Rightarrow> nat \<Rightarrow> bytes" where
  "chunk_slice frame i =
     take (min ((i + 1) * TERMINAL_CHUNK_PLAINTEXT_BYTES) (length frame) - i * TERMINAL_CHUNK_PLAINTEXT_BYTES)
       (drop (i * TERMINAL_CHUNK_PLAINTEXT_BYTES) frame)"

subsection \<open>What the layout carries\<close>

text \<open>AES-GCM with one key: opening what was sealed gives it back, and sealing adds the tag.\<close>

definition gcm_ok :: "platform \<Rightarrow> bool" where
  "gcm_ok P \<longleftrightarrow> (\<forall>n p. gcm_open P n (gcm_seal P n p) = Some p
     \<and> length (gcm_seal P n p) = length p + TERMINAL_CHUNK_TAG_BYTES)"

definition header_fits :: "chunk_header \<Rightarrow> bool" where
  "header_fits h \<longleftrightarrow> ch_message_id h < 2 ^ 64 \<and> ch_count h < 2 ^ 32 \<and> ch_generation h < 2 ^ 64
     \<and> ch_epoch h < 2 ^ 32 \<and> ch_index h < ch_count h \<and> ch_count h \<le> max 1 (ch_total h)
     \<and> ch_total h \<le> LOCAL_WEBRTC_MAX_DELIVERY_BYTES"

lemma length_header_bytes [simp]: "length (header_bytes h) = 33"
  by (simp add: header_bytes_def)

lemma length_seal [simp]:
  "gcm_ok P \<Longrightarrow> length (seal_terminal_chunk P n h p) = 33 + length n + length p + 16"
  by (simp add: seal_terminal_chunk_def gcm_ok_def chunk_constants)

lemma header_fields:
  assumes "header_fits h"
  shows "get_le 8 1 (header_bytes h @ r) = ch_message_id h" "get_le 4 9 (header_bytes h @ r) = ch_index h"
    "get_le 4 13 (header_bytes h @ r) = ch_count h" "get_le 4 17 (header_bytes h @ r) = ch_total h"
    "get_le 8 21 (header_bytes h @ r) = ch_generation h" "get_le 4 29 (header_bytes h @ r) = ch_epoch h"
  using assms
  by (simp_all add: header_bytes_def get_le_def header_fits_def chunk_constants drop_Cons' take_Cons'
      le_value_le_bytes max_def split: if_splits)

lemma parse_seal:
  assumes "gcm_ok P" "header_fits h" "length n = TERMINAL_CHUNK_NONCE_BYTES"
  shows "parse_terminal_chunk (seal_terminal_chunk P n h p) = Some (h, n @ gcm_seal P n p)"
    and "open_terminal_chunk P (n @ gcm_seal P n p) = Some p"
proof -
  let ?m = "seal_terminal_chunk P n h p"
  have "length ?m = 33 + 12 + length p + 16" using assms by (simp add: chunk_constants)
  moreover have "unat (?m ! 0) = 2"
    by (simp add: seal_terminal_chunk_def header_bytes_def chunk_constants)
  ultimately show "parse_terminal_chunk ?m = Some (h, n @ gcm_seal P n p)"
    using assms(2) header_fields [OF assms(2)]
    by (simp add: parse_terminal_chunk_def seal_terminal_chunk_def chunk_constants Let_def header_fits_def
        max_def split: if_splits)
  show "open_terminal_chunk P (n @ gcm_seal P n p) = Some p"
    using assms by (simp add: open_terminal_chunk_def gcm_ok_def)
qed

subsection \<open>The slices of a frame\<close>

lemma chunk_count_pos: "0 < chunk_count frame"
  by (simp add: chunk_count_def)

lemma chunk_count_covers: "length frame \<le> chunk_count frame * 12288"
proof -
  have "length frame + 12287 < (length frame + 12287) div 12288 * 12288 + 12288"
    using div_mult_mod_eq [of "length frame + 12287" 12288] mod_less_divisor [of 12288 "length frame + 12287"]
    by linarith
  then have "length frame \<le> (length frame + 12287) div 12288 * 12288" by linarith
  also have "\<dots> \<le> chunk_count frame * 12288"
    by (simp add: chunk_count_def chunk_constants)
  finally show ?thesis .
qed

lemma chunk_count_needed: "frame \<noteq> [] \<Longrightarrow> (chunk_count frame - 1) * 12288 < length frame"
proof -
  assume "frame \<noteq> []"
  then have "0 < length frame" by simp
  moreover have "(length frame + 12287) div 12288 * 12288 \<le> length frame + 12287" by simp
  ultimately show ?thesis
    by (simp add: chunk_count_def chunk_constants max_def diff_mult_distrib) linarith
qed

lemma chunk_count_le_total: "chunk_count frame \<le> max 1 (length frame)"
proof (cases "frame = []")
  case False
  then have "(chunk_count frame - 1) * 12288 < length frame" by (rule chunk_count_needed)
  then have "chunk_count frame - 1 < length frame" by linarith
  then show ?thesis by linarith
qed (simp add: chunk_count_def chunk_constants)

lemma chunk_slice_take_drop: "chunk_slice frame i = take 12288 (drop (i * 12288) frame)"
  by (auto simp: chunk_slice_def chunk_constants min_def)

lemma length_chunk_slice: "length (chunk_slice frame i) \<le> TERMINAL_CHUNK_PLAINTEXT_BYTES"
  by (simp add: chunk_slice_take_drop chunk_constants)

text \<open>The slices up to an index are the frame up to there.\<close>

definition slices :: "bytes \<Rightarrow> nat \<Rightarrow> bytes" where
  "slices frame n = concat (map (chunk_slice frame) [0..<n])"

lemma slices_Suc: "slices frame (Suc n) = slices frame n @ chunk_slice frame n"
  by (simp add: slices_def)

lemma slices_take: "slices frame n = take (n * 12288) frame"
proof (induction n)
  case (Suc n)
  have "take (Suc n * 12288) frame = take (n * 12288) frame @ take 12288 (drop (n * 12288) frame)"
    by (simp add: take_add [symmetric] add.commute)
  then show ?case by (simp add: slices_Suc Suc chunk_slice_take_drop)
qed (simp add: slices_def)

lemma slices_all: "slices frame (chunk_count frame) = frame"
  using chunk_count_covers by (simp add: slices_take)

lemma slices_length: "n \<le> chunk_count frame \<Longrightarrow> length (slices frame n) \<le> length frame"
  by (simp add: slices_take)

end
