(* ===== verification/Terminal_Channel.thy ===== *)
theory Terminal_Channel
  imports Terminal_Chunks
begin

text \<open>
  One reserved terminal DataChannel of \<open>WebrtcDaemonTransport\<close>: \<open>openTerminalChannel\<close> with its
  message listener and inbound admission, \<open>handleTerminalChannelMessage\<close>, \<open>sendTerminalFrame\<close>,
  \<open>closeTerminalChannel\<close> and the part of \<open>rejectReservedChannel\<close> that names a terminal binding
  (\<open>src/botster/webrtcDaemonClient.ts\<close>). Each \<open>await\<close> splits a handler in two steps, so that a
  close, a timer or another message may come between; \<open>phase\<close> says where the one running handler
  of the promise chain waits, \<open>opening\<close> where the opener does.
\<close>

subsection \<open>State\<close>

definition MAXIMUM_QUEUED_FRAMES :: nat where "MAXIMUM_QUEUED_FRAMES = 256"
definition MAXIMUM_QUEUED_BYTES :: nat where "MAXIMUM_QUEUED_BYTES = 8 * 1024 * 1024"

datatype channel_state = Connecting | Channel_open | Channel_closing | Channel_closed

datatype channel_data = Text_data js_string | Binary_data bytes | Other_data

datatype ready_state = Ready_pending | Ready_resolved | Ready_rejected failure

record chunk_assembly =
  ca_message_id :: nat
  ca_count :: nat
  ca_total :: nat
  ca_generation :: nat
  ca_epoch :: nat
  ca_next :: nat
  ca_body :: bytes
  ca_received :: nat

record route_event =
  re_generation :: nat
  re_epoch :: nat
  re_body :: bytes

datatype handler_phase =
    No_handler
  | Waiting_text js_string
  | Waiting_open chunk_header bytes
  | Waiting_consumer

datatype opening_phase =
    Waiting_channel
  | Encrypting_hello
  | Waiting_ready
  | Opening_returned
  | Opening_threw failure

record seal_task =
  sk_message_id :: nat
  sk_frame :: bytes
  sk_index :: nat

record tchannel =
  tc_channel :: channel_state
  tc_key_present :: bool
  tc_peer_current :: bool
  tc_closed :: bool
  tc_admitted :: bool
  tc_core_generation :: "nat option"
  tc_rejection :: "failure option"
  tc_readiness :: ready_state
  tc_listener_closed :: bool
  tc_assembly :: "chunk_assembly option"
  tc_assembly_timer :: bool
  tc_outbound_message_id :: nat
  tc_last_inbound_message_id :: nat
  tc_admitted_frames :: nat
  tc_admitted_bytes :: nat
  tc_queue :: "channel_data list"
  tc_phase :: handler_phase
  tc_opening :: opening_phase
  tc_sealing :: "seal_task list"
  tc_sent :: "bytes list"
  tc_send_results :: "(nat \<times> failure option) list"
  tc_delivered :: "(nat \<times> route_event) list"
  tc_lifecycle :: "nat list"

definition new_terminal_channel :: tchannel where
  "new_terminal_channel = \<lparr>tc_channel = Connecting, tc_key_present = True, tc_peer_current = True, tc_closed = False,
     tc_admitted = False, tc_core_generation = None, tc_rejection = None, tc_readiness = Ready_pending,
     tc_listener_closed = False, tc_assembly = None, tc_assembly_timer = False, tc_outbound_message_id = 0,
     tc_last_inbound_message_id = 0, tc_admitted_frames = 0, tc_admitted_bytes = 0, tc_queue = [], tc_phase = No_handler,
     tc_opening = Waiting_channel, tc_sealing = [], tc_sent = [], tc_send_results = [], tc_delivered = [], tc_lifecycle = []\<rparr>"

text \<open>The checks before the binding exists, and what the created channel starts as.\<close>

definition open_terminal_channel :: "bool \<Rightarrow> bool \<Rightarrow> bool \<Rightarrow> bool \<Rightarrow> failure + tchannel" where
  "open_terminal_channel owner_closed control_open key creation_throws =
     (if owner_closed then fails Transport ''terminal reservation owner closed before channel creation''
      else if \<not> key \<or> \<not> control_open
      then fails Transport ''terminal reservation arrived without an open control peer''
      else if creation_throws then fails Transport ''terminal DataChannel creation failed''
      else Inr new_terminal_channel)"

subsection \<open>Closing\<close>

definition reject_ready :: "failure \<Rightarrow> tchannel \<Rightarrow> tchannel" where
  "reject_ready f s = (if tc_readiness s = Ready_pending then s\<lparr>tc_readiness := Ready_rejected f\<rparr> else s)"

definition resolve_ready :: "tchannel \<Rightarrow> tchannel" where
  "resolve_ready s = (if tc_readiness s = Ready_pending then s\<lparr>tc_readiness := Ready_resolved\<rparr> else s)"

definition admitted_terminal_generation :: "tchannel \<Rightarrow> failure + nat" where
  "admitted_terminal_generation s =
     (case tc_core_generation s of
        Some g \<Rightarrow> if tc_admitted s then Inr g
          else fails Data_plane ''terminal channel used before its HelloAck named a generation''
      | None \<Rightarrow> fails Data_plane ''terminal channel used before its HelloAck named a generation'')"

definition close_terminal_channel :: "bool \<Rightarrow> tchannel \<Rightarrow> tchannel" where
  "close_terminal_channel remote s =
     (if tc_closed s then s
      else let t = (reject_ready (Webrtc_failure Transport [L ''terminal subscription channel closed''])
              (s\<lparr>tc_closed := True\<rparr>))
            \<lparr>tc_assembly_timer := False,
             tc_listener_closed := tc_listener_closed s \<or> \<not> remote \<or> \<not> tc_admitted s,
             tc_channel := (if tc_channel s = Channel_closed then Channel_closed else Channel_closing)\<rparr>
        in if remote \<and> tc_admitted s
           then (case admitted_terminal_generation s of
               Inr g \<Rightarrow> t\<lparr>tc_lifecycle := tc_lifecycle s @ [g]\<rparr>
             | Inl _ \<Rightarrow> t)
           else t)"

text \<open>The \<open>catch\<close> of the message chain.\<close>

definition handler_failed :: "failure \<Rightarrow> tchannel \<Rightarrow> tchannel" where
  "handler_failed f s = close_terminal_channel True (reject_ready f s)"

subsection \<open>Inbound admission\<close>

fun inbound_frame_bytes :: "channel_data \<Rightarrow> nat" where
  "inbound_frame_bytes (Text_data t) = length t"
| "inbound_frame_bytes (Binary_data b) = length b"
| "inbound_frame_bytes Other_data = 0"

definition admit_inbound_frame :: "nat \<Rightarrow> tchannel \<Rightarrow> tchannel option" where
  "admit_inbound_frame n s =
     (if tc_admitted_frames s + 1 > MAXIMUM_QUEUED_FRAMES \<or> tc_admitted_bytes s + n > MAXIMUM_QUEUED_BYTES then None
      else Some (s\<lparr>tc_admitted_frames := tc_admitted_frames s + 1, tc_admitted_bytes := tc_admitted_bytes s + n\<rparr>))"

definition release_inbound_frame :: "nat \<Rightarrow> tchannel \<Rightarrow> tchannel" where
  "release_inbound_frame n s =
     s\<lparr>tc_admitted_frames := tc_admitted_frames s - 1, tc_admitted_bytes := tc_admitted_bytes s - n\<rparr>"

definition inbound_admission_failure :: "string \<Rightarrow> tchannel \<Rightarrow> failure" where
  "inbound_admission_failure name s = Webrtc_failure Data_plane
     [L name, L '' DataChannel inbound admission exceeded '', N (tc_admitted_frames s), L '' queued frames and '',
      N (tc_admitted_bytes s), L '' queued bytes'']"

definition message_arrives :: "channel_data \<Rightarrow> tchannel \<Rightarrow> tchannel" where
  "message_arrives d s =
     (if tc_closed s then s
      else case admit_inbound_frame (inbound_frame_bytes d) s of
        None \<Rightarrow> close_terminal_channel True (reject_ready (inbound_admission_failure ''terminal'' s) s)
      | Some t \<Rightarrow> t\<lparr>tc_queue := tc_queue t @ [d]\<rparr>)"

subsection \<open>The message handler\<close>

text \<open>The \<open>finally\<close> of the chain: the head message gives its admission back.\<close>

definition handler_done :: "tchannel \<Rightarrow> tchannel" where
  "handler_done s =
     (case tc_queue s of
        [] \<Rightarrow> s\<lparr>tc_phase := No_handler\<rparr>
      | d # ds \<Rightarrow> release_inbound_frame (inbound_frame_bytes d) (s\<lparr>tc_queue := ds, tc_phase := No_handler\<rparr>))"

text \<open>A handler step either throws, or leaves a state and says whether the handler is over.\<close>

definition handled :: "failure + tchannel \<Rightarrow> tchannel \<Rightarrow> tchannel" where
  "handled r s =
     (case r of Inl f \<Rightarrow> handler_done (handler_failed f s)
      | Inr t \<Rightarrow> (if tc_phase t = No_handler then handler_done t else t))"

definition begin_text :: "platform \<Rightarrow> js_string \<Rightarrow> tchannel \<Rightarrow> failure + tchannel" where
  "begin_text P t s =
     (if \<not> tc_key_present s then fails Encryption ''terminal response key is unavailable''
      else if MAX_FRAME_BYTES_EXCLUSIVE \<le> utf8_byte_length t
      then fails Data_plane ''terminal DataChannel control delivery exceeds the transport limit''
      else case parse_delivery_chunk (json_parse P t) of
        Inl f \<Rightarrow> Inl f
      | Inr c \<Rightarrow>
          if dc_index c \<noteq> 0 \<or> dc_count c \<noteq> 1
          then fails Data_plane ''terminal DataChannel control delivery must be one chunk''
          else Inr (s\<lparr>tc_phase := Waiting_text (dc_payload c)\<rparr>))"

definition finish_text :: "platform \<Rightarrow> js_string \<Rightarrow> tchannel \<Rightarrow> failure + tchannel" where
  "finish_text P payload s0 =
     (let s = s0\<lparr>tc_phase := No_handler\<rparr>;
          unexpected = fails Data_plane ''terminal DataChannel received an unexpected control frame'' in
      case decrypt_daemon_payload P payload of
        None \<Rightarrow> Inl (Thrown ''OperationError'')
      | Some v \<Rightarrow>
          (case parse_server_frame v of
             Inl f \<Rightarrow> Inl f
           | Inr (Close_frame reason) \<Rightarrow> Inl (Webrtc_failure Data_plane
               (L ''terminal DataChannel closed by Hub: '' # describe_close_reason reason))
           | Inr (Hello_ack ack) \<Rightarrow>
               if tc_admitted s then unexpected
               else if property_of ''protocol'' ack \<noteq> Some (V_string HOST_PROTOCOL)
               then fails Data_plane ''terminal DataChannel Hello was rejected''
               else (case is_terminal_compatibility_accepted P (property_of ''terminal_compatibility'' ack) of
                   Inl f \<Rightarrow> Inl f
                 | Inr False \<Rightarrow> fails Data_plane ''terminal DataChannel Hello was rejected''
                 | Inr True \<Rightarrow>
                     (case safe_integer (property_of ''terminal_generation'' ack) of
                        Some g \<Rightarrow>
                          if 0 \<le> g then Inr (resolve_ready (s\<lparr>tc_core_generation := Some (nat g), tc_admitted := True\<rparr>))
                          else fails Data_plane
                            ''terminal DataChannel HelloAck omitted a valid terminal_generation''
                      | None \<Rightarrow> fails Data_plane
                          ''terminal DataChannel HelloAck omitted a valid terminal_generation''))
           | Inr _ \<Rightarrow> unexpected))"

text \<open>The assembly a chunk belongs to: the one in progress, or a new one its first chunk opens.\<close>

definition start_assembly :: "chunk_header \<Rightarrow> tchannel \<Rightarrow> failure + tchannel" where
  "start_assembly h s =
     (if tc_assembly s \<noteq> None then Inr s
      else if ch_index h \<noteq> 0 then fails Data_plane ''terminal delivery did not start at chunk zero''
      else if ch_message_id h \<le> tc_last_inbound_message_id s
      then fails Data_plane ''terminal channel message id did not increase''
      else if LOCAL_WEBRTC_MAX_DELIVERY_BYTES < ch_total h
      then fails Data_plane ''terminal delivery exceeds the delivery limit''
      else Inr (s\<lparr>tc_assembly := Some \<lparr>ca_message_id = ch_message_id h, ca_count = ch_count h,
             ca_total = ch_total h, ca_generation = ch_generation h, ca_epoch = ch_epoch h, ca_next = 0,
             ca_body = replicate (ch_total h) 0, ca_received = 0\<rparr>, tc_assembly_timer := True\<rparr>))"

definition matches_assembly :: "chunk_header \<Rightarrow> chunk_assembly \<Rightarrow> bool" where
  "matches_assembly h a \<longleftrightarrow> ca_message_id a = ch_message_id h \<and> ca_count a = ch_count h
     \<and> ca_total a = ch_total h \<and> ca_generation a = ch_generation h \<and> ca_epoch a = ch_epoch h
     \<and> ch_index h = ca_next a"

text \<open>
  When the handler throws after \<open>binding.assembly\<close> was set, the tc_assembly stays in the binding:
  the failure is returned with the state it happened in.
\<close>

definition begin_binary :: "bytes \<Rightarrow> tchannel \<Rightarrow> tchannel \<times> failure option" where
  "begin_binary m s =
     (let failed = (\<lambda>msg. (s, Some (Webrtc_failure Data_plane [L msg]))) in
      if \<not> tc_key_present s
      then (s, Some (Webrtc_failure Encryption [L ''terminal response key is unavailable'']))
      else if \<not> tc_admitted s then failed ''terminal DataChannel carried data before admission''
      else if LOCAL_WEBRTC_MAX_FRAME_BYTES \<le> length m
      then failed ''terminal DataChannel delivery must be a bounded binary chunk''
      else case parse_terminal_chunk m of
        None \<Rightarrow> failed ''terminal DataChannel chunk header was invalid''
      | Some (h, sealed) \<Rightarrow>
          if tc_core_generation s \<noteq> Some (ch_generation h) then (s, None)
          else (case start_assembly h s of
              Inl f \<Rightarrow> (s, Some f)
            | Inr t \<Rightarrow>
                (case tc_assembly t of
                   None \<Rightarrow> (t, None)
                 | Some a \<Rightarrow>
                     if matches_assembly h a then (t\<lparr>tc_phase := Waiting_open h sealed\<rparr>, None)
                     else (t, Some (Webrtc_failure Data_plane
                       [L ''terminal delivery chunk order or metadata was invalid''])))))"

text \<open>\<open>assembly.body.set(piece, receivedBytes)\<close>\<close>

definition body_set :: "bytes \<Rightarrow> nat \<Rightarrow> bytes \<Rightarrow> bytes" where
  "body_set piece off body = take off body @ piece @ drop (off + length piece) body"

definition finish_binary :: "platform \<Rightarrow> bytes \<Rightarrow> tchannel \<Rightarrow> tchannel \<times> failure option" where
  "finish_binary P sealed s0 =
     (let s = s0\<lparr>tc_phase := No_handler\<rparr> in
      case tc_assembly s of
        None \<Rightarrow> (s, None)
      | Some a \<Rightarrow>
          (case open_terminal_chunk P sealed of
             None \<Rightarrow> (s, Some (Webrtc_failure Encryption [L ''terminal chunk decryption failed'']))
           | Some piece \<Rightarrow>
               if ca_received a + length piece > ca_total a
               then (s, Some (Webrtc_failure Data_plane
                 [L ''terminal delivery exceeded the declared total bytes'']))
               else
                 let a' = a\<lparr>ca_body := body_set piece (ca_received a) (ca_body a),
                            ca_received := ca_received a + length piece, ca_next := ca_next a + 1\<rparr>;
                     t = s\<lparr>tc_assembly := Some a'\<rparr> in
                 if ca_next a' \<noteq> ca_count a' then (t, None)
                 else if ca_received a' \<noteq> ca_total a'
                 then (t, Some (Webrtc_failure Data_plane
                   [L ''terminal delivery bytes did not match the declared total'']))
                 else
                   let u = t\<lparr>tc_assembly_timer := False, tc_assembly := None,
                             tc_last_inbound_message_id := ca_message_id a'\<rparr> in
                   if tc_listener_closed u then (u, None)
                   else (u\<lparr>tc_phase := Waiting_consumer,
                           tc_delivered := tc_delivered u @ [(ca_message_id a', \<lparr>re_generation = ca_generation a',
                             re_epoch = ca_epoch a', re_body = ca_body a'\<rparr>)]\<rparr>, None)))"

definition settle_handler :: "tchannel \<times> failure option \<Rightarrow> tchannel" where
  "settle_handler r =
     (case r of (s, Some f) \<Rightarrow> handler_done (handler_failed f (s\<lparr>tc_phase := No_handler\<rparr>))
      | (s, None) \<Rightarrow> (if tc_phase s = No_handler then handler_done s else s))"

definition run_handler :: "platform \<Rightarrow> tchannel \<Rightarrow> tchannel" where
  "run_handler P s =
     (if tc_phase s \<noteq> No_handler then s
      else case tc_queue s of
        [] \<Rightarrow> s
      | Text_data t # _ \<Rightarrow> handled (begin_text P t s) s
      | Binary_data m # _ \<Rightarrow> settle_handler (begin_binary m s)
      | Other_data # _ \<Rightarrow> settle_handler (s,
          Some (if \<not> tc_key_present s then Webrtc_failure Encryption [L ''terminal response key is unavailable'']
            else if \<not> tc_admitted s
            then Webrtc_failure Data_plane [L ''terminal DataChannel carried data before admission'']
            else Webrtc_failure Data_plane
              [L ''terminal DataChannel delivery must be a bounded binary chunk''])))"

definition resume_handler :: "platform \<Rightarrow> tchannel \<Rightarrow> tchannel" where
  "resume_handler P s =
     (case tc_phase s of
        Waiting_text payload \<Rightarrow> handled (finish_text P payload s) s
      | Waiting_open h sealed \<Rightarrow> settle_handler (finish_binary P sealed s)
      | _ \<Rightarrow> s)"

text \<open>\<open>listener.onEvent\<close> settled: the chain goes on, or a tc_rejection retires the route.\<close>

definition consumer_settles :: "failure option \<Rightarrow> tchannel \<Rightarrow> tchannel" where
  "consumer_settles r s =
     (if tc_phase s = Waiting_consumer then settle_handler (s\<lparr>tc_phase := No_handler\<rparr>, r) else s)"

definition assembly_timeout :: "tchannel \<Rightarrow> tchannel" where
  "assembly_timeout s =
     (if tc_assembly_timer s \<and> \<not> tc_closed s
      then handler_failed (Webrtc_failure Data_plane [L ''terminal delivery assembly timed out'']) s
      else s)"

subsection \<open>Opening\<close>

definition stale_reservation :: "tchannel \<Rightarrow> bool" where
  "stale_reservation s \<longleftrightarrow> tc_listener_closed s \<or> tc_closed s \<or> \<not> tc_peer_current s"

definition opening_fails :: "failure \<Rightarrow> tchannel \<Rightarrow> tchannel" where
  "opening_fails f s =
     (let failure = (case tc_rejection s of Some r \<Rightarrow> r | None \<Rightarrow> f) in
      close_terminal_channel False (reject_ready failure (s\<lparr>tc_opening := Opening_threw failure\<rparr>)))"

text \<open>
  \<open>Promise.race([waitForDataChannelOpen(channel), ready])\<close> settled with a failure or without;
  then \<open>encryptJsonPayload\<close>, \<open>channel.send\<close>, \<open>await ready\<close>.
\<close>

definition open_settles :: "failure option \<Rightarrow> tchannel \<Rightarrow> tchannel" where
  "open_settles r s =
     (if tc_opening s \<noteq> Waiting_channel then s
      else case r of
        Some f \<Rightarrow> opening_fails f s
      | None \<Rightarrow>
          if stale_reservation s
          then opening_fails (Webrtc_failure Transport
            [L ''terminal DataChannel opened for a stale reservation'']) s
          else s\<lparr>tc_opening := Encrypting_hello\<rparr>)"

definition hello_sealed :: "tchannel \<Rightarrow> tchannel" where
  "hello_sealed s =
     (if tc_opening s \<noteq> Encrypting_hello then s
      else if tc_channel s \<noteq> Channel_open then opening_fails (Thrown ''InvalidStateError'') s
      else s\<lparr>tc_opening := Waiting_ready\<rparr>)"

definition ready_settles :: "tchannel \<Rightarrow> tchannel" where
  "ready_settles s =
     (if tc_opening s \<noteq> Waiting_ready then s
      else case tc_readiness s of
        Ready_pending \<Rightarrow> s
      | Ready_rejected f \<Rightarrow> opening_fails f s
      | Ready_resolved \<Rightarrow>
          if stale_reservation s
          then opening_fails (Webrtc_failure Transport
            [L ''terminal DataChannel admitted for a stale reservation'']) s
          else s\<lparr>tc_opening := Opening_returned\<rparr>)"

text \<open>\<open>rejectReservedChannel\<close> for a rejection that names this channel's label.\<close>

definition reject_reserved :: "failure \<Rightarrow> tchannel \<Rightarrow> tchannel" where
  "reject_reserved f s =
     (if tc_admitted s \<or> tc_closed s then s
      else close_terminal_channel False (reject_ready f (s\<lparr>tc_rejection := Some f\<rparr>)))"

subsection \<open>Sending\<close>

definition chunk_header_of :: "seal_task \<Rightarrow> nat \<Rightarrow> chunk_header" where
  "chunk_header_of t g = \<lparr>ch_message_id = sk_message_id t, ch_index = sk_index t,
     ch_count = chunk_count (sk_frame t), ch_total = length (sk_frame t), ch_generation = g, ch_epoch = 0\<rparr>"

definition finish_send :: "seal_task \<Rightarrow> failure option \<Rightarrow> tchannel \<Rightarrow> tchannel" where
  "finish_send t r s = s\<lparr>tc_sealing := remove1 t (tc_sealing s),
     tc_send_results := tc_send_results s @ [(sk_message_id t, r)]\<rparr>"

definition send_terminal_frame :: "bytes \<Rightarrow> tchannel \<Rightarrow> tchannel \<times> failure option" where
  "send_terminal_frame frame s =
     (if tc_closed s \<or> \<not> tc_admitted s \<or> \<not> tc_key_present s \<or> tc_channel s \<noteq> Channel_open
      then (s, Some (Webrtc_failure Transport [L ''terminal subscription channel is not ready'']))
      else (s\<lparr>tc_outbound_message_id := tc_outbound_message_id s + 1,
              tc_sealing := tc_sealing s @ [\<lparr>sk_message_id = tc_outbound_message_id s + 1,
                sk_frame = frame, sk_index = 0\<rparr>]\<rparr>, None))"

text \<open>
  One chunk of a send is sealed: it goes out, and the loop checks the channel before the next.
  The message is named by its id.
\<close>

definition chunk_sealed :: "platform \<Rightarrow> nat \<Rightarrow> bytes \<Rightarrow> tchannel \<Rightarrow> tchannel" where
  "chunk_sealed P message_id nonce s =
     (case find (\<lambda>t. sk_message_id t = message_id) (tc_sealing s) of
        None \<Rightarrow> s
      | Some t \<Rightarrow>
          (case admitted_terminal_generation s of
             Inl f \<Rightarrow> finish_send t (Some f) s
           | Inr g \<Rightarrow>
               let m = seal_terminal_chunk P nonce (chunk_header_of t g) (chunk_slice (sk_frame t) (sk_index t)) in
               if LOCAL_WEBRTC_MAX_FRAME_BYTES \<le> length m
               then finish_send t (Some (Webrtc_failure Data_plane
                 [L ''terminal delivery chunk exceeds the transport limit''])) s
               else if tc_channel s \<noteq> Channel_open then finish_send t (Some (Thrown ''InvalidStateError'')) s
               else
                 let u = s\<lparr>tc_sent := tc_sent s @ [m]\<rparr> in
                 if sk_index t + 1 = chunk_count (sk_frame t) then finish_send t None u
                 else if tc_closed s then finish_send t (Some (Webrtc_failure Transport
                   [L ''terminal subscription channel closed during send''])) u
                 else u\<lparr>tc_sealing := map (\<lambda>x. if x = t then t\<lparr>sk_index := sk_index t + 1\<rparr> else x)
                          (tc_sealing s)\<rparr>))"

subsection \<open>Events\<close>

text \<open>
  \<open>Peer_reset\<close> is \<open>resetPeerState\<close>: it closes every terminal channel and forgets the key. A later
  peer has another key, under which nothing of this channel opens, so the key stays absent here.
\<close>

datatype channel_event =
    Arrives channel_data
  | Run_handler
  | Resume_handler
  | Consumer_settles "failure option"
  | Assembly_timeout
  | Channel_opens
  | Channel_errors
  | Channel_closes
  | Open_settles "failure option"
  | Hello_sealed
  | Ready_settles
  | Reject_reserved failure
  | Local_close
  | Listener_removed
  | Peer_reset
  | Send_frame bytes
  | Chunk_sealed nat bytes

fun channel_step :: "platform \<Rightarrow> channel_event \<Rightarrow> tchannel \<Rightarrow> tchannel" where
  "channel_step P (Arrives d) s = message_arrives d s"
| "channel_step P Run_handler s = run_handler P s"
| "channel_step P Resume_handler s = resume_handler P s"
| "channel_step P (Consumer_settles r) s = consumer_settles r s"
| "channel_step P Assembly_timeout s = assembly_timeout s"
| "channel_step P Channel_opens s =
     (if tc_channel s = Connecting then s\<lparr>tc_channel := Channel_open\<rparr> else s)"
| "channel_step P Channel_errors s = close_terminal_channel True s"
| "channel_step P Channel_closes s = close_terminal_channel True (s\<lparr>tc_channel := Channel_closed\<rparr>)"
| "channel_step P (Open_settles r) s = open_settles r s"
| "channel_step P Hello_sealed s = hello_sealed s"
| "channel_step P Ready_settles s = ready_settles s"
| "channel_step P (Reject_reserved f) s = reject_reserved f s"
| "channel_step P Local_close s = close_terminal_channel False s"
| "channel_step P Listener_removed s = s\<lparr>tc_listener_closed := True\<rparr>"
| "channel_step P Peer_reset s =
     (close_terminal_channel False s)\<lparr>tc_key_present := False, tc_peer_current := False\<rparr>"
| "channel_step P (Send_frame f) s = fst (send_terminal_frame f s)"
| "channel_step P (Chunk_sealed i n) s = chunk_sealed P i n s"

definition run_channel :: "platform \<Rightarrow> channel_event list \<Rightarrow> tchannel" where
  "run_channel P es = fold (channel_step P) es new_terminal_channel"

end
