(* ===== verification/Terminal_Channel_Laws.thy ===== *)
theory Terminal_Channel_Laws
  imports Terminal_Channel
begin

text \<open>
  What a terminal DataChannel keeps: inbound admission counts exactly the messages that wait,
  deliveries are whole messages of the admitted generation with increasing ids, and nothing is
  delivered to a listener that was removed. The end-to-end property composes \<open>sendTerminalFrame\<close>
  with \<open>handleTerminalChannelMessage\<close>.
\<close>

subsection \<open>What closing leaves alone\<close>

lemma reject_ready_simps [simp]:
  "tc_queue (reject_ready f s) = tc_queue s" "tc_phase (reject_ready f s) = tc_phase s"
  "tc_admitted_frames (reject_ready f s) = tc_admitted_frames s"
  "tc_admitted_bytes (reject_ready f s) = tc_admitted_bytes s"
  "tc_assembly (reject_ready f s) = tc_assembly s" "tc_admitted (reject_ready f s) = tc_admitted s"
  "tc_core_generation (reject_ready f s) = tc_core_generation s"
  "tc_delivered (reject_ready f s) = tc_delivered s" "tc_closed (reject_ready f s) = tc_closed s"
  "tc_last_inbound_message_id (reject_ready f s) = tc_last_inbound_message_id s"
  "tc_listener_closed (reject_ready f s) = tc_listener_closed s"
  "tc_sealing (reject_ready f s) = tc_sealing s" "tc_sent (reject_ready f s) = tc_sent s"
  "tc_outbound_message_id (reject_ready f s) = tc_outbound_message_id s"
  "tc_lifecycle (reject_ready f s) = tc_lifecycle s"
  by (simp_all add: reject_ready_def)

lemma resolve_ready_simps [simp]:
  "tc_queue (resolve_ready s) = tc_queue s" "tc_phase (resolve_ready s) = tc_phase s"
  "tc_admitted_frames (resolve_ready s) = tc_admitted_frames s"
  "tc_admitted_bytes (resolve_ready s) = tc_admitted_bytes s"
  "tc_assembly (resolve_ready s) = tc_assembly s" "tc_admitted (resolve_ready s) = tc_admitted s"
  "tc_core_generation (resolve_ready s) = tc_core_generation s"
  "tc_delivered (resolve_ready s) = tc_delivered s" "tc_closed (resolve_ready s) = tc_closed s"
  "tc_last_inbound_message_id (resolve_ready s) = tc_last_inbound_message_id s"
  "tc_listener_closed (resolve_ready s) = tc_listener_closed s"
  "tc_sealing (resolve_ready s) = tc_sealing s" "tc_sent (resolve_ready s) = tc_sent s"
  "tc_outbound_message_id (resolve_ready s) = tc_outbound_message_id s"
  "tc_lifecycle (resolve_ready s) = tc_lifecycle s"
  by (simp_all add: resolve_ready_def)

lemma close_simps [simp]:
  "tc_queue (close_terminal_channel r s) = tc_queue s" "tc_phase (close_terminal_channel r s) = tc_phase s"
  "tc_admitted_frames (close_terminal_channel r s) = tc_admitted_frames s"
  "tc_admitted_bytes (close_terminal_channel r s) = tc_admitted_bytes s"
  "tc_assembly (close_terminal_channel r s) = tc_assembly s"
  "tc_admitted (close_terminal_channel r s) = tc_admitted s"
  "tc_core_generation (close_terminal_channel r s) = tc_core_generation s"
  "tc_delivered (close_terminal_channel r s) = tc_delivered s"
  "tc_last_inbound_message_id (close_terminal_channel r s) = tc_last_inbound_message_id s"
  "tc_sealing (close_terminal_channel r s) = tc_sealing s"
  "tc_sent (close_terminal_channel r s) = tc_sent s"
  "tc_outbound_message_id (close_terminal_channel r s) = tc_outbound_message_id s"
  "tc_closed (close_terminal_channel r s)"
  "tc_listener_closed s \<Longrightarrow> tc_listener_closed (close_terminal_channel r s)"
  by (simp_all add: close_terminal_channel_def Let_def split: sum.splits)

lemma handler_failed_simps [simp]:
  "tc_queue (handler_failed f s) = tc_queue s" "tc_phase (handler_failed f s) = tc_phase s"
  "tc_admitted_frames (handler_failed f s) = tc_admitted_frames s"
  "tc_admitted_bytes (handler_failed f s) = tc_admitted_bytes s"
  "tc_assembly (handler_failed f s) = tc_assembly s" "tc_admitted (handler_failed f s) = tc_admitted s"
  "tc_core_generation (handler_failed f s) = tc_core_generation s"
  "tc_delivered (handler_failed f s) = tc_delivered s"
  "tc_last_inbound_message_id (handler_failed f s) = tc_last_inbound_message_id s"
  "tc_sealing (handler_failed f s) = tc_sealing s" "tc_sent (handler_failed f s) = tc_sent s"
  "tc_outbound_message_id (handler_failed f s) = tc_outbound_message_id s"
  "tc_listener_closed s \<Longrightarrow> tc_listener_closed (handler_failed f s)"
  by (simp_all add: handler_failed_def)

lemma opening_fails_simps [simp]:
  "tc_queue (opening_fails f s) = tc_queue s" "tc_phase (opening_fails f s) = tc_phase s"
  "tc_admitted_frames (opening_fails f s) = tc_admitted_frames s"
  "tc_admitted_bytes (opening_fails f s) = tc_admitted_bytes s"
  "tc_assembly (opening_fails f s) = tc_assembly s" "tc_admitted (opening_fails f s) = tc_admitted s"
  "tc_core_generation (opening_fails f s) = tc_core_generation s"
  "tc_delivered (opening_fails f s) = tc_delivered s"
  "tc_last_inbound_message_id (opening_fails f s) = tc_last_inbound_message_id s"
  "tc_sealing (opening_fails f s) = tc_sealing s" "tc_sent (opening_fails f s) = tc_sent s"
  "tc_outbound_message_id (opening_fails f s) = tc_outbound_message_id s"
  "tc_listener_closed s \<Longrightarrow> tc_listener_closed (opening_fails f s)"
  by (simp_all add: opening_fails_def Let_def)

subsection \<open>The inbound side\<close>

text \<open>
  Only the fields named here matter inbound; the invariant is a function of them, so every
  operation that leaves them alone keeps it.
\<close>

definition assembly_ok :: "tchannel \<Rightarrow> chunk_assembly \<Rightarrow> bool" where
  "assembly_ok s a \<longleftrightarrow> length (ca_body a) = ca_total a \<and> ca_received a \<le> ca_total a
     \<and> ca_total a \<le> LOCAL_WEBRTC_MAX_DELIVERY_BYTES \<and> tc_last_inbound_message_id s < ca_message_id a
     \<and> tc_core_generation s = Some (ca_generation a)"

definition admission_ok :: "tchannel \<Rightarrow> bool" where
  "admission_ok s \<longleftrightarrow> tc_admitted_frames s = length (tc_queue s)
     \<and> tc_admitted_bytes s = sum_list (map inbound_frame_bytes (tc_queue s))
     \<and> length (tc_queue s) \<le> MAXIMUM_QUEUED_FRAMES
     \<and> sum_list (map inbound_frame_bytes (tc_queue s)) \<le> MAXIMUM_QUEUED_BYTES
     \<and> (tc_phase s \<noteq> No_handler \<longrightarrow> tc_queue s \<noteq> [])"

definition delivery_ok :: "tchannel \<Rightarrow> bool" where
  "delivery_ok s \<longleftrightarrow> sorted_wrt (<) (map fst (tc_delivered s))
     \<and> (\<forall>(i, e) \<in> set (tc_delivered s). 0 < i \<and> i \<le> tc_last_inbound_message_id s
          \<and> tc_core_generation s = Some (re_generation e)
          \<and> length (re_body e) \<le> LOCAL_WEBRTC_MAX_DELIVERY_BYTES)
     \<and> (case tc_assembly s of None \<Rightarrow> True | Some a \<Rightarrow> assembly_ok s a)
     \<and> (tc_admitted s \<longleftrightarrow> tc_core_generation s \<noteq> None)"

definition inbound_ok :: "tchannel \<Rightarrow> bool" where
  "inbound_ok s \<longleftrightarrow> admission_ok s \<and> delivery_ok s"

lemma inbound_ok_cong:
  assumes "inbound_ok s" "tc_queue t = tc_queue s" "tc_phase t = tc_phase s"
    "tc_admitted_frames t = tc_admitted_frames s" "tc_admitted_bytes t = tc_admitted_bytes s"
    "tc_assembly t = tc_assembly s" "tc_admitted t = tc_admitted s"
    "tc_core_generation t = tc_core_generation s" "tc_delivered t = tc_delivered s"
    "tc_last_inbound_message_id t = tc_last_inbound_message_id s"
  shows "inbound_ok t"
  using assms
  by (simp add: inbound_ok_def admission_ok_def delivery_ok_def assembly_ok_def cong: option.case_cong)

lemma message_arrives_inbound_ok: "inbound_ok s \<Longrightarrow> inbound_ok (message_arrives d s)"
  by (auto simp: message_arrives_def admit_inbound_frame_def inbound_ok_def admission_ok_def delivery_ok_def
      assembly_ok_def cong: option.case_cong)

text \<open>The end of a handler: the head goes, whatever else changed on the way.\<close>

lemma handler_done_inbound_ok:
  assumes "admission_ok s" "delivery_ok s" "tc_queue s \<noteq> []"
  shows "inbound_ok (handler_done s)"
proof -
  obtain d ds where q: "tc_queue s = d # ds" using assms(3) by (cases "tc_queue s") auto
  have "admission_ok (handler_done s)"
    using assms(1) by (auto simp: q handler_done_def release_inbound_frame_def admission_ok_def)
  moreover have "delivery_ok (handler_done s)"
    using assms(2) by (simp add: q handler_done_def release_inbound_frame_def delivery_ok_def assembly_ok_def
        cong: option.case_cong)
  ultimately show ?thesis by (simp add: inbound_ok_def)
qed

lemma handler_failed_ok:
  "admission_ok s \<Longrightarrow> admission_ok (handler_failed f s)" "delivery_ok s \<Longrightarrow> delivery_ok (handler_failed f s)"
  by (simp_all add: admission_ok_def delivery_ok_def assembly_ok_def cong: option.case_cong)

lemma settle_handler_inbound_ok:
  assumes "admission_ok s" "delivery_ok s" "tc_queue s \<noteq> []"
  shows "inbound_ok (settle_handler (s, r))"
proof (cases r)
  case None
  then show ?thesis
    using assms handler_done_inbound_ok [OF assms] by (simp add: settle_handler_def inbound_ok_def)
next
  case (Some f)
  let ?t = "s\<lparr>tc_phase := No_handler\<rparr>"
  have "admission_ok ?t" "delivery_ok ?t" "tc_queue ?t \<noteq> []"
    using assms by (simp_all add: admission_ok_def delivery_ok_def assembly_ok_def cong: option.case_cong)
  then show ?thesis
    by (simp add: Some settle_handler_def handler_done_inbound_ok handler_failed_ok)
qed

lemma handled_inbound_ok:
  assumes "inbound_ok s" "tc_queue s \<noteq> []"
    "\<And>t. r = Inr t \<Longrightarrow> admission_ok t \<and> delivery_ok t \<and> tc_queue t = tc_queue s"
  shows "inbound_ok (handled r s)"
proof (cases r)
  case (Inl f)
  then show ?thesis
    using assms(1,2) by (auto simp: handled_def inbound_ok_def [of s] intro!: handler_done_inbound_ok handler_failed_ok)
next
  case (Inr t)
  then have "admission_ok t" "delivery_ok t" "tc_queue t \<noteq> []" using assms(2,3) by auto
  then show ?thesis using handler_done_inbound_ok [of t] by (simp add: Inr handled_def inbound_ok_def)
qed

lemma begin_text_ok:
  "begin_text P x s = Inr t \<Longrightarrow> inbound_ok s \<Longrightarrow> tc_queue s \<noteq> [] \<Longrightarrow>
     admission_ok t \<and> delivery_ok t \<and> tc_queue t = tc_queue s"
  by (auto simp: begin_text_def fails_def inbound_ok_def admission_ok_def delivery_ok_def assembly_ok_def
      split: if_splits sum.splits cong: option.case_cong)

lemma unadmitted_is_empty:
  "delivery_ok s \<Longrightarrow> \<not> tc_admitted s \<Longrightarrow> tc_delivered s = [] \<and> tc_assembly s = None"
  by (cases "tc_delivered s") (auto simp: delivery_ok_def assembly_ok_def split: option.splits)

text \<open>A HelloAck is the only way a text message changes the channel, and it comes once.\<close>

lemma fails_Inr [simp]: "fails st m \<noteq> Inr t" "Inr t \<noteq> fails st m"
  by (simp_all add: fails_def)

lemma finish_text_cases:
  assumes "finish_text P x s = Inr t"
  shows "\<not> tc_admitted s \<and> (\<exists>g. t = resolve_ready (s\<lparr>tc_phase := No_handler, tc_core_generation := Some g,
    tc_admitted := True\<rparr>))"
proof -
  obtain v where v: "decrypt_daemon_payload P x = Some v"
    using assms by (cases "decrypt_daemon_payload P x") (simp_all add: finish_text_def)
  obtain fr where fr: "parse_server_frame v = Inr fr"
    using assms by (cases "parse_server_frame v") (simp_all add: finish_text_def v Let_def)
  obtain ack where ack: "fr = Hello_ack ack"
    using assms by (cases fr) (simp_all add: finish_text_def v fr Let_def)
  have na: "\<not> tc_admitted s"
    using assms by (rule_tac notI) (simp add: finish_text_def v fr ack Let_def)
  obtain ok where ok: "is_terminal_compatibility_accepted P (property_of ''terminal_compatibility'' ack) = Inr ok"
      "property_of ''protocol'' ack = Some (V_string HOST_PROTOCOL)"
    using assms na
    by (cases "is_terminal_compatibility_accepted P (property_of ''terminal_compatibility'' ack)")
      (simp_all add: finish_text_def v fr ack Let_def split: if_splits)
  show ?thesis
    using assms na ok
    by (cases ok; cases "safe_integer (property_of ''terminal_generation'' ack)")
      (auto simp: finish_text_def v fr ack Let_def split: if_splits)
qed

lemma finish_text_ok:
  assumes "finish_text P x s = Inr t" "inbound_ok s"
  shows "admission_ok t \<and> delivery_ok t \<and> tc_queue t = tc_queue s"
proof -
  obtain g where g: "\<not> tc_admitted s" "t = resolve_ready (s\<lparr>tc_phase := No_handler,
      tc_core_generation := Some g, tc_admitted := True\<rparr>)"
    using finish_text_cases [OF assms(1)] by blast
  have s: "admission_ok s" "delivery_ok s" using assms(2) by (simp_all add: inbound_ok_def)
  have "admission_ok t" using s(1) by (simp add: g(2) admission_ok_def)
  moreover have "delivery_ok t" using unadmitted_is_empty [OF s(2) g(1)] by (simp add: g(2) delivery_ok_def)
  ultimately show ?thesis by (simp add: g(2))
qed

lemma start_assembly_ok:
  assumes "start_assembly h s = Inr t" "delivery_ok s" "tc_core_generation s = Some (ch_generation h)"
  shows "delivery_ok t"
  using assms
  by (auto simp: start_assembly_def fails_def delivery_ok_def assembly_ok_def split: if_splits)

lemma start_assembly_fields:
  "start_assembly h s = Inr t \<Longrightarrow> tc_queue t = tc_queue s \<and> tc_phase t = tc_phase s
     \<and> tc_admitted_frames t = tc_admitted_frames s \<and> tc_admitted_bytes t = tc_admitted_bytes s
     \<and> tc_delivered t = tc_delivered s \<and> tc_listener_closed t = tc_listener_closed s
     \<and> tc_assembly t \<noteq> None \<and> tc_last_inbound_message_id t = tc_last_inbound_message_id s
     \<and> tc_core_generation t = tc_core_generation s \<and> tc_admitted t = tc_admitted s"
  by (auto simp: start_assembly_def fails_def split: if_splits)

lemma admission_ok_cong:
  assumes "admission_ok s" "tc_queue t = tc_queue s" "tc_admitted_frames t = tc_admitted_frames s"
    "tc_admitted_bytes t = tc_admitted_bytes s" "tc_phase t = No_handler \<or> tc_queue s \<noteq> []"
  shows "admission_ok t"
  using assms by (auto simp: admission_ok_def)

lemma delivery_ok_phase [simp]:
  "delivery_ok (s\<lparr>tc_phase := p\<rparr>) = delivery_ok s" "delivery_ok (s\<lparr>tc_assembly_timer := b\<rparr>) = delivery_ok s"
  by (simp_all add: delivery_ok_def assembly_ok_def cong: option.case_cong)

lemma begin_binary_ok:
  assumes "begin_binary m s = (t, r)" "inbound_ok s" "tc_queue s \<noteq> []"
  shows "admission_ok t \<and> delivery_ok t \<and> tc_queue t = tc_queue s"
proof (cases "\<exists>h sealed u. parse_terminal_chunk m = Some (h, sealed)
    \<and> tc_core_generation s = Some (ch_generation h) \<and> start_assembly h s = Inr u \<and> (t = u \<or> t = u\<lparr>tc_phase := Waiting_open h sealed\<rparr>)")
  case True
  then obtain h sealed u where u: "start_assembly h s = Inr u" "tc_core_generation s = Some (ch_generation h)"
    "t = u \<or> t = u\<lparr>tc_phase := Waiting_open h sealed\<rparr>" by blast
  note f = start_assembly_fields [OF u(1)]
  have "delivery_ok t" using start_assembly_ok [OF u(1) _ u(2)] assms(2) u(3) by (auto simp: inbound_ok_def)
  moreover have "admission_ok t"
    by (rule admission_ok_cong [of s]) (use assms u(3) f in \<open>auto simp: inbound_ok_def\<close>)
  ultimately show ?thesis using u(3) f by auto
next
  case False
  then have "t = s"
    using assms(1)
    by (auto simp: begin_binary_def Let_def split: if_splits option.splits sum.splits prod.splits)
  then show ?thesis using assms by (simp add: inbound_ok_def)
qed

lemma length_body_set: "off + length p \<le> length b \<Longrightarrow> length (body_set p off b) = length b"
  by (simp add: body_set_def)

text \<open>The four ways a chunk that was opened leaves the channel.\<close>

definition advance :: "chunk_assembly \<Rightarrow> bytes \<Rightarrow> chunk_assembly" where
  "advance a p = a\<lparr>ca_body := body_set p (ca_received a) (ca_body a),
     ca_received := ca_received a + length p, ca_next := ca_next a + 1\<rparr>"

definition completed :: "chunk_assembly \<Rightarrow> tchannel \<Rightarrow> tchannel" where
  "completed a s = s\<lparr>tc_phase := No_handler, tc_assembly_timer := False, tc_assembly := None,
     tc_last_inbound_message_id := ca_message_id a\<rparr>"

definition event_of :: "chunk_assembly \<Rightarrow> nat \<times> route_event" where
  "event_of a = (ca_message_id a, \<lparr>re_generation = ca_generation a, re_epoch = ca_epoch a, re_body = ca_body a\<rparr>)"

lemma finish_binary_form:
  assumes "tc_assembly s = Some a" "open_terminal_chunk P sealed = Some p"
  shows "finish_binary P sealed s =
    (if ca_received a + length p > ca_total a
     then (s\<lparr>tc_phase := No_handler\<rparr>, Some (Webrtc_failure Data_plane
             [L ''terminal delivery exceeded the declared total bytes'']))
     else if ca_next a + 1 \<noteq> ca_count a then (s\<lparr>tc_phase := No_handler, tc_assembly := Some (advance a p)\<rparr>, None)
     else if ca_received a + length p \<noteq> ca_total a
     then (s\<lparr>tc_phase := No_handler, tc_assembly := Some (advance a p)\<rparr>, Some (Webrtc_failure Data_plane
             [L ''terminal delivery bytes did not match the declared total'']))
     else if tc_listener_closed s then (completed a s, None)
     else ((completed a s)\<lparr>tc_phase := Waiting_consumer,
             tc_delivered := tc_delivered s @ [event_of (advance a p)]\<rparr>, None))"
  using assms by (simp add: finish_binary_def Let_def advance_def completed_def event_of_def)

lemma finish_binary_cases:
  assumes "finish_binary P sealed s = (t, r)"
  obtains "t = s\<lparr>tc_phase := No_handler\<rparr>"
  | a p where "tc_assembly s = Some a" "ca_received a + length p \<le> ca_total a"
      "t = s\<lparr>tc_phase := No_handler, tc_assembly := Some (advance a p)\<rparr>"
  | a where "tc_assembly s = Some a" "tc_listener_closed s" "t = completed a s"
  | a p where "tc_assembly s = Some a" "\<not> tc_listener_closed s" "ca_received a + length p = ca_total a"
      "t = (completed a s)\<lparr>tc_phase := Waiting_consumer,
             tc_delivered := tc_delivered s @ [event_of (advance a p)]\<rparr>"
proof (cases "tc_assembly s")
  case None
  then show ?thesis using assms that(1) by (simp add: finish_binary_def)
next
  case (Some a)
  show ?thesis
  proof (cases "open_terminal_chunk P sealed")
    case None
    then show ?thesis using assms that(1) Some by (simp add: finish_binary_def)
  next
    case p: (Some p)
    note form = assms [unfolded finish_binary_form [OF Some p]]
    show ?thesis using form that(1) that(2) [OF Some] that(3) [OF Some] that(4) [OF Some]
      by (auto simp: not_less split: if_splits)
  qed
qed

lemma finish_binary_ok:
  assumes "finish_binary P sealed s = (t, r)" "inbound_ok s" "tc_queue s \<noteq> []"
  shows "admission_ok t \<and> delivery_ok t \<and> tc_queue t = tc_queue s"
proof -
  have s: "admission_ok s" "delivery_ok s" using assms(2) by (simp_all add: inbound_ok_def)
  from assms(1) show ?thesis
  proof (cases rule: finish_binary_cases)
    case 1
    then show ?thesis using s by (auto intro: admission_ok_cong [OF s(1)])
  next
    case (2 a p)
    then have "delivery_ok t"
      using s(2) by (auto simp: delivery_ok_def assembly_ok_def advance_def length_body_set)
    then show ?thesis using 2 by (auto intro: admission_ok_cong [OF s(1)])
  next
    case (3 a)
    then have "delivery_ok t" using s(2) by (force simp: delivery_ok_def assembly_ok_def completed_def)
    then show ?thesis using 3 by (auto simp: completed_def intro: admission_ok_cong [OF s(1)])
  next
    case (4 a p)
    then have a: "assembly_ok s a" using s(2) by (simp add: delivery_ok_def)
    have "sorted_wrt (<) (map fst (tc_delivered s) @ [ca_message_id a])"
      using s(2) a by (force simp: delivery_ok_def assembly_ok_def sorted_wrt_append)
    then have "delivery_ok t" using s(2) a 4(3)
      by (simp add: 4(4) delivery_ok_def completed_def event_of_def advance_def assembly_ok_def length_body_set)
        (fastforce simp: length_body_set)
    then show ?thesis using 4 assms(3) by (auto simp: completed_def intro: admission_ok_cong [OF s(1)])
  qed
qed

lemma run_handler_inbound_ok:
  assumes "inbound_ok s"
  shows "inbound_ok (run_handler P s)"
proof (cases "tc_phase s \<noteq> No_handler \<or> tc_queue s = []")
  case True
  then show ?thesis using assms by (auto simp: run_handler_def)
next
  case False
  then obtain d ds where q: "tc_queue s = d # ds" "tc_phase s = No_handler" by (cases "tc_queue s") auto
  have s: "admission_ok s" "delivery_ok s" using assms by (simp_all add: inbound_ok_def)
  show ?thesis
  proof (cases d)
    case (Text_data x)
    have "inbound_ok (handled (begin_text P x s) s)"
      by (rule handled_inbound_ok [OF assms]) (use q assms begin_text_ok [of P x s] in auto)
    then show ?thesis by (simp add: run_handler_def q Text_data)
  next
    case (Binary_data m)
    obtain t r where b: "begin_binary m s = (t, r)" by (cases "begin_binary m s") auto
    have "inbound_ok (settle_handler (t, r))"
      using begin_binary_ok [OF b assms] q by (intro settle_handler_inbound_ok) auto
    then show ?thesis by (simp add: run_handler_def q Binary_data b)
  next
    case Other_data
    then show ?thesis using s q by (auto simp: run_handler_def intro!: settle_handler_inbound_ok)
  qed
qed

lemma resume_handler_inbound_ok:
  assumes "inbound_ok s"
  shows "inbound_ok (resume_handler P s)"
proof (cases "tc_phase s")
  case (Waiting_text x)
  then have q: "tc_queue s \<noteq> []" using assms by (auto simp: inbound_ok_def admission_ok_def)
  have "inbound_ok (handled (finish_text P x s) s)"
    by (rule handled_inbound_ok [OF assms q]) (use finish_text_ok [OF _ assms] in auto)
  then show ?thesis by (simp add: resume_handler_def Waiting_text)
next
  case (Waiting_open h sealed)
  then have q: "tc_queue s \<noteq> []" using assms by (auto simp: inbound_ok_def admission_ok_def)
  obtain t r where b: "finish_binary P sealed s = (t, r)" by (cases "finish_binary P sealed s") auto
  have "inbound_ok (settle_handler (t, r))"
    using finish_binary_ok [OF b assms q] q by (intro settle_handler_inbound_ok) auto
  then show ?thesis by (simp add: resume_handler_def Waiting_open b)
qed (use assms in \<open>simp_all add: resume_handler_def\<close>)

lemma consumer_settles_inbound_ok:
  assumes "inbound_ok s"
  shows "inbound_ok (consumer_settles r s)"
proof (cases "tc_phase s = Waiting_consumer")
  case True
  then have q: "tc_queue s \<noteq> []" and s: "admission_ok s" "delivery_ok s"
    using assms by (auto simp: inbound_ok_def admission_ok_def)
  have "admission_ok (s\<lparr>tc_phase := No_handler\<rparr>)" using s(1) by (simp add: admission_ok_def)
  then show ?thesis using True q s(2) by (simp add: consumer_settles_def settle_handler_inbound_ok)
qed (use assms in \<open>simp add: consumer_settles_def\<close>)

text \<open>Every other step leaves the inbound fields alone.\<close>

lemma chunk_sealed_fields [simp]:
  "tc_queue (chunk_sealed P i n s) = tc_queue s" "tc_phase (chunk_sealed P i n s) = tc_phase s"
  "tc_admitted_frames (chunk_sealed P i n s) = tc_admitted_frames s"
  "tc_admitted_bytes (chunk_sealed P i n s) = tc_admitted_bytes s"
  "tc_assembly (chunk_sealed P i n s) = tc_assembly s" "tc_admitted (chunk_sealed P i n s) = tc_admitted s"
  "tc_core_generation (chunk_sealed P i n s) = tc_core_generation s"
  "tc_delivered (chunk_sealed P i n s) = tc_delivered s"
  "tc_last_inbound_message_id (chunk_sealed P i n s) = tc_last_inbound_message_id s"
  "tc_listener_closed (chunk_sealed P i n s) = tc_listener_closed s"
  by (simp_all add: chunk_sealed_def finish_send_def Let_def split: option.splits sum.splits)

definition fresh_channel :: "tchannel \<Rightarrow> bool" where
  "fresh_channel s \<longleftrightarrow> s = new_terminal_channel"

lemma channel_step_inbound_ok:
  assumes "inbound_ok s"
  shows "inbound_ok (channel_step P ev s)"
proof (cases ev)
  case (Arrives d)
  then show ?thesis using assms by (simp add: message_arrives_inbound_ok)
next
  case Run_handler
  then show ?thesis using assms by (simp add: run_handler_inbound_ok)
next
  case Resume_handler
  then show ?thesis using assms by (simp add: resume_handler_inbound_ok)
next
  case (Consumer_settles r)
  then show ?thesis using assms by (simp add: consumer_settles_inbound_ok)
qed (rule inbound_ok_cong [OF assms]; auto simp: assembly_timeout_def open_settles_def hello_sealed_def
      ready_settles_def reject_reserved_def send_terminal_frame_def split: option.splits ready_state.splits)+

lemma fresh_inbound_ok: "fresh_channel s \<Longrightarrow> inbound_ok s"
  by (simp add: fresh_channel_def new_terminal_channel_def inbound_ok_def admission_ok_def delivery_ok_def)

interpretation inbound_system: step_system fresh_channel "channel_step P" inbound_ok for P
  by unfold_locales (erule fresh_inbound_ok, erule channel_step_inbound_ok)

lemma run_channel_inbound_ok: "inbound_ok (run_channel P es)"
  unfolding run_channel_def by (rule inbound_system.run_inv) (simp add: fresh_channel_def)

subsection \<open>A removed listener\<close>

definition hushed :: "tchannel \<Rightarrow> tchannel \<Rightarrow> bool" where
  "hushed s t \<longleftrightarrow> tc_listener_closed t \<and> tc_delivered t = tc_delivered s"

lemma handler_done_listener [simp]:
  "tc_listener_closed (handler_done s) = tc_listener_closed s" "tc_delivered (handler_done s) = tc_delivered s"
  by (simp_all add: handler_done_def release_inbound_frame_def split: list.split)

lemma settle_handler_hushed: "hushed s (fst x) \<Longrightarrow> hushed s (settle_handler x)"
  by (cases x; cases "snd x") (simp_all add: settle_handler_def hushed_def)

lemma handled_hushed:
  "tc_listener_closed s \<Longrightarrow> (\<And>t. r = Inr t \<Longrightarrow> hushed s t) \<Longrightarrow> hushed s (handled r s)"
  by (cases r) (simp_all add: handled_def hushed_def)

lemma begin_binary_hushed:
  "tc_listener_closed s \<Longrightarrow> hushed s (fst (begin_binary m s))"
  by (auto simp: begin_binary_def Let_def hushed_def dest!: start_assembly_fields
      split: if_splits option.splits sum.splits prod.splits)

lemma finish_binary_hushed:
  "tc_listener_closed s \<Longrightarrow> hushed s (fst (finish_binary P sealed s))"
proof -
  assume l: "tc_listener_closed s"
  obtain t r where f: "finish_binary P sealed s = (t, r)" by (cases "finish_binary P sealed s") auto
  then show ?thesis by (cases rule: finish_binary_cases) (use l in \<open>simp_all add: f hushed_def completed_def\<close>)
qed

lemma hushed_step:
  assumes "tc_listener_closed s"
  shows "hushed s (channel_step P ev s)"
proof (cases ev)
  case (Arrives d)
  then show ?thesis
    using assms by (simp add: message_arrives_def admit_inbound_frame_def hushed_def split: option.split)
next
  case Run_handler
  show ?thesis
  proof (cases "tc_phase s = No_handler \<and> tc_queue s \<noteq> []")
    case True
    then obtain d ds where q: "tc_queue s = d # ds" by (cases "tc_queue s") auto
    have on_text: "hushed s (handled (begin_text P x s) s)" for x
      by (rule handled_hushed [OF assms])
        (use assms in \<open>auto simp: begin_text_def hushed_def split: if_splits sum.splits\<close>)
    have "hushed s s" using assms by (simp add: hushed_def)
    then show ?thesis
      using True q assms on_text settle_handler_hushed [OF begin_binary_hushed [OF assms]]
      by (cases d) (simp_all add: Run_handler run_handler_def settle_handler_hushed)
  qed (use assms Run_handler in \<open>auto simp: run_handler_def hushed_def\<close>)
next
  case Resume_handler
  have "hushed s (handled (finish_text P x s) s)" for x
    by (rule handled_hushed [OF assms]) (use assms in \<open>auto simp: hushed_def dest: finish_text_cases\<close>)
  then show ?thesis
    using assms settle_handler_hushed [OF finish_binary_hushed [OF assms]]
    by (simp add: Resume_handler resume_handler_def) (simp add: hushed_def split: handler_phase.split)
next
  case (Consumer_settles r)
  have "hushed s (s\<lparr>tc_phase := No_handler\<rparr>)" using assms by (simp add: hushed_def)
  then show ?thesis
    using assms settle_handler_hushed by (auto simp: Consumer_settles consumer_settles_def hushed_def)
qed (use assms in \<open>auto simp: hushed_def assembly_timeout_def open_settles_def hello_sealed_def
      ready_settles_def reject_reserved_def send_terminal_frame_def split: option.splits ready_state.splits\<close>)

end
