(* ===== verification/Terminal_Channel_Delivery.thy ===== *)
theory Terminal_Channel_Delivery
  imports Terminal_Channel_Laws
begin

text \<open>
  From end to end: the messages \<open>sendTerminalFrame\<close> puts on a channel are reassembled by
  \<open>handleTerminalChannelMessage\<close> to the frame that was sent.
\<close>

subsection \<open>What a frame becomes on the wire\<close>

definition frame_header :: "nat \<Rightarrow> nat \<Rightarrow> nat \<Rightarrow> bytes \<Rightarrow> nat \<Rightarrow> chunk_header" where
  "frame_header i g e frame k = \<lparr>ch_message_id = i, ch_index = k, ch_count = chunk_count frame,
     ch_total = length frame, ch_generation = g, ch_epoch = e\<rparr>"

definition frame_messages :: "platform \<Rightarrow> nat \<Rightarrow> nat \<Rightarrow> nat \<Rightarrow> bytes list \<Rightarrow> bytes \<Rightarrow> bytes list" where
  "frame_messages P i g e nonces frame =
     map (\<lambda>k. seal_terminal_chunk P (nonces ! k) (frame_header i g e frame k) (chunk_slice frame k))
       [0..<chunk_count frame]"

definition sendable :: "nat \<Rightarrow> tchannel \<Rightarrow> bool" where
  "sendable g s \<longleftrightarrow> tc_admitted s \<and> tc_core_generation s = Some g \<and> tc_key_present s \<and> \<not> tc_closed s
     \<and> tc_channel s = Channel_open"

subsection \<open>Sending\<close>

definition sending :: "bytes \<Rightarrow> nat \<Rightarrow> bytes list \<Rightarrow> tchannel \<Rightarrow> tchannel" where
  "sending frame k ms s = s\<lparr>tc_outbound_message_id := tc_outbound_message_id s + 1,
     tc_sealing := [\<lparr>sk_message_id = tc_outbound_message_id s + 1, sk_frame = frame, sk_index = k\<rparr>],
     tc_sent := tc_sent s @ ms\<rparr>"

lemma chunk_fits_frame:
  "gcm_ok P \<Longrightarrow> length n = TERMINAL_CHUNK_NONCE_BYTES \<Longrightarrow>
     length (seal_terminal_chunk P n h (chunk_slice frame k)) < LOCAL_WEBRTC_MAX_FRAME_BYTES"
  using length_chunk_slice [of frame k] by (simp add: chunk_constants)

lemma chunk_sealed_next:
  assumes "sendable g s" "gcm_ok P" "length n = TERMINAL_CHUNK_NONCE_BYTES"
  shows "chunk_sealed P (tc_outbound_message_id s + 1) n (sending frame k ms s) =
    (let m = seal_terminal_chunk P n (frame_header (tc_outbound_message_id s + 1) g 0 frame k) (chunk_slice frame k) in
     if k + 1 = chunk_count frame
     then (sending frame k (ms @ [m]) s)\<lparr>tc_sealing := [],
            tc_send_results := tc_send_results s @ [(tc_outbound_message_id s + 1, None)]\<rparr>
     else sending frame (k + 1) (ms @ [m]) s)"
  using assms chunk_fits_frame [OF assms(2,3)]
  by (simp add: chunk_sealed_def sending_def sendable_def admitted_terminal_generation_def
      chunk_header_of_def frame_header_def finish_send_def Let_def not_le)

lemma sending_prefix:
  assumes "sendable g s" "gcm_ok P" "k < chunk_count frame"
    "list_all (\<lambda>n. length n = TERMINAL_CHUNK_NONCE_BYTES) nonces" "length nonces = chunk_count frame"
  shows "fold (channel_step P) (map (Chunk_sealed (tc_outbound_message_id s + 1)) (take k nonces))
      (sending frame 0 [] s)
    = sending frame k (take k (frame_messages P (tc_outbound_message_id s + 1) g 0 nonces frame)) s"
  using assms(3)
proof (induction k)
  case (Suc k)
  have n: "length (nonces ! k) = TERMINAL_CHUNK_NONCE_BYTES"
    using assms(4,5) Suc.prems by (simp add: list_all_length)
  have "take (Suc k) nonces = take k nonces @ [nonces ! k]"
    "take (Suc k) (frame_messages P i g 0 nonces frame) = take k (frame_messages P i g 0 nonces frame)
       @ [seal_terminal_chunk P (nonces ! k) (frame_header i g 0 frame k) (chunk_slice frame k)]" for i
    using assms(5) Suc.prems by (simp_all add: take_Suc_conv_app_nth frame_messages_def)
  then show ?case
    using Suc chunk_sealed_next [OF assms(1,2) n] by (simp add: Let_def)
qed simp

lemma send_frame_messages:
  assumes "sendable g s" "gcm_ok P" "tc_sealing s = []"
    "list_all (\<lambda>n. length n = TERMINAL_CHUNK_NONCE_BYTES) nonces" "length nonces = chunk_count frame"
  shows "tc_sent (fold (channel_step P)
      (Send_frame frame # map (Chunk_sealed (tc_outbound_message_id s + 1)) nonces) s)
    = tc_sent s @ frame_messages P (tc_outbound_message_id s + 1) g 0 nonces frame"
proof -
  obtain k where k: "chunk_count frame = Suc k" using chunk_count_pos [of frame] by (cases "chunk_count frame") auto
  have start: "fst (send_terminal_frame frame s) = sending frame 0 [] s"
    using assms(1,3) by (simp add: send_terminal_frame_def sendable_def sending_def)
  have n: "length (nonces ! k) = TERMINAL_CHUNK_NONCE_BYTES"
    using assms(4,5) k by (simp add: list_all_length)
  let ?f = "Chunk_sealed (tc_outbound_message_id s + 1)"
  have "nonces = take k nonces @ [nonces ! k]"
    using assms(5) k by (metis take_Suc_conv_app_nth lessI order_refl take_all)
  from arg_cong [OF this, of "map ?f"]
  have split: "map ?f nonces = map ?f (take k nonces) @ [?f (nonces ! k)]" by (simp only: map_append list.map)
  have "fold (channel_step P) (Send_frame frame # map ?f nonces) s
    = chunk_sealed P (tc_outbound_message_id s + 1) (nonces ! k)
        (fold (channel_step P) (map ?f (take k nonces)) (sending frame 0 [] s))"
    unfolding split by (simp only: fold_simps fold_append comp_apply start channel_step.simps)
  also have "\<dots> = (sending frame k (take k (frame_messages P (tc_outbound_message_id s + 1) g 0 nonces frame)
        @ [seal_terminal_chunk P (nonces ! k) (frame_header (tc_outbound_message_id s + 1) g 0 frame k)
             (chunk_slice frame k)]) s)\<lparr>tc_sealing := [],
          tc_send_results := tc_send_results s @ [(tc_outbound_message_id s + 1, None)]\<rparr>"
    using sending_prefix [OF assms(1,2) _ assms(4,5), of k] chunk_sealed_next [OF assms(1,2) n] k
    by (simp add: Let_def)
  finally show ?thesis by (simp only:) (simp add: sending_def frame_messages_def k)
qed

subsection \<open>Receiving\<close>

definition receivable :: "nat \<Rightarrow> tchannel \<Rightarrow> bool" where
  "receivable g s \<longleftrightarrow> tc_admitted s \<and> tc_core_generation s = Some g \<and> tc_key_present s \<and> \<not> tc_closed s
     \<and> \<not> tc_listener_closed s \<and> tc_phase s = No_handler \<and> tc_queue s = []
     \<and> tc_admitted_frames s = 0 \<and> tc_admitted_bytes s = 0"

definition receive_message :: "platform \<Rightarrow> bytes \<Rightarrow> tchannel \<Rightarrow> tchannel" where
  "receive_message P m s =
     fold (channel_step P) [Arrives (Binary_data m), Run_handler, Resume_handler, Consumer_settles None] s"

definition assembled :: "nat \<Rightarrow> nat \<Rightarrow> nat \<Rightarrow> bytes \<Rightarrow> nat \<Rightarrow> chunk_assembly" where
  "assembled i g e frame k = \<lparr>ca_message_id = i, ca_count = chunk_count frame, ca_total = length frame,
     ca_generation = g, ca_epoch = e, ca_next = k,
     ca_body = slices frame k @ replicate (length frame - length (slices frame k)) 0,
     ca_received = length (slices frame k)\<rparr>"

definition receiving :: "nat \<Rightarrow> nat \<Rightarrow> nat \<Rightarrow> bytes \<Rightarrow> nat \<Rightarrow> tchannel \<Rightarrow> tchannel" where
  "receiving i g e frame k s =
     (if k = 0 then s else s\<lparr>tc_assembly := Some (assembled i g e frame k), tc_assembly_timer := True\<rparr>)"

lemma advance_assembled:
  assumes "k < chunk_count frame"
  shows "advance (assembled i g e frame k) (chunk_slice frame k) = assembled i g e frame (k + 1)"
proof -
  have "length (slices frame k) + length (chunk_slice frame k) \<le> length frame"
    using slices_length [of "Suc k" frame] assms by (simp add: slices_Suc)
  then show ?thesis
    by (simp add: advance_def assembled_def slices_Suc body_set_def)
qed

definition frame_fits :: "nat \<Rightarrow> nat \<Rightarrow> nat \<Rightarrow> bytes \<Rightarrow> bool" where
  "frame_fits i g e frame \<longleftrightarrow> i < 2 ^ 64 \<and> g < 2 ^ 64 \<and> e < 2 ^ 32
     \<and> length frame \<le> LOCAL_WEBRTC_MAX_DELIVERY_BYTES"

lemma frame_header_fits:
  "frame_fits i g e frame \<Longrightarrow> k < chunk_count frame \<Longrightarrow> header_fits (frame_header i g e frame k)"
  using chunk_count_le_total [of frame]
  by (auto simp: frame_fits_def header_fits_def frame_header_def chunk_constants)

lemma open_frame_chunk:
  assumes "receivable g s" "tc_assembly s = None" "tc_last_inbound_message_id s < i" "frame_fits i g e frame"
    "gcm_ok P" "length n = TERMINAL_CHUNK_NONCE_BYTES" "k < chunk_count frame"
  defines "m \<equiv> seal_terminal_chunk P n (frame_header i g e frame k) (chunk_slice frame k)"
    and "r \<equiv> receiving i g e frame k s"
  shows "run_handler P (message_arrives (Binary_data m) r) =
    r\<lparr>tc_queue := [Binary_data m], tc_admitted_frames := 1, tc_admitted_bytes := length m,
      tc_assembly := Some (assembled i g e frame k), tc_assembly_timer := True,
      tc_phase := Waiting_open (frame_header i g e frame k) (n @ gcm_seal P n (chunk_slice frame k))\<rparr>"
proof -
  have size: "length m < LOCAL_WEBRTC_MAX_FRAME_BYTES"
    unfolding m_def by (rule chunk_fits_frame [OF assms(5,6)])
  have parse: "parse_terminal_chunk m =
      Some (frame_header i g e frame k, n @ gcm_seal P n (chunk_slice frame k))"
    unfolding m_def by (rule parse_seal(1) [OF assms(5) frame_header_fits [OF assms(4,7)] assms(6)])
  have total: "length frame \<le> 16777216" using assms(4) by (simp add: frame_fits_def chunk_constants)
  have arrives: "message_arrives (Binary_data m) r =
      r\<lparr>tc_queue := [Binary_data m], tc_admitted_frames := 1, tc_admitted_bytes := length m\<rparr>"
    using assms(1) size
    by (simp add: message_arrives_def r_def receiving_def receivable_def admit_inbound_frame_def
        MAXIMUM_QUEUED_FRAMES_def MAXIMUM_QUEUED_BYTES_def chunk_constants)
  show ?thesis
  proof (cases "k = 0")
    case True
    then show ?thesis
      using assms(1-3) size parse total unfolding arrives
      by (simp add: run_handler_def begin_binary_def settle_handler_def r_def receiving_def
          receivable_def start_assembly_def matches_assembly_def frame_header_def assembled_def slices_def
          chunk_constants not_le)
  next
    case False
    then show ?thesis
      using assms(1) size parse unfolding arrives
      by (simp add: run_handler_def begin_binary_def settle_handler_def r_def receiving_def
          receivable_def start_assembly_def matches_assembly_def frame_header_def assembled_def
          chunk_constants not_le)
  qed
qed

lemma receive_frame_chunk:
  assumes "receivable g s" "tc_assembly s = None" "tc_last_inbound_message_id s < i" "frame_fits i g e frame"
    "gcm_ok P" "length n = TERMINAL_CHUNK_NONCE_BYTES" "k < chunk_count frame"
  defines "m \<equiv> seal_terminal_chunk P n (frame_header i g e frame k) (chunk_slice frame k)"
  shows "receive_message P m (receiving i g e frame k s) =
    (if k + 1 < chunk_count frame then receiving i g e frame (k + 1) s
     else s\<lparr>tc_assembly_timer := False, tc_last_inbound_message_id := i,
            tc_delivered := tc_delivered s @ [(i, \<lparr>re_generation = g, re_epoch = e, re_body = frame\<rparr>)]\<rparr>)"
proof -
  let ?u = "run_handler P (message_arrives (Binary_data m) (receiving i g e frame k s))"
  note u = open_frame_chunk [OF assms(1-7), folded m_def]
  have op: "open_terminal_chunk P (n @ gcm_seal P n (chunk_slice frame k)) = Some (chunk_slice frame k)"
    by (rule parse_seal(2) [OF assms(5) frame_header_fits [OF assms(4,7)] assms(6)])
  have a: "tc_assembly ?u = Some (assembled i g e frame k)" by (simp add: u)
  have fit: "length (slices frame k) + length (chunk_slice frame k) = length (slices frame (k + 1))"
    "length (slices frame (k + 1)) \<le> length frame"
    using slices_length [of "k + 1" frame] assms(7) by (simp_all add: slices_Suc)
  have ph: "tc_phase ?u = Waiting_open (frame_header i g e frame k) (n @ gcm_seal P n (chunk_slice frame k))"
    by (simp add: u)
  have run: "receive_message P m (receiving i g e frame k s)
      = consumer_settles None (settle_handler (finish_binary P (n @ gcm_seal P n (chunk_slice frame k)) ?u))"
    by (simp only: receive_message_def fold_simps channel_step.simps resume_handler_def ph handler_phase.case)
  note form = run [unfolded finish_binary_form [OF a op] advance_assembled [OF assms(7)]]
  show ?thesis
  proof (cases "k + 1 < chunk_count frame")
    case True
    then show ?thesis
      using assms(1) fit unfolding form u
      by (simp add: assembled_def receiving_def receivable_def settle_handler_def handler_done_def
          release_inbound_frame_def consumer_settles_def)
  next
    case False
    then have "chunk_count frame = k + 1" using assms(7) by simp
    moreover from this have "slices frame (k + 1) = frame" using slices_all [of frame] by simp
    ultimately show ?thesis
      using assms(1,2) fit unfolding form u
      by (simp add: assembled_def receiving_def receivable_def settle_handler_def handler_done_def
          release_inbound_frame_def consumer_settles_def completed_def event_of_def)
  qed
qed

lemma receive_frame_prefix:
  assumes "receivable g s" "tc_assembly s = None" "tc_last_inbound_message_id s < i" "frame_fits i g e frame"
    "gcm_ok P" "list_all (\<lambda>n. length n = TERMINAL_CHUNK_NONCE_BYTES) nonces"
    "length nonces = chunk_count frame" "k < chunk_count frame"
  shows "fold (receive_message P) (take k (frame_messages P i g e nonces frame)) s = receiving i g e frame k s"
  using assms(8)
proof (induction k)
  case 0
  then show ?case by (simp add: receiving_def)
next
  case (Suc k)
  have n: "length (nonces ! k) = TERMINAL_CHUNK_NONCE_BYTES"
    using assms(6,7) Suc.prems by (simp add: list_all_length)
  have "take (Suc k) (frame_messages P i g e nonces frame) = take k (frame_messages P i g e nonces frame)
       @ [seal_terminal_chunk P (nonces ! k) (frame_header i g e frame k) (chunk_slice frame k)]"
    using Suc.prems by (simp add: take_Suc_conv_app_nth frame_messages_def)
  then show ?case
    using Suc receive_frame_chunk [OF assms(1-5) n] by simp
qed

lemma receive_frame:
  assumes "receivable g s" "tc_assembly s = None" "tc_last_inbound_message_id s < i" "frame_fits i g e frame"
    "gcm_ok P" "list_all (\<lambda>n. length n = TERMINAL_CHUNK_NONCE_BYTES) nonces"
    "length nonces = chunk_count frame"
  shows "fold (receive_message P) (frame_messages P i g e nonces frame) s =
    s\<lparr>tc_assembly_timer := False, tc_last_inbound_message_id := i,
      tc_delivered := tc_delivered s @ [(i, \<lparr>re_generation = g, re_epoch = e, re_body = frame\<rparr>)]\<rparr>"
proof -
  obtain k where k: "chunk_count frame = Suc k" using chunk_count_pos [of frame] by (cases "chunk_count frame") auto
  have n: "length (nonces ! k) = TERMINAL_CHUNK_NONCE_BYTES"
    using assms(6,7) k by (simp add: list_all_length)
  have "frame_messages P i g e nonces frame = take k (frame_messages P i g e nonces frame)
       @ [seal_terminal_chunk P (nonces ! k) (frame_header i g e frame k) (chunk_slice frame k)]"
    using k by (simp add: frame_messages_def take_map [symmetric])
  then have "fold (receive_message P) (frame_messages P i g e nonces frame) s
      = receive_message P (seal_terminal_chunk P (nonces ! k) (frame_header i g e frame k) (chunk_slice frame k))
          (fold (receive_message P) (take k (frame_messages P i g e nonces frame)) s)"
    by (metis fold_append fold_simps comp_apply)
  then show ?thesis
    using receive_frame_prefix [OF assms, of k] receive_frame_chunk [OF assms(1-5) n] k by simp
qed

subsection \<open>A platform to run on\<close>

text \<open>A concrete seal with a tag of 16 bytes: it shows that \<open>gcm_ok\<close> can hold.\<close>

definition plain_platform :: platform where
  "plain_platform = \<lparr>json_parse = (\<lambda>s. None), base64_decode = (\<lambda>v. None),
     gcm_seal = (\<lambda>n p. p @ replicate 16 0), gcm_open = (\<lambda>n c. Some (take (length c - 16) c)),
     decode_text = (\<lambda>b. []), coerce_number = (\<lambda>v. Not_a_number)\<rparr>"

lemma plain_platform_ok: "gcm_ok plain_platform"
  by (simp add: gcm_ok_def plain_platform_def chunk_constants)

definition ready_channel :: tchannel where
  "ready_channel = new_terminal_channel\<lparr>tc_channel := Channel_open, tc_admitted := True,
     tc_core_generation := Some 4, tc_readiness := Ready_resolved, tc_opening := Opening_returned\<rparr>"

lemma ready_channel_ok:
  "sendable 4 ready_channel" "receivable 4 ready_channel" "tc_sealing ready_channel = []"
  "tc_assembly ready_channel = None" "tc_sent ready_channel = []" "tc_delivered ready_channel = []"
  "tc_outbound_message_id ready_channel = 0" "tc_last_inbound_message_id ready_channel = 0"
  by (simp_all add: ready_channel_def new_terminal_channel_def sendable_def receivable_def)

subsection \<open>Properties\<close>

text \<open>
  C4. What is sent is what arrives: on an admitted, open channel with no send under way, the chunks
  \<open>sendTerminalFrame\<close> puts on the wire for a frame of at most 16 MiB, whatever nonces are drawn,
  are taken in order by an admitted channel of the same generation as one delivery of exactly that
  frame, and the channel is ready for the next message.
\<close>

theorem terminal_frame_roundtrip:
  assumes "gcm_ok P" "sendable g a" "tc_sealing a = []" "frame_fits (tc_outbound_message_id a + 1) g 0 frame"
    "receivable g b" "tc_assembly b = None" "tc_last_inbound_message_id b < tc_outbound_message_id a + 1"
    "length nonces = chunk_count frame" "list_all (\<lambda>n. length n = TERMINAL_CHUNK_NONCE_BYTES) nonces"
  shows "let i = tc_outbound_message_id a + 1;
      a' = fold (channel_step P) (Send_frame frame # map (Chunk_sealed i) nonces) a;
      b' = fold (receive_message P) (drop (length (tc_sent a)) (tc_sent a')) b
    in tc_delivered b' = tc_delivered b @ [(i, \<lparr>re_generation = g, re_epoch = 0, re_body = frame\<rparr>)]
       \<and> receivable g b' \<and> tc_assembly b' = None"
  using send_frame_messages [OF assms(2,1,3,9,8)] receive_frame [OF assms(5,6,7,4,1,9,8)] assms(5,6)
  by (simp add: Let_def receivable_def)

theorem terminal_frame_roundtrip_witness:
  "let a' = fold (channel_step plain_platform) [Send_frame [7, 8, 9], Chunk_sealed 1 (replicate 12 5)] ready_channel;
      b' = fold (receive_message plain_platform) (tc_sent a') ready_channel
   in tc_delivered b' = [(1, \<lparr>re_generation = 4, re_epoch = 0, re_body = [7, 8, 9]\<rparr>)]"
  using terminal_frame_roundtrip [OF plain_platform_ok, of 4 ready_channel "[7, 8, 9]" ready_channel
      "[replicate 12 5]"] ready_channel_ok
  by (simp add: Let_def frame_fits_def chunk_count_def chunk_constants)

text \<open>
  Inbound admission is bounded and exact: after any run, a channel holds at most 256 messages
  and 8 MiB that its handler has not finished with, its counters are the number and the sum of the
  sizes of exactly those, and a running handler always has its message at the head of the queue.
\<close>

theorem inbound_admission_bounded:
  "let s = run_channel P es in
     tc_admitted_frames s = length (tc_queue s)
     \<and> tc_admitted_bytes s = sum_list (map inbound_frame_bytes (tc_queue s))
     \<and> tc_admitted_frames s \<le> 256 \<and> tc_admitted_bytes s \<le> 8 * 1024 * 1024
     \<and> (if tc_phase s = No_handler then True else tc_queue s \<noteq> [])"
  using run_channel_inbound_ok [of P es]
  by (auto simp: Let_def inbound_ok_def admission_ok_def MAXIMUM_QUEUED_FRAMES_def MAXIMUM_QUEUED_BYTES_def)

text \<open>
  C26. Whatever the peer sends, in whatever order and however the channel is closed, what a listener
  gets are messages of the generation the HelloAck named, with strictly increasing message ids and
  at most 16 MiB each, and before the HelloAck it gets nothing.
\<close>

theorem deliveries_belong_to_route:
  "let s = run_channel P es in
     sorted_wrt (<) (map fst (tc_delivered s))
     \<and> list_all (\<lambda>(i, e). tc_core_generation s = Some (re_generation e)
          \<and> length (re_body e) \<le> 16777216) (tc_delivered s)
     \<and> (if tc_admitted s then True else tc_delivered s = [])"
proof -
  have d: "delivery_ok (run_channel P es)" using run_channel_inbound_ok [of P es] by (simp add: inbound_ok_def)
  then have "list_all (\<lambda>(i, e). tc_core_generation (run_channel P es) = Some (re_generation e)
      \<and> length (re_body e) \<le> 16777216) (tc_delivered (run_channel P es))"
    by (simp add: delivery_ok_def list_all_iff chunk_constants case_prod_beta)
  then show ?thesis
    using d unadmitted_is_empty [OF d] by (simp add: Let_def delivery_ok_def)
qed

text \<open>
  A removed listener is never called again: once the owner closed the stream (or its channel
  closed before admission), no later message, continuation or timer delivers anything to it.
\<close>

theorem removed_listener_hears_nothing:
  assumes "tc_listener_closed s"
  shows "let t = fold (channel_step P) es s in tc_listener_closed t \<and> tc_delivered t = tc_delivered s"
proof -
  have "tc_listener_closed t \<and> tc_delivered t = tc_delivered s \<Longrightarrow>
      tc_listener_closed (channel_step P ev t) \<and> tc_delivered (channel_step P ev t) = tc_delivered s" for ev t
    using hushed_step [of t P ev] by (simp add: hushed_def)
  then have "tc_listener_closed t \<and> tc_delivered t = tc_delivered s \<Longrightarrow>
      tc_listener_closed (fold (channel_step P) es t) \<and> tc_delivered (fold (channel_step P) es t) = tc_delivered s" for t
    by (induction es arbitrary: t) simp_all
  then show ?thesis using assms by (simp add: Let_def)
qed

theorem removed_listener_hears_nothing_witness:
  "tc_delivered (fold (channel_step plain_platform) [Arrives (Binary_data [2]), Run_handler]
     (close_terminal_channel False ready_channel)) = []"
proof -
  have "tc_listener_closed (close_terminal_channel False ready_channel)"
    by (simp add: close_terminal_channel_def ready_channel_def new_terminal_channel_def Let_def)
  from removed_listener_hears_nothing [OF this, of plain_platform "[Arrives (Binary_data [2]), Run_handler]"]
  show ?thesis by (simp add: Let_def ready_channel_ok del: fold_simps)
qed

end
