(* ===== verification/Control_Requests.thy ===== *)
theory Control_Requests
  imports Delivery_Chunks
begin

text \<open>
  Host-control requests of \<open>WebrtcDaemonTransport\<close> (\<open>src/botster/webrtcDaemonClient.ts\<close>):
  \<open>request\<close>, the 32 outstanding slots (\<open>reserveSlot\<close>, \<open>acquireRequestSlot\<close>, \<open>grantWaitingSlot\<close>,
  \<open>cancelRequestSlotWaiters\<close>), \<open>sendEncrypted\<close>, \<open>settlePending\<close> and \<open>failPending\<close>. A call of
  \<open>request\<close> is a caller with a phase, one for each \<open>await\<close> it can be suspended at. The state is a
  record that the control channel's reassembly extends.

  One connection generation has one data channel and one key, so \<open>ownsSendTarget\<close> asks whether the
  target's generation is the current one and its channel is the open one.
\<close>

subsection \<open>State\<close>

definition MAX_OUTSTANDING_REQUESTS :: nat where "MAX_OUTSTANDING_REQUESTS = 32"
definition MAX_WAITING_REQUESTS :: nat where "MAX_WAITING_REQUESTS = 256"

lemmas request_limits = MAX_OUTSTANDING_REQUESTS_def MAX_WAITING_REQUESTS_def

record request_slot =
  rs_id :: nat
  rs_generation :: nat

datatype caller_phase =
    Connecting_first
  | Waiting_slot nat
  | Granted nat request_slot
  | Encrypting nat nat request_slot

record pending_request =
  pr_caller :: "nat option"
  pr_slot :: "request_slot option"

datatype request_result = Answered jvalue | Request_failed failure

text \<open>The key of a pending request: its generation, and its id (\<open>None\<close> is the Hello's empty id).\<close>

type_synonym pending_key = "nat \<times> nat option"

record requests =
  cr_generation :: nat
  cr_open :: bool
  cr_reserved :: "(nat \<times> nat) list"
  cr_waiters :: "(nat \<times> nat) list"
  cr_held :: "request_slot list"
  cr_next_slot :: nat
  cr_next_request_id :: nat
  cr_next_caller :: nat
  cr_callers :: "(nat \<times> caller_phase) list"
  cr_pending :: "(pending_key \<times> pending_request) list"
  cr_results :: "(nat \<times> request_result) list"

definition owns_send_target :: "nat \<Rightarrow> 'a requests_scheme \<Rightarrow> bool" where
  "owns_send_target g s \<longleftrightarrow> g = cr_generation s \<and> cr_open s"

text \<open>A caller's promise settles; it leaves the phases.\<close>

definition settle_caller :: "nat \<Rightarrow> request_result \<Rightarrow> 'a requests_scheme \<Rightarrow> 'a requests_scheme" where
  "settle_caller c r s = s\<lparr>cr_callers := AList.delete c (cr_callers s), cr_results := cr_results s @ [(c, r)]\<rparr>"

definition set_phase :: "nat \<Rightarrow> caller_phase \<Rightarrow> 'a requests_scheme \<Rightarrow> 'a requests_scheme" where
  "set_phase c p s = s\<lparr>cr_callers := AList.update c p (cr_callers s)\<rparr>"

subsection \<open>Slots\<close>

definition reserved_slot_count :: "nat \<Rightarrow> 'a requests_scheme \<Rightarrow> nat" where
  "reserved_slot_count g s = (case map_of (cr_reserved s) g of None \<Rightarrow> 0 | Some n \<Rightarrow> n)"

definition reserve_slot :: "nat \<Rightarrow> 'a requests_scheme \<Rightarrow> request_slot \<times> 'a requests_scheme" where
  "reserve_slot g s =
     (let slot = \<lparr>rs_id = cr_next_slot s, rs_generation = g\<rparr> in
      (slot, s\<lparr>cr_reserved := AList.update g (reserved_slot_count g s + 1) (cr_reserved s),
               cr_held := cr_held s @ [slot], cr_next_slot := cr_next_slot s + 1\<rparr>))"

text \<open>\<open>waiter.grant(reserveSlot(generation))\<close>\<close>

definition grant_slot :: "nat \<Rightarrow> nat \<Rightarrow> 'a requests_scheme \<Rightarrow> 'a requests_scheme" where
  "grant_slot g c s = (case reserve_slot g s of (slot, t) \<Rightarrow> set_phase c (Granted g slot) t)"

definition waiter_stale :: failure where
  "waiter_stale = Webrtc_failure Transport
     [L ''local WebRTC connection generation changed while waiting for a request slot'']"

text \<open>The loop of \<open>grantWaitingSlot\<close>, over the queue from its head.\<close>

fun grant_loop :: "(nat \<times> nat) list \<Rightarrow> 'a requests_scheme \<Rightarrow> 'a requests_scheme" where
  "grant_loop [] s = s\<lparr>cr_waiters := []\<rparr>"
| "grant_loop ((g, c) # ws) s =
     (if g \<noteq> cr_generation s then grant_loop ws (settle_caller c (Request_failed waiter_stale) s)
      else if MAX_OUTSTANDING_REQUESTS \<le> reserved_slot_count g s then s\<lparr>cr_waiters := (g, c) # ws\<rparr>
      else grant_slot g c (s\<lparr>cr_waiters := ws\<rparr>))"

definition grant_waiting_slot :: "'a requests_scheme \<Rightarrow> 'a requests_scheme" where
  "grant_waiting_slot s = grant_loop (cr_waiters s) s"

text \<open>\<open>slot.release()\<close>: the second call of one slot does nothing.\<close>

definition release_slot :: "request_slot \<Rightarrow> 'a requests_scheme \<Rightarrow> 'a requests_scheme" where
  "release_slot slot s =
     (if slot \<notin> set (cr_held s) then s
      else let g = rs_generation slot; remaining = int (reserved_slot_count g s) - 1 in
        grant_waiting_slot (s\<lparr>cr_held := remove1 slot (cr_held s),
          cr_reserved := (if remaining \<le> 0 then AList.delete g (cr_reserved s)
                          else AList.update g (nat remaining) (cr_reserved s))\<rparr>))"

definition queue_full :: failure where
  "queue_full = Webrtc_failure Data_plane
     [L ''local WebRTC request queue is full: '', N MAX_WAITING_REQUESTS, L '' callers already wait for a slot'']"

definition acquire_request_slot :: "nat \<Rightarrow> nat \<Rightarrow> 'a requests_scheme \<Rightarrow> 'a requests_scheme" where
  "acquire_request_slot g c s =
     (if cr_waiters s = [] \<and> reserved_slot_count g s < MAX_OUTSTANDING_REQUESTS then grant_slot g c s
      else if MAX_WAITING_REQUESTS \<le> length (cr_waiters s) then settle_caller c (Request_failed queue_full) s
      else (set_phase c (Waiting_slot g) s)\<lparr>cr_waiters := cr_waiters s @ [(g, c)]\<rparr>)"

definition cancel_request_slot_waiters ::
    "failure \<Rightarrow> nat option \<Rightarrow> 'a requests_scheme \<Rightarrow> 'a requests_scheme" where
  "cancel_request_slot_waiters f gen s =
     (let hit = (\<lambda>(g, c). gen = None \<or> gen = Some g);
          t = s\<lparr>cr_waiters := filter (\<lambda>w. \<not> hit w) (cr_waiters s)\<rparr> in
      fold (\<lambda>(g, c). settle_caller c (Request_failed f)) (filter hit (cr_waiters s)) t)"

subsection \<open>A request\<close>

text \<open>The call itself: it waits for \<open>connect()\<close>.\<close>

definition request :: "'a requests_scheme \<Rightarrow> 'a requests_scheme" where
  "request s = (set_phase (cr_next_caller s) Connecting_first s)\<lparr>cr_next_caller := cr_next_caller s + 1\<rparr>"

definition cancelled_before_send :: failure where
  "cancelled_before_send = Webrtc_failure Transport [L ''local WebRTC request cancelled before send'']"

definition channel_not_open :: failure where
  "channel_not_open = Webrtc_failure Transport [L ''local WebRTC data channel is not open'']"

text \<open>\<open>connect()\<close> settled.\<close>

definition connected :: "nat \<Rightarrow> failure option \<Rightarrow> bool \<Rightarrow> 'a requests_scheme \<Rightarrow> 'a requests_scheme" where
  "connected c r cancelled s =
     (if map_of (cr_callers s) c \<noteq> Some Connecting_first then s
      else case r of
        Some f \<Rightarrow> settle_caller c (Request_failed f) s
      | None \<Rightarrow>
          if \<not> cr_open s then settle_caller c (Request_failed channel_not_open) s
          else if cancelled then settle_caller c (Request_failed cancelled_before_send) s
          else acquire_request_slot (cr_generation s) c s)"

text \<open>The slot is there: the request takes its id and is encrypted.\<close>

definition slot_resumed :: "nat \<Rightarrow> bool \<Rightarrow> 'a requests_scheme \<Rightarrow> 'a requests_scheme" where
  "slot_resumed c cancelled s =
     (case map_of (cr_callers s) c of
        Some (Granted g slot) \<Rightarrow>
          if cancelled then settle_caller c (Request_failed cancelled_before_send) (release_slot slot s)
          else if \<not> owns_send_target g s \<or> rs_generation slot \<noteq> g
          then settle_caller c (Request_failed (Webrtc_failure Transport
            [L ''local WebRTC connection changed while the request waited for a request slot'']))
            (release_slot slot s)
          else (set_phase c (Encrypting g (cr_next_request_id s) slot) s)
            \<lparr>cr_next_request_id := cr_next_request_id s + 1\<rparr>
      | _ \<Rightarrow> s)"

subsection \<open>Pending requests\<close>

text \<open>
  \<open>settlePending\<close>: by identity, so an entry that was already settled is left alone. The Hello has
  no slot and no caller of \<open>request\<close>.
\<close>

definition settle_pending :: "pending_key \<Rightarrow> request_result \<Rightarrow> 'a requests_scheme \<Rightarrow> 'a requests_scheme" where
  "settle_pending k r s =
     (case map_of (cr_pending s) k of
        None \<Rightarrow> s
      | Some p \<Rightarrow>
          let t = s\<lparr>cr_pending := AList.delete k (cr_pending s)\<rparr>;
              u = (case pr_caller p of None \<Rightarrow> t | Some c \<Rightarrow> t\<lparr>cr_results := cr_results t @ [(c, r)]\<rparr>) in
          (case pr_slot p of None \<Rightarrow> u | Some slot \<Rightarrow> release_slot slot u))"

text \<open>Encryption of a request finished; \<open>send_throws\<close> is what \<open>channel.send\<close> did.\<close>

definition encrypted :: "nat \<Rightarrow> bool \<Rightarrow> bool \<Rightarrow> bool \<Rightarrow> 'a requests_scheme \<Rightarrow> 'a requests_scheme" where
  "encrypted c encryption_throws cancelled send_throws s =
     (case map_of (cr_callers s) c of
        Some (Encrypting g i slot) \<Rightarrow>
          let fail_with = (\<lambda>f. settle_caller c (Request_failed f) (release_slot slot s)) in
          if encryption_throws
          then fail_with (Webrtc_failure Encryption [L ''local WebRTC request encryption failed''])
          else if cancelled then fail_with cancelled_before_send
          else if \<not> owns_send_target g s
          then fail_with (Webrtc_failure Transport
            [L ''local WebRTC connection changed while the request was encrypting''])
          else if map_of (cr_pending s) (g, Some i) \<noteq> None
          then fail_with (Webrtc_failure Data_plane [L ''local WebRTC request id is already pending''])
          else
            let t = s\<lparr>cr_callers := AList.delete c (cr_callers s),
                      cr_pending := cr_pending s @ [((g, Some i), \<lparr>pr_caller = Some c, pr_slot = Some slot\<rparr>)]\<rparr> in
            if send_throws
            then settle_pending (g, Some i) (Request_failed (Webrtc_failure Data_plane
              [L ''local WebRTC data-plane send failed''])) t
            else t
      | _ \<Rightarrow> s)"

text \<open>The Hello of an attempt enters the map under the empty id.\<close>

definition hello_encrypted :: "nat \<Rightarrow> 'a requests_scheme \<Rightarrow> 'a requests_scheme" where
  "hello_encrypted g s =
     (if \<not> owns_send_target g s \<or> map_of (cr_pending s) (g, None) \<noteq> None then s
      else s\<lparr>cr_pending := cr_pending s @ [((g, None), \<lparr>pr_caller = None, pr_slot = None\<rparr>)]\<rparr>)"

definition request_timeout :: failure where
  "request_timeout = Webrtc_failure Data_plane [L ''local WebRTC request timed out'']"

text \<open>\<open>failPending\<close>: the entries leave the map first, then each is rejected and gives its slot back.\<close>

definition fail_entry :: "failure \<Rightarrow> pending_request \<Rightarrow> 'a requests_scheme \<Rightarrow> 'a requests_scheme" where
  "fail_entry f p s =
     (let u = (case pr_caller p of None \<Rightarrow> s | Some c \<Rightarrow> s\<lparr>cr_results := cr_results s @ [(c, Request_failed f)]\<rparr>) in
      (case pr_slot p of None \<Rightarrow> u | Some slot \<Rightarrow> release_slot slot u))"

definition fail_pending :: "failure \<Rightarrow> nat option \<Rightarrow> 'a requests_scheme \<Rightarrow> 'a requests_scheme" where
  "fail_pending f gen s =
     (let hit = (\<lambda>((g, i), p). gen = None \<or> gen = Some g) in
      cancel_request_slot_waiters f gen
        (fold (\<lambda>(k, p). fail_entry f p) (filter hit (cr_pending s))
          (s\<lparr>cr_pending := filter (\<lambda>e. \<not> hit e) (cr_pending s)\<rparr>)))"

subsection \<open>Connections\<close>

text \<open>The parts of \<open>startAttempt\<close>, \<open>resetPeerState\<close> and \<open>handleTransportClosed\<close> that requests see.\<close>

definition peer_reset :: "'a requests_scheme \<Rightarrow> 'a requests_scheme" where
  "peer_reset s = s\<lparr>cr_open := False\<rparr>"

definition new_attempt :: "'a requests_scheme \<Rightarrow> 'a requests_scheme" where
  "new_attempt s = (peer_reset s)\<lparr>cr_next_request_id := 1, cr_generation := cr_generation s + 1\<rparr>"

definition transport_closed :: "failure \<Rightarrow> nat \<Rightarrow> 'a requests_scheme \<Rightarrow> 'a requests_scheme" where
  "transport_closed f g s =
     (if g \<noteq> cr_generation s then fail_pending f (Some g) s else fail_pending f None (peer_reset s))"

datatype request_event =
    Request
  | Connected nat "failure option" bool
  | Slot_resumed nat bool
  | Encrypted nat bool bool bool
  | Hello_encrypted nat
  | Response_received pending_key jvalue
  | Request_timeout nat nat
  | Channel_open_event
  | Channel_lost
  | New_attempt
  | Transport_closed failure nat
  | Disconnected failure

fun request_step :: "request_event \<Rightarrow> 'a requests_scheme \<Rightarrow> 'a requests_scheme" where
  "request_step Request s = request s"
| "request_step (Connected c r cancelled) s = connected c r cancelled s"
| "request_step (Slot_resumed c cancelled) s = slot_resumed c cancelled s"
| "request_step (Encrypted c throws cancelled send_throws) s = encrypted c throws cancelled send_throws s"
| "request_step (Hello_encrypted g) s = hello_encrypted g s"
| "request_step (Response_received k v) s = settle_pending k (Answered v) s"
| "request_step (Request_timeout g i) s = settle_pending (g, Some i) (Request_failed request_timeout) s"
| "request_step Channel_open_event s = s\<lparr>cr_open := True\<rparr>"
| "request_step Channel_lost s = s\<lparr>cr_open := False\<rparr>"
| "request_step New_attempt s = new_attempt s"
| "request_step (Transport_closed f g) s = transport_closed f g s"
| "request_step (Disconnected f) s = fail_pending f None (peer_reset s)"

definition new_requests :: requests where
  "new_requests = \<lparr>cr_generation = 0, cr_open = False, cr_reserved = [], cr_waiters = [], cr_held = [],
     cr_next_slot = 0, cr_next_request_id = 1, cr_next_caller = 0, cr_callers = [], cr_pending = [],
     cr_results = []\<rparr>"

definition run_requests :: "request_event list \<Rightarrow> requests" where
  "run_requests es = fold request_step es new_requests"

end
