(* ===== verification/Control_Channel.thy ===== *)
theory Control_Channel
  imports Control_Requests Terminal_Channel
begin

text \<open>
  The control DataChannel of \<open>WebrtcDaemonTransport\<close> (\<open>src/botster/webrtcDaemonClient.ts\<close>): the
  message listener of \<open>open\<close> with its admission, \<open>handleMessage\<close> with its delivery reassembly
  (\<open>validateAssemblyChunk\<close>, \<open>ensureAggregateBudget\<close>, \<open>releaseAssembly\<close>,
  \<open>retainCompletedMessageId\<close>, \<open>clearAssemblies\<close>), \<open>failPeerGeneration\<close> and the reset of a peer.
  The state extends the request state, which completed messages settle. Each connection generation
  has its own promise chain: \<open>queue\<close> holds what every chain has not finished with, and a handler
  that waits for decryption is in \<open>waiting\<close>, with the assembly it holds on to.
  \<open>cc_connecting\<close> says that the current attempt is not settled and has not published its peer.
\<close>

subsection \<open>State\<close>

definition MAX_AGGREGATE_RETAINED_BYTES :: int where "MAX_AGGREGATE_RETAINED_BYTES = 32 * 1024 * 1024"
definition MAX_CONCURRENT_ASSEMBLIES :: nat where "MAX_CONCURRENT_ASSEMBLIES = 16"
definition MAX_COMPLETED_MESSAGE_IDS :: nat where "MAX_COMPLETED_MESSAGE_IDS = 64"
definition ASSEMBLY_BOOKKEEPING_BYTES :: nat where "ASSEMBLY_BOOKKEEPING_BYTES = 256"
definition CHUNK_BOOKKEEPING_BYTES :: nat where "CHUNK_BOOKKEEPING_BYTES = 64"
definition COMPLETED_BOOKKEEPING_BYTES :: nat where "COMPLETED_BOOKKEEPING_BYTES = 64"

lemmas chunk_limits = MAX_AGGREGATE_RETAINED_BYTES_def MAX_CONCURRENT_ASSEMBLIES_def
  MAX_COMPLETED_MESSAGE_IDS_def ASSEMBLY_BOOKKEEPING_BYTES_def CHUNK_BOOKKEEPING_BYTES_def
  COMPLETED_BOOKKEEPING_BYTES_def

record response_assembly =
  ra_generation :: nat
  ra_kind :: delivery_kind
  ra_count :: nat
  ra_total :: nat
  ra_chunks :: "(nat \<times> js_string) list"
  ra_received :: nat
  ra_retained :: nat

record control = requests +
  cc_key :: bool
  cc_connecting :: bool
  cc_peer_failed :: bool
  cc_assemblies :: "(js_string \<times> response_assembly) list"
  cc_completed :: "js_string list"
  cc_aggregate :: int
  cc_queue :: "(nat \<times> channel_data) list"
  cc_admissions :: "(nat \<times> nat \<times> nat) list"
  cc_waiting :: "(nat \<times> js_string \<times> response_assembly \<times> js_string) list"
  cc_events :: "jvalue list"

subsection \<open>Assemblies\<close>

definition validates :: "response_assembly \<Rightarrow> delivery_chunk \<Rightarrow> nat \<Rightarrow> bool" where
  "validates a c g \<longleftrightarrow> ra_generation a = g \<and> ra_kind a = dc_kind c \<and> ra_count a = dc_count c \<and> ra_total a = dc_total c"

definition within_budget :: "nat \<Rightarrow> control \<Rightarrow> bool" where
  "within_budget n s \<longleftrightarrow> int n \<le> MAX_AGGREGATE_RETAINED_BYTES - cc_aggregate s"

definition budget_exceeded :: failure where
  "budget_exceeded = Webrtc_failure Data_plane
     [L ''local WebRTC response aggregate retained-byte limit exceeded'']"

definition put_assembly :: "js_string \<Rightarrow> response_assembly \<Rightarrow> nat \<Rightarrow> control \<Rightarrow> control" where
  "put_assembly i a n s = s\<lparr>cc_assemblies := AList.update i a (cc_assemblies s),
     cc_aggregate := cc_aggregate s + int n\<rparr>"

definition release_assembly :: "js_string \<Rightarrow> response_assembly \<Rightarrow> control \<Rightarrow> control" where
  "release_assembly i a s = s\<lparr>cc_assemblies := AList.delete i (cc_assemblies s),
     cc_aggregate := cc_aggregate s - int (ra_retained a)\<rparr>"

definition completed_bytes :: "js_string \<Rightarrow> nat" where
  "completed_bytes i = COMPLETED_BOOKKEEPING_BYTES + utf8_byte_length i"

text \<open>The loop that drops the oldest completed ids.\<close>

fun drop_completed :: "js_string list \<Rightarrow> control \<Rightarrow> control" where
  "drop_completed [] s = s\<lparr>cc_completed := []\<rparr>"
| "drop_completed (i # is) s =
     (if MAX_COMPLETED_MESSAGE_IDS \<le> length (i # is)
      then drop_completed is (s\<lparr>cc_aggregate := cc_aggregate s - int (completed_bytes i)\<rparr>)
      else s\<lparr>cc_completed := i # is\<rparr>)"

definition retain_completed_message_id :: "js_string \<Rightarrow> control \<Rightarrow> control \<times> failure option" where
  "retain_completed_message_id i s0 =
     (let s = drop_completed (cc_completed s0) s0 in
      if \<not> within_budget (completed_bytes i) s then (s, Some budget_exceeded)
      else (s\<lparr>cc_completed := set_add i (cc_completed s),
              cc_aggregate := cc_aggregate s + int (completed_bytes i)\<rparr>, None))"

definition clear_assemblies :: "control \<Rightarrow> control" where
  "clear_assemblies s = s\<lparr>cc_assemblies := [], cc_completed := [], cc_aggregate := 0\<rparr>"

subsection \<open>A chunk arrives\<close>

datatype chunk_outcome =
    Chunk_failed failure
  | Chunk_kept
  | Chunk_completes js_string

text \<open>What follows once the assembly holds the chunk: the declared sizes, and the envelope.\<close>

definition assembly_outcome :: "response_assembly \<Rightarrow> bool \<Rightarrow> chunk_outcome" where
  "assembly_outcome a key =
     (let failed = (\<lambda>m. Chunk_failed (Webrtc_failure Data_plane [L m])) in
      if ra_received a > ra_total a then failed ''local WebRTC response chunk bytes exceed declared total''
      else if length (ra_chunks a) \<noteq> ra_count a then Chunk_kept
      else if ra_received a \<noteq> ra_total a
      then failed ''local WebRTC response chunk bytes do not match declared total''
      else let envelope = concat (map (\<lambda>i. the (map_of (ra_chunks a) i)) [0..<ra_count a]) in
        if utf8_byte_length envelope \<noteq> ra_total a
        then failed ''local WebRTC response assembly is not byte-exact''
        else if \<not> key
        then Chunk_failed (Webrtc_failure Encryption [L ''local WebRTC response key is unavailable''])
        else Chunk_completes envelope)"

definition new_assembly :: "nat \<Rightarrow> delivery_chunk \<Rightarrow> response_assembly" where
  "new_assembly g c = \<lparr>ra_generation = g, ra_kind = dc_kind c, ra_count = dc_count c, ra_total = dc_total c,
     ra_chunks = [(dc_index c, dc_payload c)], ra_received = utf8_byte_length (dc_payload c),
     ra_retained = ASSEMBLY_BOOKKEEPING_BYTES + CHUNK_BOOKKEEPING_BYTES + utf8_byte_length (dc_payload c)\<rparr>"

definition extend_assembly :: "delivery_chunk \<Rightarrow> response_assembly \<Rightarrow> response_assembly" where
  "extend_assembly c a = a\<lparr>ra_chunks := AList.update (dc_index c) (dc_payload c) (ra_chunks a),
     ra_received := ra_received a + utf8_byte_length (dc_payload c),
     ra_retained := ra_retained a + (CHUNK_BOOKKEEPING_BYTES + utf8_byte_length (dc_payload c))\<rparr>"

definition receive_chunk :: "nat \<Rightarrow> delivery_chunk \<Rightarrow> control \<Rightarrow> control \<times> chunk_outcome" where
  "receive_chunk g c s =
     (let failed = (\<lambda>m. (s, Chunk_failed (Webrtc_failure Data_plane [L m]))) in
      if dc_message_id c \<in> set (cc_completed s)
      then failed ''local WebRTC response chunk message id was already completed''
      else case map_of (cc_assemblies s) (dc_message_id c) of
        None \<Rightarrow>
          if MAX_CONCURRENT_ASSEMBLIES \<le> length (cc_assemblies s)
          then failed ''local WebRTC response assembly limit exceeded''
          else let a = new_assembly g c in
            if \<not> within_budget (ra_retained a) s then (s, Chunk_failed budget_exceeded)
            else (put_assembly (dc_message_id c) a (ra_retained a) s, assembly_outcome a (cc_key s))
      | Some a \<Rightarrow>
          if \<not> validates a c g
          then failed ''local WebRTC response chunk metadata conflicts with its assembly''
          else (case map_of (ra_chunks a) (dc_index c) of
              Some p \<Rightarrow>
                if p \<noteq> dc_payload c
                then failed ''local WebRTC response chunk conflicts with a duplicate index''
                else (s, Chunk_kept)
            | None \<Rightarrow>
                let n = CHUNK_BOOKKEEPING_BYTES + utf8_byte_length (dc_payload c) in
                if \<not> within_budget n s then (s, Chunk_failed budget_exceeded)
                else (put_assembly (dc_message_id c) (extend_assembly c a) n s,
                      assembly_outcome (extend_assembly c a) (cc_key s))))"

subsection \<open>A message completes\<close>

fun decimal_value :: "nat \<Rightarrow> js_string \<Rightarrow> nat" where
  "decimal_value n [] = n"
| "decimal_value n (u # us) = decimal_value (10 * n + (unat u - 48)) us"

definition dispatch_frame :: "nat \<Rightarrow> server_frame \<Rightarrow> control \<Rightarrow> control \<times> failure option" where
  "dispatch_frame g fr s =
     (case fr of
        Hello_ack ack \<Rightarrow>
          (case map_of (cr_pending s) (g, None) of
             None \<Rightarrow> (s, Some (Webrtc_failure Data_plane
               [L ''control DataChannel received a Hello ack without a pending Hello'']))
           | Some p \<Rightarrow> (settle_pending (g, None) (Answered ack) s, None))
      | Close_frame reason \<Rightarrow> (s, Some (Webrtc_failure Data_plane
          (L ''control DataChannel closed by Hub: '' # describe_close_reason reason)))
      | Host_event e \<Rightarrow> (s\<lparr>cc_events := cc_events s @ [e]\<rparr>, None)
      | Entity_delivery e \<Rightarrow> (s, Some (Webrtc_failure Data_plane
          [L ''control DataChannel received an entity delivery'']))
      | Response i v \<Rightarrow> (settle_pending (g, Some (decimal_value 0 i)) (Answered v) s, None))"

definition finish_message ::
    "platform \<Rightarrow> nat \<Rightarrow> js_string \<Rightarrow> response_assembly \<Rightarrow> js_string \<Rightarrow> control \<Rightarrow> control \<times> failure option" where
  "finish_message P g i a envelope s =
     (case decrypt_daemon_payload P envelope of
        None \<Rightarrow> (s, Some (Webrtc_failure Encryption [L ''local WebRTC response decryption failed'']))
      | Some payload \<Rightarrow>
          if g \<noteq> cr_generation s then (s, None)
          else
            (case retain_completed_message_id i (release_assembly i a s) of
               (t, Some f) \<Rightarrow> (t, Some f)
             | (t, None) \<Rightarrow>
                 (case parse_server_frame payload of
                    Inl f \<Rightarrow> (t, Some f)
                  | Inr fr \<Rightarrow> dispatch_frame g fr t)))"

subsection \<open>Losing the peer\<close>

definition control_reset :: "control \<Rightarrow> control" where
  "control_reset s = (clear_assemblies (peer_reset s))\<lparr>cc_key := False, cc_connecting := False\<rparr>"

definition fail_peer_generation :: "nat \<Rightarrow> failure \<Rightarrow> control \<Rightarrow> control" where
  "fail_peer_generation g f s =
     (if g \<noteq> cr_generation s \<or> cc_peer_failed s then s
      else fail_pending f None (control_reset (s\<lparr>cc_peer_failed := True\<rparr>)))"

definition control_transport_closed :: "failure \<Rightarrow> nat \<Rightarrow> control \<Rightarrow> control" where
  "control_transport_closed f g s =
     (if g \<noteq> cr_generation s then fail_pending f (Some g) s else fail_pending f None (control_reset s))"

definition control_new_attempt :: "control \<Rightarrow> control" where
  "control_new_attempt s = (new_attempt (control_reset s))\<lparr>cc_peer_failed := False, cc_connecting := True\<rparr>"

text \<open>The attempt publishes its key, its peer and its data channel.\<close>

definition peer_published :: "control \<Rightarrow> control" where
  "peer_published s = (if cc_connecting s then s\<lparr>cc_key := True, cc_connecting := False\<rparr> else s)"

subsection \<open>The promise chains\<close>

definition admission_of :: "nat \<Rightarrow> control \<Rightarrow> nat \<times> nat" where
  "admission_of g s = (case map_of (cc_admissions s) g of None \<Rightarrow> (0, 0) | Some a \<Rightarrow> a)"

definition control_arrives :: "nat \<Rightarrow> channel_data \<Rightarrow> control \<Rightarrow> control" where
  "control_arrives g d s =
     (if g \<noteq> cr_generation s \<or> \<not> cc_key s then s
      else let (frames, bytes) = admission_of g s; n = inbound_frame_bytes d in
        if frames + 1 > MAXIMUM_QUEUED_FRAMES \<or> bytes + n > MAXIMUM_QUEUED_BYTES
        then fail_peer_generation g (Webrtc_failure Data_plane
          [L ''control DataChannel inbound admission exceeded '', N frames, L '' queued frames and '',
           N bytes, L '' queued bytes'']) s
        else s\<lparr>cc_admissions := AList.update g (frames + 1, bytes + n) (cc_admissions s),
               cc_queue := cc_queue s @ [(g, d)]\<rparr>)"

text \<open>The handler of a chain is over: its message leaves the queue and gives its admission back.\<close>

definition chain_done :: "nat \<Rightarrow> failure option \<Rightarrow> control \<Rightarrow> control" where
  "chain_done g r s0 =
     (let s = (case r of None \<Rightarrow> s0 | Some f \<Rightarrow> fail_peer_generation g f s0) in
      case find (\<lambda>e. fst e = g) (cc_queue s) of
        None \<Rightarrow> s
      | Some e \<Rightarrow>
          let (frames, bytes) = admission_of g s in
          s\<lparr>cc_queue := remove1 e (cc_queue s),
            cc_admissions := AList.update g (frames - 1, bytes - inbound_frame_bytes (snd e)) (cc_admissions s)\<rparr>)"

definition begin_message :: "platform \<Rightarrow> channel_data \<Rightarrow> failure + delivery_chunk" where
  "begin_message P d =
     (case d of
        Text_data t \<Rightarrow>
          if MAX_FRAME_BYTES_EXCLUSIVE \<le> utf8_byte_length t
          then fails Data_plane ''local WebRTC response chunk frame exceeds the transport limit''
          else parse_delivery_chunk (json_parse P t)
      | _ \<Rightarrow> fails Data_plane ''local WebRTC response chunk frame must be a string'')"

definition handle_message :: "platform \<Rightarrow> nat \<Rightarrow> control \<Rightarrow> control" where
  "handle_message P g s =
     (if g \<in> fst ` set (cc_waiting s) then s
      else case find (\<lambda>e. fst e = g) (cc_queue s) of
        None \<Rightarrow> s
      | Some (_, d) \<Rightarrow>
          (case begin_message P d of
             Inl f \<Rightarrow> chain_done g (Some f) s
           | Inr c \<Rightarrow>
               (case receive_chunk g c s of
                  (t, Chunk_failed f) \<Rightarrow> chain_done g (Some f) t
                | (t, Chunk_kept) \<Rightarrow> chain_done g None t
                | (t, Chunk_completes envelope) \<Rightarrow>
                    (case map_of (cc_assemblies t) (dc_message_id c) of
                       None \<Rightarrow> t
                     | Some a \<Rightarrow> t\<lparr>cc_waiting := cc_waiting t @ [(g, dc_message_id c, a, envelope)]\<rparr>))))"

definition message_decrypted :: "platform \<Rightarrow> nat \<Rightarrow> control \<Rightarrow> control" where
  "message_decrypted P g s =
     (case map_of (cc_waiting s) g of
        None \<Rightarrow> s
      | Some (i, a, envelope) \<Rightarrow>
          (case finish_message P g i a envelope (s\<lparr>cc_waiting := AList.delete g (cc_waiting s)\<rparr>) of
             (t, r) \<Rightarrow> chain_done g r t))"

definition assembly_times_out :: "js_string \<Rightarrow> control \<Rightarrow> control" where
  "assembly_times_out i s =
     (case map_of (cc_assemblies s) i of
        None \<Rightarrow> s
      | Some a \<Rightarrow> fail_peer_generation (ra_generation a)
          (Webrtc_failure Data_plane [L ''local WebRTC server_frame assembly timed out'']) s)"

datatype control_event =
    Request_event request_event
  | Control_arrives nat channel_data
  | Handle_message nat
  | Message_decrypted nat
  | Assembly_times_out js_string
  | Peer_published
  | Peer_lost failure nat
  | Attempt_started
  | Control_disconnected failure

text \<open>Request events that reset or replace the peer go through the control versions below.\<close>

fun request_only :: "request_event \<Rightarrow> bool" where
  "request_only New_attempt = False"
| "request_only (Transport_closed f g) = False"
| "request_only (Disconnected f) = False"
| "request_only e = True"

fun control_step :: "platform \<Rightarrow> control_event \<Rightarrow> control \<Rightarrow> control" where
  "control_step P (Request_event e) s = (if request_only e then request_step e s else s)"
| "control_step P (Control_arrives g d) s = control_arrives g d s"
| "control_step P (Handle_message g) s = handle_message P g s"
| "control_step P (Message_decrypted g) s = message_decrypted P g s"
| "control_step P (Assembly_times_out i) s = assembly_times_out i s"
| "control_step P Peer_published s = peer_published s"
| "control_step P (Peer_lost f g) s = control_transport_closed f g s"
| "control_step P Attempt_started s = control_new_attempt s"
| "control_step P (Control_disconnected f) s = fail_pending f None (control_reset s)"

definition new_control :: control where
  "new_control = requests.extend new_requests
     \<lparr>cc_key = False, cc_connecting = False, cc_peer_failed = False, cc_assemblies = [], cc_completed = [], cc_aggregate = 0,
      cc_queue = [], cc_admissions = [], cc_waiting = [], cc_events = []\<rparr>"

definition run_control :: "platform \<Rightarrow> control_event list \<Rightarrow> control" where
  "run_control P es = fold (control_step P) es new_control"

end
