(* ===== verification/Control_Slots.thy ===== *)
theory Control_Slots
  imports Control_Requests "HOL-Library.Multiset"
begin

text \<open>
  The laws of the request slots: the count per generation is exact and at most 32, every slot that
  is held has exactly one owner (a suspended caller or a pending request), every caller is in one
  place until it is answered, and the waiting line is the callers that wait for a slot.
\<close>

subsection \<open>Sums over association lists\<close>

lemma sum_list_delete:
  fixes f :: "'v \<Rightarrow> 'w :: comm_monoid_add"
  assumes "map_of m k = Some v" "distinct (map fst m)"
  shows "sum_list (map (f \<circ> snd) m) = f v + sum_list (map (f \<circ> snd) (AList.delete k m))"
  using assms
  by (induction m) (auto simp: add.left_commute delete_id image_iff split: if_splits dest: map_of_SomeD)

lemma sum_list_update_old:
  fixes f :: "'v \<Rightarrow> 'w :: comm_monoid_add"
  assumes "map_of m k = Some v" "distinct (map fst m)"
  shows "f w + sum_list (map (f \<circ> snd) m) = f v + sum_list (map (f \<circ> snd) (AList.update k w m))"
  using assms by (induction m) (auto simp: add.left_commute split: if_splits)

lemma sum_list_update_new:
  fixes f :: "'v \<Rightarrow> 'w :: comm_monoid_add"
  assumes "k \<notin> set (map fst m)"
  shows "sum_list (map (f \<circ> snd) (AList.update k w m)) = f w + sum_list (map (f \<circ> snd) m)"
  using assms by (induction m) (auto simp: add.left_commute add.commute)

lemma mset_keys_delete:
  assumes "map_of m k = Some v" "distinct (map fst m)"
  shows "mset (map fst m) = {#k#} + mset (map fst (AList.delete k m))"
proof -
  have k: "k \<in> set (map fst m)" using assms(1) by (force dest: map_of_SomeD)
  then have "mset (map fst m) = add_mset k (mset (remove1 k (map fst m)))" by simp
  then show ?thesis using assms(2) by (simp add: delete_keys distinct_remove1_removeAll)
qed

lemma keys_update_old: "map_of m k = Some v \<Longrightarrow> map fst (AList.update k w m) = map fst m"
  by (force simp: map_fst_update dest: map_of_SomeD)

subsection \<open>Owners\<close>

fun phase_slots :: "caller_phase \<Rightarrow> request_slot multiset" where
  "phase_slots Connecting_first = {#}"
| "phase_slots (Waiting_slot g) = {#}"
| "phase_slots (Granted g x) = {#x#}"
| "phase_slots (Encrypting g i x) = {#x#}"

definition pending_slots :: "pending_request \<Rightarrow> request_slot multiset" where
  "pending_slots p = (case pr_slot p of None \<Rightarrow> {#} | Some x \<Rightarrow> {#x#})"

definition pending_callers :: "pending_request \<Rightarrow> nat multiset" where
  "pending_callers p = (case pr_caller p of None \<Rightarrow> {#} | Some c \<Rightarrow> {#c#})"

definition busy :: "'a requests_scheme \<Rightarrow> request_slot multiset" where
  "busy s = sum_list (map (phase_slots \<circ> snd) (cr_callers s)) + sum_list (map (pending_slots \<circ> snd) (cr_pending s))"

definition live :: "'a requests_scheme \<Rightarrow> nat multiset" where
  "live s = mset (map fst (cr_callers s)) + sum_list (map (pending_callers \<circ> snd) (cr_pending s))
     + mset (map fst (cr_results s))"

text \<open>
  In the middle of an operation a released slot may still be named by its caller (\<open>D\<close>), and a slot
  or a caller may have left the pending map before it is released or answered (\<open>E\<close>, \<open>C\<close>).
\<close>

definition owned :: "request_slot multiset \<Rightarrow> request_slot multiset \<Rightarrow> 'a requests_scheme \<Rightarrow> bool" where
  "owned D E s \<longleftrightarrow> mset (cr_held s) + D = busy s + E"

definition accounted :: "nat multiset \<Rightarrow> 'a requests_scheme \<Rightarrow> bool" where
  "accounted C s \<longleftrightarrow> live s + C = mset [0..<cr_next_caller s]"

definition counted :: "'a requests_scheme \<Rightarrow> bool" where
  "counted s \<longleftrightarrow> distinct (map rs_id (cr_held s)) \<and> (\<forall>x \<in> set (cr_held s). rs_id x < cr_next_slot s)
     \<and> distinct (map fst (cr_reserved s))
     \<and> (\<forall>g. reserved_slot_count g s = length (filter (\<lambda>x. rs_generation x = g) (cr_held s)))
     \<and> (\<forall>g. length (filter (\<lambda>x. rs_generation x = g) (cr_held s)) \<le> MAX_OUTSTANDING_REQUESTS)"

definition lined_up :: "'a requests_scheme \<Rightarrow> bool" where
  "lined_up s \<longleftrightarrow> distinct (map snd (cr_waiters s)) \<and> length (cr_waiters s) \<le> MAX_WAITING_REQUESTS
     \<and> (\<forall>g c. (g, c) \<in> set (cr_waiters s) \<longleftrightarrow> map_of (cr_callers s) c = Some (Waiting_slot g))"

definition served :: "'a requests_scheme \<Rightarrow> bool" where
  "served s \<longleftrightarrow> cr_waiters s = [] \<or> cr_held s \<noteq> []"

definition slots_inv :: "request_slot multiset \<Rightarrow> request_slot multiset \<Rightarrow> nat multiset \<Rightarrow> 'a requests_scheme \<Rightarrow> bool" where
  "slots_inv D E C s \<longleftrightarrow> owned D E s \<and> accounted C s \<and> counted s \<and> lined_up s"

lemma distinct_if_counts: "(\<And>a. count (mset xs) a \<le> 1) \<Longrightarrow> distinct xs"
  by (subst distinct_count_atmost_1)
    (metis One_nat_def Suc_leI count_greater_zero_iff count_mset_0_iff le_antisym set_mset_mset)

lemma distinct_sub_mset:
  assumes "mset xs \<subseteq># mset ys" "distinct ys"
  shows "distinct xs"
proof (rule distinct_if_counts)
  show "count (mset xs) a \<le> 1" for a
    using mset_subset_eq_count [OF assms(1), of a] assms(2)
    by (auto simp: distinct_count_atmost_1 count_mset_0_iff [THEN iffD2] split: if_splits)
qed

lemma accounted_distinct: "accounted C s \<Longrightarrow> distinct (map fst (cr_callers s))"
proof -
  assume "accounted C s"
  then have "mset [0..<cr_next_caller s] = mset (map fst (cr_callers s))
      + (sum_list (map (pending_callers \<circ> snd) (cr_pending s)) + mset (map fst (cr_results s)) + C)"
    by (simp only: accounted_def live_def add.assoc)
  then have "mset (map fst (cr_callers s)) \<subseteq># mset [0..<cr_next_caller s]" by simp
  then show ?thesis by (rule distinct_sub_mset) simp
qed

subsection \<open>Primitives\<close>

lemma busy_settle_caller:
  "map_of (cr_callers s) c = Some q \<Longrightarrow> distinct (map fst (cr_callers s)) \<Longrightarrow>
     busy s = phase_slots q + busy (settle_caller c r s)"
  by (simp add: busy_def settle_caller_def sum_list_delete [of _ c q phase_slots] add.assoc)

lemma live_settle_caller:
  "map_of (cr_callers s) c = Some q \<Longrightarrow> distinct (map fst (cr_callers s)) \<Longrightarrow>
     live (settle_caller c r s) = live s"
  using mset_keys_delete [of "cr_callers s" c q] by (simp add: live_def settle_caller_def ac_simps)

lemma busy_set_phase:
  "map_of (cr_callers s) c = Some q \<Longrightarrow> distinct (map fst (cr_callers s)) \<Longrightarrow>
     phase_slots p + busy s = phase_slots q + busy (set_phase c p s)"
  using sum_list_update_old [of "cr_callers s" c q phase_slots p]
  by (simp add: busy_def set_phase_def add.assoc [symmetric])

lemma live_set_phase: "map_of (cr_callers s) c = Some q \<Longrightarrow> live (set_phase c p s) = live s"
  by (simp add: live_def set_phase_def keys_update_old)

lemma settle_caller_fields [simp]:
  "cr_held (settle_caller c r s) = cr_held s" "cr_reserved (settle_caller c r s) = cr_reserved s"
  "cr_waiters (settle_caller c r s) = cr_waiters s" "cr_generation (settle_caller c r s) = cr_generation s"
  "cr_next_slot (settle_caller c r s) = cr_next_slot s" "cr_next_caller (settle_caller c r s) = cr_next_caller s"
  "cr_pending (settle_caller c r s) = cr_pending s" "cr_open (settle_caller c r s) = cr_open s"
  "cr_next_request_id (settle_caller c r s) = cr_next_request_id s"
  "map_of (cr_callers (settle_caller c r s)) d = (if d = c then None else map_of (cr_callers s) d)"
  by (simp_all add: settle_caller_def delete_conv')

lemma set_phase_fields [simp]:
  "cr_held (set_phase c p s) = cr_held s" "cr_reserved (set_phase c p s) = cr_reserved s"
  "cr_waiters (set_phase c p s) = cr_waiters s" "cr_generation (set_phase c p s) = cr_generation s"
  "cr_next_slot (set_phase c p s) = cr_next_slot s" "cr_next_caller (set_phase c p s) = cr_next_caller s"
  "cr_pending (set_phase c p s) = cr_pending s" "cr_open (set_phase c p s) = cr_open s"
  "cr_next_request_id (set_phase c p s) = cr_next_request_id s" "cr_results (set_phase c p s) = cr_results s"
  "map_of (cr_callers (set_phase c p s)) d = (if d = c then Some p else map_of (cr_callers s) d)"
  by (simp_all add: set_phase_def update_conv')

lemma slots_inv_callers: "slots_inv D E C s \<Longrightarrow> distinct (map fst (cr_callers s))"
  unfolding slots_inv_def by (blast intro: accounted_distinct)

text \<open>A caller that is not in the waiting line is answered; the slot it names is no longer named.\<close>

lemma settle_caller_inv:
  assumes "slots_inv (phase_slots q + D) E C s" "map_of (cr_callers s) c = Some q" "\<And>g. q \<noteq> Waiting_slot g"
  shows "slots_inv D E C (settle_caller c r s)"
proof -
  note d = slots_inv_callers [OF assms(1)]
  have "owned D E (settle_caller c r s)"
    using assms(1) busy_settle_caller [OF assms(2) d, of r] by (simp add: slots_inv_def owned_def ac_simps)
  then show ?thesis
    using assms live_settle_caller [OF assms(2) d, of r]
    by (auto simp: slots_inv_def accounted_def counted_def lined_up_def reserved_slot_count_def)
qed

text \<open>The head of the waiting line is answered.\<close>

lemma settle_waiter_inv:
  assumes "slots_inv D E C s" "cr_waiters s = (g, c) # ws"
  shows "slots_inv D E C (settle_caller c r (s\<lparr>cr_waiters := ws\<rparr>))"
proof -
  have q: "map_of (cr_callers s) c = Some (Waiting_slot g)"
    using assms by (auto simp: slots_inv_def lined_up_def)
  note d = slots_inv_callers [OF assms(1)]
  have e: "settle_caller c r (s\<lparr>cr_waiters := ws\<rparr>) = (settle_caller c r s)\<lparr>cr_waiters := ws\<rparr>"
    by (simp add: settle_caller_def)
  have "busy ((settle_caller c r s)\<lparr>cr_waiters := ws\<rparr>) = busy s" "live ((settle_caller c r s)\<lparr>cr_waiters := ws\<rparr>) = live s"
    using busy_settle_caller [OF q d, of r] live_settle_caller [OF q d, of r] by (simp_all add: busy_def live_def)
  moreover have "lined_up ((settle_caller c r s)\<lparr>cr_waiters := ws\<rparr>)"
    using assms unfolding slots_inv_def lined_up_def by auto (metis imageI snd_conv)+
  ultimately show ?thesis
    using assms unfolding e by (simp add: slots_inv_def owned_def accounted_def counted_def reserved_slot_count_def)
qed

lemma reserve_slot_counted:
  assumes "counted s" "reserved_slot_count g s < MAX_OUTSTANDING_REQUESTS"
  shows "counted (snd (reserve_slot g s))"
proof -
  have "reserved_slot_count h (snd (reserve_slot g s)) = (if h = g then Suc (reserved_slot_count g s) else reserved_slot_count h s)" for h
    by (simp add: reserved_slot_count_def reserve_slot_def Let_def update_conv')
  then show ?thesis
    using assms by (auto simp: counted_def reserve_slot_def Let_def distinct_update)
qed

text \<open>The caller at \<open>q\<close> (new, or the head of the waiting line) is granted a slot.\<close>

lemma grant_slot_inv:
  assumes "slots_inv D E C s" "reserved_slot_count g s < MAX_OUTSTANDING_REQUESTS"
    "map_of (cr_callers s) c = Some q" "phase_slots q = {#}"
    "lined_up (set_phase c (Granted g x) (s\<lparr>cr_waiters := ws\<rparr>))" "x = \<lparr>rs_id = cr_next_slot s, rs_generation = g\<rparr>"
  shows "slots_inv D E C (grant_slot g c (s\<lparr>cr_waiters := ws\<rparr>))"
proof -
  note d = slots_inv_callers [OF assms(1)]
  let ?t = "snd (reserve_slot g (s\<lparr>cr_waiters := ws\<rparr>))"
  have t: "cr_held ?t = cr_held s @ [x]" "cr_callers ?t = cr_callers s" "cr_waiters ?t = ws" "busy ?t = busy s"
    "live ?t = live s" "cr_next_caller ?t = cr_next_caller s" "fst (reserve_slot g (s\<lparr>cr_waiters := ws\<rparr>)) = x"
    using assms(6) by (simp_all add: reserve_slot_def Let_def busy_def live_def)
  then have g: "grant_slot g c (s\<lparr>cr_waiters := ws\<rparr>) = set_phase c (Granted g x) ?t"
    by (simp add: grant_slot_def case_prod_beta)
  have "counted (s\<lparr>cr_waiters := ws\<rparr>)" "reserved_slot_count g (s\<lparr>cr_waiters := ws\<rparr>) < MAX_OUTSTANDING_REQUESTS"
    using assms(1,2) by (simp_all add: slots_inv_def counted_def reserved_slot_count_def)
  then have "counted (set_phase c (Granted g x) ?t)"
    using reserve_slot_counted [of "s\<lparr>cr_waiters := ws\<rparr>" g] by (simp add: counted_def reserved_slot_count_def)
  moreover have "busy (set_phase c (Granted g x) ?t) = {#x#} + busy s"
    using busy_set_phase [of ?t c q "Granted g x"] assms(3,4) d t by simp
  then have "owned D E (set_phase c (Granted g x) ?t)"
    using assms(1) t by (simp add: slots_inv_def owned_def)
  moreover have "accounted C (set_phase c (Granted g x) ?t)"
    using assms(1,3) t live_set_phase [of ?t c q "Granted g x"] by (simp add: slots_inv_def accounted_def)
  moreover have "lined_up (set_phase c (Granted g x) ?t)"
    using assms(5) t by (simp add: lined_up_def)
  ultimately show ?thesis by (simp add: g slots_inv_def)
qed

subsection \<open>The waiting line and releases\<close>

lemma settle_caller_waiters:
  "settle_caller c r (s\<lparr>cr_waiters := vs\<rparr>) = (settle_caller c r s)\<lparr>cr_waiters := vs\<rparr>"
  by (simp add: settle_caller_def)

lemma grant_loop_waiters: "grant_loop ws (s\<lparr>cr_waiters := vs\<rparr>) = grant_loop ws s"
  by (induction ws s arbitrary: vs rule: grant_loop.induct)
    (auto simp: settle_caller_waiters reserved_slot_count_def grant_slot_def)

lemma lined_up_granted:
  assumes "lined_up s" "cr_waiters s = (g, c) # ws"
  shows "lined_up (set_phase c (Granted g x) (s\<lparr>cr_waiters := ws\<rparr>))"
  using assms unfolding lined_up_def by auto (metis imageI snd_conv)+

lemma grant_loop_inv:
  "slots_inv D E C s \<Longrightarrow> cr_waiters s = ws \<Longrightarrow> slots_inv D E C (grant_loop ws s)"
proof (induction ws arbitrary: s)
  case Nil
  then show ?case by (metis grant_loop.simps(1) requests.surjective requests.update_convs(4))
next
  case (Cons w ws)
  obtain g c where w: "w = (g, c)" by (cases w)
  have q: "map_of (cr_callers s) c = Some (Waiting_slot g)"
    using Cons.prems by (auto simp: w slots_inv_def lined_up_def)
  show ?case
  proof (cases "g \<noteq> cr_generation s")
    case True
    let ?t = "settle_caller c (Request_failed waiter_stale) (s\<lparr>cr_waiters := ws\<rparr>)"
    have "slots_inv D E C (grant_loop ws ?t)"
      using Cons.IH [OF settle_waiter_inv [OF Cons.prems(1)]] Cons.prems(2) w by simp
    also have "grant_loop ws ?t = grant_loop ws (settle_caller c (Request_failed waiter_stale) s)"
      by (simp only: settle_caller_waiters grant_loop_waiters)
    finally show ?thesis using True by (simp add: w)
  next
    case False
    show ?thesis
    proof (cases "MAX_OUTSTANDING_REQUESTS \<le> reserved_slot_count g s")
      case True
      then show ?thesis
        using False Cons.prems w
        by (simp) (metis requests.surjective requests.update_convs(4))
    next
      case notfull: False
      show ?thesis
        using grant_slot_inv [OF Cons.prems(1) _ q _ lined_up_granted [OF Cons.prems(1) [unfolded slots_inv_def, THEN conjunct2, THEN conjunct2, THEN conjunct2]]]
          False notfull Cons.prems(2) w by simp
    qed
  qed
qed

text \<open>When the loop stops with callers still waiting, some slot is held.\<close>

lemma full_count_held:
  "counted s \<Longrightarrow> MAX_OUTSTANDING_REQUESTS \<le> reserved_slot_count g s \<Longrightarrow> cr_held s \<noteq> []"
  by (auto simp: counted_def MAX_OUTSTANDING_REQUESTS_def)

lemma grant_loop_served:
  "slots_inv D E C s \<Longrightarrow> cr_waiters s = ws \<Longrightarrow> served (grant_loop ws s)"
proof (induction ws arbitrary: s)
  case (Cons w ws)
  obtain g c where w: "w = (g, c)" by (cases w)
  let ?t = "settle_caller c (Request_failed waiter_stale) (s\<lparr>cr_waiters := ws\<rparr>)"
  have "served (grant_loop ws ?t)"
    using Cons.IH [OF settle_waiter_inv [OF Cons.prems(1)]] Cons.prems(2) w by simp
  moreover have "grant_loop ws ?t = grant_loop ws (settle_caller c (Request_failed waiter_stale) s)"
    by (simp only: settle_caller_waiters grant_loop_waiters)
  ultimately show ?case
    using full_count_held [of s g] Cons.prems(1)
    by (auto simp: w served_def slots_inv_def grant_slot_def reserve_slot_def Let_def)
qed (simp add: served_def)

lemma counted_release:
  assumes "counted s" "x \<in> set (cr_held s)" "rs_generation x = g"
  shows "counted (s\<lparr>cr_held := remove1 x (cr_held s),
          cr_reserved := (if int (reserved_slot_count g s) - 1 \<le> 0 then AList.delete g (cr_reserved s)
             else AList.update g (nat (int (reserved_slot_count g s) - 1)) (cr_reserved s))\<rparr>)"
  (is "counted ?t")
proof -
  have pos: "0 < length (filter (\<lambda>y. rs_generation y = g) (cr_held s))"
    using assms(2,3) by (auto simp: filter_empty_conv)
  have len: "length (filter (\<lambda>y. rs_generation y = h) (remove1 x (cr_held s))) =
      length (filter (\<lambda>y. rs_generation y = h) (cr_held s)) - (if h = g then 1 else 0)" for h
    using assms(2,3) by (auto simp: filter_remove1 length_remove1 remove1_idem)
  have "reserved_slot_count h ?t = reserved_slot_count h s - (if h = g then 1 else 0)" for h
    by (auto simp: reserved_slot_count_def delete_conv' update_conv' split: option.splits)
  moreover have "distinct (map rs_id (remove1 x (cr_held s)))"
    using assms(1) by (auto simp: counted_def distinct_map intro: inj_on_subset dest: in_set_remove1 [THEN iffD1] set_remove1_subset [THEN subsetD])
  ultimately show ?thesis
    using assms(1) len
    by (auto simp: counted_def distinct_update distinct_delete intro: diff_le_self [THEN le_trans] dest: set_remove1_subset [THEN subsetD])
qed

lemma release_slot_inv_served:
  assumes "slots_inv D E C s" "x \<in> set (cr_held s)" "E = F + {#x#} \<and> G = D \<or> E = F \<and> G = D + {#x#}"
  shows "slots_inv G F C (release_slot x s) \<and> served (release_slot x s)"
proof -
  let ?g = "rs_generation x"
  let ?t = "s\<lparr>cr_held := remove1 x (cr_held s),
      cr_reserved := (if int (reserved_slot_count ?g s) - 1 \<le> 0 then AList.delete ?g (cr_reserved s)
             else AList.update ?g (nat (int (reserved_slot_count ?g s) - 1)) (cr_reserved s))\<rparr>"
  define M where "M = mset (cr_held s) - {#x#}"
  then have M: "mset (cr_held s) = add_mset x M" "mset (remove1 x (cr_held s)) = M" using assms(2) by simp_all
  have b: "busy (s\<lparr>cr_held := h, cr_reserved := r\<rparr>) = busy s" for h r by (simp add: busy_def)
  have "owned G F ?t"
    using assms(1,3) M by (auto simp: slots_inv_def owned_def b simp del: mset_remove1)
  moreover have "counted ?t" using assms(1,2) by (intro counted_release) (simp_all add: slots_inv_def)
  ultimately have "slots_inv G F C ?t"
    using assms(1) by (simp add: slots_inv_def accounted_def live_def lined_up_def)
  then have "slots_inv G F C (grant_loop (cr_waiters ?t) ?t) \<and> served (grant_loop (cr_waiters ?t) ?t)"
    using grant_loop_inv grant_loop_served by blast
  then show ?thesis using assms(2) by (simp add: release_slot_def Let_def grant_waiting_slot_def)
qed

lemmas release_slot_inv = release_slot_inv_served [THEN conjunct1]

lemma held_if_busy: "slots_inv {#} E C s \<Longrightarrow> x \<in># busy s + E \<Longrightarrow> x \<in> set (cr_held s)"
  unfolding slots_inv_def owned_def by (metis add_0_right set_mset_mset)

lemma busy_caller: "map_of (cr_callers s) c = Some q \<Longrightarrow> phase_slots q \<subseteq># busy s"
proof -
  have "map_of m c = Some q \<Longrightarrow> phase_slots q \<subseteq># sum_list (map (phase_slots \<circ> snd) m)" for m
    by (induction m) (auto split: if_splits intro: subset_mset.add_increasing)
  then show "map_of (cr_callers s) c = Some q \<Longrightarrow> phase_slots q \<subseteq># busy s"
    unfolding busy_def by (meson mset_subset_eq_add_left subset_mset.trans)
qed

text \<open>Granting answers or moves waiting callers only.\<close>

lemma grant_loop_keeps_caller:
  assumes "map_of (cr_callers s) c = Some q" "\<And>g. (g, c) \<notin> set ws"
  shows "map_of (cr_callers (grant_loop ws s)) c = Some q"
  using assms
  by (induction ws s rule: grant_loop.induct)
    (auto simp: grant_slot_def reserve_slot_def Let_def)

lemma release_keeps_caller:
  assumes "slots_inv D E C s" "map_of (cr_callers s) c = Some q" "\<And>g. q \<noteq> Waiting_slot g"
  shows "map_of (cr_callers (release_slot x s)) c = Some q"
proof -
  have "(g, c) \<notin> set (cr_waiters s)" for g using assms by (auto simp: slots_inv_def lined_up_def)
  then show ?thesis
    using assms(2) by (auto simp: release_slot_def Let_def grant_waiting_slot_def intro!: grant_loop_keeps_caller)
qed

text \<open>A suspended caller gives its slot back and fails.\<close>

lemma give_up_inv:
  assumes "slots_inv {#} {#} {#} s" "map_of (cr_callers s) c = Some q" "phase_slots q = {#x#}"
  shows "slots_inv {#} {#} {#} (settle_caller c r (release_slot x s))"
proof -
  have "x \<in># busy s" using busy_caller [OF assms(2)] assms(3) by simp
  then have h: "x \<in> set (cr_held s)" using held_if_busy [OF assms(1), of x] by simp
  have r: "slots_inv {#x#} {#} {#} (release_slot x s)"
    by (rule release_slot_inv [OF assms(1) h]) simp
  have q: "map_of (cr_callers (release_slot x s)) c = Some q"
    by (rule release_keeps_caller [OF assms(1,2)]) (use assms(3) in auto)
  show ?thesis
    by (rule settle_caller_inv [OF _ q]) (use r assms(3) in auto)
qed

subsection \<open>Pending requests leave\<close>

lemma release_outside_inv:
  assumes "slots_inv {#} ({#x#} + E) C s"
  shows "slots_inv {#} E C (release_slot x s)"
proof -
  have "x \<in> set (cr_held s)" using held_if_busy [OF assms, of x] by simp
  then show ?thesis by (rule release_slot_inv [OF assms]) (simp add: add.commute)
qed

definition answer_entry :: "request_result \<Rightarrow> pending_request \<Rightarrow> 'a requests_scheme \<Rightarrow> 'a requests_scheme" where
  "answer_entry r p s = (case pr_caller p of None \<Rightarrow> s | Some c \<Rightarrow> s\<lparr>cr_results := cr_results s @ [(c, r)]\<rparr>)"

definition release_entry :: "pending_request \<Rightarrow> 'a requests_scheme \<Rightarrow> 'a requests_scheme" where
  "release_entry p s = (case pr_slot p of None \<Rightarrow> s | Some slot \<Rightarrow> release_slot slot s)"

lemma entry_forms:
  "fail_entry f p s = release_entry p (answer_entry (Request_failed f) p s)"
  "map_of (cr_pending s) k = Some p \<Longrightarrow> settle_pending k r s =
     release_entry p (answer_entry r p (s\<lparr>cr_pending := AList.delete k (cr_pending s)\<rparr>))"
  by (simp_all add: fail_entry_def settle_pending_def answer_entry_def release_entry_def Let_def)

lemma answer_entry_inv:
  assumes "slots_inv {#} E (pending_callers p + C) s"
  shows "slots_inv {#} E C (answer_entry r p s)"
  using assms by (auto simp: slots_inv_def owned_def accounted_def counted_def lined_up_def busy_def live_def
      reserved_slot_count_def pending_callers_def answer_entry_def split: option.splits)

lemma release_outside_served:
  assumes "slots_inv {#} ({#x#} + E) C s"
  shows "served (release_slot x s)"
proof -
  have "x \<in> set (cr_held s)" using held_if_busy [OF assms, of x] by simp
  from release_slot_inv_served [OF assms this, of E "{#}"] show ?thesis by (simp add: add.commute)
qed

lemma release_entry_inv:
  assumes "slots_inv {#} (pending_slots p + E) C s" "served s"
  shows "slots_inv {#} E C (release_entry p s) \<and> served (release_entry p s)"
  using assms release_outside_inv release_outside_served
  by (fastforce simp: release_entry_def pending_slots_def split: option.splits)

lemma served_answer_entry [simp]: "served (answer_entry r p s) = served s"
  by (simp add: served_def answer_entry_def split: option.splits)

lemma fail_entry_inv:
  assumes "slots_inv {#} (pending_slots p + E) (pending_callers p + C) s" "served s"
  shows "slots_inv {#} E C (fail_entry f p s) \<and> served (fail_entry f p s)"
  unfolding entry_forms by (rule release_entry_inv [OF answer_entry_inv [OF assms(1)]]) (simp add: assms(2))

lemma settle_pending_inv:
  assumes "slots_inv {#} {#} {#} s" "served s" "distinct (map fst (cr_pending s))"
  shows "slots_inv {#} {#} {#} (settle_pending k r s) \<and> served (settle_pending k r s)"
proof (cases "map_of (cr_pending s) k")
  case None
  then show ?thesis using assms by (simp add: settle_pending_def)
next
  case (Some p)
  let ?t = "s\<lparr>cr_pending := AList.delete k (cr_pending s)\<rparr>"
  have "busy s = pending_slots p + busy ?t" "live s = pending_callers p + live ?t"
    using sum_list_delete [OF Some assms(3), of pending_slots] sum_list_delete [OF Some assms(3), of pending_callers]
    by (simp_all add: busy_def live_def ac_simps)
  then have "slots_inv {#} (pending_slots p + {#}) (pending_callers p + {#}) ?t"
    using assms(1) by (simp add: slots_inv_def owned_def accounted_def counted_def lined_up_def
        reserved_slot_count_def ac_simps)
  moreover have "served ?t" using assms(2) by (simp add: served_def)
  ultimately show ?thesis
    unfolding entry_forms(2) [OF Some] by (intro release_entry_inv answer_entry_inv) simp_all
qed

lemma fail_entries_inv:
  "slots_inv {#} (sum_list (map (pending_slots \<circ> snd) es) + E) (sum_list (map (pending_callers \<circ> snd) es) + C) s
    \<Longrightarrow> served s \<Longrightarrow> slots_inv {#} E C (fold (\<lambda>(k, p). fail_entry f p) es s)
       \<and> served (fold (\<lambda>(k, p). fail_entry f p) es s)"
proof (induction es arbitrary: s)
  case (Cons e es)
  obtain k p where e: "e = (k, p)" by (cases e)
  note i = fail_entry_inv [of p "sum_list (map (pending_slots \<circ> snd) es) + E"
      "sum_list (map (pending_callers \<circ> snd) es) + C" s f]
  show ?case using Cons.IH [of "fail_entry f p s"] i Cons.prems by (simp add: e add.assoc comp_def)
qed simp

lemma sum_list_filter_split:
  fixes f :: "'v \<Rightarrow> 'w :: comm_monoid_add"
  shows "sum_list (map f xs) = sum_list (map f (filter P xs)) + sum_list (map f (filter (\<lambda>x. \<not> P x) xs))"
  by (induction xs) (auto simp: ac_simps)

text \<open>Waiters are answered: their callers go, nothing else changes.\<close>

lemma settle_waiters_inv:
  assumes "slots_inv D E C s"
  shows "slots_inv D E C (fold (\<lambda>(g, c). settle_caller c r) (filter P (cr_waiters s))
    (s\<lparr>cr_waiters := filter (\<lambda>w. \<not> P w) (cr_waiters s)\<rparr>))
    \<and> (served s \<longrightarrow> served (fold (\<lambda>(g, c). settle_caller c r) (filter P (cr_waiters s))
    (s\<lparr>cr_waiters := filter (\<lambda>w. \<not> P w) (cr_waiters s)\<rparr>)))"
proof -
  let ?f = "\<lambda>(g :: nat, c). settle_caller c r"
  have step: "busy (fold ?f hs t) = busy t \<and> live (fold ?f hs t) = live t \<and> cr_held (fold ?f hs t) = cr_held t
      \<and> cr_reserved (fold ?f hs t) = cr_reserved t \<and> cr_waiters (fold ?f hs t) = cr_waiters t
      \<and> cr_next_slot (fold ?f hs t) = cr_next_slot t \<and> cr_next_caller (fold ?f hs t) = cr_next_caller t
      \<and> (\<forall>c. map_of (cr_callers (fold ?f hs t)) c = (if c \<in> snd ` set hs then None else map_of (cr_callers t) c))"
    if "distinct (map snd hs)" "distinct (map fst (cr_callers t))"
      "\<forall>(g, c) \<in> set hs. map_of (cr_callers t) c = Some (Waiting_slot g)" for hs and t :: "'a requests_scheme"
    using that
  proof (induction hs arbitrary: t)
    case (Cons h hs)
    obtain g c where h: "h = (g, c)" by (cases h)
    then have q: "map_of (cr_callers t) c = Some (Waiting_slot g)" using Cons.prems(3) by simp
    have d: "distinct (map fst (cr_callers (settle_caller c r t)))"
      using Cons.prems(2) by (simp add: settle_caller_def distinct_delete)
    have "\<forall>(g', c') \<in> set hs. map_of (cr_callers (settle_caller c r t)) c' = Some (Waiting_slot g')"
      using Cons.prems(1,3) h by (auto simp: image_iff)
    from Cons.IH [OF _ d this] show ?case
      using Cons.prems(1) busy_settle_caller [OF q Cons.prems(2), of r] live_settle_caller [OF q Cons.prems(2), of r]
      by (auto simp: h)
  qed simp
  let ?h = "filter P (cr_waiters s)" and ?t = "s\<lparr>cr_waiters := filter (\<lambda>w. \<not> P w) (cr_waiters s)\<rparr>"
  have l: "lined_up s" using assms by (simp add: slots_inv_def)
  note e = step [of ?h ?t]
  have "distinct (map snd ?h)" "distinct (map fst (cr_callers ?t))"
    "\<forall>(g, c) \<in> set ?h. map_of (cr_callers ?t) c = Some (Waiting_slot g)"
    using l slots_inv_callers [OF assms] by (auto simp: lined_up_def distinct_map_filter)
  note e = e [OF this]
  have "lined_up (fold ?f ?h ?t)"
    using l e unfolding lined_up_def
    by (auto simp: distinct_map_filter image_iff intro: length_filter_le [THEN le_trans] dest: eq_key_imp_eq_value)
  then show ?thesis
    using assms e
    by (auto simp: slots_inv_def owned_def accounted_def counted_def reserved_slot_count_def busy_def live_def served_def)
qed

subsection \<open>Every operation keeps the books\<close>

lemma slots_inv_cong:
  assumes "slots_inv D E C s" "cr_held t = cr_held s" "cr_reserved t = cr_reserved s" "cr_waiters t = cr_waiters s"
    "cr_next_slot t = cr_next_slot s" "cr_next_caller t = cr_next_caller s" "cr_callers t = cr_callers s"
    "cr_pending t = cr_pending s" "cr_results t = cr_results s"
  shows "slots_inv D E C t"
  using assms
  by (simp add: slots_inv_def owned_def accounted_def counted_def lined_up_def busy_def live_def reserved_slot_count_def)

abbreviation "slots_ok \<equiv> slots_inv {#} {#} {#}"

lemma request_inv: "slots_ok s \<Longrightarrow> slots_ok (request s)"
proof -
  assume s: "slots_ok s"
  have "live s = mset [0..<cr_next_caller s]" using s by (simp add: slots_inv_def accounted_def)
  then have "set_mset (live s) = {0..<cr_next_caller s}" by (simp only: set_mset_mset) simp
  then have n: "cr_next_caller s \<notin> set (map fst (cr_callers s))" by (auto simp: live_def)
  let ?t = "request s"
  have "busy ?t = busy s" using n by (simp add: busy_def request_def set_phase_def sum_list_update_new)
  moreover have "live ?t = add_mset (cr_next_caller s) (live s)"
    using n by (simp add: live_def request_def set_phase_def map_fst_update)
  moreover have "map_of (cr_callers s) (cr_next_caller s) = None" using n by (simp add: map_of_eq_None_iff)
  ultimately show ?thesis
    using s by (auto simp: slots_inv_def owned_def accounted_def counted_def lined_up_def reserved_slot_count_def request_def)
qed

lemma acquire_inv:
  assumes "slots_ok s" "map_of (cr_callers s) c = Some Connecting_first"
  shows "slots_ok (acquire_request_slot g c s)"
proof -
  note d = slots_inv_callers [OF assms(1)]
  have l: "lined_up s" using assms(1) by (simp add: slots_inv_def)
  have nw: "(h, c) \<notin> set (cr_waiters s)" for h using l assms(2) by (auto simp: lined_up_def)
  consider (granted) "cr_waiters s = []" "reserved_slot_count g s < MAX_OUTSTANDING_REQUESTS"
    | (full) "MAX_WAITING_REQUESTS \<le> length (cr_waiters s)"
        "acquire_request_slot g c s = settle_caller c (Request_failed queue_full) s"
    | (waits) "\<not> MAX_WAITING_REQUESTS \<le> length (cr_waiters s)" "acquire_request_slot g c s =
        (set_phase c (Waiting_slot g) s)\<lparr>cr_waiters := cr_waiters s @ [(g, c)]\<rparr>"
    by (cases "cr_waiters s = [] \<and> reserved_slot_count g s < MAX_OUTSTANDING_REQUESTS")
      (cases "MAX_WAITING_REQUESTS \<le> length (cr_waiters s)"; auto simp: acquire_request_slot_def)+
  then show ?thesis
  proof cases
    case granted
    have "lined_up (set_phase c (Granted g x) (s\<lparr>cr_waiters := []\<rparr>))" for x
      using l granted(1) by (auto simp: lined_up_def)
    then have "slots_ok (grant_slot g c (s\<lparr>cr_waiters := []\<rparr>))"
      by (intro grant_slot_inv [OF assms(1) granted(2) assms(2)]) auto
    moreover have "s\<lparr>cr_waiters := []\<rparr> = s" using granted(1) by (metis requests.surjective requests.update_convs(4))
    ultimately show ?thesis using granted by (simp add: acquire_request_slot_def)
  next
    case full
    show ?thesis unfolding full(2) by (rule settle_caller_inv [OF _ assms(2)]) (use assms(1) in auto)
  next
    case waits
    let ?t = "(set_phase c (Waiting_slot g) s)\<lparr>cr_waiters := cr_waiters s @ [(g, c)]\<rparr>"
    have "busy ?t = busy s" "live ?t = live s"
      using busy_set_phase [OF assms(2) d, of "Waiting_slot g"] live_set_phase [OF assms(2), of "Waiting_slot g"]
      by (simp_all add: busy_def live_def)
    moreover have "lined_up ?t"
      using l nw waits(1) by (force simp: lined_up_def image_iff)
    ultimately have "slots_ok ?t"
      using assms(1) by (simp add: slots_inv_def owned_def accounted_def counted_def reserved_slot_count_def)
    then show ?thesis by (simp only: waits(2))
  qed
qed

lemma connected_inv: "slots_ok s \<Longrightarrow> slots_ok (connected c r x s)"
  by (auto simp: connected_def intro!: acquire_inv settle_caller_inv [of Connecting_first] split: option.splits)

lemma slot_resumed_inv:
  assumes "slots_ok s"
  shows "slots_ok (slot_resumed c x s)"
proof (cases "\<exists>g slot. map_of (cr_callers s) c = Some (Granted g slot)")
  case True
  then obtain g slot where q: "map_of (cr_callers s) c = Some (Granted g slot)" by blast
  have give: "slots_ok (settle_caller c r (release_slot slot s))" for r
    by (rule give_up_inv [OF assms q]) simp
  let ?t = "(set_phase c (Encrypting g (cr_next_request_id s) slot) s)\<lparr>cr_next_request_id := cr_next_request_id s + 1\<rparr>"
  have "busy ?t = busy s" "live ?t = live s"
    using busy_set_phase [OF q slots_inv_callers [OF assms], of "Encrypting g (cr_next_request_id s) slot"]
      live_set_phase [OF q, of "Encrypting g (cr_next_request_id s) slot"]
    by (simp_all add: busy_def live_def)
  moreover have "lined_up ?t" using assms q by (auto simp: slots_inv_def lined_up_def)
  ultimately have "slots_ok ?t"
    using assms by (simp add: slots_inv_def owned_def accounted_def counted_def reserved_slot_count_def)
  then show ?thesis using give q by (simp add: slot_resumed_def)
qed (use assms in \<open>auto simp: slot_resumed_def split: option.split caller_phase.split\<close>)

lemma fail_pending_inv: "slots_ok s \<Longrightarrow> served s \<Longrightarrow> slots_ok (fail_pending f gen s) \<and> served (fail_pending f gen s)"
proof -
  assume s: "slots_ok s" and v: "served s"
  let ?hit = "\<lambda>((g, i :: nat option), p :: pending_request). gen = None \<or> gen = Some g"
  let ?t = "s\<lparr>cr_pending := filter (\<lambda>e. \<not> ?hit e) (cr_pending s)\<rparr>"
  have "busy s = sum_list (map (pending_slots \<circ> snd) (filter ?hit (cr_pending s))) + busy ?t"
    "live s = sum_list (map (pending_callers \<circ> snd) (filter ?hit (cr_pending s))) + live ?t"
    using sum_list_filter_split [of "pending_slots \<circ> snd" "cr_pending s" ?hit]
      sum_list_filter_split [of "pending_callers \<circ> snd" "cr_pending s" ?hit]
    by (simp_all add: busy_def live_def ac_simps)
  then have "slots_inv {#} (sum_list (map (pending_slots \<circ> snd) (filter ?hit (cr_pending s))) + {#})
      (sum_list (map (pending_callers \<circ> snd) (filter ?hit (cr_pending s))) + {#}) ?t"
    using s by (simp add: slots_inv_def owned_def accounted_def counted_def lined_up_def reserved_slot_count_def ac_simps)
  from fail_entries_inv [OF this, of f] v
  have "slots_ok (fold (\<lambda>(k, p). fail_entry f p) (filter ?hit (cr_pending s)) ?t)"
    "served (fold (\<lambda>(k, p). fail_entry f p) (filter ?hit (cr_pending s)) ?t)" by (simp_all add: served_def)
  then show ?thesis
    unfolding fail_pending_def Let_def cancel_request_slot_waiters_def using settle_waiters_inv by blast
qed

end
