(* ===== verification/Control_Laws.thy ===== *)
theory Control_Laws
  imports Control_Slots
begin

text \<open>
  Request ids are unique per connection generation, a waiting caller always has a slot holder to
  wait for, and the properties of host-control requests over all runs.
\<close>

subsection \<open>Request ids\<close>

fun encrypting_keys :: "caller_phase \<Rightarrow> pending_key multiset" where
  "encrypting_keys (Encrypting g i x) = {#(g, Some i)#}"
| "encrypting_keys p = {#}"

definition request_keys :: "'a requests_scheme \<Rightarrow> pending_key multiset" where
  "request_keys s = sum_list (map (encrypting_keys \<circ> snd) (cr_callers s)) + mset (map fst (cr_pending s))"

definition keys_ok :: "'a requests_scheme \<Rightarrow> bool" where
  "keys_ok s \<longleftrightarrow> (\<forall>k. count (request_keys s) k \<le> 1)
     \<and> (\<forall>g i. (g, Some i) \<in># request_keys s \<longrightarrow>
          g \<le> cr_generation s \<and> (g = cr_generation s \<longrightarrow> i < cr_next_request_id s))"

definition fewer_keys :: "'a requests_scheme \<Rightarrow> 'a requests_scheme \<Rightarrow> bool" where
  "fewer_keys s t \<longleftrightarrow> request_keys t \<subseteq># request_keys s \<and> cr_generation t = cr_generation s
     \<and> cr_next_request_id t = cr_next_request_id s"

lemma fewer_keys_refl [simp]: "fewer_keys s s"
  by (simp add: fewer_keys_def)

lemma fewer_keys_trans [trans]: "fewer_keys s t \<Longrightarrow> fewer_keys t u \<Longrightarrow> fewer_keys s u"
  by (auto simp: fewer_keys_def intro: subset_mset.trans)

lemma fewer_keys_ok:
  assumes "keys_ok s" "fewer_keys s t"
  shows "keys_ok t"
proof -
  have sub: "request_keys t \<subseteq># request_keys s" and f: "cr_generation t = cr_generation s"
    "cr_next_request_id t = cr_next_request_id s"
    using assms(2) by (simp_all add: fewer_keys_def)
  have "count (request_keys t) k \<le> 1" for k
    using mset_subset_eq_count [OF sub, of k] assms(1) unfolding keys_ok_def by (meson le_trans)
  then show ?thesis using assms(1) mset_subset_eqD [OF sub] by (simp add: keys_ok_def f) blast
qed

lemma sum_list_delete_sub:
  "sum_list (map (f \<circ> snd) (AList.delete k m)) \<subseteq># (sum_list (map (f \<circ> snd) m) :: 'w multiset)"
  by (induction m) (auto intro: subset_mset.add_increasing)

lemma sum_list_update_sub:
  "sum_list (map (f \<circ> snd) (AList.update k w m)) \<subseteq># f w + (sum_list (map (f \<circ> snd) m) :: 'w multiset)"
  by (induction m) (auto simp: add.left_commute [of "f w"] intro: subset_mset.add_left_mono)

lemma fewer_settle_caller: "fewer_keys s (settle_caller c r s)"
  by (simp add: fewer_keys_def request_keys_def settle_caller_def sum_list_delete_sub)

lemma fewer_set_phase: "encrypting_keys p = {#} \<Longrightarrow> fewer_keys s (set_phase c p s)"
  using sum_list_update_sub [of encrypting_keys c p "cr_callers s"]
  by (simp add: fewer_keys_def request_keys_def set_phase_def)

lemma fewer_grant_slot: "fewer_keys s (grant_slot g c s)"
proof -
  have "fewer_keys s (snd (reserve_slot g s))" by (simp add: fewer_keys_def request_keys_def reserve_slot_def Let_def)
  from fewer_keys_trans [OF this fewer_set_phase] show ?thesis
    by (simp add: grant_slot_def case_prod_beta)
qed

lemma fewer_waiters: "fewer_keys (s\<lparr>cr_waiters := ws\<rparr>) t \<longleftrightarrow> fewer_keys s t"
    "fewer_keys s (t\<lparr>cr_waiters := ws\<rparr>) \<longleftrightarrow> fewer_keys s t"
  by (simp_all add: fewer_keys_def request_keys_def)

lemma fewer_grant_loop: "fewer_keys s (grant_loop ws s)"
proof (induction ws s rule: grant_loop.induct)
  case (2 g c ws s)
  then show ?case
    using fewer_grant_slot [of "s\<lparr>cr_waiters := ws\<rparr>" g c]
    by (auto simp: fewer_waiters intro: fewer_keys_trans fewer_settle_caller)
qed (simp add: fewer_waiters)

lemma fewer_release: "fewer_keys s (release_slot x s)"
proof (cases "x \<in> set (cr_held s)")
  case True
  have "fewer_keys s (s\<lparr>cr_held := h, cr_reserved := v\<rparr>)" for h v
    by (simp add: fewer_keys_def request_keys_def)
  from fewer_keys_trans [OF this fewer_grant_loop] show ?thesis
    using True by (simp add: release_slot_def Let_def grant_waiting_slot_def)
qed (simp add: release_slot_def)

lemma fewer_acquire: "fewer_keys s (acquire_request_slot g c s)"
  by (auto simp: acquire_request_slot_def fewer_waiters intro: fewer_grant_slot fewer_settle_caller fewer_set_phase)

lemma fewer_results: "fewer_keys s (s\<lparr>cr_results := rs\<rparr>)"
  by (simp add: fewer_keys_def request_keys_def)

lemma fewer_answer_release:
  "fewer_keys s t \<Longrightarrow> fewer_keys s (release_slot x (t\<lparr>cr_results := rs\<rparr>))"
  "fewer_keys s t \<Longrightarrow> fewer_keys s (release_slot x t)" "fewer_keys s t \<Longrightarrow> fewer_keys s (t\<lparr>cr_results := rs\<rparr>)"
  by (blast intro: fewer_keys_trans fewer_release fewer_results)+

lemma fewer_fail_entry: "fewer_keys s (fail_entry f p s)"
  by (simp add: fail_entry_def Let_def fewer_answer_release split: option.splits)

lemma fewer_fold: "(\<And>x t. fewer_keys t (h x t)) \<Longrightarrow> fewer_keys s (fold h xs s)"
  by (induction xs arbitrary: s) (auto intro: fewer_keys_trans)

lemma fewer_settle_pending: "fewer_keys s (settle_pending k r s)"
proof (cases "map_of (cr_pending s) k")
  case (Some p)
  let ?t = "s\<lparr>cr_pending := AList.delete k (cr_pending s)\<rparr>"
  have "fewer_keys s ?t"
    by (simp add: fewer_keys_def request_keys_def AList.delete_eq)
      (metis (no_types, lifting) image_mset_subseteq_mono mset_filter multiset_filter_subset)
  then have "fewer_keys s (release_slot x (?t\<lparr>cr_results := rs\<rparr>))" "fewer_keys s (release_slot x ?t)"
    "fewer_keys s (?t\<lparr>cr_results := rs\<rparr>)" for x rs
    by (simp_all add: fewer_answer_release)
  then show ?thesis
    using Some \<open>fewer_keys s ?t\<close> by (simp add: settle_pending_def Let_def split: option.splits)
qed (simp add: settle_pending_def)

lemma fewer_fail_pending: "fewer_keys s (fail_pending f gen s)"
proof -
  have "fewer_keys s (s\<lparr>cr_pending := filter P (cr_pending s)\<rparr>)" for P
    by (simp add: fewer_keys_def request_keys_def) (metis image_mset_subseteq_mono mset_filter multiset_filter_subset)
  then show ?thesis
    unfolding fail_pending_def cancel_request_slot_waiters_def Let_def
    by (intro fewer_keys_trans [OF _ fewer_fold] fewer_keys_trans [OF _ fewer_waiters(2) [THEN iffD2, OF fewer_keys_refl]])
      (auto simp: case_prod_beta intro: fewer_fail_entry fewer_settle_caller)
qed

lemma keys_ok_pending: "keys_ok s \<Longrightarrow> distinct (map fst (cr_pending s))"
proof -
  assume k: "keys_ok s"
  have "count (mset (map fst (cr_pending s))) a \<le> 1" for a
  proof -
    have "mset (map fst (cr_pending s)) \<subseteq># request_keys s" by (simp add: request_keys_def)
    then show ?thesis using k mset_subset_eq_count unfolding keys_ok_def by (meson le_trans)
  qed
  then show ?thesis by (rule distinct_if_counts)
qed

subsection \<open>Somebody to wait for\<close>

lemma release_served: "slots_ok s \<Longrightarrow> x \<in># busy s \<Longrightarrow> served (release_slot x s)"
  using release_slot_inv_served [of "{#}" "{#}" "{#}" s x "{#}" "{#x#}"] held_if_busy [of "{#}" "{#}" s x] by simp

lemma served_cong: "served s \<Longrightarrow> cr_held t = cr_held s \<Longrightarrow> cr_waiters t = cr_waiters s \<Longrightarrow> served t"
  by (simp add: served_def)

lemma served_settle_caller [simp]: "served (settle_caller c r s) = served s"
  by (simp add: served_def)

lemma acquire_served: "slots_ok s \<Longrightarrow> served s \<Longrightarrow> served (acquire_request_slot g c s)"
  using full_count_held [of s g]
  by (auto simp: acquire_request_slot_def served_def slots_inv_def grant_slot_def reserve_slot_def Let_def)

subsection \<open>Every step\<close>

definition requests_ok :: "'a requests_scheme \<Rightarrow> bool" where
  "requests_ok s \<longleftrightarrow> slots_ok s \<and> served s \<and> keys_ok s"

lemma give_up_ok:
  assumes "requests_ok s" "map_of (cr_callers s) c = Some q" "phase_slots q = {#x#}"
  shows "requests_ok (settle_caller c r (release_slot x s))"
proof -
  have s: "slots_ok s" "served s" "keys_ok s" using assms(1) by (simp_all add: requests_ok_def)
  have "x \<in># busy s" using busy_caller [OF assms(2)] assms(3) by simp
  then show ?thesis
    using give_up_inv [OF s(1) assms(2,3)] release_served [OF s(1)]
      fewer_keys_ok [OF s(3) fewer_keys_trans [OF fewer_release fewer_settle_caller]]
    by (simp add: requests_ok_def)
qed

lemma connected_ok: "requests_ok s \<Longrightarrow> requests_ok (connected c r x s)"
  using connected_inv [of s c r x] acquire_served [of s] fewer_keys_ok [OF _ fewer_acquire, of s]
    fewer_keys_ok [OF _ fewer_settle_caller, of s]
  by (auto simp: requests_ok_def connected_def split: option.splits)

lemma request_ok: "requests_ok s \<Longrightarrow> requests_ok (request s)"
  using request_inv [of s] fewer_keys_ok [OF _ fewer_set_phase, of s Connecting_first "cr_next_caller s"]
  by (simp add: requests_ok_def served_def request_def keys_ok_def request_keys_def)

lemma settle_pending_ok: "requests_ok s \<Longrightarrow> requests_ok (settle_pending k r s)"
  using settle_pending_inv [of s k r] keys_ok_pending [of s] fewer_keys_ok [OF _ fewer_settle_pending, of s]
  by (simp add: requests_ok_def)

lemma fail_pending_ok: "requests_ok s \<Longrightarrow> requests_ok (fail_pending f gen s)"
  using fail_pending_inv [of s f gen] fewer_keys_ok [OF _ fewer_fail_pending, of s] by (simp add: requests_ok_def)

lemma requests_ok_open [simp]: "requests_ok (s\<lparr>cr_open := b\<rparr>) = requests_ok s"
  by (simp add: requests_ok_def slots_inv_def owned_def accounted_def counted_def lined_up_def busy_def live_def
      reserved_slot_count_def served_def keys_ok_def request_keys_def)

lemma sum_encrypting_update:
  assumes "map_of (cr_callers s) c = Some q" "distinct (map fst (cr_callers s))"
  shows "encrypting_keys p + request_keys s = encrypting_keys q + request_keys (set_phase c p s)"
  using sum_list_update_old [OF assms, of encrypting_keys p]
  by (simp add: request_keys_def set_phase_def add.assoc [symmetric])

lemma count_add_new:
  "\<forall>k. count K k \<le> 1 \<Longrightarrow> x \<notin># K \<Longrightarrow> count (add_mset x K) k \<le> 1"
  by (cases "k = x") (simp_all add: not_in_iff)

lemma slot_resumed_ok:
  assumes "requests_ok s"
  shows "requests_ok (slot_resumed c x s)"
proof (cases "\<exists>g slot. map_of (cr_callers s) c = Some (Granted g slot)")
  case True
  then obtain g slot where q: "map_of (cr_callers s) c = Some (Granted g slot)" by blast
  have s: "slots_ok s" "served s" "keys_ok s" using assms by (simp_all add: requests_ok_def)
  let ?t = "(set_phase c (Encrypting g (cr_next_request_id s) slot) s)\<lparr>cr_next_request_id := cr_next_request_id s + 1\<rparr>"
  have "requests_ok ?t" if g: "g = cr_generation s" and inv: "slots_ok ?t"
  proof -
    have k: "request_keys ?t = add_mset (g, Some (cr_next_request_id s)) (request_keys s)"
      using sum_encrypting_update [OF q slots_inv_callers [OF s(1)], of "Encrypting g (cr_next_request_id s) slot"]
      by (simp add: request_keys_def)
    have new: "(g, Some (cr_next_request_id s)) \<notin># request_keys s" using s(3) g by (auto simp: keys_ok_def)
    then have "count (add_mset (g, Some (cr_next_request_id s)) (request_keys s)) k \<le> 1" for k
      using s(3) by (intro count_add_new) (simp_all add: keys_ok_def)
    then have "keys_ok ?t"
      unfolding keys_ok_def k using s(3) g by (auto simp: keys_ok_def less_Suc_eq)
    then show ?thesis using s(2) inv by (simp add: requests_ok_def served_def)
  qed
  then show ?thesis
    using give_up_ok [OF assms q] q slot_resumed_inv [OF s(1), of c x]
    by (auto simp: slot_resumed_def owns_send_target_def)
qed (use assms in \<open>auto simp: slot_resumed_def split: option.split caller_phase.split\<close>)

lemma encrypted_ok:
  assumes "requests_ok s"
  shows "requests_ok (encrypted c e x w s)"
proof (cases "\<exists>g i slot. map_of (cr_callers s) c = Some (Encrypting g i slot)")
  case True
  then obtain g i slot where q: "map_of (cr_callers s) c = Some (Encrypting g i slot)" by blast
  have s: "slots_ok s" "served s" "keys_ok s" using assms by (simp_all add: requests_ok_def)
  note d = slots_inv_callers [OF s(1)]
  let ?t = "s\<lparr>cr_callers := AList.delete c (cr_callers s),
      cr_pending := cr_pending s @ [((g, Some i), \<lparr>pr_caller = Some c, pr_slot = Some slot\<rparr>)]\<rparr>"
  have "busy ?t = busy s" "live ?t = live s" "request_keys ?t = request_keys s"
    using sum_list_delete [OF q d, of phase_slots] mset_keys_delete [OF q d] sum_list_delete [OF q d, of encrypting_keys]
    by (simp_all add: busy_def live_def request_keys_def pending_slots_def pending_callers_def ac_simps)
  then have t: "requests_ok ?t"
    using s q by (auto simp: requests_ok_def slots_inv_def owned_def accounted_def counted_def lined_up_def
        reserved_slot_count_def served_def keys_ok_def delete_conv')
  have give: "requests_ok (settle_caller c r (release_slot slot s))" for r
    by (rule give_up_ok [OF assms q]) simp
  show ?thesis using t give settle_pending_ok [OF t] q by (simp add: encrypted_def Let_def)
qed (use assms in \<open>auto simp: encrypted_def split: option.split caller_phase.split\<close>)

lemma hello_encrypted_ok:
  assumes "requests_ok s"
  shows "requests_ok (hello_encrypted g s)"
proof (cases "\<not> owns_send_target g s \<or> map_of (cr_pending s) (g, None) \<noteq> None")
  case False
  let ?t = "s\<lparr>cr_pending := cr_pending s @ [((g, None), \<lparr>pr_caller = None, pr_slot = None\<rparr>)]\<rparr>"
  have "(g, None) \<notin># sum_list (map (encrypting_keys \<circ> snd) m)" for m :: "(nat \<times> caller_phase) list"
  proof (induction m)
    case (Cons a m)
    then show ?case by (cases a; cases "snd a") auto
  qed simp
  moreover have "(g, None) \<notin> fst ` set (cr_pending s)" using False by (simp add: map_of_eq_None_iff)
  ultimately have "(g, None) \<notin># request_keys s" by (simp add: request_keys_def)
  then have "count (add_mset (g, None) (request_keys s)) k \<le> 1" for k
    using assms by (intro count_add_new) (simp_all add: requests_ok_def keys_ok_def)
  moreover have "request_keys ?t = add_mset (g, None) (request_keys s)" "busy ?t = busy s" "live ?t = live s"
    by (simp_all add: request_keys_def busy_def live_def pending_slots_def pending_callers_def)
  ultimately have "requests_ok ?t"
    using assms by (auto simp: requests_ok_def slots_inv_def owned_def accounted_def counted_def lined_up_def
        reserved_slot_count_def served_def keys_ok_def)
  then show ?thesis using False by (simp add: hello_encrypted_def)
qed (use assms in \<open>simp add: hello_encrypted_def\<close>)

lemma new_attempt_ok: "requests_ok s \<Longrightarrow> requests_ok (new_attempt s)"
proof -
  assume s: "requests_ok s"
  have k: "request_keys (new_attempt s) = request_keys s" "cr_generation (new_attempt s) = Suc (cr_generation s)"
    by (simp_all add: request_keys_def new_attempt_def peer_reset_def)
  have k0: "keys_ok s" using s by (simp add: requests_ok_def)
  then have b1: "\<forall>j. count (request_keys s) j \<le> 1" unfolding keys_ok_def by (rule conjunct1)
  have b2: "g \<le> cr_generation s" if "(g, Some i) \<in># request_keys s" for g i
    using k0 that unfolding keys_ok_def by blast
  have "keys_ok (new_attempt s)"
    unfolding keys_ok_def k
  proof (intro conjI allI impI)
    show "count (request_keys s) j \<le> 1" for j using b1 by (rule spec)
    fix g i
    assume m: "(g, Some i) \<in># request_keys s"
    show "g \<le> Suc (cr_generation s)" using b2 [OF m] by simp
    show "i < cr_next_request_id (new_attempt s)" if "g = Suc (cr_generation s)" using b2 [OF m] that by simp
  qed
  moreover have "slots_ok (new_attempt s)"
    by (rule slots_inv_cong [of _ _ _ s]) (use s in \<open>simp_all add: requests_ok_def new_attempt_def peer_reset_def\<close>)
  ultimately show ?thesis
    using s by (simp add: requests_ok_def served_def new_attempt_def peer_reset_def)
qed

lemma request_step_ok: "requests_ok s \<Longrightarrow> requests_ok (request_step ev s)"
  by (cases ev) (simp_all add: request_ok connected_ok slot_resumed_ok encrypted_ok hello_encrypted_ok
      settle_pending_ok new_attempt_ok transport_closed_def peer_reset_def fail_pending_ok)

definition no_requests :: "requests \<Rightarrow> bool" where
  "no_requests s \<longleftrightarrow> s = new_requests"

lemma no_requests_ok: "no_requests s \<Longrightarrow> requests_ok s"
  by (simp add: no_requests_def new_requests_def requests_ok_def slots_inv_def owned_def accounted_def
      counted_def lined_up_def busy_def live_def reserved_slot_count_def served_def keys_ok_def request_keys_def)

interpretation request_system: step_system no_requests request_step requests_ok
  by unfold_locales (erule no_requests_ok, erule request_step_ok)

lemma run_requests_ok: "requests_ok (run_requests es)"
  unfolding run_requests_def by (rule request_system.run_inv) (simp add: no_requests_def)

subsection \<open>What the books say\<close>

lemma encrypting_member:
  "(c, Encrypting g i x) \<in> set m \<Longrightarrow> (g, Some i) \<in># sum_list (map (encrypting_keys \<circ> snd) m)"
  by (induction m) auto

subsection \<open>Properties\<close>

text \<open>
  C6. At most 32 requests of a connection generation hold a slot, whatever is sent, answered, lost
  or cancelled, and the count the code keeps is exactly the number of slots held: those of the
  callers that were granted one or are encrypting and of the pending requests, no slot held twice
  and none leaked.
\<close>

theorem outstanding_requests_bounded:
  "let s = run_requests es in
     reserved_slot_count g s = length (filter (\<lambda>x. rs_generation x = g) (cr_held s))
     \<and> reserved_slot_count g s \<le> 32 \<and> distinct (cr_held s)
     \<and> mset (cr_held s) = sum_list (map (phase_slots \<circ> snd) (cr_callers s))
         + sum_list (map (pending_slots \<circ> snd) (cr_pending s))"
proof -
  have "slots_ok (run_requests es)" using run_requests_ok [of es] by (simp add: requests_ok_def)
  then show ?thesis
    by (auto simp: Let_def slots_inv_def owned_def counted_def busy_def MAX_OUTSTANDING_REQUESTS_def distinct_map)
qed

text \<open>
  C9. Every call of \<open>request\<close> is answered at most once and never lost: after any run each caller is
  in exactly one place, suspended, in the pending map, or settled once.
\<close>

theorem request_settled_once:
  "let s = run_requests es in
     mset (map fst (cr_callers s)) + sum_list (map (pending_callers \<circ> snd) (cr_pending s))
       + mset (map fst (cr_results s)) = mset [0..<cr_next_caller s]
     \<and> distinct (map fst (cr_results s))"
proof -
  have "accounted {#} (run_requests es)" using run_requests_ok [of es] by (simp add: requests_ok_def slots_inv_def)
  then have e: "live (run_requests es) = mset [0..<cr_next_caller (run_requests es)]" by (simp add: accounted_def)
  have "mset (map fst (cr_results (run_requests es))) \<subseteq># live (run_requests es)" by (simp add: live_def)
  then have "distinct (map fst (cr_results (run_requests es)))"
    unfolding e by (rule distinct_sub_mset) simp
  then show ?thesis using e by (simp only: Let_def live_def)
qed

text \<open>
  C27. A waiting caller has somebody to wait for: after any run, the waiting line is at most 256
  callers, exactly the suspended callers that wait for a slot, and while it is not empty some slot
  is held (its release moves the line on).
\<close>

theorem waiting_callers_are_served:
  "let s = run_requests es in
     length (cr_waiters s) \<le> 256 \<and> distinct (map snd (cr_waiters s))
     \<and> (\<forall>g c. ((g, c) \<in> set (cr_waiters s)) = (map_of (cr_callers s) c = Some (Waiting_slot g)))
     \<and> (if cr_waiters s = [] then True else cr_held s \<noteq> [])"
  using run_requests_ok [of es]
  by (simp add: Let_def requests_ok_def slots_inv_def lined_up_def served_def MAX_WAITING_REQUESTS_def) blast

text \<open>
  Request ids are unique per connection: the pending map never holds two entries for one
  generation and id, every pending or encrypting request of the current generation has an id below
  the next one, and no request that finishes encrypting finds its id already pending.
\<close>

theorem request_ids_unique:
  "let s = run_requests es in
     distinct (map fst (cr_pending s))
     \<and> list_all (\<lambda>((g, i), p). case i of None \<Rightarrow> True
          | Some n \<Rightarrow> g \<le> cr_generation s \<and> (if g = cr_generation s then n < cr_next_request_id s else True))
         (cr_pending s)
     \<and> list_all (\<lambda>(c, q). case q of Encrypting g i x \<Rightarrow> map_of (cr_pending s) (g, Some i) = None | _ \<Rightarrow> True)
         (cr_callers s)"
proof -
  let ?s = "run_requests es"
  have k: "keys_ok ?s" using run_requests_ok [of es] by (simp add: requests_ok_def)
  have pend: "g \<le> cr_generation ?s \<and> (g = cr_generation ?s \<longrightarrow> n < cr_next_request_id ?s)"
    if "((g, Some n), p) \<in> set (cr_pending ?s)" for g n p
  proof -
    have "(g, Some n) \<in># request_keys ?s" using that by (force simp: request_keys_def)
    then show ?thesis using k by (simp add: keys_ok_def)
  qed
  have enc: "map_of (cr_pending ?s) (g, Some i) = None" if m: "(c, Encrypting g i x) \<in> set (cr_callers ?s)" for c g i x
  proof (rule ccontr)
    assume "map_of (cr_pending ?s) (g, Some i) \<noteq> None"
    then have "(g, Some i) \<in># mset (map fst (cr_pending ?s))" by (force dest: map_of_SomeD)
    then have p: "1 \<le> count (mset (map fst (cr_pending ?s))) (g, Some i)"
      by (simp add: Suc_le_eq count_greater_zero_iff)
    have "(g, Some i) \<in># sum_list (map (encrypting_keys \<circ> snd) (cr_callers ?s))" 
      using m by (rule encrypting_member)
    then have e: "1 \<le> count (sum_list (map (encrypting_keys \<circ> snd) (cr_callers ?s))) (g, Some i)"
      by (simp add: Suc_le_eq count_greater_zero_iff)
    have "count (request_keys ?s) (g, Some i) = count (sum_list (map (encrypting_keys \<circ> snd) (cr_callers ?s))) (g, Some i)
        + count (mset (map fst (cr_pending ?s))) (g, Some i)"
      by (simp only: request_keys_def count_union)
    moreover have "count (request_keys ?s) (g, Some i) \<le> 1" using k unfolding keys_ok_def by blast
    ultimately show False using p e by linarith
  qed
  show ?thesis
    using keys_ok_pending [OF k] pend enc
    by (auto simp: Let_def list_all_iff split: option.splits caller_phase.splits)
qed

end
