(* ===== verification/Control_Channel_Laws.thy ===== *)
theory Control_Channel_Laws
  imports Control_Channel Control_Laws
begin

text \<open>
  What the control channel keeps: the bytes it believes it retains are the bytes of its assemblies
  and of its completed ids for as long as a peer is connecting or published, the numbers of both are
  bounded, a message that waits for decryption still owns its assembly, and the inbound admission of
  every promise chain counts what that chain has not finished with. The laws of the requests carry
  over, since every operation of the control channel changes them through the request operations.
\<close>

subsection \<open>Request operations leave the channel alone\<close>

lemma settle_caller_more [simp]: "requests.more (settle_caller c r s) = requests.more s"
  by (simp add: settle_caller_def)

lemma set_phase_more [simp]: "requests.more (set_phase c p s) = requests.more s"
  by (simp add: set_phase_def)

lemma grant_slot_more [simp]:
  "requests.more (grant_slot g c s) = requests.more s" "cr_generation (grant_slot g c s) = cr_generation s"
  by (simp_all add: grant_slot_def reserve_slot_def Let_def)

lemma grant_loop_more [simp]:
  "requests.more (grant_loop ws s) = requests.more s" "cr_generation (grant_loop ws s) = cr_generation s"
  by (induction ws s rule: grant_loop.induct) simp_all

lemma release_slot_more [simp]:
  "requests.more (release_slot x s) = requests.more s" "cr_generation (release_slot x s) = cr_generation s"
  by (simp_all add: release_slot_def grant_waiting_slot_def Let_def)

lemma acquire_more [simp]:
  "requests.more (acquire_request_slot g c s) = requests.more s"
  "cr_generation (acquire_request_slot g c s) = cr_generation s"
  by (simp_all add: acquire_request_slot_def)

lemma settle_pending_more [simp]:
  "requests.more (settle_pending k r s) = requests.more s"
  "cr_generation (settle_pending k r s) = cr_generation s"
  by (simp_all add: settle_pending_def Let_def split: option.split)

lemma fail_entry_more [simp]:
  "requests.more (fail_entry f p s) = requests.more s" "cr_generation (fail_entry f p s) = cr_generation s"
  by (simp_all add: fail_entry_def Let_def split: option.split)

lemma fold_more:
  "(\<And>x t. requests.more (h x t) = requests.more t \<and> cr_generation (h x t) = cr_generation t)
     \<Longrightarrow> requests.more (fold h xs s) = requests.more s \<and> cr_generation (fold h xs s) = cr_generation s"
  by (induction xs arbitrary: s) simp_all

lemma fail_pending_more [simp]:
  "requests.more (fail_pending f gen s) = requests.more s"
  "cr_generation (fail_pending f gen s) = cr_generation s"
  by (simp_all add: fail_pending_def cancel_request_slot_waiters_def Let_def split_def fold_more)

lemma request_step_more:
  "request_only e \<Longrightarrow> requests.more (request_step e s) = requests.more s \<and> cr_generation (request_step e s) = cr_generation s"
  by (cases e) (simp_all add: request_def connected_def slot_resumed_def encrypted_def hello_encrypted_def Let_def
      split: option.split caller_phase.split)

text \<open>The fields of the channel are functions of the extension.\<close>

lemma same_more:
  assumes "requests.more s = requests.more t"
  shows "cc_key s = cc_key t" "cc_connecting s = cc_connecting t" "cc_peer_failed s = cc_peer_failed t"
    "cc_assemblies s = cc_assemblies t" "cc_completed s = cc_completed t" "cc_aggregate s = cc_aggregate t"
    "cc_queue s = cc_queue t" "cc_admissions s = cc_admissions t" "cc_waiting s = cc_waiting t"
    "cc_events s = cc_events t"
  using assms by (cases s; cases t; simp)+

subsection \<open>The books\<close>

definition held_bytes :: "control \<Rightarrow> int" where
  "held_bytes s = sum_list (map ((\<lambda>a. int (ra_retained a)) \<circ> snd) (cc_assemblies s))
     + sum_list (map (\<lambda>i. int (completed_bytes i)) (cc_completed s))"

definition sized :: "control \<Rightarrow> bool" where
  "sized s \<longleftrightarrow> distinct (map fst (cc_assemblies s)) \<and> length (cc_assemblies s) \<le> MAX_CONCURRENT_ASSEMBLIES
     \<and> distinct (cc_completed s) \<and> length (cc_completed s) \<le> MAX_COMPLETED_MESSAGE_IDS
     \<and> cc_aggregate s \<le> MAX_AGGREGATE_RETAINED_BYTES"

definition keeps_assemblies :: "control \<Rightarrow> bool" where
  "keeps_assemblies s \<longleftrightarrow> (\<forall>i a e. (cr_generation s, i, a, e) \<in> set (cc_waiting s)
     \<longrightarrow> map_of (cc_assemblies s) i = Some a \<and> ra_generation a = cr_generation s)"

definition exact :: "control \<Rightarrow> bool" where
  "exact s \<longleftrightarrow> cc_aggregate s = held_bytes s
     \<and> fst ` set (cc_assemblies s) \<inter> set (cc_completed s) = {}
     \<and> keeps_assemblies s"

definition lined :: "control \<Rightarrow> bool" where
  "lined s \<longleftrightarrow> distinct (map fst (cc_waiting s)) \<and> fst ` set (cc_waiting s) \<subseteq> fst ` set (cc_queue s)
     \<and> (\<forall>(g, d) \<in> set (cc_queue s). g \<le> cr_generation s)
     \<and> (if cc_connecting s then \<not> cc_key s \<and> cr_generation s \<notin> fst ` set (cc_queue s) else True)"

definition books_ok :: "control \<Rightarrow> bool" where
  "books_ok s \<longleftrightarrow> sized s \<and> lined s \<and> (cc_key s \<or> cc_connecting s \<longrightarrow> exact s)"

lemma exact_cong:
  assumes "cc_aggregate s = cc_aggregate t" "cc_assemblies s = cc_assemblies t" "cc_completed s = cc_completed t"
    "cc_waiting s = cc_waiting t" "cr_generation s = cr_generation t"
  shows "exact s = exact t"
  using assms by (simp add: exact_def held_bytes_def keeps_assemblies_def)

lemma exact_fewer:
  assumes "exact s" "cc_aggregate s = cc_aggregate t" "cc_assemblies s = cc_assemblies t"
    "cc_completed s = cc_completed t" "set (cc_waiting t) \<subseteq> set (cc_waiting s)" "cr_generation s = cr_generation t"
  shows "exact t"
proof -
  have "keeps_assemblies t" using assms unfolding exact_def keeps_assemblies_def by fastforce
  then show ?thesis using assms by (simp add: exact_def held_bytes_def)
qed

lemma books_ok_more:
  assumes "requests.more s = requests.more t" "cr_generation s = cr_generation t"
  shows "books_ok s = books_ok t"
  using same_more [OF assms(1)] assms(2)
  by (simp add: books_ok_def sized_def lined_def exact_cong [of s t])

lemma control_reset_books: "books_ok s \<Longrightarrow> books_ok (control_reset s)"
  by (simp add: books_ok_def sized_def lined_def control_reset_def clear_assemblies_def peer_reset_def
      MAX_AGGREGATE_RETAINED_BYTES_def)

lemma fail_pending_books [simp]: "books_ok (fail_pending f gen s) = books_ok s"
  by (rule books_ok_more) simp_all

lemma peer_failed_books [simp]: "books_ok (s\<lparr>cc_peer_failed := b\<rparr>) = books_ok s"
  by (simp add: books_ok_def sized_def lined_def exact_cong [of "s\<lparr>cc_peer_failed := b\<rparr>" s])

lemma fail_peer_generation_books: "books_ok s \<Longrightarrow> books_ok (fail_peer_generation g f s)"
  by (simp add: fail_peer_generation_def control_reset_books)

lemma transport_closed_books: "books_ok s \<Longrightarrow> books_ok (control_transport_closed f g s)"
  by (simp add: control_transport_closed_def control_reset_books)

lemma lined_old: "lined s \<Longrightarrow> g \<in> fst ` set (cc_queue s) \<union> fst ` set (cc_waiting s) \<Longrightarrow> g \<le> cr_generation s"
  unfolding lined_def by fastforce

lemma new_attempt_books:
  assumes "books_ok s"
  shows "books_ok (control_new_attempt s)"
proof -
  have l: "lined s" using assms by (simp add: books_ok_def)
  let ?t = "control_new_attempt s"
  have f: "cc_assemblies ?t = []" "cc_completed ?t = []" "cc_aggregate ?t = 0" "cc_queue ?t = cc_queue s"
    "cc_waiting ?t = cc_waiting s" "\<not> cc_key ?t" "cc_connecting ?t" "cr_generation ?t = Suc (cr_generation s)"
    by (simp_all add: control_new_attempt_def new_attempt_def control_reset_def clear_assemblies_def peer_reset_def)
  have new: "Suc (cr_generation s) \<notin> fst ` set (cc_queue s)" "Suc (cr_generation s) \<notin> fst ` set (cc_waiting s)"
    using lined_old [OF l, of "Suc (cr_generation s)"] by auto
  have "sized ?t" by (simp add: sized_def f MAX_AGGREGATE_RETAINED_BYTES_def)
  moreover have "lined ?t" using l new(1) by (auto simp: lined_def f)
  moreover have "exact ?t" using new(2) by (force simp: exact_def f held_bytes_def keeps_assemblies_def)
  ultimately show ?thesis by (simp add: books_ok_def)
qed

lemma peer_published_books: "books_ok s \<Longrightarrow> books_ok (peer_published s)"
  using exact_cong [of "s\<lparr>cc_key := True, cc_connecting := False\<rparr>" s]
  by (simp add: books_ok_def sized_def lined_def peer_published_def)

subsection \<open>A chunk\<close>

text \<open>
  What \<open>receive_chunk\<close> does to the maps: nothing, or one assembly of the chunk's generation is
  written and its growth is added to the aggregate, which stays in its budget.
\<close>

definition writes :: "js_string \<Rightarrow> response_assembly \<Rightarrow> nat \<Rightarrow> control \<Rightarrow> bool" where
  "writes i a n s \<longleftrightarrow> within_budget n s \<and> i \<notin> set (cc_completed s)
     \<and> (case map_of (cc_assemblies s) i of
          None \<Rightarrow> length (cc_assemblies s) < MAX_CONCURRENT_ASSEMBLIES \<and> ra_retained a = n
        | Some b \<Rightarrow> ra_generation b = ra_generation a \<and> ra_retained a = ra_retained b + n)"

lemma receive_chunk_cases:
  obtains (none) f where "receive_chunk g c s = (s, f)" "\<And>e. f \<noteq> Chunk_completes e"
  | (put) a n where "receive_chunk g c s = (put_assembly (dc_message_id c) a n s, assembly_outcome a (cc_key s))"
      "writes (dc_message_id c) a n s" "ra_generation a = g"
proof (cases "dc_message_id c \<in> set (cc_completed s)")
  case True
  then show ?thesis using none by (simp add: receive_chunk_def)
next
  case fresh: False
  show ?thesis
  proof (cases "map_of (cc_assemblies s) (dc_message_id c)")
    case None
    then show ?thesis
      using none put [of "new_assembly g c" "ra_retained (new_assembly g c)"] fresh
      by (cases "MAX_CONCURRENT_ASSEMBLIES \<le> length (cc_assemblies s)";
          cases "within_budget (ra_retained (new_assembly g c)) s")
        (simp_all add: receive_chunk_def Let_def writes_def new_assembly_def)
  next
    case (Some b)
    let ?n = "CHUNK_BOOKKEEPING_BYTES + utf8_byte_length (dc_payload c)"
    show ?thesis
      using Some none put [of "extend_assembly c b" ?n] fresh
      by (cases "validates b c g"; cases "map_of (ra_chunks b) (dc_index c)"; cases "within_budget ?n s";
          cases "map_of (ra_chunks b) (dc_index c) = Some (dc_payload c)")
        (auto simp: receive_chunk_def Let_def writes_def extend_assembly_def validates_def)
  qed
qed

lemma put_held:
  assumes "writes i a n s" "distinct (map fst (cc_assemblies s))"
  shows "held_bytes (put_assembly i a n s) = held_bytes s + int n"
proof (cases "map_of (cc_assemblies s) i")
  case None
  then have "i \<notin> set (map fst (cc_assemblies s))" by (force simp: map_of_eq_None_iff)
  then show ?thesis
    using sum_list_update_new [of i "cc_assemblies s" "\<lambda>a. int (ra_retained a)" a] assms(1) None
    by (simp add: held_bytes_def put_assembly_def writes_def)
next
  case (Some b)
  then show ?thesis
    using sum_list_update_old [OF Some assms(2), of "\<lambda>a. int (ra_retained a)" a] assms(1)
    by (simp add: held_bytes_def put_assembly_def writes_def)
qed

lemma put_fields [simp]:
  "cc_key (put_assembly i a n s) = cc_key s" "cc_connecting (put_assembly i a n s) = cc_connecting s"
  "cc_waiting (put_assembly i a n s) = cc_waiting s" "cc_queue (put_assembly i a n s) = cc_queue s"
  "cr_generation (put_assembly i a n s) = cr_generation s"
  "cc_admissions (put_assembly i a n s) = cc_admissions s"
  "cc_completed (put_assembly i a n s) = cc_completed s"
  "cc_aggregate (put_assembly i a n s) = cc_aggregate s + int n"
  "cc_assemblies (put_assembly i a n s) = AList.update i a (cc_assemblies s)"
  by (simp_all add: put_assembly_def)

lemma keys_update: "fst ` set (AList.update k v m) = insert k (fst ` set m)"
  by (induction m) auto

lemma length_update:
  "length (AList.update k v m) = (if map_of m k = None then Suc (length m) else length m)"
  by (induction m) auto

lemma put_sized: "sized s \<Longrightarrow> writes i a n s \<Longrightarrow> sized (put_assembly i a n s)"
  by (auto simp: sized_def writes_def within_budget_def distinct_update length_update split: option.splits)

lemma put_exact:
  assumes "sized s" "exact s" "writes i a n s" "ra_generation a \<notin> fst ` set (cc_waiting s)"
  shows "exact (put_assembly i a n s)"
  unfolding exact_def keeps_assemblies_def put_fields keys_update
proof (intro conjI allI impI)
  have d: "distinct (map fst (cc_assemblies s))" using assms(1) by (simp add: sized_def)
  show "cc_aggregate s + int n = held_bytes (put_assembly i a n s)"
    using put_held [OF assms(3) d] assms(2) by (simp add: exact_def)
  show "insert i (fst ` set (cc_assemblies s)) \<inter> set (cc_completed s) = {}"
    using assms(2,3) by (simp add: exact_def writes_def)
  fix j b e
  assume w: "(cr_generation s, j, b, e) \<in> set (cc_waiting s)"
  then have b: "map_of (cc_assemblies s) j = Some b \<and> ra_generation b = cr_generation s"
    using assms(2) unfolding exact_def keeps_assemblies_def by blast
  then show "ra_generation b = cr_generation s" by (rule conjunct2)
  have "j \<noteq> i"
  proof
    assume "j = i"
    then have "ra_generation a = cr_generation s" using b assms(3) by (simp add: writes_def)
    then show False using w assms(4) by force
  qed
  then show "map_of (AList.update i a (cc_assemblies s)) j = Some b" using b by (simp add: update_conv')
qed

lemma put_lined [simp]: "lined (put_assembly i a n s) = lined s"
  by (simp add: lined_def)

lemma receive_chunk_books:
  assumes "books_ok s" "g \<notin> fst ` set (cc_waiting s)" "receive_chunk g c s = (t, r)"
  shows "books_ok t \<and> cc_waiting t = cc_waiting s \<and> cc_queue t = cc_queue s \<and> cr_generation t = cr_generation s
    \<and> cc_admissions t = cc_admissions s"
proof (cases rule: receive_chunk_cases [of g c s])
  case (none f)
  then show ?thesis using assms by simp
next
  case (put a n)
  then show ?thesis
    using assms put_exact [of s] put_sized [of s]
    by (auto simp: books_ok_def)
qed

subsection \<open>A message completes\<close>

lemma drop_completed_form:
  "drop_completed is s = s\<lparr>cc_completed := drop (length is - 63) is,
     cc_aggregate := cc_aggregate s - sum_list (map (\<lambda>i. int (completed_bytes i)) (take (length is - 63) is))\<rparr>"
proof (induction "is" s rule: drop_completed.induct)
  case (2 i "is" s)
  show ?case
  proof (cases "MAX_COMPLETED_MESSAGE_IDS \<le> length (i # is)")
    case True
    then have "length (i # is) - 63 = Suc (length is - 63)" by (simp add: MAX_COMPLETED_MESSAGE_IDS_def)
    then show ?thesis using 2 True by (simp add: algebra_simps)
  qed (simp add: MAX_COMPLETED_MESSAGE_IDS_def)
qed simp

lemma retain_completed_cases:
  fixes s :: control
  defines "n \<equiv> length (cc_completed s) - 63"
  defines "b \<equiv> cc_aggregate s - sum_list (map (\<lambda>i. int (completed_bytes i)) (take n (cc_completed s)))"
  obtains (full) f where "retain_completed_message_id i s =
      (s\<lparr>cc_completed := drop n (cc_completed s), cc_aggregate := b\<rparr>, Some f)"
  | (kept) "retain_completed_message_id i s =
      (s\<lparr>cc_completed := set_add i (drop n (cc_completed s)), cc_aggregate := b + int (completed_bytes i)\<rparr>, None)"
    "b + int (completed_bytes i) \<le> MAX_AGGREGATE_RETAINED_BYTES"
proof (cases "int (completed_bytes i) \<le> MAX_AGGREGATE_RETAINED_BYTES - b")
  case True
  then show ?thesis
    using kept by (simp add: retain_completed_message_id_def drop_completed_form Let_def within_budget_def b_def n_def)
next
  case False
  then show ?thesis
    using full by (simp add: retain_completed_message_id_def drop_completed_form Let_def within_budget_def b_def n_def)
qed

lemma sum_list_take_drop: "sum_list (map f xs) = sum_list (map f (take n xs)) + sum_list (map f (drop n xs))"
  by (metis append_take_drop_id map_append sum_list_append)

lemma sum_nonneg_take: "0 \<le> sum_list (map (\<lambda>i. int (f i)) xs)"
  by (induction xs) auto

lemma retain_sized:
  assumes "sized s" "retain_completed_message_id i s = (t, r)"
  shows "sized t"
  using assms sum_nonneg_take [of completed_bytes]
proof (cases rule: retain_completed_cases [of i s])
  case (full f)
  then show ?thesis
    using assms sum_nonneg_take [of completed_bytes "take (length (cc_completed s) - 63) (cc_completed s)"]
    by (auto simp: sized_def MAX_COMPLETED_MESSAGE_IDS_def)
next
  case kept
  then show ?thesis
    using assms by (auto simp: sized_def MAX_COMPLETED_MESSAGE_IDS_def set_add_def)
qed

lemma retain_exact:
  assumes "exact s" "i \<notin> set (cc_completed s)" "i \<notin> fst ` set (cc_assemblies s)"
    "retain_completed_message_id i s = (t, r)"
  shows "exact t"
proof -
  let ?n = "length (cc_completed s) - 63"
  note sums = sum_list_take_drop [of "\<lambda>i. int (completed_bytes i)" "cc_completed s" ?n]
  have fresh: "i \<notin> set (drop ?n (cc_completed s))" using assms(2) by (meson in_set_dropD)
  have sub: "set (drop ?n (cc_completed s)) \<subseteq> set (cc_completed s)" by (rule set_drop_subset)
  show ?thesis
  proof (cases rule: retain_completed_cases [of i s])
    case (full f)
    then have t: "t = s\<lparr>cc_completed := drop ?n (cc_completed s), cc_aggregate :=
        cc_aggregate s - sum_list (map (\<lambda>i. int (completed_bytes i)) (take ?n (cc_completed s)))\<rparr>"
      using assms(4) by simp
    show ?thesis
      unfolding t using assms(1) sums sub by (auto simp: exact_def held_bytes_def keeps_assemblies_def)
  next
    case kept
    then have t: "t = s\<lparr>cc_completed := set_add i (drop ?n (cc_completed s)), cc_aggregate :=
        cc_aggregate s - sum_list (map (\<lambda>i. int (completed_bytes i)) (take ?n (cc_completed s)))
        + int (completed_bytes i)\<rparr>"
      using assms(4) by simp
    show ?thesis
      unfolding t using assms(1,3) sums sub fresh
      by (auto simp: exact_def held_bytes_def keeps_assemblies_def set_add_def)
  qed
qed

lemma retain_fields:
  assumes "retain_completed_message_id i s = (t, r)"
  shows "cc_key t = cc_key s" "cc_connecting t = cc_connecting s" "cc_waiting t = cc_waiting s"
    "cc_queue t = cc_queue s" "cr_generation t = cr_generation s" "cc_admissions t = cc_admissions s"
  using assms by (cases rule: retain_completed_cases [of i s]; auto)+

lemma release_sized: "sized s \<Longrightarrow> sized (release_assembly i a s)"
  by (auto simp: sized_def release_assembly_def distinct_delete intro: order_trans [OF length_delete_le])

lemma release_exact:
  assumes "sized s" "exact s" "map_of (cc_assemblies s) i = Some a"
    "cr_generation s \<notin> fst ` set (cc_waiting s)"
  shows "exact (release_assembly i a s)"
proof -
  have d: "distinct (map fst (cc_assemblies s))" using assms(1) by (simp add: sized_def)
  have w: "keeps_assemblies (release_assembly i a s)"
    using assms(4) by (force simp: keeps_assemblies_def release_assembly_def)
  have "fst ` set (AList.delete i (cc_assemblies s)) \<subseteq> fst ` set (cc_assemblies s)" by (auto simp: AList.delete_eq)
  then show ?thesis
    using assms(2) w sum_list_delete [OF assms(3) d, of "\<lambda>a. int (ra_retained a)"]
    by (auto simp: exact_def held_bytes_def release_assembly_def)
qed

lemma dispatch_frame_books:
  assumes "dispatch_frame g fr s = (t, r)"
  shows "books_ok t = books_ok s" "cc_waiting t = cc_waiting s" "cc_queue t = cc_queue s"
    "cc_admissions t = cc_admissions s"
proof -
  have e: "books_ok (s\<lparr>cc_events := es\<rparr>) = books_ok s" for es
    by (simp add: books_ok_def sized_def lined_def exact_cong [of "s\<lparr>cc_events := es\<rparr>" s])
  have p: "books_ok (settle_pending k v s) = books_ok s" for k v by (rule books_ok_more) simp_all
  have m: "requests.more (settle_pending k v s) = requests.more s" for k v by simp
  show "books_ok t = books_ok s" "cc_waiting t = cc_waiting s" "cc_queue t = cc_queue s"
    "cc_admissions t = cc_admissions s"
    using assms by (auto simp: dispatch_frame_def e p same_more [OF m] split: server_frame.splits option.splits)
qed

subsection \<open>The chains\<close>

text \<open>Handling a message leaves the queue, the admissions and the other waiting handlers as they are.\<close>

lemma finish_message_books:
  assumes "books_ok s" "(g, i, a, e) \<in> set (cc_waiting s)"
    "finish_message P g i a e (s\<lparr>cc_waiting := AList.delete g (cc_waiting s)\<rparr>) = (t, r)"
  shows "books_ok t \<and> g \<notin> fst ` set (cc_waiting t) \<and> cc_queue t = cc_queue s \<and> cc_admissions t = cc_admissions s"
proof -
  let ?u = "s\<lparr>cc_waiting := AList.delete g (cc_waiting s)\<rparr>"
  have g: "g \<notin> fst ` set (cc_waiting ?u)" by (auto simp: AList.delete_eq)
  have sub: "set (cc_waiting ?u) \<subseteq> set (cc_waiting s)" by (auto simp: AList.delete_eq)
  have b: "sized s" "lined s" "cc_key s \<or> cc_connecting s \<Longrightarrow> exact s"
    using assms(1) by (simp_all add: books_ok_def)
  have lu: "lined ?u" using b(2) sub by (auto simp: lined_def distinct_delete)
  have eu: "exact ?u" if "exact s"
    by (rule exact_fewer [OF that]) (use sub in simp_all)
  have su: "sized ?u" using b(1) by (simp add: sized_def)
  have u: "books_ok ?u" using su lu eu b(3) by (simp add: books_ok_def)
  show ?thesis
  proof (cases "decrypt_daemon_payload P e = None \<or> g \<noteq> cr_generation s")
    case True
    then have "t = ?u" using assms(3) by (auto simp: finish_message_def split: option.splits)
    then show ?thesis using u g by simp
  next
    case False
    let ?v = "release_assembly i a ?u"
    obtain w q where w: "retain_completed_message_id i ?v = (w, q)" by fastforce
    have v: "cc_key ?v = cc_key s" "cc_connecting ?v = cc_connecting s" "cc_waiting ?v = cc_waiting ?u"
      "cc_queue ?v = cc_queue s" "cr_generation ?v = cr_generation s" "cc_admissions ?v = cc_admissions s"
      by (simp_all add: release_assembly_def)
    note fw = retain_fields [OF w] v
    have "sized w" by (rule retain_sized [OF release_sized [OF su] w])
    moreover have "lined w" using lu unfolding lined_def fw by (simp split: if_splits)
    moreover have "exact w" if k: "cc_key w \<or> cc_connecting w"
    proof -
      have es: "exact s" using k b(3) by (simp add: fw)
      have m: "map_of (cc_assemblies s) i = Some a" "i \<in> fst ` set (cc_assemblies s)"
        using es False assms(2) unfolding exact_def keeps_assemblies_def by (blast, force dest: map_of_SomeD)
      have "exact ?v"
        by (rule release_exact [OF su eu [OF es]]) (use m g False in simp_all)
      moreover have "i \<notin> set (cc_completed ?v)"
        using es m(2) by (auto simp: exact_def release_assembly_def)
      moreover have "i \<notin> fst ` set (cc_assemblies ?v)"
        by (auto simp: release_assembly_def AList.delete_eq)
      ultimately show ?thesis using w by (rule retain_exact)
    qed
    ultimately have bw: "books_ok w" by (simp add: books_ok_def)
    have "t = w \<or> (\<exists>fr. dispatch_frame g fr w = (t, r))"
      using assms(3) False w by (auto simp: finish_message_def split: option.splits sum.splits)
    then have "books_ok t" "cc_waiting t = cc_waiting w" "cc_queue t = cc_queue w" "cc_admissions t = cc_admissions w"
      using bw dispatch_frame_books [of g _ w t r] by auto
    then show ?thesis using g fw by simp
  qed
qed

lemma fail_pending_fields [simp]:
  fixes s :: control
  shows "cc_key (fail_pending f gen s) = cc_key s" "cc_connecting (fail_pending f gen s) = cc_connecting s"
    "cc_assemblies (fail_pending f gen s) = cc_assemblies s" "cc_completed (fail_pending f gen s) = cc_completed s"
    "cc_aggregate (fail_pending f gen s) = cc_aggregate s" "cc_waiting (fail_pending f gen s) = cc_waiting s"
    "cc_queue (fail_pending f gen s) = cc_queue s" "cc_admissions (fail_pending f gen s) = cc_admissions s"
  by (rule same_more [OF fail_pending_more(1)])+

lemma fail_peer_fields [simp]:
  "cc_waiting (fail_peer_generation g f s) = cc_waiting s" "cc_queue (fail_peer_generation g f s) = cc_queue s"
  "cc_admissions (fail_peer_generation g f s) = cc_admissions s"
  "cr_generation (fail_peer_generation g f s) = cr_generation s"
  by (simp_all add: fail_peer_generation_def control_reset_def clear_assemblies_def peer_reset_def)

lemma queue_shrinks_books:
  assumes "books_ok s" "g \<notin> fst ` set (cc_waiting s)" "fst e = g"
  shows "books_ok (s\<lparr>cc_queue := remove1 e (cc_queue s), cc_admissions := m\<rparr>)"
proof -
  let ?t = "s\<lparr>cc_queue := remove1 e (cc_queue s), cc_admissions := m\<rparr>"
  have l: "lined s" using assms(1) by (simp add: books_ok_def)
  have sub: "set (remove1 e (cc_queue s)) \<subseteq> set (cc_queue s)" by (rule set_remove1_subset)
  have "fst ` set (cc_waiting s) \<subseteq> fst ` set (remove1 e (cc_queue s))"
  proof
    fix h
    assume h: "h \<in> fst ` set (cc_waiting s)"
    then obtain d where "(h, d) \<in> set (cc_queue s)" using l by (force simp: lined_def)
    moreover have "(h, d) \<noteq> e" using h assms(2,3) by (metis fst_conv)
    ultimately have "(h, d) \<in> set (remove1 e (cc_queue s))" by simp
    then show "h \<in> fst ` set (remove1 e (cc_queue s))" by force
  qed
  moreover have "fst ` set (remove1 e (cc_queue s)) \<subseteq> fst ` set (cc_queue s)" by (rule image_mono [OF sub])
  ultimately have "lined ?t" using l sub unfolding lined_def by (simp split: if_splits; blast)
  then show ?thesis
    using assms(1) exact_cong [of ?t s] by (simp add: books_ok_def sized_def)
qed

lemma chain_done_books:
  assumes "books_ok s" "g \<notin> fst ` set (cc_waiting s)"
  shows "books_ok (chain_done g r s)"
proof -
  let ?u = "case r of None \<Rightarrow> s | Some f \<Rightarrow> fail_peer_generation g f s"
  have b: "books_ok ?u" using assms(1) by (simp add: fail_peer_generation_books split: option.split)
  have w: "g \<notin> fst ` set (cc_waiting ?u)" using assms(2) by (simp split: option.split)
  show ?thesis
  proof (cases "find (\<lambda>e. fst e = g) (cc_queue ?u)")
    case None
    then show ?thesis using b by (simp add: chain_done_def)
  next
    case (Some e)
    then have "fst e = g" by (auto simp: find_Some_iff)
    then show ?thesis
      using Some queue_shrinks_books [OF b w] by (simp add: chain_done_def Let_def split_def)
  qed
qed

lemma completes_with_assembly:
  assumes "receive_chunk g c s = (t, Chunk_completes e)"
  obtains a where "map_of (cc_assemblies t) (dc_message_id c) = Some a" "ra_generation a = g" "cc_key s"
proof (cases rule: receive_chunk_cases [of g c s])
  case (none f)
  then show ?thesis using assms none(2) [of e] by simp
next
  case (put a n)
  then have "cc_key s"
    using assms by (auto simp: assembly_outcome_def Let_def split: if_splits)
  then show ?thesis using put assms that [of a] by (auto simp: update_conv')
qed

lemma waiting_added_books:
  assumes "books_ok s" "cc_key s" "g \<notin> fst ` set (cc_waiting s)" "g \<in> fst ` set (cc_queue s)"
    "map_of (cc_assemblies s) i = Some a" "ra_generation a = g"
  shows "books_ok (s\<lparr>cc_waiting := cc_waiting s @ [(g, i, a, e)]\<rparr>)"
proof -
  have "exact s" "lined s" "sized s" using assms(1,2) by (simp_all add: books_ok_def)
  then have "exact (s\<lparr>cc_waiting := cc_waiting s @ [(g, i, a, e)]\<rparr>)"
      "lined (s\<lparr>cc_waiting := cc_waiting s @ [(g, i, a, e)]\<rparr>)"
      "sized (s\<lparr>cc_waiting := cc_waiting s @ [(g, i, a, e)]\<rparr>)"
    using assms(3-6) by (auto simp: exact_def held_bytes_def keeps_assemblies_def lined_def sized_def)
  then show ?thesis by (simp add: books_ok_def)
qed

lemma handle_message_books:
  assumes "books_ok s"
  shows "books_ok (handle_message P g s)"
proof (cases "g \<in> fst ` set (cc_waiting s) \<or> find (\<lambda>e. fst e = g) (cc_queue s) = None")
  case True
  then show ?thesis using assms by (auto simp: handle_message_def)
next
  case False
  then obtain h d where d: "find (\<lambda>e. fst e = g) (cc_queue s) = Some (h, d)" by fastforce
  have w: "g \<notin> fst ` set (cc_waiting s)" and q: "g \<in> fst ` set (cc_queue s)"
    using False d by (auto simp: find_Some_iff image_iff intro: nth_mem)
  show ?thesis
  proof (cases "begin_message P d")
    case (Inl f)
    then show ?thesis using False d chain_done_books [OF assms w] by (simp add: handle_message_def)
  next
    case (Inr c)
    obtain t r where r: "receive_chunk g c s = (t, r)" by fastforce
    note b = receive_chunk_books [OF assms w r]
    then have t: "books_ok t" "g \<notin> fst ` set (cc_waiting t)" using w by simp_all
    show ?thesis
    proof (cases r)
      case (Chunk_completes e)
      then obtain a where a: "map_of (cc_assemblies t) (dc_message_id c) = Some a" "ra_generation a = g" "cc_key s"
        using completes_with_assembly r by blast
      have "cc_key t" using receive_chunk_cases [of g c s] r a(3) by (metis fst_conv put_fields(1))
      then show ?thesis
        using False d Inr r Chunk_completes a waiting_added_books [OF t(1) _ t(2)] b q
        by (simp add: handle_message_def)
    qed (use False d Inr r chain_done_books [OF t] in \<open>simp_all add: handle_message_def\<close>)
  qed
qed

lemma message_decrypted_books:
  assumes "books_ok s"
  shows "books_ok (message_decrypted P g s)"
proof (cases "map_of (cc_waiting s) g")
  case (Some w)
  obtain i a e where w: "w = (i, a, e)" by (cases w)
  obtain t r where r: "finish_message P g i a e (s\<lparr>cc_waiting := AList.delete g (cc_waiting s)\<rparr>) = (t, r)" by fastforce
  have "(g, i, a, e) \<in> set (cc_waiting s)" using Some w by (simp add: map_of_SomeD)
  from finish_message_books [OF assms this r] show ?thesis
    using Some w r chain_done_books [of t g r] by (simp add: message_decrypted_def)
qed (use assms in \<open>simp add: message_decrypted_def\<close>)

lemma control_arrives_books:
  assumes "books_ok s"
  shows "books_ok (control_arrives g d s)"
proof -
  have "books_ok (s\<lparr>cc_admissions := m, cc_queue := cc_queue s @ [(cr_generation s, d)]\<rparr>)" if "cc_key s" for m
  proof -
    let ?t = "s\<lparr>cc_admissions := m, cc_queue := cc_queue s @ [(cr_generation s, d)]\<rparr>"
    have "lined ?t" using assms that by (auto simp: books_ok_def lined_def split: if_splits)
    then show ?thesis using assms exact_cong [of ?t s] by (simp add: books_ok_def sized_def)
  qed
  then show ?thesis
    using assms fail_peer_generation_books by (simp add: control_arrives_def Let_def split_def)
qed

lemma control_step_books: "books_ok s \<Longrightarrow> books_ok (control_step P e s)"
proof (cases e)
  case (Request_event ev)
  then show "books_ok s \<Longrightarrow> books_ok (control_step P e s)"
    using request_step_more [of ev s] books_ok_more [of "request_step ev s" s] by simp
qed (simp_all add: control_arrives_books handle_message_books message_decrypted_books fail_peer_generation_books
    assembly_times_out_def peer_published_books transport_closed_books new_attempt_books control_reset_books
    split: option.split)

subsection \<open>Admission\<close>

definition line_of :: "nat \<Rightarrow> control \<Rightarrow> channel_data list" where
  "line_of g s = map snd (filter (\<lambda>e. fst e = g) (cc_queue s))"

definition admitted_ok :: "control \<Rightarrow> bool" where
  "admitted_ok s \<longleftrightarrow> (\<forall>g. admission_of g s = (length (line_of g s), sum_list (map inbound_frame_bytes (line_of g s)))
     \<and> length (line_of g s) \<le> MAXIMUM_QUEUED_FRAMES
     \<and> sum_list (map inbound_frame_bytes (line_of g s)) \<le> MAXIMUM_QUEUED_BYTES)"

lemma admitted_ok_cong: "cc_queue s = cc_queue t \<Longrightarrow> cc_admissions s = cc_admissions t \<Longrightarrow> admitted_ok s = admitted_ok t"
  by (simp add: admitted_ok_def line_of_def admission_of_def)

lemma control_arrives_admitted:
  assumes "admitted_ok s"
  shows "admitted_ok (control_arrives g d s)"
proof (cases "g \<noteq> cr_generation s \<or> \<not> cc_key s")
  case False
  obtain n b where a: "admission_of g s = (n, b)" by fastforce
  have f: "admitted_ok (fail_peer_generation g f s)" for f
    using assms admitted_ok_cong [of "fail_peer_generation g f s" s] by simp
  have nb: "n = length (line_of g s)" "b = sum_list (map inbound_frame_bytes (line_of g s))"
    using assms a by (simp_all add: admitted_ok_def)
  show ?thesis
  proof (cases "n + 1 > MAXIMUM_QUEUED_FRAMES \<or> b + inbound_frame_bytes d > MAXIMUM_QUEUED_BYTES")
    case True
    then show ?thesis using False a f by (auto simp: control_arrives_def)
  next
    case ok: False
    let ?t = "s\<lparr>cc_admissions := AList.update g (n + 1, b + inbound_frame_bytes d) (cc_admissions s),
                cc_queue := cc_queue s @ [(g, d)]\<rparr>"
    have "line_of h ?t = (if h = g then line_of g s @ [d] else line_of h s)" for h by (simp add: line_of_def)
    moreover have "admission_of h ?t = (if h = g then (n + 1, b + inbound_frame_bytes d) else admission_of h s)" for h
      by (simp add: admission_of_def update_conv')
    ultimately have "admitted_ok ?t" using assms ok nb by (auto simp: admitted_ok_def)
    then show ?thesis using False a ok by (simp add: control_arrives_def)
  qed
qed (use assms in \<open>auto simp: control_arrives_def\<close>)

lemma chain_done_admitted:
  assumes "admitted_ok s"
  shows "admitted_ok (chain_done g r s)"
proof -
  let ?u = "case r of None \<Rightarrow> s | Some f \<Rightarrow> fail_peer_generation g f s"
  have u: "admitted_ok ?u" using assms admitted_ok_cong [of "fail_peer_generation g f s" s for f]
    by (simp split: option.split)
  show ?thesis
  proof (cases "find (\<lambda>e. fst e = g) (cc_queue ?u)")
    case None
    then show ?thesis using u by (simp add: chain_done_def)
  next
    case (Some e)
    then have e: "fst e = g" "e \<in> set (cc_queue ?u)" by (auto simp: find_Some_iff)
    obtain n b where a: "admission_of g ?u = (n, b)" by fastforce
    let ?t = "?u\<lparr>cc_queue := remove1 e (cc_queue ?u),
                 cc_admissions := AList.update g (n - 1, b - inbound_frame_bytes (snd e)) (cc_admissions ?u)\<rparr>"
    have other: "line_of h ?t = line_of h ?u" if "h \<noteq> g" for h
      using that e(1) by (simp add: line_of_def filter_remove1 remove1_idem)
    let ?L = "filter (\<lambda>e. fst e = g) (cc_queue ?u)"
    have m: "e \<in> set ?L" using e by simp
    have own: "line_of g ?t = map snd (remove1 e ?L)" by (simp add: line_of_def filter_remove1)
    have len: "length (line_of g ?t) = length (line_of g ?u) - 1"
      unfolding own using m by (simp add: line_of_def length_remove1)
    have sum: "sum_list (map inbound_frame_bytes (line_of g ?t)) =
        sum_list (map inbound_frame_bytes (line_of g ?u)) - inbound_frame_bytes (snd e)"
      unfolding own using sum_list_map_remove1 [OF m, of "\<lambda>x. inbound_frame_bytes (snd x)"]
      by (simp add: line_of_def o_def)
    have "admission_of h ?t = (if h = g then (n - 1, b - inbound_frame_bytes (snd e)) else admission_of h ?u)" for h
      by (simp add: admission_of_def update_conv')
    moreover have "n = length (line_of g ?u)" "b = sum_list (map inbound_frame_bytes (line_of g ?u))"
        "n \<le> MAXIMUM_QUEUED_FRAMES" "b \<le> MAXIMUM_QUEUED_BYTES"
      using u a unfolding admitted_ok_def by (metis prod.inject)+
    ultimately have "admitted_ok ?t"
      using u len sum other unfolding admitted_ok_def by (smt (verit) diff_le_self le_trans)
    then show ?thesis using Some a by (simp add: chain_done_def Let_def)
  qed
qed

definition control_ok :: "control \<Rightarrow> bool" where
  "control_ok s \<longleftrightarrow> requests_ok s \<and> books_ok s \<and> admitted_ok s"

subsection \<open>The requests\<close>

lemma requests_ok_control [simp]:
  "requests_ok (s\<lparr>cc_key := k\<rparr>) = requests_ok s" "requests_ok (s\<lparr>cc_connecting := k\<rparr>) = requests_ok s"
  "requests_ok (s\<lparr>cc_peer_failed := k\<rparr>) = requests_ok s" "requests_ok (s\<lparr>cc_assemblies := as\<rparr>) = requests_ok s"
  "requests_ok (s\<lparr>cc_completed := is\<rparr>) = requests_ok s" "requests_ok (s\<lparr>cc_aggregate := n\<rparr>) = requests_ok s"
  "requests_ok (s\<lparr>cc_queue := q\<rparr>) = requests_ok s" "requests_ok (s\<lparr>cc_admissions := ad\<rparr>) = requests_ok s"
  "requests_ok (s\<lparr>cc_waiting := w\<rparr>) = requests_ok s" "requests_ok (s\<lparr>cc_events := es\<rparr>) = requests_ok s"
  by (simp_all add: requests_ok_def slots_inv_def owned_def accounted_def counted_def lined_up_def busy_def live_def
      reserved_slot_count_def served_def keys_ok_def request_keys_def)

lemma control_reset_requests [simp]: "requests_ok (control_reset s) = requests_ok s"
  by (simp add: control_reset_def clear_assemblies_def peer_reset_def)

lemma fail_peer_requests: "requests_ok s \<Longrightarrow> requests_ok (fail_peer_generation g f s)"
  by (simp add: fail_peer_generation_def fail_pending_ok)

lemma chain_done_requests: "requests_ok s \<Longrightarrow> requests_ok (chain_done g r s)"
  by (auto simp: chain_done_def Let_def split_def fail_peer_requests split: option.split)

lemma receive_chunk_requests:
  assumes "requests_ok s" "receive_chunk g c s = (t, r)"
  shows "requests_ok t"
  using assms by (cases rule: receive_chunk_cases [of g c s]) (auto simp: put_assembly_def)

lemma handle_message_requests: "requests_ok s \<Longrightarrow> requests_ok (handle_message P g s)"
  using receive_chunk_requests [of s g]
  by (auto simp: handle_message_def chain_done_requests split: option.split sum.split prod.split chunk_outcome.split)

lemma finish_message_requests:
  assumes "requests_ok s" "finish_message P g i a e s = (t, r)"
  shows "requests_ok t"
proof -
  have w: "requests_ok w" if "retain_completed_message_id i (release_assembly i a s) = (w, q)" for w q
    using that assms(1) by (cases rule: retain_completed_cases [of i "release_assembly i a s"])
      (auto simp: release_assembly_def)
  have d: "requests_ok t" if "requests_ok w" "dispatch_frame g fr w = (t, r)" for w fr
    using that by (auto simp: dispatch_frame_def settle_pending_ok split: server_frame.splits option.splits)
  show ?thesis
    using assms w d by (auto simp: finish_message_def split: option.splits if_splits sum.splits prod.splits)
qed

lemma message_decrypted_requests:
  assumes "requests_ok s"
  shows "requests_ok (message_decrypted P g s)"
proof (cases "map_of (cc_waiting s) g")
  case (Some w)
  obtain i a e where w: "w = (i, a, e)" by (cases w)
  obtain t r where r: "finish_message P g i a e (s\<lparr>cc_waiting := AList.delete g (cc_waiting s)\<rparr>) = (t, r)" by fastforce
  have "requests_ok t" by (rule finish_message_requests [OF _ r]) (simp add: assms)
  then show ?thesis using Some w r by (simp add: message_decrypted_def chain_done_requests)
qed (use assms in \<open>simp add: message_decrypted_def\<close>)

lemma control_arrives_requests: "requests_ok s \<Longrightarrow> requests_ok (control_arrives g d s)"
  by (simp add: control_arrives_def Let_def split_def fail_peer_requests)

lemma control_step_requests: "requests_ok s \<Longrightarrow> requests_ok (control_step P e s)"
  by (cases e) (simp_all add: request_step_ok control_arrives_requests handle_message_requests
      message_decrypted_requests assembly_times_out_def fail_peer_requests peer_published_def
      control_transport_closed_def fail_pending_ok control_new_attempt_def new_attempt_ok split: option.split)

subsection \<open>Every step\<close>

lemma admitted_ok_more:
  fixes s t :: control
  assumes "requests.more s = requests.more t"
  shows "admitted_ok s = admitted_ok t"
  by (rule admitted_ok_cong) (rule same_more [OF assms])+

lemma message_decrypted_admitted:
  assumes "books_ok s" "admitted_ok s"
  shows "admitted_ok (message_decrypted P g s)"
proof (cases "map_of (cc_waiting s) g")
  case (Some w)
  obtain i a e where w: "w = (i, a, e)" by (cases w)
  obtain t r where r: "finish_message P g i a e (s\<lparr>cc_waiting := AList.delete g (cc_waiting s)\<rparr>) = (t, r)" by fastforce
  have "(g, i, a, e) \<in> set (cc_waiting s)" using Some w by (simp add: map_of_SomeD)
  from finish_message_books [OF assms(1) this r] have "admitted_ok t"
    using assms(2) admitted_ok_cong [of t s] by simp
  then show ?thesis using Some w r by (simp add: message_decrypted_def chain_done_admitted)
qed (use assms in \<open>simp add: message_decrypted_def\<close>)

lemma handle_message_admitted:
  assumes "books_ok s" "admitted_ok s"
  shows "admitted_ok (handle_message P g s)"
proof (cases "g \<in> fst ` set (cc_waiting s)")
  case False
  have t: "admitted_ok t" if "receive_chunk g c s = (t, r)" for c t r
    using receive_chunk_books [OF assms(1) False that] assms(2) admitted_ok_cong [of t s] by simp
  have w: "admitted_ok (t\<lparr>cc_waiting := ws\<rparr>) = admitted_ok t" for t ws by (rule admitted_ok_cong) simp_all
  show ?thesis
  proof (cases "find (\<lambda>e. fst e = g) (cc_queue s)")
    case None
    then show ?thesis using False assms(2) by (simp add: handle_message_def)
  next
    case (Some q)
    obtain h d where q: "q = (h, d)" by (cases q)
    show ?thesis
    proof (cases "begin_message P d")
      case (Inl f)
      then show ?thesis using False Some q assms(2) by (simp add: handle_message_def chain_done_admitted)
    next
      case (Inr c)
      obtain u r where r: "receive_chunk g c s = (u, r)" by fastforce
      have u: "admitted_ok u" by (rule t [OF r])
      have "handle_message P g s = (case r of Chunk_failed f \<Rightarrow> chain_done g (Some f) u
          | Chunk_kept \<Rightarrow> chain_done g None u
          | Chunk_completes e \<Rightarrow> (case map_of (cc_assemblies u) (dc_message_id c) of None \<Rightarrow> u
              | Some a \<Rightarrow> u\<lparr>cc_waiting := cc_waiting u @ [(g, dc_message_id c, a, e)]\<rparr>))"
        using False Some q Inr r by (simp add: handle_message_def split: chunk_outcome.split)
      then show ?thesis
        using u chain_done_admitted [OF u] by (cases r) (simp_all add: w split: option.split)
    qed
  qed
qed (use assms in \<open>simp add: handle_message_def\<close>)

lemma reset_admitted [simp]: "admitted_ok (control_reset s) = admitted_ok s"
  by (rule admitted_ok_cong) (simp_all add: control_reset_def clear_assemblies_def peer_reset_def)

lemma control_step_admitted:
  assumes "books_ok s" "admitted_ok s"
  shows "admitted_ok (control_step P e s)"
proof (cases e)
  case (Request_event ev)
  then show ?thesis
    using assms request_step_more [of ev s] admitted_ok_more [of "request_step ev s" s] by simp
next
  case (Assembly_times_out i)
  have "admitted_ok (fail_peer_generation g f s)" for g f
    using assms(2) admitted_ok_cong [of "fail_peer_generation g f s" s] by simp
  then show ?thesis using assms Assembly_times_out by (simp add: assembly_times_out_def split: option.split)
next
  case (Peer_lost f g)
  have "admitted_ok (fail_pending f gen (t :: control)) = admitted_ok t" for gen t by (rule admitted_ok_more) simp
  then show ?thesis using assms Peer_lost by (simp add: control_transport_closed_def)
next
  case (Control_disconnected f)
  have "admitted_ok (fail_pending f gen (t :: control)) = admitted_ok t" for gen t by (rule admitted_ok_more) simp
  then show ?thesis using assms Control_disconnected by simp
next
  case Peer_published
  have "admitted_ok (peer_published s) = admitted_ok s" by (rule admitted_ok_cong) (simp_all add: peer_published_def)
  then show ?thesis using assms Peer_published by simp
next
  case Attempt_started
  have "admitted_ok (control_new_attempt s) = admitted_ok s"
    by (rule admitted_ok_cong) (simp_all add: control_new_attempt_def new_attempt_def peer_reset_def control_reset_def clear_assemblies_def)
  then show ?thesis using assms Attempt_started by simp
qed (use assms in \<open>simp_all add: control_arrives_admitted handle_message_admitted message_decrypted_admitted\<close>)

definition no_control :: "control \<Rightarrow> bool" where
  "no_control s \<longleftrightarrow> s = new_control"

lemma no_control_ok: "no_control s \<Longrightarrow> control_ok s"
  by (simp add: no_control_def new_control_def new_requests_def requests.extend_def control_ok_def requests_ok_def
      slots_inv_def owned_def accounted_def counted_def lined_up_def busy_def live_def reserved_slot_count_def
      served_def keys_ok_def request_keys_def books_ok_def sized_def lined_def exact_def held_bytes_def
      keeps_assemblies_def admitted_ok_def admission_of_def line_of_def MAX_AGGREGATE_RETAINED_BYTES_def)

interpretation control_system: step_system no_control "control_step P" control_ok for P
proof unfold_locales
  fix s e
  show "no_control s \<Longrightarrow> control_ok s" by (rule no_control_ok)
  show "control_ok s \<Longrightarrow> control_ok (control_step P e s)"
    by (simp add: control_ok_def control_step_requests control_step_books control_step_admitted)
qed

lemma run_control_ok: "control_ok (run_control P es)"
  unfolding run_control_def by (rule control_system.run_inv) (simp add: no_control_def)

end
