(* ===== verification/Control_Delivery.thy ===== *)
theory Control_Delivery
  imports Control_Channel_Laws
begin

text \<open>
  What the control channel delivers. A response that arrives in pieces, in any order and with
  repetitions, is put together exactly once and byte for byte; its reply reaches the request it
  names; the retained bytes stay in their bounds. Two runs show where the books go wrong: a peer
  that is lost while a message is being decrypted, and chunks of an old connection that are still
  queued when a new one starts.
\<close>

subsection \<open>Reassembly\<close>

definition chunk_of :: "js_string \<Rightarrow> js_string list \<Rightarrow> nat \<Rightarrow> delivery_chunk" where
  "chunk_of m pieces i = \<lparr>dc_kind = Server_frame, dc_message_id = m, dc_index = i, dc_count = length pieces,
     dc_total = utf8_byte_length (concat pieces), dc_payload = pieces ! i\<rparr>"

fun receive_all :: "nat \<Rightarrow> delivery_chunk list \<Rightarrow> control \<Rightarrow> control \<times> chunk_outcome list" where
  "receive_all g [] s = (s, [])"
| "receive_all g (c # cs) s =
     (case receive_chunk g c s of (t, r) \<Rightarrow> case receive_all g cs t of (u, rs) \<Rightarrow> (u, r # rs))"

lemma receive_all_append:
  "receive_all g (cs @ ds) s =
     (case receive_all g cs s of (t, rs) \<Rightarrow> case receive_all g ds t of (u, qs) \<Rightarrow> (u, rs @ qs))"
  by (induction cs arbitrary: s) (simp_all split: prod.split)

text \<open>The message's bytes are those of its pieces: no piece ends inside a surrogate pair.\<close>

definition cut_cleanly :: "js_string list \<Rightarrow> bool" where
  "cut_cleanly pieces \<longleftrightarrow> sum_list (map utf8_byte_length pieces) = utf8_byte_length (concat pieces)"

definition room_for :: "js_string list \<Rightarrow> control \<Rightarrow> bool" where
  "room_for pieces s \<longleftrightarrow> length (cc_assemblies s) < MAX_CONCURRENT_ASSEMBLIES
     \<and> cc_aggregate s + int (ASSEMBLY_BOOKKEEPING_BYTES + CHUNK_BOOKKEEPING_BYTES * length pieces
         + utf8_byte_length (concat pieces)) \<le> MAX_AGGREGATE_RETAINED_BYTES"

text \<open>The assembly holds exactly the pieces \<open>I\<close>; \<open>b\<close> is the aggregate before the first.\<close>

definition piece_bytes :: "js_string list \<Rightarrow> nat set \<Rightarrow> nat" where
  "piece_bytes pieces I = (\<Sum>i\<in>I. utf8_byte_length (pieces ! i))"

definition assembles :: "nat \<Rightarrow> js_string list \<Rightarrow> nat set \<Rightarrow> response_assembly \<Rightarrow> bool" where
  "assembles g pieces I a \<longleftrightarrow> ra_generation a = g \<and> ra_kind a = Server_frame \<and> ra_count a = length pieces
     \<and> ra_total a = utf8_byte_length (concat pieces) \<and> distinct (map fst (ra_chunks a))
     \<and> map_of (ra_chunks a) = (\<lambda>i. if i \<in> I then Some (pieces ! i) else None)
     \<and> ra_received a = piece_bytes pieces I"

definition gathered :: "nat \<Rightarrow> js_string \<Rightarrow> js_string list \<Rightarrow> int \<Rightarrow> nat set \<Rightarrow> control \<Rightarrow> bool" where
  "gathered g m pieces b I s \<longleftrightarrow> cc_key s \<and> m \<notin> set (cc_completed s)
     \<and> (if I = {} then map_of (cc_assemblies s) m = None \<and> length (cc_assemblies s) < MAX_CONCURRENT_ASSEMBLIES
          \<and> cc_aggregate s = b
        else (\<exists>a. map_of (cc_assemblies s) m = Some a \<and> assembles g pieces I a)
          \<and> cc_aggregate s = b + int (ASSEMBLY_BOOKKEEPING_BYTES + CHUNK_BOOKKEEPING_BYTES * card I + piece_bytes pieces I))"

lemma piece_bytes_all:
  "cut_cleanly pieces \<Longrightarrow> piece_bytes pieces {..<length pieces} = utf8_byte_length (concat pieces)"
  by (simp add: piece_bytes_def cut_cleanly_def sum_list_sum_nth lessThan_atLeast0)

lemma piece_bytes_mono: "I \<subseteq> {..<length pieces} \<Longrightarrow> piece_bytes pieces I \<le> piece_bytes pieces {..<length pieces}"
  unfolding piece_bytes_def by (rule sum_mono2) auto

lemma assembles_outcome:
  assumes "assembles g pieces I a" "I \<subseteq> {..<length pieces}" "cut_cleanly pieces"
  shows "assembly_outcome a True =
    (if I = {..<length pieces} then Chunk_completes (concat pieces) else Chunk_kept)"
proof -
  have fin: "finite I" using assms(2) by (rule finite_subset) simp
  have "dom (map_of (ra_chunks a)) = I" using assms(1) by (auto simp: assembles_def split: if_splits)
  then have "fst ` set (ra_chunks a) = I" by (simp add: dom_map_of_conv_image_fst)
  moreover have "distinct (map fst (ra_chunks a))" using assms(1) by (simp add: assembles_def)
  ultimately have len: "length (ra_chunks a) = card I"
    by (metis distinct_card length_map set_map)
  have le: "piece_bytes pieces I \<le> utf8_byte_length (concat pieces)"
    using piece_bytes_mono [OF assms(2)] piece_bytes_all [OF assms(3)] by simp
  show ?thesis
  proof (cases "I = {..<length pieces}")
    case True
    have "map (\<lambda>i. the (map_of (ra_chunks a) i)) [0..<length pieces] = pieces"
      using assms(1) True by (intro nth_equalityI) (simp_all add: assembles_def)
    then show ?thesis
      using True len assms(1) piece_bytes_all [OF assms(3)]
      by (simp add: assembly_outcome_def assembles_def Let_def)
  next
    case False
    then have "card I < card {..<length pieces}" using assms(2) by (intro psubset_card_mono) auto
    then show ?thesis
      using False len assms(1) le by (simp add: assembly_outcome_def assembles_def Let_def)
  qed
qed

lemma first_piece:
  "assembles g pieces {i} (new_assembly g (chunk_of m pieces i))"
  by (auto simp: assembles_def new_assembly_def chunk_of_def piece_bytes_def)

lemma next_piece:
  assumes "assembles g pieces I a" "finite I" "i \<notin> I"
  shows "assembles g pieces (insert i I) (extend_assembly (chunk_of m pieces i) a)"
proof -
  have "map_of (ra_chunks a) i = None" using assms(1,3) by (simp add: assembles_def)
  then show ?thesis
    using assms by (auto simp: assembles_def extend_assembly_def chunk_of_def piece_bytes_def distinct_update update_conv')
qed

lemma gather_piece:
  assumes "gathered g m pieces b I s" "I \<subseteq> {..<length pieces}" "i < length pieces" "cut_cleanly pieces"
    "b + int (ASSEMBLY_BOOKKEEPING_BYTES + CHUNK_BOOKKEEPING_BYTES * length pieces
       + utf8_byte_length (concat pieces)) \<le> MAX_AGGREGATE_RETAINED_BYTES"
  obtains t where "gathered g m pieces b (insert i I) t"
    "receive_chunk g (chunk_of m pieces i) s =
      (t, if i \<notin> I \<and> insert i I = {..<length pieces} then Chunk_completes (concat pieces) else Chunk_kept)"
proof (cases "i \<in> I")
  case True
  then obtain a where a: "map_of (cc_assemblies s) m = Some a" "assembles g pieces I a"
    using assms(1) by (auto simp: gathered_def split: if_splits)
  have "receive_chunk g (chunk_of m pieces i) s = (s, Chunk_kept)"
    using a True assms(1)
    by (simp add: receive_chunk_def gathered_def chunk_of_def assembles_def validates_def)
  then show ?thesis using that [of s] assms(1) True by (simp add: insert_absorb)
next
  case False
  have fin: "finite I" using assms(2) by (rule finite_subset) simp
  have sub: "insert i I \<subseteq> {..<length pieces}" using assms(2,3) by simp
  have card: "card (insert i I) \<le> length pieces" using card_mono [OF _ sub] by simp
  then have card': "CHUNK_BOOKKEEPING_BYTES * card (insert i I) \<le> CHUNK_BOOKKEEPING_BYTES * length pieces" by simp
  have bytes: "piece_bytes pieces (insert i I) \<le> utf8_byte_length (concat pieces)"
    using piece_bytes_mono [OF sub] piece_bytes_all [OF assms(4)] by simp
  have grow: "piece_bytes pieces (insert i I) = piece_bytes pieces I + utf8_byte_length (pieces ! i)"
    using fin False by (simp add: piece_bytes_def)
  have grown: "card (insert i I) = Suc (card I)" using fin False by simp
  show ?thesis
  proof (cases "I = {}")
    case True
    let ?a = "new_assembly g (chunk_of m pieces i)"
    let ?t = "put_assembly m ?a (ra_retained ?a) s"
    have r: "ra_retained ?a = ASSEMBLY_BOOKKEEPING_BYTES + CHUNK_BOOKKEEPING_BYTES + utf8_byte_length (pieces ! i)"
      by (simp add: new_assembly_def chunk_of_def)
    have room: "within_budget (ra_retained ?a) s"
      unfolding within_budget_def r using assms(1,3,5) True bytes
      by (simp add: gathered_def piece_bytes_def chunk_limits)
    have "receive_chunk g (chunk_of m pieces i) s = (?t, assembly_outcome ?a True)"
      using room assms(1) True by (simp add: receive_chunk_def gathered_def chunk_of_def Let_def)
    moreover have "gathered g m pieces b {i} ?t"
      using assms(1) True first_piece [of g pieces i m] r
      by (simp add: gathered_def update_conv' piece_bytes_def)
    ultimately show ?thesis
      using that [of ?t] assembles_outcome [OF first_piece, of i pieces g m] True assms(3,4) by simp
  next
    case nonempty: False
    then obtain a where a: "map_of (cc_assemblies s) m = Some a" "assembles g pieces I a"
      and agg: "cc_aggregate s = b + int (ASSEMBLY_BOOKKEEPING_BYTES + CHUNK_BOOKKEEPING_BYTES * card I + piece_bytes pieces I)"
      using assms(1) by (auto simp: gathered_def)
    let ?a = "extend_assembly (chunk_of m pieces i) a"
    let ?n = "CHUNK_BOOKKEEPING_BYTES + utf8_byte_length (pieces ! i)"
    let ?t = "put_assembly m ?a ?n s"
    have room: "within_budget ?n s"
      unfolding within_budget_def agg using assms(5) bytes grow card grown
      by (simp add: chunk_limits)
    have "receive_chunk g (chunk_of m pieces i) s = (?t, assembly_outcome ?a True)"
      using room assms(1) a False
      by (simp add: receive_chunk_def gathered_def chunk_of_def Let_def assembles_def validates_def)
    moreover have "gathered g m pieces b (insert i I) ?t"
      using assms(1) nonempty next_piece [OF a(2) fin False, of m] agg grow grown
      by (simp add: gathered_def update_conv' algebra_simps)
    ultimately show ?thesis
      using that [of ?t] assembles_outcome [OF next_piece [OF a(2) fin False] sub assms(4), of m] False by simp
  qed
qed

lemma gather_pieces:
  assumes "gathered g m pieces b I s" "I \<union> set is \<subset> {..<length pieces}" "cut_cleanly pieces"
    "b + int (ASSEMBLY_BOOKKEEPING_BYTES + CHUNK_BOOKKEEPING_BYTES * length pieces
       + utf8_byte_length (concat pieces)) \<le> MAX_AGGREGATE_RETAINED_BYTES"
  shows "\<exists>t. gathered g m pieces b (I \<union> set is) t
    \<and> receive_all g (map (chunk_of m pieces) is) s = (t, replicate (length is) Chunk_kept)"
  using assms(1,2)
proof (induction "is" arbitrary: I s)
  case (Cons i "is")
  have i: "i < length pieces" "I \<subseteq> {..<length pieces}" "insert i I \<noteq> {..<length pieces}"
    "insert i I \<union> set is \<subset> {..<length pieces}" using Cons.prems(2) by auto
  obtain t where t: "gathered g m pieces b (insert i I) t"
    "receive_chunk g (chunk_of m pieces i) s = (t, Chunk_kept)"
    by (rule gather_piece [OF Cons.prems(1) i(2,1) assms(3,4)]) (use i(3) that in simp)
  from Cons.IH [OF t(1) i(4)] show ?case using t(2) by auto
qed (simp add: assms)

subsection \<open>Properties\<close>

text \<open>
  C5. Reassembly is exact: the pieces of one message, delivered in any order and any number of
  times, are kept until the last missing one arrives, and that one completes the message with
  exactly the concatenation of the pieces in index order.
\<close>

theorem message_reassembled_exactly:
  assumes "cut_cleanly pieces" "room_for pieces s" "cc_key s" "m \<notin> set (cc_completed s)"
    "map_of (cc_assemblies s) m = None" "insert k (set is) = {..<length pieces}" "k \<notin> set is"
  shows "snd (receive_all g (map (chunk_of m pieces) (is @ [k])) s) =
    replicate (length is) Chunk_kept @ [Chunk_completes (concat pieces)]"
proof -
  have room: "cc_aggregate s + int (ASSEMBLY_BOOKKEEPING_BYTES + CHUNK_BOOKKEEPING_BYTES * length pieces
      + utf8_byte_length (concat pieces)) \<le> MAX_AGGREGATE_RETAINED_BYTES"
    using assms(2) by (simp add: room_for_def)
  have "gathered g m pieces (cc_aggregate s) {} s" using assms by (simp add: gathered_def room_for_def)
  moreover have "{} \<union> set is \<subset> {..<length pieces}" using assms(6,7) by auto
  ultimately obtain t where t: "gathered g m pieces (cc_aggregate s) (set is) t"
    "receive_all g (map (chunk_of m pieces) is) s = (t, replicate (length is) Chunk_kept)"
    using gather_pieces [OF _ _ assms(1) room] by fastforce
  have k: "set is \<subseteq> {..<length pieces}" "k < length pieces" using assms(6) by auto
  obtain u where "receive_chunk g (chunk_of m pieces k) t = (u, Chunk_completes (concat pieces))"
    by (rule gather_piece [OF t(1) k assms(1) room]) (use assms(6,7) that in simp)
  then show ?thesis using t(2) by (simp add: receive_all_append)
qed

definition live_control :: control where
  "live_control = new_control\<lparr>cr_generation := 1, cr_open := True, cc_key := True\<rparr>"

theorem message_reassembled_exactly_witness:
  "snd (receive_all 1 (map (chunk_of (js ''m'') [js ''ab'', js ''c'', js ''de'']) [2, 0, 2, 1]) live_control) =
     [Chunk_kept, Chunk_kept, Chunk_kept, Chunk_completes (js ''abcde'')]"
proof -
  have u: "utf8_byte_length (js ''ab'') = 2" "utf8_byte_length (js ''c'') = 1" "utf8_byte_length (js ''de'') = 2"
      "utf8_byte_length (js ''abcde'') = 5"
    by (simp_all add: utf8_byte_length_def length_text_encode_ascii js_def)
  have c: "concat [js ''ab'', js ''c'', js ''de''] = js ''abcde''" by (simp add: js_def)
  have cut: "cut_cleanly [js ''ab'', js ''c'', js ''de'']"
    unfolding cut_cleanly_def c by (simp add: u)
  have room: "room_for [js ''ab'', js ''c'', js ''de''] live_control"
    unfolding room_for_def c u
    by (simp add: live_control_def new_control_def requests.extend_def new_requests_def chunk_limits)
  have l: "cc_key live_control" "cc_completed live_control = []" "cc_assemblies live_control = []"
    by (simp_all add: live_control_def new_control_def requests.extend_def new_requests_def)
  have i: "insert 1 (set [2, 0, 2]) = {..<length [js ''ab'', js ''c'', js ''de'']}" by auto
  have "snd (receive_all 1 (map (chunk_of (js ''m'') [js ''ab'', js ''c'', js ''de'']) ([2, 0, 2] @ [1])) live_control) =
      replicate (length [2::nat, 0, 2]) Chunk_kept @ [Chunk_completes (concat [js ''ab'', js ''c'', js ''de''])]"
    by (rule message_reassembled_exactly [OF cut room]) (use l i in simp_all)
  then show ?thesis unfolding c by (simp only: append.simps replicate.simps list.size One_nat_def add_Suc_right add_0_right)
qed

text \<open>
  C25. The control channel's memory is bounded and its books are right: after any run there are at
  most 16 assemblies and 64 completed ids, all distinct, the aggregate never exceeds 32 MiB, and
  while a peer is connecting or published it is exactly the bytes charged for the assemblies and
  the completed ids that are held.
\<close>

theorem control_bytes_bounded:
  "let s = run_control P es in
     length (cc_assemblies s) \<le> 16 \<and> distinct (map fst (cc_assemblies s))
     \<and> length (cc_completed s) \<le> 64 \<and> distinct (cc_completed s)
     \<and> cc_aggregate s \<le> 33554432
     \<and> (if cc_key s \<or> cc_connecting s
        then cc_aggregate s = sum_list (map (\<lambda>x. int (ra_retained (snd x))) (cc_assemblies s))
          + sum_list (map (\<lambda>i. int (completed_bytes i)) (cc_completed s))
        else True)"
  using run_control_ok [of P es]
  by (simp add: Let_def control_ok_def books_ok_def sized_def exact_def held_bytes_def o_def chunk_limits)

text \<open>
  Control messages are admitted within bounds and handled one at a time in each connection's
  chain: after any run no generation has more than 256 messages or 8 MiB that its chain has not
  finished with, its counters are exactly their number and their bytes, and at most one handler of
  a generation is suspended, on a message still in its chain.
\<close>

theorem control_admission_bounded:
  "let s = run_control P es; line = map snd (filter (\<lambda>e. fst e = g) (cc_queue s)) in
     admission_of g s = (length line, sum_list (map inbound_frame_bytes line))
     \<and> length line \<le> MAXIMUM_QUEUED_FRAMES \<and> sum_list (map inbound_frame_bytes line) \<le> MAXIMUM_QUEUED_BYTES
     \<and> distinct (map fst (cc_waiting s)) \<and> fst ` set (cc_waiting s) \<subseteq> fst ` set (cc_queue s)"
  using run_control_ok [of P es]
  by (simp add: Let_def control_ok_def books_ok_def lined_def admitted_ok_def line_of_def)

subsection \<open>A response\<close>

lemma grant_loop_pending:
  "cr_pending (grant_loop ws s) = cr_pending s \<and> set (cr_results s) \<subseteq> set (cr_results (grant_loop ws s))"
proof (induction ws s rule: grant_loop.induct)
  case (2 g c ws s)
  then show ?case
    by (auto simp: settle_caller_def grant_slot_def reserve_slot_def set_phase_def Let_def)
qed simp

lemma release_slot_pending:
  "cr_pending (release_slot x s) = cr_pending s" "set (cr_results s) \<subseteq> set (cr_results (release_slot x s))"
proof -
  have g: "cr_pending (grant_waiting_slot t) = cr_pending t \<and> set (cr_results t) \<subseteq> set (cr_results (grant_waiting_slot t))"
    for t :: "'a requests_scheme"
    unfolding grant_waiting_slot_def by (rule grant_loop_pending)
  show "cr_pending (release_slot x s) = cr_pending s" by (simp add: release_slot_def Let_def g)
  show "set (cr_results s) \<subseteq> set (cr_results (release_slot x s))"
    unfolding release_slot_def Let_def
    by (cases "x \<in> set (cr_held s)") (simp_all add: order_trans [OF _ conjunct2 [OF g]])
qed

lemma settle_pending_answers:
  assumes "map_of (cr_pending s) k = Some p" "pr_caller p = Some c"
  shows "cr_pending (settle_pending k r s) = AList.delete k (cr_pending s)"
    "(c, r) \<in> set (cr_results (settle_pending k r s))"
proof -
  show "cr_pending (settle_pending k r s) = AList.delete k (cr_pending s)"
    using assms by (simp add: settle_pending_def Let_def release_slot_pending(1) split: option.split)
  show "(c, r) \<in> set (cr_results (settle_pending k r s))"
  proof (cases "pr_slot p")
    case (Some x)
    let ?u = "s\<lparr>cr_pending := AList.delete k (cr_pending s), cr_results := cr_results s @ [(c, r)]\<rparr>"
    have "(c, r) \<in> set (cr_results (release_slot x ?u))" by (rule subsetD [OF release_slot_pending(2)]) simp
    then show ?thesis using assms Some by (simp add: settle_pending_def)
  qed (use assms in \<open>simp add: settle_pending_def\<close>)
qed

lemma retain_pending: "retain_completed_message_id i s = (t, r) \<Longrightarrow> cr_pending t = cr_pending s \<and> cr_results t = cr_results s"
  by (cases rule: retain_completed_cases [of i s]) auto

text \<open>
  A decrypted response reaches exactly the request it names: if the message is a response
  with a request id that is pending on this connection, its caller gets the response as its answer,
  that entry leaves the pending map and every other pending request stays.
\<close>

theorem response_reaches_its_request:
  assumes "map_of (cr_pending s) (cr_generation s, Some (decimal_value 0 r)) = Some p" "pr_caller p = Some c"
    "decrypt_daemon_payload P e = Some payload" "parse_server_frame payload = Inr (Response r v)"
    "snd (retain_completed_message_id i (release_assembly i a s)) = None"
  shows "let t = fst (finish_message P (cr_generation s) i a e s) in
     (c, Answered v) \<in> set (cr_results t)
     \<and> map_of (cr_pending t) = (map_of (cr_pending s))((cr_generation s, Some (decimal_value 0 r)) := None)
     \<and> snd (finish_message P (cr_generation s) i a e s) = None"
proof -
  obtain u where u: "retain_completed_message_id i (release_assembly i a s) = (u, None)"
    using assms(5) by (metis prod.collapse)
  have "cr_pending u = cr_pending s" using retain_pending [OF u] by (simp add: release_assembly_def)
  then show ?thesis
    using u assms settle_pending_answers [of u "(cr_generation s, Some (decimal_value 0 r))" p c "Answered v"]
    by (simp add: finish_message_def dispatch_frame_def delete_conv' fun_eq_iff Let_def)
qed

text \<open>A platform whose texts are single letters, for concrete runs.\<close>

definition chunk_value :: "string \<Rightarrow> int \<Rightarrow> int \<Rightarrow> int \<Rightarrow> jvalue" where
  "chunk_value m i n k = V_object [(js ''version'', V_number (Num 2)),
     (js ''delivery_kind'', V_string (js ''server_frame'')), (js ''message_id'', V_string (js m)),
     (js ''chunk_index'', V_number (Num (of_int i))), (js ''chunk_count'', V_number (Num (of_int n))),
     (js ''total_bytes'', V_number (Num (of_int k))), (js ''payload'', V_string (js ''e''))]"

definition letter_platform :: platform where
  "letter_platform = \<lparr>json_parse = (\<lambda>s.
       if s = js ''a'' then Some (chunk_value ''m'' 0 1 1)
       else if s = js ''b'' then Some (chunk_value ''n'' 0 2 2)
       else if s = js ''e'' then Some (V_array [])
       else Some (V_object [(js ''frame'', V_string (js ''response'')), (js ''request_id'', V_string (js ''1'')),
         (js ''response'', V_object [])])),
     base64_decode = (\<lambda>v. Some []), gcm_seal = (\<lambda>n p. p), gcm_open = (\<lambda>n c. Some c),
     decode_text = (\<lambda>b. []), coerce_number = (\<lambda>v. Not_a_number)\<rparr>"

lemma of_char_word_inject: "(of_nat (of_char c) :: 16 word) = of_nat (of_char d) \<longleftrightarrow> c = d"
proof
  assume a: "(of_nat (of_char c) :: 16 word) = of_nat (of_char d)"
  have b: "of_char e < (2 :: nat) ^ 16" for e by (rule less_trans [of _ 256]) simp_all
  have "unat (of_nat (of_char c) :: 16 word) = unat (of_nat (of_char d) :: 16 word)" using a by simp
  then have "of_char c = (of_char d :: nat)" using b by (simp add: unat_of_nat)
  then show "c = d" by (simp add: of_char_eq_iff)
qed simp

lemma js_inject [simp]: "js s = js t \<longleftrightarrow> s = t"
  unfolding js_def by (rule inj_map_eq_map) (simp add: inj_def of_char_word_inject)

lemma length_js [simp]: "length (js s) = length s"
  by (simp add: js_def)

lemma letter_decrypts:
  "decrypt_daemon_payload letter_platform (js ''e'') = Some (V_object [(js ''frame'', V_string (js ''response'')),
     (js ''request_id'', V_string (js ''1'')), (js ''response'', V_object [])])"
  by (simp add: decrypt_daemon_payload_def letter_platform_def property_of_def js_def)

lemma letter_response:
  "parse_server_frame (V_object [(js ''frame'', V_string (js ''response'')),
     (js ''request_id'', V_string (js ''1'')), (js ''response'', V_object [])]) = Inr (Response (js ''1'') (V_object []))"
  by (simp add: parse_server_frame_def field_def string_of_def Let_def js_def is_object_def digit_def)

lemma utf8_js: "list_all (\<lambda>c. of_char c < (128 :: nat)) s \<Longrightarrow> utf8_byte_length (js s) = length s"
  unfolding utf8_byte_length_def
  by (subst length_text_encode_ascii) (auto simp: js_def list_all_iff unat_of_nat)

definition waiting_control :: control where
  "waiting_control = live_control\<lparr>cr_pending := [((1, Some 1), \<lparr>pr_caller = Some 0, pr_slot = None\<rparr>)],
     cr_next_caller := 1, cc_assemblies := [(js ''m'', new_assembly 1 (chunk_of (js ''m'') [js ''e''] 0))],
     cc_aggregate := 321\<rparr>"

theorem response_reaches_its_request_witness:
  "(0, Answered (V_object [])) \<in> set (cr_results (fst (finish_message letter_platform 1 (js ''m'')
     (new_assembly 1 (chunk_of (js ''m'') [js ''e''] 0)) (js ''e'') waiting_control)))"
proof -
  let ?a = "new_assembly 1 (chunk_of (js ''m'') [js ''e''] 0)"
  have s: "cr_generation waiting_control = 1" "cc_completed waiting_control = []" "cc_aggregate waiting_control = 321"
    "map_of (cr_pending waiting_control) (1, Some 1) = Some \<lparr>pr_caller = Some 0, pr_slot = None\<rparr>"
    by (simp_all add: waiting_control_def live_control_def new_control_def new_requests_def requests.extend_def)
  have d: "decimal_value 0 (js ''1'') = 1" by (simp add: js_def)
  have r: "snd (retain_completed_message_id (js ''m'') (release_assembly (js ''m'') ?a waiting_control)) = None"
    by (simp add: retain_completed_message_id_def release_assembly_def s Let_def within_budget_def completed_bytes_def
        utf8_js chunk_limits)
  show ?thesis
    using response_reaches_its_request [of waiting_control "js ''1''" _ 0 letter_platform "js ''e''", OF _ _ letter_decrypts letter_response r]
    by (simp add: s d Let_def del: One_nat_def)
qed

lemma letter_chunks:
  "parse_delivery_chunk (json_parse letter_platform (js ''a'')) = Inr (chunk_of (js ''m'') [js ''e''] 0)"
  "parse_delivery_chunk (json_parse letter_platform (js ''b'')) = Inr (chunk_of (js ''n'') [js ''e'', js ''e''] 0)"
proof -
  have c: "utf8_byte_length (js ''e'') = 1" "utf8_byte_length (js ''ee'') = 2" "js ''e'' @ js ''e'' = js ''ee''"
    by (simp_all add: utf8_js) (simp add: js_def)
  show "parse_delivery_chunk (json_parse letter_platform (js ''a'')) = Inr (chunk_of (js ''m'') [js ''e''] 0)"
    by (simp add: letter_platform_def chunk_value_def parse_delivery_chunk_def field_def string_of_def int_of_def
        safe_integer_def is_integer_in_range_def rat_is_int_def MAX_SAFE_INTEGER_def MAX_RESPONSE_BYTES_def Let_def
        chunk_of_def c) (simp add: js_def)
  show "parse_delivery_chunk (json_parse letter_platform (js ''b'')) = Inr (chunk_of (js ''n'') [js ''e'', js ''e''] 0)"
    by (simp add: letter_platform_def chunk_value_def parse_delivery_chunk_def field_def string_of_def int_of_def
        safe_integer_def is_integer_in_range_def rat_is_int_def MAX_SAFE_INTEGER_def MAX_RESPONSE_BYTES_def Let_def
        chunk_of_def c) (simp add: js_def)
qed

lemma letter_begins:
  "begin_message letter_platform (Text_data (js ''a'')) = Inr (chunk_of (js ''m'') [js ''e''] 0)"
  "begin_message letter_platform (Text_data (js ''b'')) = Inr (chunk_of (js ''n'') [js ''e'', js ''e''] 0)"
  by (simp_all add: begin_message_def utf8_js MAX_FRAME_BYTES_EXCLUSIVE_def letter_chunks)

definition closed_event :: failure where
  "closed_event = Webrtc_failure Transport [L ''local WebRTC data channel closed'']"

definition stale_run :: "control_event list" where
  "stale_run = [Attempt_started, Peer_published, Control_arrives 1 (Text_data (js ''a'')),
     Control_arrives 1 (Text_data (js ''b'')), Handle_message 1, Peer_lost closed_event 1,
     Attempt_started, Peer_published, Message_decrypted 1, Handle_message 1]"

definition stale_control :: control where
  "stale_control = new_control\<lparr>cr_generation := 2, cc_key := True,
     cc_assemblies := [(js ''n'', new_assembly 1 (chunk_of (js ''n'') [js ''e'', js ''e''] 0))],
     cc_aggregate := 321, cc_admissions := [(1, 0, 0)]\<rparr>"

lemma letter_outcomes:
  "assembly_outcome (new_assembly g (chunk_of (js ''m'') [js ''e''] 0)) True = Chunk_completes (js ''e'')"
  "assembly_outcome (new_assembly g (chunk_of (js ''n'') [js ''e'', js ''e''] 0)) True = Chunk_kept"
proof -
  have e: "js ''e'' @ js ''e'' = js ''ee''" by (simp add: js_def)
  show "assembly_outcome (new_assembly g (chunk_of (js ''m'') [js ''e''] 0)) True = Chunk_completes (js ''e'')"
    by (simp add: assembly_outcome_def new_assembly_def chunk_of_def Let_def)
  show "assembly_outcome (new_assembly g (chunk_of (js ''n'') [js ''e'', js ''e''] 0)) True = Chunk_kept"
    by (simp add: assembly_outcome_def new_assembly_def chunk_of_def Let_def e utf8_js)
qed

lemma new_control_fields [simp]:
  "cr_generation new_control = 0" "cr_open new_control = False" "cr_pending new_control = []"
  "cr_waiters new_control = []" "cr_next_request_id new_control = 1" "cc_key new_control = False"
  "cc_connecting new_control = False" "cc_peer_failed new_control = False" "cc_assemblies new_control = []"
  "cc_completed new_control = []" "cc_aggregate new_control = 0" "cc_queue new_control = []"
  "cc_admissions new_control = []" "cc_waiting new_control = []"
  by (simp_all add: new_control_def new_requests_def requests.extend_def)

text \<open>The run, in four parts: the peer, its two messages, its loss, and the next peer.\<close>

lemma published_peer:
  "fold (control_step P) [Attempt_started, Peer_published] s =
     s\<lparr>cr_generation := Suc (cr_generation s), cr_open := False, cr_next_request_id := 1, cc_key := True,
       cc_connecting := False, cc_peer_failed := False, cc_assemblies := [], cc_completed := [], cc_aggregate := 0\<rparr>"
  by (simp add: control_new_attempt_def new_attempt_def control_reset_def clear_assemblies_def peer_reset_def
      peer_published_def)

definition first_peer :: control where
  "first_peer = new_control\<lparr>cr_generation := 1, cc_key := True\<rparr>"

definition two_queued :: control where
  "two_queued = first_peer\<lparr>cc_queue := [(1, Text_data (js ''a'')), (1, Text_data (js ''b''))],
     cc_admissions := [(1, 2, 2)]\<rparr>"

definition decrypting_first :: control where
  "decrypting_first = two_queued\<lparr>
     cc_assemblies := [(js ''m'', new_assembly 1 (chunk_of (js ''m'') [js ''e''] 0))], cc_aggregate := 321,
     cc_waiting := [(1, js ''m'', new_assembly 1 (chunk_of (js ''m'') [js ''e''] 0), js ''e'')]\<rparr>"

definition second_peer :: control where
  "second_peer = two_queued\<lparr>cr_generation := 2,
     cc_waiting := [(1, js ''m'', new_assembly 1 (chunk_of (js ''m'') [js ''e''] 0), js ''e'')]\<rparr>"

lemma retained_first: "ra_retained (new_assembly g (chunk_of m [js ''e''] 0)) = 321"
  "ra_retained (new_assembly g (chunk_of m [js ''e'', js ''e''] 0)) = 321"
  by (simp_all add: new_assembly_def chunk_of_def utf8_js chunk_limits)

lemma two_queued_run:
  "fold (control_step letter_platform) [Control_arrives 1 (Text_data (js ''a'')), Control_arrives 1 (Text_data (js ''b''))]
     first_peer = two_queued"
  by (simp add: first_peer_def two_queued_def control_arrives_def admission_of_def MAXIMUM_QUEUED_FRAMES_def
      MAXIMUM_QUEUED_BYTES_def js_def)

lemma decrypting_run: "handle_message letter_platform 1 two_queued = decrypting_first"
proof -
  let ?c = "chunk_of (js ''m'') [js ''e''] 0"
  have m: "dc_message_id ?c = js ''m''" by (simp add: chunk_of_def)
  have r: "receive_chunk 1 ?c two_queued = (put_assembly (js ''m'') (new_assembly 1 ?c) 321 two_queued, Chunk_completes (js ''e''))"
    by (simp add: receive_chunk_def m two_queued_def first_peer_def chunk_limits Let_def within_budget_def
        retained_first letter_outcomes del: One_nat_def)
  have f: "cc_waiting two_queued = []" "cc_assemblies two_queued = []" "cc_aggregate two_queued = 0"
      "cc_queue two_queued = [(1, Text_data (js ''a'')), (1, Text_data (js ''b''))]"
    by (simp_all add: two_queued_def first_peer_def)
  show ?thesis
    by (simp add: handle_message_def r m f letter_begins decrypting_first_def put_assembly_def del: One_nat_def)
qed

lemma second_peer_run:
  "fold (control_step P) [Peer_lost closed_event 1, Attempt_started, Peer_published] decrypting_first = second_peer"
proof -
  have "control_transport_closed closed_event 1 decrypting_first =
      decrypting_first\<lparr>cc_key := False, cc_assemblies := [], cc_aggregate := 0\<rparr>"
    by (simp add: control_transport_closed_def decrypting_first_def two_queued_def first_peer_def control_reset_def
        clear_assemblies_def peer_reset_def fail_pending_def cancel_request_slot_waiters_def new_control_def new_requests_def
        requests.extend_def)
  then show ?thesis
    using published_peer [of P "decrypting_first\<lparr>cc_key := False, cc_assemblies := [], cc_aggregate := 0\<rparr>"]
    by (simp add: decrypting_first_def two_queued_def first_peer_def second_peer_def new_control_def new_requests_def
        requests.extend_def)
qed

definition one_left :: control where
  "one_left = second_peer\<lparr>cc_waiting := [], cc_queue := [(1, Text_data (js ''b''))], cc_admissions := [(1, 1, 1)]\<rparr>"

lemma second_decrypted: "message_decrypted letter_platform 1 second_peer = one_left"
  by (simp add: message_decrypted_def one_left_def second_peer_def two_queued_def first_peer_def finish_message_def
      letter_decrypts chain_done_def admission_of_def Let_def)

lemma one_left_fields:
  "cc_waiting one_left = []" "cc_assemblies one_left = []" "cc_completed one_left = []" "cc_aggregate one_left = 0"
  "cc_key one_left" "cc_queue one_left = [(1, Text_data (js ''b''))]" "cc_admissions one_left = [(1, 1, 1)]"
  by (simp_all add: one_left_def second_peer_def two_queued_def first_peer_def)

lemma stale_handled: "handle_message letter_platform 1 one_left = stale_control"
proof -
  let ?n = "chunk_of (js ''n'') [js ''e'', js ''e''] 0"
  have m: "dc_message_id ?n = js ''n''" by (simp add: chunk_of_def)
  have r: "receive_chunk 1 ?n one_left = (put_assembly (js ''n'') (new_assembly 1 ?n) 321 one_left, Chunk_kept)"
    by (simp add: receive_chunk_def m one_left_fields chunk_limits Let_def within_budget_def
        retained_first letter_outcomes del: One_nat_def)
  have "handle_message letter_platform 1 one_left = chain_done 1 None (put_assembly (js ''n'') (new_assembly 1 ?n) 321 one_left)"
    by (simp add: handle_message_def one_left_fields letter_begins r del: One_nat_def)
  also have "\<dots> = stale_control"
    by (simp add: chain_done_def put_assembly_def one_left_fields admission_of_def Let_def)
      (simp add: one_left_def stale_control_def second_peer_def two_queued_def first_peer_def)
  finally show ?thesis .
qed

lemma stale_run_state: "run_control letter_platform stale_run = stale_control"
proof -
  let ?step = "control_step letter_platform"
  have one: "fold ?step [Attempt_started, Peer_published] new_control = first_peer"
    unfolding published_peer first_peer_def by (simp add: new_control_def new_requests_def requests.extend_def)
  have parts: "stale_run = [Attempt_started, Peer_published] @ [Control_arrives 1 (Text_data (js ''a'')),
      Control_arrives 1 (Text_data (js ''b''))] @ [Handle_message 1]
      @ [Peer_lost closed_event 1, Attempt_started, Peer_published] @ [Message_decrypted 1, Handle_message 1]"
    by (simp add: stale_run_def)
  have three: "fold ?step [Handle_message 1] two_queued = decrypting_first"
    and five: "fold ?step [Message_decrypted 1, Handle_message 1] second_peer = stale_control"
    by (simp_all add: decrypting_run [simplified] second_decrypted [simplified] stale_handled [simplified])
  show ?thesis
    unfolding run_control_def parts fold_append o_apply one two_queued_run three second_peer_run five ..
qed

text \<open>
  Chunks of a lost connection outlive it: a frame that is still queued behind a message being
  decrypted when its connection is lost is handled after the next connection is published (nothing
  checks the generation before the chunk is stored). Its assembly then counts against the new
  connection's limits, its own timeout does nothing, and a chunk of the new connection with the
  same message id fails the new peer.
\<close>

theorem stale_chunks_survive_reconnect:
  "let s = run_control letter_platform stale_run in
     cr_generation s = 2 \<and> cc_key s \<and> cc_queue s = []
     \<and> map (\<lambda>x. ra_generation (snd x)) (cc_assemblies s) = [1] \<and> cc_aggregate s = 321
     \<and> control_step letter_platform (Assembly_times_out (js ''n'')) s = s
     \<and> \<not> cc_key (fold (control_step letter_platform) [Control_arrives 2 (Text_data (js ''b'')), Handle_message 2] s)"
proof -
  let ?n = "chunk_of (js ''n'') [js ''e'', js ''e''] 0"
  have f: "cr_generation stale_control = 2" "cc_key stale_control" "cc_queue stale_control = []"
    "cc_aggregate stale_control = 321" "cc_waiting stale_control = []" "cc_peer_failed stale_control = False"
    "cc_completed stale_control = []" "cc_admissions stale_control = [(1, 0, 0)]"
    "cc_assemblies stale_control = [(js ''n'', new_assembly 1 ?n)]"
    by (simp_all add: stale_control_def)
  let ?t = "stale_control\<lparr>cc_admissions := [(1, 0, 0), (2, 1, 1)], cc_queue := [(2, Text_data (js ''b''))]\<rparr>"
  have t: "control_arrives 2 (Text_data (js ''b'')) stale_control = ?t"
    by (simp add: control_arrives_def f admission_of_def MAXIMUM_QUEUED_FRAMES_def MAXIMUM_QUEUED_BYTES_def)
  have "receive_chunk 2 ?n ?t = (?t, Chunk_failed (Webrtc_failure Data_plane
      [L ''local WebRTC response chunk metadata conflicts with its assembly'']))"
    by (simp add: receive_chunk_def f validates_def new_assembly_def chunk_of_def)
  then have "handle_message letter_platform 2 ?t = chain_done 2 (Some (Webrtc_failure Data_plane
      [L ''local WebRTC response chunk metadata conflicts with its assembly''])) ?t"
    by (simp add: handle_message_def f letter_begins)
  moreover have "cc_key (chain_done 2 r u) = cc_key (case r of None \<Rightarrow> u | Some f \<Rightarrow> fail_peer_generation 2 f u)"
    for r u by (simp add: chain_done_def Let_def split_def split: option.split)
  ultimately have "\<not> cc_key (handle_message letter_platform 2 ?t)"
    by (simp add: fail_peer_generation_def f control_reset_def)
  then show ?thesis
    using t by (simp add: stale_run_state f assembly_times_out_def fail_peer_generation_def new_assembly_def)
qed

end
