(* ===== verification/Data_Plane_Reports.thy ===== *)
theory Data_Plane_Reports
  imports Data_Plane_Inputs
begin

text \<open>
  Who hears of an input operation. The log shows which operations a listener was told about and
  which calls of \<open>writePaste\<close> have returned; this theory shows that over any run these are the
  operations that have been settled, each once.
\<close>

subsection \<open>What the log shows\<close>

text \<open>The operations a listener has heard of, in order.\<close>

definition outcomes_heard :: "nat \<Rightarrow> plane \<Rightarrow> nat list" where
  "outcomes_heard l s = List.map_filter
     (\<lambda>e. case e of E_outcome l' oc \<Rightarrow> if l' = l then oo_serial oc else None | _ \<Rightarrow> None) (log s)"

text \<open>The operations whose \<open>writePaste\<close> has returned, and those that settled and will return.\<close>

definition returned :: "plane \<Rightarrow> nat list" where
  "returned s = List.map_filter (\<lambda>e. case e of E_paste_returned oc \<Rightarrow> oo_serial oc | _ \<Rightarrow> None) (log s)"

definition returning :: "plane \<Rightarrow> nat list" where
  "returning s = List.map_filter oo_serial (paste_results s)"

subsection \<open>The invariant\<close>

definition tied :: "plane \<Rightarrow> queued_operation \<Rightarrow> bool" where
  "tied s e \<longleftrightarrow> q_serial e < next_serial s \<and> (q_resolve e = Resolve_write_paste \<longleftrightarrow> q_serial e \<in> set (pasted s))"

definition tied_inflight :: "plane \<Rightarrow> inflight_operation \<Rightarrow> bool" where
  "tied_inflight s i \<longleftrightarrow>
     q_serial i < next_serial s \<and> (q_resolve i = Resolve_write_paste \<longleftrightarrow> q_serial i \<in> set (pasted s))"

definition ties :: "plane \<Rightarrow> bool" where
  "ties s \<longleftrightarrow>
     distinct (outcome_listeners s)
     \<and> (\<forall>n \<in> set (pasted s). n < next_serial s) \<and> (\<forall>n \<in> set (settled s). n < next_serial s)
     \<and> (\<forall>e \<in> set (queued_inputs s). tied s e)
     \<and> (\<forall>x \<in> set (inflight_inputs s). tied_inflight s (snd x))
     \<and> (\<forall>t \<in> set (send_tasks s). tied_inflight s (tk_inflight t))
     \<and> mset (returned s) + mset (returning s) = mset (filter (\<lambda>n. n \<in> set (pasted s)) (settled s))
     \<and> (\<forall>l. mset (outcomes_heard l s) + mset (returning s) \<subseteq># mset (settled s))"

text \<open>
  What the listeners subscribed in \<open>b\<close> have heard since \<open>b\<close> is what was settled since, but for
  the pastes still returning; nobody else heard of anything.
\<close>

definition told :: "plane \<Rightarrow> plane \<Rightarrow> bool" where
  "told b s \<longleftrightarrow> ties s \<and> outcome_listeners b = outcome_listeners s
     \<and> (\<forall>l. if l \<in> set (outcome_listeners s)
            then mset (outcomes_heard l s) + mset (returning s) + mset (settled b)
               = mset (outcomes_heard l b) + mset (returning b) + mset (settled s)
            else outcomes_heard l s = outcomes_heard l b)"


lemmas told_views = told_def ties_def tied_def tied_inflight_def outcomes_heard_def returned_def returning_def

lemma told_frame [simp]:
  "told b (s\<lparr>current_status := a3\<rparr>) = told b s" "told b (s\<lparr>current_modes := a4\<rparr>) = told b s"
  "told b (s\<lparr>listeners := a5\<rparr>) = told b s" "told b (s\<lparr>status_listeners := a6\<rparr>) = told b s"
  "told b (s\<lparr>modes_listeners := a7\<rparr>) = told b s" "told b (s\<lparr>attach_promise := a9\<rparr>) = told b s"
  "told b (s\<lparr>detached := a10\<rparr>) = told b s" "told b (s\<lparr>transport_lost := a11\<rparr>) = told b s"
  "told b (s\<lparr>attached_received := a12\<rparr>) = told b s" "told b (s\<lparr>route_generation := a13\<rparr>) = told b s"
  "told b (s\<lparr>accepted_epoch := a14\<rparr>) = told b s" "told b (s\<lparr>detach_sent_for := a15\<rparr>) = told b s"
  "told b (s\<lparr>last_abandoned := a16\<rparr>) = told b s" "told b (s\<lparr>lifecycle_subscribed := a17\<rparr>) = told b s"
  "told b (s\<lparr>hydration := a18\<rparr>) = told b s" "told b (s\<lparr>reader_factory := a19\<rparr>) = told b s"
  "told b (s\<lparr>snapshot_recoveries := a20\<rparr>) = told b s" "told b (s\<lparr>desired_geometry := a21\<rparr>) = told b s"
  "told b (s\<lparr>sent_geometry := a22\<rparr>) = told b s" "told b (s\<lparr>paste_attempt := a23\<rparr>) = told b s"
  "told b (s\<lparr>send_chain := a24\<rparr>) = told b s" "told b (s\<lparr>event_chain := a25\<rparr>) = told b s"
  "told b (s\<lparr>event_tasks := a26\<rparr>) = told b s" "told b (s\<lparr>attach_tasks := a27\<rparr>) = told b s"
  "told b (s\<lparr>recover_microtasks := a28\<rparr>) = told b s" "told b (s\<lparr>recover_waits := a29\<rparr>) = told b s"
  "told b (s\<lparr>opened_streams := a30\<rparr>) = told b s" "told b (s\<lparr>clock := a31\<rparr>) = told b s"
  "told b (s\<lparr>subscription := a32\<rparr>) = told b s" "told b (s\<lparr>stream := a33\<rparr>) = told b s"
  "told b (s\<lparr>generation := a34\<rparr>) = told b s" "told b (s\<lparr>next_operation_id := a35\<rparr>) = told b s"
  "told b (s\<lparr>queued_input_bytes := a36\<rparr>) = told b s" "told b (s\<lparr>inflight_input_bytes := a37\<rparr>) = told b s"
  "told b (s\<lparr>geometry_operation := a38\<rparr>) = told b s" "told b (s\<lparr>pending_unsafe_paste := a39\<rparr>) = told b s"
  "told b (s\<lparr>consent_retained_bytes := a40\<rparr>) = told b s" "told b (s\<lparr>admitted := a41\<rparr>) = told b s"
  "told b (s\<lparr>dropped := a42\<rparr>) = told b s"
  by (simp_all add: told_views)

lemma told_ties: "told b s \<Longrightarrow> ties s"
  by (simp add: told_def)

lemma reports_frame [simp]:
  "outcomes_heard l (s\<lparr>next_serial := a\<rparr>) = outcomes_heard l s" "outcomes_heard l (s\<lparr>queued_inputs := c\<rparr>) = outcomes_heard l s"
  "outcomes_heard l (s\<lparr>inflight_inputs := d\<rparr>) = outcomes_heard l s" "outcomes_heard l (s\<lparr>send_tasks := e\<rparr>) = outcomes_heard l s"
  "outcomes_heard l (s\<lparr>settled := f\<rparr>) = outcomes_heard l s" "outcomes_heard l (s\<lparr>paste_results := g\<rparr>) = outcomes_heard l s"
  "outcomes_heard l (s\<lparr>pasted := h\<rparr>) = outcomes_heard l s" "outcomes_heard l (s\<lparr>outcome_listeners := k\<rparr>) = outcomes_heard l s"
  "returned (s\<lparr>next_serial := a\<rparr>) = returned s" "returned (s\<lparr>queued_inputs := c\<rparr>) = returned s"
  "returned (s\<lparr>inflight_inputs := d\<rparr>) = returned s" "returned (s\<lparr>send_tasks := e\<rparr>) = returned s"
  "returned (s\<lparr>settled := f\<rparr>) = returned s" "returned (s\<lparr>paste_results := g\<rparr>) = returned s"
  "returned (s\<lparr>pasted := h\<rparr>) = returned s" "returned (s\<lparr>outcome_listeners := k\<rparr>) = returned s"
  "returning (s\<lparr>next_serial := a\<rparr>) = returning s" "returning (s\<lparr>queued_inputs := c\<rparr>) = returning s"
  "returning (s\<lparr>inflight_inputs := d\<rparr>) = returning s" "returning (s\<lparr>send_tasks := e\<rparr>) = returning s"
  "returning (s\<lparr>settled := f\<rparr>) = returning s" "returning (s\<lparr>pasted := h\<rparr>) = returning s"
  "returning (s\<lparr>outcome_listeners := k\<rparr>) = returning s"
  by (simp_all add: outcomes_heard_def returned_def returning_def)








subsection \<open>Effects\<close>









subsection \<open>Settling an operation\<close>

lemma subset_add_one: "M \<subseteq># N \<Longrightarrow> add_mset n M \<subseteq># add_mset n (N :: 'a multiset)"
  by simp






subsection \<open>The window\<close>







subsection \<open>Operations\<close>




























subsection \<open>Frames of the route\<close>














subsection \<open>The send chain\<close>




lemma tied_inflight_frame [simp]:
  "tied_inflight (set_operation i op s) j = tied_inflight s j" "tied_inflight (emit es s) j = tied_inflight s j"
  "tied_inflight (drop_send_task t s) j = tied_inflight s j" "tied_inflight (s\<lparr>sent_geometry := g\<rparr>) j = tied_inflight s j"
  by (simp_all add: tied_inflight_def set_operation_def emit_def drop_send_task_def)







subsection \<open>Attaching, transport and subscriptions\<close>













subsection \<open>Steps\<close>











subsection \<open>Properties\<close>


end
