(* ===== verification/Connection_Attempts.thy ===== *)
theory Connection_Attempts
  imports Terminal_Channel
begin

text \<open>
  Connection attempts of \<open>WebrtcDaemonTransport\<close> (\<open>src/botster/webrtcDaemonClient.ts\<close>): \<open>connect\<close>,
  \<open>startAttempt\<close>, the suspended phases of \<open>open\<close> and \<open>sendHello\<close>, \<open>completeAttempt\<close>, \<open>failAttempt\<close>,
  \<open>scheduleRetry\<close>, the loss path (\<open>failPeerGeneration\<close>, \<open>captureReconnectDemand\<close>,
  \<open>handleTransportClosed\<close>, \<open>recoverConnection\<close>) and \<open>disconnect\<close>. An attempt is named by its
  generation. Timers and queued microtasks are fields of the state, and their firing is an event.

  Lifecycle callbacks run synchronously in the middle of these operations and may connect,
  disconnect, or take and give up subscriptions: they are an argument \<open>cb\<close> that reads the state.
  They return: a callback that throws, which \<open>emitLifecycle\<close> does not catch, is left out.
\<close>

subsection \<open>State\<close>

definition INITIAL_DELAY_MS :: nat where "INITIAL_DELAY_MS = 250"
definition MAX_DELAY_MS :: nat where "MAX_DELAY_MS = 8000"
definition ATTEMPT_TIMEOUT_MS :: nat where "ATTEMPT_TIMEOUT_MS = 10000"

lemmas reconnect_policy = INITIAL_DELAY_MS_def MAX_DELAY_MS_def ATTEMPT_TIMEOUT_MS_def

datatype lifecycle =
    Reconnect_attempt nat
  | Reconnect_scheduled nat nat
  | Hello_acknowledged bool
  | Encrypted_stream_ready
  | Data_channel_open
  | Data_channel_closed
  | Data_channel_error

datatype reaction = React_connect | React_disconnect | React_hold | React_release

text \<open>Where \<open>open\<close> is suspended; \<open>Open_done\<close> is its settled promise, before the handlers run.\<close>

datatype open_phase =
    Not_opened
  | Bootstrapping
  | Importing_key
  | Offering
  | Gathering
  | Fetching
  | Reading_reply
  | Connecting_peer
  | Awaiting_hello
  | Hello_accepted
  | Open_done "failure option"
  | Attempt_over

record attempt =
  at_settled :: bool
  at_deadline :: bool
  at_peer :: bool
  at_phase :: open_phase
  at_result :: "failure option option"

record client =
  cl_generation :: nat
  cl_attempts :: "(nat \<times> attempt) list"
  cl_current :: "nat option"
  cl_promise :: "nat option"
  cl_retry_timer :: bool
  cl_retry_attempt :: nat
  cl_demand :: bool
  cl_holders :: nat
  cl_disconnected :: bool
  cl_peer :: "nat option"
  cl_channel :: channel_state
  cl_ready :: bool
  cl_peer_failed :: bool
  cl_recoveries :: nat
  cl_open_peers :: "nat list"
  cl_failed_pending :: "(failure \<times> nat option) list"
  cl_log :: "lifecycle list"

type_synonym callbacks = "lifecycle \<Rightarrow> client \<Rightarrow> reaction list"

definition new_client :: client where
  "new_client = \<lparr>cl_generation = 0, cl_attempts = [], cl_current = None, cl_promise = None,
     cl_retry_timer = False, cl_retry_attempt = 0, cl_demand = False, cl_holders = 0, cl_disconnected = False,
     cl_peer = None, cl_channel = Channel_closed, cl_ready = False, cl_peer_failed = False, cl_recoveries = 0,
     cl_open_peers = [], cl_failed_pending = [], cl_log = []\<rparr>"

text \<open>The attempt a generation names; one that was never started has nothing to clear.\<close>

definition no_attempt :: attempt where
  "no_attempt = \<lparr>at_settled = True, at_deadline = False, at_peer = False, at_phase = Attempt_over, at_result = None\<rparr>"

definition attempt_of :: "nat \<Rightarrow> client \<Rightarrow> attempt" where
  "attempt_of g s = (case map_of (cl_attempts s) g of None \<Rightarrow> no_attempt | Some a \<Rightarrow> a)"

definition set_attempt :: "nat \<Rightarrow> attempt \<Rightarrow> client \<Rightarrow> client" where
  "set_attempt g a s = s\<lparr>cl_attempts := AList.update g a (cl_attempts s)\<rparr>"

definition owns_attempt :: "nat \<Rightarrow> client \<Rightarrow> bool" where
  "owns_attempt g s \<longleftrightarrow> cl_current s = Some g \<and> g = cl_generation s \<and> \<not> cl_disconnected s"

definition has_reconnect_demand :: "client \<Rightarrow> bool" where
  "has_reconnect_demand s \<longleftrightarrow> cl_holders s > 0"

subsection \<open>Releasing resources\<close>

definition clear_attempt_deadline :: "nat \<Rightarrow> client \<Rightarrow> client" where
  "clear_attempt_deadline g s = set_attempt g ((attempt_of g s)\<lparr>at_deadline := False\<rparr>) s"

text \<open>The attempt's own channel and peer; the published fields go only when they are these.\<close>

definition close_attempt_resources :: "nat \<Rightarrow> client \<Rightarrow> client" where
  "close_attempt_resources g s =
     (let a = attempt_of g s;
          t = set_attempt g (a\<lparr>at_peer := False\<rparr>) s in
      if at_peer a
      then t\<lparr>cl_open_peers := removeAll g (cl_open_peers t),
             cl_peer := (if cl_peer t = Some g then None else cl_peer t)\<rparr>
      else t)"

definition reset_peer_state :: "client \<Rightarrow> client" where
  "reset_peer_state s =
     s\<lparr>cl_open_peers := (case cl_peer s of None \<Rightarrow> cl_open_peers s | Some g \<Rightarrow> removeAll g (cl_open_peers s)),
       cl_peer := None, cl_ready := False\<rparr>"

definition cancel_retry_timer :: "client \<Rightarrow> client" where
  "cancel_retry_timer s = s\<lparr>cl_retry_timer := False\<rparr>"

definition fails_pending :: "failure \<Rightarrow> nat option \<Rightarrow> client \<Rightarrow> client" where
  "fails_pending f gen s = s\<lparr>cl_failed_pending := cl_failed_pending s @ [(f, gen)]\<rparr>"

text \<open>\<open>attempt.resolve\<close> and \<open>attempt.reject\<close>: the first call settles the promise.\<close>

definition settle_promise :: "nat \<Rightarrow> failure option \<Rightarrow> client \<Rightarrow> client" where
  "settle_promise g r s =
     (let a = attempt_of g s in
      set_attempt g (a\<lparr>at_result := (case at_result a of None \<Rightarrow> Some r | Some q \<Rightarrow> Some q)\<rparr>) s)"

definition disconnected_failure :: failure where
  "disconnected_failure = Webrtc_failure Transport [L ''local WebRTC transport disconnected'']"

definition disconnect :: "client \<Rightarrow> client" where
  "disconnect s0 =
     (let s = s0\<lparr>cl_disconnected := True, cl_current := None, cl_retry_timer := False, cl_demand := False\<rparr>;
          t = (case cl_current s0 of
                 None \<Rightarrow> s
               | Some g \<Rightarrow>
                   if at_settled (attempt_of g s) then s
                   else settle_promise g (Some disconnected_failure) (close_attempt_resources g
                     (set_attempt g ((attempt_of g s)\<lparr>at_settled := True, at_deadline := False\<rparr>) s))) in
      fails_pending disconnected_failure None (reset_peer_state (t\<lparr>cl_promise := None\<rparr>)))"

subsection \<open>Callbacks\<close>

fun react :: "(client \<Rightarrow> client) \<Rightarrow> reaction \<Rightarrow> client \<Rightarrow> client" where
  "react conn React_connect s = conn s"
| "react conn React_disconnect s = disconnect s"
| "react conn React_hold s = s\<lparr>cl_holders := cl_holders s + 1\<rparr>"
| "react conn React_release s = s\<lparr>cl_holders := cl_holders s - 1\<rparr>"

definition emit_lifecycle :: "callbacks \<Rightarrow> (client \<Rightarrow> client) \<Rightarrow> lifecycle \<Rightarrow> client \<Rightarrow> client" where
  "emit_lifecycle cb conn e s =
     (let t = s\<lparr>cl_log := cl_log s @ [e]\<rparr> in fold (react conn) (cb e t) t)"

subsection \<open>Starting an attempt\<close>

text \<open>
  The callback of \<open>reconnect-attempt\<close> runs while this attempt's promise is installed: a
  \<open>connect()\<close> in it returns that promise, or throws when the callback disconnected before, so it
  changes nothing.
\<close>

definition start_attempt :: "callbacks \<Rightarrow> client \<Rightarrow> client" where
  "start_attempt cb s0 =
     (let s = reset_peer_state s0;
          g = cl_generation s + 1;
          t = (set_attempt g \<lparr>at_settled = False, at_deadline = True, at_peer = False, at_phase = Not_opened,
                 at_result = None\<rparr> s)\<lparr>cl_generation := g, cl_current := Some g, cl_promise := Some g,
                 cl_peer_failed := False\<rparr>;
          u = (if cl_demand t then emit_lifecycle cb (\<lambda>s. s) (Reconnect_attempt (cl_retry_attempt t + 1)) t else t) in
      if cl_demand t \<and> (at_settled (attempt_of g u) \<or> \<not> owns_attempt g u) then u
      else set_attempt g ((attempt_of g u)\<lparr>at_phase := Bootstrapping\<rparr>) u)"

definition connect :: "callbacks \<Rightarrow> client \<Rightarrow> client" where
  "connect cb s =
     (if cl_disconnected s then s
      else if cl_channel s = Channel_open \<and> cl_peer s \<noteq> None \<and> cl_ready s then s
      else if cl_promise s \<noteq> None then s
      else start_attempt cb (cancel_retry_timer s))"

subsection \<open>Ending an attempt\<close>

definition complete_attempt :: "nat \<Rightarrow> client \<Rightarrow> client" where
  "complete_attempt g s0 =
     (if at_settled (attempt_of g s0) then s0
      else
        let s = clear_attempt_deadline g (set_attempt g ((attempt_of g s0)\<lparr>at_settled := True\<rparr>) s0);
            t = s\<lparr>cl_promise := (if cl_promise s = Some g then None else cl_promise s)\<rparr>;
            u = (if owns_attempt g t then cancel_retry_timer (t\<lparr>cl_retry_attempt := 0, cl_demand := False\<rparr>) else t) in
        settle_promise g None u)"

definition retry_delay :: "nat \<Rightarrow> nat" where
  "retry_delay n = min (INITIAL_DELAY_MS * 2 ^ (n - 1)) MAX_DELAY_MS"

definition schedule_retry :: "callbacks \<Rightarrow> client \<Rightarrow> client" where
  "schedule_retry cb s =
     (if cl_retry_timer s \<or> cl_disconnected s then s
      else let n = cl_retry_attempt s + 1 in
        emit_lifecycle cb (connect cb) (Reconnect_scheduled n (retry_delay n))
          (s\<lparr>cl_retry_attempt := n, cl_retry_timer := True\<rparr>))"

definition fail_attempt :: "callbacks \<Rightarrow> nat \<Rightarrow> failure \<Rightarrow> bool option \<Rightarrow> client \<Rightarrow> client" where
  "fail_attempt cb g f override s0 =
     (if at_settled (attempt_of g s0) then s0
      else
        let s = clear_attempt_deadline g (set_attempt g ((attempt_of g s0)\<lparr>at_settled := True\<rparr>) s0) in
        if owns_attempt g s then
          let demand = (case override of Some d \<Rightarrow> d | None \<Rightarrow> cl_demand s \<or> has_reconnect_demand s);
              t = s\<lparr>cl_current := None, cl_promise := (if cl_promise s = Some g then None else cl_promise s)\<rparr>;
              u = settle_promise g (Some f) (fails_pending f None (close_attempt_resources g (reset_peer_state t))) in
          if demand \<and> \<not> cl_disconnected u then schedule_retry cb (u\<lparr>cl_demand := True\<rparr>) else u
        else settle_promise g (Some f) (close_attempt_resources g s))"

subsection \<open>Losing the peer\<close>

definition capture_reconnect_demand :: "client \<Rightarrow> bool \<times> client" where
  "capture_reconnect_demand s =
     (let demand = (cl_demand s \<or> has_reconnect_demand s) in
      (demand, if demand \<and> \<not> cl_disconnected s then s\<lparr>cl_demand := True\<rparr> else s))"

definition handle_transport_closed :: "callbacks \<Rightarrow> failure \<Rightarrow> bool \<Rightarrow> nat \<Rightarrow> client \<Rightarrow> client" where
  "handle_transport_closed cb f should_reconnect g s =
     (if g \<noteq> cl_generation s then fails_pending f (Some g) s
      else
        let unsettled = (case cl_current s of None \<Rightarrow> None
              | Some c \<Rightarrow> if at_settled (attempt_of c s) then None else Some c) in
        case unsettled of
          Some c \<Rightarrow> fail_attempt cb c f (Some (should_reconnect \<or> cl_demand s)) s
        | None \<Rightarrow>
            let t = fails_pending f None (reset_peer_state s) in
            if \<not> cl_disconnected t \<and> (should_reconnect \<or> cl_demand t)
            then t\<lparr>cl_demand := True, cl_recoveries := cl_recoveries t + 1\<rparr>
            else t)"

text \<open>The demand is captured before the lifecycle callbacks run.\<close>

definition lose_peer :: "callbacks \<Rightarrow> lifecycle \<Rightarrow> failure \<Rightarrow> nat \<Rightarrow> client \<Rightarrow> client" where
  "lose_peer cb e f g s =
     (let (should, t) = capture_reconnect_demand s in
      handle_transport_closed cb f should g (emit_lifecycle cb (connect cb) e t))"

definition fail_peer :: "callbacks \<Rightarrow> nat \<Rightarrow> failure \<Rightarrow> client \<Rightarrow> client" where
  "fail_peer cb g f s =
     (if g \<noteq> cl_generation s \<or> cl_peer_failed s then s
      else lose_peer cb Data_channel_error f g (s\<lparr>cl_peer_failed := True\<rparr>))"

text \<open>The listeners of the data channel act for the published peer of the current generation only.\<close>

definition is_current_peer :: "nat \<Rightarrow> client \<Rightarrow> bool" where
  "is_current_peer g s \<longleftrightarrow> g = cl_generation s \<and> cl_peer s = Some g"

definition channel_opens :: "callbacks \<Rightarrow> nat \<Rightarrow> client \<Rightarrow> client" where
  "channel_opens cb g s =
     (if \<not> is_current_peer g s then s
      else emit_lifecycle cb (connect cb) Data_channel_open (s\<lparr>cl_channel := Channel_open\<rparr>))"

definition channel_closes :: "callbacks \<Rightarrow> nat \<Rightarrow> client \<Rightarrow> client" where
  "channel_closes cb g s =
     (if \<not> is_current_peer g s then s
      else lose_peer cb Data_channel_closed (Webrtc_failure Transport [L ''local WebRTC data channel closed'']) g
        (s\<lparr>cl_channel := Channel_closed\<rparr>))"

definition channel_errors :: "callbacks \<Rightarrow> nat \<Rightarrow> client \<Rightarrow> client" where
  "channel_errors cb g s =
     (if \<not> is_current_peer g s then s
      else lose_peer cb Data_channel_error (Webrtc_failure Transport [L ''local WebRTC data channel failed'']) g s)"

definition recover_connection :: "callbacks \<Rightarrow> client \<Rightarrow> client" where
  "recover_connection cb s =
     (if cl_recoveries s = 0 then s
      else let t = s\<lparr>cl_recoveries := cl_recoveries s - 1\<rparr> in
        if cl_disconnected t \<or> \<not> cl_demand t then t else connect cb t)"

definition retry_fires :: "callbacks \<Rightarrow> client \<Rightarrow> client" where
  "retry_fires cb s =
     (if \<not> cl_retry_timer s then s
      else let t = s\<lparr>cl_retry_timer := False\<rparr> in
        if cl_disconnected t \<or> \<not> cl_demand t then t else connect cb t)"

definition attempt_timeout :: failure where
  "attempt_timeout = Webrtc_failure Transport
     [L ''local WebRTC connection attempt timed out after '', N ATTEMPT_TIMEOUT_MS, L '' ms'']"

definition deadline_fires :: "callbacks \<Rightarrow> nat \<Rightarrow> client \<Rightarrow> client" where
  "deadline_fires cb g s =
     (if \<not> at_deadline (attempt_of g s) then s
      else fail_attempt cb g attempt_timeout None (clear_attempt_deadline g s))"

subsection \<open>The phases of open\<close>

text \<open>What the awaited call of a phase did.\<close>

datatype open_outcome =
    Went_well
  | Threw string
  | Peer_throws string
  | Channel_throws string
  | Http_status nat
  | No_answer
  | Hello_rejected failure
  | Hello_acked bool

definition set_phase_of :: "nat \<Rightarrow> open_phase \<Rightarrow> client \<Rightarrow> client" where
  "set_phase_of g p s = set_attempt g ((attempt_of g s)\<lparr>at_phase := p\<rparr>) s"

definition open_throws :: "nat \<Rightarrow> failure \<Rightarrow> client \<Rightarrow> client" where
  "open_throws g f s = set_phase_of g (Open_done (Some f)) s"

definition stale_attempt_failure :: failure where
  "stale_attempt_failure = Webrtc_failure Transport [L ''local WebRTC connection attempt was superseded'']"

text \<open>The ownership check after an await.\<close>

definition proceed :: "nat \<Rightarrow> (client \<Rightarrow> client) \<Rightarrow> client \<Rightarrow> client" where
  "proceed g k s = (if owns_attempt g s then k s else open_throws g stale_attempt_failure s)"

text \<open>The peer and its channel are created, and published while the attempt owns the client.\<close>

definition create_peer :: "nat \<Rightarrow> open_outcome \<Rightarrow> client \<Rightarrow> client" where
  "create_peer g out s =
     (case out of
        Peer_throws m \<Rightarrow> open_throws g (Webrtc_failure Transport [L ''local WebRTC peer connection failed: '', L m]) s
      | _ \<Rightarrow>
          let t = (set_attempt g ((attempt_of g s)\<lparr>at_peer := True\<rparr>) s)\<lparr>cl_open_peers := cl_open_peers s @ [g]\<rparr> in
          (case out of
             Channel_throws m \<Rightarrow>
               open_throws g (Webrtc_failure Transport [L ''local WebRTC data channel creation failed: '', L m]) t
           | _ \<Rightarrow> set_phase_of g Offering (t\<lparr>cl_peer := Some g, cl_channel := Connecting\<rparr>)))"

definition send_hello :: "nat \<Rightarrow> client \<Rightarrow> client" where
  "send_hello g s =
     (if cl_peer s \<noteq> Some g \<or> cl_channel s \<noteq> Channel_open
      then open_throws g (Webrtc_failure Transport [L ''local WebRTC data channel is not open'']) s
      else set_phase_of g Awaiting_hello s)"

definition hello_acked :: "callbacks \<Rightarrow> bool \<Rightarrow> nat \<Rightarrow> client \<Rightarrow> client" where
  "hello_acked cb compatible g s =
     (if \<not> owns_attempt g s
      then open_throws g (Webrtc_failure Transport
        [L ''local WebRTC hello ack arrived for a superseded attempt'']) s
      else let t = emit_lifecycle cb (connect cb) (Hello_acknowledged compatible) s in
        if \<not> owns_attempt g t
        then open_throws g (Webrtc_failure Transport
          [L ''local WebRTC attempt was cancelled during the hello-ack callback'']) t
        else set_phase_of g Hello_accepted
          (if cl_ready t then t
           else emit_lifecycle cb (connect cb) Encrypted_stream_ready (t\<lparr>cl_ready := True\<rparr>)))"

definition open_step :: "callbacks \<Rightarrow> nat \<Rightarrow> open_outcome \<Rightarrow> client \<Rightarrow> client" where
  "open_step cb g out s =
     (let transport = (\<lambda>m e. open_throws g (Webrtc_failure Transport [L m, L e]) s) in
      case at_phase (attempt_of g s) of
        Bootstrapping \<Rightarrow> proceed g (set_phase_of g Importing_key) s
      | Importing_key \<Rightarrow>
          (case out of
             Threw m \<Rightarrow> open_throws g (Webrtc_failure Bootstrap
               [L ''local WebRTC bootstrap grant is invalid: '', L m]) s
           | _ \<Rightarrow> proceed g (create_peer g out) s)
      | Offering \<Rightarrow>
          (case out of
             Threw m \<Rightarrow> transport ''local WebRTC offer creation failed: '' m
           | _ \<Rightarrow> proceed g (set_phase_of g Gathering) s)
      | Gathering \<Rightarrow> proceed g (set_phase_of g Fetching) s
      | Fetching \<Rightarrow>
          proceed g (case out of
             Threw m \<Rightarrow> open_throws g (Webrtc_failure Signaling
               [L ''local WebRTC signaling request failed: '', L m])
           | Http_status n \<Rightarrow> open_throws g (Webrtc_failure Signaling
               [L ''local WebRTC signaling failed with HTTP '', N n])
           | _ \<Rightarrow> set_phase_of g Reading_reply) s
      | Reading_reply \<Rightarrow>
          (case out of
             Threw m \<Rightarrow> open_throws g (Thrown m) s
           | No_answer \<Rightarrow> proceed g (open_throws g (Webrtc_failure Signaling
               [L ''local WebRTC signaling response did not include an answer''])) s
           | _ \<Rightarrow> proceed g (set_phase_of g Connecting_peer) s)
      | Connecting_peer \<Rightarrow>
          proceed g (case out of
             Threw m \<Rightarrow> open_throws g (Webrtc_failure Transport [L ''local WebRTC transport failed: '', L m])
           | _ \<Rightarrow> send_hello g) s
      | Awaiting_hello \<Rightarrow>
          (case out of
             Hello_rejected f \<Rightarrow> open_throws g f s
           | Hello_acked compatible \<Rightarrow> hello_acked cb compatible g s
           | _ \<Rightarrow> s)
      | Hello_accepted \<Rightarrow> proceed g (set_phase_of g (Open_done None)) s
      | _ \<Rightarrow> s)"

text \<open>The handlers of \<open>open(attempt).then(\<dots>)\<close>.\<close>

definition attempt_settles :: "callbacks \<Rightarrow> nat \<Rightarrow> client \<Rightarrow> client" where
  "attempt_settles cb g s =
     (case at_phase (attempt_of g s) of
        Open_done None \<Rightarrow> complete_attempt g (set_phase_of g Attempt_over s)
      | Open_done (Some f) \<Rightarrow> fail_attempt cb g f None (set_phase_of g Attempt_over s)
      | _ \<Rightarrow> s)"

subsection \<open>Events\<close>

datatype client_event =
    Connect_call
  | Disconnect_call
  | Hold_subscription
  | Release_subscription
  | Open_step nat open_outcome
  | Attempt_settles nat
  | Deadline_fires nat
  | Retry_fires
  | Recovery_runs
  | Channel_opens nat
  | Channel_begins_closing nat
  | Channel_closes nat
  | Channel_fails nat
  | Peer_generation_fails nat failure

fun client_step :: "callbacks \<Rightarrow> client_event \<Rightarrow> client \<Rightarrow> client" where
  "client_step cb Connect_call s = connect cb s"
| "client_step cb Disconnect_call s = disconnect s"
| "client_step cb Hold_subscription s = s\<lparr>cl_holders := cl_holders s + 1\<rparr>"
| "client_step cb Release_subscription s = s\<lparr>cl_holders := cl_holders s - 1\<rparr>"
| "client_step cb (Open_step g out) s = open_step cb g out s"
| "client_step cb (Attempt_settles g) s = attempt_settles cb g s"
| "client_step cb (Deadline_fires g) s = deadline_fires cb g s"
| "client_step cb Retry_fires s = retry_fires cb s"
| "client_step cb Recovery_runs s = recover_connection cb s"
| "client_step cb (Channel_opens g) s = channel_opens cb g s"
| "client_step cb (Channel_begins_closing g) s =
     (if is_current_peer g s then s\<lparr>cl_channel := Channel_closing\<rparr> else s)"
| "client_step cb (Channel_closes g) s = channel_closes cb g s"
| "client_step cb (Channel_fails g) s = channel_errors cb g s"
| "client_step cb (Peer_generation_fails g f) s = fail_peer cb g f s"

definition run_client :: "callbacks \<Rightarrow> client_event list \<Rightarrow> client" where
  "run_client cb es = fold (client_step cb) es new_client"

end
