(* ===== verification/Connection_Laws.thy ===== *)
theory Connection_Laws
  imports Connection_Attempts
begin

text \<open>
  The laws of connection attempts. At any moment at most one attempt is unsettled, it owns the
  client and its deadline is armed; a peer connection that is still open belongs to the current
  generation; and while reconnection is demanded something is under way that brings it about: an
  attempt, the retry timer or a queued recovery. Lifecycle callbacks are arbitrary throughout.
\<close>

subsection \<open>The invariant\<close>

abbreviation unsettled :: "nat \<Rightarrow> client \<Rightarrow> bool" where
  "unsettled g s \<equiv> \<not> at_settled (attempt_of g s)"

definition known :: "nat \<Rightarrow> client \<Rightarrow> bool" where
  "known g s \<longleftrightarrow> map_of (cl_attempts s) g \<noteq> None"

definition attempt_ok :: "client \<Rightarrow> nat \<Rightarrow> bool" where
  "attempt_ok s g \<longleftrightarrow>
     (if unsettled g s
      then cl_current s = Some g \<and> cl_promise s = Some g \<and> at_deadline (attempt_of g s)
        \<and> at_result (attempt_of g s) = None
      else \<not> at_deadline (attempt_of g s) \<and> (known g s \<longrightarrow> at_result (attempt_of g s) \<noteq> None))"

lemma attempt_ok_settled:
  "at_settled (attempt_of g s) \<Longrightarrow> attempt_ok s g
     = (\<not> at_deadline (attempt_of g s) \<and> (known g s \<longrightarrow> at_result (attempt_of g s) \<noteq> None))"
  by (simp add: attempt_ok_def)

definition attempts_ok :: "client \<Rightarrow> bool" where
  "attempts_ok s \<longleftrightarrow> (\<forall>g. attempt_ok s g)
     \<and> (\<forall>g. cl_promise s = Some g \<longrightarrow> unsettled g s)
     \<and> (\<forall>g. cl_current s = Some g \<longrightarrow> g = cl_generation s \<and> \<not> cl_disconnected s
          \<and> (at_settled (attempt_of g s) \<longrightarrow> at_phase (attempt_of g s) = Attempt_over))
     \<and> (\<forall>g. known g s \<longrightarrow> g \<le> cl_generation s)"

definition peers_ok :: "client \<Rightarrow> bool" where
  "peers_ok s \<longleftrightarrow> (\<forall>g. cl_peer s = Some g \<longrightarrow> g = cl_generation s)
     \<and> (\<forall>g \<in> set (cl_open_peers s). g = cl_generation s
          \<and> (cl_peer s = Some g \<or> unsettled g s \<and> at_peer (attempt_of g s)))"

text \<open>An attempt that created its peer has published it, unless the creation failed half way.\<close>

definition published :: "client \<Rightarrow> bool" where
  "published s \<longleftrightarrow> (\<forall>g. unsettled g s \<and> at_peer (attempt_of g s)
     \<longrightarrow> cl_peer s = Some g \<or> (\<exists>f. at_phase (attempt_of g s) = Open_done (Some f)))"

definition timers_ok :: "client \<Rightarrow> bool" where
  "timers_ok s \<longleftrightarrow> (cl_retry_timer s \<longrightarrow> cl_demand s \<and> cl_promise s = None \<and> \<not> cl_ready s)
     \<and> (cl_disconnected s \<longrightarrow> \<not> cl_demand s \<and> \<not> cl_retry_timer s \<and> cl_promise s = None \<and> cl_current s = None)"

definition client_ok :: "client \<Rightarrow> bool" where
  "client_ok s \<longleftrightarrow> attempts_ok s \<and> peers_ok s \<and> published s \<and> timers_ok s"

text \<open>Something is under way, and a client that is ready owes nothing.\<close>

definition lively :: "client \<Rightarrow> bool" where
  "lively s \<longleftrightarrow> (cl_demand s \<and> \<not> cl_disconnected s
       \<longrightarrow> cl_promise s \<noteq> None \<or> cl_retry_timer s \<or> 0 < cl_recoveries s)
     \<and> (cl_demand s \<and> cl_ready s \<longrightarrow> cl_promise s \<noteq> None)"

lemma attempt_of_set [simp]: "attempt_of h (set_attempt g a s) = (if h = g then a else attempt_of h s)"
  by (simp add: attempt_of_def set_attempt_def update_conv')

lemma set_attempt_last [simp]: "set_attempt g a (set_attempt g b s) = set_attempt g a s"
  by (simp add: set_attempt_def)

lemma set_attempt_fields [simp]:
  "cl_generation (set_attempt g a s) = cl_generation s" "cl_current (set_attempt g a s) = cl_current s"
  "cl_promise (set_attempt g a s) = cl_promise s" "cl_retry_timer (set_attempt g a s) = cl_retry_timer s"
  "cl_retry_attempt (set_attempt g a s) = cl_retry_attempt s" "cl_demand (set_attempt g a s) = cl_demand s"
  "cl_holders (set_attempt g a s) = cl_holders s" "cl_disconnected (set_attempt g a s) = cl_disconnected s"
  "cl_peer (set_attempt g a s) = cl_peer s" "cl_channel (set_attempt g a s) = cl_channel s"
  "cl_ready (set_attempt g a s) = cl_ready s" "cl_peer_failed (set_attempt g a s) = cl_peer_failed s"
  "cl_recoveries (set_attempt g a s) = cl_recoveries s" "cl_open_peers (set_attempt g a s) = cl_open_peers s"
  "cl_log (set_attempt g a s) = cl_log s"
  "known h (set_attempt g a s) = (h = g \<or> known h s)"
  by (auto simp: set_attempt_def update_conv' known_def)

lemma unsettled_known: "unsettled g s \<Longrightarrow> known g s"
  by (auto simp: attempt_of_def known_def no_attempt_def split: option.splits)

lemma attempt_of_update [simp]:
  "attempt_of h (s\<lparr>cl_generation := n\<rparr>) = attempt_of h s" "attempt_of h (s\<lparr>cl_current := c\<rparr>) = attempt_of h s"
  "attempt_of h (s\<lparr>cl_promise := c\<rparr>) = attempt_of h s" "attempt_of h (s\<lparr>cl_retry_timer := b\<rparr>) = attempt_of h s"
  "attempt_of h (s\<lparr>cl_retry_attempt := n\<rparr>) = attempt_of h s" "attempt_of h (s\<lparr>cl_demand := b\<rparr>) = attempt_of h s"
  "attempt_of h (s\<lparr>cl_holders := n\<rparr>) = attempt_of h s" "attempt_of h (s\<lparr>cl_disconnected := b\<rparr>) = attempt_of h s"
  "attempt_of h (s\<lparr>cl_peer := c\<rparr>) = attempt_of h s" "attempt_of h (s\<lparr>cl_channel := ch\<rparr>) = attempt_of h s"
  "attempt_of h (s\<lparr>cl_ready := b\<rparr>) = attempt_of h s" "attempt_of h (s\<lparr>cl_peer_failed := b\<rparr>) = attempt_of h s"
  "attempt_of h (s\<lparr>cl_recoveries := n\<rparr>) = attempt_of h s" "attempt_of h (s\<lparr>cl_open_peers := ps\<rparr>) = attempt_of h s"
  "attempt_of h (s\<lparr>cl_failed_pending := fs\<rparr>) = attempt_of h s" "attempt_of h (s\<lparr>cl_log := l\<rparr>) = attempt_of h s"
  by (simp_all add: attempt_of_def)

lemma known_update [simp]:
  "known h (s\<lparr>cl_generation := n\<rparr>) = known h s" "known h (s\<lparr>cl_current := c\<rparr>) = known h s"
  "known h (s\<lparr>cl_promise := c\<rparr>) = known h s" "known h (s\<lparr>cl_retry_timer := b\<rparr>) = known h s"
  "known h (s\<lparr>cl_retry_attempt := n\<rparr>) = known h s" "known h (s\<lparr>cl_demand := b\<rparr>) = known h s"
  "known h (s\<lparr>cl_holders := n\<rparr>) = known h s" "known h (s\<lparr>cl_disconnected := b\<rparr>) = known h s"
  "known h (s\<lparr>cl_peer := c\<rparr>) = known h s" "known h (s\<lparr>cl_channel := ch\<rparr>) = known h s"
  "known h (s\<lparr>cl_ready := b\<rparr>) = known h s" "known h (s\<lparr>cl_peer_failed := b\<rparr>) = known h s"
  "known h (s\<lparr>cl_recoveries := n\<rparr>) = known h s" "known h (s\<lparr>cl_open_peers := ps\<rparr>) = known h s"
  "known h (s\<lparr>cl_failed_pending := fs\<rparr>) = known h s" "known h (s\<lparr>cl_log := l\<rparr>) = known h s"
  by (simp_all add: known_def)

subsection \<open>Operations\<close>

lemma release_simps [simp]:
  "attempt_of h (reset_peer_state s) = attempt_of h s" "known h (reset_peer_state s) = known h s"
  "attempt_of h (cancel_retry_timer s) = attempt_of h s" "known h (cancel_retry_timer s) = known h s"
  "attempt_of h (fails_pending f gen s) = attempt_of h s" "known h (fails_pending f gen s) = known h s"
  "attempt_of h (close_attempt_resources g s) = (if h = g then (attempt_of g s)\<lparr>at_peer := False\<rparr> else attempt_of h s)"
  "known h (close_attempt_resources g s) = (h = g \<or> known h s)"
  by (simp_all add: reset_peer_state_def cancel_retry_timer_def fails_pending_def close_attempt_resources_def Let_def)

lemma release_fields [simp]:
  "cl_generation (close_attempt_resources g s) = cl_generation s" "cl_current (close_attempt_resources g s) = cl_current s"
  "cl_promise (close_attempt_resources g s) = cl_promise s" "cl_retry_timer (close_attempt_resources g s) = cl_retry_timer s"
  "cl_retry_attempt (close_attempt_resources g s) = cl_retry_attempt s" "cl_demand (close_attempt_resources g s) = cl_demand s"
  "cl_holders (close_attempt_resources g s) = cl_holders s" "cl_disconnected (close_attempt_resources g s) = cl_disconnected s"
  "cl_channel (close_attempt_resources g s) = cl_channel s" "cl_peer_failed (close_attempt_resources g s) = cl_peer_failed s"
  "cl_recoveries (close_attempt_resources g s) = cl_recoveries s" "cl_log (close_attempt_resources g s) = cl_log s"
  "cl_ready (close_attempt_resources g s) = cl_ready s" "cl_generation (reset_peer_state s) = cl_generation s"
  "cl_current (reset_peer_state s) = cl_current s" "cl_promise (reset_peer_state s) = cl_promise s"
  "cl_retry_timer (reset_peer_state s) = cl_retry_timer s" "cl_retry_attempt (reset_peer_state s) = cl_retry_attempt s"
  "cl_demand (reset_peer_state s) = cl_demand s" "cl_holders (reset_peer_state s) = cl_holders s"
  "cl_disconnected (reset_peer_state s) = cl_disconnected s" "cl_channel (reset_peer_state s) = cl_channel s"
  "cl_peer_failed (reset_peer_state s) = cl_peer_failed s" "cl_recoveries (reset_peer_state s) = cl_recoveries s"
  "cl_log (reset_peer_state s) = cl_log s" "cl_generation (fails_pending f gen s) = cl_generation s"
  "cl_current (fails_pending f gen s) = cl_current s" "cl_promise (fails_pending f gen s) = cl_promise s"
  "cl_retry_timer (fails_pending f gen s) = cl_retry_timer s" "cl_retry_attempt (fails_pending f gen s) = cl_retry_attempt s"
  "cl_demand (fails_pending f gen s) = cl_demand s" "cl_holders (fails_pending f gen s) = cl_holders s"
  "cl_disconnected (fails_pending f gen s) = cl_disconnected s" "cl_channel (fails_pending f gen s) = cl_channel s"
  "cl_peer_failed (fails_pending f gen s) = cl_peer_failed s" "cl_recoveries (fails_pending f gen s) = cl_recoveries s"
  "cl_log (fails_pending f gen s) = cl_log s" "cl_ready (fails_pending f gen s) = cl_ready s"
  "cl_peer (fails_pending f gen s) = cl_peer s" "cl_open_peers (fails_pending f gen s) = cl_open_peers s"
  "cl_generation (cancel_retry_timer s) = cl_generation s" "cl_current (cancel_retry_timer s) = cl_current s"
  "cl_promise (cancel_retry_timer s) = cl_promise s" "cl_retry_attempt (cancel_retry_timer s) = cl_retry_attempt s"
  "cl_demand (cancel_retry_timer s) = cl_demand s" "cl_holders (cancel_retry_timer s) = cl_holders s"
  "cl_disconnected (cancel_retry_timer s) = cl_disconnected s" "cl_channel (cancel_retry_timer s) = cl_channel s"
  "cl_peer_failed (cancel_retry_timer s) = cl_peer_failed s" "cl_recoveries (cancel_retry_timer s) = cl_recoveries s"
  "cl_log (cancel_retry_timer s) = cl_log s" "cl_ready (cancel_retry_timer s) = cl_ready s"
  "cl_peer (cancel_retry_timer s) = cl_peer s" "cl_open_peers (cancel_retry_timer s) = cl_open_peers s"
  "cl_retry_timer (cancel_retry_timer s) = False" "cl_peer (reset_peer_state s) = None"
  "cl_ready (reset_peer_state s) = False"
  by (simp_all add: reset_peer_state_def cancel_retry_timer_def fails_pending_def close_attempt_resources_def Let_def)

lemma settle_promise_simps [simp]:
  "cl_generation (settle_promise g r s) = cl_generation s"
  "cl_current (settle_promise g r s) = cl_current s"
  "cl_promise (settle_promise g r s) = cl_promise s"
  "cl_retry_timer (settle_promise g r s) = cl_retry_timer s"
  "cl_retry_attempt (settle_promise g r s) = cl_retry_attempt s"
  "cl_demand (settle_promise g r s) = cl_demand s"
  "cl_holders (settle_promise g r s) = cl_holders s"
  "cl_disconnected (settle_promise g r s) = cl_disconnected s"
  "cl_channel (settle_promise g r s) = cl_channel s"
  "cl_peer_failed (settle_promise g r s) = cl_peer_failed s"
  "cl_recoveries (settle_promise g r s) = cl_recoveries s"
  "cl_log (settle_promise g r s) = cl_log s"
  "cl_ready (settle_promise g r s) = cl_ready s"
  "cl_peer (settle_promise g r s) = cl_peer s"
  "cl_open_peers (settle_promise g r s) = cl_open_peers s"
  "known h (settle_promise g r s) = (h = g \<or> known h s)"
  by (simp_all add: settle_promise_def Let_def)

lemma unsettled_current: "attempts_ok s \<Longrightarrow> unsettled g s \<Longrightarrow> cl_current s = Some g \<and> cl_promise s = Some g \<and> g = cl_generation s"
  by (metis attempts_ok_def attempt_ok_def)

text \<open>A client with no unsettled attempt and no open peer.\<close>

definition at_rest :: "client \<Rightarrow> bool" where
  "at_rest s \<longleftrightarrow> (\<forall>g. at_settled (attempt_of g s) \<and> \<not> at_deadline (attempt_of g s)
       \<and> (known g s \<longrightarrow> at_result (attempt_of g s) \<noteq> None)) \<and> cl_promise s = None \<and> cl_peer s = None \<and> cl_open_peers s = []
     \<and> (\<forall>g. cl_current s = Some g \<longrightarrow> g = cl_generation s \<and> \<not> cl_disconnected s
          \<and> (at_settled (attempt_of g s) \<longrightarrow> at_phase (attempt_of g s) = Attempt_over))
     \<and> (\<forall>g. known g s \<longrightarrow> g \<le> cl_generation s)"

lemma at_rest_ok: "at_rest s \<Longrightarrow> timers_ok s \<Longrightarrow> client_ok s"
  by (simp add: at_rest_def client_ok_def attempts_ok_def attempt_ok_def peers_ok_def published_def)

text \<open>The attempt \<open>g\<close> of \<open>s\<close> is settled and nothing else changed.\<close>

definition ends :: "nat \<Rightarrow> client \<Rightarrow> client \<Rightarrow> bool" where
  "ends g s t \<longleftrightarrow> (\<forall>h. h \<noteq> g \<longrightarrow> attempt_of h t = attempt_of h s) \<and> (\<forall>h. known h t = known h s)
     \<and> at_settled (attempt_of g t) \<and> \<not> at_deadline (attempt_of g t) \<and> at_result (attempt_of g t) \<noteq> None
     \<and> cl_generation t = cl_generation s"

lemma ends_at_rest:
  assumes "attempts_ok s" "unsettled g s" "ends g s t" "cl_promise t = None" "cl_current t = None"
    "cl_peer t = None" "cl_open_peers t = []"
  shows "at_rest t"
proof -
  have "at_settled (attempt_of h t) \<and> \<not> at_deadline (attempt_of h t)
      \<and> (known h t \<longrightarrow> at_result (attempt_of h t) \<noteq> None)" for h
  proof (cases "h = g")
    case False
    then have "\<not> unsettled h s" using unsettled_current [OF assms(1)] assms(2) by (metis option.inject)
    moreover have "attempt_ok s h" using assms(1) by (simp add: attempts_ok_def)
    ultimately show ?thesis using assms(3) False by (simp add: ends_def attempt_ok_def)
  qed (use assms(3) in \<open>simp add: ends_def attempt_ok_def\<close>)
  then show ?thesis using assms by (auto simp: at_rest_def attempts_ok_def ends_def)
qed

lemma open_peers_of_current:
  assumes "peers_ok s" "attempts_ok s" "p \<in> set (cl_open_peers s)" "cl_peer s \<noteq> Some p"
  shows "unsettled p s \<and> at_peer (attempt_of p s) \<and> cl_current s = Some p"
  using assms unsettled_current [OF assms(2)] by (auto simp: peers_ok_def)

text \<open>Closing the attempt's own resources and the published peer leaves none open.\<close>

lemma all_closed:
  assumes "peers_ok s" "attempts_ok s" "unsettled g s"
    "cl_peer t = cl_peer s" "cl_open_peers t = cl_open_peers s" "at_peer (attempt_of g t) = at_peer (attempt_of g s)"
  shows "cl_open_peers (close_attempt_resources g (reset_peer_state t)) = []"
    "cl_open_peers (reset_peer_state (close_attempt_resources g t)) = []"
proof -
  have p: "p = g" "cl_peer s = Some g \<or> at_peer (attempt_of g s)" if "p \<in> set (cl_open_peers s)" for p
    using that assms(1) unsettled_current [OF assms(2,3)] by (auto simp: peers_ok_def)
  show "cl_open_peers (close_attempt_resources g (reset_peer_state t)) = []"
  proof (rule ccontr)
    assume "cl_open_peers (close_attempt_resources g (reset_peer_state t)) \<noteq> []"
    then obtain q where "q \<in> set (cl_open_peers (close_attempt_resources g (reset_peer_state t)))" by (meson list.set_sel(1))
    then show False using p [of q] assms(4-6)
      by (simp add: close_attempt_resources_def reset_peer_state_def Let_def split: option.splits if_splits)
  qed
  show "cl_open_peers (reset_peer_state (close_attempt_resources g t)) = []"
  proof (rule ccontr)
    assume "cl_open_peers (reset_peer_state (close_attempt_resources g t)) \<noteq> []"
    then obtain q where "q \<in> set (cl_open_peers (reset_peer_state (close_attempt_resources g t)))" by (meson list.set_sel(1))
    then show False using p [of q] assms(4-6)
      by (simp add: close_attempt_resources_def reset_peer_state_def Let_def split: option.splits if_splits)
  qed
qed

lemma reset_at_rest:
  assumes "peers_ok s" "attempts_ok s" "cl_promise s = None"
  shows "at_rest (reset_peer_state s)"
proof -
  have u: "\<not> unsettled g s" for g using unsettled_current [OF assms(2)] assms(3) by fastforce
  then have "p \<in> set (cl_open_peers s) \<Longrightarrow> cl_peer s = Some p" for p using assms(1) by (auto simp: peers_ok_def)
  then have p: "p \<in> set (cl_open_peers s) \<Longrightarrow> cl_peer s = Some p" for p .
  have "cl_open_peers (reset_peer_state s) = []"
  proof (rule ccontr)
    assume "cl_open_peers (reset_peer_state s) \<noteq> []"
    then obtain q where "q \<in> set (cl_open_peers (reset_peer_state s))" by (meson list.set_sel(1))
    then show False using p [of q] by (simp add: reset_peer_state_def split: option.splits if_splits)
  qed
  moreover have "cl_peer (reset_peer_state s) = None" "cl_promise (reset_peer_state s) = None"
    "cl_current (reset_peer_state s) = cl_current s" "cl_generation (reset_peer_state s) = cl_generation s"
    "cl_disconnected (reset_peer_state s) = cl_disconnected s"
    using assms(3) by (simp_all add: reset_peer_state_def)
  ultimately show ?thesis using assms(2) u by (simp add: at_rest_def attempts_ok_def attempt_ok_def)
qed

subsection \<open>Disconnecting\<close>

lemma disconnect_fields:
  "cl_disconnected (disconnect s)" "cl_current (disconnect s) = None" "cl_promise (disconnect s) = None"
  "\<not> cl_retry_timer (disconnect s)" "\<not> cl_demand (disconnect s)" "\<not> cl_ready (disconnect s)"
  "cl_peer (disconnect s) = None" "cl_generation (disconnect s) = cl_generation s"
  by (auto simp: disconnect_def Let_def fails_pending_def reset_peer_state_def settle_promise_def
      close_attempt_resources_def split: option.split)


lemma ends_disconnect:
  assumes "cl_current s = Some g" "unsettled g s"
  shows "ends g s (disconnect s)"
  using assms unsettled_known [OF assms(2)]
  by (auto simp: ends_def disconnect_def Let_def settle_promise_def disconnect_fields split: option.splits)

lemma disconnect_at_rest:
  assumes "client_ok s"
  shows "at_rest (disconnect s)"
proof -
  have ok: "attempts_ok s" "peers_ok s" using assms by (simp_all add: client_ok_def)
  show ?thesis
  proof (cases "\<exists>g. cl_current s = Some g \<and> unsettled g s")
    case True
    then obtain g where g: "cl_current s = Some g" "unsettled g s" by blast
    have "cl_open_peers (disconnect s) = []"
    proof -
      let ?s = "s\<lparr>cl_disconnected := True, cl_current := None, cl_retry_timer := False, cl_demand := False\<rparr>"
      let ?t = "set_attempt g ((attempt_of g ?s)\<lparr>at_settled := True, at_deadline := False\<rparr>) ?s"
      have "cl_open_peers (disconnect s) = cl_open_peers (reset_peer_state (close_attempt_resources g ?t))"
        using g by (simp add: disconnect_def Let_def settle_promise_def reset_peer_state_def split: option.split)
      then show ?thesis using all_closed(2) [OF ok(2,1) g(2), of ?t] by simp
    qed
    then show ?thesis
      using ends_at_rest [OF ok(1) g(2) ends_disconnect [OF g]] disconnect_fields by simp
  next
    case False
    then have u: "\<not> unsettled g s" for g using unsettled_current [OF ok(1)] by blast
    then have "cl_promise s = None" using ok(1) by (auto simp: attempts_ok_def)
    note rest = reset_at_rest [OF ok(2,1) this]
    have "attempt_of h (disconnect s) = attempt_of h s" "known h (disconnect s) = known h s" for h
      using False by (auto simp: disconnect_def Let_def split: option.split)
    moreover have "cl_open_peers (disconnect s) = cl_open_peers (reset_peer_state s)"
      using False by (auto simp: disconnect_def Let_def reset_peer_state_def fails_pending_def split: option.split)
    ultimately show ?thesis
      using rest disconnect_fields [of s] by (simp add: at_rest_def attempt_ok_def)
  qed
qed

lemma disconnect_ok: "client_ok s \<Longrightarrow> client_ok (disconnect s) \<and> lively (disconnect s)"
  using disconnect_at_rest [of s] at_rest_ok [of "disconnect s"] disconnect_fields [of s]
  by (simp add: timers_ok_def lively_def)

subsection \<open>Callbacks\<close>

text \<open>
  What a callback can do from its caller's point of view: it leaves everything but the holders and
  the log alone, or afterwards an attempt is under way or the client is disconnected.
\<close>

definition brisk :: "client \<Rightarrow> bool" where
  "brisk s \<longleftrightarrow> cl_promise s \<noteq> None \<or> cl_disconnected s"

definition moves :: "client \<Rightarrow> client \<Rightarrow> bool" where
  "moves s t \<longleftrightarrow> client_ok t \<and> (brisk t \<or> (\<exists>h l. t = s\<lparr>cl_holders := h, cl_log := l\<rparr>))"

definition good :: "(client \<Rightarrow> client) \<Rightarrow> bool" where
  "good conn \<longleftrightarrow> (\<forall>s. client_ok s \<longrightarrow> moves s (conn s))"

lemma client_ok_aside [simp]: "client_ok (s\<lparr>cl_holders := h\<rparr>) = client_ok s" "client_ok (s\<lparr>cl_log := l\<rparr>) = client_ok s"
  "brisk (s\<lparr>cl_holders := h\<rparr>) = brisk s" "brisk (s\<lparr>cl_log := l\<rparr>) = brisk s"
  "lively (s\<lparr>cl_holders := h\<rparr>) = lively s" "lively (s\<lparr>cl_log := l\<rparr>) = lively s"
  by (simp_all add: client_ok_def attempts_ok_def attempt_ok_def peers_ok_def published_def timers_ok_def brisk_def lively_def)

lemma brisk_lively: "client_ok s \<Longrightarrow> brisk s \<Longrightarrow> lively s"
  by (auto simp: client_ok_def timers_ok_def brisk_def lively_def)

lemma moves_refl:
  assumes "client_ok s"
  shows "moves s s"
proof -
  have "s = s\<lparr>cl_holders := cl_holders s, cl_log := cl_log s\<rparr>" by simp
  then show ?thesis using assms unfolding moves_def by blast
qed

lemma moves_trans:
  assumes "moves s t" "moves t u"
  shows "moves s u"
proof (cases "brisk u")
  case True
  then show ?thesis using assms(2) by (simp add: moves_def)
next
  case False
  then obtain h l where u: "u = t\<lparr>cl_holders := h, cl_log := l\<rparr>" using assms(2) by (auto simp: moves_def)
  then have "\<not> brisk t" using False by simp
  then obtain h' l' where "t = s\<lparr>cl_holders := h', cl_log := l'\<rparr>" using assms(1) by (auto simp: moves_def)
  then have "u = s\<lparr>cl_holders := h, cl_log := l\<rparr>" using u by simp
  moreover have "client_ok u" using assms(2) by (simp add: moves_def)
  ultimately show ?thesis unfolding moves_def by blast
qed

lemma moves_aside:
  assumes "client_ok s"
  shows "moves s (s\<lparr>cl_holders := h\<rparr>)" "moves s (s\<lparr>cl_log := l\<rparr>)"
proof -
  have "\<exists>h' l'. s\<lparr>cl_holders := h\<rparr> = s\<lparr>cl_holders := h', cl_log := l'\<rparr>"
    by (rule exI [of _ h], rule exI [of _ "cl_log s"]) simp
  then show "moves s (s\<lparr>cl_holders := h\<rparr>)" using assms by (simp only: moves_def client_ok_aside simp_thms)
  have "\<exists>h' l'. s\<lparr>cl_log := l\<rparr> = s\<lparr>cl_holders := h', cl_log := l'\<rparr>"
    by (rule exI [of _ "cl_holders s"], rule exI [of _ l]) simp
  then show "moves s (s\<lparr>cl_log := l\<rparr>)" using assms by (simp only: moves_def client_ok_aside simp_thms)
qed

lemma moves_lively: "moves s t \<Longrightarrow> lively s \<Longrightarrow> lively t"
  by (auto simp: moves_def brisk_lively)

lemma react_moves:
  assumes "good conn" "client_ok s"
  shows "moves s (react conn r s)"
proof (cases r)
  case React_disconnect
  then show ?thesis
    using disconnect_ok [OF assms(2)] disconnect_fields(1) [of s] by (simp add: moves_def brisk_def)
qed (use assms in \<open>simp_all add: good_def moves_aside\<close>)

lemma reacts_move: "good conn \<Longrightarrow> client_ok s \<Longrightarrow> moves s (fold (react conn) rs s)"
proof (induction rs arbitrary: s)
  case (Cons r rs)
  have "moves s (react conn r s)" using Cons.prems by (rule react_moves)
  moreover have "client_ok (react conn r s)" using calculation by (simp only: moves_def)
  ultimately show ?case using Cons.IH [OF Cons.prems(1)] moves_trans by (simp only: fold_simps o_apply)
qed (simp add: moves_refl)

lemma emit_moves: "good conn \<Longrightarrow> client_ok s \<Longrightarrow> moves s (emit_lifecycle cb conn e s)"
  unfolding emit_lifecycle_def Let_def
  by (rule moves_trans [OF moves_aside(2)]) (auto intro: reacts_move)

lemma good_id: "good (\<lambda>s. s)"
  by (simp add: good_def moves_refl)

subsection \<open>Starting\<close>

lemma disconnect_phase [simp]: "at_phase (attempt_of h (disconnect s)) = at_phase (attempt_of h s)"
  "at_peer (attempt_of h (disconnect s)) \<Longrightarrow> at_peer (attempt_of h s)"
  by (auto simp: disconnect_def Let_def settle_promise_def split: option.splits if_splits)

lemma reacts_phase: "at_phase (attempt_of h (fold (react (\<lambda>s. s)) rs s)) = at_phase (attempt_of h s)"
proof (induction rs arbitrary: s)
  case (Cons r rs)
  then show ?case by (cases r) simp_all
qed simp

lemma emit_phase: "at_phase (attempt_of h (emit_lifecycle cb (\<lambda>s. s) e s)) = at_phase (attempt_of h s)"
  by (simp add: emit_lifecycle_def reacts_phase Let_def)

lemma phase_known: "at_phase (attempt_of g s) \<noteq> Attempt_over \<Longrightarrow> known g s"
  by (auto simp: attempt_of_def known_def no_attempt_def split: option.splits)

lemma set_phase_parts:
  assumes "attempts_ok s" "peers_ok s" "timers_ok s" "at_phase (attempt_of g s) \<noteq> Attempt_over"
  shows "attempts_ok (set_phase_of g p s)" "peers_ok (set_phase_of g p s)" "timers_ok (set_phase_of g p s)"
proof -
  note k = phase_known [OF assms(4)]
  have "attempt_ok s h \<Longrightarrow> attempt_ok (set_phase_of g p s) h" for h
    using k by (auto simp: attempt_ok_def set_phase_of_def split: if_splits)
  then show "attempts_ok (set_phase_of g p s)"
    using assms(1,4) k by (auto simp: attempts_ok_def set_phase_of_def)
  show "peers_ok (set_phase_of g p s)" "timers_ok (set_phase_of g p s)"
    using assms(2,3) by (simp_all add: peers_ok_def timers_ok_def set_phase_of_def)
qed

text \<open>A phase other than a failed end may be replaced by any phase.\<close>

lemma set_phase_ok:
  assumes "client_ok s" "\<And>f. at_phase (attempt_of g s) \<noteq> Open_done (Some f)"
    "at_phase (attempt_of g s) \<noteq> Attempt_over"
  shows "client_ok (set_phase_of g p s)"
proof -
  have "published (set_phase_of g p s)"
    using assms(1,2) unfolding client_ok_def published_def set_phase_of_def by simp blast
  then show ?thesis using assms(1,3) set_phase_parts [of s g p] by (simp add: client_ok_def)
qed

lemma fails_phase_ok:
  "client_ok s \<Longrightarrow> at_phase (attempt_of g s) \<noteq> Attempt_over \<Longrightarrow> client_ok (open_throws g f s)"
  using set_phase_parts [of s g] by (auto simp: client_ok_def open_throws_def published_def set_phase_of_def)

definition new_attempt_record :: attempt where
  "new_attempt_record = \<lparr>at_settled = False, at_deadline = True, at_peer = False, at_phase = Not_opened, at_result = None\<rparr>"

definition began :: "client \<Rightarrow> client" where
  "began s = (set_attempt (cl_generation s + 1) new_attempt_record s)\<lparr>cl_generation := cl_generation s + 1,
     cl_current := Some (cl_generation s + 1), cl_promise := Some (cl_generation s + 1), cl_peer_failed := False\<rparr>"

lemma began_ok:
  assumes "at_rest s" "\<not> cl_disconnected s" "\<not> cl_retry_timer s"
  shows "client_ok (began s)"
proof -
  have "\<not> known (cl_generation s + 1) s" using assms(1) by (force simp: at_rest_def)
  then have "attempt_ok (began s) h" for h
    using assms(1) by (auto simp: attempt_ok_def began_def at_rest_def new_attempt_record_def)
  then have "attempts_ok (began s)"
    using assms(1,2) by (auto simp: attempts_ok_def began_def at_rest_def new_attempt_record_def le_SucI)
  moreover have "peers_ok (began s)" "published (began s)" "timers_ok (began s)"
    using assms by (auto simp: peers_ok_def published_def timers_ok_def began_def at_rest_def new_attempt_record_def)
  ultimately show ?thesis by (simp add: client_ok_def)
qed

lemma start_attempt_form:
  fixes s :: client
  defines "t \<equiv> began (reset_peer_state s)" and "g \<equiv> cl_generation s + 1"
  obtains u where "u = (if cl_demand t then emit_lifecycle cb (\<lambda>s. s) (Reconnect_attempt (cl_retry_attempt t + 1)) t else t)"
    "start_attempt cb s = (if cl_demand t \<and> (at_settled (attempt_of g u) \<or> \<not> owns_attempt g u) then u
       else set_phase_of g Bootstrapping u)"
  by (rule that [OF refl])
    (simp add: start_attempt_def Let_def began_def new_attempt_record_def set_phase_of_def t_def g_def)

lemma start_attempt_brisk:
  assumes "client_ok s" "cl_promise s = None" "\<not> cl_disconnected s" "\<not> cl_retry_timer s"
  shows "client_ok (start_attempt cb s) \<and> brisk (start_attempt cb s)"
proof -
  let ?g = "cl_generation s + 1" and ?t = "began (reset_peer_state s)"
  obtain u where u: "u = (if cl_demand ?t then emit_lifecycle cb (\<lambda>s. s) (Reconnect_attempt (cl_retry_attempt ?t + 1)) ?t else ?t)"
    and s: "start_attempt cb s = (if cl_demand ?t \<and> (at_settled (attempt_of ?g u) \<or> \<not> owns_attempt ?g u) then u
       else set_phase_of ?g Bootstrapping u)"
    by (rule start_attempt_form)
  have t: "client_ok ?t"
    using began_ok [OF reset_at_rest] assms by (simp add: client_ok_def)
  have "moves ?t u" unfolding u using emit_moves [OF good_id t] moves_refl [OF t] by simp
  moreover have "brisk ?t" by (simp add: brisk_def began_def)
  ultimately have ok: "client_ok u" "brisk u" by (auto simp: moves_def)
  have ph: "at_phase (attempt_of ?g u) = Not_opened"
    unfolding u by (simp add: emit_phase) (simp add: began_def new_attempt_record_def)
  have "client_ok (set_phase_of ?g Bootstrapping u)" using set_phase_ok [OF ok(1)] ph by simp
  moreover have "brisk (set_phase_of ?g Bootstrapping u)" using ok(2) by (simp add: brisk_def set_phase_of_def)
  ultimately show ?thesis unfolding s using ok by simp
qed

lemma cancel_retry_ok: "client_ok s \<Longrightarrow> client_ok (cancel_retry_timer s)"
proof -
  have "attempt_ok (cancel_retry_timer s) h = attempt_ok s h" for h by (simp add: attempt_ok_def)
  then have "attempts_ok (cancel_retry_timer s) = attempts_ok s" by (simp add: attempts_ok_def)
  moreover have "peers_ok (cancel_retry_timer s) = peers_ok s" "published (cancel_retry_timer s) = published s"
    by (simp_all add: peers_ok_def published_def)
  moreover have "timers_ok s \<Longrightarrow> timers_ok (cancel_retry_timer s)" by (simp add: timers_ok_def)
  ultimately show "client_ok s \<Longrightarrow> client_ok (cancel_retry_timer s)" by (simp add: client_ok_def)
qed

lemma connect_brisk:
  assumes "client_ok s"
  shows "connect cb s = s \<or> client_ok (connect cb s) \<and> brisk (connect cb s)"
  using start_attempt_brisk [OF cancel_retry_ok [OF assms]] by (simp add: connect_def)

lemma good_connect: "good (connect cb)"
  unfolding good_def
proof (intro allI impI)
  fix s
  assume ok: "client_ok s"
  from connect_brisk [OF ok, of cb] show "moves s (connect cb s)"
  proof
    assume "connect cb s = s"
    then show ?thesis using moves_refl [OF ok] by simp
  qed (simp add: moves_def)
qed

text \<open>A client that is not ready gets an attempt.\<close>

lemma connect_starts: "client_ok s \<Longrightarrow> \<not> cl_ready s \<Longrightarrow> brisk (connect cb s)"
  using start_attempt_brisk [OF cancel_retry_ok [of s]] by (simp add: connect_def brisk_def)

subsection \<open>Ending\<close>

text \<open>An unsettled attempt owns the client.\<close>

lemma unsettled_owns: "attempts_ok s \<Longrightarrow> unsettled g s \<Longrightarrow> owns_attempt g s"
  using unsettled_current [of s g] unfolding owns_attempt_def attempts_ok_def by blast

lemma clear_deadline_fields [simp]:
  "attempt_of h (clear_attempt_deadline g s) = (if h = g then (attempt_of g s)\<lparr>at_deadline := False\<rparr> else attempt_of h s)"
  "known h (clear_attempt_deadline g s) = (h = g \<or> known h s)"
  by (simp_all add: clear_attempt_deadline_def)

lemma complete_attempt_ok:
  assumes "client_ok s" "at_phase (attempt_of g s) = Attempt_over"
  shows "client_ok (complete_attempt g s) \<and> (lively s \<longrightarrow> lively (complete_attempt g s))"
proof (cases "unsettled g s")
  case True
  have ok: "attempts_ok s" "peers_ok s" "published s" "timers_ok s" using assms(1) by (simp_all add: client_ok_def)
  note cur = unsettled_current [OF ok(1) True] and own = unsettled_owns [OF ok(1) True]
  let ?t = "complete_attempt g s"
  let ?c = "(clear_attempt_deadline g (set_attempt g ((attempt_of g s)\<lparr>at_settled := True\<rparr>) s))\<lparr>cl_promise := None\<rparr>"
  have "owns_attempt g ?c" using own by (simp add: owns_attempt_def clear_attempt_deadline_def)
  moreover have "cl_promise (clear_attempt_deadline g (set_attempt g ((attempt_of g s)\<lparr>at_settled := True\<rparr>) s)) = Some g"
    using cur by (simp add: clear_attempt_deadline_def)
  ultimately have form: "?t = settle_promise g None (cancel_retry_timer (?c\<lparr>cl_retry_attempt := 0, cl_demand := False\<rparr>))"
    using True by (simp add: complete_attempt_def Let_def)
  have f: "cl_promise ?t = None" "\<not> cl_demand ?t" "\<not> cl_retry_timer ?t" "cl_current ?t = cl_current s"
    "cl_generation ?t = cl_generation s" "cl_peer ?t = cl_peer s" "cl_open_peers ?t = cl_open_peers s"
    "cl_disconnected ?t = cl_disconnected s"
    unfolding form by (simp_all add: clear_attempt_deadline_def)
  have k: "known h ?t = known h s" for h
    unfolding form using unsettled_known [OF True] by auto
  have r: "at_result (attempt_of g s) = None" using True ok(1) unfolding attempts_ok_def attempt_ok_def by meson
  have a: "attempt_of h ?t = (if h = g then (attempt_of g s)\<lparr>at_settled := True, at_deadline := False,
      at_result := Some None\<rparr> else attempt_of h s)" for h
    unfolding form using r by (simp add: settle_promise_def Let_def clear_attempt_deadline_def)
  have other: "at_settled (attempt_of h s)" if "h \<noteq> g" for h
    using that cur unsettled_current [OF ok(1), of h] by (metis option.inject)
  have old: "attempt_ok s h" for h using ok(1) by (simp add: attempts_ok_def)
  have "attempt_ok ?t h" for h
    using other [of h] old [of h] by (cases "h = g") (simp_all add: attempt_ok_settled a k)
  then have "attempts_ok ?t" using ok(1) other assms(2) by (auto simp: attempts_ok_def f k a)
  moreover have "peers_ok ?t"
  proof -
    have "cl_peer s = Some p" if "p \<in> set (cl_open_peers s)" for p
    proof (rule ccontr)
      assume n: "cl_peer s \<noteq> Some p"
      then have p: "unsettled p s" "at_peer (attempt_of p s)" using that ok(2) by (auto simp: peers_ok_def)
      then have "p = g" using other by blast
      then show False using p n ok(3) assms(2) by (auto simp: published_def)
    qed
    then show ?thesis using ok(2) by (simp add: peers_ok_def f)
  qed
  moreover have "published ?t" using other by (simp add: published_def a)
  moreover have "\<not> cl_disconnected s" using own by (simp add: owns_attempt_def)
  then have "timers_ok ?t" by (simp add: timers_ok_def f)
  ultimately show ?thesis using f(2) by (simp add: client_ok_def lively_def)
qed (use assms in \<open>simp add: complete_attempt_def\<close>)

lemma schedule_retry_ok:
  assumes "at_rest s" "timers_ok s" "cl_demand s" "\<not> cl_retry_timer s" "\<not> cl_disconnected s" "\<not> cl_ready s"
  shows "client_ok (schedule_retry cb s) \<and> lively (schedule_retry cb s)"
proof -
  let ?t = "s\<lparr>cl_retry_attempt := cl_retry_attempt s + 1, cl_retry_timer := True\<rparr>"
  have t: "at_rest ?t" "timers_ok ?t" using assms by (simp_all add: at_rest_def timers_ok_def)
  have "lively ?t" using assms by (simp add: lively_def)
  then show ?thesis
    using moves_lively [OF emit_moves [OF good_connect at_rest_ok [OF t]]] emit_moves [OF good_connect at_rest_ok [OF t]] assms
    by (simp add: schedule_retry_def Let_def moves_def)
qed

lemma fail_attempt_ok:
  assumes "attempts_ok s" "peers_ok s" "timers_ok s" "unsettled g s"
    "\<And>d. override = Some d \<Longrightarrow> cl_demand s \<Longrightarrow> d"
  shows "client_ok (fail_attempt cb g f override s) \<and> lively (fail_attempt cb g f override s)"
proof -
  note cur = unsettled_current [OF assms(1,4)] and own = unsettled_owns [OF assms(1,4)]
  let ?s = "clear_attempt_deadline g (set_attempt g ((attempt_of g s)\<lparr>at_settled := True\<rparr>) s)"
  let ?t = "?s\<lparr>cl_current := None, cl_promise := (if cl_promise ?s = Some g then None else cl_promise ?s)\<rparr>"
  let ?u = "settle_promise g (Some f) (fails_pending f None (close_attempt_resources g (reset_peer_state ?t)))"
  define demand where "demand = (case override of Some d \<Rightarrow> d | None \<Rightarrow> cl_demand ?s \<or> has_reconnect_demand ?s)"
  define u where "u = ?u"
  have own': "owns_attempt g ?s" using own by (simp add: owns_attempt_def clear_attempt_deadline_def)
  have e: "ends g s u" unfolding u_def using unsettled_known [OF assms(4)]
    by (auto simp: ends_def settle_promise_def clear_attempt_deadline_def split: option.split)
  have open_peers: "cl_open_peers u = []" unfolding u_def using all_closed(1) [OF assms(2,1,4), of ?t]
    by (simp add: clear_attempt_deadline_def)
  have peer: "cl_peer u = None" "\<not> cl_ready u" unfolding u_def
    by (simp_all add: close_attempt_resources_def fails_pending_def settle_promise_def Let_def reset_peer_state_def)
  have rest: "at_rest u"
    by (rule ends_at_rest [OF assms(1,4) e]) (use cur open_peers peer in \<open>simp_all add: u_def clear_attempt_deadline_def\<close>)
  have "\<not> cl_retry_timer s" "\<not> cl_disconnected s" using assms(3) cur own by (auto simp: timers_ok_def owns_attempt_def)
  then have tm: "\<not> cl_retry_timer u" "\<not> cl_disconnected u" "cl_demand u = cl_demand s"
    by (simp_all add: u_def clear_attempt_deadline_def)
  have d: "\<not> demand \<Longrightarrow> \<not> cl_demand s"
    using assms(5) by (auto simp: demand_def clear_attempt_deadline_def split: option.splits)
  have form: "fail_attempt cb g f override s = (if demand then schedule_retry cb (u\<lparr>cl_demand := True\<rparr>) else u)"
    unfolding fail_attempt_def Let_def using assms(4) own' tm(2) by (simp add: demand_def u_def)
  show ?thesis
  proof (cases demand)
    case True
    have "at_rest (u\<lparr>cl_demand := True\<rparr>)" "timers_ok (u\<lparr>cl_demand := True\<rparr>)"
      using rest tm by (simp_all add: at_rest_def timers_ok_def)
    then show ?thesis unfolding form using schedule_retry_ok [of "u\<lparr>cl_demand := True\<rparr>"] True tm peer by simp
  next
    case False
    then have "timers_ok u" "lively u" using tm d by (simp_all add: timers_ok_def lively_def)
    then show ?thesis unfolding form using False at_rest_ok [OF rest] by simp
  qed
qed

subsection \<open>Losing the peer\<close>

lemma demand_parts:
  assumes "client_ok s" "\<not> cl_disconnected s"
  shows "client_ok (s\<lparr>cl_demand := True\<rparr>)"
proof -
  have "attempt_ok (s\<lparr>cl_demand := True\<rparr>) h = attempt_ok s h" for h by (simp add: attempt_ok_def)
  then show ?thesis using assms by (simp add: client_ok_def attempts_ok_def peers_ok_def published_def timers_ok_def)
qed

lemma capture_ok:
  assumes "client_ok s" "capture_reconnect_demand s = (d, t)"
  shows "client_ok t \<and> (cl_disconnected t \<or> cl_demand t = d) \<and> cl_generation t = cl_generation s \<and> cl_promise t = cl_promise s"
  using assms demand_parts [OF assms(1)] by (auto simp: capture_reconnect_demand_def Let_def split: if_splits)

lemma reset_parts:
  assumes "client_ok s" "cl_promise s = None"
  shows "client_ok (reset_peer_state s)"
proof -
  have ok: "attempts_ok s" "peers_ok s" "timers_ok s" using assms(1) by (simp_all add: client_ok_def)
  have "timers_ok (reset_peer_state s)" using ok(3) by (simp add: timers_ok_def)
  then show ?thesis using at_rest_ok [OF reset_at_rest [OF ok(2,1) assms(2)]] by simp
qed

lemma pending_parts [simp]: "client_ok (fails_pending f gen s) = client_ok s" "lively (fails_pending f gen s) = lively s"
  "brisk (fails_pending f gen s) = brisk s"
proof -
  have "attempt_ok (fails_pending f gen s) h = attempt_ok s h" for h by (simp add: attempt_ok_def)
  then show "client_ok (fails_pending f gen s) = client_ok s"
    by (simp add: client_ok_def attempts_ok_def peers_ok_def published_def timers_ok_def)
qed (simp_all add: lively_def brisk_def)

lemma recovery_parts: "client_ok (s\<lparr>cl_recoveries := n\<rparr>) = client_ok s"
proof -
  have "attempt_ok (s\<lparr>cl_recoveries := n\<rparr>) h = attempt_ok s h" for h by (simp add: attempt_ok_def)
  then show ?thesis by (simp add: client_ok_def attempts_ok_def peers_ok_def published_def timers_ok_def)
qed

text \<open>Handling a loss restores liveness, whatever was pending before.\<close>

lemma handle_transport_closed_ok:
  assumes "client_ok s" "g \<noteq> cl_generation s \<Longrightarrow> brisk s"
  shows "client_ok (handle_transport_closed cb f should g s) \<and> lively (handle_transport_closed cb f should g s)"
proof (cases "g = cl_generation s")
  case False
  then show ?thesis using assms brisk_lively [OF assms(1)] by (simp add: handle_transport_closed_def)
next
  case gen: True
  have ok: "attempts_ok s" "peers_ok s" "timers_ok s" using assms(1) by (simp_all add: client_ok_def)
  show ?thesis
  proof (cases "\<exists>c. cl_current s = Some c \<and> unsettled c s")
    case True
    then obtain c where c: "cl_current s = Some c" "unsettled c s" by blast
    then have "handle_transport_closed cb f should g s = fail_attempt cb c f (Some (should \<or> cl_demand s)) s"
      using gen by (simp add: handle_transport_closed_def)
    then show ?thesis using fail_attempt_ok [OF ok c(2), of "Some (should \<or> cl_demand s)" cb f] by simp
  next
    case False
    then have u: "\<not> unsettled h s" for h using unsettled_current [OF ok(1)] by blast
    then have p: "cl_promise s = None" using ok(1) by (auto simp: attempts_ok_def)
    let ?t = "fails_pending f None (reset_peer_state s)"
    have t: "client_ok ?t" "\<not> cl_ready ?t" using reset_parts [OF assms(1) p] by simp_all
    have "handle_transport_closed cb f should g s =
        (if \<not> cl_disconnected ?t \<and> (should \<or> cl_demand ?t)
         then ?t\<lparr>cl_demand := True, cl_recoveries := cl_recoveries ?t + 1\<rparr> else ?t)"
      using gen False by (auto simp: handle_transport_closed_def Let_def split: option.split)
    moreover have "client_ok (?t\<lparr>cl_demand := True, cl_recoveries := cl_recoveries ?t + 1\<rparr>)"
      if "\<not> cl_disconnected ?t"
      using demand_parts [OF t(1) that] recovery_parts [where s = "?t\<lparr>cl_demand := True\<rparr>"] by simp
    ultimately show ?thesis using t by (auto simp: lively_def)
  qed
qed

lemma lose_peer_ok:
  assumes "client_ok s" "g = cl_generation s"
  shows "client_ok (lose_peer cb e f g s) \<and> lively (lose_peer cb e f g s)"
proof -
  obtain d t where d: "capture_reconnect_demand s = (d, t)" by fastforce
  note c = capture_ok [OF assms(1) d]
  let ?u = "emit_lifecycle cb (connect cb) e t"
  have m: "moves t ?u" by (rule emit_moves [OF good_connect]) (use c in simp)
  then have "client_ok ?u" "g \<noteq> cl_generation ?u \<Longrightarrow> brisk ?u" using c assms(2) by (auto simp: moves_def)
  then show ?thesis using handle_transport_closed_ok [of ?u g] d by (simp add: lose_peer_def)
qed

subsection \<open>Every event\<close>

definition client_inv :: "client \<Rightarrow> bool" where
  "client_inv s \<longleftrightarrow> client_ok s \<and> lively s"

lemma client_aside [simp]:
  "client_inv (s\<lparr>cl_holders := h\<rparr>) = client_inv s" "client_inv (s\<lparr>cl_log := l\<rparr>) = client_inv s"
  by (simp_all add: client_inv_def)

lemma channel_parts [simp]: "client_inv (s\<lparr>cl_channel := c\<rparr>) = client_inv s"
  "client_inv (s\<lparr>cl_peer_failed := b\<rparr>) = client_inv s"
proof -
  have "attempt_ok (s\<lparr>cl_channel := c\<rparr>) h = attempt_ok s h" "attempt_ok (s\<lparr>cl_peer_failed := b\<rparr>) h = attempt_ok s h" for h
    by (simp_all add: attempt_ok_def)
  then show "client_inv (s\<lparr>cl_channel := c\<rparr>) = client_inv s" "client_inv (s\<lparr>cl_peer_failed := b\<rparr>) = client_inv s"
    by (simp_all add: client_inv_def lively_def client_ok_def attempts_ok_def peers_ok_def published_def timers_ok_def)
qed

lemma moves_inv: "client_inv s \<Longrightarrow> moves s t \<Longrightarrow> client_inv t"
  using moves_lively by (auto simp: client_inv_def moves_def)

lemma connect_inv: "client_inv s \<Longrightarrow> client_inv (connect cb s)"
  using good_connect [of cb] moves_inv [of s "connect cb s"] by (simp add: good_def client_inv_def)

lemma emit_inv: "client_inv s \<Longrightarrow> client_inv (emit_lifecycle cb (connect cb) e s)"
  by (rule moves_inv [OF _ emit_moves [OF good_connect]]) (simp_all add: client_inv_def)

lemma lose_inv: "client_inv s \<Longrightarrow> g = cl_generation s \<Longrightarrow> client_inv (lose_peer cb e f g s)"
  using lose_peer_ok by (simp add: client_inv_def)

lemma recover_inv:
  assumes "client_inv s"
  shows "client_inv (recover_connection cb s)"
proof -
  let ?t = "s\<lparr>cl_recoveries := cl_recoveries s - 1\<rparr>"
  have t: "client_ok ?t" using assms by (simp add: client_inv_def recovery_parts)
  have "client_inv (connect cb ?t)" if "\<not> cl_disconnected ?t" "cl_demand ?t"
  proof (cases "cl_ready ?t")
    case True
    then have "lively ?t" using assms that by (auto simp: client_inv_def lively_def)
    then show ?thesis using t connect_inv by (simp add: client_inv_def)
  next
    case False
    then have "brisk (connect cb ?t)" by (rule connect_starts [OF t])
    then show ?thesis using connect_brisk [OF t, of cb] brisk_lively t by (auto simp: client_inv_def)
  qed
  moreover have "lively ?t" if "cl_disconnected ?t \<or> \<not> cl_demand ?t"
    using that assms by (auto simp: lively_def client_inv_def)
  ultimately show ?thesis using assms t by (simp add: recover_connection_def Let_def client_inv_def)
qed

lemma retry_inv:
  assumes "client_inv s"
  shows "client_inv (retry_fires cb s)"
proof (cases "cl_retry_timer s")
  case True
  let ?t = "s\<lparr>cl_retry_timer := False\<rparr>"
  have t: "client_ok ?t" using cancel_retry_ok [of s] assms by (simp add: client_inv_def cancel_retry_timer_def)
  have "\<not> cl_ready ?t" "cl_demand ?t" "\<not> cl_disconnected ?t"
    using True assms by (auto simp: client_inv_def client_ok_def timers_ok_def)
  then show ?thesis
    using True connect_starts [OF t, of cb] connect_brisk [OF t, of cb] brisk_lively t
    by (auto simp: retry_fires_def Let_def client_inv_def)
qed (use assms in \<open>simp add: retry_fires_def\<close>)

lemma fail_unsettled_inv:
  assumes "client_inv s" "unsettled g s"
    "t = s \<or> at_phase (attempt_of g s) \<noteq> Attempt_over \<and> (\<exists>p. t = set_phase_of g p s)"
  shows "client_inv (fail_attempt cb g f None t)"
proof -
  have ok: "attempts_ok s" "peers_ok s" "timers_ok s" using assms(1) by (simp_all add: client_inv_def client_ok_def)
  have "attempts_ok t" "peers_ok t" "timers_ok t" "unsettled g t"
    using assms(2,3) ok set_phase_parts [OF ok, of g] by (auto simp: set_phase_of_def)
  from fail_attempt_ok [OF this, of None cb f] show ?thesis by (simp add: client_inv_def)
qed

lemma deadline_inv:
  assumes "client_inv s"
  shows "client_inv (deadline_fires cb g s)"
proof (cases "at_deadline (attempt_of g s)")
  case True
  have "attempt_ok s g" using assms by (simp add: client_inv_def client_ok_def attempts_ok_def)
  then have u: "unsettled g s" using True by (auto simp: attempt_ok_settled)
  let ?c = "clear_attempt_deadline g s"
  have u': "unsettled g ?c" using u by simp
  have e: "clear_attempt_deadline g (set_attempt g ((attempt_of g ?c)\<lparr>at_settled := True\<rparr>) ?c)
      = clear_attempt_deadline g (set_attempt g ((attempt_of g s)\<lparr>at_settled := True\<rparr>) s)"
    by (simp add: clear_attempt_deadline_def)
  have "fail_attempt cb g attempt_timeout None ?c = fail_attempt cb g attempt_timeout None s"
    by (simp only: fail_attempt_def e u u' if_False Let_def)
  then show ?thesis using True fail_unsettled_inv [OF assms u] by (simp add: deadline_fires_def)
qed (use assms in \<open>simp add: deadline_fires_def\<close>)

lemma proceed_inv:
  assumes "client_inv s" "at_phase (attempt_of g s) \<noteq> Attempt_over" "owns_attempt g s \<Longrightarrow> client_inv (k s)"
  shows "client_inv (proceed g k s)"
  using assms fails_phase_ok [of s g]
  by (auto simp: proceed_def client_inv_def) (simp add: open_throws_def set_phase_of_def lively_def)

lemma phase_lively [simp]: "lively (set_phase_of g p s) = lively s"
  by (simp add: lively_def set_phase_of_def)

lemma throws_inv:
  "client_inv s \<Longrightarrow> at_phase (attempt_of g s) \<noteq> Attempt_over \<Longrightarrow> client_inv (open_throws g f s)"
  using fails_phase_ok [of s g] by (simp add: client_inv_def) (simp add: open_throws_def)

lemma phase_inv:
  "client_inv s \<Longrightarrow> at_phase (attempt_of g s) \<noteq> Attempt_over \<Longrightarrow> \<forall>f. at_phase (attempt_of g s) \<noteq> Open_done (Some f)
     \<Longrightarrow> client_inv (set_phase_of g p s)"
  using set_phase_ok [of s g p] by (simp add: client_inv_def)

lemma owner_unsettled:
  "attempts_ok s \<Longrightarrow> owns_attempt g s \<Longrightarrow> at_phase (attempt_of g s) \<noteq> Attempt_over \<Longrightarrow> unsettled g s"
  unfolding attempts_ok_def owns_attempt_def by blast

lemma attempts_cong:
  assumes "\<And>h. attempt_of h t = attempt_of h s" "\<And>h. known h t = known h s" "cl_current t = cl_current s"
    "cl_promise t = cl_promise s" "cl_generation t = cl_generation s" "cl_disconnected t = cl_disconnected s"
  shows "attempts_ok t = attempts_ok s"
  using assms by (simp add: attempts_ok_def attempt_ok_def)

lemma peer_created_attempts:
  assumes "attempts_ok s" "unsettled g s"
  shows "attempts_ok (set_attempt g ((attempt_of g s)\<lparr>at_peer := True, at_phase := p\<rparr>) s)"
proof -
  have "attempt_ok s h \<Longrightarrow> attempt_ok (set_attempt g ((attempt_of g s)\<lparr>at_peer := True, at_phase := p\<rparr>) s) h" for h
    using unsettled_known [OF assms(2)] by (auto simp: attempt_ok_def split: if_splits)
  then show ?thesis using assms unsettled_known [OF assms(2)] by (auto simp: attempts_ok_def)
qed

definition with_peer :: "nat \<Rightarrow> client \<Rightarrow> client" where
  "with_peer g s = (set_attempt g ((attempt_of g s)\<lparr>at_peer := True\<rparr>) s)\<lparr>cl_open_peers := cl_open_peers s @ [g]\<rparr>"

lemma with_peer_fields [simp]:
  "attempt_of h (with_peer g s) = (if h = g then (attempt_of g s)\<lparr>at_peer := True\<rparr> else attempt_of h s)"
  "known h (with_peer g s) = (h = g \<or> known h s)" "cl_current (with_peer g s) = cl_current s"
  "cl_promise (with_peer g s) = cl_promise s" "cl_generation (with_peer g s) = cl_generation s"
  "cl_disconnected (with_peer g s) = cl_disconnected s" "cl_peer (with_peer g s) = cl_peer s"
  "cl_open_peers (with_peer g s) = cl_open_peers s @ [g]" "cl_retry_timer (with_peer g s) = cl_retry_timer s"
  "cl_demand (with_peer g s) = cl_demand s" "cl_ready (with_peer g s) = cl_ready s"
  "cl_recoveries (with_peer g s) = cl_recoveries s"
  by (simp_all add: with_peer_def)

lemma creation_failed_inv:
  assumes "client_inv s" "unsettled g s"
  shows "client_inv (open_throws g e (with_peer g s))"
proof -
  have ok: "attempts_ok s" "peers_ok s" "published s" "timers_ok s" "lively s"
    using assms(1) by (simp_all add: client_inv_def client_ok_def)
  note cur = unsettled_current [OF ok(1) assms(2)]
  let ?t = "open_throws g e (with_peer g s)"
  have "attempts_ok ?t = attempts_ok (set_attempt g ((attempt_of g s)\<lparr>at_peer := True, at_phase := Open_done (Some e)\<rparr>) s)"
    by (rule attempts_cong) (simp_all add: open_throws_def set_phase_of_def)
  then have "attempts_ok ?t" using peer_created_attempts [OF ok(1) assms(2)] by simp
  moreover have "peers_ok ?t" using ok(2) assms(2) cur
    by (simp add: peers_ok_def open_throws_def set_phase_of_def) blast
  moreover have "published ?t" using ok(3) by (simp add: published_def open_throws_def set_phase_of_def)
  moreover have "timers_ok ?t" "lively ?t"
    using ok(4,5) by (simp_all add: timers_ok_def lively_def open_throws_def set_phase_of_def)
  ultimately show ?thesis by (simp add: client_inv_def client_ok_def)
qed

lemma peer_created_inv:
  assumes "client_inv s" "unsettled g s"
  shows "client_inv (set_phase_of g Offering ((with_peer g s)\<lparr>cl_peer := Some g, cl_channel := Connecting\<rparr>))"
proof -
  have ok: "attempts_ok s" "peers_ok s" "published s" "timers_ok s" "lively s"
    using assms(1) by (simp_all add: client_inv_def client_ok_def)
  note cur = unsettled_current [OF ok(1) assms(2)]
  let ?t = "set_phase_of g Offering ((with_peer g s)\<lparr>cl_peer := Some g, cl_channel := Connecting\<rparr>)"
  have "attempts_ok ?t = attempts_ok (set_attempt g ((attempt_of g s)\<lparr>at_peer := True, at_phase := Offering\<rparr>) s)"
    by (rule attempts_cong) (simp_all add: set_phase_of_def)
  then have "attempts_ok ?t" using peer_created_attempts [OF ok(1) assms(2)] by simp
  moreover have "peers_ok ?t"
  proof -
    have "\<forall>h \<in> set (cl_open_peers s). h = g" using ok(2) cur unfolding peers_ok_def by blast
    then show ?thesis using cur unfolding peers_ok_def by (simp add: set_phase_of_def)
  qed
  moreover have "published ?t"
  proof -
    have "h = g" if "unsettled h s" for h using unsettled_current [OF ok(1) that] cur by (metis option.inject)
    moreover have "unsettled h ?t \<Longrightarrow> h = g \<or> unsettled h s" for h by (simp add: set_phase_of_def split: if_splits)
    moreover have "cl_peer ?t = Some g" by (simp add: set_phase_of_def)
    ultimately show ?thesis unfolding published_def by metis
  qed
  moreover have "timers_ok ?t" "lively ?t"
    using ok(4,5) by (simp_all add: timers_ok_def lively_def set_phase_of_def)
  ultimately show ?thesis by (simp add: client_inv_def client_ok_def)
qed

lemma create_peer_inv:
  assumes "client_inv s" "owns_attempt g s" "at_phase (attempt_of g s) = Importing_key"
  shows "client_inv (create_peer g out s)"
proof -
  have "attempts_ok s" using assms(1) by (simp add: client_inv_def client_ok_def)
  then have u: "unsettled g s" by (rule owner_unsettled [OF _ assms(2)]) (simp add: assms(3))
  have "client_inv (open_throws g e s)" for e
    by (rule throws_inv [OF assms(1)]) (simp add: assms(3))
  then show ?thesis
    using creation_failed_inv [OF assms(1) u] peer_created_inv [OF assms(1) u]
    by (simp add: create_peer_def Let_def with_peer_def [symmetric] split: open_outcome.split)
qed

lemma ready_inv:
  assumes "client_inv s" "owns_attempt g s" "at_phase (attempt_of g s) \<noteq> Attempt_over"
  shows "client_inv (s\<lparr>cl_ready := True\<rparr>)"
proof -
  have ok: "attempts_ok s" "peers_ok s" "published s" "timers_ok s" "lively s"
    using assms(1) by (simp_all add: client_inv_def client_ok_def)
  have p: "cl_promise s \<noteq> None"
    using owner_unsettled [OF ok(1) assms(2,3)] unsettled_current [OF ok(1)] by auto
  have "attempt_ok (s\<lparr>cl_ready := True\<rparr>) h = attempt_ok s h" for h by (simp add: attempt_ok_def)
  then show ?thesis using ok p
    by (simp add: client_inv_def client_ok_def attempts_ok_def peers_ok_def published_def timers_ok_def lively_def)
qed

lemma send_hello_inv:
  assumes "client_inv s" "at_phase (attempt_of g s) = Connecting_peer"
  shows "client_inv (send_hello g s)"
  using throws_inv [OF assms(1), of g] phase_inv [OF assms(1), of g] assms(2) by (simp add: send_hello_def)

lemma react_phase:
  assumes "client_ok s" "owns_attempt g s" "at_phase (attempt_of g s) \<noteq> Attempt_over"
  shows "let t = react (connect cb) r s in
    client_ok t \<and> at_phase (attempt_of g t) = at_phase (attempt_of g s)
    \<and> (owns_attempt g t \<or> cl_disconnected t)"
proof -
  have ok: "attempts_ok s" using assms(1) by (simp add: client_ok_def)
  have "cl_promise s \<noteq> None"
    using owner_unsettled [OF ok assms(2,3)] unsettled_current [OF ok] by auto
  then have "connect cb s = s" by (simp add: connect_def)
  then show ?thesis
    using assms disconnect_ok [OF assms(1)] disconnect_fields(1) [of s]
    by (cases r) (simp_all add: Let_def owns_attempt_def)
qed

lemma reacts_keep_phase:
  assumes "client_ok s" "at_phase (attempt_of g s) = p" "p \<noteq> Attempt_over" "owns_attempt g s \<or> cl_disconnected s"
  shows "at_phase (attempt_of g (fold (react (connect cb)) rs s)) = p"
  using assms
proof (induction rs arbitrary: s)
  case (Cons r rs)
  show ?case
  proof (cases "owns_attempt g s")
    case True
    then show ?thesis
      using Cons.IH react_phase [OF Cons.prems(1) True, of cb r] Cons.prems(2,3) by (auto simp: Let_def)
  next
    case False
    then have d: "cl_disconnected s" using Cons.prems(4) by simp
    then have "connect cb s = s" by (simp add: connect_def)
    then have "at_phase (attempt_of g (react (connect cb) r s)) = p" "cl_disconnected (react (connect cb) r s)"
      "client_ok (react (connect cb) r s)"
      using d Cons.prems(1,2) disconnect_fields(1) [of s] disconnect_ok [OF Cons.prems(1)] by (cases r; simp)+
    then show ?thesis using Cons.IH Cons.prems(3) by simp
  qed
qed simp

lemma emit_keeps_phase:
  assumes "client_ok s" "owns_attempt g s" "at_phase (attempt_of g s) = p" "p \<noteq> Attempt_over"
  shows "at_phase (attempt_of g (emit_lifecycle cb (connect cb) e s)) = p"
proof -
  let ?t = "s\<lparr>cl_log := cl_log s @ [e]\<rparr>"
  have "owns_attempt g ?t" using assms(2) by (simp add: owns_attempt_def)
  then show ?thesis
    using reacts_keep_phase [of ?t g p cb "cb e ?t"] assms(1,3,4) by (simp add: emit_lifecycle_def Let_def)
qed

lemma hello_acked_inv:
  assumes "client_inv s" "at_phase (attempt_of g s) = Awaiting_hello"
  shows "client_inv (hello_acked cb compatible g s)"
proof (cases "owns_attempt g s")
  case own: True
  let ?t = "emit_lifecycle cb (connect cb) (Hello_acknowledged compatible) s"
  let ?u = "if cl_ready ?t then ?t else emit_lifecycle cb (connect cb) Encrypted_stream_ready (?t\<lparr>cl_ready := True\<rparr>)"
  have t: "client_inv ?t" by (rule emit_inv [OF assms(1)])
  have tp: "at_phase (attempt_of g ?t) = Awaiting_hello"
    by (rule emit_keeps_phase [OF _ own assms(2)]) (use assms(1) in \<open>simp_all add: client_inv_def\<close>)
  show ?thesis
  proof (cases "owns_attempt g ?t")
    case True
    have r: "client_inv (?t\<lparr>cl_ready := True\<rparr>)" by (rule ready_inv [OF t True]) (simp add: tp)
    have "owns_attempt g (?t\<lparr>cl_ready := True\<rparr>)" using True by (simp add: owns_attempt_def)
    then have "at_phase (attempt_of g (emit_lifecycle cb (connect cb) Encrypted_stream_ready (?t\<lparr>cl_ready := True\<rparr>))) = Awaiting_hello"
      by (rule emit_keeps_phase [rotated]) (use r tp in \<open>simp_all add: client_inv_def\<close>)
    then have "client_inv ?u" "at_phase (attempt_of g ?u) = Awaiting_hello"
      using t tp emit_inv [OF r] by simp_all
    then have "client_inv (set_phase_of g Hello_accepted ?u)" using phase_inv [of ?u g] by simp
    then show ?thesis using own True by (simp add: hello_acked_def Let_def)
  next
    case False
    then show ?thesis using own throws_inv [OF t, of g] tp by (simp add: hello_acked_def Let_def)
  qed
qed (use throws_inv [OF assms(1), of g] assms(2) in \<open>simp add: hello_acked_def\<close>)

lemma open_step_inv:
  assumes "client_inv s"
  shows "client_inv (open_step cb g out s)"
proof (cases "at_phase (attempt_of g s) = Attempt_over \<or> (\<exists>r. at_phase (attempt_of g s) = Open_done r)")
  case True
  then show ?thesis using assms by (auto simp: open_step_def)
next
  case False
  then have p: "at_phase (attempt_of g s) \<noteq> Attempt_over" "\<forall>f. at_phase (attempt_of g s) \<noteq> Open_done (Some f)" by auto
  note th = throws_inv [OF assms p(1)] and ph = phase_inv [OF assms p] and pr = proceed_inv [OF assms p(1)]
  show ?thesis
    unfolding open_step_def Let_def
    by (cases "at_phase (attempt_of g s)")
      (simp_all add: assms th pr ph create_peer_inv [OF assms] send_hello_inv [OF assms] hello_acked_inv [OF assms]
        split: open_outcome.split)
qed

lemma attempt_settles_inv:
  assumes "client_inv s"
  shows "client_inv (attempt_settles cb g s)"
proof (cases "at_phase (attempt_of g s)")
  case (Open_done r)
  show ?thesis
  proof (cases r)
    case None
    have "client_inv (set_phase_of g Attempt_over s)" by (rule phase_inv [OF assms]) (simp_all add: Open_done None)
    moreover have "at_phase (attempt_of g (set_phase_of g Attempt_over s)) = Attempt_over" by (simp add: set_phase_of_def)
    ultimately show ?thesis
      using complete_attempt_ok [of "set_phase_of g Attempt_over s" g] Open_done None
      by (simp add: attempt_settles_def client_inv_def)
  next
    case (Some f)
    show ?thesis
    proof (cases "unsettled g s")
      case True
      then show ?thesis
        using fail_unsettled_inv [OF assms True, of "set_phase_of g Attempt_over s" cb f] Open_done Some
        by (auto simp: attempt_settles_def)
    next
      case False
      have "client_inv (set_phase_of g Attempt_over s)"
        using set_phase_parts [of s g Attempt_over] assms False Open_done
        by (auto simp: client_inv_def client_ok_def published_def set_phase_of_def lively_def)
      then show ?thesis using Open_done Some False by (simp add: attempt_settles_def fail_attempt_def set_phase_of_def)
    qed
  qed
qed (use assms in \<open>simp_all add: attempt_settles_def\<close>)

lemma closed_inv: "client_inv s \<Longrightarrow> client_inv (s\<lparr>cl_channel := c\<rparr>)"
  by simp

lemma client_step_inv:
  assumes "client_inv s"
  shows "client_inv (client_step cb e s)"
proof (cases e)
  case (Channel_closes g)
  have "g = cl_generation s \<Longrightarrow> client_inv (lose_peer cb l f g (s\<lparr>cl_channel := c\<rparr>))" for l f c
    by (rule lose_inv) (simp_all add: assms)
  then show ?thesis using assms Channel_closes by (simp add: channel_closes_def is_current_peer_def)
next
  case (Peer_generation_fails g f)
  have "g = cl_generation s \<Longrightarrow> client_inv (lose_peer cb Data_channel_error f g (s\<lparr>cl_peer_failed := True\<rparr>))"
    by (rule lose_inv) (simp_all add: assms)
  then show ?thesis using assms Peer_generation_fails by (simp add: fail_peer_def)
next
  case (Channel_opens g)
  have "client_inv (emit_lifecycle cb (connect cb) Data_channel_open (s\<lparr>cl_channel := Channel_open\<rparr>))"
    by (rule emit_inv) (simp add: assms)
  then show ?thesis using assms Channel_opens by (simp add: channel_opens_def)
next
  case (Channel_fails g)
  then show ?thesis using assms lose_inv [OF assms] by (simp add: channel_errors_def is_current_peer_def)
next
  case Disconnect_call
  then show ?thesis using assms disconnect_ok by (simp add: client_inv_def)
qed (simp_all add: assms connect_inv open_step_inv attempt_settles_inv deadline_inv retry_inv recover_inv)

lemma new_client_inv: "client_inv new_client"
proof -
  have "at_settled (attempt_of g new_client)" "\<not> known g new_client" "\<not> at_deadline (attempt_of g new_client)" for g
    by (simp_all add: attempt_of_def known_def new_client_def no_attempt_def)
  then have "at_rest new_client"
    by (simp add: at_rest_def) (simp add: new_client_def)
  moreover have "timers_ok new_client" "lively new_client"
    by (simp_all add: timers_ok_def lively_def new_client_def)
  ultimately show ?thesis using at_rest_ok by (simp add: client_inv_def)
qed

interpretation client_system: step_system "\<lambda>s. s = new_client" "client_step cb" client_inv for cb
  by unfold_locales (simp_all add: new_client_inv client_step_inv)

lemma run_client_inv: "client_inv (run_client cb es)"
  unfolding run_client_def by (rule client_system.run_inv) simp

subsection \<open>A disconnected client\<close>

definition off :: "nat \<Rightarrow> client \<Rightarrow> bool" where
  "off n s \<longleftrightarrow> cl_disconnected s \<and> cl_peer s = None \<and> cl_generation s = n \<and> client_inv s"

lemma off_connect: "off n s \<Longrightarrow> connect cb s = s"
  by (simp add: off_def connect_def)

lemma off_not_owner: "off n s \<Longrightarrow> \<not> owns_attempt g s"
  by (simp add: off_def owns_attempt_def)

lemma off_settled: "off n s \<Longrightarrow> at_settled (attempt_of g s)"
  using unsettled_owns [of s g] off_not_owner [of n s g] by (auto simp: off_def client_inv_def client_ok_def)

lemma off_no_deadline: "off n s \<Longrightarrow> \<not> at_deadline (attempt_of g s)"
  using off_settled [of n s g] unfolding off_def client_inv_def client_ok_def attempts_ok_def
  by (metis attempt_ok_settled)

lemma off_idle: "off n s \<Longrightarrow> \<not> cl_demand s \<and> \<not> cl_retry_timer s \<and> cl_promise s = None \<and> cl_current s = None"
  by (simp add: off_def client_inv_def client_ok_def timers_ok_def)

lemma off_closed: "off n s \<Longrightarrow> cl_open_peers s = []"
proof -
  assume o: "off n s"
  then have "peers_ok s" "cl_peer s = None" by (simp_all add: off_def client_inv_def client_ok_def)
  then have "g \<notin> set (cl_open_peers s)" for g
    using off_settled [OF o, of g] unfolding peers_ok_def by (metis option.discI)
  then show ?thesis by (meson list.set_sel(1))
qed

lemma off_aside [simp]: "off n (s\<lparr>cl_holders := h\<rparr>) = off n s" "off n (s\<lparr>cl_log := l\<rparr>) = off n s"
  "off n (s\<lparr>cl_channel := c\<rparr>) = off n s" "off n (s\<lparr>cl_peer_failed := b\<rparr>) = off n s"
  by (simp_all add: off_def)

lemma off_disconnect: "client_inv s \<Longrightarrow> off (cl_generation s) (disconnect s)"
  using disconnect_ok [of s] disconnect_fields by (simp add: off_def client_inv_def)

lemma off_react: "off n s \<Longrightarrow> off n (react (connect cb) r s)"
  using off_disconnect [of s] by (cases r) (auto simp: off_connect, simp add: off_def)

lemma off_emit: "off n s \<Longrightarrow> off n (emit_lifecycle cb (connect cb) e s)"
proof -
  have "off n t \<Longrightarrow> off n (fold (react (connect cb)) rs t)" for rs t
    by (induction rs arbitrary: t) (simp_all add: off_react)
  then show "off n s \<Longrightarrow> off n (emit_lifecycle cb (connect cb) e s)" by (simp add: emit_lifecycle_def Let_def)
qed

lemma stale_open_step:
  assumes "\<not> owns_attempt g s"
  shows "open_step cb g out s = s \<or> (\<exists>p. open_step cb g out s = set_phase_of g p s)"
proof -
  define A where "A = insert s (range (\<lambda>p. set_phase_of g p s))"
  have a: "s \<in> A" "open_throws g f s \<in> A" for f
    unfolding A_def open_throws_def by (rule insertI1, rule insertI2, rule rangeI)
  have p: "proceed g k s \<in> A" for k using assms a by (simp add: proceed_def)
  have h: "hello_acked cb c g s \<in> A" for c using assms a by (simp add: hello_acked_def)
  note f = a p h open_phase.case open_outcome.case
  have 1: "at_phase (attempt_of g s) = Importing_key \<Longrightarrow> open_step cb g out s \<in> A"
    by (cases out) (simp_all only: open_step_def Let_def f)
  have 2: "at_phase (attempt_of g s) = Offering \<Longrightarrow> open_step cb g out s \<in> A"
    by (cases out) (simp_all only: open_step_def Let_def f)
  have 3: "at_phase (attempt_of g s) = Reading_reply \<Longrightarrow> open_step cb g out s \<in> A"
    by (cases out) (simp_all only: open_step_def Let_def f)
  have 4: "at_phase (attempt_of g s) = Awaiting_hello \<Longrightarrow> open_step cb g out s \<in> A"
    by (cases out) (simp_all only: open_step_def Let_def f)
  have "open_step cb g out s \<in> A"
    by (cases "at_phase (attempt_of g s)") (rule 1 2 3 4, assumption | simp only: open_step_def Let_def f)+
  then show ?thesis unfolding A_def by blast
qed

lemma off_loses: "off n s \<Longrightarrow> cl_disconnected (lose_peer cb e f g s) \<and> cl_peer (lose_peer cb e f g s) = None
    \<and> cl_generation (lose_peer cb e f g s) = n"
proof -
  assume o: "off n s"
  have c: "capture_reconnect_demand s = (has_reconnect_demand s, s)"
    using off_idle [OF o] o by (simp add: capture_reconnect_demand_def off_def)
  let ?t = "emit_lifecycle cb (connect cb) e s"
  have t: "off n ?t" by (rule off_emit [OF o])
  have "cl_disconnected ?t" "cl_peer ?t = None" "cl_generation ?t = n" using t by (simp_all add: off_def)
  then show ?thesis using off_idle [OF t] by (simp add: lose_peer_def c handle_transport_closed_def Let_def)
qed

lemma off_step:
  assumes "off n s"
  shows "off n (client_step cb e s)"
proof -
  have inv: "client_inv (client_step cb e s)" using assms by (simp add: off_def client_step_inv)
  have p: "\<not> is_current_peer g s" for g using assms by (simp add: off_def is_current_peer_def)
  have "cl_disconnected (client_step cb e s) \<and> cl_peer (client_step cb e s) = None \<and> cl_generation (client_step cb e s) = n"
  proof (cases e)
    case Connect_call
    then show ?thesis using assms off_connect [OF assms, of cb] by (simp add: off_def)
  next
    case Disconnect_call
    then show ?thesis using disconnect_fields [of s] assms by (simp add: off_def)
  next
    case (Open_step g out)
    then show ?thesis using stale_open_step [OF off_not_owner [OF assms], where g = g and cb = cb and out = out] assms by (auto simp: off_def set_phase_of_def)
  next
    case (Attempt_settles g)
    then show ?thesis using off_settled [OF assms, of g] assms
      by (auto simp: off_def attempt_settles_def complete_attempt_def fail_attempt_def set_phase_of_def
          split: open_phase.split option.split)
  next
    case (Peer_generation_fails g f)
    have "off n (s\<lparr>cl_peer_failed := True\<rparr>)" using assms by simp
    from off_loses [OF this] show ?thesis using Peer_generation_fails assms by (simp add: fail_peer_def off_def)
  qed (use assms p off_no_deadline [OF assms] off_idle [OF assms] in
      \<open>simp_all add: deadline_fires_def retry_fires_def recover_connection_def off_def
        channel_opens_def channel_closes_def channel_errors_def Let_def\<close>)
  then show ?thesis using inv by (simp add: off_def)
qed

lemma off_run: "off n s \<Longrightarrow> off n (fold (client_step cb) es s)"
  by (induction es arbitrary: s) (simp_all add: off_step)

subsection \<open>Properties\<close>

text \<open>
  C10. While a reconnection is demanded and the client is not disconnected, something brings it about:
  an attempt with its deadline armed, or else the retry timer, or else a queued recovery; and when
  the timer or the recovery runs, it leaves a new attempt under way, unless a lifecycle callback
  disconnects the client meanwhile. This holds after any history and for any callbacks.
\<close>

theorem connection_never_stalls:
  "let s = run_client cb es in
   if cl_demand s \<and> \<not> cl_disconnected s
   then (case cl_promise s of
           Some g \<Rightarrow> owns_attempt g s \<and> at_deadline (attempt_of g s)
         | None \<Rightarrow>
             let t = (if cl_retry_timer s then retry_fires cb s else recover_connection cb s) in
             (if cl_retry_timer s then True else 0 < cl_recoveries s)
             \<and> (if cl_disconnected t then True else cl_promise t \<noteq> None))
   else True"
proof -
  define s where "s = run_client cb es"
  have i: "client_inv s" by (simp add: s_def run_client_inv)
  then have ok: "attempts_ok s" "timers_ok s" "lively s" by (simp_all add: client_inv_def client_ok_def)
  have p: "owns_attempt g s \<and> at_deadline (attempt_of g s)" if "cl_promise s = Some g" for g
  proof -
    have "unsettled g s" "attempt_ok s g" using that ok(1) by (simp_all add: attempts_ok_def)
    then show ?thesis using unsettled_owns [OF ok(1)] by (simp add: attempt_ok_def)
  qed
  have r: "brisk (retry_fires cb s)" if "cl_retry_timer s"
  proof -
    have "client_ok (s\<lparr>cl_retry_timer := False\<rparr>)" using cancel_retry_ok [of s] i by (simp add: client_inv_def cancel_retry_timer_def)
    then show ?thesis using connect_starts [of "s\<lparr>cl_retry_timer := False\<rparr>" cb] that ok(2)
      by (simp add: retry_fires_def timers_ok_def)
  qed
  have c: "brisk (recover_connection cb s)" if "cl_demand s" "\<not> cl_disconnected s" "cl_promise s = None" "0 < cl_recoveries s"
  proof -
    have "client_ok (s\<lparr>cl_recoveries := cl_recoveries s - 1\<rparr>)" using i by (simp add: client_inv_def recovery_parts)
    then show ?thesis using connect_starts [of "s\<lparr>cl_recoveries := cl_recoveries s - 1\<rparr>" cb] that ok(3)
      by (simp add: recover_connection_def lively_def)
  qed
  show ?thesis unfolding s_def [symmetric] Let_def
    using p r c ok(3) by (auto simp: brisk_def lively_def Let_def split: option.split)
qed

text \<open>
  C11. At most one connection attempt is in progress. After any history an attempt is unsettled exactly
  when it is the one whose promise \<open>connect()\<close> hands out; it is then the newest generation and its
  deadline is armed; a settled attempt has no deadline left, and every attempt that was started and
  settled has told its callers the outcome; and no peer connection of an older generation is open.
\<close>

theorem one_attempt_at_a_time:
  "let s = run_client cb es in
   (at_settled (attempt_of g s) = (cl_promise s \<noteq> Some g))
   \<and> (at_deadline (attempt_of g s) = (cl_promise s = Some g))
   \<and> (if (g, a) \<in> set (cl_attempts s)
      then g \<le> cl_generation s \<and> (at_result (attempt_of g s) = None) = (cl_promise s = Some g) else True)
   \<and> list_all (\<lambda>p. p = cl_generation s) (cl_open_peers s)"
proof -
  define s where "s = run_client cb es"
  have "client_inv s" by (simp add: s_def run_client_inv)
  then have ok: "attempts_ok s" "peers_ok s" by (simp_all add: client_inv_def client_ok_def)
  have a: "attempt_ok s g" using ok(1) by (simp add: attempts_ok_def)
  have p: "cl_promise s = Some g \<Longrightarrow> unsettled g s" using ok(1) unfolding attempts_ok_def by blast
  have q: "unsettled g s \<Longrightarrow> cl_promise s = Some g" using unsettled_current [OF ok(1)] by blast
  have le: "known g s \<Longrightarrow> g \<le> cl_generation s" using ok(1) unfolding attempts_ok_def by blast
  have k: "(g, a) \<in> set (cl_attempts s) \<Longrightarrow> known g s" by (simp add: known_def weak_map_of_SomeI)
  have o: "list_all (\<lambda>p. p = cl_generation s) (cl_open_peers s)" using ok(2) unfolding peers_ok_def list_all_iff by blast
  show ?thesis
  proof (cases "unsettled g s")
    case True
    then show ?thesis unfolding Let_def s_def [symmetric] using a q k le o by (simp add: attempt_ok_def)
  next
    case False
    then show ?thesis unfolding Let_def s_def [symmetric] using a p k le o by (auto simp: attempt_ok_settled)
  qed
qed

text \<open>
  C17. Disconnecting is final. After \<open>disconnect()\<close>, whatever the network, the timers, the callers and
  the callbacks do afterwards, no attempt is started, no retry timer or deadline is armed, no
  reconnection is demanded and no peer connection is open.
\<close>

theorem disconnect_is_final:
  "let s = fold (client_step cb) later (disconnect (run_client cb es)) in
   cl_disconnected s \<and> cl_generation s = cl_generation (run_client cb es) \<and> cl_promise s = None
   \<and> \<not> cl_retry_timer s \<and> \<not> cl_demand s \<and> \<not> at_deadline (attempt_of g s)
   \<and> cl_peer s = None \<and> cl_open_peers s = []"
proof -
  define s where "s = fold (client_step cb) later (disconnect (run_client cb es))"
  have o: "off (cl_generation (run_client cb es)) s"
    unfolding s_def by (rule off_run [OF off_disconnect [OF run_client_inv]])
  show ?thesis unfolding s_def [symmetric] Let_def
    using o off_idle [OF o] off_no_deadline [OF o, of g] off_closed [OF o] by (simp add: off_def)
qed

text \<open>
  C18. An attempt that was superseded is harmless: whatever its suspended \<open>open\<close>, its deadline or its
  data channel still does, every field of the client other than that attempt's own record keeps its
  value, no callback runs, and no other attempt changes.
\<close>

theorem superseded_attempt_harmless:
  "let s = run_client cb es in
   if g \<noteq> cl_generation s
   then list_all (\<lambda>e. (client_step cb e s)\<lparr>cl_attempts := cl_attempts s\<rparr> = s
       \<and> (if h = g then True else attempt_of h (client_step cb e s) = attempt_of h s))
     [Open_step g out, Attempt_settles g, Deadline_fires g, Channel_opens g, Channel_begins_closing g,
      Channel_closes g, Channel_fails g, Peer_generation_fails g f]
   else True"
proof -
  define s where "s = run_client cb es"
  have "client_inv s" by (simp add: s_def run_client_inv)
  then have ok: "attempts_ok s" by (simp add: client_inv_def client_ok_def)
  show ?thesis
  proof (cases "g = cl_generation s")
    case False
    then have n: "\<not> owns_attempt g s" by (simp add: owns_attempt_def)
    then have st: "at_settled (attempt_of g s)" using unsettled_owns [OF ok] by blast
    then have d: "\<not> at_deadline (attempt_of g s)" using ok unfolding attempts_ok_def by (metis attempt_ok_settled)
    have op: "open_step cb g out s = s \<or> (\<exists>p. open_step cb g out s = set_phase_of g p s)" by (rule stale_open_step [OF n])
    have ph: "(set_phase_of g p s)\<lparr>cl_attempts := cl_attempts s\<rparr> = s" for p
      by (simp add: set_phase_of_def set_attempt_def)
    have se: "attempt_settles cb g s = s \<or> (\<exists>p. attempt_settles cb g s = set_phase_of g p s)"
      using st by (auto simp: attempt_settles_def complete_attempt_def fail_attempt_def set_phase_of_def
          split: open_phase.split option.split)
    have at: "h \<noteq> g \<Longrightarrow> attempt_of h (set_phase_of g p s) = attempt_of h s" for p by (simp add: set_phase_of_def)
    define keeps where "keeps t \<longleftrightarrow> t\<lparr>cl_attempts := cl_attempts s\<rparr> = s
        \<and> (if h = g then True else attempt_of h t = attempt_of h s)" for t
    have "keeps s" "keeps (set_phase_of g p s)" for p using ph at by (simp_all add: keeps_def)
    then have "keeps s" "keeps (open_step cb g out s)" "keeps (attempt_settles cb g s)" using op se by metis+
    then have "list_all (\<lambda>e. keeps (client_step cb e s))
       [Open_step g out, Attempt_settles g, Deadline_fires g, Channel_opens g, Channel_begins_closing g,
        Channel_closes g, Channel_fails g, Peer_generation_fails g f]"
      using False d by (simp add: deadline_fires_def channel_opens_def channel_closes_def channel_errors_def
          is_current_peer_def fail_peer_def)
    then show ?thesis unfolding s_def [symmetric] Let_def keeps_def using False by (simp only: if_True simp_thms not_False_eq_True)
  qed (simp add: s_def)
qed

text \<open>
  The retry delays back off: the \<open>n\<close>-th consecutive retry waits twice as long as the one before, from
  \<open>INITIAL_DELAY_MS\<close> on and never longer than \<open>MAX_DELAY_MS\<close>.
\<close>

theorem retry_delay_backs_off:
  "retry_delay 1 = INITIAL_DELAY_MS \<and> retry_delay (n + 2) = min (2 * retry_delay (n + 1)) MAX_DELAY_MS
   \<and> INITIAL_DELAY_MS \<le> retry_delay (n + 1) \<and> retry_delay (n + 1) \<le> MAX_DELAY_MS"
proof -
  have "(1::nat) \<le> 2 ^ n" by simp
  then show ?thesis by (simp add: retry_delay_def reconnect_policy)
qed

end
