(* ===== verification/Subscriptions.thy ===== *)
theory Subscriptions
  imports Control_Channel
begin

text \<open>
  Entity and package-event subscriptions of \<open>WebrtcDaemonTransport\<close>
  (\<open>src/botster/webrtcDaemonClient.ts\<close>): \<open>subscribeEntityFrames\<close>, \<open>subscribePackageEvents\<close>, their
  start on a connection, the reserved DataChannel of each (\<open>openSubscriptionChannel\<close>,
  \<open>handleSubscriptionChannelMessage\<close>, \<open>closeSubscriptionChannel\<close>, \<open>rejectReservedChannel\<close>), the
  delivery of frames, resubscription and the reset by \<open>resetPeerState\<close>.

  Objects are named by their index: subscribers, channel bindings and \<open>ready\<close> promises are lists that
  only grow. A call of \<open>request\<close> is an entry of \<open>sb_calls\<close> until it is answered; what a call waits for
  is the answer. A listener may throw; calls it makes into the client are events of their own.
\<close>

subsection \<open>State\<close>

datatype channel_class =
    Entity_class js_string
  | Package_class js_string js_string "js_string list"

record subscriber =
  su_class :: channel_class
  su_generation :: "nat option"
  su_id :: "js_string option"
  su_seq :: "jvalue option"
  su_ready :: "nat option"
  su_channel :: "nat option"
  su_resubscribing :: bool
  su_closed :: bool

record sub_assembly =
  sa_message_id :: js_string
  sa_count :: nat
  sa_total :: nat
  sa_next :: nat
  sa_payloads :: "js_string list"
  sa_received :: nat

datatype delivery_phase = No_delivery | Decrypting js_string

record binding =
  bi_owner :: nat
  bi_start_generation :: nat
  bi_transport_generation :: nat
  bi_subscription_id :: js_string
  bi_label :: js_string
  bi_channel :: channel_state
  bi_closed :: bool
  bi_admitted :: bool
  bi_rejection :: "failure option"
  bi_completed :: "js_string list"
  bi_assembly :: "sub_assembly option"
  bi_timer :: bool
  bi_readiness :: ready_state
  bi_frames :: nat
  bi_bytes :: nat
  bi_queue :: "channel_data list"
  bi_phase :: delivery_phase
  bi_opening :: opening_phase

datatype failure_reason = Reservation_missing | Reservation_rejected | Reservation_expired | Channel_was_closed

datatype call =
    Subscribe_call nat nat js_string
  | Unsubscribe_call js_string
  | Resubscribe_call nat nat js_string

record subs =
  sb_generation :: nat
  sb_control_open :: bool
  sb_key :: bool
  sb_subscribers :: "subscriber list"
  sb_bindings :: "binding list"
  sb_promises :: "ready_state list"
  sb_connecting :: "nat list"
  sb_calls :: "(nat \<times> call) list"
  sb_next_call :: nat
  sb_next_id :: nat
  sb_restarting :: "(nat \<times> nat option) list"
  sb_delivered :: "(nat \<times> jvalue) list"
  sb_failures :: "(channel_class \<times> js_string \<times> failure_reason) list"

text \<open>
  The platform, the identifiers the generators give out in order, and \<open>v + 1\<close> for a value that is not
  an integer below the largest safe one.
\<close>

record environment =
  en_platform :: platform
  en_id :: "nat \<Rightarrow> js_string"
  en_add_one :: "jvalue \<Rightarrow> jvalue"

definition new_subs :: subs where
  "new_subs = \<lparr>sb_generation = 0, sb_control_open = False, sb_key = False, sb_subscribers = [], sb_bindings = [],
     sb_promises = [], sb_connecting = [], sb_calls = [], sb_next_call = 0, sb_next_id = 0, sb_restarting = [],
     sb_delivered = [], sb_failures = []\<rparr>"

definition is_entity :: "channel_class \<Rightarrow> bool" where
  "is_entity c = (case c of Entity_class _ \<Rightarrow> True | Package_class _ _ _ \<Rightarrow> False)"

abbreviation sub :: "nat \<Rightarrow> subs \<Rightarrow> subscriber" where "sub i s \<equiv> sb_subscribers s ! i"
abbreviation bind :: "nat \<Rightarrow> subs \<Rightarrow> binding" where "bind b s \<equiv> sb_bindings s ! b"

definition set_sub :: "nat \<Rightarrow> subscriber \<Rightarrow> subs \<Rightarrow> subs" where
  "set_sub i u s = s\<lparr>sb_subscribers := (sb_subscribers s)[i := u]\<rparr>"

definition set_bind :: "nat \<Rightarrow> binding \<Rightarrow> subs \<Rightarrow> subs" where
  "set_bind b x s = s\<lparr>sb_bindings := (sb_bindings s)[b := x]\<rparr>"

definition send_call :: "call \<Rightarrow> subs \<Rightarrow> subs" where
  "send_call c s = s\<lparr>sb_calls := sb_calls s @ [(sb_next_call s, c)], sb_next_call := sb_next_call s + 1\<rparr>"

text \<open>The first settlement of a promise counts.\<close>

definition settle_ready :: "ready_state \<Rightarrow> nat option \<Rightarrow> subs \<Rightarrow> subs" where
  "settle_ready r p s =
     (case p of
        None \<Rightarrow> s
      | Some k \<Rightarrow> if sb_promises s ! k = Ready_pending then s\<lparr>sb_promises := (sb_promises s)[k := r]\<rparr> else s)"

definition settle_binding :: "ready_state \<Rightarrow> nat \<Rightarrow> subs \<Rightarrow> subs" where
  "settle_binding r b s =
     (if bi_readiness (bind b s) = Ready_pending then set_bind b ((bind b s)\<lparr>bi_readiness := r\<rparr>) s else s)"

definition is_current_binding :: "nat \<Rightarrow> subs \<Rightarrow> bool" where
  "is_current_binding b s \<longleftrightarrow>
     (let x = bind b s; u = sub (bi_owner x) s in
      \<not> bi_closed x \<and> bi_transport_generation x = sb_generation s \<and> \<not> su_closed u \<and> su_channel u = Some b
      \<and> su_generation u = Some (bi_transport_generation x) \<and> su_id u = Some (bi_subscription_id x))"

definition emit_channel_failure :: "channel_class \<Rightarrow> js_string \<Rightarrow> failure_reason \<Rightarrow> subs \<Rightarrow> subs" where
  "emit_channel_failure c i r s = s\<lparr>sb_failures := sb_failures s @ [(c, i, r)]\<rparr>"

definition emit_failure :: "nat \<Rightarrow> failure_reason \<Rightarrow> subs \<Rightarrow> subs" where
  "emit_failure b r s = emit_channel_failure (su_class (sub (bi_owner (bind b s)) s)) (bi_subscription_id (bind b s)) r s"

subsection \<open>Starting\<close>

text \<open>The promise that is returned: \<open>None\<close> is \<open>Promise.resolve()\<close>.\<close>

definition start_subscription :: "environment \<Rightarrow> nat \<Rightarrow> nat \<Rightarrow> subs \<Rightarrow> subs \<times> nat option" where
  "start_subscription E i g s =
     (let u = sub i s in
      if su_closed u \<or> g \<noteq> sb_generation s then (s, None)
      else if su_generation u = Some g \<and> su_ready u \<noteq> None then (s, su_ready u)
      else
        let sid = en_id E (sb_next_id s);
            (p, ps) = (case su_ready u of
               Some k \<Rightarrow> (k, sb_promises s)
             | None \<Rightarrow> (length (sb_promises s), sb_promises s @ [Ready_pending]));
            t = set_sub i (u\<lparr>su_generation := Some g, su_id := Some sid, su_seq := None, su_ready := Some p\<rparr>)
              (s\<lparr>sb_next_id := sb_next_id s + 1, sb_promises := ps\<rparr>) in
        (send_call (Subscribe_call i g sid) t, Some p))"

definition subscribe :: "channel_class \<Rightarrow> subs \<Rightarrow> subs" where
  "subscribe c s = s\<lparr>sb_subscribers := sb_subscribers s @ [\<lparr>su_class = c, su_generation = None, su_id = None,
       su_seq = None, su_ready = None, su_channel = None, su_resubscribing = False, su_closed = False\<rparr>],
     sb_connecting := sb_connecting s @ [length (sb_subscribers s)]\<rparr>"

text \<open>\<open>connect()\<close> settled for a subscriber that waits for it.\<close>

definition connect_settles :: "environment \<Rightarrow> nat \<Rightarrow> bool \<Rightarrow> subs \<Rightarrow> subs" where
  "connect_settles E i ok s =
     (if i \<notin> set (sb_connecting s) then s
      else let t = s\<lparr>sb_connecting := remove1 i (sb_connecting s)\<rparr> in
        if ok then fst (start_subscription E i (sb_generation t) t) else t)"

text \<open>The microtask at the end of \<open>open\<close>: entity subscriptions first, then the package-event holders.\<close>

definition live_of :: "bool \<Rightarrow> subs \<Rightarrow> nat list" where
  "live_of entities s = filter (\<lambda>i. is_entity (su_class (sub i s)) = entities \<and> \<not> su_closed (sub i s))
     [0..<length (sb_subscribers s)]"

definition restore_subscriptions :: "environment \<Rightarrow> nat \<Rightarrow> subs \<Rightarrow> subs" where
  "restore_subscriptions E g s =
     (if g \<noteq> sb_generation s then s
      else fold (\<lambda>i t. fst (start_subscription E i g t)) (live_of True s @ live_of False s) s)"

subsection \<open>Closing a channel\<close>

definition channel_closed_failure :: failure where
  "channel_closed_failure = Webrtc_failure Transport [L ''subscription DataChannel closed'']"

definition forget_channel :: "nat \<Rightarrow> subs \<Rightarrow> subs" where
  "forget_channel b s =
     (let i = bi_owner (bind b s); u = sub i s in
      if su_channel u = Some b then set_sub i (u\<lparr>su_channel := None\<rparr>) s else s)"

definition close_locally :: "nat \<Rightarrow> subs \<Rightarrow> subs" where
  "close_locally b s =
     (if bi_closed (bind b s) then s
      else
        let t = settle_binding (Ready_rejected channel_closed_failure) b (set_bind b ((bind b s)\<lparr>bi_closed := True\<rparr>) s);
            x = bind b t in
        forget_channel b (set_bind b (x\<lparr>bi_timer := False,
          bi_channel := (if bi_channel x = Channel_closed then Channel_closed else Channel_closing)\<rparr>) t))"

definition close_channel_of :: "nat \<Rightarrow> subs \<Rightarrow> subs" where
  "close_channel_of i s = (case su_channel (sub i s) of None \<Rightarrow> s | Some b \<Rightarrow> close_locally b s)"

text \<open>After the unsubscribe request of a resubscription settled, whatever its outcome.\<close>

definition resubscribe_continues :: "environment \<Rightarrow> nat \<Rightarrow> nat \<Rightarrow> subs \<Rightarrow> subs" where
  "resubscribe_continues E i g s =
     (let u = sub i s;
          v = u\<lparr>su_generation := None, su_id := None, su_seq := None,
                su_ready := (if is_entity (su_class u) then su_ready u else None)\<rparr>;
          (t, p) = start_subscription E i g (set_sub i v s) in
      t\<lparr>sb_restarting := sb_restarting t @ [(i, p)]\<rparr>)"

definition resubscribe :: "environment \<Rightarrow> nat \<Rightarrow> nat \<Rightarrow> subs \<Rightarrow> subs" where
  "resubscribe E i g s =
     (let u = sub i s in
      if su_resubscribing u \<or> su_closed u \<or> g \<noteq> sb_generation s then s
      else
        let t = close_channel_of i (set_sub i (u\<lparr>su_resubscribing := True\<rparr>) s) in
        case su_id u of
          Some (c # cs) \<Rightarrow> send_call (Resubscribe_call i g (c # cs)) t
        | _ \<Rightarrow> resubscribe_continues E i g t)"

text \<open>The \<open>finally\<close> of the resubscription: the promise it awaits has settled.\<close>

definition resubscription_settles :: "nat \<Rightarrow> nat option \<Rightarrow> subs \<Rightarrow> subs" where
  "resubscription_settles i p s =
     (if (i, p) \<notin> set (sb_restarting s) then s
      else case p of
        Some k \<Rightarrow>
          if sb_promises s ! k = Ready_pending then s
          else set_sub i ((sub i s)\<lparr>su_resubscribing := False\<rparr>) (s\<lparr>sb_restarting := remove1 (i, p) (sb_restarting s)\<rparr>)
      | None \<Rightarrow> set_sub i ((sub i s)\<lparr>su_resubscribing := False\<rparr>)
          (s\<lparr>sb_restarting := remove1 (i, p) (sb_restarting s)\<rparr>))"

definition close_remotely :: "environment \<Rightarrow> nat \<Rightarrow> subs \<Rightarrow> subs" where
  "close_remotely E b s =
     (if bi_closed (bind b s) then s
      else
        let t = close_locally b s in
        if \<not> bi_admitted (bind b s) \<or> \<not> is_current_binding b s then t
        else resubscribe E (bi_owner (bind b s)) (bi_transport_generation (bind b s))
          (emit_failure b Channel_was_closed t))"

text \<open>The three steps the message listener, its \<open>catch\<close> and the assembly timer share.\<close>

definition delivery_failed :: "environment \<Rightarrow> nat \<Rightarrow> failure \<Rightarrow> subs \<Rightarrow> subs" where
  "delivery_failed E b f s =
     close_remotely E b (settle_binding (Ready_rejected f) b (emit_failure b Reservation_rejected s))"

definition unsubscribe :: "nat \<Rightarrow> subs \<Rightarrow> subs" where
  "unsubscribe i s =
     (let u = sub i s in
      if su_closed u then s
      else
        let t = close_channel_of i (set_sub i (u\<lparr>su_closed := True\<rparr>) s) in
        case su_id u of
          Some (c # cs) \<Rightarrow> send_call (Unsubscribe_call (c # cs)) t
        | _ \<Rightarrow> t)"

subsection \<open>Opening a reserved channel\<close>

record reservation =
  rv_kind :: js_string
  rv_subscription_id :: js_string
  rv_label :: js_string

record reply =
  rp_error :: "js_string option"
  rp_kind :: js_string
  rp_reservation :: "reservation option"

definition class_name :: "channel_class \<Rightarrow> string" where
  "class_name c = (if is_entity c then ''entity'' else ''package_event'')"

text \<open>\<open>ready\<close> of the subscriber rejects, unless the attempt it belongs to was replaced.\<close>

definition start_fails :: "nat \<Rightarrow> nat \<Rightarrow> js_string \<Rightarrow> failure \<Rightarrow> subs \<Rightarrow> subs" where
  "start_fails i g sid f s =
     (let u = sub i s in
      if \<not> is_entity (su_class u) \<and> su_closed u \<or> su_generation u \<noteq> Some g \<or> su_id u \<noteq> Some sid then s
      else settle_ready (Ready_rejected f) (su_ready u) s)"

definition open_subscription_channel :: "nat \<Rightarrow> nat \<Rightarrow> reservation \<Rightarrow> bool \<Rightarrow> subs \<Rightarrow> failure + subs" where
  "open_subscription_channel i g rv creation_throws s =
     (let u = sub i s; name = class_name (su_class u) in
      if su_closed u then fails Transport ''subscription reservation owner closed before channel creation''
      else if rv_kind rv \<noteq> js name \<or> su_id u \<noteq> Some (rv_subscription_id rv)
      then fails Data_plane ''subscription reservation identity did not match the request''
      else if \<not> sb_key s \<or> \<not> sb_control_open s
      then Inl (Webrtc_failure Transport [L name, L '' reservation arrived without an open control peer''])
      else if creation_throws
      then Inl (Webrtc_failure Transport [L name, L '' DataChannel creation failed''])
      else
        let b = length (sb_bindings s) in
        Inr (set_sub i (u\<lparr>su_channel := Some b\<rparr>) (s\<lparr>sb_bindings := sb_bindings s @
          [\<lparr>bi_owner = i, bi_start_generation = g, bi_transport_generation = sb_generation s,
            bi_subscription_id = rv_subscription_id rv, bi_label = rv_label rv, bi_channel = Connecting,
            bi_closed = False, bi_admitted = False, bi_rejection = None, bi_completed = [], bi_assembly = None,
            bi_timer = False, bi_readiness = Ready_pending, bi_frames = 0, bi_bytes = 0, bi_queue = [],
            bi_phase = No_delivery, bi_opening = Waiting_channel\<rparr>]\<rparr>)))"

definition expected_kind :: "channel_class \<Rightarrow> string" where
  "expected_kind c = (if is_entity c then ''entity_subscribed'' else ''event_subscribed'')"

definition subscribe_answered :: "nat \<Rightarrow> nat \<Rightarrow> js_string \<Rightarrow> failure + reply \<Rightarrow> bool \<Rightarrow> subs \<Rightarrow> subs" where
  "subscribe_answered i g sid r creation_throws s =
     (let u = sub i s in
      case r of
        Inl f \<Rightarrow> start_fails i g sid f s
      | Inr rp \<Rightarrow>
          if su_closed u \<or> su_generation u \<noteq> Some g \<or> su_id u \<noteq> Some sid then s
          else if rp_error rp \<noteq> None then start_fails i g sid (Thrown ''Error'') s
          else if rp_kind rp \<noteq> js (expected_kind (su_class u)) then start_fails i g sid (Thrown ''Error'') s
          else (case rp_reservation rp of
              None \<Rightarrow> start_fails i g sid
                (Webrtc_failure Data_plane [L (class_name (su_class u)), L '' subscription response omitted its reservation''])
                (emit_channel_failure (su_class u) sid Reservation_missing s)
            | Some rv \<Rightarrow>
                (case open_subscription_channel i g rv creation_throws s of
                   Inl f \<Rightarrow> start_fails i g sid f s
                 | Inr t \<Rightarrow> t)))"

definition call_answered :: "environment \<Rightarrow> nat \<Rightarrow> failure + reply \<Rightarrow> bool \<Rightarrow> subs \<Rightarrow> subs" where
  "call_answered E n r creation_throws s0 =
     (case map_of (sb_calls s0) n of
        None \<Rightarrow> s0
      | Some c \<Rightarrow>
          let s = s0\<lparr>sb_calls := AList.delete n (sb_calls s0)\<rparr> in
          (case c of
             Subscribe_call i g sid \<Rightarrow> subscribe_answered i g sid r creation_throws s
           | Unsubscribe_call _ \<Rightarrow> s
           | Resubscribe_call i g _ \<Rightarrow> resubscribe_continues E i g s))"

text \<open>The \<open>catch\<close> of \<open>openSubscriptionChannel\<close>, and then that of the caller.\<close>

definition opening_throws :: "nat \<Rightarrow> failure \<Rightarrow> subs \<Rightarrow> subs" where
  "opening_throws b f s =
     (let x = bind b s;
          failure = (case bi_rejection x of Some r \<Rightarrow> r | None \<Rightarrow> f);
          t = close_locally b (settle_binding (Ready_rejected failure) b
            (set_bind b (x\<lparr>bi_opening := Opening_threw failure\<rparr>) s)) in
      start_fails (bi_owner x) (bi_start_generation x) (bi_subscription_id x) failure t)"

definition opening_moves :: "nat \<Rightarrow> opening_phase \<Rightarrow> subs \<Rightarrow> subs" where
  "opening_moves b p s = set_bind b ((bind b s)\<lparr>bi_opening := p\<rparr>) s"

definition channel_wait_settles :: "nat \<Rightarrow> failure option \<Rightarrow> subs \<Rightarrow> subs" where
  "channel_wait_settles b r s =
     (if bi_opening (bind b s) \<noteq> Waiting_channel then s
      else case r of
        Some f \<Rightarrow> opening_throws b f s
      | None \<Rightarrow>
          if \<not> is_current_binding b s
          then opening_throws b (Webrtc_failure Transport
            [L ''subscription DataChannel opened for a stale reservation'']) s
          else opening_moves b Encrypting_hello s)"

definition binding_hello_sealed :: "nat \<Rightarrow> subs \<Rightarrow> subs" where
  "binding_hello_sealed b s =
     (if bi_opening (bind b s) \<noteq> Encrypting_hello then s
      else if bi_channel (bind b s) \<noteq> Channel_open then opening_throws b (Thrown ''InvalidStateError'') s
      else opening_moves b Waiting_ready s)"

text \<open>Admission makes a package-event subscription ready; an entity subscription waits for its snapshot.\<close>

definition opening_returns :: "nat \<Rightarrow> subs \<Rightarrow> subs" where
  "opening_returns b s =
     (let x = bind b s; u = sub (bi_owner x) s in
      if \<not> is_entity (su_class u) \<and> \<not> su_closed u \<and> su_id u = Some (bi_subscription_id x)
         \<and> su_generation u = Some (bi_start_generation x)
      then settle_ready Ready_resolved (su_ready u) s else s)"

definition binding_ready_settles :: "nat \<Rightarrow> subs \<Rightarrow> subs" where
  "binding_ready_settles b s =
     (if bi_opening (bind b s) \<noteq> Waiting_ready then s
      else case bi_readiness (bind b s) of
        Ready_pending \<Rightarrow> s
      | Ready_rejected f \<Rightarrow> opening_throws b f s
      | Ready_resolved \<Rightarrow>
          if \<not> is_current_binding b s
          then opening_throws b (Webrtc_failure Transport
            [L ''subscription DataChannel admitted for a stale reservation'']) s
          else opening_returns b (opening_moves b Opening_returned s))"

subsection \<open>Delivering a frame\<close>

definition plus_one :: "environment \<Rightarrow> jvalue \<Rightarrow> jvalue" where
  "plus_one E v =
     (case safe_integer (Some v) of
        Some n \<Rightarrow> if n < MAX_SAFE_INTEGER then V_number (Num (of_int (n + 1))) else en_add_one E v
      | None \<Rightarrow> en_add_one E v)"

text \<open>\<open>frame.snapshot_seq === currentSequence + 1\<close>\<close>

definition follows :: "environment \<Rightarrow> jvalue option \<Rightarrow> jvalue \<Rightarrow> bool" where
  "follows E v current \<longleftrightarrow> v = Some (plus_one E current) \<and> v \<noteq> Some (V_number Not_a_number)"

definition deliver :: "nat \<Rightarrow> jvalue \<Rightarrow> subs \<Rightarrow> subs" where
  "deliver i v s = s\<lparr>sb_delivered := sb_delivered s @ [(i, v)]\<rparr>"

definition frame_owner :: "jvalue \<Rightarrow> nat \<Rightarrow> subs \<Rightarrow> nat option" where
  "frame_owner frame g s =
     find (\<lambda>i. let u = sub i s in \<not> su_closed u \<and> su_generation u = Some g \<and> su_id u \<noteq> None
         \<and> string_of (property_of ''subscription_id'' frame) = su_id u
         \<and> (case su_class u of Entity_class t \<Rightarrow> string_of (property_of ''entity_type'' frame) = Some t
            | Package_class _ _ _ \<Rightarrow> False))
       [0..<length (sb_subscribers s)]"

text \<open>What is left of the handler: a delivery runs the listener, which may throw \<open>th\<close>.\<close>

definition receive_entity_frame ::
    "environment \<Rightarrow> jvalue \<Rightarrow> nat \<Rightarrow> failure option \<Rightarrow> subs \<Rightarrow> subs \<times> failure option" where
  "receive_entity_frame E frame g th s =
     (case frame_owner frame g s of
        None \<Rightarrow> (s, None)
      | Some i \<Rightarrow>
          let u = sub i s; tag = string_of (property_of ''type'' frame); n = property_of ''snapshot_seq'' frame in
          if tag = Some (js ''entity_error'') then (deliver i frame s, th)
          else if tag = Some (js ''entity_snapshot'')
          then (deliver i frame (settle_ready Ready_resolved (su_ready u) (set_sub i (u\<lparr>su_seq := n\<rparr>) s)), th)
          else (case su_seq u of
              None \<Rightarrow> (resubscribe E i g s, None)
            | Some current \<Rightarrow>
                if follows E n current then (deliver i frame (set_sub i (u\<lparr>su_seq := n\<rparr>) s), th)
                else (resubscribe E i g s, None)))"

definition receive_package_event :: "nat \<Rightarrow> jvalue \<Rightarrow> failure option \<Rightarrow> subs \<Rightarrow> subs \<times> failure option" where
  "receive_package_event b event th s =
     (let x = bind b s; i = bi_owner x; u = sub i s in
      case su_class u of
        Package_class owner name _ \<Rightarrow>
          if su_closed u \<or> su_channel u \<noteq> Some b \<or> su_generation u \<noteq> Some (bi_transport_generation x)
             \<or> su_id u = None \<or> su_id u \<noteq> string_of (property_of ''subscription_id'' event)
             \<or> string_of (property_of ''owner'' event) \<noteq> Some owner
             \<or> string_of (property_of ''name'' event) \<noteq> Some name
          then (s, None)
          else (deliver i event s, th)
      | Entity_class _ \<Rightarrow> (s, None))"

text \<open>The decrypted frame of a complete delivery.\<close>

definition finish_delivery ::
    "environment \<Rightarrow> nat \<Rightarrow> js_string \<Rightarrow> failure option \<Rightarrow> subs \<Rightarrow> subs \<times> failure option" where
  "finish_delivery E b payload th s =
     (let x = bind b s; failed = (\<lambda>m. (s, Some (Webrtc_failure Data_plane [L m]))) in
      case decrypt_daemon_payload (en_platform E) payload of
        None \<Rightarrow> (s, Some (Thrown ''OperationError''))
      | Some v \<Rightarrow>
          (case parse_server_frame v of
             Inl f \<Rightarrow> (s, Some f)
           | Inr (Close_frame reason) \<Rightarrow> (s, Some (Webrtc_failure Data_plane
               (L ''subscription DataChannel closed by Hub: '' # describe_close_reason reason)))
           | Inr frame \<Rightarrow>
               if \<not> bi_admitted x then
                 (case frame of
                    Hello_ack ack \<Rightarrow>
                      if property_of ''protocol'' ack \<noteq> Some (V_string HOST_PROTOCOL)
                         \<or> \<not> truthy_value (property_of ''compatibility'' ack)
                      then failed ''subscription DataChannel Hello was rejected''
                      else (settle_binding Ready_resolved b (set_bind b (x\<lparr>bi_admitted := True\<rparr>) s), None)
                  | _ \<Rightarrow> failed ''subscription DataChannel carried data before admission'')
               else if \<not> is_current_binding b s then (s, None)
               else if is_entity (su_class (sub (bi_owner x) s)) then
                 (case frame of
                    Entity_delivery e \<Rightarrow> receive_entity_frame E e (bi_transport_generation x) th s
                  | _ \<Rightarrow> failed ''entity channel received a frame of another class'')
               else
                 (case frame of
                    Host_event e \<Rightarrow>
                      if string_of (property_of ''type'' e) \<in> {Some (js ''package_event''), Some (js ''event_gap'')}
                      then receive_package_event b e th s
                      else failed ''package-event channel received an unsupported event type''
                  | _ \<Rightarrow> failed ''package-event channel received a frame of another class'')))"

subsection \<open>Messages of a channel\<close>

definition remember_completed :: "js_string \<Rightarrow> js_string list \<Rightarrow> js_string list" where
  "remember_completed i is =
     set_add i (if MAX_COMPLETED_MESSAGE_IDS \<le> length is then tl is else is)"

definition binding_message_arrives :: "environment \<Rightarrow> nat \<Rightarrow> channel_data \<Rightarrow> subs \<Rightarrow> subs" where
  "binding_message_arrives E b d s =
     (let x = bind b s; n = inbound_frame_bytes d in
      if bi_closed x then s
      else if bi_frames x + 1 > MAXIMUM_QUEUED_FRAMES \<or> bi_bytes x + n > MAXIMUM_QUEUED_BYTES
      then delivery_failed E b (Webrtc_failure Data_plane
        [L ''subscription DataChannel inbound admission exceeded '', N (bi_frames x), L '' queued frames and '',
         N (bi_bytes x), L '' queued bytes'']) s
      else set_bind b (x\<lparr>bi_frames := bi_frames x + 1, bi_bytes := bi_bytes x + n, bi_queue := bi_queue x @ [d]\<rparr>) s)"

text \<open>The \<open>finally\<close> of the chain.\<close>

definition delivery_done :: "nat \<Rightarrow> subs \<Rightarrow> subs" where
  "delivery_done b s =
     (let x = bind b s in
      case bi_queue x of
        [] \<Rightarrow> s
      | d # ds \<Rightarrow> set_bind b (x\<lparr>bi_queue := ds, bi_frames := bi_frames x - 1,
          bi_bytes := bi_bytes x - inbound_frame_bytes d, bi_phase := No_delivery\<rparr>) s)"

definition delivery_settles :: "environment \<Rightarrow> nat \<Rightarrow> subs \<times> failure option \<Rightarrow> subs" where
  "delivery_settles E b r =
     (case r of (s, None) \<Rightarrow> delivery_done b s
      | (s, Some f) \<Rightarrow> delivery_done b (delivery_failed E b f s))"

datatype chunk_step = Chunk_throws failure | Chunk_waits | Chunk_opens js_string

text \<open>A chunk against the binding's assembly; the binding keeps the assembly when this throws.\<close>

definition binding_chunk :: "delivery_chunk \<Rightarrow> binding \<Rightarrow> binding \<times> chunk_step" where
  "binding_chunk c x =
     (let failed = (\<lambda>y m. (y, Chunk_throws (Webrtc_failure Data_plane [L m]))) in
      if dc_message_id c \<in> set (bi_completed x)
      then failed x ''subscription channel reused a completed message id''
      else if bi_assembly x = None \<and> dc_index c \<noteq> 0
      then failed x ''subscription delivery did not start at chunk zero''
      else
        let a = (case bi_assembly x of Some a \<Rightarrow> a
              | None \<Rightarrow> \<lparr>sa_message_id = dc_message_id c, sa_count = dc_count c, sa_total = dc_total c, sa_next = 0,
                  sa_payloads = [], sa_received = 0\<rparr>);
            y = x\<lparr>bi_assembly := Some a, bi_timer := (if bi_assembly x = None then True else bi_timer x)\<rparr> in
        if sa_message_id a \<noteq> dc_message_id c \<or> sa_count a \<noteq> dc_count c \<or> sa_total a \<noteq> dc_total c
           \<or> dc_index c \<noteq> sa_next a
        then failed y ''subscription delivery chunk order or metadata was invalid''
        else
          let received = sa_received a + utf8_byte_length (dc_payload c);
              a' = a\<lparr>sa_payloads := sa_payloads a @ [dc_payload c], sa_received := received\<rparr>;
              y' = y\<lparr>bi_assembly := Some a'\<rparr> in
          if received > sa_total a then failed y' ''subscription delivery exceeded the declared total bytes''
          else
            let a'' = a'\<lparr>sa_next := sa_next a + 1\<rparr>; y'' = y\<lparr>bi_assembly := Some a''\<rparr> in
            if sa_next a'' \<noteq> sa_count a'' then (y'', Chunk_waits)
            else if received \<noteq> sa_total a
            then failed y'' ''subscription delivery bytes did not match the declared total''
            else (y''\<lparr>bi_timer := False, bi_assembly := None,
                   bi_completed := remember_completed (sa_message_id a) (bi_completed x)\<rparr>,
                 Chunk_opens (concat (sa_payloads a''))))"

definition begin_delivery :: "environment \<Rightarrow> nat \<Rightarrow> channel_data \<Rightarrow> subs \<Rightarrow> subs" where
  "begin_delivery E b d s =
     (let bounded = delivery_settles E b (s, Some (Webrtc_failure Data_plane
            [L ''subscription DataChannel delivery must be a bounded string chunk''])) in
      case d of
        Text_data t \<Rightarrow>
          if MAX_FRAME_BYTES_EXCLUSIVE \<le> utf8_byte_length t then bounded
          else (case parse_delivery_chunk (json_parse (en_platform E) t) of
              Inl f \<Rightarrow> delivery_settles E b (s, Some f)
            | Inr c \<Rightarrow>
                (case binding_chunk c (bind b s) of
                   (y, Chunk_throws f) \<Rightarrow> delivery_settles E b (set_bind b y s, Some f)
                 | (y, Chunk_waits) \<Rightarrow> delivery_settles E b (set_bind b y s, None)
                 | (y, Chunk_opens payload) \<Rightarrow>
                     if \<not> sb_key s
                     then delivery_settles E b (set_bind b y s,
                       Some (Webrtc_failure Encryption [L ''subscription response key is unavailable'']))
                     else set_bind b (y\<lparr>bi_phase := Decrypting payload\<rparr>) s))
      | _ \<Rightarrow> bounded)"

definition run_delivery :: "environment \<Rightarrow> nat \<Rightarrow> subs \<Rightarrow> subs" where
  "run_delivery E b s =
     (case (bi_phase (bind b s), bi_queue (bind b s)) of
        (No_delivery, d # _) \<Rightarrow> begin_delivery E b d s
      | _ \<Rightarrow> s)"

definition delivery_decrypted :: "environment \<Rightarrow> nat \<Rightarrow> failure option \<Rightarrow> subs \<Rightarrow> subs" where
  "delivery_decrypted E b th s =
     (case bi_phase (bind b s) of
        No_delivery \<Rightarrow> s
      | Decrypting payload \<Rightarrow> delivery_settles E b (finish_delivery E b payload th s))"

definition sub_assembly_timeout :: "environment \<Rightarrow> nat \<Rightarrow> subs \<Rightarrow> subs" where
  "sub_assembly_timeout E b s =
     (let x = bind b s in
      if bi_timer x \<and> \<not> bi_closed x
      then delivery_failed E b (Webrtc_failure Data_plane [L ''subscription delivery assembly timed out''])
        (set_bind b (x\<lparr>bi_timer := False\<rparr>) s)
      else s)"

subsection \<open>Rejected reservations and the loss of the peer\<close>

definition reject_binding :: "js_string \<Rightarrow> js_string \<Rightarrow> nat \<Rightarrow> subs \<Rightarrow> subs" where
  "reject_binding reason label b s =
     (let x = bind b s; f = Webrtc_failure Data_plane [L ''reserved channel '', S label, L '' rejected by Hub: '', S reason] in
      if bi_closed x \<or> bi_label x \<noteq> label \<or> bi_admitted x then s
      else close_locally b (settle_binding (Ready_rejected f) b
        (emit_failure b (if reason = js ''reservation_expired'' then Reservation_expired else Reservation_rejected)
          (set_bind b (x\<lparr>bi_rejection := Some f\<rparr>) s))))"

definition reject_reserved_channel :: "js_string \<Rightarrow> js_string \<Rightarrow> subs \<Rightarrow> subs" where
  "reject_reserved_channel reason label s = fold (reject_binding reason label) [0..<length (sb_bindings s)] s"

definition reset_subscriber :: "subscriber \<Rightarrow> subscriber" where
  "reset_subscriber u =
     (if su_closed u then u
      else u\<lparr>su_generation := None, su_id := None, su_seq := None, su_resubscribing := False, su_channel := None\<rparr>)"

definition reset_subscriptions :: "subs \<Rightarrow> subs" where
  "reset_subscriptions s =
     (let t = fold close_locally [0..<length (sb_bindings s)] s in
      t\<lparr>sb_control_open := False, sb_key := False, sb_subscribers := map reset_subscriber (sb_subscribers t)\<rparr>)"

definition subs_new_attempt :: "subs \<Rightarrow> subs" where
  "subs_new_attempt s = (let t = reset_subscriptions s in t\<lparr>sb_generation := sb_generation t + 1\<rparr>)"

subsection \<open>Events\<close>

datatype subs_event =
    Subscribe channel_class
  | Unsubscribe nat
  | Connect_settles nat bool
  | Peer_is_published
  | Control_opens
  | Restore nat
  | Call_answered nat "failure + reply" bool
  | Channel_wait_settles nat "failure option"
  | Binding_hello_sealed nat
  | Binding_ready_settles nat
  | Binding_opens nat
  | Binding_closes nat
  | Binding_errors nat
  | Message_arrives nat channel_data
  | Run_delivery nat
  | Delivery_decrypted nat "failure option"
  | Assembly_timer nat
  | Rejected_by_hub js_string js_string
  | Restart_settles nat "nat option"
  | Peer_is_reset
  | Attempt_begins

text \<open>The binding an event is about exists, and so does the subscriber.\<close>

fun event_ok :: "subs_event \<Rightarrow> subs \<Rightarrow> bool" where
  "event_ok (Unsubscribe i) s = (i < length (sb_subscribers s))"
| "event_ok (Channel_wait_settles b r) s = (b < length (sb_bindings s))"
| "event_ok (Binding_hello_sealed b) s = (b < length (sb_bindings s))"
| "event_ok (Binding_ready_settles b) s = (b < length (sb_bindings s))"
| "event_ok (Binding_opens b) s = (b < length (sb_bindings s))"
| "event_ok (Binding_closes b) s = (b < length (sb_bindings s))"
| "event_ok (Binding_errors b) s = (b < length (sb_bindings s))"
| "event_ok (Message_arrives b d) s = (b < length (sb_bindings s))"
| "event_ok (Run_delivery b) s = (b < length (sb_bindings s))"
| "event_ok (Delivery_decrypted b th) s = (b < length (sb_bindings s))"
| "event_ok (Assembly_timer b) s = (b < length (sb_bindings s))"
| "event_ok e s = True"

fun subs_handle :: "environment \<Rightarrow> subs_event \<Rightarrow> subs \<Rightarrow> subs" where
  "subs_handle E (Subscribe c) s = subscribe c s"
| "subs_handle E (Unsubscribe i) s = unsubscribe i s"
| "subs_handle E (Connect_settles i ok) s = connect_settles E i ok s"
| "subs_handle E Peer_is_published s = s\<lparr>sb_key := True\<rparr>"
| "subs_handle E Control_opens s = (if sb_key s then s\<lparr>sb_control_open := True\<rparr> else s)"
| "subs_handle E (Restore g) s = restore_subscriptions E g s"
| "subs_handle E (Call_answered n r th) s = call_answered E n r th s"
| "subs_handle E (Channel_wait_settles b r) s = channel_wait_settles b r s"
| "subs_handle E (Binding_hello_sealed b) s = binding_hello_sealed b s"
| "subs_handle E (Binding_ready_settles b) s = binding_ready_settles b s"
| "subs_handle E (Binding_opens b) s =
     (if bi_channel (bind b s) = Connecting then set_bind b ((bind b s)\<lparr>bi_channel := Channel_open\<rparr>) s else s)"
| "subs_handle E (Binding_closes b) s = close_remotely E b (set_bind b ((bind b s)\<lparr>bi_channel := Channel_closed\<rparr>) s)"
| "subs_handle E (Binding_errors b) s = close_remotely E b s"
| "subs_handle E (Message_arrives b d) s = binding_message_arrives E b d s"
| "subs_handle E (Run_delivery b) s = run_delivery E b s"
| "subs_handle E (Delivery_decrypted b th) s = delivery_decrypted E b th s"
| "subs_handle E (Assembly_timer b) s = sub_assembly_timeout E b s"
| "subs_handle E (Rejected_by_hub reason label) s = reject_reserved_channel reason label s"
| "subs_handle E (Restart_settles i p) s = resubscription_settles i p s"
| "subs_handle E Peer_is_reset s = reset_subscriptions s"
| "subs_handle E Attempt_begins s = subs_new_attempt s"

definition subs_step :: "environment \<Rightarrow> subs_event \<Rightarrow> subs \<Rightarrow> subs" where
  "subs_step E e s = (if event_ok e s then subs_handle E e s else s)"

definition run_subs :: "environment \<Rightarrow> subs_event list \<Rightarrow> subs" where
  "run_subs E es = fold (subs_step E) es new_subs"

end
