(* ===== verification/Subscription_Laws.thy ===== *)
theory Subscription_Laws
  imports Subscriptions
begin

text \<open>
  The laws of subscriptions: what a listener hears has no gaps, a closed subscription hears nothing,
  an owner's channel is open and belongs to it, and open channels belong to the current connection.
\<close>

subsection \<open>Quiet operations\<close>

text \<open>
  Most operations deliver nothing. They keep the class of every subscriber, do not reopen a closed one,
  and keep the sequence it has reached, with its subscription, or forget it.
\<close>

definition heeds :: "subscriber \<Rightarrow> subscriber \<Rightarrow> bool" where
  "heeds u v \<longleftrightarrow> su_class v = su_class u \<and> (su_closed u \<longrightarrow> su_closed v)
     \<and> (su_seq v = su_seq u \<and> su_id v = su_id u \<or> su_seq v = None)"

definition quiet :: "subs \<Rightarrow> subs \<Rightarrow> bool" where
  "quiet s t \<longleftrightarrow> sb_delivered t = sb_delivered s \<and> list_all2 heeds (sb_subscribers s) (sb_subscribers t)"

lemma heeds_refl [simp]: "heeds u u"
  by (simp add: heeds_def)

lemma heeds_trans: "heeds u v \<Longrightarrow> heeds v w \<Longrightarrow> heeds u w"
  by (auto simp: heeds_def)

lemma quiet_refl [simp]: "quiet s s"
  by (simp add: quiet_def list_all2_refl)

lemma quiet_trans: "quiet s t \<Longrightarrow> quiet t u \<Longrightarrow> quiet s u"
  unfolding quiet_def using list_all2_trans [of heeds heeds heeds] heeds_trans by metis

lemma quiet_same [simp]:
  "sb_delivered t = sb_delivered s \<Longrightarrow> sb_subscribers t = sb_subscribers s \<Longrightarrow> quiet s t"
  by (simp add: quiet_def list_all2_refl)

lemma quiet_length: "quiet s t \<Longrightarrow> length (sb_subscribers t) = length (sb_subscribers s)"
  unfolding quiet_def by (metis list_all2_lengthD)

lemma quiet_set_sub: "heeds (sub i s) u \<Longrightarrow> quiet s (set_sub i u s)"
proof -
  assume h: "heeds (sub i s) u"
  have "heeds (xs ! k) (xs[i := u] ! k)" if "k < length xs" "heeds (xs ! i) u" for k xs
    using that by (cases "k = i") simp_all
  then have "list_all2 heeds xs (xs[i := u])" if "heeds (xs ! i) u" for xs
    using that by (simp add: list_all2_conv_all_nth)
  then show ?thesis using h by (simp add: quiet_def set_sub_def)
qed

lemma quiet_aside [simp]:
  "quiet s (set_bind b x s)" "quiet s (send_call c s)" "quiet s (settle_ready r p s)" "quiet s (settle_binding r b s)"
  "quiet s (emit_channel_failure cl i fr s)" "quiet s (emit_failure b fr s)" "quiet s (opening_moves b ph s)"
  by (simp_all add: set_bind_def send_call_def settle_ready_def settle_binding_def emit_channel_failure_def
      emit_failure_def opening_moves_def split: option.split)

lemma aside_subscribers [simp]:
  "sb_subscribers (set_bind b x s) = sb_subscribers s" "sb_subscribers (send_call c s) = sb_subscribers s"
  "sb_subscribers (settle_ready r p s) = sb_subscribers s" "sb_subscribers (settle_binding r b s) = sb_subscribers s"
  "sb_subscribers (emit_channel_failure cl i fr s) = sb_subscribers s" "sb_subscribers (emit_failure b fr s) = sb_subscribers s"
  "sb_subscribers (opening_moves b ph s) = sb_subscribers s"
  by (simp_all add: set_bind_def send_call_def settle_ready_def settle_binding_def emit_channel_failure_def
      emit_failure_def opening_moves_def split: option.split)

lemma quiet_step: "quiet s t \<Longrightarrow> (quiet s t \<Longrightarrow> quiet t u) \<Longrightarrow> quiet s u"
  by (blast intro: quiet_trans)

lemma quiet_fold: "(\<And>x s. quiet s (f x s)) \<Longrightarrow> quiet s (fold f xs s)"
  by (induction xs arbitrary: s) (auto intro: quiet_trans)

lemma quiet_forget [simp]: "quiet s (forget_channel b s)"
  by (auto simp: forget_channel_def Let_def heeds_def intro: quiet_set_sub)

lemma quiet_close_locally [simp]: "quiet s (close_locally b s)"
proof (cases "bi_closed (bind b s)")
  case False
  let ?t = "settle_binding (Ready_rejected channel_closed_failure) b (set_bind b ((bind b s)\<lparr>bi_closed := True\<rparr>) s)"
  have "quiet s ?t" by (rule quiet_trans [OF quiet_aside(1) quiet_aside(4)])
  moreover have "quiet ?t (forget_channel b (set_bind b x ?t))" for x
    by (rule quiet_trans [OF quiet_aside(1) quiet_forget])
  ultimately show ?thesis using False by (simp add: close_locally_def Let_def) (blast intro: quiet_trans)
qed (simp add: close_locally_def)

lemma quiet_close_of [simp]: "quiet s (close_channel_of i s)"
  by (simp add: close_channel_of_def split: option.split)

lemma quiet_start [simp]: "quiet s (fst (start_subscription E i g s))"
proof -
  have "quiet s (send_call c (set_sub i u t))"
    if "sb_delivered t = sb_delivered s" "sb_subscribers t = sb_subscribers s" "heeds (sub i s) u" for c u t
    by (rule quiet_trans [OF _ quiet_aside(2)], rule quiet_trans [OF quiet_same quiet_set_sub]) (use that in simp_all)
  then show ?thesis by (simp add: start_subscription_def Let_def heeds_def split: option.split)
qed

lemma quiet_restarting [simp]: "quiet s t \<Longrightarrow> quiet s (t\<lparr>sb_restarting := r\<rparr>)"
  by (simp add: quiet_def)

lemma quiet_continues [simp]: "quiet s (resubscribe_continues E i g s)"
proof -
  let ?v = "(sub i s)\<lparr>su_generation := None, su_id := None, su_seq := None,
    su_ready := (if is_entity (su_class (sub i s)) then su_ready (sub i s) else None)\<rparr>"
  obtain t p where t: "start_subscription E i g (set_sub i ?v s) = (t, p)" by fastforce
  have "quiet (set_sub i ?v s) t" using quiet_start [of "set_sub i ?v s" E i g] t by simp
  then have "quiet s t" by (rule quiet_trans [OF quiet_set_sub, rotated]) (simp add: heeds_def)
  then show ?thesis using t by (simp add: resubscribe_continues_def Let_def)
qed

lemma quiet_resubscribe [simp]: "quiet s (resubscribe E i g s)"
proof -
  have h: "quiet s (set_sub i ((sub i s)\<lparr>su_resubscribing := True\<rparr>) s)" by (rule quiet_set_sub) (simp add: heeds_def)
  have c: "quiet s (close_channel_of i (set_sub i ((sub i s)\<lparr>su_resubscribing := True\<rparr>) s))"
    by (rule quiet_trans [OF h quiet_close_of])
  show ?thesis
    using quiet_trans [OF c quiet_aside(2)] quiet_trans [OF c quiet_continues]
    by (simp add: resubscribe_def Let_def split: option.split list.split)
qed

lemma quiet_close_remotely [simp]: "quiet s (close_remotely E b s)"
proof -
  have "quiet s (resubscribe E i g (emit_failure b r (close_locally b s)))" for i g r
    by (rule quiet_trans [OF quiet_close_locally], rule quiet_trans [OF quiet_aside(6) quiet_resubscribe])
  then show ?thesis by (simp add: close_remotely_def Let_def)
qed

lemma quiet_delivery_failed [simp]: "quiet s (delivery_failed E b f s)"
  unfolding delivery_failed_def
  by (rule quiet_trans [OF quiet_aside(6)], rule quiet_trans [OF quiet_aside(4) quiet_close_remotely])

lemma quiet_unsubscribe: "quiet s (unsubscribe i s)"
proof -
  have "quiet s (set_sub i ((sub i s)\<lparr>su_closed := True\<rparr>) s)" by (rule quiet_set_sub) (simp add: heeds_def)
  then have c: "quiet s (close_channel_of i (set_sub i ((sub i s)\<lparr>su_closed := True\<rparr>) s))"
    by (rule quiet_trans [OF _ quiet_close_of])
  show ?thesis using c quiet_trans [OF c quiet_aside(2)]
    by (simp add: unsubscribe_def Let_def split: option.split list.split)
qed

lemma quiet_connect_settles: "quiet s (connect_settles E i ok s)"
proof -
  let ?t = "s\<lparr>sb_connecting := remove1 i (sb_connecting s)\<rparr>"
  have t: "quiet s ?t" by simp
  show ?thesis using t quiet_trans [OF t quiet_start] by (simp add: connect_settles_def Let_def)
qed

lemma quiet_restore: "quiet s (restore_subscriptions E g s)"
  unfolding restore_subscriptions_def by (auto intro!: quiet_fold quiet_start simp del: fold_append)

lemma quiet_start_fails [simp]: "quiet s (start_fails i g sid f s)"
  by (simp add: start_fails_def Let_def)

lemma quiet_open: "open_subscription_channel i g rv th s = Inr t \<Longrightarrow> quiet s t"
proof -
  assume "open_subscription_channel i g rv th s = Inr t"
  then obtain r u where u: "t = set_sub i u (s\<lparr>sb_bindings := r\<rparr>)" and "u = (sub i s)\<lparr>su_channel := Some (length (sb_bindings s))\<rparr>"
    by (auto simp: open_subscription_channel_def fails_def Let_def split: if_splits)
  then have "heeds (sub i (s\<lparr>sb_bindings := r\<rparr>)) u" by (simp add: heeds_def)
  then show "quiet s t" unfolding u by (rule quiet_trans [OF quiet_same quiet_set_sub, rotated 2]) simp_all
qed

lemma quiet_answered: "quiet s (subscribe_answered i g sid r th s)"
  using quiet_open [of i g _ th s] quiet_trans [OF quiet_aside(5) quiet_start_fails]
  by (simp add: subscribe_answered_def Let_def split: sum.split option.split)

lemma quiet_call_answered: "quiet s (call_answered E n r th s)"
proof -
  let ?t = "s\<lparr>sb_calls := AList.delete n (sb_calls s)\<rparr>"
  have t: "quiet s ?t" by simp
  show ?thesis using t quiet_trans [OF t quiet_answered] quiet_trans [OF t quiet_continues]
    by (simp add: call_answered_def Let_def split: option.split call.split)
qed

lemma quiet_opening_throws [simp]: "quiet s (opening_throws b f s)"
  unfolding opening_throws_def Let_def
  by (rule quiet_trans [OF _ quiet_start_fails], rule quiet_trans [OF _ quiet_close_locally],
      rule quiet_trans [OF quiet_aside(1) quiet_aside(4)])

lemma quiet_opening: "quiet s (channel_wait_settles b r s)" "quiet s (binding_hello_sealed b s)"
  "quiet s (binding_ready_settles b s)"
proof -
  show "quiet s (channel_wait_settles b r s)" "quiet s (binding_hello_sealed b s)"
    by (simp_all add: channel_wait_settles_def binding_hello_sealed_def split: option.split)
  have "quiet t (opening_returns b t)" for t by (simp add: opening_returns_def Let_def)
  then have "quiet s (opening_returns b (opening_moves b p s))" for p by (rule quiet_trans [OF quiet_aside(7)])
  then show "quiet s (binding_ready_settles b s)" by (simp add: binding_ready_settles_def split: ready_state.split)
qed

lemma quiet_restart_settles: "quiet s (resubscription_settles i p s)"
proof -
  have "heeds (sub i t) ((sub i s)\<lparr>su_resubscribing := False\<rparr>)" if "sb_subscribers t = sb_subscribers s" for t
    using that by (simp add: heeds_def)
  then have "quiet s (set_sub i ((sub i s)\<lparr>su_resubscribing := False\<rparr>) (s\<lparr>sb_restarting := r\<rparr>))" for r
    by (intro quiet_trans [OF quiet_same quiet_set_sub]) simp_all
  then show ?thesis by (simp add: resubscription_settles_def split: option.split)
qed

lemma quiet_done [simp]: "quiet s (delivery_done b s)"
  by (simp add: delivery_done_def Let_def split: list.split)

lemma quiet_settles:
  assumes "quiet s t"
  shows "quiet s (delivery_settles E b (t, r))"
proof (cases r)
  case None
  then show ?thesis using quiet_trans [OF assms quiet_done] by (simp add: delivery_settles_def)
next
  case (Some f)
  then show ?thesis using quiet_trans [OF assms quiet_trans [OF quiet_delivery_failed quiet_done]]
    by (simp add: delivery_settles_def)
qed

lemma quiet_message: "quiet s (binding_message_arrives E b d s)"
  by (simp add: binding_message_arrives_def Let_def)

lemma quiet_run: "quiet s (run_delivery E b s)"
proof -
  have "quiet s (begin_delivery E b d s)" for d
    by (cases d) (auto simp: begin_delivery_def Let_def intro: quiet_settles
        split: sum.split prod.split chunk_step.split)
  then show ?thesis by (simp add: run_delivery_def split: delivery_phase.split list.split)
qed

lemma quiet_timeout: "quiet s (sub_assembly_timeout E b s)"
  using quiet_trans [OF quiet_aside(1) quiet_delivery_failed] by (simp add: sub_assembly_timeout_def Let_def)

lemma quiet_rejected: "quiet s (reject_reserved_channel reason label s)"
proof -
  have "quiet t (close_locally b (settle_binding r b (emit_failure b q (set_bind b x t))))" for b r q x t
    by (rule quiet_trans [OF _ quiet_close_locally], rule quiet_trans [OF _ quiet_aside(4)],
        rule quiet_trans [OF quiet_aside(1) quiet_aside(6)])
  then show ?thesis unfolding reject_reserved_channel_def
    by (intro quiet_fold) (simp add: reject_binding_def Let_def)
qed

lemma quiet_reset [simp]: "quiet s (reset_subscriptions s)"
proof -
  let ?t = "fold close_locally [0..<length (sb_bindings s)] s"
  have "quiet s ?t" by (rule quiet_fold) simp
  moreover have "list_all2 heeds xs (map reset_subscriber xs)" for xs
    by (simp add: list_all2_conv_all_nth reset_subscriber_def heeds_def)
  then have "quiet ?t (reset_subscriptions s)" by (simp add: quiet_def reset_subscriptions_def Let_def)
  ultimately show ?thesis by (rule quiet_trans)
qed

lemma quiet_attempt: "quiet s (subs_new_attempt s)"
  unfolding subs_new_attempt_def Let_def by (rule quiet_trans [OF quiet_reset quiet_same]) simp_all

lemmas quiet_events = quiet_unsubscribe quiet_connect_settles quiet_restore quiet_call_answered quiet_opening
  quiet_restart_settles quiet_message quiet_run quiet_timeout quiet_rejected quiet_reset quiet_attempt

text \<open>Every event but a new subscription and a decrypted frame is quiet.\<close>

fun loud :: "subs_event \<Rightarrow> bool" where
  "loud (Subscribe c) = True"
| "loud (Delivery_decrypted b th) = True"
| "loud e = False"

lemma quiet_event: "\<not> loud e \<Longrightarrow> quiet s (subs_step E e s)"
  using quiet_trans [OF quiet_aside(1) quiet_close_remotely]
  by (cases e) (simp_all add: subs_step_def quiet_events)

subsection \<open>What a listener hears\<close>

definition heard :: "nat \<Rightarrow> subs \<Rightarrow> jvalue list" where
  "heard i s = map snd (filter (\<lambda>d. fst d = i) (sb_delivered s))"

text \<open>
  The reference, for a listener whose present sequence is that of the subscription \<open>k\<close> and has reached
  \<open>q\<close>: a snapshot starts a sequence, that of the subscription it names; an error says nothing about
  it; a delta continues the sequence of its own subscription.
\<close>

definition frame_tag :: "jvalue \<Rightarrow> js_string option" where
  "frame_tag v = string_of (property_of ''type'' v)"

definition frame_seq :: "jvalue \<Rightarrow> jvalue option" where
  "frame_seq v = property_of ''snapshot_seq'' v"

definition frame_subscription :: "jvalue \<Rightarrow> js_string option" where
  "frame_subscription v = string_of (property_of ''subscription_id'' v)"

fun gap_free :: "environment \<Rightarrow> js_string option \<Rightarrow> jvalue option \<Rightarrow> jvalue list \<Rightarrow> bool" where
  "gap_free E k q [] = True"
| "gap_free E k q (v # vs) =
     (if frame_tag v = Some (js ''entity_error'') then gap_free E k q vs
      else if frame_tag v = Some (js ''entity_snapshot'') then gap_free E (frame_subscription v) (frame_seq v) vs
      else case q of
          None \<Rightarrow> False
        | Some current \<Rightarrow> frame_subscription v = k \<and> follows E (frame_seq v) current \<and> gap_free E k (frame_seq v) vs)"

fun reached_by :: "js_string option \<times> jvalue option \<Rightarrow> jvalue list \<Rightarrow> js_string option \<times> jvalue option" where
  "reached_by r [] = r"
| "reached_by r (v # vs) =
     reached_by (if frame_tag v = Some (js ''entity_error'') then r else (frame_subscription v, frame_seq v)) vs"

lemma gap_free_append:
  "gap_free E k q (xs @ ys) =
     (gap_free E k q xs \<and> gap_free E (fst (reached_by (k, q) xs)) (snd (reached_by (k, q) xs)) ys)"
  by (induction xs arbitrary: k q) (auto split: option.splits)

lemma reached_by_append: "reached_by r (xs @ ys) = reached_by (reached_by r xs) ys"
  by (induction xs arbitrary: r) auto

definition listener_ok :: "environment \<Rightarrow> nat \<Rightarrow> subs \<Rightarrow> bool" where
  "listener_ok E i s \<longleftrightarrow>
     (if i < length (sb_subscribers s)
      then is_entity (su_class (sub i s)) \<longrightarrow> gap_free E None None (heard i s)
        \<and> (su_seq (sub i s) = None
             \<or> (su_id (sub i s), su_seq (sub i s)) = reached_by (None, None) (heard i s))
      else heard i s = [])"

lemma heard_quiet: "quiet s t \<Longrightarrow> heard i t = heard i s"
  by (simp add: quiet_def heard_def)

lemma sub_quiet: "quiet s t \<Longrightarrow> i < length (sb_subscribers s) \<Longrightarrow> heeds (sub i s) (sub i t)"
  by (simp add: quiet_def list_all2_conv_all_nth)

lemma listener_quiet:
  assumes "quiet s t" "listener_ok E i s"
  shows "listener_ok E i t"
  using sub_quiet [OF assms(1), of i] assms(2) heard_quiet [OF assms(1), of i] quiet_length [OF assms(1)]
  by (auto simp: listener_ok_def heeds_def split: if_splits)

lemma find_SomeD: "find P xs = Some x \<Longrightarrow> P x \<and> x \<in> set xs"
  by (induction xs) (auto split: if_splits)

lemma frame_owner_in:
  assumes "frame_owner v g s = Some i"
  shows "i < length (sb_subscribers s) \<and> \<not> su_closed (sub i s) \<and> is_entity (su_class (sub i s))"
  using find_SomeD [OF assms [unfolded frame_owner_def]]
  by (cases "su_class (sub i s)") (auto simp: Let_def is_entity_def)

lemma frame_owner_names:
  assumes "frame_owner v g s = Some i"
  shows "frame_subscription v = su_id (sub i s)" "su_generation (sub i s) \<noteq> None"
  using find_SomeD [OF assms [unfolded frame_owner_def]]
  by (auto simp: Let_def frame_subscription_def)

lemma heard_deliver: "heard i (deliver j v s) = (if i = j then heard i s @ [v] else heard i s)"
  by (simp add: heard_def deliver_def)

lemma deliver_subscribers [simp]: "sb_subscribers (deliver j v s) = sb_subscribers s"
  by (simp add: deliver_def)

lemma heard_aside [simp]: "heard i (settle_ready r p s) = heard i s" "heard i (set_sub j u s) = heard i s"
  by (simp_all add: heard_def settle_ready_def set_sub_def split: option.split)

lemma set_sub_subscribers [simp]: "sb_subscribers (set_sub i u s) = (sb_subscribers s)[i := u]"
  by (simp add: set_sub_def)

text \<open>What a delivery does to the subscriber it is for.\<close>

definition delivers :: "environment \<Rightarrow> nat \<Rightarrow> jvalue \<Rightarrow> subs \<Rightarrow> subs \<Rightarrow> bool" where
  "delivers E i v s t \<longleftrightarrow> i < length (sb_subscribers s) \<and> \<not> su_closed (sub i s)
     \<and> sb_delivered t = sb_delivered s @ [(i, v)]
     \<and> (\<exists>u. sb_subscribers t = (sb_subscribers s)[i := u] \<and> su_class u = su_class (sub i s)
          \<and> su_closed u = su_closed (sub i s) \<and> su_id u = su_id (sub i s)
          \<and> (is_entity (su_class u) \<longrightarrow> frame_subscription v = su_id u \<and> su_generation (sub i s) \<noteq> None \<and>
               (if frame_tag v = Some (js ''entity_error'') then su_seq u = su_seq (sub i s)
                else su_seq u = frame_seq v \<and> (frame_tag v = Some (js ''entity_snapshot'')
                  \<or> (\<exists>c. su_seq (sub i s) = Some c \<and> follows E (frame_seq v) c)))))"

lemma settle_delivered [simp]: "sb_delivered (settle_ready r p s) = sb_delivered s" "sb_delivered (set_sub i u s) = sb_delivered s"
  "sb_delivered (deliver i v s) = sb_delivered s @ [(i, v)]"
  by (simp_all add: settle_ready_def set_sub_def deliver_def split: option.split)

lemma receive_entity_cases:
  obtains "quiet s (fst (receive_entity_frame E v g th s))"
  | i where "delivers E i v s (fst (receive_entity_frame E v g th s))"
proof (cases "frame_owner v g s")
  case None
  then show ?thesis using that(1) by (simp add: receive_entity_frame_def)
next
  case (Some i)
  note i = frame_owner_in [OF Some] frame_owner_names [OF Some]
  let ?u = "sub i s"
  consider (err) "frame_tag v = Some (js ''entity_error'')"
    | (snap) "frame_tag v \<noteq> Some (js ''entity_error'')" "frame_tag v = Some (js ''entity_snapshot'')"
    | (lost) "frame_tag v \<noteq> Some (js ''entity_error'')" "frame_tag v \<noteq> Some (js ''entity_snapshot'')"
        "\<not> (\<exists>c. su_seq ?u = Some c \<and> follows E (frame_seq v) c)"
    | (delta) c where "frame_tag v \<noteq> Some (js ''entity_error'')" "frame_tag v \<noteq> Some (js ''entity_snapshot'')"
        "su_seq ?u = Some c" "follows E (frame_seq v) c"
    by blast
  then show ?thesis
  proof cases
    case err
    then have "fst (receive_entity_frame E v g th s) = deliver i v s"
      using Some by (simp add: receive_entity_frame_def frame_tag_def Let_def)
    moreover have "(sb_subscribers s)[i := ?u] = sb_subscribers s" by simp
    ultimately have "delivers E i v s (fst (receive_entity_frame E v g th s))"
      using i err unfolding delivers_def by (intro conjI exI [of _ ?u]) simp_all
    then show ?thesis by (rule that(2))
  next
    case snap
    then have "fst (receive_entity_frame E v g th s)
        = deliver i v (settle_ready Ready_resolved (su_ready ?u) (set_sub i (?u\<lparr>su_seq := frame_seq v\<rparr>) s))"
      using Some by (simp add: receive_entity_frame_def frame_tag_def frame_seq_def Let_def)
    then have "delivers E i v s (fst (receive_entity_frame E v g th s))"
      using i snap unfolding delivers_def by (intro conjI exI [of _ "?u\<lparr>su_seq := frame_seq v\<rparr>"]) simp_all
    then show ?thesis by (rule that(2))
  next
    case lost
    then have "fst (receive_entity_frame E v g th s) = resubscribe E i g s"
      using Some by (auto simp: receive_entity_frame_def frame_tag_def frame_seq_def Let_def split: option.split)
    then show ?thesis using that(1) by simp
  next
    case (delta c)
    then have "fst (receive_entity_frame E v g th s) = deliver i v (set_sub i (?u\<lparr>su_seq := frame_seq v\<rparr>) s)"
      using Some by (simp add: receive_entity_frame_def frame_tag_def frame_seq_def Let_def)
    then have "delivers E i v s (fst (receive_entity_frame E v g th s))"
      using i delta unfolding delivers_def by (intro conjI exI [of _ "?u\<lparr>su_seq := frame_seq v\<rparr>"]) simp_all
    then show ?thesis by (rule that(2))
  qed
qed

lemma delivers_listener:
  assumes "delivers E j v s t" "listener_ok E i s"
  shows "listener_ok E i t"
proof -
  obtain u where u: "sb_subscribers t = (sb_subscribers s)[j := u]" "su_class u = su_class (sub j s)"
    and k: "su_id u = su_id (sub j s)" and n: "is_entity (su_class u) \<Longrightarrow> frame_subscription v = su_id u"
    and e: "is_entity (su_class u) \<Longrightarrow> if frame_tag v = Some (js ''entity_error'') then su_seq u = su_seq (sub j s)
      else su_seq u = frame_seq v \<and> (frame_tag v = Some (js ''entity_snapshot'')
        \<or> (\<exists>c. su_seq (sub j s) = Some c \<and> follows E (frame_seq v) c))"
    using assms(1) unfolding delivers_def by blast
  have j: "j < length (sb_subscribers s)" and d: "sb_delivered t = sb_delivered s @ [(j, v)]"
    using assms(1) by (simp_all add: delivers_def)
  have h: "heard k t = (if k = j then heard k s @ [v] else heard k s)" for k by (simp add: heard_def d)
  show ?thesis
  proof (cases "i = j")
    case True
    have "reached_by (None, None) (heard j s) = (su_id u, c)" if "su_seq (sub j s) = Some c'" "c = Some c'"
        "is_entity (su_class u)" for c c'
      using assms(2) True that j u k by (simp add: listener_ok_def)
    then show ?thesis
      using assms(2) True e j u k n
      by (auto simp: listener_ok_def h gap_free_append reached_by_append split: if_splits option.split)
  next
    case False
    then show ?thesis using assms(2) u by (simp add: listener_ok_def h)
  qed
qed

lemma receive_package_cases:
  assumes "bi_owner (bind b s) < length (sb_subscribers s)"
  obtains "quiet s (fst (receive_package_event b v th s))"
  | i where "delivers E i v s (fst (receive_package_event b v th s))"
proof -
  let ?i = "bi_owner (bind b s)"
  show ?thesis
  proof (cases "fst (receive_package_event b v th s) = s")
    case True
    then show ?thesis using that(1) by simp
  next
    case False
    then have f: "fst (receive_package_event b v th s) = deliver ?i v s" "\<not> su_closed (sub ?i s)"
      "\<not> is_entity (su_class (sub ?i s))"
      by (auto simp: receive_package_event_def Let_def is_entity_def split: channel_class.splits if_splits)
    have "delivers E ?i v s (fst (receive_package_event b v th s))"
      using f assms unfolding delivers_def by (intro conjI exI [of _ "sub ?i s"]) simp_all
    then show ?thesis by (rule that(2))
  qed
qed

subsection \<open>Calm operations\<close>

text \<open>Only its own messages change what a binding has queued.\<close>

definition bystander :: "binding \<Rightarrow> binding \<Rightarrow> bool" where
  "bystander x y \<longleftrightarrow> bi_queue y = bi_queue x \<and> bi_frames y = bi_frames x \<and> bi_bytes y = bi_bytes x
     \<and> bi_owner y = bi_owner x \<and> bi_phase y = bi_phase x"

definition calm :: "subs \<Rightarrow> subs \<Rightarrow> bool" where
  "calm s t \<longleftrightarrow> list_all2 bystander (sb_bindings s) (sb_bindings t)"

lemma same_set_bind [simp]:
  "sb_generation (set_bind b x s) = sb_generation s" "sb_promises (set_bind b x s) = sb_promises s"
  "sb_calls (set_bind b x s) = sb_calls s" "sb_connecting (set_bind b x s) = sb_connecting s"
  "sb_restarting (set_bind b x s) = sb_restarting s" "sb_bindings (set_bind b x s) = (sb_bindings s)[b := x]"
  "sb_generation (settle_binding r b s) = sb_generation s" "sb_promises (settle_binding r b s) = sb_promises s"
  "sb_calls (settle_binding r b s) = sb_calls s" "sb_connecting (settle_binding r b s) = sb_connecting s"
  "sb_restarting (settle_binding r b s) = sb_restarting s" "length (sb_bindings (settle_binding r b s)) = length (sb_bindings s)"
  by (simp_all add: set_bind_def settle_binding_def)

lemma same_set_sub [simp]:
  "sb_generation (set_sub i u s) = sb_generation s" "sb_promises (set_sub i u s) = sb_promises s"
  "sb_calls (set_sub i u s) = sb_calls s" "sb_connecting (set_sub i u s) = sb_connecting s"
  "sb_restarting (set_sub i u s) = sb_restarting s" "sb_bindings (set_sub i u s) = sb_bindings s"
  by (simp_all add: set_sub_def)

lemma bystander_refl [simp]: "bystander x x"
  by (simp add: bystander_def)

lemma calm_same [simp]: "sb_bindings t = sb_bindings s \<Longrightarrow> calm s t"
  by (simp add: calm_def list_all2_refl)

lemma calm_trans: "calm s t \<Longrightarrow> calm t u \<Longrightarrow> calm s u"
  unfolding calm_def by (rule list_all2_trans [of bystander bystander bystander]) (auto simp: bystander_def)

lemma calm_length: "calm s t \<Longrightarrow> length (sb_bindings t) = length (sb_bindings s)"
  unfolding calm_def by (metis list_all2_lengthD)

lemma calm_bind: "calm s t \<Longrightarrow> b < length (sb_bindings s) \<Longrightarrow> bystander (bind b s) (bind b t)"
  by (simp add: calm_def list_all2_conv_all_nth)

lemma calm_set_bind: "bystander (bind b s) x \<Longrightarrow> calm s (set_bind b x s)"
proof -
  assume "bystander (bind b s) x"
  then have "bystander (bind k s) ((sb_bindings s)[b := x] ! k)" if "k < length (sb_bindings s)" for k
    using that by (cases "k = b") simp_all
  then show ?thesis by (simp add: calm_def list_all2_conv_all_nth)
qed

lemma calm_aside [simp]:
  "calm s (set_sub i u s)" "calm s (send_call c s)" "calm s (settle_ready r p s)" "calm s (settle_binding r b s)"
  "calm s (emit_channel_failure cl sid fr s)" "calm s (emit_failure b fr s)" "calm s (opening_moves b ph s)"
  "calm s (deliver j v s)"
  by (simp_all add: send_call_def settle_ready_def settle_binding_def emit_channel_failure_def deliver_def
      emit_failure_def opening_moves_def calm_set_bind bystander_def split: option.split)

lemma calm_fold: "(\<And>x s. calm s (f x s)) \<Longrightarrow> calm s (fold f xs s)"
  by (induction xs arbitrary: s) (auto intro: calm_trans)

lemma calm_close_locally [simp]: "calm s (close_locally b s)"
proof -
  have f: "calm t (forget_channel b t)" for t by (simp add: forget_channel_def Let_def)
  let ?t = "settle_binding (Ready_rejected channel_closed_failure) b (set_bind b ((bind b s)\<lparr>bi_closed := True\<rparr>) s)"
  have "calm s ?t" by (rule calm_trans [OF calm_set_bind calm_aside(4)]) (simp add: bystander_def)
  moreover have "calm ?t (forget_channel b (set_bind b ((bind b ?t)\<lparr>bi_timer := q, bi_channel := c\<rparr>) ?t))" for q c
    by (rule calm_trans [OF calm_set_bind f]) (simp add: bystander_def)
  ultimately show ?thesis by (simp add: close_locally_def Let_def) (blast intro: calm_trans)
qed

lemma calm_close_of [simp]: "calm s (close_channel_of i s)"
  by (simp add: close_channel_of_def split: option.split)

lemma calm_start [simp]: "calm s (fst (start_subscription E i g s))"
  by (simp add: start_subscription_def Let_def send_call_def calm_def list_all2_refl set_sub_def split: option.split)

lemma calm_continues [simp]: "calm s (resubscribe_continues E i g s)"
proof -
  let ?v = "(sub i s)\<lparr>su_generation := None, su_id := None, su_seq := None,
    su_ready := (if is_entity (su_class (sub i s)) then su_ready (sub i s) else None)\<rparr>"
  obtain t p where t: "start_subscription E i g (set_sub i ?v s) = (t, p)" by fastforce
  have "calm s t" using calm_trans [OF calm_aside(1) calm_start] t by (metis fst_conv)
  then have "calm s (t\<lparr>sb_restarting := r\<rparr>)" for r by (simp add: calm_def)
  then show ?thesis using t by (simp add: resubscribe_continues_def Let_def)
qed

lemma calm_resubscribe [simp]: "calm s (resubscribe E i g s)"
proof -
  have c: "calm s (close_channel_of i (set_sub i u s))" for u by (rule calm_trans [OF calm_aside(1) calm_close_of])
  show ?thesis
    using calm_trans [OF c calm_aside(2)] calm_trans [OF c calm_continues]
    by (simp add: resubscribe_def Let_def split: option.split list.split)
qed

lemma calm_close_remotely [simp]: "calm s (close_remotely E b s)"
proof -
  have "calm s (resubscribe E i g (emit_failure b r (close_locally b s)))" for i g r
    by (rule calm_trans [OF calm_close_locally], rule calm_trans [OF calm_aside(6) calm_resubscribe])
  then show ?thesis by (simp add: close_remotely_def Let_def)
qed

lemma calm_delivery_failed [simp]: "calm s (delivery_failed E b f s)"
  unfolding delivery_failed_def
  by (rule calm_trans [OF calm_aside(6)], rule calm_trans [OF calm_aside(4) calm_close_remotely])

lemma calm_receive_entity [simp]: "calm s (fst (receive_entity_frame E v g th s))"
proof -
  have "calm s (deliver i v (settle_ready r p (set_sub i u s)))" "calm s (deliver i v (set_sub i u s))" for i r p u
    by (rule calm_trans [OF calm_aside(1)], rule calm_trans [OF calm_aside(3) calm_aside(8)])
      (rule calm_trans [OF calm_aside(1) calm_aside(8)])
  then show ?thesis by (simp add: receive_entity_frame_def Let_def split: option.split)
qed

lemma calm_finish [simp]: "calm s (fst (finish_delivery E b payload th s))"
proof -
  have "calm s (settle_binding Ready_resolved b (set_bind b ((bind b s)\<lparr>bi_admitted := True\<rparr>) s))"
    by (rule calm_trans [OF calm_set_bind calm_aside(4)]) (simp add: bystander_def)
  moreover have "calm s (fst (receive_package_event b v th s))" for v
    by (simp add: receive_package_event_def Let_def split: channel_class.split)
  ultimately show ?thesis
    by (simp add: finish_delivery_def Let_def split: option.split sum.split server_frame.split)
qed

subsection \<open>Indices and links\<close>

definition ready_in :: "subs \<Rightarrow> subscriber \<Rightarrow> bool" where
  "ready_in s u \<longleftrightarrow> (\<forall>k. su_ready u = Some k \<longrightarrow> k < length (sb_promises s))"

definition current_in :: "subs \<Rightarrow> subscriber \<Rightarrow> bool" where
  "current_in s u \<longleftrightarrow> (\<not> su_closed u \<longrightarrow> (\<forall>g. su_generation u = Some g \<longrightarrow> g = sb_generation s \<and> su_id u \<noteq> None))"

definition linked_in :: "subs \<Rightarrow> nat \<Rightarrow> subscriber \<Rightarrow> bool" where
  "linked_in s i u \<longleftrightarrow> (\<forall>b. su_channel u = Some b \<longrightarrow> b < length (sb_bindings s) \<and> bi_owner (bind b s) = i
     \<and> \<not> bi_closed (bind b s))"

fun call_subscriber :: "call \<Rightarrow> nat option" where
  "call_subscriber (Subscribe_call i g sid) = Some i"
| "call_subscriber (Resubscribe_call i g sid) = Some i"
| "call_subscriber (Unsubscribe_call sid) = None"

definition links_ok :: "subs \<Rightarrow> bool" where
  "links_ok s \<longleftrightarrow>
     (\<forall>i < length (sb_subscribers s). ready_in s (sub i s) \<and> current_in s (sub i s) \<and> linked_in s i (sub i s))
     \<and> (\<forall>b < length (sb_bindings s). bi_owner (bind b s) < length (sb_subscribers s)
          \<and> (bi_closed (bind b s) \<or> bi_transport_generation (bind b s) = sb_generation s))
     \<and> (\<forall>i. Some i \<in> call_subscriber ` snd ` set (sb_calls s) \<longrightarrow> i < length (sb_subscribers s))
     \<and> (\<forall>i \<in> set (sb_connecting s). i < length (sb_subscribers s))
     \<and> (\<forall>r \<in> set (sb_restarting s). fst r < length (sb_subscribers s))"

lemma links_set_sub:
  assumes "links_ok s" "ready_in s u" "current_in s u" "su_channel u = su_channel (sub i s) \<or> su_channel u = None"
  shows "links_ok (set_sub i u s)"
proof -
  have "linked_in s k ((sb_subscribers s)[i := u] ! k)" if "k < length (sb_subscribers s)" for k
    using assms(1,4) that by (cases "k = i") (auto simp: links_ok_def linked_in_def)
  moreover have "ready_in s ((sb_subscribers s)[i := u] ! k)" "current_in s ((sb_subscribers s)[i := u] ! k)"
    if "k < length (sb_subscribers s)" for k
    using assms(1-3) that by (cases "k = i"; simp add: links_ok_def)+
  ultimately show ?thesis
    using assms(1) by (simp add: links_ok_def set_sub_def ready_in_def current_in_def linked_in_def)
qed

lemma links_set_bind:
  assumes "links_ok s" "bi_owner x = bi_owner (bind b s)" "bi_closed x = bi_closed (bind b s)"
    "bi_transport_generation x = bi_transport_generation (bind b s)"
  shows "links_ok (set_bind b x s)"
proof -
  have f: "bi_owner ((sb_bindings s)[b := x] ! k) = bi_owner (bind k s)"
    "bi_closed ((sb_bindings s)[b := x] ! k) = bi_closed (bind k s)"
    "bi_transport_generation ((sb_bindings s)[b := x] ! k) = bi_transport_generation (bind k s)"
    if "k < length (sb_bindings s)" for k
    using assms(2-4) that by (cases "k = b"; simp)+
  then have "linked_in (set_bind b x s) i u = linked_in s i u" for i u
    by (auto simp: linked_in_def set_bind_def)
  then show ?thesis using assms(1) f by (simp add: links_ok_def ready_in_def current_in_def)
qed

lemma links_same:
  "sb_subscribers t = sb_subscribers s \<Longrightarrow> sb_bindings t = sb_bindings s \<Longrightarrow> sb_generation t = sb_generation s
    \<Longrightarrow> length (sb_promises t) = length (sb_promises s) \<Longrightarrow> sb_calls t = sb_calls s
    \<Longrightarrow> sb_connecting t = sb_connecting s \<Longrightarrow> sb_restarting t = sb_restarting s \<Longrightarrow> links_ok s \<Longrightarrow> links_ok t"
  by (simp add: links_ok_def ready_in_def current_in_def linked_in_def)

lemma links_settle_ready: "links_ok s \<Longrightarrow> links_ok (settle_ready r p s)"
  by (rule links_same) (simp_all add: settle_ready_def split: option.split)

lemma links_settle_binding: "links_ok s \<Longrightarrow> links_ok (settle_binding r b s)"
  by (simp add: settle_binding_def links_set_bind)

lemma links_emit: "links_ok s \<Longrightarrow> links_ok (emit_channel_failure cl i r s)" "links_ok s \<Longrightarrow> links_ok (emit_failure b r s)"
  by (rule links_same; simp add: emit_channel_failure_def emit_failure_def)+

lemma links_deliver: "links_ok s \<Longrightarrow> links_ok (deliver i v s)"
  by (rule links_same) (simp_all add: deliver_def)

lemma links_opening_moves: "links_ok s \<Longrightarrow> links_ok (opening_moves b p s)"
  unfolding opening_moves_def by (rule links_set_bind) simp_all

lemma links_send_call:
  "links_ok s \<Longrightarrow> (\<And>i. call_subscriber c = Some i \<Longrightarrow> i < length (sb_subscribers s)) \<Longrightarrow> links_ok (send_call c s)"
  by (auto simp: links_ok_def send_call_def ready_in_def current_in_def linked_in_def)

lemma links_fewer:
  assumes "links_ok s" "sb_subscribers t = sb_subscribers s" "sb_bindings t = sb_bindings s"
    "sb_generation t = sb_generation s" "sb_promises t = sb_promises s" "set (sb_calls t) \<subseteq> set (sb_calls s)"
    "set (sb_connecting t) \<subseteq> set (sb_connecting s)" "set (sb_restarting t) \<subseteq> set (sb_restarting s)"
  shows "links_ok t"
proof -
  have c: "i < length (sb_subscribers s)" if "Some i \<in> call_subscriber ` snd ` set (sb_calls t)" for i
  proof -
    have "Some i \<in> call_subscriber ` snd ` set (sb_calls s)" using that assms(6) by blast
    then show ?thesis using assms(1) unfolding links_ok_def by blast
  qed
  have "\<forall>i \<in> set (sb_connecting t). i < length (sb_subscribers s)" using assms(1,7) unfolding links_ok_def by blast
  moreover have "\<forall>r \<in> set (sb_restarting t). fst r < length (sb_subscribers s)" using assms(1,8) unfolding links_ok_def by blast
  moreover have "ready_in t u = ready_in s u" "current_in t u = current_in s u" "linked_in t i u = linked_in s i u" for i u
    by (simp_all add: ready_in_def current_in_def linked_in_def assms(3-5))
  ultimately show ?thesis using assms(1) c by (simp add: links_ok_def assms(2-4))
qed

lemma settle_binding_bindings:
  "b < length (sb_bindings s) \<Longrightarrow>
    sb_bindings (settle_binding r b s) = (sb_bindings s)[b := (bind b s)\<lparr>bi_readiness :=
      (if bi_readiness (bind b s) = Ready_pending then r else bi_readiness (bind b s))\<rparr>]"
  by (simp add: settle_binding_def set_bind_def)

lemma close_locally_form:
  assumes "b < length (sb_bindings s)" "\<not> bi_closed (bind b s)"
  obtains x where "bi_owner x = bi_owner (bind b s)" "bi_closed x"
    "bi_transport_generation x = bi_transport_generation (bind b s)"
    "sb_bindings (close_locally b s) = (sb_bindings s)[b := x]"
    "sb_subscribers (close_locally b s) = (let i = bi_owner (bind b s); u = sub i s in
       if su_channel u = Some b then (sb_subscribers s)[i := u\<lparr>su_channel := None\<rparr>] else sb_subscribers s)"
    "sb_generation (close_locally b s) = sb_generation s" "sb_promises (close_locally b s) = sb_promises s"
    "sb_calls (close_locally b s) = sb_calls s" "sb_connecting (close_locally b s) = sb_connecting s"
    "sb_restarting (close_locally b s) = sb_restarting s"
proof -
  let ?c = "set_bind b ((bind b s)\<lparr>bi_closed := True\<rparr>) s"
  let ?t = "settle_binding (Ready_rejected channel_closed_failure) b ?c"
  let ?y = "(bind b ?t)\<lparr>bi_timer := False,
    bi_channel := (if bi_channel (bind b ?t) = Channel_closed then Channel_closed else Channel_closing)\<rparr>"
  have b: "bi_owner (bind b ?t) = bi_owner (bind b s)" "bi_closed (bind b ?t)"
    "bi_transport_generation (bind b ?t) = bi_transport_generation (bind b s)"
    "(sb_bindings ?t)[b := z] = (sb_bindings s)[b := z]" for z
    using assms(1) by (simp_all add: settle_binding_bindings)
  have form: "close_locally b s = forget_channel b (set_bind b ?y ?t)"
    using assms(2) by (simp add: close_locally_def Let_def)
  show ?thesis
    by (rule that [of ?y]) (use assms(1) b in \<open>simp_all add: form forget_channel_def Let_def\<close>)
qed

lemma links_close_locally:
  assumes "links_ok s" "b < length (sb_bindings s)"
  shows "links_ok (close_locally b s)"
proof (cases "bi_closed (bind b s)")
  case False
  from close_locally_form [OF assms(2) False] obtain x where x: "bi_owner x = bi_owner (bind b s)" "bi_closed x"
    "bi_transport_generation x = bi_transport_generation (bind b s)"
    and t: "sb_bindings (close_locally b s) = (sb_bindings s)[b := x]"
    "sb_subscribers (close_locally b s) = (let i = bi_owner (bind b s); u = sub i s in
       if su_channel u = Some b then (sb_subscribers s)[i := u\<lparr>su_channel := None\<rparr>] else sb_subscribers s)"
    "sb_generation (close_locally b s) = sb_generation s" "sb_promises (close_locally b s) = sb_promises s"
    "sb_calls (close_locally b s) = sb_calls s" "sb_connecting (close_locally b s) = sb_connecting s"
    "sb_restarting (close_locally b s) = sb_restarting s" by blast
  define t where "t = close_locally b s"
  note t = t [folded t_def]
  let ?o = "bi_owner (bind b s)"
  have len: "length (sb_subscribers t) = length (sb_subscribers s)" by (simp add: t Let_def)
  have su: "sub i t = (if i = ?o \<and> su_channel (sub i s) = Some b then (sub i s)\<lparr>su_channel := None\<rparr> else sub i s)"
    if "i < length (sb_subscribers s)" for i using that by (auto simp: t Let_def)
  have "linked_in t i (sub i t)" if i: "i < length (sb_subscribers s)" for i
  proof -
    have l: "linked_in s i (sub i s)" using assms(1) i by (simp add: links_ok_def)
    then have "su_channel (sub i s) = Some b \<Longrightarrow> i = ?o" by (auto simp: linked_in_def)
    moreover have "c < length (sb_bindings t) \<and> bi_owner (bind c t) = i \<and> \<not> bi_closed (bind c t)"
      if "su_channel (sub i s) = Some c" "c \<noteq> b" for c
      using l that by (simp add: linked_in_def t)
    ultimately show ?thesis unfolding linked_in_def su [OF i] by auto
  qed
  moreover have "ready_in t (sub i t)" "current_in t (sub i t)" if i: "i < length (sb_subscribers s)" for i
    using assms(1) i unfolding su [OF i] by (auto simp: links_ok_def ready_in_def current_in_def t(3,4))
  moreover have "bi_owner (bind c t) < length (sb_subscribers t) \<and> (bi_closed (bind c t) \<or> bi_transport_generation (bind c t) = sb_generation t)"
    if "c < length (sb_bindings t)" for c
    using assms that x len by (cases "c = b") (auto simp: links_ok_def t)
  ultimately show ?thesis using assms(1) unfolding t_def [symmetric] by (simp add: links_ok_def len t(3-))
qed (use assms in \<open>simp add: close_locally_def\<close>)

lemma close_locally_lengths [simp]:
  "length (sb_subscribers (close_locally b s)) = length (sb_subscribers s)"
  "length (sb_bindings (close_locally b s)) = length (sb_bindings s)"
  "sb_promises (close_locally b s) = sb_promises s" "sb_generation (close_locally b s) = sb_generation s"
  by (simp_all add: close_locally_def forget_channel_def Let_def settle_binding_def)

lemma links_close_of:
  assumes "links_ok s" "i < length (sb_subscribers s)"
  shows "links_ok (close_channel_of i s)"
proof -
  have "linked_in s i (sub i s)" using assms by (simp add: links_ok_def)
  then show ?thesis using links_close_locally [OF assms(1)] assms(1)
    by (simp add: close_channel_of_def linked_in_def split: option.split)
qed

lemma start_length: "length (sb_subscribers (fst (start_subscription E i g s))) = length (sb_subscribers s)"
  by (rule quiet_length) simp

lemma links_start:
  assumes "links_ok s" "i < length (sb_subscribers s)"
  shows "links_ok (fst (start_subscription E i g s))"
proof (cases "su_closed (sub i s) \<or> g \<noteq> sb_generation s \<or> su_generation (sub i s) = Some g \<and> su_ready (sub i s) \<noteq> None")
  case True
  then show ?thesis using assms(1) by (auto simp: start_subscription_def Let_def)
next
  case False
  define k where "k = (case su_ready (sub i s) of Some k \<Rightarrow> k | None \<Rightarrow> length (sb_promises s))"
  define ps where "ps = (case su_ready (sub i s) of Some k \<Rightarrow> sb_promises s | None \<Rightarrow> sb_promises s @ [Ready_pending])"
  let ?s = "s\<lparr>sb_next_id := sb_next_id s + 1, sb_promises := ps\<rparr>"
  let ?u = "(sub i s)\<lparr>su_generation := Some g, su_id := Some (en_id E (sb_next_id s)), su_seq := None, su_ready := Some k\<rparr>"
  have form: "fst (start_subscription E i g s) = send_call (Subscribe_call i g (en_id E (sb_next_id s))) (set_sub i ?u ?s)"
    using False by (auto simp: start_subscription_def Let_def k_def ps_def split: option.split)
  have le: "length (sb_promises s) \<le> length ps" by (simp add: ps_def split: option.split)
  then have s: "links_ok ?s" using assms(1) by (fastforce simp: links_ok_def ready_in_def current_in_def linked_in_def)
  have "k < length ps" using assms by (auto simp: k_def ps_def links_ok_def ready_in_def split: option.split)
  then have "links_ok (set_sub i ?u ?s)"
    using False by (intro links_set_sub [OF s]) (simp_all add: ready_in_def current_in_def)
  then show ?thesis unfolding form by (rule links_send_call) (use assms(2) in simp)
qed

lemma links_continues:
  assumes "links_ok s" "i < length (sb_subscribers s)"
  shows "links_ok (resubscribe_continues E i g s)"
proof -
  let ?v = "(sub i s)\<lparr>su_generation := None, su_id := None, su_seq := None,
    su_ready := (if is_entity (su_class (sub i s)) then su_ready (sub i s) else None)\<rparr>"
  obtain t p where t: "start_subscription E i g (set_sub i ?v s) = (t, p)" by fastforce
  have "links_ok (set_sub i ?v s)"
    by (rule links_set_sub [OF assms(1)]) (use assms in \<open>simp_all add: links_ok_def ready_in_def current_in_def\<close>)
  then have "links_ok t" "length (sb_subscribers t) = length (sb_subscribers s)"
    using links_start [of "set_sub i ?v s" i E g] start_length [of E i g "set_sub i ?v s"] assms(2) t by simp_all
  then have "links_ok (t\<lparr>sb_restarting := sb_restarting t @ [(i, p)]\<rparr>)"
    using assms(2) by (auto simp: links_ok_def ready_in_def current_in_def linked_in_def)
  then show ?thesis using t by (simp add: resubscribe_continues_def Let_def)
qed

lemma quiet_index: "quiet s t \<Longrightarrow> i < length (sb_subscribers s) \<Longrightarrow> i < length (sb_subscribers t)"
  by (simp add: quiet_length)

lemma links_resubscribe:
  assumes "links_ok s" "i < length (sb_subscribers s)"
  shows "links_ok (resubscribe E i g s)"
proof -
  let ?r = "set_sub i ((sub i s)\<lparr>su_resubscribing := True\<rparr>) s"
  have "links_ok ?r"
    by (rule links_set_sub [OF assms(1)]) (use assms in \<open>simp_all add: links_ok_def ready_in_def current_in_def\<close>)
  then have c: "links_ok (close_channel_of i ?r)" by (rule links_close_of) (simp add: assms(2))
  have i: "i < length (sb_subscribers (close_channel_of i ?r))" by (rule quiet_index [OF quiet_close_of]) (simp add: assms(2))
  show ?thesis
    using assms(1) links_send_call [OF c, of "Resubscribe_call i h sid" for h sid] links_continues [OF c i] i
    by (simp add: resubscribe_def Let_def split: option.split list.split)
qed

lemma links_close_remotely:
  assumes "links_ok s" "b < length (sb_bindings s)"
  shows "links_ok (close_remotely E b s)"
proof -
  have o: "bi_owner (bind b s) < length (sb_subscribers s)" using assms by (simp add: links_ok_def)
  note c = links_close_locally [OF assms]
  have "links_ok (resubscribe E (bi_owner (bind b s)) g (emit_failure b r (close_locally b s)))" for g r
    by (rule links_resubscribe [OF links_emit(2) [OF c]]) (simp add: o)
  then show ?thesis using c assms(1) by (simp add: close_remotely_def Let_def)
qed

lemma emit_bindings [simp]: "sb_bindings (emit_failure b r s) = sb_bindings s"
  by (simp add: emit_failure_def emit_channel_failure_def)

lemma links_delivery_failed: "links_ok s \<Longrightarrow> b < length (sb_bindings s) \<Longrightarrow> links_ok (delivery_failed E b f s)"
  unfolding delivery_failed_def by (rule links_close_remotely) (simp_all add: links_settle_binding links_emit)

lemma links_unsubscribe:
  assumes "links_ok s" "i < length (sb_subscribers s)"
  shows "links_ok (unsubscribe i s)"
proof -
  have "links_ok (set_sub i ((sub i s)\<lparr>su_closed := True\<rparr>) s)"
    by (rule links_set_sub [OF assms(1)]) (use assms in \<open>simp_all add: links_ok_def ready_in_def current_in_def\<close>)
  then have "links_ok (close_channel_of i (set_sub i ((sub i s)\<lparr>su_closed := True\<rparr>) s))"
    by (rule links_close_of) (simp add: assms(2))
  then show ?thesis using assms(1) links_send_call [of _ "Unsubscribe_call sid" for sid]
    by (simp add: unsubscribe_def Let_def split: option.split list.split)
qed

lemma links_start_fails: "links_ok s \<Longrightarrow> links_ok (start_fails i g sid f s)"
  by (simp add: start_fails_def Let_def links_settle_ready)

lemma open_form:
  assumes "open_subscription_channel i g rv th s = Inr t"
  obtains x where "bi_owner x = i" "\<not> bi_closed x" "bi_transport_generation x = sb_generation s"
    "t = set_sub i ((sub i s)\<lparr>su_channel := Some (length (sb_bindings s))\<rparr>) (s\<lparr>sb_bindings := sb_bindings s @ [x]\<rparr>)"
    "bi_admitted x = False" "bi_frames x = 0" "bi_bytes x = 0" "bi_queue x = []" "bi_phase x = No_delivery"
proof -
  define x where "x = \<lparr>bi_owner = i, bi_start_generation = g, bi_transport_generation = sb_generation s,
    bi_subscription_id = rv_subscription_id rv, bi_label = rv_label rv, bi_channel = Connecting,
    bi_closed = False, bi_admitted = False, bi_rejection = None, bi_completed = [], bi_assembly = None,
    bi_timer = False, bi_readiness = Ready_pending, bi_frames = 0, bi_bytes = 0, bi_queue = [],
    bi_phase = No_delivery, bi_opening = Waiting_channel\<rparr>"
  show ?thesis
    by (rule that [of x]) (use assms in \<open>auto simp: open_subscription_channel_def fails_def Let_def x_def split: if_splits\<close>)
qed

lemma links_open:
  assumes "open_subscription_channel i g rv th s = Inr t" "links_ok s" "i < length (sb_subscribers s)"
  shows "links_ok t"
proof -
  from open_form [OF assms(1)] obtain x where x: "bi_owner x = i" "\<not> bi_closed x" "bi_transport_generation x = sb_generation s"
    and t: "t = set_sub i ((sub i s)\<lparr>su_channel := Some (length (sb_bindings s))\<rparr>) (s\<lparr>sb_bindings := sb_bindings s @ [x]\<rparr>)"
    by blast
  let ?u = "(sub i s)\<lparr>su_channel := Some (length (sb_bindings s))\<rparr>"
  have f: "sb_subscribers t = (sb_subscribers s)[i := ?u]" "sb_bindings t = sb_bindings s @ [x]" "sb_generation t = sb_generation s"
    "sb_promises t = sb_promises s" "sb_calls t = sb_calls s" "sb_connecting t = sb_connecting s" "sb_restarting t = sb_restarting s"
    by (simp_all add: t set_sub_def)
  have old: "ready_in s (sub k s)" "current_in s (sub k s)" "linked_in s k (sub k s)" if "k < length (sb_subscribers s)" for k
    using assms(2) that by (simp_all add: links_ok_def)
  have u: "ready_in t ?u" "current_in t ?u" "linked_in t i ?u"
    using old [OF assms(3)] x by (simp_all add: ready_in_def current_in_def linked_in_def f)
  have "linked_in t k (sub k s)" if "k < length (sb_subscribers s)" for k
    using old(3) [OF that] by (auto simp: linked_in_def f nth_append)
  then have "ready_in t (sub k t) \<and> current_in t (sub k t) \<and> linked_in t k (sub k t)" if "k < length (sb_subscribers s)" for k
    using old [OF that] u that by (cases "k = i") (simp_all add: f ready_in_def current_in_def)
  moreover have "bi_owner (bind c t) < length (sb_subscribers s) \<and> (bi_closed (bind c t) \<or> bi_transport_generation (bind c t) = sb_generation s)"
    if "c < length (sb_bindings t)" for c
    using assms(2,3) x that by (cases "c = length (sb_bindings s)") (auto simp: links_ok_def f nth_append)
  ultimately show ?thesis using assms(2) by (simp add: links_ok_def f)
qed

lemma links_answered:
  assumes "links_ok s" "i < length (sb_subscribers s)"
  shows "links_ok (subscribe_answered i g sid r th s)"
  using assms links_start_fails links_open [OF _ assms] links_start_fails [OF links_emit(1)]
  by (simp add: subscribe_answered_def Let_def split: sum.split option.split)

lemma set_delete: "set (AList.delete k m) \<subseteq> set m"
  by (auto simp: AList.delete_eq)

lemma links_call_answered:
  assumes "links_ok s"
  shows "links_ok (call_answered E n r th s)"
proof (cases "map_of (sb_calls s) n")
  case (Some c)
  let ?s = "s\<lparr>sb_calls := AList.delete n (sb_calls s)\<rparr>"
  have s: "links_ok ?s" by (rule links_fewer [OF assms]) (simp_all add: set_delete)
  have "c \<in> snd ` set (sb_calls s)" using map_of_SomeD [OF Some] by force
  then have "i < length (sb_subscribers s)" if "call_subscriber c = Some i" for i
    using assms that unfolding links_ok_def by (metis image_eqI)
  then show ?thesis using s Some links_answered [OF s] links_continues [OF s]
    by (cases c) (simp_all add: call_answered_def Let_def)
qed (simp add: call_answered_def assms)

lemma links_opening_throws:
  assumes "links_ok s" "b < length (sb_bindings s)"
  shows "links_ok (opening_throws b f s)"
  unfolding opening_throws_def Let_def
  by (intro links_start_fails links_close_locally links_settle_binding links_set_bind assms) (simp_all add: assms(2))

lemma links_opening:
  assumes "links_ok s" "b < length (sb_bindings s)"
  shows "links_ok (channel_wait_settles b r s)" "links_ok (binding_hello_sealed b s)" "links_ok (binding_ready_settles b s)"
proof -
  have "links_ok (opening_returns b t)" if "links_ok t" for t
    using that by (simp add: opening_returns_def Let_def links_settle_ready)
  then show "links_ok (channel_wait_settles b r s)" "links_ok (binding_hello_sealed b s)" "links_ok (binding_ready_settles b s)"
    using assms links_opening_throws [OF assms] links_opening_moves [OF assms(1)]
    by (simp_all add: channel_wait_settles_def binding_hello_sealed_def binding_ready_settles_def
        split: option.split ready_state.split)
qed

lemma links_done: "links_ok s \<Longrightarrow> links_ok (delivery_done b s)"
  by (auto simp: delivery_done_def Let_def split: list.split intro: links_set_bind)

lemma links_settles:
  "links_ok s \<Longrightarrow> b < length (sb_bindings s) \<Longrightarrow> links_ok (delivery_settles E b (s, r))"
  by (cases r) (simp_all add: delivery_settles_def links_done links_delivery_failed)

lemma links_receive_entity: "links_ok s \<Longrightarrow> links_ok (fst (receive_entity_frame E v g th s))"
proof (cases "frame_owner v g s")
  case (Some i)
  assume ok: "links_ok s"
  have i: "i < length (sb_subscribers s)" using frame_owner_in [OF Some] by simp
  then have "ready_in s (sub i s)" "current_in s (sub i s)" using ok by (simp_all add: links_ok_def)
  then have "links_ok (set_sub i ((sub i s)\<lparr>su_seq := q\<rparr>) s)" for q
    by (intro links_set_sub [OF ok]) (simp_all add: ready_in_def current_in_def)
  then show ?thesis
    using Some ok i links_resubscribe [OF ok] links_deliver links_settle_ready
    by (simp add: receive_entity_frame_def Let_def split: option.split)
qed (simp add: receive_entity_frame_def)

lemma links_finish:
  assumes "links_ok s"
  shows "links_ok (fst (finish_delivery E b payload th s))"
proof -
  have "links_ok (settle_binding Ready_resolved b (set_bind b ((bind b s)\<lparr>bi_admitted := True\<rparr>) s))"
    by (intro links_settle_binding links_set_bind assms) simp_all
  moreover have "links_ok (fst (receive_package_event b v th s))" for v
    using assms links_deliver by (simp add: receive_package_event_def Let_def split: channel_class.split)
  ultimately show ?thesis
    using assms links_receive_entity [OF assms]
    by (auto simp: finish_delivery_def Let_def split: option.split sum.split server_frame.split)
qed

lemma links_chunk:
  assumes "links_ok s" "binding_chunk c (bind b s) = (y, r)"
  shows "links_ok (set_bind b y s)" "links_ok (set_bind b (y\<lparr>bi_phase := p\<rparr>) s)"
proof -
  have "bi_owner y = bi_owner (bind b s) \<and> bi_closed y = bi_closed (bind b s)
      \<and> bi_transport_generation y = bi_transport_generation (bind b s)"
    using assms(2) by (auto simp: binding_chunk_def Let_def split: if_splits)
  then show "links_ok (set_bind b y s)" "links_ok (set_bind b (y\<lparr>bi_phase := p\<rparr>) s)"
    using assms(1) by (simp_all add: links_set_bind)
qed

lemma links_message:
  assumes "links_ok s" "b < length (sb_bindings s)"
  shows "links_ok (binding_message_arrives E b d s)" "links_ok (run_delivery E b s)" "links_ok (delivery_decrypted E b th s)"
    "links_ok (sub_assembly_timeout E b s)"
proof -
  have "links_ok (set_bind b ((bind b s)\<lparr>bi_frames := n, bi_bytes := m, bi_queue := q\<rparr>) s)" for n m q
    by (rule links_set_bind [OF assms(1)]) simp_all
  then show "links_ok (binding_message_arrives E b d s)"
    using assms links_delivery_failed by (simp add: binding_message_arrives_def Let_def)
  have "links_ok (begin_delivery E b d s)" for d
    using assms links_settles [OF assms] links_chunk [OF assms(1)] links_settles
    by (cases d) (auto simp: begin_delivery_def Let_def split: sum.split prod.split chunk_step.split)
  then show "links_ok (run_delivery E b s)"
    using assms(1) by (simp add: run_delivery_def split: delivery_phase.split list.split)
  have "links_ok (delivery_settles E b (fst (finish_delivery E b payload th s), r))" for payload r
    by (rule links_settles [OF links_finish [OF assms(1)]]) (simp add: calm_length [OF calm_finish] assms(2))
  then show "links_ok (delivery_decrypted E b th s)"
    using assms(1) by (simp add: delivery_decrypted_def split: delivery_phase.split) (metis prod.collapse)
  have "links_ok (set_bind b ((bind b s)\<lparr>bi_timer := False\<rparr>) s)" by (rule links_set_bind [OF assms(1)]) simp_all
  then show "links_ok (sub_assembly_timeout E b s)"
    using assms links_delivery_failed by (simp add: sub_assembly_timeout_def Let_def)
qed

lemma links_fold:
  assumes "links_ok s" "\<And>x t. x \<in> set xs \<Longrightarrow> P t \<Longrightarrow> links_ok t \<Longrightarrow> links_ok (f x t)" "\<And>x t. P t \<Longrightarrow> P (f x t)" "P s"
  shows "links_ok (fold f xs s)"
  using assms by (induction xs arbitrary: s) auto

lemma calm_reject_binding: "calm t (reject_binding reason label b t)"
proof -
  have "calm t (close_locally b (settle_binding r b (emit_failure b q (set_bind b ((bind b t)\<lparr>bi_rejection := x\<rparr>) t))))" for r q x
    by (rule calm_trans [OF _ calm_close_locally], rule calm_trans [OF _ calm_aside(4)],
        rule calm_trans [OF calm_set_bind calm_aside(6)]) (simp add: bystander_def)
  then show ?thesis by (simp add: reject_binding_def Let_def)
qed

lemma calm_reject: "calm s (reject_reserved_channel reason label s)"
  unfolding reject_reserved_channel_def by (rule calm_fold) (rule calm_reject_binding)

lemma links_reject: "links_ok s \<Longrightarrow> links_ok (reject_reserved_channel reason label s)"
proof -
  assume ok: "links_ok s"
  show ?thesis unfolding reject_reserved_channel_def
  proof (rule links_fold [where P = "\<lambda>t. length (sb_bindings t) = length (sb_bindings s)"])
    fix b t
    assume b: "b \<in> set [0..<length (sb_bindings s)]" "length (sb_bindings t) = length (sb_bindings s)" and t: "links_ok t"
    have "links_ok (close_locally b (settle_binding r b (emit_failure b q (set_bind b ((bind b t)\<lparr>bi_rejection := x\<rparr>) t))))" for r q x
      by (intro links_close_locally links_settle_binding links_emit links_set_bind t) (use b in simp_all)
    then show "links_ok (reject_binding reason label b t)" using t by (simp add: reject_binding_def Let_def)
  qed (use ok calm_length [OF calm_reject_binding] in simp_all)
qed

lemma close_all:
  assumes "links_ok s" "set bs \<subseteq> {..<length (sb_bindings s)}"
  shows "links_ok (fold close_locally bs s)" "\<forall>b \<in> set bs. bi_closed (bind b (fold close_locally bs s))"
proof -
  show "links_ok (fold close_locally bs s)"
    by (rule links_fold [where P = "\<lambda>t. length (sb_bindings t) = length (sb_bindings s)"])
      (use assms links_close_locally in auto)
  have keep: "bi_closed (bind c t) \<Longrightarrow> bi_closed (bind c (close_locally b t))" if "b < length (sb_bindings t)" for b c t
  proof (cases "bi_closed (bind b t)")
    case False
    assume "bi_closed (bind c t)"
    from close_locally_form [OF that False] obtain x where "bi_closed x" "sb_bindings (close_locally b t) = (sb_bindings t)[b := x]"
      by blast
    then show ?thesis using \<open>bi_closed (bind c t)\<close> that by (cases "c = b") simp_all
  qed (simp add: close_locally_def)
  have closes: "bi_closed (bind b (close_locally b t))" if "b < length (sb_bindings t)" for b t
  proof (cases "bi_closed (bind b t)")
    case False
    from close_locally_form [OF that False] obtain x where "bi_closed x" "sb_bindings (close_locally b t) = (sb_bindings t)[b := x]"
      by blast
    then show ?thesis using that by simp
  qed (simp add: close_locally_def)
  have "bi_closed (bind c t) \<Longrightarrow> bi_closed (bind c (fold close_locally bs t))"
    if "set bs \<subseteq> {..<length (sb_bindings t)}" for bs c t
    using that by (induction bs arbitrary: t) (simp_all add: keep)
  then show "\<forall>b \<in> set bs. bi_closed (bind b (fold close_locally bs s))"
    using assms(2) by (induction bs arbitrary: s) (simp_all add: closes)
qed

lemma links_reset:
  assumes "links_ok s"
  shows "links_ok (reset_subscriptions s)" "\<forall>b < length (sb_bindings s). bi_closed (bind b (reset_subscriptions s))"
    "length (sb_bindings (reset_subscriptions s)) = length (sb_bindings s)"
proof -
  let ?t = "fold close_locally [0..<length (sb_bindings s)] s"
  have t: "links_ok ?t" "\<forall>b < length (sb_bindings s). bi_closed (bind b ?t)"
    using close_all [OF assms, of "[0..<length (sb_bindings s)]"] by (simp_all add: subset_iff)
  have len: "length (sb_bindings ?t) = length (sb_bindings s)" by (rule calm_length) (simp add: calm_fold)
  have f: "sb_bindings (reset_subscriptions s) = sb_bindings ?t"
    "sb_subscribers (reset_subscriptions s) = map reset_subscriber (sb_subscribers ?t)" "sb_generation (reset_subscriptions s) = sb_generation ?t"
    "sb_promises (reset_subscriptions s) = sb_promises ?t" "sb_calls (reset_subscriptions s) = sb_calls ?t"
    "sb_connecting (reset_subscriptions s) = sb_connecting ?t" "sb_restarting (reset_subscriptions s) = sb_restarting ?t"
    by (simp_all add: reset_subscriptions_def Let_def)
  show "links_ok (reset_subscriptions s)"
    using t(1) by (simp add: links_ok_def f ready_in_def current_in_def linked_in_def reset_subscriber_def)
  show "\<forall>b < length (sb_bindings s). bi_closed (bind b (reset_subscriptions s))"
    "length (sb_bindings (reset_subscriptions s)) = length (sb_bindings s)" using t(2) len by (simp_all add: f)
qed

lemma links_subscribe: "links_ok s \<Longrightarrow> links_ok (subscribe c s)"
proof -
  assume ok: "links_ok s"
  let ?u = "\<lparr>su_class = c, su_generation = None, su_id = None, su_seq = None, su_ready = None, su_channel = None,
    su_resubscribing = False, su_closed = False\<rparr>"
  have "ready_in (subscribe c s) u = ready_in s u" "current_in (subscribe c s) u = current_in s u"
    "linked_in (subscribe c s) i u = linked_in s i u" for i u
    by (simp_all add: subscribe_def ready_in_def current_in_def linked_in_def)
  moreover have "sub i (subscribe c s) = (if i < length (sb_subscribers s) then sub i s else ?u)"
    if "i < length (sb_subscribers (subscribe c s))" for i
    using that by (auto simp: subscribe_def nth_append)
  moreover have "ready_in s ?u" "current_in s ?u" "linked_in s i ?u" for i
    by (simp_all add: ready_in_def current_in_def linked_in_def)
  ultimately have "ready_in (subscribe c s) (sub i (subscribe c s)) \<and> current_in (subscribe c s) (sub i (subscribe c s))
      \<and> linked_in (subscribe c s) i (sub i (subscribe c s))" if "i < length (sb_subscribers (subscribe c s))" for i
    using ok that by (simp add: links_ok_def)
  moreover have "length (sb_subscribers (subscribe c s)) = length (sb_subscribers s) + 1"
    "sb_bindings (subscribe c s) = sb_bindings s" "sb_generation (subscribe c s) = sb_generation s"
    "sb_calls (subscribe c s) = sb_calls s" "sb_restarting (subscribe c s) = sb_restarting s"
    "sb_connecting (subscribe c s) = sb_connecting s @ [length (sb_subscribers s)]"
    by (simp_all add: subscribe_def)
  ultimately show ?thesis using ok by (auto simp: links_ok_def less_Suc_eq)
qed

lemma links_restore: "links_ok s \<Longrightarrow> links_ok (restore_subscriptions E g s)"
proof -
  assume ok: "links_ok s"
  have "links_ok (fold (\<lambda>i t. fst (start_subscription E i g t)) (live_of True s @ live_of False s) s)"
  proof (rule links_fold [where P = "\<lambda>t. length (sb_subscribers t) = length (sb_subscribers s)"])
    fix i t
    assume "i \<in> set (live_of True s @ live_of False s)" "length (sb_subscribers t) = length (sb_subscribers s)" "links_ok t"
    then show "links_ok (fst (start_subscription E i g t))" by (auto simp: live_of_def intro: links_start)
  qed (use ok start_length in simp_all)
  then show ?thesis using ok by (cases "g = sb_generation s") (simp_all only: restore_subscriptions_def if_True if_False simp_thms not_True_eq_False not_False_eq_True)
qed

lemma links_connect: "links_ok s \<Longrightarrow> links_ok (connect_settles E i ok s)"
proof (cases "i \<in> set (sb_connecting s)")
  case True
  assume l: "links_ok s"
  let ?t = "s\<lparr>sb_connecting := remove1 i (sb_connecting s)\<rparr>"
  have "links_ok ?t" by (rule links_fewer [OF l]) (simp_all add: set_remove1_subset)
  moreover have "i < length (sb_subscribers ?t)" using l True by (simp add: links_ok_def)
  ultimately show ?thesis using True links_start by (simp add: connect_settles_def Let_def)
qed (simp add: connect_settles_def)

lemma links_restart: "links_ok s \<Longrightarrow> links_ok (resubscription_settles i p s)"
proof (cases "(i, p) \<in> set (sb_restarting s)")
  case True
  assume l: "links_ok s"
  let ?t = "s\<lparr>sb_restarting := remove1 (i, p) (sb_restarting s)\<rparr>"
  have t: "links_ok ?t" by (rule links_fewer [OF l]) (simp_all add: set_remove1_subset)
  have i: "i < length (sb_subscribers s)" using l True by (fastforce simp: links_ok_def)
  have "links_ok (set_sub i ((sub i s)\<lparr>su_resubscribing := False\<rparr>) ?t)"
    by (rule links_set_sub [OF t]) (use l i in \<open>simp_all add: links_ok_def ready_in_def current_in_def\<close>)
  then show ?thesis using l by (cases p) (simp_all add: resubscription_settles_def)
qed (simp add: resubscription_settles_def)

lemma links_attempt: "links_ok s \<Longrightarrow> links_ok (subs_new_attempt s)"
proof -
  assume ok: "links_ok s"
  let ?t = "reset_subscriptions s"
  note t = links_reset [OF ok]
  have "\<not> su_closed (sub i ?t) \<longrightarrow> su_generation (sub i ?t) = None" if "i < length (sb_subscribers ?t)" for i
    using that by (simp add: reset_subscriptions_def Let_def reset_subscriber_def)
  then have "links_ok (?t\<lparr>sb_generation := sb_generation ?t + 1\<rparr>)"
    using t by (simp add: links_ok_def ready_in_def current_in_def linked_in_def)
  then show ?thesis by (simp add: subs_new_attempt_def Let_def)
qed

lemma links_step: "links_ok s \<Longrightarrow> links_ok (subs_step E e s)"
proof (cases "event_ok e s")
  case True
  assume ok: "links_ok s"
  have "links_ok (set_bind b ((bind b s)\<lparr>bi_channel := c\<rparr>) s)" for b c by (rule links_set_bind [OF ok]) simp_all
  moreover have "links_ok (s\<lparr>sb_key := k\<rparr>)" "links_ok (s\<lparr>sb_control_open := k\<rparr>)" for k
    by (rule links_same [OF _ _ _ _ _ _ _ ok]; simp)+
  ultimately show ?thesis
    using ok True links_opening [OF ok] links_message [OF ok] links_close_remotely
    by (cases e) (simp_all add: subs_step_def links_subscribe links_unsubscribe links_connect links_restore
        links_call_answered links_reject links_restart links_reset links_attempt)
qed (simp add: subs_step_def)

subsection \<open>The inbound queue of a binding\<close>

definition queue_ok :: "binding \<Rightarrow> bool" where
  "queue_ok x \<longleftrightarrow> bi_frames x = length (bi_queue x) \<and> bi_bytes x = sum_list (map inbound_frame_bytes (bi_queue x))
     \<and> bi_frames x \<le> MAXIMUM_QUEUED_FRAMES \<and> bi_bytes x \<le> MAXIMUM_QUEUED_BYTES"

definition queues_ok :: "subs \<Rightarrow> bool" where
  "queues_ok s \<longleftrightarrow> (\<forall>b < length (sb_bindings s). queue_ok (bind b s))"

lemma queue_bystander: "bystander x y \<Longrightarrow> queue_ok x \<Longrightarrow> queue_ok y"
  unfolding bystander_def queue_ok_def by metis

lemma queues_calm: "calm s t \<Longrightarrow> queues_ok s \<Longrightarrow> queues_ok t"
  unfolding queues_ok_def using calm_length [of s t] calm_bind [of s t] queue_bystander by metis

lemma queues_set_bind: "queues_ok s \<Longrightarrow> (queue_ok (bind b s) \<Longrightarrow> queue_ok x) \<Longrightarrow> queues_ok (set_bind b x s)"
proof -
  assume q: "queues_ok s" "queue_ok (bind b s) \<Longrightarrow> queue_ok x"
  have "queue_ok ((sb_bindings s)[b := x] ! k)" if "k < length (sb_bindings s)" for k
    using q that by (cases "k = b") (simp_all add: queues_ok_def)
  then show ?thesis by (simp add: queues_ok_def)
qed

lemma queues_done: "queues_ok s \<Longrightarrow> queues_ok (delivery_done b s)"
  by (auto simp: delivery_done_def Let_def queue_ok_def split: list.split intro!: queues_set_bind)

lemma queues_settles: "queues_ok s \<Longrightarrow> queues_ok (delivery_settles E b (s, r))"
  using queues_calm [OF calm_delivery_failed] by (cases r) (simp_all add: delivery_settles_def queues_done)

lemma queues_chunk:
  assumes "queues_ok s" "binding_chunk c (bind b s) = (y, r)"
  shows "queues_ok (set_bind b y s)" "queues_ok (set_bind b (y\<lparr>bi_phase := p\<rparr>) s)"
proof -
  have "bi_queue y = bi_queue (bind b s) \<and> bi_frames y = bi_frames (bind b s) \<and> bi_bytes y = bi_bytes (bind b s)"
    using assms(2) by (auto simp: binding_chunk_def Let_def split: if_splits)
  then have "queue_ok (bind b s) \<Longrightarrow> queue_ok y \<and> queue_ok (y\<lparr>bi_phase := p\<rparr>)" by (simp add: queue_ok_def)
  then show "queues_ok (set_bind b y s)" "queues_ok (set_bind b (y\<lparr>bi_phase := p\<rparr>) s)"
    using assms(1) by (simp_all add: queues_set_bind)
qed

lemma queues_message: "queues_ok s \<Longrightarrow> queues_ok (binding_message_arrives E b d s)"
proof -
  assume q: "queues_ok s"
  have "queues_ok (delivery_failed E b f s)" for f by (rule queues_calm [OF calm_delivery_failed q])
  then show ?thesis using q
    by (auto simp: binding_message_arrives_def Let_def queue_ok_def intro!: queues_set_bind)
qed

lemma queues_run: "queues_ok s \<Longrightarrow> queues_ok (run_delivery E b s)"
proof -
  assume q: "queues_ok s"
  have "queues_ok (begin_delivery E b d s)" for d
    using q queues_settles queues_chunk [OF q]
    by (cases d) (auto simp: begin_delivery_def Let_def split: sum.split prod.split chunk_step.split)
  then show ?thesis using q by (simp add: run_delivery_def split: delivery_phase.split list.split)
qed

lemma queues_decrypted: "queues_ok s \<Longrightarrow> queues_ok (delivery_decrypted E b th s)"
proof -
  assume q: "queues_ok s"
  have "queues_ok (delivery_settles E b (finish_delivery E b payload th s))" for payload
    using queues_settles [OF queues_calm [OF calm_finish q]] by (metis prod.collapse)
  then show ?thesis using q by (simp add: delivery_decrypted_def split: delivery_phase.split)
qed

lemma calm_unsubscribe: "calm s (unsubscribe i s)"
proof -
  have c: "calm s (close_channel_of i (set_sub i u s))" for u by (rule calm_trans [OF calm_aside(1) calm_close_of])
  show ?thesis using c calm_trans [OF c calm_aside(2)]
    by (simp add: unsubscribe_def Let_def split: option.split list.split)
qed

lemma calm_restore: "calm s (restore_subscriptions E g s)"
proof -
  have "calm s (fold (\<lambda>i t. fst (start_subscription E i g t)) xs s)" for xs by (rule calm_fold) simp
  then show ?thesis by (cases "g = sb_generation s")
      (simp_all only: restore_subscriptions_def calm_same if_True if_False simp_thms not_True_eq_False not_False_eq_True)
qed

lemma calm_connect: "calm s (connect_settles E i ok s)"
proof -
  have "calm s (fst (start_subscription E i g (s\<lparr>sb_connecting := c\<rparr>)))" for g c
    by (rule calm_trans [OF calm_same calm_start]) simp
  then show ?thesis by (simp add: connect_settles_def Let_def)
qed

lemma calm_start_fails [simp]: "calm s (start_fails i g sid f s)"
  by (simp add: start_fails_def Let_def)

lemma queues_answered: "queues_ok s \<Longrightarrow> queues_ok (subscribe_answered i g sid r th s)"
proof -
  assume q: "queues_ok s"
  have "queues_ok t" if "open_subscription_channel i g rv th s = Inr t" for rv t
  proof -
    from open_form [OF that] obtain x where x: "bi_frames x = 0" "bi_bytes x = 0" "bi_queue x = []"
      and t: "t = set_sub i ((sub i s)\<lparr>su_channel := Some (length (sb_bindings s))\<rparr>) (s\<lparr>sb_bindings := sb_bindings s @ [x]\<rparr>)"
      by blast
    have "queue_ok x" by (simp add: queue_ok_def x)
    then show ?thesis using q by (simp add: queues_ok_def t nth_append)
  qed
  moreover have "queues_ok (start_fails i g sid f s)" "queues_ok (start_fails i g sid f (emit_channel_failure cl sid' fr s))" for f cl sid' fr
    using queues_calm [OF calm_start_fails q] queues_calm [OF calm_trans [OF calm_aside(5) calm_start_fails] q] by simp_all
  ultimately show ?thesis using q
    by (simp add: subscribe_answered_def Let_def split: sum.split option.split)
qed

lemma queues_call: "queues_ok s \<Longrightarrow> queues_ok (call_answered E n r th s)"
proof -
  assume q: "queues_ok s"
  have "queues_ok (s\<lparr>sb_calls := c\<rparr>)" for c by (rule queues_calm [OF calm_same q]) simp
  then show ?thesis using q queues_answered queues_calm [OF calm_continues]
    by (simp add: call_answered_def Let_def split: option.split call.split)
qed

lemma calm_opening: "calm s (channel_wait_settles b r s)" "calm s (binding_hello_sealed b s)" "calm s (binding_ready_settles b s)"
proof -
  have th: "calm s (opening_throws b f s)" for f
    unfolding opening_throws_def Let_def
    by (rule calm_trans [OF _ calm_start_fails], rule calm_trans [OF _ calm_close_locally],
        rule calm_trans [OF calm_set_bind calm_aside(4)]) (simp add: bystander_def)
  have "calm t (opening_returns b t)" for t by (simp add: opening_returns_def Let_def)
  then have "calm s (opening_returns b (opening_moves b p s))" for p by (rule calm_trans [OF calm_aside(7)])
  then show "calm s (channel_wait_settles b r s)" "calm s (binding_hello_sealed b s)" "calm s (binding_ready_settles b s)"
    using th by (simp_all add: channel_wait_settles_def binding_hello_sealed_def binding_ready_settles_def
        split: option.split ready_state.split)
qed

lemma calm_timeout: "calm s (sub_assembly_timeout E b s)"
proof -
  have "calm s (delivery_failed E b f (set_bind b ((bind b s)\<lparr>bi_timer := False\<rparr>) s))" for f
    by (rule calm_trans [OF calm_set_bind calm_delivery_failed]) (simp add: bystander_def)
  then show ?thesis by (simp add: sub_assembly_timeout_def Let_def)
qed

lemma calm_reset: "calm s (reset_subscriptions s)" "calm s (subs_new_attempt s)"
proof -
  have "calm s (fold close_locally bs s)" for bs by (rule calm_fold) simp
  then show "calm s (reset_subscriptions s)" "calm s (subs_new_attempt s)"
    by (simp_all add: reset_subscriptions_def subs_new_attempt_def Let_def calm_def)
qed

lemma calm_restart: "calm s (resubscription_settles i p s)"
proof -
  have "calm s (set_sub i u (s\<lparr>sb_restarting := r\<rparr>))" for u r by (rule calm_trans [OF calm_same calm_aside(1)]) simp
  then show ?thesis by (simp add: resubscription_settles_def split: option.split)
qed

lemma queues_step: "queues_ok s \<Longrightarrow> queues_ok (subs_step E e s)"
proof (cases "event_ok e s")
  case True
  assume q: "queues_ok s"
  have "calm s (set_bind b ((bind b s)\<lparr>bi_channel := c\<rparr>) s)" for b c by (rule calm_set_bind) (simp add: bystander_def)
  then have "queues_ok (set_bind b ((bind b s)\<lparr>bi_channel := c\<rparr>) s)"
    "queues_ok (close_remotely E b (set_bind b ((bind b s)\<lparr>bi_channel := c\<rparr>) s))" for b c
    using queues_calm [OF _ q] calm_trans [OF _ calm_close_remotely] by blast+
  moreover have "queues_ok (s\<lparr>sb_key := k\<rparr>)" "queues_ok (s\<lparr>sb_control_open := k\<rparr>)" "queues_ok (subscribe c s)" for k c
    by (rule queues_calm [OF calm_same q]; simp add: subscribe_def)+
  ultimately show ?thesis
    using q True queues_calm [OF calm_opening(1) q] queues_calm [OF calm_opening(2) q] queues_calm [OF calm_opening(3) q]
      queues_calm [OF calm_unsubscribe q] queues_calm [OF calm_restore q] queues_calm [OF calm_connect q]
      queues_calm [OF calm_timeout q] queues_calm [OF calm_reset(1) q] queues_calm [OF calm_reset(2) q]
      queues_calm [OF calm_restart q] queues_calm [OF calm_close_remotely q]
      queues_calm [OF calm_reject q]
    by (cases e) (simp_all add: subs_step_def queues_message queues_run queues_decrypted queues_call)
qed (simp add: subs_step_def)

end
