(* ===== verification/Subscription_Delivery.thy ===== *)
theory Subscription_Delivery
  imports Subscription_Laws
begin

text \<open>
  What subscribers of the WebRTC client hear, for any history of calls, messages, answers, timers and
  losses of the peer: entity frames without gaps, in sequences that belong to one subscription each, nothing after \<open>unsubscribe()\<close>, nothing from a channel
  that is not admitted or not the subscriber's own; and the bounds of a channel's inbound queue.
\<close>

subsection \<open>A decrypted delivery\<close>

lemma finish_cases:
  assumes "links_ok s" "b < length (sb_bindings s)"
  obtains "quiet s (fst (finish_delivery E b payload th s))"
  | i v where "delivers E i v s (fst (finish_delivery E b payload th s))" "bi_admitted (bind b s)" "is_current_binding b s"
proof -
  let ?r = "fst (finish_delivery E b payload th s)"
  have o: "bi_owner (bind b s) < length (sb_subscribers s)" using assms by (simp add: links_ok_def)
  have q: "quiet s (settle_binding Ready_resolved b (set_bind b ((bind b s)\<lparr>bi_admitted := True\<rparr>) s))"
    by (rule quiet_trans [OF quiet_aside(1) quiet_aside(4)])
  show ?thesis
  proof (cases "decrypt_daemon_payload (en_platform E) payload")
    case None
    then show ?thesis using that(1) by (simp add: finish_delivery_def Let_def)
  next
    case v: (Some v)
    show ?thesis
    proof (cases "parse_server_frame v")
      case (Inl f)
      then show ?thesis using v that(1) by (simp add: finish_delivery_def Let_def)
    next
      case fr: (Inr frame)
      show ?thesis
      proof (cases "bi_admitted (bind b s) \<and> is_current_binding b s")
        case False
        then have "quiet s ?r" using q
          by (cases "bi_admitted (bind b s)"; cases frame) (simp_all add: finish_delivery_def Let_def v fr)
        then show ?thesis by (rule that(1))
      next
        case adm: True
        let ?e = "is_entity (su_class (sub (bi_owner (bind b s)) s))"
        have "?r = s \<or> (\<exists>e g. ?r = fst (receive_entity_frame E e g th s)) \<or> (\<exists>e. ?r = fst (receive_package_event b e th s))"
        proof (cases frame)
          case (Entity_delivery e)
          then have "?r = s \<or> ?r = fst (receive_entity_frame E e (bi_transport_generation (bind b s)) th s)"
            using adm by (cases ?e) (simp_all add: finish_delivery_def Let_def v fr)
          then show ?thesis by blast
        next
          case (Host_event e)
          then have "?r = s \<or> ?r = fst (receive_package_event b e th s)"
            using adm by (cases ?e) (simp_all add: finish_delivery_def Let_def v fr)
          then show ?thesis by blast
        qed (use adm in \<open>simp_all add: finish_delivery_def Let_def v fr\<close>)
        then consider "?r = s" | e g where "?r = fst (receive_entity_frame E e g th s)"
          | e where "?r = fst (receive_package_event b e th s)" by blast
        then show ?thesis
        proof cases
          case 1
          then show ?thesis using that(1) by simp
        next
          case (2 e g)
          from receive_entity_cases [of s E e g th] show ?thesis
            by cases (use 2 adm that in metis)+
        next
          case (3 e)
          from receive_package_cases [OF o, where v = e and th = th and E = E] show ?thesis
            by cases (use 3 adm that in metis)+
        qed
      qed
    qed
  qed
qed

lemma quiet_after: "quiet t (delivery_settles E b (t, r))"
  by (rule quiet_settles) simp

lemma delivers_quiet:
  assumes "delivers E i v s t" "quiet t u"
  shows "i < length (sb_subscribers s)" "\<not> su_closed (sub i s)" "sb_delivered u = sb_delivered s @ [(i, v)]"
    "length (sb_subscribers u) = length (sb_subscribers s)"
    "j < length (sb_subscribers s) \<Longrightarrow> su_closed (sub j s) \<Longrightarrow> su_closed (sub j u)"
proof -
  obtain w where w: "sb_subscribers t = (sb_subscribers s)[i := w]" "su_closed w = su_closed (sub i s)"
    using assms(1) unfolding delivers_def by blast
  show "i < length (sb_subscribers s)" "\<not> su_closed (sub i s)" "sb_delivered u = sb_delivered s @ [(i, v)]"
    using assms by (simp_all add: delivers_def quiet_def)
  show "length (sb_subscribers u) = length (sb_subscribers s)" using quiet_length [OF assms(2)] w by simp
  assume j: "j < length (sb_subscribers s)" "su_closed (sub j s)"
  then have "su_closed (sub j t)" using w by (cases "j = i") simp_all
  then show "su_closed (sub j u)" using sub_quiet [OF assms(2), of j] j w by (simp add: heeds_def)
qed

text \<open>One step: it is quiet, it is a new subscription, or it delivers one frame.\<close>

lemma step_cases:
  assumes "links_ok s"
  obtains (quiet) "quiet s (subs_step E e s)"
  | (subscribes) c where "subs_step E e s = subscribe c s"
  | (delivers) i v b th t where "e = Delivery_decrypted b th" "delivers E i v s t" "quiet t (subs_step E e s)"
      "bi_admitted (bind b s)" "is_current_binding b s"
proof (cases "loud e \<and> event_ok e s")
  case True
  show ?thesis
  proof (cases e)
    case (Subscribe c)
    then show ?thesis using True that(2) by (simp add: subs_step_def)
  next
    case (Delivery_decrypted b th)
    then have b: "b < length (sb_bindings s)" using True by simp
    show ?thesis
    proof (cases "bi_phase (bind b s)")
      case No_delivery
      then have "subs_step E e s = s" using Delivery_decrypted by (simp add: subs_step_def delivery_decrypted_def)
      then show ?thesis using that(1) by simp
    next
      case (Decrypting payload)
      let ?f = "finish_delivery E b payload th s"
      have form: "subs_step E e s = delivery_settles E b (fst ?f, snd ?f)"
        using Delivery_decrypted Decrypting b by (simp add: subs_step_def delivery_decrypted_def)
      have q: "quiet (fst ?f) (subs_step E e s)" unfolding form by (rule quiet_after)
      from finish_cases [OF assms b, of E payload th] show ?thesis
        using quiet_trans [OF _ q] that(1) that(3) [OF Delivery_decrypted _ q] by blast
    qed
  qed (use True in simp_all)
next
  case False
  then have "quiet s (subs_step E e s)" using quiet_event [of e s E] by (auto simp: subs_step_def)
  then show ?thesis by (rule that(1))
qed

lemma subscribe_keeps: "heard i (subscribe c s) = heard i s"
  "i < length (sb_subscribers s) \<Longrightarrow> sub i (subscribe c s) = sub i s"
  "length (sb_subscribers (subscribe c s)) = length (sb_subscribers s) + 1"
  by (simp_all add: subscribe_def heard_def nth_append)

lemma listener_step:
  assumes "links_ok s" "listener_ok E i s"
  shows "listener_ok E i (subs_step E e s)"
  using assms(1)
proof (cases rule: step_cases [of s E e])
  case quiet
  then show ?thesis by (rule listener_quiet [OF _ assms(2)])
next
  case (subscribes c)
  show ?thesis
  proof (cases "i < length (sb_subscribers s)")
    case True
    then show ?thesis using assms(2) by (simp add: subscribes listener_ok_def subscribe_keeps)
  next
    case False
    then show ?thesis using assms(2)
      by (cases "i = length (sb_subscribers s)") (simp_all add: subscribes listener_ok_def subscribe_keeps, simp add: subscribe_def)
  qed
next
  case (delivers j v b th t)
  show ?thesis by (rule listener_quiet [OF delivers(3) delivers_listener [OF delivers(2) assms(2)]])
qed

subsection \<open>The invariant of runs\<close>

definition subs_inv :: "environment \<Rightarrow> subs \<Rightarrow> bool" where
  "subs_inv E s \<longleftrightarrow> links_ok s \<and> queues_ok s \<and> (\<forall>i. listener_ok E i s)"

interpretation subs_system: step_system "\<lambda>s. s = new_subs" "subs_step E" "subs_inv E" for E
proof unfold_locales
  fix s :: subs
  assume "s = new_subs"
  then show "subs_inv E s"
    by (simp add: subs_inv_def links_ok_def queues_ok_def listener_ok_def new_subs_def heard_def)
next
  fix s e
  assume "subs_inv E s"
  then show "subs_inv E (subs_step E e s)" by (simp add: subs_inv_def links_step queues_step listener_step)
qed

lemma run_subs_inv: "subs_inv E (run_subs E es)"
  unfolding run_subs_def by (rule subs_system.run_inv) simp

lemma delivered_frame:
  assumes "delivers E j v s t" "quiet t u" "links_ok s"
  shows "heard i u = heard i s @ (if i = j then [v] else [])"
    and "is_entity (su_class (sub j s)) \<Longrightarrow> frame_subscription v = su_id (sub j s)
      \<and> su_generation (sub j s) = Some (sb_generation s)"
proof -
  show "heard i u = heard i s @ (if i = j then [v] else [])"
    using delivers_quiet(3) [OF assms(1,2)] by (simp add: heard_def)
  assume e: "is_entity (su_class (sub j s))"
  then have d: "frame_subscription v = su_id (sub j s)" "su_generation (sub j s) \<noteq> None"
    using assms(1) unfolding delivers_def by metis+
  have "current_in s (sub j s)" "\<not> su_closed (sub j s)"
    using assms(1,3) by (auto simp: links_ok_def delivers_def)
  then show "frame_subscription v = su_id (sub j s) \<and> su_generation (sub j s) = Some (sb_generation s)"
    using d by (auto simp: current_in_def)
qed

text \<open>
  C12. What the listener of an entity subscription hears has no gaps. After any history and any further
  step, the frames handed to it form sequences: errors apart, each begins with a snapshot, and every delta
  names the subscription of that snapshot and carries the sequence number right after the frame before. So
  deltas that come before the snapshot of a new subscription, or out of order, never reach it. The frames
  a step hands over name the subscription the listener has on the current connection, and they come from
  an admitted channel that its owner uses on that connection: nothing from a superseded one reaches it.
\<close>

theorem entity_frames_without_gaps:
  "let s = run_subs E es; t = subs_step E ev s; u = sb_subscribers s ! i; new = drop (length (heard i s)) (heard i t) in
   if i < length (sb_subscribers s) \<and> is_entity (su_class u)
   then gap_free E None None (heard i t) \<and> heard i t = heard i s @ new
     \<and> list_all (\<lambda>v. frame_subscription v = su_id u \<and> su_generation u = Some (sb_generation s)) new
     \<and> (new = [] \<or> (case ev of Delivery_decrypted b th \<Rightarrow> bi_admitted (sb_bindings s ! b) \<and> is_current_binding b s
                      | _ \<Rightarrow> False))
   else True"
proof -
  define s where "s = run_subs E es"
  define t where "t = subs_step E ev s"
  have s: "subs_inv E s" unfolding s_def by (rule run_subs_inv)
  have l: "links_ok s" using s by (simp add: subs_inv_def)
  have "gap_free E None None (heard i t)" if "i < length (sb_subscribers t)" "is_entity (su_class (sub i t))"
    using subs_system.step_inv [OF s, of ev] that by (simp add: subs_inv_def listener_ok_def t_def)
  moreover have "i < length (sb_subscribers t) \<and> su_class (sub i t) = su_class (sub i s)
    \<and> (heard i t = heard i s \<or> (\<exists>v b th. ev = Delivery_decrypted b th \<and> heard i t = heard i s @ [v]
         \<and> bi_admitted (bind b s) \<and> is_current_binding b s
         \<and> (is_entity (su_class (sub i s)) \<longrightarrow> frame_subscription v = su_id (sub i s)
              \<and> su_generation (sub i s) = Some (sb_generation s))))" if i: "i < length (sb_subscribers s)"
    using l
  proof (cases rule: step_cases [of s E ev])
    case quiet
    then show ?thesis
      using sub_quiet [OF quiet i] heard_quiet [OF quiet] quiet_length [OF quiet] i by (simp add: heeds_def t_def)
  next
    case (subscribes c)
    then show ?thesis using i by (simp add: subscribe_keeps t_def)
  next
    case (delivers j v b th w)
    note d = delivered_frame [OF delivers(2,3) l]
    obtain x where "sb_subscribers w = (sb_subscribers s)[j := x]" "su_class x = su_class (sub j s)"
      using delivers(2) unfolding delivers_def by blast
    then have "su_class (sub i w) = su_class (sub i s)" "i < length (sb_subscribers w)"
      using i by (cases "i = j"; simp)+
    then have "su_class (sub i t) = su_class (sub i s)" "i < length (sb_subscribers t)"
      using sub_quiet [OF delivers(3), of i] quiet_length [OF delivers(3)] by (simp_all add: heeds_def t_def)
    then show ?thesis using d delivers(1,4,5) by (cases "i = j") (simp_all add: t_def)
  qed
  ultimately show ?thesis unfolding s_def [symmetric] t_def [symmetric] Let_def by auto
qed

lemma closed_hears_nothing:
  assumes "subs_inv E s" "i < length (sb_subscribers s)" "su_closed (sub i s)"
  shows "heard i (fold (subs_step E) es s) = heard i s"
  using assms
proof (induction es arbitrary: s)
  case (Cons e es)
  have l: "links_ok s" using Cons.prems(1) by (simp add: subs_inv_def)
  have "heard i (subs_step E e s) = heard i s \<and> i < length (sb_subscribers (subs_step E e s)) \<and> su_closed (sub i (subs_step E e s))"
    using l
  proof (cases rule: step_cases [of s E e])
    case quiet
    then show ?thesis
      using sub_quiet [OF quiet Cons.prems(2)] heard_quiet [OF quiet] quiet_length [OF quiet] Cons.prems
      by (simp add: heeds_def)
  next
    case (subscribes c)
    then show ?thesis using Cons.prems by (simp add: subscribe_keeps)
  next
    case (delivers j v b th t)
    note d = delivers_quiet [OF delivers(2,3)]
    have "i \<noteq> j" using d(2) Cons.prems(3) by blast
    then show ?thesis using d(3-5) Cons.prems by (simp add: heard_def)
  qed
  moreover have "subs_inv E (subs_step E e s)" by (rule subs_system.step_inv [OF Cons.prems(1)])
  ultimately show ?case using Cons.IH [of "subs_step E e s"] by simp
qed simp

lemma unsubscribe_closes: "i < length (sb_subscribers s) \<Longrightarrow> su_closed (sub i (unsubscribe i s))"
proof -
  assume i: "i < length (sb_subscribers s)"
  have c: "su_closed (sub i t) \<Longrightarrow> i < length (sb_subscribers t) \<Longrightarrow> su_closed (sub i (close_channel_of i t))" for t
    using sub_quiet [OF quiet_close_of, of i t] by (simp add: heeds_def)
  show ?thesis using i c [of "set_sub i ((sub i s)\<lparr>su_closed := True\<rparr>) s"]
    by (simp add: unsubscribe_def Let_def split: option.split list.split)
qed

text \<open>
  C16. \<open>unsubscribe()\<close> silences a listener for good: whatever messages, answers, timers and reconnections
  follow, it is handed no further frame or event, not even one that was being decrypted.
\<close>

theorem unsubscribed_hears_nothing:
  "let s = run_subs E es in
   if i < length (sb_subscribers s)
   then heard i (fold (subs_step E) later (unsubscribe i s)) = heard i s else True"
proof (cases "i < length (sb_subscribers (run_subs E es))")
  case i: True
  let ?s = "run_subs E es"
  have s: "subs_inv E ?s" by (rule run_subs_inv)
  have u: "unsubscribe i ?s = subs_step E (Unsubscribe i) ?s" using i by (simp add: subs_step_def)
  have "subs_inv E (unsubscribe i ?s)" unfolding u by (rule subs_system.step_inv [OF s])
  moreover have "i < length (sb_subscribers (unsubscribe i ?s))" using i quiet_length [OF quiet_unsubscribe] by simp
  ultimately have "heard i (fold (subs_step E) later (unsubscribe i ?s)) = heard i ?s"
    using closed_hears_nothing unsubscribe_closes [OF i] heard_quiet [OF quiet_unsubscribe] by metis
  then show ?thesis by (simp add: Let_def)
qed (simp add: Let_def)

text \<open>
  Only an admitted channel delivers, and only the one its subscriber uses. After any history, when a
  message of a channel has been decrypted, no listener is called unless the Hub acknowledged the Hello
  on that channel, the channel is open, it belongs to the current connection and it is the channel of
  the subscriber's present subscription; and one message reaches at most one listener.
\<close>

theorem only_current_channels_deliver:
  "let s = run_subs E es; t = subs_step E (Delivery_decrypted b th) s in
   if bi_admitted (sb_bindings s ! b) \<and> is_current_binding b s
   then length (sb_delivered t) \<le> length (sb_delivered s) + 1
   else sb_delivered t = sb_delivered s"
proof -
  define s where "s = run_subs E es"
  have l: "links_ok s" using run_subs_inv [of E es] by (simp add: s_def subs_inv_def)
  show ?thesis unfolding s_def [symmetric] Let_def using l
  proof (cases rule: step_cases [of s E "Delivery_decrypted b th"])
    case quiet
    then show "if bi_admitted (bind b s) \<and> is_current_binding b s
      then length (sb_delivered (subs_step E (Delivery_decrypted b th) s)) \<le> length (sb_delivered s) + 1
      else sb_delivered (subs_step E (Delivery_decrypted b th) s) = sb_delivered s" by (simp add: quiet_def)
  next
    case (subscribes c)
    then show "if bi_admitted (bind b s) \<and> is_current_binding b s
      then length (sb_delivered (subs_step E (Delivery_decrypted b th) s)) \<le> length (sb_delivered s) + 1
      else sb_delivered (subs_step E (Delivery_decrypted b th) s) = sb_delivered s" by (simp add: subscribe_def)
  next
    case (delivers i v b' th' t)
    then show "if bi_admitted (bind b s) \<and> is_current_binding b s
      then length (sb_delivered (subs_step E (Delivery_decrypted b th) s)) \<le> length (sb_delivered s) + 1
      else sb_delivered (subs_step E (Delivery_decrypted b th) s) = sb_delivered s"
      using delivers_quiet(3) [OF delivers(2,3)] by simp
  qed
qed

text \<open>
  A subscriber's channel is its own. After any history, the channel a subscriber holds was opened for
  it, is not closed, and belongs to the current connection; every channel that is not closed belongs
  to the current connection; and a live subscription names the current connection or none.
\<close>

theorem channels_belong_to_connection:
  "let s = run_subs E es in
   list_all (\<lambda>i. let u = sb_subscribers s ! i in
       (case su_channel u of None \<Rightarrow> True
        | Some b \<Rightarrow> b < length (sb_bindings s) \<and> bi_owner (sb_bindings s ! b) = i \<and> \<not> bi_closed (sb_bindings s ! b)
            \<and> bi_transport_generation (sb_bindings s ! b) = sb_generation s)
       \<and> (su_closed u \<or> su_generation u \<in> {None, Some (sb_generation s)}))
     [0..<length (sb_subscribers s)]
   \<and> list_all (\<lambda>x. bi_closed x \<or> bi_transport_generation x = sb_generation s) (sb_bindings s)"
proof -
  define s where "s = run_subs E es"
  have l: "links_ok s" using run_subs_inv [of E es] by (simp add: s_def subs_inv_def)
  have b: "bi_closed (bind b s) \<or> bi_transport_generation (bind b s) = sb_generation s" if "b < length (sb_bindings s)" for b
    using l that by (simp add: links_ok_def)
  have u: "linked_in s i (sub i s)" "current_in s (sub i s)" if "i < length (sb_subscribers s)" for i
    using l that by (simp_all add: links_ok_def)
  have "case su_channel (sub i s) of None \<Rightarrow> True
        | Some b \<Rightarrow> b < length (sb_bindings s) \<and> bi_owner (bind b s) = i \<and> \<not> bi_closed (bind b s)
            \<and> bi_transport_generation (bind b s) = sb_generation s" if "i < length (sb_subscribers s)" for i
    using u(1) [OF that] b by (auto simp: linked_in_def split: option.split)
  moreover have "su_closed (sub i s) \<or> su_generation (sub i s) \<in> {None, Some (sb_generation s)}"
    if "i < length (sb_subscribers s)" for i
    using u(2) [OF that] by (cases "su_generation (sub i s)") (auto simp: current_in_def)
  moreover have "list_all (\<lambda>x. bi_closed x \<or> bi_transport_generation x = sb_generation s) (sb_bindings s)"
    using b by (simp add: list_all_length)
  ultimately show ?thesis unfolding s_def [symmetric] by (simp add: Let_def list_all_iff)
qed

text \<open>
  The inbound queue of a subscription channel is bounded and its accounts are exact: after any history
  every channel counts exactly the messages and bytes it has queued, at most 256 messages and 8 MiB.
\<close>

theorem subscription_admission_bounded:
  "list_all (\<lambda>x. bi_frames x = length (bi_queue x) \<and> bi_bytes x = sum_list (map inbound_frame_bytes (bi_queue x))
     \<and> length (bi_queue x) \<le> MAXIMUM_QUEUED_FRAMES \<and> bi_bytes x \<le> MAXIMUM_QUEUED_BYTES)
   (sb_bindings (run_subs E es))"
proof -
  have "queues_ok (run_subs E es)" using run_subs_inv [of E es] by (simp add: subs_inv_def)
  then show ?thesis by (auto simp: queues_ok_def queue_ok_def list_all_length)
qed

end
