(* ===== verification/Subscription_Findings.thy ===== *)
theory Subscription_Findings
  imports Subscription_Delivery Control_Delivery
begin

text \<open>
  Two ways an entity subscription of the WebRTC client is lost for the rest of a connection, as runs of
  the model with a Hub that behaves and a platform of a few letters.
\<close>

definition chunk_object :: jvalue where
  "chunk_object = V_object [(js ''version'', V_number (Num 2)), (js ''delivery_kind'', V_string (js ''server_frame'')),
     (js ''message_id'', V_string (js ''m'')), (js ''chunk_count'', V_number (Num 1)),
     (js ''total_bytes'', V_number (Num 1)), (js ''chunk_index'', V_number (Num 0)), (js ''payload'', V_string (js ''e''))]"

definition hello_object :: jvalue where
  "hello_object = V_object [(js ''frame'', V_string (js ''hello_ack'')),
     (js ''ack'', V_object [(js ''protocol'', V_string HOST_PROTOCOL), (js ''compatibility'', V_object [])])]"

definition hello_platform :: platform where
  "hello_platform = \<lparr>json_parse = (\<lambda>t. if t = js ''c'' then Some chunk_object else if t = js ''e'' then Some (V_object [])
       else Some hello_object),
     base64_decode = (\<lambda>v. Some []), gcm_seal = (\<lambda>n p. p), gcm_open = (\<lambda>n c. Some []), decode_text = (\<lambda>b. js ''h''),
     coerce_number = (\<lambda>v. Not_a_number)\<rparr>"

definition hello_env :: environment where
  "hello_env = \<lparr>en_platform = hello_platform, en_id = (\<lambda>n. if n = 0 then js ''p'' else js ''q''), en_add_one = (\<lambda>v. v)\<rparr>"

lemma hello_chunk:
  "parse_delivery_chunk (json_parse hello_platform (js ''c'')) = Inr \<lparr>dc_kind = Server_frame, dc_message_id = js ''m'',
     dc_index = 0, dc_count = 1, dc_total = 1, dc_payload = js ''e''\<rparr>"
proof -
  have c: "utf8_byte_length (js ''e'') = 1" by (simp add: utf8_js)
  show ?thesis
    by (simp add: hello_platform_def chunk_object_def parse_delivery_chunk_def field_def string_of_def int_of_def
        safe_integer_def is_integer_in_range_def rat_is_int_def MAX_SAFE_INTEGER_def MAX_RESPONSE_BYTES_def Let_def c)
      (simp add: js_def)
qed

lemma hello_decrypts: "decrypt_daemon_payload hello_platform (js ''e'') = Some hello_object"
  by (simp add: decrypt_daemon_payload_def hello_platform_def property_of_def)

lemma hello_parses: "parse_server_frame hello_object = Inr (Hello_ack (V_object
    [(js ''protocol'', V_string HOST_PROTOCOL), (js ''compatibility'', V_object [])]))"
  by (simp add: parse_server_frame_def hello_object_def field_def string_of_def Let_def is_object_def)

text \<open>A channel opens, says Hello and is admitted.\<close>

definition admission :: "nat \<Rightarrow> subs_event list" where
  "admission b = [Binding_opens b, Channel_wait_settles b None, Binding_hello_sealed b,
     Message_arrives b (Text_data (js ''c'')), Run_delivery b, Delivery_decrypted b None, Binding_ready_settles b]"

definition entity_reply :: "js_string \<Rightarrow> failure + reply" where
  "entity_reply sid = Inr \<lparr>rp_error = None, rp_kind = js ''entity_subscribed'', rp_reservation =
     Some \<lparr>rv_kind = js ''entity'', rv_subscription_id = sid, rv_label = js ''l''\<rparr>\<rparr>"

definition first_connection :: "subs_event list" where
  "first_connection = [Subscribe (Entity_class (js ''t'')), Attempt_begins, Peer_is_published, Control_opens,
     Connect_settles 0 True, Call_answered 0 (entity_reply (js ''p'')) False]"

definition opened :: "js_string \<Rightarrow> binding" where
  "opened sid = \<lparr>bi_owner = 0, bi_start_generation = 1, bi_transport_generation = 1, bi_subscription_id = sid,
     bi_label = js ''l'', bi_channel = Connecting, bi_closed = False, bi_admitted = False, bi_rejection = None,
     bi_completed = [], bi_assembly = None, bi_timer = False, bi_readiness = Ready_pending, bi_frames = 0, bi_bytes = 0,
     bi_queue = [], bi_phase = No_delivery, bi_opening = Waiting_channel\<rparr>"

definition subscribed :: "nat \<Rightarrow> js_string \<Rightarrow> nat \<Rightarrow> bool \<Rightarrow> subscriber" where
  "subscribed g sid b restarting = \<lparr>su_class = Entity_class (js ''t''), su_generation = Some g, su_id = Some sid, su_seq = None,
     su_ready = Some 0, su_channel = Some b, su_resubscribing = restarting, su_closed = False\<rparr>"

definition first_open :: subs where
  "first_open = \<lparr>sb_generation = 1, sb_control_open = True, sb_key = True, sb_subscribers = [subscribed 1 (js ''p'') 0 False],
     sb_bindings = [opened (js ''p'')], sb_promises = [Ready_pending], sb_connecting = [], sb_calls = [], sb_next_call = 1,
     sb_next_id = 1, sb_restarting = [], sb_delivered = [], sb_failures = []\<rparr>"

lemma first_connection_run: "fold (subs_step hello_env) first_connection new_subs = first_open"
  by (simp add: first_connection_def new_subs_def subs_step_def subscribe_def subs_new_attempt_def reset_subscriptions_def
      reset_subscriber_def connect_settles_def start_subscription_def set_sub_def send_call_def Let_def call_answered_def
      subscribe_answered_def entity_reply_def open_subscription_channel_def class_name_def is_entity_def expected_kind_def
      hello_env_def first_open_def subscribed_def opened_def del: One_nat_def)

definition admitted :: "js_string \<Rightarrow> binding" where
  "admitted sid = (opened sid)\<lparr>bi_channel := Channel_open, bi_admitted := True, bi_completed := [js ''m''],
     bi_readiness := Ready_resolved, bi_opening := Opening_returned\<rparr>"

lemma opened_fields [simp]:
  "bi_owner (opened sid) = 0" "bi_transport_generation (opened sid) = 1" "bi_subscription_id (opened sid) = sid"
  "bi_channel (opened sid) = Connecting" "bi_closed (opened sid) = False" "bi_admitted (opened sid) = False"
  "bi_completed (opened sid) = []" "bi_assembly (opened sid) = None" "bi_timer (opened sid) = False"
  "bi_readiness (opened sid) = Ready_pending" "bi_frames (opened sid) = 0" "bi_bytes (opened sid) = 0"
  "bi_queue (opened sid) = []" "bi_phase (opened sid) = No_delivery" "bi_opening (opened sid) = Waiting_channel"
  by (simp_all add: opened_def)

lemma set_bind_same: "set_bind b x (set_bind b y s) = set_bind b x s"
  by (simp add: set_bind_def)

text \<open>The admission of a fresh channel that its subscriber uses.\<close>

lemma admission_run:
  assumes "b < length (sb_bindings s)" "sb_bindings s ! b = opened sid" "is_current_binding b s" "sb_key s"
    "is_entity (su_class (sb_subscribers s ! 0))"
  shows "fold (subs_step hello_env) (admission b) s = set_bind b (admitted sid) s"
proof -
  have cur: "is_current_binding b (set_bind b x s)"
    if "bi_owner x = 0" "bi_closed x = False" "bi_transport_generation x = 1" "bi_subscription_id x = sid" for x
    using assms(1-3) that by (simp add: is_current_binding_def Let_def)
  have c: "utf8_byte_length (js ''c'') = 1" "utf8_byte_length (js ''e'') = 1" by (simp_all add: utf8_js)
  let ?x1 = "(opened sid)\<lparr>bi_channel := Channel_open\<rparr>"
  let ?x2 = "?x1\<lparr>bi_opening := Waiting_ready\<rparr>"
  let ?x3 = "?x2\<lparr>bi_frames := 1, bi_bytes := 1, bi_queue := [Text_data (js ''c'')]\<rparr>"
  let ?x4 = "?x3\<lparr>bi_completed := [js ''m''], bi_phase := Decrypting (js ''e'')\<rparr>"
  let ?x5 = "?x2\<lparr>bi_completed := [js ''m''], bi_admitted := True, bi_readiness := Ready_resolved\<rparr>"
  have 1: "fold (subs_step hello_env) [Binding_opens b, Channel_wait_settles b None, Binding_hello_sealed b] s = set_bind b ?x2 s"
    using assms cur by (simp add: subs_step_def channel_wait_settles_def binding_hello_sealed_def opening_moves_def set_bind_same)
  have 2: "subs_step hello_env (Message_arrives b (Text_data (js ''c''))) (set_bind b ?x2 s) = set_bind b ?x3 s"
    using assms(1) by (simp add: subs_step_def binding_message_arrives_def Let_def set_bind_same MAXIMUM_QUEUED_FRAMES_def
        MAXIMUM_QUEUED_BYTES_def)
  let ?c = "\<lparr>dc_kind = Server_frame, dc_message_id = js ''m'', dc_index = 0, dc_count = 1, dc_total = 1, dc_payload = js ''e''\<rparr>"
  have bc: "binding_chunk ?c ?x3 = (?x3\<lparr>bi_completed := [js ''m'']\<rparr>, Chunk_opens (js ''e''))"
    by (simp add: binding_chunk_def opened_def c Let_def remember_completed_def set_add_def MAX_COMPLETED_MESSAGE_IDS_def)
  have k: "sb_key (set_bind b x s) = sb_key s" for x by (simp add: set_bind_def)
  have 3: "subs_step hello_env (Run_delivery b) (set_bind b ?x3 s) = set_bind b ?x4 s"
    using assms(1,4) by (simp add: subs_step_def run_delivery_def begin_delivery_def hello_env_def hello_chunk c k bc [simplified]
        Let_def set_bind_same MAX_FRAME_BYTES_EXCLUSIVE_def)
  have 4: "subs_step hello_env (Delivery_decrypted b None) (set_bind b ?x4 s) = set_bind b ?x5 s"
    using assms(1) by (simp add: subs_step_def delivery_decrypted_def finish_delivery_def hello_env_def hello_decrypts
        hello_parses Let_def property_of_def field_def truthy_value_def settle_binding_def delivery_settles_def
        delivery_done_def set_bind_same) (simp add: opened_def)
  have 5: "subs_step hello_env (Binding_ready_settles b) (set_bind b ?x5 s) = set_bind b (admitted sid) s"
    using assms(1,5) cur by (simp add: subs_step_def binding_ready_settles_def opening_returns_def opening_moves_def Let_def
        set_bind_same admitted_def) (simp add: opened_def)
  show ?thesis using 2 3 4 5 unfolding 1 [symmetric] by (simp add: admission_def)
qed

text \<open>The channel closes before a snapshot came, and the client subscribes again.\<close>

definition shut :: "js_string \<Rightarrow> binding" where
  "shut sid = (admitted sid)\<lparr>bi_closed := True, bi_channel := Channel_closed\<rparr>"

definition unsubscribed_reply :: "failure + reply" where
  "unsubscribed_reply = Inr \<lparr>rp_error = None, rp_kind = js ''entity_unsubscribed'', rp_reservation = None\<rparr>"

definition second_open :: subs where
  "second_open = first_open\<lparr>sb_subscribers := [subscribed 1 (js ''q'') 1 True],
     sb_bindings := [shut (js ''p''), opened (js ''q'')], sb_next_call := 3, sb_next_id := 2,
     sb_restarting := [(0, Some 0)], sb_failures := [(Entity_class (js ''t''), js ''p'', Channel_was_closed)]\<rparr>"

definition second_lost :: subs where
  "second_lost = second_open\<lparr>sb_subscribers := [(subscribed 1 (js ''q'') 1 True)\<lparr>su_channel := None\<rparr>],
     sb_bindings := [shut (js ''p''), shut (js ''q'')],
     sb_failures := [(Entity_class (js ''t''), js ''p'', Channel_was_closed), (Entity_class (js ''t''), js ''q'', Channel_was_closed)]\<rparr>"

lemma js_nonempty [simp]: "js s = [] \<longleftrightarrow> s = []"
  by (simp add: js_def)

lemma resubscribe_sends:
  "su_id (sub i s) = Some sid \<Longrightarrow> sid \<noteq> [] \<Longrightarrow> \<not> su_resubscribing (sub i s) \<Longrightarrow> \<not> su_closed (sub i s)
    \<Longrightarrow> g = sb_generation s \<Longrightarrow> resubscribe E i g s = send_call (Resubscribe_call i g sid)
      (close_channel_of i (set_sub i ((sub i s)\<lparr>su_resubscribing := True\<rparr>) s))"
  by (cases sid) (simp_all add: resubscribe_def Let_def)

text \<open>The loss of the first channel, with the unsubscribe request on its way.\<close>

definition first_lost :: subs where
  "first_lost = first_open\<lparr>sb_subscribers := [(subscribed 1 (js ''p'') 0 True)\<lparr>su_channel := None\<rparr>],
     sb_bindings := [shut (js ''p'')], sb_calls := [(1, Resubscribe_call 0 1 (js ''p''))], sb_next_call := 2,
     sb_failures := [(Entity_class (js ''t''), js ''p'', Channel_was_closed)]\<rparr>"

lemma admitted_fields [simp]:
  "bi_owner (admitted sid) = 0" "bi_transport_generation (admitted sid) = 1" "bi_subscription_id (admitted sid) = sid"
  "bi_closed (admitted sid) = False" "bi_admitted (admitted sid) = True" "bi_readiness (admitted sid) = Ready_resolved"
  by (simp_all add: admitted_def)

lemma closed_form: "(admitted sid)\<lparr>bi_channel := Channel_closed, bi_closed := True, bi_timer := False\<rparr> = shut sid"
  by (simp add: shut_def admitted_def opened_def)

lemma shut_fields [simp]: "bi_owner (shut sid) = 0" "(shut sid)\<lparr>bi_channel := Channel_closed\<rparr> = shut sid"
  "bi_subscription_id (shut sid) = sid" "bi_closed (shut sid)"
  by (simp_all add: shut_def)

lemma first_admitted: "fold (subs_step hello_env) (admission 0) first_open = first_open\<lparr>sb_bindings := [admitted (js ''p'')]\<rparr>"
  by (subst admission_run [where sid = "js ''p''"])
    (simp_all add: first_open_def is_current_binding_def subscribed_def is_entity_def set_bind_def)

lemma second_admitted: "fold (subs_step hello_env) (admission 1) second_open
    = second_open\<lparr>sb_bindings := [shut (js ''p''), admitted (js ''q'')]\<rparr>"
  by (subst admission_run [where sid = "js ''q''"])
    (simp_all add: second_open_def first_open_def is_current_binding_def subscribed_def is_entity_def set_bind_def)

lemma first_closes: "subs_step hello_env (Binding_closes 0) (first_open\<lparr>sb_bindings := [admitted (js ''p'')]\<rparr>) = first_lost"
proof -
  let ?s = "first_open\<lparr>sb_bindings := [(admitted (js ''p''))\<lparr>bi_channel := Channel_closed\<rparr>]\<rparr>"
  let ?u = "(subscribed 1 (js ''p'') 0 False)\<lparr>su_channel := None\<rparr>"
  let ?t = "first_open\<lparr>sb_subscribers := [?u], sb_bindings := [shut (js ''p'')]\<rparr>"
  have cl: "close_locally 0 ?s = ?t"
    by (simp add: first_open_def close_locally_def settle_binding_def forget_channel_def set_bind_def set_sub_def Let_def
        subscribed_def closed_form)
  have "is_current_binding 0 ?s" by (simp add: first_open_def is_current_binding_def subscribed_def)
  then have "close_remotely hello_env 0 ?s = resubscribe hello_env 0 1 (emit_failure 0 Channel_was_closed ?t)"
    by (simp add: close_remotely_def cl Let_def del: One_nat_def)
  also have "\<dots> = first_lost"
    by (subst resubscribe_sends [where sid = "js ''p''"])
      (simp_all add: emit_failure_def emit_channel_failure_def subscribed_def first_open_def shut_def close_channel_of_def
        set_sub_def send_call_def first_lost_def)
  finally show ?thesis by (simp add: subs_step_def set_bind_def)
qed

lemma first_resubscribes: "fold (subs_step hello_env) [Call_answered 1 unsubscribed_reply False,
    Call_answered 2 (entity_reply (js ''q'')) False] first_lost = second_open"
proof -
  let ?t = "first_lost\<lparr>sb_subscribers := [(subscribed 1 (js ''q'') 0 True)\<lparr>su_channel := None\<rparr>],
    sb_calls := [(2, Subscribe_call 0 1 (js ''q''))], sb_next_call := 3, sb_next_id := 2, sb_restarting := [(0, Some 0)]\<rparr>"
  have 1: "subs_step hello_env (Call_answered 1 unsubscribed_reply False) first_lost = ?t"
    by (simp add: first_lost_def first_open_def subs_step_def call_answered_def resubscribe_continues_def
        start_subscription_def set_sub_def send_call_def subscribed_def is_entity_def Let_def hello_env_def)
  have 2: "subs_step hello_env (Call_answered 2 (entity_reply (js ''q'')) False) ?t = second_open"
    by (simp add: first_lost_def first_open_def subs_step_def call_answered_def subscribe_answered_def entity_reply_def
        open_subscription_channel_def set_sub_def subscribed_def is_entity_def class_name_def expected_kind_def Let_def
        second_open_def opened_def)
  show ?thesis unfolding fold_simps o_apply id_apply 1 2 ..
qed

lemma second_closes: "subs_step hello_env (Binding_closes 1) (second_open\<lparr>sb_bindings := [shut (js ''p''), admitted (js ''q'')]\<rparr>)
    = second_lost"
proof -
  let ?s = "second_open\<lparr>sb_bindings := [shut (js ''p''), (admitted (js ''q''))\<lparr>bi_channel := Channel_closed\<rparr>]\<rparr>"
  let ?u = "(subscribed 1 (js ''q'') 1 True)\<lparr>su_channel := None\<rparr>"
  let ?t = "second_open\<lparr>sb_subscribers := [?u], sb_bindings := [shut (js ''p''), shut (js ''q'')]\<rparr>"
  have cl: "close_locally 1 ?s = ?t"
    by (simp add: second_open_def close_locally_def settle_binding_def forget_channel_def set_bind_def set_sub_def Let_def
        subscribed_def closed_form)
  have "is_current_binding 1 ?s" by (simp add: second_open_def first_open_def is_current_binding_def subscribed_def)
  then have "close_remotely hello_env 1 ?s = resubscribe hello_env 0 1 (emit_failure 1 Channel_was_closed ?t)"
    by (simp add: close_remotely_def cl Let_def del: One_nat_def)
  also have "\<dots> = second_lost"
    by (simp add: emit_failure_def emit_channel_failure_def subscribed_def second_open_def shut_def resubscribe_def
        second_lost_def Let_def)
  finally show ?thesis by (simp add: subs_step_def set_bind_def)
qed

definition losing_run :: "subs_event list" where
  "losing_run = first_connection @ admission 0 @ [Binding_closes 0] @ [Call_answered 1 unsubscribed_reply False,
     Call_answered 2 (entity_reply (js ''q'')) False] @ admission 1 @ [Binding_closes 1]"

lemma losing_run_state: "run_subs hello_env losing_run = second_lost"
  unfolding run_subs_def losing_run_def fold_append o_apply first_connection_run first_admitted
  by (simp only: fold_simps o_apply id_apply first_closes first_resubscribes [simplified fold_simps o_apply id_apply]
      second_admitted second_closes)

text \<open>
  C40. A subscription can be lost on a live connection. An entity subscription's channel is admitted and
  closes before its snapshot came; the client subscribes again and gets a second channel, which is
  admitted and closes too. The second resubscription is refused, because the first one still waits
  for the snapshot (\<open>resubscribing\<close> stays set until \<open>ready\<close> settles), so the subscription is left
  with no channel and an unsettled \<open>ready\<close>, while the connection is up and no request is on its way.
\<close>

theorem resubscription_abandoned:
  "let s = run_subs hello_env losing_run; u = sb_subscribers s ! 0 in
   sb_control_open s \<and> \<not> su_closed u \<and> su_channel u = None \<and> sb_calls s = [] \<and> sb_connecting s = []
   \<and> list_all bi_closed (sb_bindings s) \<and> su_resubscribing u
   \<and> sb_restarting s = [(0, su_ready u)] \<and> sb_promises s ! the (su_ready u) = Ready_pending
   \<and> subs_step hello_env (Restart_settles 0 (su_ready u)) s = s"
  by (simp add: losing_run_state second_lost_def second_open_def first_open_def subscribed_def Let_def subs_step_def
      resubscription_settles_def)

subsection \<open>A resubscription that outlives its connection\<close>

definition second_connection :: subs where
  "second_connection = first_lost\<lparr>sb_generation := 2,
     sb_subscribers := [(subscribed 2 (js ''q'') 0 False)\<lparr>su_channel := None\<rparr>],
     sb_calls := [(1, Resubscribe_call 0 1 (js ''p'')), (2, Subscribe_call 0 2 (js ''q''))],
     sb_next_call := 3, sb_next_id := 2\<rparr>"

definition forgotten :: subs where
  "forgotten = second_connection\<lparr>sb_subscribers := [(subscribed 2 (js ''q'') 0 False)\<lparr>su_channel := None,
     su_generation := None, su_id := None\<rparr>], sb_calls := []\<rparr>"

definition outliving_run :: "subs_event list" where
  "outliving_run = first_connection @ admission 0 @ [Binding_closes 0] @ [Attempt_begins, Peer_is_published, Control_opens,
     Restore 2] @ [Call_answered 1 unsubscribed_reply False, Restart_settles 0 None,
     Call_answered 2 (entity_reply (js ''q'')) False]"

lemma second_connects: "fold (subs_step hello_env) [Attempt_begins, Peer_is_published, Control_opens, Restore 2] first_lost
    = second_connection"
  by (simp add: first_lost_def first_open_def subs_step_def subs_new_attempt_def reset_subscriptions_def close_locally_def
      reset_subscriber_def subscribed_def restore_subscriptions_def live_of_def is_entity_def start_subscription_def
      set_sub_def send_call_def hello_env_def second_connection_def Let_def)

lemma second_forgets: "fold (subs_step hello_env) [Call_answered 1 unsubscribed_reply False, Restart_settles 0 None,
    Call_answered 2 (entity_reply (js ''q'')) False] second_connection = forgotten"
  by (simp add: second_connection_def first_lost_def first_open_def subs_step_def call_answered_def resubscribe_continues_def
      start_subscription_def set_sub_def subscribed_def is_entity_def Let_def resubscription_settles_def
      subscribe_answered_def entity_reply_def forgotten_def)

lemma outliving_run_state: "run_subs hello_env outliving_run = forgotten"
  unfolding run_subs_def outliving_run_def fold_append o_apply first_connection_run first_admitted
  by (simp only: fold_simps o_apply id_apply first_closes second_connects [simplified fold_simps o_apply id_apply]
      second_forgets [simplified fold_simps o_apply id_apply])

text \<open>
  A resubscription can destroy its successor. The request that ends the old subscription is still
  unanswered when the client reconnects; \<open>open\<close> restores the subscription on the new connection, and
  then the answer arrives: \<open>resubscribeEntity\<close> clears the generation and the id without asking whether
  they are still its own, and starts nothing because its connection is gone. The answer to the new
  subscribe request is dropped as stale, and the connection is left without that subscription.
\<close>

theorem resubscription_forgets_successor:
  "let s = run_subs hello_env outliving_run; u = sb_subscribers s ! 0 in
   sb_control_open s \<and> sb_generation s = 2 \<and> \<not> su_closed u \<and> su_generation u = None \<and> su_channel u = None
   \<and> sb_calls s = [] \<and> sb_connecting s = [] \<and> sb_restarting s = [] \<and> list_all bi_closed (sb_bindings s)"
  by (simp add: outliving_run_state forgotten_def second_connection_def first_lost_def first_open_def subscribed_def Let_def)

end
