(* ===== verification/Hub_Values.thy ===== *)
theory Hub_Values
  imports Action_Dispatcher
begin

text \<open>
  The values the Hub transport reads and writes: object literals, the defensive readers of
  \<open>src/botster/hubTransport.ts\<close>, action bindings, and the redaction of what the live harness
  records.

  \<^item> \<open>undefined\<close> is \<open>None\<close>. A property that a literal sets to \<open>undefined\<close> is left out; no
    reader of these objects tells the two apart.
  \<^item> Texts are compared, concatenated, trimmed and split only, so a text is a list of characters.
\<close>

subsection \<open>Objects\<close>

definition obj :: "(string \<times> json option) list \<Rightarrow> json" where
  "obj kvs = J_object (List.map_filter (\<lambda>(k, v). map_option (Pair k) v) kvs)"

fun is_record :: "json option \<Rightarrow> bool" where
  "is_record (Some (J_object _)) = True"
| "is_record _ = False"

fun read_config_object :: "json option \<Rightarrow> (string \<times> json) list" where
  "read_config_object (Some (J_object kvs)) = kvs"
| "read_config_object _ = []"

text \<open>\<open>x?.k\<close> on a value that may be no object\<close>

definition field :: "string \<Rightarrow> json option \<Rightarrow> json option" where
  "field k v = map_of (read_config_object v) k"

fun string_of :: "json option \<Rightarrow> string option" where
  "string_of (Some (J_string s)) = Some s"
| "string_of _ = None"

fun number_of :: "json option \<Rightarrow> rat option" where
  "number_of (Some (J_number n)) = Some n"
| "number_of _ = None"

fun bool_of :: "json option \<Rightarrow> bool option" where
  "bool_of (Some (J_bool b)) = Some b"
| "bool_of _ = None"

fun array_of :: "json option \<Rightarrow> json list option" where
  "array_of (Some (J_array xs)) = Some xs"
| "array_of _ = None"

definition read_config_string :: "json option \<Rightarrow> string \<Rightarrow> string" where
  "read_config_string v fallback = (case string_of v of Some s \<Rightarrow> s | None \<Rightarrow> fallback)"

text \<open>\<open>x ?? y\<close>\<close>

fun nullish :: "json option \<Rightarrow> json \<Rightarrow> json" where
  "nullish None y = y"
| "nullish (Some J_null) y = y"
| "nullish (Some v) y = v"

text \<open>A text that is not empty; the object literals spread a property only then.\<close>

definition present :: "string \<Rightarrow> json option" where
  "present s = (if s = [] then None else Some (J_string s))"

definition string_record :: "json option \<Rightarrow> (string \<times> json) list" where
  "string_record v = filter (\<lambda>(k, x). string_of (Some x) \<noteq> None) (read_config_object v)"

definition string_list :: "json option \<Rightarrow> json option" where
  "string_list v =
     (case array_of v of None \<Rightarrow> None
      | Some xs \<Rightarrow>
          (let entries = filter (\<lambda>x. string_of (Some x) \<noteq> None) xs
           in if entries = [] then None else Some (J_array entries)))"

text \<open>
  \<open>jsonObject\<close> keeps the entries that are JSON values; every value of \<open>json\<close> is one, so only
  the test for an object is left.
\<close>

definition json_object :: "json option \<Rightarrow> json" where
  "json_object v = J_object (read_config_object v)"

subsection \<open>Texts\<close>

fun join :: "string \<Rightarrow> string list \<Rightarrow> string" where
  "join sep [] = []"
| "join sep [x] = x"
| "join sep (x # y # xs) = x @ sep @ join sep (y # xs)"

fun digits :: "nat \<Rightarrow> string" where
  "digits n = (if n < 10 then [char_of (48 + n)] else digits (n div 10) @ [char_of (48 + n mod 10)])"

declare digits.simps [simp del]

definition blank :: "char \<Rightarrow> bool" where
  "blank c \<longleftrightarrow> of_char c \<in> {9::nat, 10, 11, 12, 13, 32, 160}"

definition trim :: "string \<Rightarrow> string" where
  "trim s = rev (dropWhile blank (rev (dropWhile blank s)))"

subsection \<open>Action bindings\<close>

record action_binding =
  ab_id :: string
  ab_target :: "string option"
  ab_label :: "string option"
  ab_disabled :: "bool option"
  ab_params :: "(string \<times> json) list option"
  ab_plugin_surface :: "(string \<times> (string \<times> json) list) option"

text \<open>\<open>action.params?.k\<close>\<close>

definition param :: "action_binding \<Rightarrow> string \<Rightarrow> json option" where
  "param a k = (case ab_params a of None \<Rightarrow> None | Some ps \<Rightarrow> map_of ps k)"

definition action_json :: "action_binding \<Rightarrow> json" where
  "action_json a = obj
     [(''id'', Some (J_string (ab_id a))), (''target'', map_option J_string (ab_target a)),
      (''label'', map_option J_string (ab_label a)), (''disabled'', map_option J_bool (ab_disabled a)),
      (''params'', map_option J_object (ab_params a))]"

subsection \<open>The recorded events of the live harness\<close>

fun redacted_harness_payload :: "json \<Rightarrow> json" where
  "redacted_harness_payload (J_array xs) = J_array (map redacted_harness_payload xs)"
| "redacted_harness_payload (J_object kvs) =
     J_object (map (\<lambda>(k, v). (k, if k = ''grant_secret'' then J_string ''[redacted]''
                                   else redacted_harness_payload v)) kvs)"
| "redacted_harness_payload v = v"

text \<open>The values that stand under the key \<open>grant_secret\<close>, at any depth.\<close>

fun granted_secrets :: "json \<Rightarrow> json list" where
  "granted_secrets (J_array xs) = concat (map granted_secrets xs)"
| "granted_secrets (J_object kvs) =
     concat (map (\<lambda>(k, v). if k = ''grant_secret'' then [v] else granted_secrets v) kvs)"
| "granted_secrets v = []"

subsection \<open>Laws\<close>

lemma field_values [simp]:
  "field k None = None" "field k (Some (J_object kvs)) = map_of kvs k"
  "field k (Some J_null) = None" "field k (Some (J_string s)) = None" "field k (Some (J_bool b)) = None"
  "field k (Some (J_number n)) = None" "field k (Some (J_array xs)) = None"
  by (simp_all add: field_def)

lemma field_obj_Nil [simp]: "field k (Some (obj [])) = None"
  by (simp add: obj_def List.map_filter_def)

definition first_some :: "'a option \<Rightarrow> 'a option \<Rightarrow> 'a option" where
  "first_some v w = (case v of None \<Rightarrow> w | Some x \<Rightarrow> Some x)"

lemma first_some_simps [simp]:
  "first_some None w = w" "first_some (Some x) w = Some x" "first_some v None = v"
  by (simp_all add: first_some_def split: option.split)

lemma field_obj_Cons [simp]:
  "field k (Some (obj ((j, v) # kvs))) =
     (if j = k then first_some v (field k (Some (obj kvs))) else field k (Some (obj kvs)))"
  by (simp add: obj_def List.map_filter_def first_some_def split: option.splits)

lemma is_record_obj [simp]: "is_record (Some (obj kvs))"
  by (simp add: obj_def)

lemma read_config_string_simps [simp]:
  "read_config_string (Some (J_string s)) d = s" "read_config_string None d = d"
  by (simp_all add: read_config_string_def)

lemma string_of_map [simp]: "string_of (map_option J_string x) = x"
  by (cases x) simp_all

lemma string_of_Some: "string_of v = Some s \<longleftrightarrow> v = Some (J_string s)"
  by (cases v rule: string_of.cases) auto

lemma string_record_entries: "list_all (\<lambda>(k, x). string_of (Some x) \<noteq> None) (string_record v)"
  by (auto simp: string_record_def list_all_iff)

lemma string_record_fixed:
  "list_all (\<lambda>(k, x). string_of (Some x) \<noteq> None) kvs \<Longrightarrow> string_record (Some (J_object kvs)) = kvs"
  by (auto simp: string_record_def list_all_iff)

lemma granted_secrets_redacted: "x \<in> set (granted_secrets (redacted_harness_payload v)) \<Longrightarrow> x = J_string ''[redacted]''"
  by (induction v rule: redacted_harness_payload.induct) (fastforce split: if_splits)+

lemma redacted_unchanged: "granted_secrets v = [] \<Longrightarrow> redacted_harness_payload v = v"
proof (induction v rule: redacted_harness_payload.induct)
  case (1 xs)
  then show ?case by (simp add: map_idI)
next
  case (2 kvs)
  then show ?case by (auto intro!: map_idI split: if_splits)
qed simp_all

end
