(* ===== verification/Hub_Requests.thy ===== *)
theory Hub_Requests
  imports Hub_Values
begin

text \<open>
  The Hub requests an action asks for: the readers of \<open>src/botster/hubTransport.ts\<close>,
  \<open>src/botster/hubQuarantines.ts\<close> and \<open>src/botster/pluginLogs.ts\<close> that turn an action's
  parameters into a request, the actions the projections build for them, and the shape the
  protocol (\<open>src/botster/generated/daemon-protocol.ts\<close>) gives each request.
\<close>

subsection \<open>Spawn points\<close>

definition request_of :: "string \<Rightarrow> (string \<times> json option) list \<Rightarrow> json" where
  "request_of t kvs = obj ((''type'', Some (J_string t)) # kvs)"

text \<open>
  \<open>readConfigString(x, undefined)\<close>: the parameter's default applies to an argument that is
  \<open>undefined\<close>, so a missing label or kind is read as the empty text.
\<close>

definition spawn_target_request_from_action :: "action_binding \<Rightarrow> json option" where
  "spawn_target_request_from_action a =
     (let r = param a ''daemon_request'' in
      if \<not> is_record r then None
      else let request_type = read_config_string (field ''request_type'' r) [];
               target_id = read_config_string (field ''target_id'' r) [];
               label = Some (J_string (read_config_string (field ''label'' r) []));
               root = read_config_string (field ''root'' r) [];
               kind = Some (J_string (read_config_string (field ''kind'' r) []));
               enabled = map_option J_bool (bool_of (field ''enabled'' r));
               metadata = Some (J_object (string_record (field ''metadata'' r)))
           in if request_type = ''create_spawn_target'' \<and> root \<noteq> []
              then Some (request_of ''create_spawn_target''
                [(''target_id'', present target_id), (''label'', label), (''root'', Some (J_string root)),
                 (''enabled'', enabled), (''kind'', kind), (''metadata'', metadata)])
              else if request_type = ''update_spawn_target'' \<and> target_id \<noteq> []
              then Some (request_of ''update_spawn_target''
                [(''target_id'', Some (J_string target_id)), (''label'', label), (''root'', present root),
                 (''enabled'', enabled), (''kind'', kind), (''metadata'', metadata)])
              else if request_type = ''delete_spawn_target'' \<and> target_id \<noteq> []
              then Some (request_of ''delete_spawn_target'' [(''target_id'', Some (J_string target_id))])
              else if request_type = ''validate_spawn_target'' \<and> target_id \<noteq> []
              then Some (request_of ''validate_spawn_target'' [(''target_id'', Some (J_string target_id))])
              else None)"

definition spawn_target_action ::
    "string \<Rightarrow> string option \<Rightarrow> string \<Rightarrow> (string \<times> json option) list \<Rightarrow> action_binding" where
  "spawn_target_action request_type target_id label vals =
     \<lparr>ab_id = ''botster.spawn_target.daemon_request'', ab_target = target_id, ab_label = Some label,
      ab_disabled = None,
      ab_params = Some [(''daemon_request'', obj
        ([(''request_type'', Some (J_string request_type)),
          (''target_id'', map_option J_string target_id)] @ vals))],
      ab_plugin_surface = None\<rparr>"

subsection \<open>Session types\<close>

definition session_type_mutation_source :: "json option \<Rightarrow> json option" where
  "session_type_mutation_source v =
     (if \<not> is_record v then None
      else let source = read_config_string (field ''source'' v) [] in
        if source = ''device'' then Some (obj [(''source'', Some (J_string ''device''))])
        else if source = ''repo'' then
          (let t = read_config_string (field ''target_id'' v) [] in
           if t \<noteq> [] then Some (obj [(''source'', Some (J_string ''repo'')), (''target_id'', Some (J_string t))])
           else None)
        else if source = ''package'' then
          (let p = read_config_string (field ''package_name'' v) [] in
           if p \<noteq> [] then Some (obj [(''source'', Some (J_string ''package'')), (''package_name'', Some (J_string p))])
           else None)
        else None)"

definition execution_mode :: "json option \<Rightarrow> string option" where
  "execution_mode v =
     (let authored = read_config_string (field ''mode'' (field ''execution'' v)) [] in
      if authored \<noteq> [] \<and> authored \<notin> {''relative_executable'', ''shell_command''} then None
      else Some (if authored = ''shell_command'' then ''shell_command'' else ''relative_executable''))"

definition authored_directory :: "json option \<Rightarrow> json option" where
  "authored_directory v =
     (let path = read_config_string (field ''path'' (field ''working_directory'' v)) [];
          policy = read_config_string (field ''policy'' (field ''working_directory'' v)) []
      in if policy = ''relative'' \<and> path \<noteq> []
         then Some (obj [(''policy'', Some (J_string ''relative'')), (''path'', Some (J_string path))])
         else if policy = ''package_root'' then Some (obj [(''policy'', Some (J_string ''package_root''))])
         else None)"

definition authored_environment :: "json option \<Rightarrow> json option" where
  "authored_environment v =
     (let environment = string_record (field ''environment'' v)
      in if environment = [] then None else Some (J_object environment))"

definition authored_definition :: "json option \<Rightarrow> string \<Rightarrow> json" where
  "authored_definition v mode =
     (let text_at = (\<lambda>k. J_string (read_config_string (field k v) []));
          present_at = (\<lambda>k. present (read_config_string (field k v) []))
      in obj
        [(''id'', Some (text_at ''id'')), (''label'', Some (text_at ''label'')),
         (''description'', present_at ''description''), (''icon'', present_at ''icon''),
         (''role'', Some (text_at ''role'')), (''interaction'', Some (text_at ''interaction'')),
         (''traits'', string_list (field ''traits'' v)), (''lifecycle'', Some (text_at ''lifecycle'')),
         (''execution'', Some (obj [(''mode'', Some (J_string mode))])),
         (''command'', Some (text_at ''command'')), (''args'', string_list (field ''args'' v)),
         (''working_directory'', authored_directory v), (''environment'', authored_environment v),
         (''allowed_environment_overrides'', string_list (field ''allowed_environment_overrides'' v)),
         (''context'', string_list (field ''context'' v)), (''target_id'', present_at ''target_id'')])"

definition session_type_definition :: "json option \<Rightarrow> json option" where
  "session_type_definition v =
     (if \<not> is_record v then None
      else if list_ex (\<lambda>k. read_config_string (field k v) [] = [])
        [''id'', ''label'', ''role'', ''interaction'', ''lifecycle'', ''command''] then None
      else map_option (authored_definition v) (execution_mode v))"

definition session_type_request_from_action :: "action_binding \<Rightarrow> json option" where
  "session_type_request_from_action a =
     (let r = param a ''daemon_request'' in
      if \<not> is_record r then None
      else let request_type = read_config_string (field ''request_type'' r) [];
               target_id = read_config_string (field ''target_id'' r) [];
               session_type_id = read_config_string (field ''session_type_id'' r) [];
               addressed = (''session_type_id'', Some (J_string session_type_id))
        in if request_type = ''list_session_types_for_target'' then
             (if target_id \<noteq> []
              then Some (request_of request_type [(''target_id'', Some (J_string target_id))]) else None)
        else if request_type = ''show_session_type_definition'' then
             (if session_type_id \<noteq> [] then Some (request_of request_type [addressed]) else None)
        else (case session_type_mutation_source (field ''source'' r) of None \<Rightarrow> None
          | Some source \<Rightarrow>
              if request_type = ''create_session_type'' \<or> request_type = ''update_session_type'' then
                map_option (\<lambda>d. request_of request_type [(''source'', Some source), (''definition'', Some d)])
                  (session_type_definition (field ''definition'' r))
              else if request_type = ''delete_session_type'' \<and> session_type_id \<noteq> [] then
                Some (request_of request_type [(''source'', Some source), addressed])
              else None))"

subsection \<open>Packages\<close>

definition package_commands :: "string list" where
  "package_commands = [''enable_package'', ''disable_package'', ''remove_package'', ''reload_package'',
     ''check_package_update'']"

definition entrypoint_commands :: "string list" where
  "entrypoint_commands = [''start_package_entrypoint'', ''stop_package_entrypoint'',
     ''restart_package_entrypoint'', ''package_entrypoint_status'']"

text \<open>
  The descriptor is cast, not read: a property that is neither \<open>null\<close> nor absent is passed on as
  it is, whatever it holds.
\<close>

definition daemon_request_from_descriptor :: "(string \<times> json) list \<Rightarrow> json option" where
  "daemon_request_from_descriptor q =
     (let package_name = nullish (map_of q ''package_name'') (J_string []);
          entrypoint_id = nullish (map_of q ''entrypoint_id'') (J_string []);
          entry_id = nullish (map_of q ''entry_id'') (J_string []);
          registry_path = nullish (map_of q ''registry_path'') (J_string []);
          local_path = read_config_string (map_of q ''path'') [];
          pin = nullish (map_of q ''pin'') J_null;
          t = (case string_of (map_of q ''request_type'') of None \<Rightarrow> [] | Some t \<Rightarrow> t);
          package = (''package_name'', Some package_name);
          entrypoint = (''entrypoint_id'', Some entrypoint_id)
      in if t \<in> {''install_package_local_path'', ''enable_package_local_path''} \<and> local_path \<noteq> []
         then Some (request_of t [(''path'', Some (J_string local_path))])
         else if t \<in> set package_commands \<and> truthy package_name then Some (request_of t [package])
         else if t = ''set_package_configuration'' \<and> truthy package_name
         then Some (request_of t [package, (''values'', Some (obj []))])
         else if t \<in> set entrypoint_commands \<and> truthy package_name \<and> truthy entrypoint_id
         then Some (request_of t [package, entrypoint])
         else if t = ''install_package_registry_entry'' \<and> truthy registry_path \<and> truthy entry_id
         then Some (request_of t [(''registry_path'', Some registry_path), (''entry_id'', Some entry_id)])
         else if t \<in> {''preview_package_update'', ''apply_package_update''} \<and> truthy package_name \<and> truthy pin
         then Some (request_of t [package, (''pin'', Some pin)])
         else None)"

definition daemon_request_from_action :: "action_binding \<Rightarrow> json option" where
  "daemon_request_from_action a =
     (let r = param a ''daemon_request'' in
      if is_record r then daemon_request_from_descriptor (read_config_object r) else None)"

definition package_configuration_request :: "string \<Rightarrow> action_binding \<Rightarrow> json" where
  "package_configuration_request package_name a =
     (let r = daemon_request_from_action a in
      request_of ''set_package_configuration''
        [(''package_name'', if field ''type'' r = Some (J_string ''set_package_configuration'')
            then field ''package_name'' r else Some (J_string package_name)),
         (''values'', Some (json_object (param a ''values'')))])"

subsection \<open>Plugin logs and quarantines\<close>

definition max_safe_integer :: rat where "max_safe_integer = 2 ^ 53 - 1"

definition is_safe_integer :: "rat \<Rightarrow> bool" where
  "is_safe_integer n \<longleftrightarrow> of_int \<lfloor>n\<rfloor> = n \<and> \<bar>n\<bar> \<le> max_safe_integer"

definition read_plugin_logs_action :: "string \<Rightarrow> rat option \<Rightarrow> action_binding" where
  "read_plugin_logs_action package_name after_seq =
     \<lparr>ab_id = ''botster.package.read_plugin_logs'', ab_target = None, ab_label = Some ''Read plugin logs'',
      ab_disabled = None,
      ab_params = Some ((''package_name'', J_string package_name) #
        (case after_seq of None \<Rightarrow> [] | Some n \<Rightarrow> [(''after_seq'', J_number n)])),
      ab_plugin_surface = None\<rparr>"

definition read_plugin_logs_request_from_action :: "action_binding \<Rightarrow> json option" where
  "read_plugin_logs_request_from_action a =
     (case string_of (param a ''package_name'') of None \<Rightarrow> None
      | Some p \<Rightarrow>
          if p = [] then None
          else (case param a ''after_seq'' of
              None \<Rightarrow> Some (request_of ''read_plugin_logs'' [(''package_name'', Some (J_string p))])
            | Some (J_number n) \<Rightarrow>
                if \<not> is_safe_integer n \<or> n < 0 then None
                else Some (request_of ''read_plugin_logs''
                  [(''package_name'', Some (J_string p)), (''after_seq'', Some (J_number n))])
            | Some _ \<Rightarrow> None))"

datatype quarantine_target = Package_target string | Repository_target string

definition target_json :: "quarantine_target \<Rightarrow> json" where
  "target_json t = (case t of
       Package_target p \<Rightarrow> obj [(''kind'', Some (J_string ''package'')), (''package_name'', Some (J_string p))]
     | Repository_target r \<Rightarrow>
         obj [(''kind'', Some (J_string ''repository_session_types'')), (''root'', Some (J_string r))])"

definition quarantine_target_of :: "json option \<Rightarrow> quarantine_target option" where
  "quarantine_target_of v =
     (if field ''kind'' v = Some (J_string ''package'') \<and> read_config_string (field ''package_name'' v) [] \<noteq> []
      then Some (Package_target (read_config_string (field ''package_name'' v) []))
      else if field ''kind'' v = Some (J_string ''repository_session_types'')
        \<and> read_config_string (field ''root'' v) [] \<noteq> []
      then Some (Repository_target (read_config_string (field ''root'' v) []))
      else None)"

definition quarantine_target_from_action :: "action_binding \<Rightarrow> quarantine_target option" where
  "quarantine_target_from_action a =
     (let v = param a ''target'' in if is_record v then quarantine_target_of v else None)"

definition quarantine_operation_id_from_action :: "action_binding \<Rightarrow> string option" where
  "quarantine_operation_id_from_action a =
     (case string_of (param a ''operation_id'') of None \<Rightarrow> None | Some s \<Rightarrow> if s = [] then None else Some s)"

definition quarantined_at_ms_from_action :: "action_binding \<Rightarrow> rat option" where
  "quarantined_at_ms_from_action a = number_of (param a ''quarantined_at_ms'')"

end
