(* ===== verification/Hub_Records.thy ===== *)
theory Hub_Records
  imports Hub_Requests "HOL-Library.Sorting_Algorithms"
begin

text \<open>
  The client's records of apps, packages, their routes, surfaces and actions, and spawn points:
  the projections of \<open>src/botster/hubTransport.ts\<close> from the Hub's types
  (\<open>src/botster/generated/daemon-protocol.ts\<close>).

  \<^item> A property that is optional or may be \<open>null\<close> is an option; the projections read it with
    \<open>??\<close> or by truth.
  \<^item> \<open>localeCompare\<close> is the runtime's collation: a \<open>comparator\<close> argument. \<open>sort\<close> with it is the
    library's stable sort, as \<open>Array.prototype.sort\<close> is.
  \<^item> A record's \<open>id\<close> is the one the entity store keys it by; the other properties are its fields.
\<close>

subsection \<open>The Hub's types\<close>

record daemon_capability =
  dc_surface :: string
  dc_scope :: "string option"

record package_diagnostic =
  pd_kind :: string
  pd_message :: string

record route_target =
  rt_kind :: string
  rt_entrypoint_id :: "string option"
  rt_surface_id :: "string option"

record route_descriptor =
  rd_package_name :: string
  rd_route_id :: string
  rd_route_path :: string
  rd_target :: route_target
  rd_title :: string
  rd_label :: string
  rd_app_id :: "string option"
  rd_surface_id :: "string option"
  rd_icon :: "string option"
  rd_category :: "string option"
  rd_layout_mode :: string
  rd_required_capabilities :: "daemon_capability list option"
  rd_enabled :: bool
  rd_blocked :: bool
  rd_diagnostics :: "package_diagnostic list option"
  rd_supports_settings :: bool

record surface_descriptor =
  sd_id :: string
  sd_kind :: string
  sd_title :: string
  sd_description :: "string option"
  sd_icon :: "string option"
  sd_category :: "string option"
  sd_order :: "rat option"
  sd_supports :: "string list option"

record package_action_request =
  pq_request_type :: string
  pq_pin :: "json option"
  pq_package_name :: "string option"
  pq_entry_id :: "string option"
  pq_entrypoint_id :: "string option"
  pq_registry_path :: "string option"

record package_action_state =
  as_action_id :: string
  as_status :: string
  as_reason :: "string option"
  as_diagnostics :: "package_diagnostic list option"
  as_required_references :: "(string \<times> string) list option"
  as_request :: "package_action_request option"

record daemon_app =
  da_package_name :: string
  da_app_id :: string
  da_entrypoint_id :: string
  da_kind :: string
  da_launch_mode :: string
  da_lifecycle_state :: string
  da_diagnostics :: "package_diagnostic list option"
  da_actions :: "package_action_state list option"
  da_blocked_reasons :: "string list option"
  da_target_kind :: string
  da_local_url :: "string option"
  da_route :: "route_descriptor option"

record package_process =
  pp_state :: string
  pp_pid :: "nat option"
  pp_started_at :: "nat option"
  pp_exited_at :: "nat option"
  pp_exit_status :: "string option"
  pp_diagnostics :: "package_diagnostic list option"

record runnable_entrypoint =
  rp_id :: string
  rp_kind :: string
  rp_launch_mode :: string
  rp_command :: string
  rp_args :: "string list"
  rp_working_directory :: json
  rp_environment :: json
  rp_capabilities :: "daemon_capability list"
  rp_may_supervise :: bool
  rp_process :: package_process
  rp_actions :: "package_action_state list option"

record availability_reason =
  av_reason :: string
  av_action :: string

record availability_row =
  aw_id :: string
  aw_state :: string
  aw_package_name :: "string option"
  aw_reasons :: "availability_reason list option"

record package_configuration =
  pc_schema :: "json option"
  pc_effective_values :: "json option"
  pc_missing_required :: "json option"
  pc_diagnostics :: "package_diagnostic list option"

record daemon_package =
  dp_package_name :: string
  dp_version :: string
  dp_classification :: string
  dp_state :: string
  dp_requested_capabilities :: "daemon_capability list option"
  dp_surfaces :: "surface_descriptor list option"
  dp_notice_reactions :: "json list option"
  dp_routes :: "route_descriptor list option"
  dp_runnable_entrypoints :: "runnable_entrypoint list option"
  dp_configuration :: "package_configuration option"
  dp_availability :: "(string \<times> availability_reason list option) option"
  dp_dependency_availability :: "availability_row list option"
  dp_feature_availability :: "availability_row list option"
  dp_actions :: "package_action_state list option"
  dp_provider_profile_admitted :: bool

record available_package =
  vp_entry_id :: string
  vp_package_name :: string
  vp_version :: string
  vp_classification :: string
  vp_source_kind :: string
  vp_source_label :: string
  vp_first_party :: bool
  vp_state :: string
  vp_requested_capabilities :: "daemon_capability list option"
  vp_compatibility_result :: string
  vp_compatibility_diagnostics :: "string list"
  vp_actions :: "package_action_state list option"

record navigation_source =
  ns_kind :: string
  ns_surface_id :: "string option"
  ns_entrypoint_id :: "string option"

record navigation_entry =
  ne_package_name :: string
  ne_item_id :: string
  ne_label :: string
  ne_icon :: "string option"
  ne_description :: "string option"
  ne_route_id :: string
  ne_route_path :: string
  ne_target :: route_target
  ne_source :: navigation_source
  ne_enabled :: bool
  ne_blocked :: bool
  ne_diagnostics :: "package_diagnostic list option"

record spawn_target =
  st_target_id :: string
  st_label :: string
  st_root :: string
  st_enabled :: bool
  st_kind :: string
  st_metadata :: "(string \<times> string) list option"

subsection \<open>Values of the Hub's types\<close>

abbreviation text_json :: "string \<Rightarrow> json option" where
  "text_json s \<equiv> Some (J_string s)"

abbreviation flag_json :: "bool \<Rightarrow> json option" where
  "flag_json b \<equiv> Some (J_bool b)"

abbreviation texts_json :: "string list \<Rightarrow> json option" where
  "texts_json xs \<equiv> Some (J_array (map J_string xs))"

definition or_else :: "'a option \<Rightarrow> 'a \<Rightarrow> 'a" where
  "or_else x d = (case x of Some y \<Rightarrow> y | None \<Rightarrow> d)"

definition capability_json :: "daemon_capability \<Rightarrow> json" where
  "capability_json c = obj [(''surface'', text_json (dc_surface c)),
     (''scope'', Some (case dc_scope c of Some s \<Rightarrow> J_string s | None \<Rightarrow> J_null))]"

definition diagnostic_json :: "package_diagnostic \<Rightarrow> json" where
  "diagnostic_json d = obj [(''kind'', text_json (pd_kind d)), (''message'', text_json (pd_message d))]"

definition diagnostic_text :: "package_diagnostic \<Rightarrow> string" where
  "diagnostic_text d = pd_kind d @ '': '' @ pd_message d"

definition request_fields :: "package_action_request \<Rightarrow> (string \<times> json) list" where
  "request_fields q = read_config_object (Some (obj
     [(''request_type'', text_json (pq_request_type q)), (''pin'', pq_pin q),
      (''package_name'', map_option J_string (pq_package_name q)),
      (''entry_id'', map_option J_string (pq_entry_id q)),
      (''entrypoint_id'', map_option J_string (pq_entrypoint_id q)),
      (''registry_path'', map_option J_string (pq_registry_path q))]))"

definition action_state_json :: "package_action_state \<Rightarrow> json" where
  "action_state_json a = obj
     [(''action_id'', text_json (as_action_id a)), (''status'', text_json (as_status a)),
      (''reason'', map_option J_string (as_reason a)),
      (''diagnostics'', map_option (J_array \<circ> map diagnostic_json) (as_diagnostics a)),
      (''required_references'', map_option (J_array \<circ> map (\<lambda>(k, r).
          obj [(''kind'', text_json k), (''key'', text_json r)])) (as_required_references a)),
      (''request'', map_option (J_object \<circ> request_fields) (as_request a))]"

definition process_json :: "package_process \<Rightarrow> json" where
  "process_json p = obj
     [(''state'', text_json (pp_state p)), (''pid'', map_option (J_number \<circ> of_nat) (pp_pid p)),
      (''started_at'', map_option (J_number \<circ> of_nat) (pp_started_at p)),
      (''exited_at'', map_option (J_number \<circ> of_nat) (pp_exited_at p)),
      (''exit_status'', map_option J_string (pp_exit_status p)),
      (''diagnostics'', map_option (J_array \<circ> map diagnostic_json) (pp_diagnostics p))]"

definition entrypoint_json :: "runnable_entrypoint \<Rightarrow> json" where
  "entrypoint_json e = obj
     [(''id'', text_json (rp_id e)), (''kind'', text_json (rp_kind e)),
      (''launch_mode'', text_json (rp_launch_mode e)), (''command'', text_json (rp_command e)),
      (''args'', texts_json (rp_args e)), (''working_directory'', Some (rp_working_directory e)),
      (''environment'', Some (rp_environment e)),
      (''capabilities'', Some (J_array (map capability_json (rp_capabilities e)))),
      (''may_supervise'', flag_json (rp_may_supervise e)), (''process'', Some (process_json (rp_process e))),
      (''actions'', map_option (J_array \<circ> map action_state_json) (rp_actions e))]"

text \<open>A record under its id, with the other properties of the literal.\<close>

definition entity :: "string \<Rightarrow> (string \<times> json option) list \<Rightarrow> entity_record" where
  "entity i kvs = \<lparr>er_id = i, er_fields = read_config_object (Some (obj kvs))\<rparr>"

end
