(* ===== verification/Hub_Packages.thy ===== *)
theory Hub_Packages
  imports Hub_Records
begin

text \<open>
  Projections of spawn points, apps, packages, available packages and navigation entries into
  client records (\<open>src/botster/hubTransport.ts\<close>).

  \<^item> \<open>toUpperCase\<close> is applied to the first letter of the protocol's action names, which are
    ASCII words; \<open>upper\<close> is its value there.
\<close>

subsection \<open>Spawn points\<close>

definition metadata_summary :: "(string \<times> string) list option \<Rightarrow> string" where
  "metadata_summary metadata =
     (let entries = or_else metadata [] in
      if entries = [] then ''No metadata'' else join ''; '' (map (\<lambda>(k, v). k @ '': '' @ v) entries))"

definition metadata_json :: "(string \<times> string) list option \<Rightarrow> json" where
  "metadata_json metadata = J_object (map (\<lambda>(k, v). (k, J_string v)) (or_else metadata []))"

definition spawn_target_edit_action :: "spawn_target \<Rightarrow> action_binding" where
  "spawn_target_edit_action t = spawn_target_action ''update_spawn_target'' (Some (st_target_id t)) ''Save''
     [(''label'', text_json (st_label t)), (''root'', text_json (st_root t)),
      (''enabled'', flag_json (st_enabled t)), (''kind'', text_json (st_kind t)),
      (''metadata'', Some (metadata_json (st_metadata t)))]"

definition spawn_target_delete_action :: "spawn_target \<Rightarrow> action_binding" where
  "spawn_target_delete_action t = spawn_target_action ''delete_spawn_target'' (Some (st_target_id t)) ''Delete'' []"

definition spawn_target_record :: "spawn_target \<Rightarrow> entity_record" where
  "spawn_target_record t = entity (st_target_id t)
     [(''target_id'', text_json (st_target_id t)), (''title'', text_json (st_label t)),
      (''label'', text_json (st_label t)), (''root'', text_json (st_root t)),
      (''enabled'', flag_json (st_enabled t)),
      (''status'', text_json (if st_enabled t then ''enabled'' else ''disabled'')),
      (''kind'', text_json (st_kind t)), (''metadata'', Some (metadata_json (st_metadata t))),
      (''metadata_summary'', text_json (metadata_summary (st_metadata t))),
      (''edit_action'', Some (action_json (spawn_target_edit_action t))),
      (''delete_action'', Some (action_json (spawn_target_delete_action t)))]"

subsection \<open>Actions\<close>

fun split_on :: "char \<Rightarrow> string \<Rightarrow> string list" where
  "split_on d [] = [[]]"
| "split_on d (c # cs) = (if c = d then [] # split_on d cs
     else (case split_on d cs of [] \<Rightarrow> [[c]] | w # ws \<Rightarrow> (c # w) # ws))"

definition upper :: "char \<Rightarrow> char" where
  "upper c = (if (97::nat) \<le> of_char c \<and> of_char c \<le> (122::nat) then char_of (of_char c - 32 :: nat) else c)"

definition action_label :: "string \<Rightarrow> string" where
  "action_label action_id =
     (let a = (if action_id = ''set_package_configuration'' then ''configure'' else action_id);
          a = (if a = ''package_entrypoint_status'' then ''refresh entrypoint'' else a)
      in join '' '' (map (\<lambda>word. map upper (take 1 word) @ drop 1 word) (split_on (CHR ''_'') a)))"

definition package_action_binding ::
    "package_action_state \<Rightarrow> string \<Rightarrow> string option \<Rightarrow> action_binding" where
  "package_action_binding a package_name entrypoint_id =
     (let request_package = Option.bind (as_request a) pq_package_name;
          request_entrypoint = Option.bind (as_request a) pq_entrypoint_id;
          package = or_else request_package package_name
      in \<lparr>ab_id = ''botster.package.daemon_request'', ab_target = Some package,
          ab_label = Some (action_label (as_action_id a)),
          ab_disabled = Some (as_status a \<noteq> ''available'' \<or> as_request a = None),
          ab_params = Some (read_config_object (Some (obj
            [(''package_name'', text_json package),
             (''entrypoint_id'', map_option J_string
               (case request_entrypoint of Some e \<Rightarrow> Some e | None \<Rightarrow> entrypoint_id)),
             (''action_id'', text_json (as_action_id a)), (''action_status'', text_json (as_status a)),
             (''action_reason'', text_json (or_else (as_reason a) [])),
             (''daemon_request'', map_option (J_object \<circ> request_fields) (as_request a))]))),
          ab_plugin_surface = None\<rparr>)"

record package_action_row =
  ax_id :: string
  ax_action_id :: string
  ax_status :: string
  ax_reason :: string
  ax_diagnostics :: "string list"
  ax_required_references :: "(string \<times> string) list"
  ax_action :: action_binding

definition package_action_records ::
    "package_action_state list option \<Rightarrow> string \<Rightarrow> string option \<Rightarrow> package_action_row list" where
  "package_action_records actions package_name entrypoint_id =
     map (\<lambda>a. \<lparr>ax_id = package_name @ '':'' @ (case entrypoint_id of None \<Rightarrow> []
                | Some e \<Rightarrow> if e = [] then [] else e @ '':'') @ as_action_id a,
           ax_action_id = as_action_id a, ax_status = as_status a, ax_reason = or_else (as_reason a) [],
           ax_diagnostics = map diagnostic_text (or_else (as_diagnostics a) []),
           ax_required_references = or_else (as_required_references a) [],
           ax_action = package_action_binding a package_name entrypoint_id\<rparr>)
       (or_else actions [])"

definition action_row_json :: "package_action_row \<Rightarrow> json" where
  "action_row_json r = obj
     [(''id'', text_json (ax_id r)), (''action_id'', text_json (ax_action_id r)),
      (''status'', text_json (ax_status r)), (''reason'', text_json (ax_reason r)),
      (''diagnostics'', texts_json (ax_diagnostics r)),
      (''required_references'', Some (J_array (map (\<lambda>(k, v).
          obj [(''kind'', text_json k), (''key'', text_json v)]) (ax_required_references r)))),
      (''action'', Some (action_json (ax_action r)))]"

definition rows_json :: "package_action_row list \<Rightarrow> json option" where
  "rows_json rows = Some (J_array (map action_row_json rows))"

definition action_list_summary :: "package_action_row list \<Rightarrow> string \<Rightarrow> string" where
  "action_list_summary rows none =
     (if rows = [] then none
      else join ''; '' (map (\<lambda>r. ax_action_id r @ '' '' @ ax_status r
             @ (if ax_reason r = [] then [] else '' ('' @ ax_reason r @ '')'')) rows))"

definition entrypoint_action_records :: "string \<Rightarrow> runnable_entrypoint \<Rightarrow> package_action_row list" where
  "entrypoint_action_records package_name e = package_action_records (rp_actions e) package_name (Some (rp_id e))"

subsection \<open>Routes and surfaces\<close>

record package_route =
  rr_descriptor :: route_descriptor
  rr_entrypoint :: string
  rr_surface :: string

definition package_route_record :: "route_descriptor \<Rightarrow> package_route" where
  "package_route_record r = \<lparr>rr_descriptor = r, rr_entrypoint = or_else (rt_entrypoint_id (rd_target r)) [],
     rr_surface = (case rd_surface_id r of Some s \<Rightarrow> s | None \<Rightarrow> or_else (rt_surface_id (rd_target r)) [])\<rparr>"

definition route_json :: "package_route \<Rightarrow> json" where
  "route_json p = (let r = rr_descriptor p in obj
     [(''package_name'', text_json (rd_package_name r)), (''route_id'', text_json (rd_route_id r)),
      (''route_path'', text_json (rd_route_path r)), (''target_kind'', text_json (rt_kind (rd_target r))),
      (''entrypoint_id'', text_json (rr_entrypoint p)), (''surface_id'', text_json (rr_surface p)),
      (''title'', text_json (rd_title r)), (''label'', text_json (rd_label r)),
      (''app_id'', text_json (or_else (rd_app_id r) [])), (''icon'', text_json (or_else (rd_icon r) [])),
      (''category'', text_json (or_else (rd_category r) [])), (''layout_mode'', text_json (rd_layout_mode r)),
      (''required_capabilities'', Some (J_array (map capability_json (or_else (rd_required_capabilities r) [])))),
      (''enabled'', flag_json (rd_enabled r)), (''blocked'', flag_json (rd_blocked r)),
      (''diagnostics'', Some (J_array (map diagnostic_json (or_else (rd_diagnostics r) [])))),
      (''supports_settings'', flag_json (rd_supports_settings r))])"

definition compare_package_route_descriptors :: "string comparator \<Rightarrow> route_descriptor comparator" where
  "compare_package_route_descriptors locale_compare =
     key (\<lambda>r. (rd_route_path r, rd_route_id r)) (prod_lex locale_compare locale_compare)"

definition package_route_records :: "string comparator \<Rightarrow> route_descriptor list option \<Rightarrow> package_route list" where
  "package_route_records locale_compare routes =
     map package_route_record (sort (compare_package_route_descriptors locale_compare) (or_else routes []))"

text \<open>A surface without an order comes after every ordered one, as \<open>Infinity\<close> does.\<close>

definition compare_surface_descriptors :: "string comparator \<Rightarrow> surface_descriptor comparator" where
  "compare_surface_descriptors locale_compare =
     key (\<lambda>s. ((sd_order s = None, or_else (sd_order s) 0), sd_title s, sd_id s))
       (prod_lex (prod_lex default default) (prod_lex locale_compare locale_compare))"

record package_surface =
  ps_descriptor :: surface_descriptor
  ps_route :: "package_route option"
  ps_launch_action :: action_binding

definition surface_launch_action ::
    "string \<Rightarrow> surface_descriptor \<Rightarrow> package_route option \<Rightarrow> action_binding" where
  "surface_launch_action package_name s route =
     \<lparr>ab_id = ''botster.package.surface.render'', ab_target = Some package_name, ab_label = Some (sd_title s),
      ab_disabled = (case route of
          Some r \<Rightarrow> if \<not> rd_enabled (rr_descriptor r) \<or> rd_blocked (rr_descriptor r) then Some True else None
        | None \<Rightarrow> None),
      ab_params = Some [(''package_name'', J_string package_name), (''surface_id'', J_string (sd_id s)),
        (''surface_kind'', J_string (sd_kind s)),
        (''supports'', J_array (map J_string (or_else (sd_supports s) [])))],
      ab_plugin_surface = None\<rparr>"

definition package_surface_records ::
    "string comparator \<Rightarrow> daemon_package \<Rightarrow> string \<Rightarrow> package_route list \<Rightarrow> package_surface list" where
  "package_surface_records locale_compare p kind routes =
     map (\<lambda>s. let route = find (\<lambda>r. rr_surface r = sd_id s) routes in
           \<lparr>ps_descriptor = s, ps_route = route,
            ps_launch_action = surface_launch_action (dp_package_name p) s route\<rparr>)
       (sort (compare_surface_descriptors locale_compare)
         (filter (\<lambda>s. sd_kind s = kind) (or_else (dp_surfaces p) [])))"

definition surface_json :: "string \<Rightarrow> package_surface \<Rightarrow> json" where
  "surface_json package_name q = (let s = ps_descriptor q; r = map_option rr_descriptor (ps_route q) in obj
     [(''id'', text_json (package_name @ '':'' @ sd_id s)), (''surface_id'', text_json (sd_id s)),
      (''kind'', text_json (sd_kind s)), (''title'', text_json (sd_title s)),
      (''description'', text_json (or_else (sd_description s) [])),
      (''icon'', text_json (or_else (sd_icon s) [])), (''category'', text_json (or_else (sd_category s) [])),
      (''supports'', texts_json (or_else (sd_supports s) [])),
      (''route'', map_option route_json (ps_route q)),
      (''route_id'', map_option (J_string \<circ> rd_route_id) r), (''route_path'', map_option (J_string \<circ> rd_route_path) r),
      (''route_enabled'', map_option (J_bool \<circ> rd_enabled) r), (''route_blocked'', map_option (J_bool \<circ> rd_blocked) r),
      (''route_diagnostics'', Some (J_array (map diagnostic_json
          (case r of None \<Rightarrow> [] | Some d \<Rightarrow> or_else (rd_diagnostics d) [])))),
      (''launch_action'', Some (action_json (ps_launch_action q)))])"

definition surface_list_summary :: "package_surface list \<Rightarrow> string \<Rightarrow> string" where
  "surface_list_summary surfaces none =
     (if surfaces = [] then none
      else join ''; '' (map (\<lambda>q. sd_title (ps_descriptor q) @ '' ('' @ sd_id (ps_descriptor q) @ '')'') surfaces))"

end
