(* ===== verification/Hub_Catalog.thy ===== *)
theory Hub_Catalog
  imports Hub_Packages
begin

text \<open>
  The records of apps, packages with their configuration forms, available packages and navigation
  entries (\<open>src/botster/hubTransport.ts\<close>).
\<close>

subsection \<open>Apps\<close>

definition app_diagnostic_summary :: "bool \<Rightarrow> bool \<Rightarrow> string list \<Rightarrow> string \<Rightarrow> string" where
  "app_diagnostic_summary is_terminal_app missing_local_url diagnostics lifecycle_state =
     (if is_terminal_app then ''Requires local terminal launch.''
      else if missing_local_url then ''Web app has no hub-provided local URL.''
      else if diagnostics \<noteq> [] then join ''; '' diagnostics
      else ''Lifecycle: '' @ lifecycle_state)"

definition app_actions :: "daemon_app \<Rightarrow> package_action_row list" where
  "app_actions a = package_action_records (da_actions a) (da_package_name a) (Some (da_entrypoint_id a))"

definition app_diagnostics :: "daemon_app \<Rightarrow> string list" where
  "app_diagnostics a =
     or_else (da_blocked_reasons a) [] @ map diagnostic_text (or_else (da_diagnostics a) [])
     @ filter (\<lambda>m. m \<noteq> []) (concat (map (\<lambda>r.
         [if ax_status r = ''available'' then [] else ax_action_id r @ '' '' @ ax_status r, ax_reason r])
         (app_actions a)))"

definition is_terminal_app :: "daemon_app \<Rightarrow> bool" where
  "is_terminal_app a \<longleftrightarrow> da_kind a = ''terminal_app'' \<or> da_target_kind a = ''terminal_app''"

definition missing_local_url :: "daemon_app \<Rightarrow> bool" where
  "missing_local_url a \<longleftrightarrow>
     (da_kind a = ''web_app'' \<or> da_target_kind a = ''web_app'') \<and> or_else (da_local_url a) [] = []"

definition app_open_action :: "daemon_app \<Rightarrow> action_binding" where
  "app_open_action a =
     \<lparr>ab_id = ''botster.app.open_url'', ab_target = Some (da_package_name a @ '':'' @ da_app_id a),
      ab_label = Some (if is_terminal_app a then ''Launch in terminal'' else ''Open app''),
      ab_disabled = Some (is_terminal_app a \<or> missing_local_url a \<or> or_else (da_blocked_reasons a) [] \<noteq> []
        \<or> list_ex (\<lambda>r. ax_status r \<noteq> ''available'') (app_actions a)),
      ab_params = Some
        [(''package_name'', J_string (da_package_name a)), (''app_id'', J_string (da_app_id a)),
         (''entrypoint_id'', J_string (da_entrypoint_id a)), (''kind'', J_string (da_kind a)),
         (''launch_target_kind'', J_string (da_target_kind a)),
         (''local_url'', J_string (or_else (da_local_url a) [])),
         (''blocked_reasons'', J_array (map J_string (or_else (da_blocked_reasons a) []))),
         (''diagnostics'', J_array (map J_string (app_diagnostics a)))],
      ab_plugin_surface = None\<rparr>"

definition app_record :: "daemon_app \<Rightarrow> entity_record" where
  "app_record a =
     (let actions = app_actions a; route = map_option package_route_record (da_route a);
          diagnostics = app_diagnostics a
      in entity (da_package_name a @ '':'' @ da_app_id a)
        [(''title'', text_json (if da_app_id a = da_package_name a then da_package_name a
            else da_package_name a @ '' '' @ da_app_id a)),
         (''package_name'', text_json (da_package_name a)), (''app_id'', text_json (da_app_id a)),
         (''entrypoint_id'', text_json (da_entrypoint_id a)), (''kind'', text_json (da_kind a)),
         (''launch_mode'', text_json (da_launch_mode a)),
         (''lifecycle_state'', text_json (da_lifecycle_state a)),
         (''launch_target_kind'', text_json (da_target_kind a)),
         (''local_url'', text_json (or_else (da_local_url a) [])),
         (''blocked_reasons'', texts_json (or_else (da_blocked_reasons a) [])),
         (''diagnostics'', texts_json diagnostics),
         (''diagnostics_summary'', text_json (app_diagnostic_summary (is_terminal_app a) (missing_local_url a)
            diagnostics (da_lifecycle_state a))),
         (''app_actions'', rows_json actions),
         (''app_action_summary'', text_json (action_list_summary actions ''No app actions returned'')),
         (''route'', map_option route_json route),
         (''route_path'', map_option (J_string \<circ> rd_route_path \<circ> rr_descriptor) route),
         (''open_action'', Some (action_json (app_open_action a)))])"

subsection \<open>Configuration forms\<close>

definition form_field_kind :: "string \<Rightarrow> string" where
  "form_field_kind config_type =
     (if config_type = ''multiline_text'' then ''textarea''
      else if config_type = ''boolean'' then ''checkbox''
      else if config_type = ''select'' then ''select''
      else if config_type = ''secret'' then ''secret''
      else ''text_input'')"

definition configuration_value :: "json option \<Rightarrow> json" where
  "configuration_value v =
     (if \<not> is_record v then J_string []
      else if field ''type'' v = text_json ''boolean'' then J_bool (field ''value'' v = flag_json True)
      else (case field ''value'' v of
          Some (J_string s) \<Rightarrow> J_string s
        | Some (J_number n) \<Rightarrow> J_number n
        | _ \<Rightarrow> J_string []))"

definition is_secret_value :: "json option \<Rightarrow> string \<Rightarrow> bool" where
  "is_secret_value v state \<longleftrightarrow>
     is_record v \<and> field ''type'' v = text_json ''secret'' \<and> field ''state'' v = text_json state"

definition read_config_options :: "json option \<Rightarrow> json" where
  "read_config_options v = J_array (map (\<lambda>x. let value = read_config_string (field ''value'' (Some x)) [] in
      obj [(''value'', text_json value),
           (''label'', text_json (read_config_string (field ''label'' (Some x)) value))])
     (filter (\<lambda>x. is_record (Some x)) (or_else (array_of v) [])))"

record configuration_field =
  cf_id :: string
  cf_label :: string
  cf_kind :: string
  cf_config_type :: string
  cf_required :: bool
  cf_value :: json
  cf_secret_state :: "string option"
  cf_placeholder :: "string option"
  cf_helper :: string
  cf_options :: json
  cf_errors :: "string list"

definition package_configuration_fields :: "package_configuration option \<Rightarrow> configuration_field list" where
  "package_configuration_fields configuration =
     (let schema = Option.bind configuration pc_schema;
          fields = filter (\<lambda>x. is_record (Some x)) (or_else (array_of (field ''fields'' schema)) []);
          effective_values = read_config_object (Option.bind configuration pc_effective_values);
          missing_required = List.map_filter (string_of \<circ> Some)
            (or_else (array_of (Option.bind configuration pc_missing_required)) []);
          diagnostics = or_else (Option.bind configuration pc_diagnostics) []
      in map (\<lambda>f. let f = Some f;
                     ident = read_config_string (field ''key'' f) [];
                     config_type = read_config_string (field ''type'' f) ''string'';
                     v = map_of effective_values ident;
                     redacted = is_secret_value v ''redacted''
                 in \<lparr>cf_id = ident, cf_label = read_config_string (field ''label'' f) ident,
                     cf_kind = form_field_kind config_type, cf_config_type = config_type,
                     cf_required = (field ''required'' f = flag_json True),
                     cf_value = (if redacted then J_string [] else configuration_value v),
                     cf_secret_state = (if redacted then Some ''redacted'' else None),
                     cf_placeholder = (if redacted then Some ''Existing secret is saved'' else None),
                     cf_helper = (if redacted then ''Leave blank to keep the existing secret.''
                       else read_config_string (field ''description'' f) []),
                     cf_options = read_config_options (field ''options'' f),
                     cf_errors = (if ident \<in> set missing_required then [''Required configuration is missing.''] else [])
                       @ map pd_message diagnostics\<rparr>) fields)"

definition configuration_field_json :: "configuration_field \<Rightarrow> json" where
  "configuration_field_json c = obj
     [(''id'', text_json (cf_id c)), (''label'', text_json (cf_label c)), (''kind'', text_json (cf_kind c)),
      (''config_type'', text_json (cf_config_type c)), (''required'', flag_json (cf_required c)),
      (''value'', Some (cf_value c)), (''secret_state'', map_option J_string (cf_secret_state c)),
      (''placeholder'', map_option J_string (cf_placeholder c)), (''helper'', text_json (cf_helper c)),
      (''options'', Some (cf_options c)), (''errors'', texts_json (cf_errors c))]"

subsection \<open>Availability and entrypoints\<close>

definition availability_summary :: "availability_reason list option \<Rightarrow> string" where
  "availability_summary reasons =
     (if or_else reasons [] = [] then ''No blocked reasons''
      else join ''; '' (map (\<lambda>r. av_action r @ '': '' @ av_reason r) (or_else reasons [])))"

definition availability_matrix_records :: "availability_row list option \<Rightarrow> json" where
  "availability_matrix_records rows = J_array (map (\<lambda>r. obj
     [(''id'', text_json (aw_id r)), (''package_name'', text_json (or_else (aw_package_name r) [])),
      (''state'', text_json (aw_state r)), (''reasons'', text_json (availability_summary (aw_reasons r)))])
     (or_else rows []))"

definition availability_matrix_summary :: "availability_row list option \<Rightarrow> string \<Rightarrow> string" where
  "availability_matrix_summary rows none =
     (if or_else rows [] = [] then none
      else join ''; '' (map (\<lambda>r. aw_id r @ '' '' @ aw_state r
        @ (if or_else (aw_reasons r) [] = [] then [] else '' ('' @ availability_summary (aw_reasons r) @ '')''))
        (or_else rows [])))"

definition capability_label :: "daemon_capability \<Rightarrow> string" where
  "capability_label c = (case dc_scope c of None \<Rightarrow> dc_surface c
     | Some s \<Rightarrow> if s = [] then dc_surface c else dc_surface c @ '':'' @ s)"

definition capability_summary :: "daemon_capability list \<Rightarrow> string" where
  "capability_summary cs = (if cs = [] then ''No requested capabilities'' else join '', '' (map capability_label cs))"

definition entrypoint_list_summary :: "runnable_entrypoint list \<Rightarrow> string" where
  "entrypoint_list_summary es =
     (if es = [] then ''No runnable entrypoints''
      else join ''; '' (map (\<lambda>e. rp_id e @ '' ('' @ rp_kind e @ '')'') es))"

definition process_details :: "package_process \<Rightarrow> string list" where
  "process_details p =
     (let number = (\<lambda>name v. case v of None \<Rightarrow> [] | Some n \<Rightarrow> if n = 0 then [] else [name @ '' '' @ digits n])
      in number ''pid'' (pp_pid p) @ number ''started_at'' (pp_started_at p) @ number ''exited_at'' (pp_exited_at p)
         @ (case pp_exit_status p of None \<Rightarrow> [] | Some s \<Rightarrow> if s = [] then [] else [''exit_status '' @ s]))"

definition entrypoint_process_list_summary :: "runnable_entrypoint list \<Rightarrow> string" where
  "entrypoint_process_list_summary es =
     (if es = [] then ''No entrypoint process state''
      else join ''; '' (map (\<lambda>e. let details = process_details (rp_process e) in
        rp_id e @ '' '' @ pp_state (rp_process e)
        @ (if details = [] then [] else '' ('' @ join '', '' details @ '')'')) es))"

definition entrypoint_diagnostics_list_summary :: "runnable_entrypoint list \<Rightarrow> string" where
  "entrypoint_diagnostics_list_summary es =
     (let diagnostics = concat (map (\<lambda>e. map (\<lambda>d. rp_id e @ '' '' @ diagnostic_text d)
            (or_else (pp_diagnostics (rp_process e)) [])) es)
      in if diagnostics = [] then ''No entrypoint diagnostics'' else join ''; '' diagnostics)"

subsection \<open>Packages\<close>

definition configuration_submit :: "daemon_package \<Rightarrow> action_binding option" where
  "configuration_submit p =
     map_option (\<lambda>a. package_action_binding a (dp_package_name p) None)
       (find (\<lambda>a. as_action_id a = ''set_package_configuration'') (or_else (dp_actions p) []))"

definition package_record :: "string comparator \<Rightarrow> daemon_package \<Rightarrow> entity_record" where
  "package_record locale_compare p =
     (let name = dp_package_name p;
          entrypoints = or_else (dp_runnable_entrypoints p) [];
          routes = package_route_records locale_compare (dp_routes p);
          app_surfaces = package_surface_records locale_compare p ''app'' routes;
          settings_surfaces = package_surface_records locale_compare p ''settings'' routes;
          fields = package_configuration_fields (dp_configuration p);
          actions = package_action_records (dp_actions p) name None;
          submit = configuration_submit p
      in entity name
        [(''title'', text_json name), (''version'', text_json (dp_version p)), (''status'', text_json (dp_state p)),
         (''classification'', text_json (dp_classification p)),
         (''capability_summary'', text_json (capability_summary (or_else (dp_requested_capabilities p) []))),
         (''compatibility_summary'', text_json (if dp_provider_profile_admitted p
            then ''Provider profile admitted'' else ''No provider profile admission'')),
         (''runnable_entrypoints'', Some (J_array (map entrypoint_json entrypoints))),
         (''routes'', Some (J_array (map route_json routes))),
         (''entrypoint_count'', Some (J_number (of_nat (length entrypoints)))),
         (''entrypoint_summary'', text_json (entrypoint_list_summary entrypoints)),
         (''entrypoint_process_summary'', text_json (entrypoint_process_list_summary entrypoints)),
         (''entrypoint_diagnostics_summary'', text_json (entrypoint_diagnostics_list_summary entrypoints)),
         (''availability_state'', text_json (case dp_availability p of None \<Rightarrow> [] | Some (s, _) \<Rightarrow> s)),
         (''availability_summary'', text_json (availability_summary (Option.bind (dp_availability p) snd))),
         (''dependency_availability'', Some (availability_matrix_records (dp_dependency_availability p))),
         (''dependency_availability_summary'', text_json
            (availability_matrix_summary (dp_dependency_availability p) ''No dependency gates'')),
         (''feature_availability'', Some (availability_matrix_records (dp_feature_availability p))),
         (''feature_availability_summary'', text_json
            (availability_matrix_summary (dp_feature_availability p) ''No feature gates'')),
         (''has_app_surfaces'', flag_json (app_surfaces \<noteq> [])),
         (''app_surface_count'', Some (J_number (of_nat (length app_surfaces)))),
         (''app_surfaces'', Some (J_array (map (surface_json name) app_surfaces))),
         (''app_surface_summary'', text_json (surface_list_summary app_surfaces ''No app surfaces'')),
         (''has_settings_surfaces'', flag_json (settings_surfaces \<noteq> [])),
         (''settings_surface_count'', Some (J_number (of_nat (length settings_surfaces)))),
         (''settings_surfaces'', Some (J_array (map (surface_json name) settings_surfaces))),
         (''settings_surface_summary'', text_json (surface_list_summary settings_surfaces ''No settings surfaces'')),
         (''configurable'', flag_json (fields \<noteq> [])),
         (''configure_action'', if fields \<noteq> [] \<and> submit \<noteq> None
            then Some (obj [(''id'', text_json ''botster.package.configure''), (''target'', text_json name),
              (''label'', text_json (''Configure '' @ name)),
              (''params'', Some (obj [(''package_name'', text_json name)]))])
            else None),
         (''configuration_title'', text_json (name @ '' configuration'')),
         (''configuration_fields'', Some (J_array (map configuration_field_json fields))),
         (''configuration_submit'', map_option (\<lambda>a. action_json (a\<lparr>ab_id := ''botster.package.configuration.save''\<rparr>)) submit),
         (''package_actions'', rows_json actions),
         (''package_action_summary'', text_json (action_list_summary actions ''No package actions returned'')),
         (''entrypoint_actions'', rows_json (concat (map (entrypoint_action_records name) entrypoints))),
         (''notice_reactions'', Some (J_array (or_else (dp_notice_reactions p) []))),
         (''diagnostics_summary'', text_json (dp_classification p @ '' package is '' @ dp_state p))])"

definition available_package_record :: "available_package \<Rightarrow> entity_record" where
  "available_package_record p =
     (let actions = package_action_records (vp_actions p) (vp_package_name p) None
      in entity (vp_entry_id p)
        [(''entry_id'', text_json (vp_entry_id p)), (''package_name'', text_json (vp_package_name p)),
         (''title'', text_json (vp_package_name p)), (''version'', text_json (vp_version p)),
         (''status'', text_json (vp_state p)), (''classification'', text_json (vp_classification p)),
         (''source_kind'', text_json (vp_source_kind p)), (''source_label'', text_json (vp_source_label p)),
         (''first_party'', flag_json (vp_first_party p)),
         (''capability_summary'', text_json (capability_summary (or_else (vp_requested_capabilities p) []))),
         (''compatibility_summary'', text_json (if vp_compatibility_diagnostics p = [] then vp_compatibility_result p
            else vp_compatibility_result p @ '': '' @ join ''; '' (vp_compatibility_diagnostics p))),
         (''package_actions'', rows_json actions),
         (''package_action_summary'', text_json (action_list_summary actions ''No marketplace actions returned''))])"

subsection \<open>Navigation\<close>

definition package_navigation_record :: "navigation_entry \<Rightarrow> entity_record" where
  "package_navigation_record e =
     (let diagnostics = map diagnostic_text (or_else (ne_diagnostics e) []);
          surface_id = (case ns_surface_id (ne_source e) of Some s \<Rightarrow> s | None \<Rightarrow> or_else (rt_surface_id (ne_target e)) []);
          entrypoint_id = (case ns_entrypoint_id (ne_source e) of Some s \<Rightarrow> s
            | None \<Rightarrow> or_else (rt_entrypoint_id (ne_target e)) []);
          unavailable = (\<not> ne_enabled e \<or> ne_blocked e);
          renderable = (rt_kind (ne_target e) = ''plugin_surface'' \<and> surface_id \<noteq> [])
      in entity (ne_package_name e @ '':'' @ ne_item_id e)
        [(''package_name'', text_json (ne_package_name e)), (''item_id'', text_json (ne_item_id e)),
         (''label'', text_json (ne_label e)), (''title'', text_json (ne_label e)),
         (''icon'', text_json (or_else (ne_icon e) [])),
         (''description'', text_json (or_else (ne_description e) [])),
         (''route_id'', text_json (ne_route_id e)), (''route_path'', text_json (ne_route_path e)),
         (''target_kind'', text_json (rt_kind (ne_target e))), (''source_kind'', text_json (ns_kind (ne_source e))),
         (''surface_id'', text_json surface_id), (''entrypoint_id'', text_json entrypoint_id),
         (''enabled'', flag_json (ne_enabled e)), (''blocked'', flag_json (ne_blocked e)),
         (''diagnostics'', texts_json diagnostics),
         (''diagnostics_summary'', text_json (if diagnostics \<noteq> [] then join ''; '' diagnostics
            else if unavailable then ''Unavailable from hub navigation registry'' else [])),
         (''launch_action'', if unavailable \<or> \<not> renderable then None
            else Some (obj [(''id'', text_json ''botster.package.surface.render''),
              (''target'', text_json (ne_package_name e)), (''label'', text_json (ne_label e)),
              (''params'', Some (obj [(''package_name'', text_json (ne_package_name e)),
                 (''surface_id'', text_json surface_id), (''route_id'', text_json (ne_route_id e)),
                 (''source_kind'', text_json (ns_kind (ne_source e)))]))]))])"

end
