(* ===== verification/Hub_Projection.thy ===== *)
theory Hub_Projection
  imports Hub_Catalog
begin

text \<open>
  What the Hub transport (\<open>src/botster/hubTransport.ts\<close>) turns the Hub's messages into: control
  frames for responses, events and entity frames, with the validators that admit a session or a
  session type.

  \<^item> A control frame is a constructor per kind; the payload of an entity frame is the frame the
    entity store applies (theory \<open>Entity_Store\<close>).
  \<^item> \<open>record_of i kvs\<close> is \<open>{...kvs, id: i}\<close>.
  \<^item> Parts of a response that are passed on unread are \<open>json\<close>.
\<close>

subsection \<open>Hub messages\<close>

record operator_error =
  oe_code :: string
  oe_request_id :: string
  oe_operation :: string
  oe_message :: string
  oe_diagnostics :: "json list option"

record daemon_status =
  ds_lifecycle_state :: string
  ds_compatibility :: json
  ds_software :: json
  ds_installation :: json
  ds_host_id :: string
  ds_host_display_name :: string
  ds_schema_version :: nat
  ds_state_source :: string
  ds_package_count :: nat
  ds_session_count :: nat
  ds_quarantines :: "json list option"
  ds_diagnostics :: "json list option"

datatype daemon_event =
    Session_lifecycle string string
  | Runtime_observation string
  | Worktree_lifecycle json
  | Terminal_subscription_closed string string nat string
  | Package_event string string string json
  | Event_gap string string string

record daemon_response =
  dr_kind :: string
  dr_status :: "daemon_status option"
  dr_sessions :: "string list"
  dr_apps :: "daemon_app list option"
  dr_package_navigation :: "navigation_entry list option"
  dr_packages :: "daemon_package list option"
  dr_available_packages :: "available_package list option"
  dr_spawn_targets :: "json option"
  dr_spawn_target_validation :: "json option"
  dr_session_types :: "json list option"
  dr_session_type_definition :: "json option"
  dr_install_plan :: "json option"
  dr_update_status :: "json option"
  dr_hub_update :: "json option"
  dr_package_decision :: "json option"
  dr_plugin_surface :: "json option"
  dr_plugin_logs :: "json option"
  dr_plugin_action_result :: "json option"
  dr_events :: "daemon_event list option"
  dr_error :: "operator_error option"
  dr_diagnostics :: "json list option"

datatype daemon_frame =
    Hub_snapshot (ef_type: string) nat "json list"
  | Hub_upsert (ef_type: string) nat string json
  | Hub_patch (ef_type: string) nat string json
  | Hub_remove (ef_type: string) nat string
  | Hub_entity_error (ef_type: string) string string

datatype hub_frame =
    Hello_ack string
  | Entity_frame entity_frame
  | Entity_error string string string
  | Action_result request_id bool "json option" "string option"
  | Operator_error operator_error
  | Connection_diagnostic json
  | Package_event_frame string string json
  | Event_gap_frame string string
  | Status_refresh quarantine_target "string option" "string option"

subsection \<open>Families\<close>

definition session_family :: string where "session_family = ''session''"
definition session_type_family :: string where "session_type_family = ''session_type''"
definition app_family :: string where "app_family = ''botster-web.app''"
definition package_navigation_family :: string where "package_navigation_family = ''botster-web.package_navigation''"
definition package_family :: string where "package_family = ''botster-web.package''"
definition available_package_family :: string where "available_package_family = ''botster-web.available_package''"
definition spawn_target_family :: string where "spawn_target_family = ''botster-web.spawn_target''"
definition status_family :: string where "status_family = ''botster-web.hub_status''"

lemmas families = session_family_def session_type_family_def app_family_def package_navigation_family_def
  package_family_def available_package_family_def spawn_target_family_def status_family_def

subsection \<open>Entity frames\<close>

definition record_of :: "string \<Rightarrow> (string \<times> json) list \<Rightarrow> entity_record" where
  "record_of i kvs = \<lparr>er_id = i, er_fields = AList.delete ''id'' kvs\<rparr>"

definition has_texts :: "string list \<Rightarrow> json option \<Rightarrow> bool" where
  "has_texts ks v \<longleftrightarrow> list_all (\<lambda>k. string_of (field k v) \<noteq> None) ks"

definition has_numbers :: "string list \<Rightarrow> json option \<Rightarrow> bool" where
  "has_numbers ks v \<longleftrightarrow> list_all (\<lambda>k. number_of (field k v) \<noteq> None) ks"

definition has_flags :: "string list \<Rightarrow> json option \<Rightarrow> bool" where
  "has_flags ks v \<longleftrightarrow> list_all (\<lambda>k. bool_of (field k v) \<noteq> None) ks"

definition absent :: "json option \<Rightarrow> bool" where
  "absent v \<longleftrightarrow> v = None \<or> v = Some J_null"

definition is_daemon_session_entity :: "json option \<Rightarrow> bool" where
  "is_daemon_session_entity v \<longleftrightarrow> is_record v
     \<and> has_texts [''session_uuid'', ''registry_state'', ''lifecycle_class''] v
     \<and> (absent (field ''lifecycle'' v) \<or> has_texts [''lifecycle''] v)
     \<and> has_numbers [''rows'', ''cols'', ''updated_at''] v
     \<and> (absent (field ''exit_code'' v) \<or> has_numbers [''exit_code''] v)
     \<and> (absent (field ''failure_reason'' v) \<or> has_texts [''failure_reason''] v)"

definition is_daemon_session_type :: "json option \<Rightarrow> bool" where
  "is_daemon_session_type v \<longleftrightarrow> is_record v
     \<and> has_texts [''session_type_id'', ''id'', ''source'', ''source_name'', ''label'', ''role'', ''interaction'',
         ''lifecycle'', ''command'', ''working_directory_policy'', ''target_id''] v
     \<and> has_flags [''editable'', ''available''] v"

definition session_entity_record :: "json option \<Rightarrow> entity_record" where
  "session_entity_record v = record_of (read_config_string (field ''session_uuid'' v) []) (read_config_object v)"

definition session_type_entity_record :: "json option \<Rightarrow> entity_record" where
  "session_type_entity_record v =
     record_of (read_config_string (field ''session_type_id'' v) [])
       (AList.update ''definition_id'' (J_string (read_config_string (field ''id'' v) [])) (read_config_object v))"

definition own_id :: "json option \<Rightarrow> string option" where
  "own_id v = (case string_of (field ''id'' v) of Some s \<Rightarrow> if s = [] then None else Some s | None \<Rightarrow> None)"

definition generic_plugin_entity_record :: "json option \<Rightarrow> entity_record option" where
  "generic_plugin_entity_record v =
     (if is_record v then map_option (\<lambda>i. record_of i (read_config_object v)) (own_id v) else None)"

definition specialized :: "string \<Rightarrow> bool" where
  "specialized family \<longleftrightarrow> family = session_family \<or> family = session_type_family"

definition canonical_record :: "string \<Rightarrow> json option \<Rightarrow> entity_record option" where
  "canonical_record family v =
     (if family = session_family then
        (if is_daemon_session_entity v then Some (session_entity_record v) else None)
      else if family = session_type_family then
        (if is_daemon_session_type v then Some (session_type_entity_record v) else None)
      else generic_plugin_entity_record v)"

definition snapshot_record :: "string \<Rightarrow> json \<Rightarrow> entity_record option" where
  "snapshot_record family item =
     (if \<not> specialized family \<and> is_record (Some item)
      then (case own_id (Some item) of None \<Rightarrow> None | Some _ \<Rightarrow> canonical_record family (Some item))
      else canonical_record family (Some item))"

definition upsert_record :: "string \<Rightarrow> string \<Rightarrow> json \<Rightarrow> entity_record option" where
  "upsert_record family i entity_value =
     (case canonical_record family (Some entity_value) of
        Some r \<Rightarrow> Some r
      | None \<Rightarrow>
          if \<not> specialized family \<and> is_record (Some entity_value) \<and> i \<noteq> []
          then Some (record_of i (read_config_object (Some entity_value))) else None)"

fun daemon_entity_frame :: "daemon_frame \<Rightarrow> hub_frame option" where
  "daemon_entity_frame (Hub_snapshot f q items) =
     Some (Entity_frame (Entity_snapshot f (List.map_filter (snapshot_record f) items) (Some (of_nat q))))"
| "daemon_entity_frame (Hub_remove f q i) =
     Some (Entity_frame (Entity_delta Entity_remove f i None (Some (of_nat q))))"
| "daemon_entity_frame (Hub_upsert f q i v) =
     map_option (\<lambda>r. Entity_frame (Entity_delta Entity_upsert f i (Some r) (Some (of_nat q)))) (upsert_record f i v)"
| "daemon_entity_frame (Hub_entity_error f code message) = Some (Entity_error f code message)"
| "daemon_entity_frame (Hub_patch f q i patch) =
     Some (Entity_frame (Entity_delta Entity_patch f i (Some (record_of i (read_config_object (Some patch))))
       (Some (of_nat q))))"

fun entity_subscription_diagnostic_frame :: "daemon_frame \<Rightarrow> hub_frame option" where
  "entity_subscription_diagnostic_frame (Hub_entity_error f code message) =
     Some (Connection_diagnostic (obj
       [(''kind'', text_json code),
        (''message'', text_json (''Entity subscription error for '' @ f @ '': '' @ message)),
        (''operation'', text_json ''subscribe_entities''), (''feature'', text_json f)]))"
| "entity_subscription_diagnostic_frame _ = None"

definition entity_frames_of :: "daemon_frame \<Rightarrow> hub_frame list" where
  "entity_frames_of fr = List.map_filter (\<lambda>x. x) [entity_subscription_diagnostic_frame fr, daemon_entity_frame fr]"

subsection \<open>Responses\<close>

definition status_record :: "daemon_status \<Rightarrow> json list option \<Rightarrow> entity_record" where
  "status_record s diagnostics = entity ''local-hub''
     [(''title'', text_json (ds_host_display_name s)), (''status'', text_json (ds_lifecycle_state s)),
      (''software'', Some (ds_software s)), (''installation'', Some (ds_installation s)),
      (''host_id'', text_json (ds_host_id s)), (''schema_version'', Some (J_number (of_nat (ds_schema_version s)))),
      (''compatibility'', Some (ds_compatibility s)),
      (''sessions'', Some (J_number (of_nat (ds_session_count s)))),
      (''packages'', Some (J_number (of_nat (ds_package_count s)))),
      (''state_source'', text_json (ds_state_source s)),
      (''quarantines'', Some (J_array (or_else (ds_quarantines s) []))),
      (''diagnostics'', Some (J_array (or_else (ds_diagnostics s) [] @ or_else diagnostics [])))]"

definition response_diagnostics :: "daemon_response \<Rightarrow> json list" where
  "response_diagnostics r =
     or_else (Option.bind (dr_status r) ds_diagnostics) [] @ or_else (dr_diagnostics r) []"

fun daemon_event_frame :: "daemon_event \<Rightarrow> hub_frame option" where
  "daemon_event_frame (Runtime_observation kind) =
     Some (Connection_diagnostic (obj [(''kind'', text_json kind),
       (''message'', text_json (''Runtime observation: '' @ kind))]))"
| "daemon_event_frame _ = None"

text \<open>An entry of \<open>spawn_targets\<close> counts when it has the properties of a spawn point; its
  \<open>metadata\<close> is a \<open>Record<string, string>\<close>.\<close>

definition is_daemon_spawn_target :: "json \<Rightarrow> bool" where
  "is_daemon_spawn_target v \<longleftrightarrow>
     has_texts [''target_id'', ''label'', ''root'', ''kind''] (Some v) \<and> has_flags [''enabled''] (Some v)"

definition response_spawn_targets :: "daemon_response \<Rightarrow> json list option" where
  "response_spawn_targets r = map_option (filter is_daemon_spawn_target) (array_of (dr_spawn_targets r))"

definition read_spawn_target :: "json \<Rightarrow> spawn_target" where
  "read_spawn_target v =
     \<lparr>st_target_id = read_config_string (field ''target_id'' (Some v)) [],
      st_label = read_config_string (field ''label'' (Some v)) [],
      st_root = read_config_string (field ''root'' (Some v)) [],
      st_enabled = (field ''enabled'' (Some v) = flag_json True),
      st_kind = read_config_string (field ''kind'' (Some v)) [],
      st_metadata = (case field ''metadata'' (Some v) of
          Some (J_object kvs) \<Rightarrow> Some (List.map_filter (\<lambda>(k, x). map_option (Pair k) (string_of (Some x))) kvs)
        | _ \<Rightarrow> None)\<rparr>"

definition snapshot :: "string \<Rightarrow> nat \<Rightarrow> entity_record list \<Rightarrow> hub_frame" where
  "snapshot family sequence records = Entity_frame (Entity_snapshot family records (Some (of_nat sequence)))"

definition only_if :: "bool \<Rightarrow> 'a list \<Rightarrow> 'a list" where
  "only_if b xs = (if b then xs else [])"

definition daemon_response_frames :: "string comparator \<Rightarrow> daemon_response \<Rightarrow> nat \<Rightarrow> hub_frame list" where
  "daemon_response_frames locale_compare r sequence =
     (case dr_status r of None \<Rightarrow> [] | Some s \<Rightarrow> [snapshot status_family sequence [status_record s (dr_diagnostics r)]])
     @ only_if (dr_kind r = ''apps'') [snapshot app_family sequence (map app_record (or_else (dr_apps r) []))]
     @ only_if (dr_kind r = ''package_navigation'')
         [snapshot package_navigation_family sequence (map package_navigation_record (or_else (dr_package_navigation r) []))]
     @ only_if (dr_kind r \<in> {''packages'', ''package_decision''})
         (case dr_packages r of None \<Rightarrow> [] | Some ps \<Rightarrow> [snapshot package_family sequence (map (package_record locale_compare) ps)])
     @ only_if (dr_kind r \<in> {''available_packages'', ''package_install_plan''})
         (case dr_available_packages r of None \<Rightarrow> []
          | Some ps \<Rightarrow> [snapshot available_package_family sequence (map available_package_record ps)])
     @ only_if (dr_kind r = ''spawn_targets'')
         (case response_spawn_targets r of None \<Rightarrow> []
          | Some ts \<Rightarrow> [snapshot spawn_target_family sequence (map (spawn_target_record \<circ> read_spawn_target) ts)])
     @ List.map_filter daemon_event_frame (or_else (dr_events r) [])
     @ (case dr_error r of None \<Rightarrow> [] | Some e \<Rightarrow> [Operator_error e])
     @ map Connection_diagnostic (response_diagnostics r)"

end
