(* ===== verification/Hub_Actions.thy ===== *)
theory Hub_Actions
  imports Hub_Projection
begin

text \<open>
  \<open>dispatchDaemonAction\<close> of \<open>src/botster/hubTransport.ts\<close>: what an action asks the Hub and what it
  emits.

  \<^item> An \<open>async\<close> function is a plan: the frames and responses it emits, the requests it awaits with
    what it does on each answer, and how it ends. An answer is the response or the rejection.
  \<^item> A rejection is the daemon client's own error (its message, stage and request failure) or
    another one.
\<close>

subsection \<open>Plans\<close>

datatype rejection =
    Client_rejection string string "(string \<times> json) list option"
  | Other_rejection string

fun rejection_message :: "rejection \<Rightarrow> string" where
  "rejection_message (Client_rejection m _ _) = m"
| "rejection_message (Other_rejection m) = m"

type_synonym bridge_answer = "rejection + daemon_response"

datatype plan =
    Finished
  | Failed rejection
  | Emit hub_frame plan
  | Emit_response daemon_response plan
  | Ask json "bridge_answer \<Rightarrow> plan"

text \<open>\<open>await bridge.request(q)\<close> with no handler: a rejection ends the function.\<close>

definition await :: "json \<Rightarrow> (daemon_response \<Rightarrow> plan) \<Rightarrow> plan" where
  "await q k = Ask q (\<lambda>a. case a of Inl e \<Rightarrow> Failed e | Inr r \<Rightarrow> k r)"

record hub_action =
  ha_request_id :: request_id
  ha_action :: action_binding

fun request_id_text :: "request_id \<Rightarrow> string" where
  "request_id_text (Generated n) = ''ui-action-'' @ digits n"
| "request_id_text (Supplied s) = s"

subsection \<open>Results\<close>

definition action_result_frame ::
    "hub_action \<Rightarrow> bool \<Rightarrow> string option \<Rightarrow> (string \<times> json option) list option \<Rightarrow> hub_frame" where
  "action_result_frame q accepted reason result =
     Action_result (ha_request_id q) accepted (map_option obj result) reason"

definition refuse :: "hub_action \<Rightarrow> string \<Rightarrow> plan" where
  "refuse q reason = Emit (action_result_frame q False (Some reason) None) Finished"

definition answer :: "hub_action \<Rightarrow> bool \<Rightarrow> string option \<Rightarrow> (string \<times> json option) list \<Rightarrow> plan" where
  "answer q accepted reason result = Emit (action_result_frame q accepted reason (Some result)) Finished"

definition error_message :: "daemon_response \<Rightarrow> string option" where
  "error_message r = map_option oe_message (dr_error r)"

definition error_code :: "daemon_response \<Rightarrow> json option" where
  "error_code r = map_option (J_string \<circ> oe_code) (dr_error r)"

definition kind_field :: "daemon_response \<Rightarrow> string \<times> json option" where
  "kind_field r = (''kind'', text_json (dr_kind r))"

definition diagnostics_field :: "daemon_response \<Rightarrow> string \<times> json option" where
  "diagnostics_field r = (''diagnostics'', Some (J_array (response_diagnostics r)))"

definition operator_error_json :: "operator_error \<Rightarrow> json" where
  "operator_error_json e = obj
     [(''code'', text_json (oe_code e)), (''request_id'', text_json (oe_request_id e)),
      (''operation'', text_json (oe_operation e)), (''message'', text_json (oe_message e)),
      (''diagnostics'', map_option J_array (oe_diagnostics e))]"

text \<open>\<open>response.error?.message ?? (ok ? undefined : text)\<close>\<close>

definition verdict :: "daemon_response \<Rightarrow> bool \<Rightarrow> string \<Rightarrow> string option" where
  "verdict r done message = (case error_message r of Some m \<Rightarrow> Some m | None \<Rightarrow> if done then None else Some message)"

definition unexpected_kind :: "string \<Rightarrow> string \<Rightarrow> daemon_response \<Rightarrow> string" where
  "unexpected_kind what expected r =
     what @ '' protocol error: expected '' @ expected @ '', received '' @ dr_kind r @ ''.''"

subsection \<open>Sessions\<close>

definition attach_session :: "hub_action \<Rightarrow> plan" where
  "attach_session q =
     (let target = or_else (ab_target (ha_action q)) [] in
      if target = [] then refuse q ''Real hub attach action is missing a session target''
      else answer q True None [(''session_id'', text_json target), (''state'', text_json ''selected''),
        (''mode'', text_json ''hub'')])"

definition stop_session :: "hub_action \<Rightarrow> plan" where
  "stop_session q =
     (let target = or_else (ab_target (ha_action q)) [] in
      if target = [] then refuse q ''Session stop action is missing a session target''
      else await (request_of ''shutdown_session'' [(''session_id'', text_json target)]) (\<lambda>r.
        Emit_response r (answer q (dr_error r = None) (error_message r)
          [(''request_type'', text_json ''shutdown_session''), kind_field r,
           (''session_id'', text_json target), diagnostics_field r])))"

definition remove_session :: "hub_action \<Rightarrow> plan" where
  "remove_session q =
     (let target = or_else (ab_target (ha_action q)) [] in
      if target = [] then refuse q ''Session remove action is missing a session target''
      else await (request_of ''remove_session'' [(''session_id'', text_json target)]) (\<lambda>r.
        let removed = (dr_kind r = ''session_removed'' \<and> dr_error r = None) in
        Emit_response r (answer q removed (verdict r removed (unexpected_kind ''Remove session'' ''session_removed'' r))
          [(''request_type'', text_json ''remove_session''), kind_field r, (''session_id'', text_json target),
           (''error_kind'', error_code r), diagnostics_field r])))"

definition spawn_session :: "hub_action \<Rightarrow> plan" where
  "spawn_session q =
     (let a = ha_action q;
          session_type_id = read_config_string (param a ''session_type_id'') [];
          session_id = read_config_string (param a ''session_id'') [];
          target_id = or_else (ab_target a) (read_config_string (param a ''target_id'') []);
          prompt = trim (read_config_string (param a ''prompt'') [])
      in if session_type_id = [] \<or> session_id = [] \<or> target_id = []
         then refuse q ''New session is missing a spawn point or session type''
         else await (request_of ''spawn_session_type''
             [(''session_type_id'', text_json session_type_id), (''session_id'', text_json session_id),
              (''request'', Some (obj [(''target_id'', text_json target_id),
                 (''context'', Some (obj [(''prompt'', present prompt)]))]))]) (\<lambda>r.
           Emit_response r (answer q (dr_error r = None) (error_message r)
             [(''request_type'', text_json ''spawn_session_type''), kind_field r,
              (''target_id'', text_json target_id), (''session_type_id'', text_json session_type_id),
              (''error_kind'', error_code r),
              (''session_id'', text_json (case dr_sessions r of [] \<Rightarrow> session_id | s # _ \<Rightarrow> s)),
              diagnostics_field r])))"

definition session_type_action :: "hub_action \<Rightarrow> plan" where
  "session_type_action q =
     (case session_type_request_from_action (ha_action q) of
        None \<Rightarrow> refuse q ''Session type action is missing a hub daemon request''
      | Some d \<Rightarrow> await d (\<lambda>r.
          Emit_response r (answer q (dr_error r = None) (error_message r)
            [(''request_type'', field ''type'' (Some d)), kind_field r, (''error_kind'', error_code r),
             diagnostics_field r,
             (''session_type_definition'', case dr_session_type_definition r of
                 Some v \<Rightarrow> if truthy v then Some v else None | None \<Rightarrow> None),
             (''session_types'', map_option J_array (dr_session_types r))])))"

subsection \<open>Packages and plugins\<close>

definition configure_package :: "hub_action \<Rightarrow> plan" where
  "configure_package q = answer q True None
     [(''package_name'', map_option J_string (ab_target (ha_action q))), (''state'', text_json ''selected'')]"

definition save_package_configuration :: "hub_action \<Rightarrow> plan" where
  "save_package_configuration q =
     (let a = ha_action q; package_name = or_else (ab_target a) (read_config_string (param a ''package_name'') [])
      in if package_name = [] then refuse q ''Package configuration save is missing a package target''
         else await (package_configuration_request package_name a) (\<lambda>r.
           Emit_response r (answer q (dr_error r = None) (error_message r)
             [(''package_name'', text_json package_name), kind_field r, diagnostics_field r])))"

definition render_package_surface :: "hub_action \<Rightarrow> plan" where
  "render_package_surface q =
     (let a = ha_action q;
          package_name = or_else (ab_target a) (read_config_string (param a ''package_name'') []);
          surface_id = read_config_string (param a ''surface_id'') [];
          names = [(''package_name'', text_json package_name), (''surface_id'', text_json surface_id)]
      in if package_name = [] \<or> surface_id = []
         then refuse q ''Package surface render is missing a package or surface target''
         else Ask (request_of ''plugin_surface_render'' (names @ [(''payload'', Some (json_object (param a ''payload'')))]))
           (\<lambda>x. case x of
              Inl (Other_rejection m) \<Rightarrow> Failed (Other_rejection m)
            | Inl (Client_rejection m stage failure) \<Rightarrow>
                answer q False (Some m) (names @
                  [(''error_kind'', Option.bind failure (\<lambda>f. map_of f ''code'')),
                   (''transport_error'', Some (J_object (spread
                      [(''stage'', J_string stage), (''message'', J_string m)] (or_else failure []))))])
            | Inr r \<Rightarrow>
                (let matches = (dr_kind r = ''plugin_surface'') in
                 Emit_response r (answer q (matches \<and> dr_error r = None)
                   (verdict r matches (unexpected_kind ''Plugin surface render'' ''plugin_surface'' r)) (names @
                   [kind_field r, (''error_kind'', error_code r),
                    (''error'', Some (case dr_error r of None \<Rightarrow> J_null | Some e \<Rightarrow> operator_error_json e)),
                    (''plugin_surface'', dr_plugin_surface r)])))))"

text \<open>\<open>retryablePluginLogErrorCodes\<close> holds one code.\<close>

definition read_plugin_logs :: "hub_action \<Rightarrow> plan" where
  "read_plugin_logs q =
     (case read_plugin_logs_request_from_action (ha_action q) of
        None \<Rightarrow> refuse q ''Read plugin logs action is missing a package name or has a malformed after_seq''
      | Some d \<Rightarrow> await d (\<lambda>r.
          let logs = nullish (dr_plugin_logs r) J_null;
              read_ok = (dr_kind r = ''plugin_logs'' \<and> dr_error r = None \<and> truthy logs)
          in Emit_response r (answer q read_ok (verdict r read_ok (unexpected_kind ''Read plugin logs'' ''plugin_logs'' r))
            [(''request_type'', text_json ''read_plugin_logs''), kind_field r,
             (''package_name'', field ''package_name'' (Some d)),
             (''after_seq'', Some (nullish (field ''after_seq'' (Some d)) J_null)), (''plugin_logs'', Some logs),
             (''error_kind'', error_code r),
             (''retryable'', flag_json (map_option oe_code (dr_error r) = Some ''plugin_logs_capacity'')),
             diagnostics_field r])))"

definition plugin_surface_action :: "string \<times> (string \<times> json) list \<Rightarrow> hub_action \<Rightarrow> plan" where
  "plugin_surface_action surface q =
     (let (package_name, given) = surface;
          d = AList.update ''request_id'' (J_string (request_id_text (ha_request_id q))) given
      in await (request_of ''plugin_surface_action''
            [(''package_name'', text_json package_name), (''request'', Some (J_object d))]) (\<lambda>r.
        let res = dr_plugin_action_result r;
            matches = (is_record res \<and> list_all (\<lambda>k. field k res = map_of d k)
              [''request_id'', ''surface_id'', ''action_id'', ''node_id'']);
            form_error = (case array_of (field ''form_errors'' res) of Some (e # _) \<Rightarrow> string_of (Some e) | _ \<Rightarrow> None);
            reason = (case error_message r of Some m \<Rightarrow> Some m | None \<Rightarrow>
              (case string_of (field ''error'' res) of Some m \<Rightarrow> Some m | None \<Rightarrow>
              (case form_error of Some m \<Rightarrow> Some m | None \<Rightarrow>
                if matches then None else Some ''Plugin action result identity mismatch'')))
        in Emit_response r (answer q
             (dr_error r = None \<and> matches \<and> field ''state'' res = text_json ''accepted'') reason
             [(''package_name'', text_json package_name), (''surface_id'', map_of d ''surface_id''),
              (''action_id'', map_of d ''action_id''), kind_field r, (''plugin_action_result'', res)])))"

definition package_action :: "hub_action \<Rightarrow> plan" where
  "package_action q =
     (case daemon_request_from_action (ha_action q) of
        None \<Rightarrow> refuse q ''Package action is missing a hub-provided daemon request''
      | Some d \<Rightarrow> await d (\<lambda>r.
          Emit_response r (answer q (dr_error r = None) (error_message r)
            [(''request_type'', field ''type'' (Some d)), kind_field r,
             (''package_decision'', dr_package_decision r), (''install_plan'', dr_install_plan r),
             (''update_status'', dr_update_status r), diagnostics_field r])))"

subsection \<open>Hub and spawn points\<close>

definition check_hub_update :: "hub_action \<Rightarrow> plan" where
  "check_hub_update q = await (request_of ''check_hub_update'' []) (\<lambda>r.
     Emit_response r (answer q (dr_error r = None) (error_message r)
       [(''request_type'', text_json ''check_hub_update''), kind_field r,
        (''hub_update'', Some (nullish (dr_hub_update r) J_null)), diagnostics_field r]))"

definition status_request :: json where "status_request = request_of ''status'' []"

text \<open>After a confirmed resolve the status is read again; its failure is reported, not thrown.\<close>

definition resolve_quarantine :: "hub_action \<Rightarrow> plan" where
  "resolve_quarantine q =
     (case quarantine_target_from_action (ha_action q) of
        None \<Rightarrow> refuse q ''Resolve quarantine action is missing a quarantine target''
      | Some target \<Rightarrow>
          await (request_of ''resolve_quarantine'' [(''target'', Some (target_json target))]) (\<lambda>r.
            let resolved = (dr_kind r = ''quarantine_resolved'' \<and> dr_error r = None);
                operation_id = quarantine_operation_id_from_action (ha_action q)
            in Emit_response r (Emit (action_result_frame q resolved
                 (verdict r resolved (unexpected_kind ''Resolve quarantine'' ''quarantine_resolved'' r))
                 (Some [(''request_type'', text_json ''resolve_quarantine''), kind_field r,
                  (''target'', Some (target_json target)),
                  (''status_refresh'', if resolved then Some (obj [(''state'', text_json ''pending'')]) else None),
                  (''error_kind'', error_code r), diagnostics_field r]))
               (if \<not> resolved then Finished
                else Ask status_request (\<lambda>x. case x of
                    Inl e \<Rightarrow> Emit (Status_refresh target operation_id (Some (rejection_message e))) Finished
                  | Inr s \<Rightarrow> Emit_response s (Emit (Status_refresh target operation_id (error_message s)) Finished))))))"

definition spawn_target_change :: "hub_action \<Rightarrow> plan" where
  "spawn_target_change q =
     (case spawn_target_request_from_action (ha_action q) of
        None \<Rightarrow> refuse q ''Spawn point action is missing a hub daemon request''
      | Some d \<Rightarrow> await d (\<lambda>r.
          Emit_response r (answer q (dr_error r = None) (error_message r)
            [(''request_type'', field ''type'' (Some d)), kind_field r,
             (''target_id'', field ''target_id'' (Some d)),
             (''spawn_targets'', map_option J_array (response_spawn_targets r)),
             (''validation'', dr_spawn_target_validation r), diagnostics_field r])))"

subsection \<open>Dispatch\<close>

definition plugin_surface_of :: "action_binding \<Rightarrow> (string \<times> (string \<times> json) list) option" where
  "plugin_surface_of a =
     (case ab_plugin_surface a of None \<Rightarrow> None | Some (p, d) \<Rightarrow> if p = [] then None else Some (p, d))"

definition dispatch_daemon_action :: "hub_action \<Rightarrow> plan" where
  "dispatch_daemon_action q =
     (let i = ab_id (ha_action q) in
      if i = ''botster.session.attach'' then attach_session q
      else if i = ''botster.session.stop'' then stop_session q
      else if i = ''botster.session.remove'' then remove_session q
      else if i = ''botster.package.configure'' then configure_package q
      else if i = ''botster.package.configuration.save'' then save_package_configuration q
      else if i = ''botster.package.surface.render'' then render_package_surface q
      else if i = ''botster.hub.check_update'' then check_hub_update q
      else if i = ''botster.package.read_plugin_logs'' then read_plugin_logs q
      else if i = ''botster.hub.resolve_quarantine'' then resolve_quarantine q
      else if i = ''botster.spawn_target.daemon_request'' then spawn_target_change q
      else if i = ''botster.spawn_point.spawn_session'' then spawn_session q
      else if i = ''botster.session_type.daemon_request'' then session_type_action q
      else (case plugin_surface_of (ha_action q) of
          Some surface \<Rightarrow> plugin_surface_action surface q
        | None \<Rightarrow>
            if i = ''botster.package.daemon_request'' then package_action q
            else refuse q (''Unsupported hub action: '' @ i)))"

end
