(* ===== verification/Hub_Wire.thy ===== *)
theory Hub_Wire
  imports Hub_Actions
begin

text \<open>
  The types of the Hub protocol (\<open>src/botster/generated/daemon-protocol.ts\<close>) as a checker of
  values, with one entry per alternative of \<open>DaemonRequest\<close>, and the proof that what an action
  makes the transport send conforms to it.

  \<^item> A type of an object lists its properties, whether each may be absent, and its type; no other
    property is allowed.
  \<^item> \<open>UiActionRequest\<close> belongs to the UI contract package and is any value here.
\<close>

subsection \<open>Wire types\<close>

datatype wire_type =
    W_text
  | W_number
  | W_flag
  | W_any
  | W_null
  | W_literal string
  | W_list wire_type
  | W_dict wire_type
  | W_object "(string \<times> bool \<times> wire_type) list"
  | W_union "wire_type list"

fun conforms :: "wire_type \<Rightarrow> json \<Rightarrow> bool" where
  "conforms W_text v = (string_of (Some v) \<noteq> None)"
| "conforms W_number v = (number_of (Some v) \<noteq> None)"
| "conforms W_flag v = (bool_of (Some v) \<noteq> None)"
| "conforms W_any v = True"
| "conforms W_null v = (v = J_null)"
| "conforms (W_literal s) v = (v = J_string s)"
| "conforms (W_list t) v = (case v of J_array xs \<Rightarrow> list_all (conforms t) xs | _ \<Rightarrow> False)"
| "conforms (W_dict t) v = (case v of J_object kvs \<Rightarrow> list_all (\<lambda>(k, x). conforms t x) kvs | _ \<Rightarrow> False)"
| "conforms (W_object fs) v =
     (case v of J_object kvs \<Rightarrow>
        list_all (\<lambda>(k, optional, t). case map_of kvs k of None \<Rightarrow> optional | Some x \<Rightarrow> conforms t x) fs
        \<and> list_all (\<lambda>(k, x). k \<in> fst ` set fs) kvs
      | _ \<Rightarrow> False)"
| "conforms (W_union ts) v = list_ex (\<lambda>t. conforms t v) ts"

abbreviation required :: "string \<Rightarrow> wire_type \<Rightarrow> string \<times> bool \<times> wire_type" where
  "required k t \<equiv> (k, False, t)"

abbreviation optional :: "string \<Rightarrow> wire_type \<Rightarrow> string \<times> bool \<times> wire_type" where
  "optional k t \<equiv> (k, True, t)"

abbreviation or_null :: "wire_type \<Rightarrow> wire_type" where
  "or_null t \<equiv> W_union [t, W_null]"

definition session_type_request_type :: wire_type where
  "session_type_request_type = W_object
     [optional ''target_id'' (or_null W_text), optional ''cwd'' (or_null W_text),
      optional ''environment'' (W_dict W_text),
      required ''context'' (W_object
        [optional ''worktree_path'' (or_null W_text), optional ''repo_path'' (or_null W_text),
         optional ''branch_name'' (or_null W_text), optional ''prompt'' (or_null W_text),
         optional ''ticket_id'' (or_null W_text), optional ''workspace_id'' (or_null W_text),
         optional ''metadata'' (W_dict W_text)])]"

definition session_type_source_type :: wire_type where
  "session_type_source_type = W_union
     [W_object [required ''source'' (W_literal ''device'')],
      W_object [required ''source'' (W_literal ''repo''), required ''target_id'' W_text],
      W_object [required ''source'' (W_literal ''package''), required ''package_name'' W_text]]"

definition session_type_definition_type :: wire_type where
  "session_type_definition_type = W_object
     [required ''id'' W_text, required ''label'' W_text, optional ''description'' (or_null W_text),
      optional ''icon'' (or_null W_text), required ''role'' W_text, required ''interaction'' W_text,
      optional ''traits'' (W_list W_text), required ''lifecycle'' W_text,
      optional ''execution'' (W_union [W_object [required ''mode'' (W_literal ''relative_executable'')],
        W_object [required ''mode'' (W_literal ''shell_command'')]]),
      required ''command'' W_text, optional ''args'' (W_list W_text),
      optional ''working_directory'' (W_union [W_object [required ''policy'' (W_literal ''package_root'')],
        W_object [required ''policy'' (W_literal ''relative''), required ''path'' W_text]]),
      optional ''environment'' (W_dict W_text), optional ''allowed_environment_overrides'' (W_list W_text),
      optional ''context'' (W_list W_text), optional ''target_id'' (or_null W_text)]"

definition package_pin_type :: wire_type where
  "package_pin_type = W_object
     [required ''revision'' W_text, optional ''branch'' (or_null W_text), optional ''tag'' (or_null W_text),
      optional ''rev'' (or_null W_text), optional ''checksum'' (or_null W_text), required ''update_policy'' W_text]"

definition quarantine_target_type :: wire_type where
  "quarantine_target_type = W_union
     [W_object [required ''kind'' (W_literal ''package''), required ''package_name'' W_text],
      W_object [required ''kind'' (W_literal ''repository_session_types''), required ''root'' W_text]]"

definition session_only :: "(string \<times> bool \<times> wire_type) list" where
  "session_only = [required ''session_id'' W_text]"

definition package_only :: "(string \<times> bool \<times> wire_type) list" where
  "package_only = [required ''package_name'' W_text]"

definition entrypoint_only :: "(string \<times> bool \<times> wire_type) list" where
  "entrypoint_only = [required ''package_name'' W_text, required ''entrypoint_id'' W_text]"

text \<open>The alternatives of \<open>DaemonRequest\<close> by their \<open>type\<close>, without that property.\<close>

definition daemon_request_types :: "(string \<times> (string \<times> bool \<times> wire_type) list) list" where
  "daemon_request_types =
    [(''status'', []), (''check_hub_update'', []),
     (''start_hub_update'', [required ''scope'' (W_union [W_literal ''core'', W_literal ''all''])]),
     (''get_hub_update_execution'', []), (''list_sessions'', []),
     (''subscribe_entities'', [required ''entity_type'' W_text, required ''subscription_id'' W_text]),
     (''unsubscribe_entities'', [required ''subscription_id'' W_text]),
     (''subscribe_events'', [required ''subscription_id'' W_text, required ''owner'' W_text, required ''name'' W_text,
        optional ''subjects'' (W_list W_text)]),
     (''unsubscribe_events'', [required ''subscription_id'' W_text]),
     (''remove_session'', session_only), (''whoami'', []),
     (''post_message'', [required ''target_session_id'' W_text, required ''envelope_id'' (or_null W_text), required ''body'' W_text]),
     (''receive_messages'', [required ''after'' (or_null W_number), required ''limit'' W_number]),
     (''ack_message'', [required ''envelope_id'' W_text]),
     (''notify_session'', [required ''session_id'' W_text, required ''data'' W_text]),
     (''spawn'', [required ''session_id'' W_text, required ''command'' W_text]),
     (''attach'', [required ''session_id'' W_text, required ''subscription_id'' W_text]),
     (''detach'', [required ''session_id'' W_text, required ''subscription_id'' W_text]),
     (''shutdown_session'', session_only), (''read_screen'', session_only), (''read_mode_flags'', session_only),
     (''capture_snapshot'', session_only),
     (''read_snapshot_page'', [required ''session_id'' W_text, required ''capture_id'' W_text, required ''page'' W_number]),
     (''list_session_types'', []), (''list_session_types_for_target'', [required ''target_id'' W_text]),
     (''show_session_type'', [required ''session_type_id'' W_text]),
     (''show_session_type_definition'', [required ''session_type_id'' W_text]),
     (''create_session_type'', [required ''source'' session_type_source_type, required ''definition'' session_type_definition_type]),
     (''update_session_type'', [required ''source'' session_type_source_type, required ''definition'' session_type_definition_type]),
     (''delete_session_type'', [required ''source'' session_type_source_type, required ''session_type_id'' W_text]),
     (''resolve_session_type'', [required ''session_type_id'' W_text, required ''request'' session_type_request_type]),
     (''spawn_session_type'', [required ''session_type_id'' W_text, required ''session_id'' W_text,
        required ''request'' session_type_request_type]),
     (''read_session_context'', [required ''session_id'' W_text, optional ''context_id'' (or_null W_text), optional ''key'' (or_null W_text)]),
     (''list_spawn_targets'', []), (''show_spawn_target'', [required ''target_id'' W_text]),
     (''create_spawn_target'', [optional ''target_id'' (or_null W_text), optional ''label'' (or_null W_text), required ''root'' W_text,
        optional ''enabled'' W_flag, optional ''kind'' (or_null W_text), optional ''base_ref'' (or_null W_text),
        optional ''metadata'' (W_dict W_text)]),
     (''update_spawn_target'', [required ''target_id'' W_text, optional ''label'' (or_null W_text), optional ''root'' (or_null W_text),
        optional ''enabled'' (or_null W_flag), optional ''kind'' (or_null W_text), optional ''base_ref'' (or_null W_text),
        optional ''metadata'' (or_null (W_dict W_text))]),
     (''delete_spawn_target'', [required ''target_id'' W_text]), (''validate_spawn_target'', [required ''target_id'' W_text]),
     (''list_worktrees'', []), (''show_worktree'', [required ''worktree_id'' W_text]),
     (''create_worktree'', [optional ''worktree_id'' (or_null W_text), required ''target_id'' W_text, optional ''label'' (or_null W_text),
        required ''path'' W_text, optional ''metadata'' (W_dict W_text)]),
     (''delete_worktree'', [required ''worktree_id'' W_text]), (''list_apps'', []),
     (''resolve_app_launch'', entrypoint_only),
     (''resolve_package_route'', [required ''package_name'' W_text, required ''route_id'' W_text]),
     (''list_package_navigation'', []), (''list_packages'', []),
     (''list_available_packages'', [required ''registry_path'' W_text]),
     (''inspect_available_package'', [required ''registry_path'' W_text, required ''entry_id'' W_text]),
     (''preview_package_install'', [required ''registry_path'' W_text, required ''entry_id'' W_text]),
     (''install_package_registry_entry'', [required ''registry_path'' W_text, required ''entry_id'' W_text]),
     (''install_package_local_path'', [required ''path'' W_text]), (''check_package_update'', package_only),
     (''preview_package_update'', [required ''package_name'' W_text, required ''pin'' package_pin_type]),
     (''apply_package_update'', [required ''package_name'' W_text, required ''pin'' package_pin_type]),
     (''show_package'', package_only),
     (''set_package_configuration'', [required ''package_name'' W_text, required ''values'' (W_dict W_any)]),
     (''reload_package'', package_only), (''refresh_local_packages'', []),
     (''enable_package_local_path'', [required ''path'' W_text]), (''enable_package'', package_only),
     (''disable_package'', package_only), (''remove_package'', package_only),
     (''resolve_quarantine'', [required ''target'' quarantine_target_type]),
     (''start_package_entrypoint'', entrypoint_only @ [optional ''environment_overrides'' (W_dict W_text)]),
     (''issue_local_webrtc_bootstrap'', entrypoint_only @ [required ''origin'' W_text]),
     (''stop_package_entrypoint'', entrypoint_only), (''restart_package_entrypoint'', entrypoint_only),
     (''package_entrypoint_status'', entrypoint_only), (''plugin_lifecycle_status'', []), (''plugin_mcp_list_tools'', []),
     (''read_plugin_logs'', [required ''package_name'' W_text, optional ''after_seq'' W_number]),
     (''plugin_mcp_call_tool'', [required ''name'' W_text, required ''arguments'' W_any]),
     (''plugin_surface_render'', [required ''package_name'' W_text, required ''surface_id'' W_text, required ''payload'' W_any]),
     (''plugin_surface_action'', [required ''package_name'' W_text, required ''request'' W_any]),
     (''local_webrtc_signal'', [required ''grant_id'' W_text, required ''grant_secret'' W_text, required ''origin'' W_text,
        required ''offer'' W_any]),
     (''daemon_shutdown'', [])]"

definition is_daemon_request :: "json \<Rightarrow> bool" where
  "is_daemon_request q =
     (case string_of (field ''type'' (Some q)) of None \<Rightarrow> False
      | Some t \<Rightarrow> (case map_of daemon_request_types t of None \<Rightarrow> False
          | Some fs \<Rightarrow> conforms (W_object (required ''type'' (W_literal t) # fs)) q))"

text \<open>\<open>DaemonPackageActionRequest\<close>, which the package actions cast their descriptor to, and \<open>path\<close>.\<close>

definition package_descriptor_fields :: "(string \<times> bool \<times> wire_type) list" where
  "package_descriptor_fields =
     [required ''request_type'' W_text, optional ''pin'' (or_null package_pin_type),
      optional ''package_name'' (or_null W_text), optional ''entry_id'' (or_null W_text),
      optional ''entrypoint_id'' (or_null W_text), optional ''registry_path'' (or_null W_text),
      optional ''path'' W_any]"

definition is_package_descriptor :: "json \<Rightarrow> bool" where
  "is_package_descriptor q \<longleftrightarrow> conforms (W_object package_descriptor_fields) q"

subsection \<open>Objects against their type\<close>

lemma read_obj: "read_config_object (Some (obj kvs)) = List.map_filter (\<lambda>(k, v). map_option (Pair k) v) kvs"
  by (simp add: obj_def)

lemma keys_obj: "(k, y) \<in> set (read_config_object (Some (obj kvs))) \<Longrightarrow> k \<in> set (map fst kvs)"
  by (force simp: read_obj List.map_filter_def)

lemma conforms_obj:
  assumes "list_all (\<lambda>(k, optional, t). case field k (Some (obj kvs)) of
      None \<Rightarrow> optional | Some y \<Rightarrow> conforms t y) fs"
    "list_all (\<lambda>k. k \<in> set (map fst fs)) (map fst kvs)"
  shows "conforms (W_object fs) (obj kvs)"
proof -
  have o: "obj kvs = J_object (read_config_object (Some (obj kvs)))" by (simp add: obj_def)
  have "list_all (\<lambda>(k, y). k \<in> fst ` set fs) (read_config_object (Some (obj kvs)))"
    using assms(2) keys_obj [of _ _ kvs] by (fastforce simp: list_all_iff)
  then show ?thesis using assms(1) by (subst o) (simp add: field_def)
qed

end
