(* ===== verification/Hub_Request_Laws.thy ===== *)
theory Hub_Request_Laws
  imports Hub_Wire
begin

text \<open>
  Laws of the requests an action asks for: each conforms to the protocol's type, reading back what
  a projection wrote gives the request it was written for, and the authored definition of a session
  type is a normal form.
\<close>

subsection \<open>Conformance\<close>

lemma field_obj: "field k (Some (obj kvs)) = map_of (read_config_object (Some (obj kvs))) k"
  by (simp add: field_def)

lemma is_request:
  assumes "map_of daemon_request_types t = Some fs"
    and "list_all (\<lambda>(k, optional, ty). k \<noteq> ''type'' \<and>
      (case field k (Some (obj kvs)) of None \<Rightarrow> optional | Some y \<Rightarrow> conforms ty y)) fs"
    and "list_all (\<lambda>k. k \<in> set (map fst fs)) (map fst kvs)"
  shows "is_daemon_request (request_of t kvs)"
proof -
  have "conforms (W_object (required ''type'' (W_literal t) # fs)) (request_of t kvs)"
    unfolding request_of_def
    by (rule conforms_obj) (use assms(2,3) in \<open>auto simp: list_all_iff split: prod.splits\<close>)
  then show ?thesis using assms(1) by (simp add: is_daemon_request_def request_of_def)
qed

lemma string_record_conforms [simp]: "conforms (W_dict W_text) (J_object (string_record v))"
  using string_record_entries [of v] by (simp add: case_prod_unfold)

lemma string_list_conforms: "string_list v = Some x \<Longrightarrow> conforms (W_list W_text) x"
  by (auto simp: string_list_def list_all_iff Let_def split: option.splits if_splits)

lemma conforms_texts:
  "conforms W_text (J_string s)" "conforms W_flag (J_bool b)" "conforms W_number (J_number n)"
  "conforms (W_literal s) (J_string s)" "conforms (or_null t) v = (conforms t v \<or> v = J_null)"
  by auto

lemma present_case [simp]: "(case present s of None \<Rightarrow> True | Some y \<Rightarrow> P y) = (s = [] \<or> P (J_string s))"
  by (simp add: present_def)

lemma flag_case [simp]:
  "(case map_option J_bool b of None \<Rightarrow> True | Some y \<Rightarrow> P y) = (case b of None \<Rightarrow> True | Some y \<Rightarrow> P (J_bool y))"
  by (cases b) simp_all

lemmas request_table = daemon_request_types_def session_only_def package_only_def entrypoint_only_def

lemma spawn_target_request_conforms:
  "spawn_target_request_from_action a = Some q \<Longrightarrow> is_daemon_request q"
  by (auto simp: spawn_target_request_from_action_def Let_def request_table conforms_texts
      simp del: conforms.simps split: if_splits option.splits intro!: is_request)

lemma source_conforms: "session_type_mutation_source v = Some s \<Longrightarrow> conforms session_type_source_type s"
  by (auto simp: session_type_mutation_source_def session_type_source_type_def Let_def obj_def List.map_filter_def
      split: if_splits)

lemma string_list_case [simp]:
  "(case string_list v of None \<Rightarrow> True | Some y \<Rightarrow> conforms (W_list W_text) y)"
  using string_list_conforms [of v] by (simp split: option.split)

lemma execution_mode_conforms:
  "execution_mode v = Some m \<Longrightarrow> conforms (W_union [W_object [required ''mode'' (W_literal ''relative_executable'')],
     W_object [required ''mode'' (W_literal ''shell_command'')]]) (obj [(''mode'', Some (J_string m))])"
  by (auto simp: execution_mode_def obj_def List.map_filter_def Let_def split: if_splits)

lemma authored_directory_conforms [simp]:
  "case authored_directory v of None \<Rightarrow> True
   | Some y \<Rightarrow> conforms (W_union [W_object [required ''policy'' (W_literal ''package_root'')],
        W_object [required ''policy'' (W_literal ''relative''), required ''path'' W_text]]) y"
  by (simp add: authored_directory_def obj_def List.map_filter_def Let_def)

lemma authored_environment_conforms [simp]:
  "case authored_environment v of None \<Rightarrow> True | Some y \<Rightarrow> conforms (W_dict W_text) y"
  using string_record_conforms [of "field ''environment'' v"]
  by (simp add: authored_environment_def Let_def del: conforms.simps)

lemma definition_conforms:
  assumes "session_type_definition v = Some d"
  shows "conforms session_type_definition_type d"
proof -
  obtain m where m: "execution_mode v = Some m" "d = authored_definition v m"
    using assms by (auto simp: session_type_definition_def split: if_splits)
  show ?thesis unfolding m(2) session_type_definition_type_def authored_definition_def Let_def
    by (rule conforms_obj) (simp_all add: conforms_texts execution_mode_conforms [OF m(1)] del: conforms.simps)
qed

lemma session_type_request_conforms:
  assumes "session_type_request_from_action a = Some q"
  shows "is_daemon_request q"
  using assms source_conforms definition_conforms
  by (auto simp: session_type_request_from_action_def Let_def request_table conforms_texts
      simp del: conforms.simps split: if_splits option.splits intro!: is_request)

lemma plugin_logs_request_conforms:
  "read_plugin_logs_request_from_action a = Some q \<Longrightarrow> is_daemon_request q"
  by (auto simp: read_plugin_logs_request_from_action_def request_table conforms_texts
      simp del: conforms.simps split: if_splits option.splits json.splits intro!: is_request)

lemma quarantine_target_conforms: "conforms quarantine_target_type (target_json t)"
  by (cases t) (auto simp: quarantine_target_type_def target_json_def obj_def List.map_filter_def)

text \<open>A descriptor of its declared type reads as texts, and its pin as a pin.\<close>

lemma conforms_field:
  assumes "conforms (W_object fs) (J_object kvs)" "(k, opt, t) \<in> set fs" "map_of kvs k = Some x"
  shows "conforms t x"
  using assms by (auto simp: list_all_iff dest!: bspec)

lemma descriptor_text:
  assumes "is_package_descriptor (J_object q)" "(k, True, or_null W_text) \<in> set package_descriptor_fields"
  shows "\<exists>s. nullish (map_of q k) (J_string []) = J_string s"
proof (cases "map_of q k")
  case (Some x)
  then have "conforms (or_null W_text) x"
    using assms unfolding is_package_descriptor_def by (elim conforms_field)
  then show ?thesis by (auto simp: Some string_of_Some)
qed simp

lemma descriptor_pin:
  assumes "is_package_descriptor (J_object q)" "truthy (nullish (map_of q ''pin'') J_null)"
  shows "conforms package_pin_type (nullish (map_of q ''pin'') J_null)"
proof (cases "map_of q ''pin''")
  case (Some x)
  have "(''pin'', True, or_null package_pin_type) \<in> set package_descriptor_fields"
    by (simp add: package_descriptor_fields_def)
  then have "conforms (or_null package_pin_type) x"
    using assms(1) Some unfolding is_package_descriptor_def by (elim conforms_field)
  then show ?thesis using assms(2) by (cases x) (simp_all add: Some conforms_texts(5) del: conforms.simps)
qed (use assms(2) in simp)

lemma package_lookups:
  "map_of daemon_request_types ''enable_package'' = Some package_only"
  "map_of daemon_request_types ''disable_package'' = Some package_only"
  "map_of daemon_request_types ''remove_package'' = Some package_only"
  "map_of daemon_request_types ''reload_package'' = Some package_only"
  "map_of daemon_request_types ''check_package_update'' = Some package_only"
  "map_of daemon_request_types ''start_package_entrypoint'' = Some (entrypoint_only @ [optional ''environment_overrides'' (W_dict W_text)])"
  "map_of daemon_request_types ''stop_package_entrypoint'' = Some entrypoint_only"
  "map_of daemon_request_types ''restart_package_entrypoint'' = Some entrypoint_only"
  "map_of daemon_request_types ''package_entrypoint_status'' = Some entrypoint_only"
  "map_of daemon_request_types ''install_package_local_path'' = Some [required ''path'' W_text]"
  "map_of daemon_request_types ''enable_package_local_path'' = Some [required ''path'' W_text]"
  "map_of daemon_request_types ''preview_package_update'' =
     Some [required ''package_name'' W_text, required ''pin'' package_pin_type]"
  "map_of daemon_request_types ''apply_package_update'' =
     Some [required ''package_name'' W_text, required ''pin'' package_pin_type]"
  "map_of daemon_request_types ''set_package_configuration'' =
     Some [required ''package_name'' W_text, required ''values'' (W_dict W_any)]"
  "map_of daemon_request_types ''install_package_registry_entry'' =
     Some [required ''registry_path'' W_text, required ''entry_id'' W_text]"
  by (simp_all only: daemon_request_types_def map_of_Cons_code list.inject char.inject list.distinct
    simp_thms if_True if_False split_conv fst_conv snd_conv)

lemma package_requests:
  "t \<in> set package_commands \<Longrightarrow> is_daemon_request (request_of t [(''package_name'', Some (J_string p))])"
  "t \<in> set entrypoint_commands \<Longrightarrow>
     is_daemon_request (request_of t [(''package_name'', Some (J_string p)), (''entrypoint_id'', Some (J_string e))])"
  "t \<in> {''install_package_local_path'', ''enable_package_local_path''} \<Longrightarrow>
     is_daemon_request (request_of t [(''path'', Some (J_string p))])"
  "t \<in> {''preview_package_update'', ''apply_package_update''} \<Longrightarrow> conforms package_pin_type pin \<Longrightarrow>
     is_daemon_request (request_of t [(''package_name'', Some (J_string p)), (''pin'', Some pin)])"
  "is_daemon_request (request_of ''set_package_configuration''
     [(''package_name'', Some (J_string p)), (''values'', Some (J_object kvs))])"
  "is_daemon_request (request_of ''install_package_registry_entry''
     [(''registry_path'', Some (J_string p)), (''entry_id'', Some (J_string e))])"
  by (auto simp: package_commands_def entrypoint_commands_def package_only_def entrypoint_only_def
        list_all_iff case_prod_unfold intro!: is_request [OF package_lookups(1)] is_request [OF package_lookups(2)] is_request [OF package_lookups(3)]
        is_request [OF package_lookups(4)] is_request [OF package_lookups(5)] is_request [OF package_lookups(6)]
        is_request [OF package_lookups(7)] is_request [OF package_lookups(8)] is_request [OF package_lookups(9)]
        is_request [OF package_lookups(10)] is_request [OF package_lookups(11)] is_request [OF package_lookups(12)]
        is_request [OF package_lookups(13)] is_request [OF package_lookups(14)] is_request [OF package_lookups(15)])

lemma descriptor_request_conforms:
  assumes "is_package_descriptor (J_object q)" "daemon_request_from_descriptor q = Some r"
  shows "is_daemon_request r"
proof -
  have "\<exists>s. nullish (map_of q k) (J_string []) = J_string s"
    if "k \<in> set [''package_name'', ''entrypoint_id'', ''entry_id'', ''registry_path'']" for k
    by (rule descriptor_text [OF assms(1)]) (use that in \<open>auto simp: package_descriptor_fields_def\<close>)
  then obtain p e i g where t: "nullish (map_of q ''package_name'') (J_string []) = J_string p"
    "nullish (map_of q ''entrypoint_id'') (J_string []) = J_string e"
    "nullish (map_of q ''entry_id'') (J_string []) = J_string i"
    "nullish (map_of q ''registry_path'') (J_string []) = J_string g"
    by (meson list.set_intros)
  define k where "k = (case string_of (map_of q ''request_type'') of None \<Rightarrow> [] | Some t \<Rightarrow> t)"
  have n: "obj [] = J_object []" by (simp add: obj_def List.map_filter_def)
  show ?thesis
    using assms(2) descriptor_pin [OF assms(1)]
    unfolding daemon_request_from_descriptor_def Let_def t k_def [symmetric] n
    by (simp only: option.inject option.distinct split: if_split_asm) 
      (hypsubst_thin, rule package_requests; (assumption | iprover))+
qed

subsection \<open>Normal forms and round trips\<close>

lemma read_present [simp]: "read_config_string (present s) [] = s"
  by (simp add: present_def)

lemma string_list_again [simp]: "string_list (string_list v) = string_list v"
  by (auto simp: string_list_def Let_def filter_empty_conv split: option.splits)

lemma authored_directory_again:
  "field ''working_directory'' w = authored_directory v \<Longrightarrow> authored_directory w = authored_directory v"
  by (auto simp: authored_directory_def Let_def split: if_splits)

lemma authored_environment_again:
  "field ''environment'' w = authored_environment v \<Longrightarrow> authored_environment w = authored_environment v"
  using string_record_entries [of "field ''environment'' v"]
  by (auto simp: authored_environment_def Let_def string_record_fixed string_record_def split: if_splits)

lemma execution_mode_again:
  "execution_mode v = Some m \<Longrightarrow> field ''execution'' w = Some (obj [(''mode'', text_json m)]) \<Longrightarrow> execution_mode w = Some m"
  by (auto simp: execution_mode_def Let_def split: if_splits)

lemma authored_texts:
  "read_config_string (field ''id'' (Some (authored_definition v m))) [] = read_config_string (field ''id'' v) []"
  "read_config_string (field ''label'' (Some (authored_definition v m))) [] = read_config_string (field ''label'' v) []"
  "read_config_string (field ''role'' (Some (authored_definition v m))) [] = read_config_string (field ''role'' v) []"
  "read_config_string (field ''interaction'' (Some (authored_definition v m))) [] = read_config_string (field ''interaction'' v) []"
  "read_config_string (field ''lifecycle'' (Some (authored_definition v m))) [] = read_config_string (field ''lifecycle'' v) []"
  "read_config_string (field ''command'' (Some (authored_definition v m))) [] = read_config_string (field ''command'' v) []"
  "read_config_string (field ''description'' (Some (authored_definition v m))) [] = read_config_string (field ''description'' v) []"
  "read_config_string (field ''icon'' (Some (authored_definition v m))) [] = read_config_string (field ''icon'' v) []"
  "read_config_string (field ''target_id'' (Some (authored_definition v m))) [] = read_config_string (field ''target_id'' v) []"
  by (simp_all add: authored_definition_def Let_def)

lemma authored_lists:
  "string_list (field ''traits'' (Some (authored_definition v m))) = string_list (field ''traits'' v)"
  "string_list (field ''args'' (Some (authored_definition v m))) = string_list (field ''args'' v)"
  "string_list (field ''allowed_environment_overrides'' (Some (authored_definition v m)))
     = string_list (field ''allowed_environment_overrides'' v)"
  "string_list (field ''context'' (Some (authored_definition v m))) = string_list (field ''context'' v)"
  by (simp_all add: authored_definition_def Let_def)

lemma authored_parts:
  "authored_directory (Some (authored_definition v m)) = authored_directory v"
  "authored_environment (Some (authored_definition v m)) = authored_environment v"
  "execution_mode v = Some m \<Longrightarrow> execution_mode (Some (authored_definition v m)) = Some m"
  by (rule authored_directory_again authored_environment_again execution_mode_again;
      simp add: authored_definition_def Let_def)+

lemma authored_again: "authored_definition (Some (authored_definition v m)) m = authored_definition v m"
  by (simp only: authored_definition_def [of "Some (authored_definition v m)" m] Let_def authored_texts
      authored_lists authored_parts)
    (simp only: authored_definition_def [of v m] Let_def)

text \<open>
  The definition a form sends is a normal form: projecting a projected definition again changes
  nothing, so a session type that is authored, read back from the Hub and saved unchanged is sent
  as it was, whatever the form held besides.
\<close>

theorem session_type_definition_normal:
  "Option.bind (session_type_definition v) (session_type_definition \<circ> Some) = session_type_definition v"
proof (cases "session_type_definition v")
  case (Some d)
  then obtain m where m: "execution_mode v = Some m" "d = authored_definition v m" "is_record v"
    "\<not> list_ex (\<lambda>k. read_config_string (field k v) [] = [])
      [''id'', ''label'', ''role'', ''interaction'', ''lifecycle'', ''command'']"
    by (auto simp: session_type_definition_def split: if_splits)
  have "is_record (Some d)" by (simp add: m(2) authored_definition_def Let_def)
  then have "session_type_definition (Some d) = Some d"
    using m(4) authored_parts(3) [OF m(1)]
    by (simp add: session_type_definition_def m(2) authored_texts authored_again)
  then show ?thesis by (simp add: Some)
qed simp

lemma string_record_metadata [simp]: "string_record (Some (metadata_json m)) = map (\<lambda>(k, v). (k, J_string v)) (or_else m [])"
  by (simp add: metadata_json_def string_record_fixed list_all_iff case_prod_unfold)

text \<open>
  Saving a spawn point from its record is lossless: the edit action of the record projected from
  a Hub spawn point with an id is read back as an update of that spawn point with its label, root,
  enablement, kind and metadata, and its delete action as the deletion of that spawn point. (An
  empty root is left out of the update.)
\<close>

theorem spawn_target_actions_roundtrip:
  assumes "st_target_id t \<noteq> []"
  shows "spawn_target_request_from_action (spawn_target_edit_action t) = Some (request_of ''update_spawn_target''
      [(''target_id'', text_json (st_target_id t)), (''label'', text_json (st_label t)),
       (''root'', present (st_root t)), (''enabled'', flag_json (st_enabled t)),
       (''kind'', text_json (st_kind t)), (''metadata'', Some (metadata_json (st_metadata t)))])
    \<and> spawn_target_request_from_action (spawn_target_delete_action t) =
        Some (request_of ''delete_spawn_target'' [(''target_id'', text_json (st_target_id t))])"
  using assms
  by (simp add: spawn_target_request_from_action_def spawn_target_edit_action_def spawn_target_delete_action_def
      spawn_target_action_def param_def Let_def) (simp add: metadata_json_def)

lemma spawn_target_actions_roundtrip_witness:
  "let t = \<lparr>st_target_id = ''t'', st_label = ''L'', st_root = ''/r'', st_enabled = True, st_kind = ''directory'',
        st_metadata = Some [(''team'', ''a'')]\<rparr>
   in field ''label'' (spawn_target_request_from_action (spawn_target_edit_action t)) = text_json ''L''"
  using spawn_target_actions_roundtrip [of "\<lparr>st_target_id = ''t'', st_label = ''L'', st_root = ''/r'', st_enabled = True,
      st_kind = ''directory'', st_metadata = Some [(''team'', ''a'')]\<rparr>"]
  by (simp add: request_of_def)

text \<open>
  C35. An update that names neither label nor kind does not leave them as they are: the request
  carries an empty label and an empty kind (and empty metadata), because a reader's default
  replaces the \<open>undefined\<close> it is given as a fallback.
\<close>

theorem spawn_target_update_clears_label:
  "spawn_target_request_from_action (spawn_target_action ''update_spawn_target'' (Some (c # cs)) l
      [(''enabled'', flag_json b)]) =
     Some (request_of ''update_spawn_target''
       [(''target_id'', text_json (c # cs)), (''label'', text_json []), (''root'', None), (''enabled'', flag_json b),
        (''kind'', text_json []), (''metadata'', Some (J_object []))])"
  by (simp add: spawn_target_request_from_action_def spawn_target_action_def param_def Let_def present_def
      string_record_def)

end
