(* ===== verification/Hub_Action_Laws.thy ===== *)
theory Hub_Action_Laws
  imports Hub_Request_Laws
begin

text \<open>
  Laws of \<open>dispatchDaemonAction\<close>: a plan is run against the bridge's answers, in the order they
  come; every action ends after at most two requests, answers its caller exactly once, is accepted
  only on a Hub response that confirms it, and sends only requests of the protocol.
\<close>

subsection \<open>Running a plan\<close>

datatype activity =
    Emitted hub_frame
  | Responded daemon_response
  | Requested json
  | Answered_with bridge_answer

primrec run_plan :: "plan \<Rightarrow> bridge_answer list \<Rightarrow> activity list \<times> plan" where
  "run_plan Finished as = ([], Finished)"
| "run_plan (Failed e) as = ([], Failed e)"
| "run_plan (Emit f p) as = apfst ((#) (Emitted f)) (run_plan p as)"
| "run_plan (Emit_response r p) as = apfst ((#) (Responded r)) (run_plan p as)"
| "run_plan (Ask q k) as = apfst ((#) (Requested q))
     (case as of [] \<Rightarrow> ([], Ask q k) | a # as \<Rightarrow> apfst ((#) (Answered_with a)) (run_plan (k a) as))"

definition plan_results :: "activity list \<Rightarrow> (request_id \<times> bool) list" where
  "plan_results xs = List.map_filter
     (\<lambda>x. case x of Emitted (Action_result i ok _ _) \<Rightarrow> Some (i, ok) | _ \<Rightarrow> None) xs"

definition plan_requests :: "activity list \<Rightarrow> json list" where
  "plan_requests xs = List.map_filter (\<lambda>x. case x of Requested q \<Rightarrow> Some q | _ \<Rightarrow> None) xs"

lemma plan_results_simps [simp]:
  "plan_results [] = []"
  "plan_results (Emitted f # xs) = (case f of Action_result i ok _ _ \<Rightarrow> [(i, ok)] | _ \<Rightarrow> []) @ plan_results xs"
  "plan_results (Responded r # xs) = plan_results xs" "plan_results (Requested q # xs) = plan_results xs"
  "plan_results (Answered_with a # xs) = plan_results xs"
  by (simp_all add: plan_results_def List.map_filter_def split: hub_frame.split)

lemma plan_requests_simps [simp]:
  "plan_requests [] = []" "plan_requests (Emitted f # xs) = plan_requests xs"
  "plan_requests (Responded r # xs) = plan_requests xs" "plan_requests (Requested q # xs) = q # plan_requests xs"
  "plan_requests (Answered_with a # xs) = plan_requests xs"
  by (simp_all add: plan_requests_def List.map_filter_def)

subsection \<open>What holds along every path of a plan\<close>

text \<open>
  \<open>answers_once i w p\<close>: when the caller of \<open>i\<close> still waits (\<open>w\<close>), every path of \<open>p\<close> that
  finishes emits exactly one result, for \<open>i\<close>; a path fails only while the caller waits.
\<close>

primrec answers_once :: "request_id \<Rightarrow> plan \<Rightarrow> bool \<Rightarrow> bool" where
  "answers_once i Finished w = (\<not> w)"
| "answers_once i (Failed e) w = w"
| "answers_once i (Emit f p) w =
     (case f of Action_result j _ _ _ \<Rightarrow> w \<and> j = i \<and> answers_once i p False | _ \<Rightarrow> answers_once i p w)"
| "answers_once i (Emit_response r p) w = answers_once i p w"
| "answers_once i (Ask q k) w = (\<forall>a. answers_once i (k a) w)"

primrec plan_depth_within :: "plan \<Rightarrow> nat \<Rightarrow> bool" where
  "plan_depth_within Finished n = True"
| "plan_depth_within (Failed e) n = True"
| "plan_depth_within (Emit f p) n = plan_depth_within p n"
| "plan_depth_within (Emit_response r p) n = plan_depth_within p n"
| "plan_depth_within (Ask q k) n = (case n of 0 \<Rightarrow> False | Suc m \<Rightarrow> \<forall>a. plan_depth_within (k a) m)"

primrec sends_only :: "(json \<Rightarrow> bool) \<Rightarrow> plan \<Rightarrow> bool" where
  "sends_only P Finished = True"
| "sends_only P (Failed e) = True"
| "sends_only P (Emit f p) = sends_only P p"
| "sends_only P (Emit_response r p) = sends_only P p"
| "sends_only P (Ask q k) = (P q \<and> (\<forall>a. sends_only P (k a)))"

fun finished :: "plan \<Rightarrow> bool" where
  "finished Finished = True"
| "finished (Failed e) = True"
| "finished _ = False"

lemma run_depth: "plan_depth_within p n \<Longrightarrow> n \<le> length as \<Longrightarrow> finished (snd (run_plan p as))"
proof (induction p arbitrary: n as)
  case (Ask q k)
  then obtain m a as' where n: "n = Suc m" "as = a # as'" by (cases n; cases as) auto
  have "finished (snd (run_plan (k a) as'))" using Ask.prems n by (intro Ask.IH [of _ m]) auto
  then show ?case by (simp add: n)
qed simp_all

lemma run_depth_requests: "plan_depth_within p n \<Longrightarrow> length (plan_requests (fst (run_plan p as))) \<le> n"
proof (induction p arbitrary: n as)
  case (Ask q k)
  then obtain m where n: "n = Suc m" by (cases n) auto
  show ?case
  proof (cases as)
    case (Cons a as')
    have "length (plan_requests (fst (run_plan (k a) as'))) \<le> m" using Ask.prems n by (intro Ask.IH) auto
    then show ?thesis by (simp add: n Cons)
  qed (simp add: n)
qed simp_all

lemma run_sends: "sends_only P p \<Longrightarrow> list_all P (plan_requests (fst (run_plan p as)))"
proof (induction p arbitrary: as)
  case (Ask q k)
  then show ?case by (cases as) auto
qed simp_all

definition answered_by :: "request_id \<Rightarrow> bool \<Rightarrow> request_id list \<Rightarrow> plan \<Rightarrow> bool" where
  "answered_by i w rs t =
     (case t of Failed e \<Rightarrow> w \<and> rs = []
      | Finished \<Rightarrow> rs = (if w then [i] else [])
      | _ \<Rightarrow> rs = [] \<or> w \<and> rs = [i])"

lemma answered_by_result: "answered_by i False rs t \<Longrightarrow> answered_by i True (i # rs) t"
  by (cases t) (simp_all add: answered_by_def)

lemma run_answers:
  "answers_once i p w \<Longrightarrow>
     answered_by i w (map fst (plan_results (fst (run_plan p as)))) (snd (run_plan p as))"
proof (induction p arbitrary: w as)
  case (Emit f p)
  then show ?case by (cases f) (simp_all add: answered_by_result)
next
  case (Ask q k)
  then show ?case by (cases as) (simp_all add: answered_by_def [of i w "[]" "Ask q k"])
qed (simp_all add: answered_by_def)

subsection \<open>Every action\<close>

lemmas action_plans = attach_session_def stop_session_def remove_session_def spawn_session_def
  session_type_action_def configure_package_def save_package_configuration_def render_package_surface_def
  read_plugin_logs_def package_action_def check_hub_update_def
  resolve_quarantine_def spawn_target_change_def

lemmas plan_steps = refuse_def answer_def await_def action_result_frame_def Let_def

lemma dispatch_cases:
  assumes "\<And>d. P (attach_session q)" "P (stop_session q)" "P (remove_session q)" "P (configure_package q)"
    "P (save_package_configuration q)" "P (render_package_surface q)" "P (check_hub_update q)"
    "P (read_plugin_logs q)" "P (resolve_quarantine q)" "P (spawn_target_change q)" "P (spawn_session q)"
    "P (session_type_action q)" "\<And>s. P (plugin_surface_action s q)" "P (package_action q)"
    "\<And>reason. P (refuse q reason)"
  shows "P (dispatch_daemon_action q)"
  unfolding dispatch_daemon_action_def Let_def using assms by (simp split: option.split)

lemma dispatch_answers_once: "answers_once (ha_request_id q) (dispatch_daemon_action q) True"
  by (rule dispatch_cases)
    (simp_all add: action_plans plugin_surface_action_def plan_steps case_prod_unfold
      split: option.split sum.split rejection.split)

lemma dispatch_depth: "plan_depth_within (dispatch_daemon_action q) 2"
  by (rule dispatch_cases)
    (simp_all add: action_plans plugin_surface_action_def plan_steps case_prod_unfold numeral_2_eq_2
      split: option.split sum.split rejection.split)

subsection \<open>The verdict\<close>

text \<open>
  Which answers accept an action: the reference that the plans are compared with. An action of the
  client's own list is known by its id; any other may be one of a plugin's surface.
\<close>

definition client_actions :: "string list" where
  "client_actions = [''botster.session.attach'', ''botster.session.stop'', ''botster.session.remove'',
     ''botster.package.configure'', ''botster.package.configuration.save'', ''botster.package.surface.render'',
     ''botster.hub.check_update'', ''botster.package.read_plugin_logs'', ''botster.hub.resolve_quarantine'',
     ''botster.spawn_target.daemon_request'', ''botster.spawn_point.spawn_session'',
     ''botster.session_type.daemon_request'']"

definition plugin_action :: "hub_action \<Rightarrow> (string \<times> json) list option" where
  "plugin_action q =
     (if ab_id (ha_action q) \<in> set client_actions then None
      else map_option snd (plugin_surface_of (ha_action q)))"

definition confirming_kinds :: "(string \<times> string) list" where
  "confirming_kinds = [(''botster.session.remove'', ''session_removed''),
     (''botster.package.surface.render'', ''plugin_surface''),
     (''botster.package.read_plugin_logs'', ''plugin_logs''),
     (''botster.hub.resolve_quarantine'', ''quarantine_resolved'')]"

definition hub_confirms :: "hub_action \<Rightarrow> daemon_response \<Rightarrow> bool" where
  "hub_confirms q r \<longleftrightarrow>
     dr_error r = None
     \<and> (case map_of confirming_kinds (ab_id (ha_action q)) of None \<Rightarrow> True | Some k \<Rightarrow> dr_kind r = k)
     \<and> (ab_id (ha_action q) = ''botster.package.read_plugin_logs'' \<longrightarrow>
          (case dr_plugin_logs r of None \<Rightarrow> False | Some v \<Rightarrow> truthy v))
     \<and> (case plugin_action q of None \<Rightarrow> True
        | Some given \<Rightarrow>
            (let res = dr_plugin_action_result r in
             is_record res \<and> field ''request_id'' res = text_json (request_id_text (ha_request_id q))
             \<and> field ''surface_id'' res = map_of given ''surface_id''
             \<and> field ''action_id'' res = map_of given ''action_id''
             \<and> field ''node_id'' res = map_of given ''node_id''
             \<and> field ''state'' res = text_json ''accepted''))"

text \<open>Selecting a session or a package is the client's own affair.\<close>

definition selected_here :: "hub_action \<Rightarrow> bool" where
  "selected_here q \<longleftrightarrow>
     (let a = ha_action q in
      ab_id a = ''botster.session.attach'' \<and> (case ab_target a of None \<Rightarrow> False | Some s \<Rightarrow> s \<noteq> [])
      \<or> ab_id a = ''botster.package.configure'')"

definition caught_here :: "hub_action \<Rightarrow> rejection \<Rightarrow> bool" where
  "caught_here q e \<longleftrightarrow> ab_id (ha_action q) = ''botster.package.surface.render''
     \<and> (case e of Client_rejection _ _ _ \<Rightarrow> True | Other_rejection _ \<Rightarrow> False)"

definition request_types :: "(string \<times> string) list" where
  "request_types = [(''botster.session.stop'', ''shutdown_session''), (''botster.session.remove'', ''remove_session''),
     (''botster.package.configuration.save'', ''set_package_configuration''),
     (''botster.package.surface.render'', ''plugin_surface_render''),
     (''botster.hub.check_update'', ''check_hub_update''),
     (''botster.package.read_plugin_logs'', ''read_plugin_logs''),
     (''botster.hub.resolve_quarantine'', ''resolve_quarantine''),
     (''botster.spawn_point.spawn_session'', ''spawn_session_type'')]"

definition own_request :: "hub_action \<Rightarrow> json \<Rightarrow> bool" where
  "own_request q d \<longleftrightarrow>
     (case map_of request_types (ab_id (ha_action q)) of
        Some ty \<Rightarrow> field ''type'' (Some d) = text_json ty
      | None \<Rightarrow> if plugin_action q = None then True
                else field ''type'' (Some d) = text_json ''plugin_surface_action'')"

definition decided :: "hub_action \<Rightarrow> plan \<Rightarrow> bool" where
  "decided q p \<longleftrightarrow> (\<forall>as. let xs = fst (run_plan p as); i = ha_request_id q in
     case plan_requests xs of
       [] \<Rightarrow> plan_results xs = [(i, selected_here q)]
     | d # ds \<Rightarrow> own_request q d \<and> plan_results xs =
         (case as of [] \<Rightarrow> []
          | Inl e # _ \<Rightarrow> if caught_here q e then [(i, False)] else []
          | Inr r # _ \<Rightarrow> [(i, hub_confirms q r)]))"

lemma decided_refuse: "\<not> selected_here q \<Longrightarrow> decided q (refuse q reason)"
  by (simp add: decided_def refuse_def action_result_frame_def)

lemmas verdict_defs = selected_here_def caught_here_def own_request_def hub_confirms_def plugin_action_def
  client_actions_def confirming_kinds_def request_types_def or_else_def

lemma type_request_of [simp]: "field ''type'' (Some (request_of ty kvs)) = text_json ty"
  by (simp add: request_of_def)

lemma decided_sessions:
  "ab_id (ha_action q) = ''botster.session.attach'' \<Longrightarrow> decided q (attach_session q)"
  "ab_id (ha_action q) = ''botster.session.stop'' \<Longrightarrow> decided q (stop_session q)"
  "ab_id (ha_action q) = ''botster.session.remove'' \<Longrightarrow> decided q (remove_session q)"
  "ab_id (ha_action q) = ''botster.spawn_point.spawn_session'' \<Longrightarrow> decided q (spawn_session q)"
  "ab_id (ha_action q) = ''botster.session_type.daemon_request'' \<Longrightarrow> decided q (session_type_action q)"
  by (auto simp: decided_def action_plans plan_steps verdict_defs split: list.split sum.split option.split)

lemma decided_packages:
  "ab_id (ha_action q) = ''botster.package.configure'' \<Longrightarrow> decided q (configure_package q)"
  "ab_id (ha_action q) = ''botster.package.configuration.save'' \<Longrightarrow> decided q (save_package_configuration q)"
  "ab_id (ha_action q) = ''botster.package.surface.render'' \<Longrightarrow> decided q (render_package_surface q)"
  by (auto simp: decided_def action_plans plan_steps verdict_defs package_configuration_request_def
      split: list.split sum.split option.split rejection.split)

lemma decided_hub:
  "ab_id (ha_action q) = ''botster.hub.check_update'' \<Longrightarrow> decided q (check_hub_update q)"
  "ab_id (ha_action q) = ''botster.spawn_target.daemon_request'' \<Longrightarrow> decided q (spawn_target_change q)"
  "ab_id (ha_action q) = ''botster.hub.resolve_quarantine'' \<Longrightarrow> decided q (resolve_quarantine q)"
  by (auto simp: decided_def action_plans plan_steps verdict_defs split: list.split sum.split option.split)

lemma truthy_nullish: "truthy (nullish v J_null) = (case v of None \<Rightarrow> False | Some x \<Rightarrow> truthy x)"
proof (cases v)
  case (Some x)
  then show ?thesis by (cases x) simp_all
qed simp

lemma decided_logs:
  "ab_id (ha_action q) = ''botster.package.read_plugin_logs'' \<Longrightarrow> decided q (read_plugin_logs q)"
  by (auto simp: decided_def action_plans plan_steps verdict_defs read_plugin_logs_request_from_action_def
      truthy_nullish split: list.split sum.split option.splits json.splits if_splits)

lemma decided_plugin:
  "ab_id (ha_action q) \<notin> set client_actions \<Longrightarrow> plugin_surface_of (ha_action q) = Some s
    \<Longrightarrow> decided q (plugin_surface_action s q)"
  by (cases s) (auto simp: decided_def plugin_surface_action_def plan_steps verdict_defs amap.get_put
      split: list.split sum.split option.split)

lemma decided_package_action:
  "ab_id (ha_action q) = ''botster.package.daemon_request'' \<Longrightarrow> plugin_surface_of (ha_action q) = None
    \<Longrightarrow> decided q (package_action q)"
  by (auto simp: decided_def action_plans plan_steps verdict_defs split: list.split sum.split option.split)

lemma dispatch_decided: "decided q (dispatch_daemon_action q)"
proof -
  let ?i = "ab_id (ha_action q)"
  show ?thesis
  proof (cases "?i \<in> set client_actions")
    case True
    then show ?thesis
      by (auto simp: client_actions_def dispatch_daemon_action_def decided_sessions decided_packages decided_hub decided_logs)
  next
    case False
    have r: "\<not> selected_here q" using False by (auto simp: selected_here_def client_actions_def Let_def)
    have "dispatch_daemon_action q = (case plugin_surface_of (ha_action q) of
        Some surface \<Rightarrow> plugin_surface_action surface q
      | None \<Rightarrow> if ?i = ''botster.package.daemon_request'' then package_action q
               else refuse q (''Unsupported hub action: '' @ ?i))"
      using False by (simp add: dispatch_daemon_action_def client_actions_def Let_def)
    then show ?thesis
      using decided_plugin [OF False] decided_package_action decided_refuse [OF r] by (simp split: option.split)
  qed
qed

subsection \<open>Types\<close>

text \<open>The descriptor a package action carries has the type the transport casts it to.\<close>

definition typed_descriptor :: "action_binding \<Rightarrow> bool" where
  "typed_descriptor a = (case param a ''daemon_request'' of
       Some (J_object q) \<Rightarrow> is_package_descriptor (J_object q) | _ \<Rightarrow> True)"

lemma package_request_conforms:
  assumes "typed_descriptor a" "daemon_request_from_action a = Some q"
  shows "is_daemon_request q"
proof -
  obtain d where "param a ''daemon_request'' = Some (J_object d)" "daemon_request_from_descriptor d = Some q"
    using assms(2) by (auto simp: daemon_request_from_action_def Let_def split: if_splits elim!: is_record.elims)
  then show ?thesis using assms(1) descriptor_request_conforms by (simp add: typed_descriptor_def)
qed

lemma configured_package:
  assumes "is_daemon_request q" "field ''type'' (Some q) = Some (J_string ''set_package_configuration'')"
  obtains p where "field ''package_name'' (Some q) = Some (J_string p)"
proof -
  have c: "conforms (W_object [required ''type'' (W_literal ''set_package_configuration''),
      required ''package_name'' W_text, required ''values'' (W_dict W_any)]) q"
    using assms package_lookups(14) by (simp add: is_daemon_request_def del: conforms.simps)
  obtain kvs where q: "q = J_object kvs" using c by (cases q) simp_all
  then have "case map_of kvs ''package_name'' of None \<Rightarrow> False | Some x \<Rightarrow> conforms W_text x"
    using c by simp
  then show ?thesis using that by (auto simp: q string_of_Some split: option.splits)
qed

lemma configuration_request_conforms:
  assumes "typed_descriptor a"
  shows "is_daemon_request (package_configuration_request p a)"
proof -
  define r where "r = daemon_request_from_action a"
  have "\<exists>s. (if field ''type'' r = Some (J_string ''set_package_configuration'')
      then field ''package_name'' r else Some (J_string p)) = Some (J_string s)"
    using package_request_conforms [OF assms] configured_package
    by (cases r) (auto simp: r_def elim: configured_package)
  then obtain s where "package_configuration_request p a = request_of ''set_package_configuration''
      [(''package_name'', Some (J_string s)), (''values'', Some (json_object (param a ''values'')))]"
    unfolding package_configuration_request_def Let_def r_def [symmetric] by auto
  then show ?thesis using package_requests(5) by (simp add: json_object_def)
qed

lemma action_lookups:
  "map_of daemon_request_types ''status'' = Some []"
  "map_of daemon_request_types ''check_hub_update'' = Some []"
  "map_of daemon_request_types ''remove_session'' = Some session_only"
  "map_of daemon_request_types ''shutdown_session'' = Some session_only"
  "map_of daemon_request_types ''spawn_session_type'' = Some [required ''session_type_id'' W_text,
     required ''session_id'' W_text, required ''request'' session_type_request_type]"
  "map_of daemon_request_types ''resolve_quarantine'' = Some [required ''target'' quarantine_target_type]"
  "map_of daemon_request_types ''plugin_surface_render'' = Some [required ''package_name'' W_text,
     required ''surface_id'' W_text, required ''payload'' W_any]"
  "map_of daemon_request_types ''plugin_surface_action'' = Some [required ''package_name'' W_text, required ''request'' W_any]"
  by (simp_all only: daemon_request_types_def map_of_Cons_code list.inject char.inject list.distinct
    simp_thms if_True if_False split_conv fst_conv snd_conv)

lemma spawn_context_conforms:
  "conforms session_type_request_type
     (obj [(''target_id'', text_json t), (''context'', Some (obj [(''prompt'', present p)]))])"
  by (simp add: session_type_request_type_def obj_def List.map_filter_def present_def)

lemma action_requests:
  "is_daemon_request status_request" "is_daemon_request (request_of ''check_hub_update'' [])"
  "is_daemon_request (request_of ''remove_session'' [(''session_id'', text_json s)])"
  "is_daemon_request (request_of ''shutdown_session'' [(''session_id'', text_json s)])"
  "is_daemon_request (request_of ''spawn_session_type'' [(''session_type_id'', text_json s), (''session_id'', text_json i),
     (''request'', Some (obj [(''target_id'', text_json t), (''context'', Some (obj [(''prompt'', present p)]))]))])"
  "is_daemon_request (request_of ''resolve_quarantine'' [(''target'', Some (target_json g))])"
  "is_daemon_request (request_of ''plugin_surface_render''
     [(''package_name'', text_json p), (''surface_id'', text_json s), (''payload'', Some v)])"
  "is_daemon_request (request_of ''plugin_surface_action'' [(''package_name'', text_json p), (''request'', Some v)])"
  unfolding status_request_def
  by (rule is_request [OF action_lookups(1)] is_request [OF action_lookups(2)] is_request [OF action_lookups(3)]
      is_request [OF action_lookups(4)] is_request [OF action_lookups(5)] is_request [OF action_lookups(6)]
      is_request [OF action_lookups(7)] is_request [OF action_lookups(8)];
    simp add: session_only_def quarantine_target_conforms spawn_context_conforms del: conforms.simps(9,10))+

lemma dispatch_sends:
  assumes "typed_descriptor (ha_action q)"
  shows "sends_only is_daemon_request (dispatch_daemon_action q)"
  by (rule dispatch_cases)
    (simp_all add: action_plans plugin_surface_action_def plan_steps case_prod_unfold action_requests
      configuration_request_conforms [OF assms] package_request_conforms [OF assms]
      spawn_target_request_conforms session_type_request_conforms plugin_logs_request_conforms
      split: option.split sum.split rejection.split)

subsection \<open>Properties\<close>

text \<open>
  C7. Every action is answered once: whatever the bridge answers, an action that ends normally has
  emitted exactly one result, under the id of its own request; an action that ends with a
  rejection has emitted none, so its caller learns of the rejection and of nothing else; and one
  that still awaits the Hub has emitted at most one.
\<close>

theorem hub_action_answered_once:
  "let (xs, end) = run_plan (dispatch_daemon_action q) as; ids = map fst (plan_results xs) in
     (case end of
        Finished \<Rightarrow> ids = [ha_request_id q]
      | Failed e \<Rightarrow> ids = []
      | _ \<Rightarrow> ids \<in> {[], [ha_request_id q]})"
  using run_answers [OF dispatch_answers_once, of q as]
  by (auto simp: answered_by_def case_prod_unfold Let_def split: plan.splits)

text \<open>
  C8. Every action ends: once the bridge has answered two requests the dispatch of any action has
  finished or failed, and no action makes more than two requests.
\<close>

theorem action_terminates:
  "finished (snd (run_plan (dispatch_daemon_action q) (a # b # as)))
   \<and> length (plan_requests (fst (run_plan (dispatch_daemon_action q) as))) \<le> 2"
  using run_depth [OF dispatch_depth, of "a # b # as" q] run_depth_requests [OF dispatch_depth] by simp

text \<open>
  C13. An action is accepted only on the Hub's word. In every run of every action: an action that asks
  nothing is refused, but for the two that only select something here; an action that asks sends its own
  request and has no result before the Hub has answered it; then its result is accepted exactly when that
  answer is a response that confirms it, and a rejected request ends the action, or refuses it where the
  code catches the rejection.
\<close>

theorem accepted_only_if_confirmed:
  "let xs = fst (run_plan (dispatch_daemon_action q) as); i = ha_request_id q in
     case plan_requests xs of
       [] \<Rightarrow> plan_results xs = [(i, selected_here q)]
     | d # ds \<Rightarrow> own_request q d \<and> plan_results xs =
         (case as of [] \<Rightarrow> []
          | Inl e # _ \<Rightarrow> if caught_here q e then [(i, False)] else []
          | Inr r # _ \<Rightarrow> [(i, hub_confirms q r)])"
  using dispatch_decided [of q] by (simp add: decided_def Let_def)

text \<open>
  C14. Every request an action makes the transport send is a request of the protocol: its \<open>type\<close> is
  an alternative of \<open>DaemonRequest\<close>, it has that alternative's properties with their types, and
  no other. This holds for any action and any parameters, except that the descriptor of a package
  action, which the code casts instead of reading, is taken to have its declared type.
\<close>

theorem action_requests_typed:
  assumes "typed_descriptor (ha_action q)"
  shows "list_all is_daemon_request (plan_requests (fst (run_plan (dispatch_daemon_action q) as)))"
  by (rule run_sends [OF dispatch_sends [OF assms]])

definition stop_action :: hub_action where
  "stop_action = \<lparr>ha_request_id = Generated 1, ha_action =
     \<lparr>ab_id = ''botster.session.stop'', ab_target = Some ''s1'', ab_label = None, ab_disabled = None,
      ab_params = None, ab_plugin_surface = None\<rparr>\<rparr>"

lemma action_requests_typed_witness:
  "typed_descriptor (ha_action stop_action)
   \<and> list_all is_daemon_request (plan_requests (fst (run_plan (dispatch_daemon_action stop_action) [])))
   \<and> plan_requests (fst (run_plan (dispatch_daemon_action stop_action) [])) =
       [request_of ''shutdown_session'' [(''session_id'', text_json ''s1'')]]"
proof -
  have t: "typed_descriptor (ha_action stop_action)" by (simp add: stop_action_def typed_descriptor_def param_def)
  moreover have "plan_requests (fst (run_plan (dispatch_daemon_action stop_action) [])) =
       [request_of ''shutdown_session'' [(''session_id'', text_json ''s1'')]]"
    by (simp add: stop_action_def dispatch_daemon_action_def stop_session_def await_def or_else_def Let_def)
  ultimately show ?thesis using action_requests_typed [OF t, of "[]"] by simp
qed

end
