(* ===== verification/Hub_Transport.thy ===== *)
theory Hub_Transport
  imports Hub_Action_Laws
begin

text \<open>
  \<open>createHubTransport\<close> of \<open>src/botster/hubTransport.ts\<close>: the state the transport closes over, its
  \<open>connect\<close>, \<open>disconnect\<close> and \<open>send\<close>, and what the bridge's subscriptions call back.

  \<^item> The bridge is the daemon client: which of its optional functions it has is a parameter, its
    subscriptions are handles numbered as they are opened, its answers are steps.
  \<^item> \<open>queueMicrotask\<close> puts a frame in the queue; a microtask hands it to whichever ingress the
    transport has then.
  \<^item> A package-event key \<open>owner NUL name NUL subjects\<close> is the triple: names that hold a NUL themselves
    could share a key in the source, and are kept apart here.
  \<^item> The bridge's subscribing functions return. The WebRTC client throws from
    \<open>subscribeEntityFrames\<close> after its own \<open>disconnect\<close>; that error of the caller is left out.
  \<^item> The ghost fields record what the bridge saw: the handles opened, unsubscribed and replaced, the requests.
\<close>

subsection \<open>State\<close>

record bridge =
  br_events :: bool
  br_package_events :: bool
  br_entity_frames :: bool

type_synonym event_key = "string \<times> string \<times> string list"

datatype subject = Daemon_events | Entities string | Package_events event_key

record held =
  hd_count :: nat
  hd_handle :: nat

record hub_transport =
  ht_ingress :: "nat option"
  ht_sequence :: nat
  ht_daemon_events :: "nat option"
  ht_session :: "nat option"
  ht_session_type :: "nat option"
  ht_generic :: "(string \<times> held) list"
  ht_packages :: "(event_key \<times> held) list"
  ht_microtasks :: "hub_frame list"
  ht_plans :: "(nat \<times> plan) list"
  ht_next_plan :: nat
  ht_next_handle :: nat
  ht_opened :: "(nat \<times> subject) list"
  ht_unsubscribed :: "nat list"
  ht_replaced :: "nat list"
  ht_requests :: "json list"
  ht_delivered :: "(nat \<times> hub_frame) list"

definition new_hub_transport :: hub_transport where
  "new_hub_transport = \<lparr>ht_ingress = None, ht_sequence = 1, ht_daemon_events = None, ht_session = None,
     ht_session_type = None, ht_generic = [], ht_packages = [], ht_microtasks = [], ht_plans = [],
     ht_next_plan = 0, ht_next_handle = 0, ht_opened = [], ht_unsubscribed = [], ht_replaced = [], ht_requests = [],
     ht_delivered = []\<rparr>"

subsection \<open>Emitting\<close>

definition emit_frame :: "hub_frame \<Rightarrow> hub_transport \<Rightarrow> hub_transport" where
  "emit_frame f s = s\<lparr>ht_microtasks := ht_microtasks s @ [f]\<rparr>"

definition emit_all :: "hub_frame list \<Rightarrow> hub_transport \<Rightarrow> hub_transport" where
  "emit_all fs s = s\<lparr>ht_microtasks := ht_microtasks s @ fs\<rparr>"

definition emit_response :: "string comparator \<Rightarrow> daemon_response \<Rightarrow> hub_transport \<Rightarrow> hub_transport" where
  "emit_response locale_compare r s =
     emit_all (daemon_response_frames locale_compare r (ht_sequence s)) (s\<lparr>ht_sequence := ht_sequence s + 1\<rparr>)"

definition microtask :: "hub_transport \<Rightarrow> hub_transport" where
  "microtask s =
     (case ht_microtasks s of [] \<Rightarrow> s
      | f # fs \<Rightarrow> s\<lparr>ht_microtasks := fs,
          ht_delivered := (case ht_ingress s of None \<Rightarrow> ht_delivered s | Some h \<Rightarrow> ht_delivered s @ [(h, f)])\<rparr>)"

text \<open>An \<open>async\<close> function runs until it awaits the bridge; then it is kept with its continuation.\<close>

primrec advance :: "string comparator \<Rightarrow> plan \<Rightarrow> hub_transport \<Rightarrow> hub_transport" where
  "advance lc Finished s = s"
| "advance lc (Failed e) s = s"
| "advance lc (Emit f p) s = advance lc p (emit_frame f s)"
| "advance lc (Emit_response r p) s = advance lc p (emit_response lc r s)"
| "advance lc (Ask q k) s =
     s\<lparr>ht_requests := ht_requests s @ [q], ht_plans := ht_plans s @ [(ht_next_plan s, Ask q k)],
       ht_next_plan := ht_next_plan s + 1\<rparr>"

definition bridge_answers :: "string comparator \<Rightarrow> nat \<Rightarrow> bridge_answer \<Rightarrow> hub_transport \<Rightarrow> hub_transport" where
  "bridge_answers lc i a s =
     (case map_of (ht_plans s) i of
        Some (Ask q k) \<Rightarrow> advance lc (k a) (s\<lparr>ht_plans := AList.delete i (ht_plans s)\<rparr>)
      | _ \<Rightarrow> s)"

subsection \<open>Subscriptions\<close>

definition open_handle :: "subject \<Rightarrow> hub_transport \<Rightarrow> hub_transport" where
  "open_handle x s = s\<lparr>ht_opened := ht_opened s @ [(ht_next_handle s, x)], ht_next_handle := ht_next_handle s + 1\<rparr>"

definition unsubscribe_handle :: "nat \<Rightarrow> hub_transport \<Rightarrow> hub_transport" where
  "unsubscribe_handle h s = s\<lparr>ht_unsubscribed := ht_unsubscribed s @ [h]\<rparr>"

text \<open>A thrown error leaves the state as it is and rejects the \<open>send\<close>.\<close>

definition ensure_package_event_subscription ::
    "bridge \<Rightarrow> event_key \<Rightarrow> hub_transport \<Rightarrow> string + hub_transport" where
  "ensure_package_event_subscription b spec s =
     (case map_of (ht_packages s) spec of
        Some e \<Rightarrow> Inr (s\<lparr>ht_packages := AList.update spec (e\<lparr>hd_count := hd_count e + 1\<rparr>) (ht_packages s)\<rparr>)
      | None \<Rightarrow>
          if \<not> br_package_events b
          then Inl ''package event subscription requires the dedicated WebRTC event path''
          else Inr ((open_handle (Package_events spec) s)\<lparr>ht_packages :=
            AList.update spec \<lparr>hd_count = 1, hd_handle = ht_next_handle s\<rparr> (ht_packages s)\<rparr>))"

definition release_package_event_subscription :: "event_key \<Rightarrow> hub_transport \<Rightarrow> hub_transport" where
  "release_package_event_subscription spec s =
     (case map_of (ht_packages s) spec of None \<Rightarrow> s
      | Some e \<Rightarrow>
          if 1 < hd_count e
          then s\<lparr>ht_packages := AList.update spec (e\<lparr>hd_count := hd_count e - 1\<rparr>) (ht_packages s)\<rparr>
          else (unsubscribe_handle (hd_handle e) s)\<lparr>ht_packages := AList.delete spec (ht_packages s)\<rparr>)"

definition ensure_session_entity_subscription :: "bridge \<Rightarrow> hub_transport \<Rightarrow> string + hub_transport" where
  "ensure_session_entity_subscription b s =
     (case ht_session s of Some _ \<Rightarrow> Inr s
      | None \<Rightarrow>
          if \<not> br_entity_frames b
          then Inl ''session entity subscription requires the WebRTC entity-frame delivery path''
          else Inr ((open_handle (Entities session_family) s)\<lparr>ht_session := Some (ht_next_handle s)\<rparr>))"

definition ensure_session_type_entity_subscription :: "bridge \<Rightarrow> hub_transport \<Rightarrow> string + hub_transport" where
  "ensure_session_type_entity_subscription b s =
     (case ht_session_type s of Some _ \<Rightarrow> Inr s
      | None \<Rightarrow>
          if \<not> br_entity_frames b
          then Inl ''session type entity subscription requires the WebRTC entity-frame delivery path''
          else Inr ((open_handle (Entities session_type_family) s)\<lparr>ht_session_type := Some (ht_next_handle s)\<rparr>))"

definition ensure_generic_entity_subscription ::
    "bridge \<Rightarrow> string \<Rightarrow> hub_transport \<Rightarrow> string + hub_transport" where
  "ensure_generic_entity_subscription b f s =
     (if f = session_family then ensure_session_entity_subscription b s
      else if f = session_type_family then ensure_session_type_entity_subscription b s
      else (case map_of (ht_generic s) f of
          Some e \<Rightarrow> Inr (s\<lparr>ht_generic := AList.update f (e\<lparr>hd_count := hd_count e + 1\<rparr>) (ht_generic s)\<rparr>)
        | None \<Rightarrow>
            if \<not> br_entity_frames b
            then Inl (''entity subscription for '' @ f @ '' requires the WebRTC entity-frame delivery path'')
            else Inr ((open_handle (Entities f) s)\<lparr>ht_generic :=
              AList.update f \<lparr>hd_count = 1, hd_handle = ht_next_handle s\<rparr> (ht_generic s)\<rparr>)))"

definition release_generic_entity_subscription :: "string \<Rightarrow> hub_transport \<Rightarrow> hub_transport" where
  "release_generic_entity_subscription f s =
     (if f = session_family \<or> f = session_type_family then s
      else (case map_of (ht_generic s) f of None \<Rightarrow> s
        | Some e \<Rightarrow>
            if 1 < hd_count e
            then s\<lparr>ht_generic := AList.update f (e\<lparr>hd_count := hd_count e - 1\<rparr>) (ht_generic s)\<rparr>
            else (unsubscribe_handle (hd_handle e) s)\<lparr>ht_generic := AList.delete f (ht_generic s)\<rparr>))"

subsection \<open>Connecting\<close>

definition option_list :: "'a option \<Rightarrow> 'a list" where
  "option_list x = (case x of None \<Rightarrow> [] | Some y \<Rightarrow> [y])"

text \<open>A second \<open>connect\<close> replaces the daemon-event subscription without unsubscribing it.\<close>

definition hub_connect :: "bridge \<Rightarrow> string comparator \<Rightarrow> nat \<Rightarrow> hub_transport \<Rightarrow> hub_transport" where
  "hub_connect b lc ingress s =
     (let h = (if br_events b then Some (ht_next_handle s) else None);
          t = (if br_events b then open_handle Daemon_events s else s)
      in advance lc (Emit (Hello_ack ''hub'') (await status_request (\<lambda>r. Emit_response r Finished)))
           (t\<lparr>ht_ingress := Some ingress, ht_daemon_events := h,
              ht_replaced := ht_replaced s @ option_list (ht_daemon_events s)\<rparr>))"

definition hub_disconnect :: "hub_transport \<Rightarrow> hub_transport" where
  "hub_disconnect s = s\<lparr>
     ht_unsubscribed := ht_unsubscribed s @ option_list (ht_daemon_events s) @ option_list (ht_session s)
       @ option_list (ht_session_type s) @ map (hd_handle \<circ> snd) (ht_generic s)
       @ map (hd_handle \<circ> snd) (ht_packages s),
     ht_daemon_events := None, ht_session := None, ht_session_type := None, ht_generic := [], ht_packages := [],
     ht_ingress := None\<rparr>"

subsection \<open>Sending\<close>

type_synonym payload = "(string \<times> json) list"

datatype control_request =
    Subscribe
  | Entity_pull payload
  | Entity_release payload
  | Events_subscribe payload
  | Events_release payload
  | Action_request hub_action
  | Other_frame

definition family_named :: "payload \<Rightarrow> string option" where
  "family_named p = (case string_of (map_of p ''family'') of Some f \<Rightarrow> if f = [] then None else Some f | None \<Rightarrow> None)"

definition event_spec :: "payload \<Rightarrow> event_key option" where
  "event_spec p =
     (case (string_of (map_of p ''owner''), string_of (map_of p ''name''), array_of (map_of p ''subjects'')) of
        (Some owner, Some name, Some subjects) \<Rightarrow> Some (owner, name, List.map_filter (string_of \<circ> Some) subjects)
      | _ \<Rightarrow> None)"

definition ask_and_emit :: "json \<Rightarrow> plan" where
  "ask_and_emit q = await q (\<lambda>r. Emit_response r Finished)"

definition pull_available_packages :: "string comparator \<Rightarrow> payload \<Rightarrow> hub_transport \<Rightarrow> hub_transport" where
  "pull_available_packages lc p s =
     (let registry_path = read_config_string (map_of p ''registry_path'') [] in
      if registry_path \<noteq> []
      then advance lc (ask_and_emit (request_of ''list_available_packages'' [(''registry_path'', text_json registry_path)])) s
      else emit_frame (snapshot available_package_family (ht_sequence s) []) (s\<lparr>ht_sequence := ht_sequence s + 1\<rparr>))"

definition entity_pull :: "bridge \<Rightarrow> string comparator \<Rightarrow> payload \<Rightarrow> hub_transport \<Rightarrow> string + hub_transport" where
  "entity_pull b lc p s =
     (case family_named p of None \<Rightarrow> Inr s
      | Some f \<Rightarrow>
          let ask = (\<lambda>t. Inr (advance lc (ask_and_emit (request_of t [])) s)) in
          if f = status_family then ask ''status''
          else if f = session_family then ensure_session_entity_subscription b s
          else if f = session_type_family then ensure_session_type_entity_subscription b s
          else if f = app_family then ask ''list_apps''
          else if f = package_navigation_family then ask ''list_package_navigation''
          else if f = package_family then ask ''list_packages''
          else if f = spawn_target_family then ask ''list_spawn_targets''
          else if f = available_package_family then Inr (pull_available_packages lc p s)
          else ensure_generic_entity_subscription b f s)"

fun hub_send :: "bridge \<Rightarrow> string comparator \<Rightarrow> control_request \<Rightarrow> hub_transport \<Rightarrow> string + hub_transport" where
  "hub_send b lc Subscribe s = ensure_session_entity_subscription b s"
| "hub_send b lc (Entity_pull p) s = entity_pull b lc p s"
| "hub_send b lc (Entity_release p) s =
     Inr (case family_named p of None \<Rightarrow> s | Some f \<Rightarrow> release_generic_entity_subscription f s)"
| "hub_send b lc (Events_subscribe p) s =
     (case event_spec p of None \<Rightarrow> Inr s | Some spec \<Rightarrow> ensure_package_event_subscription b spec s)"
| "hub_send b lc (Events_release p) s =
     Inr (case event_spec p of None \<Rightarrow> s | Some spec \<Rightarrow> release_package_event_subscription spec s)"
| "hub_send b lc (Action_request q) s = Inr (advance lc (dispatch_daemon_action q) s)"
| "hub_send b lc Other_frame s = Inr s"

subsection \<open>What the bridge calls back\<close>

fun package_event_frames :: "daemon_event \<Rightarrow> hub_frame list" where
  "package_event_frames (Package_event _ owner name v) = [Package_event_frame owner name v]"
| "package_event_frames (Event_gap _ owner name) =
     [Event_gap_frame owner name,
      Connection_diagnostic (obj [(''kind'', text_json ''event_gap''),
        (''message'', text_json (''Hub shed live package events for '' @ owner @ ''/'' @ name
           @ ''. Durable package state is unchanged.'')),
        (''feature'', text_json (owner @ ''/'' @ name)), (''operation'', text_json ''subscribe_events'')])]"
| "package_event_frames _ = []"

subsection \<open>Steps\<close>

datatype hub_event =
    Hub_connects nat
  | Hub_disconnects
  | Hub_sends control_request
  | Bridge_answers nat bridge_answer
  | Entity_frame_arrives daemon_frame
  | Daemon_event_arrives daemon_event
  | Package_event_arrives daemon_event
  | Microtask

fun hub_step :: "bridge \<Rightarrow> string comparator \<Rightarrow> hub_event \<Rightarrow> hub_transport \<Rightarrow> hub_transport" where
  "hub_step b lc (Hub_connects h) s = hub_connect b lc h s"
| "hub_step b lc Hub_disconnects s = hub_disconnect s"
| "hub_step b lc (Hub_sends r) s = (case hub_send b lc r s of Inl _ \<Rightarrow> s | Inr t \<Rightarrow> t)"
| "hub_step b lc (Bridge_answers i a) s = bridge_answers lc i a s"
| "hub_step b lc (Entity_frame_arrives f) s = emit_all (entity_frames_of f) s"
| "hub_step b lc (Daemon_event_arrives e) s = emit_all (option_list (daemon_event_frame e)) s"
| "hub_step b lc (Package_event_arrives e) s = emit_all (package_event_frames e) s"
| "hub_step b lc Microtask s = microtask s"

definition run_hub :: "bridge \<Rightarrow> string comparator \<Rightarrow> hub_event list \<Rightarrow> hub_transport" where
  "run_hub b lc es = fold (hub_step b lc) es new_hub_transport"

end
