(* ===== verification/Hub_Transport_Laws.thy ===== *)
theory Hub_Transport_Laws
  imports Hub_Transport
begin

text \<open>
  Laws of the Hub transport: each subscription the bridge opened has one place (held, unsubscribed
  once, or a replaced daemon-event handle), the reference counts are the demand for each family
  and event, and nothing reaches a client that has disconnected.
\<close>

subsection \<open>Parts of the state that operations leave alone\<close>

definition demands :: "hub_transport \<Rightarrow> (string \<times> held) list \<times> (event_key \<times> held) list" where
  "demands s = (ht_generic s, ht_packages s)"

definition handles :: "hub_transport \<Rightarrow> nat list" where
  "handles s = option_list (ht_daemon_events s) @ option_list (ht_session s) @ option_list (ht_session_type s)
     @ map (hd_handle \<circ> snd) (ht_generic s) @ map (hd_handle \<circ> snd) (ht_packages s)"

definition same_subscriptions :: "hub_transport \<Rightarrow> hub_transport \<Rightarrow> bool" where
  "same_subscriptions s t \<longleftrightarrow> demands t = demands s \<and> ht_daemon_events t = ht_daemon_events s
     \<and> ht_session t = ht_session s \<and> ht_session_type t = ht_session_type s
     \<and> ht_next_handle t = ht_next_handle s \<and> ht_opened t = ht_opened s \<and> ht_unsubscribed t = ht_unsubscribed s
     \<and> ht_replaced t = ht_replaced s \<and> ht_ingress t = ht_ingress s \<and> ht_delivered t = ht_delivered s"

lemma same_refl [simp]: "same_subscriptions s s"
  by (simp add: same_subscriptions_def)

lemma same_trans: "same_subscriptions s t \<Longrightarrow> same_subscriptions t u \<Longrightarrow> same_subscriptions s u"
  by (simp add: same_subscriptions_def)

lemma same_emit [simp]: "same_subscriptions s (emit_frame f s)" "same_subscriptions s (emit_all fs s)"
  "same_subscriptions s (emit_response lc r s)"
  by (simp_all add: same_subscriptions_def demands_def emit_frame_def emit_all_def emit_response_def)

lemma same_advance: "same_subscriptions s (advance lc p s)"
proof (induction p arbitrary: s)
  case (Emit f p)
  show ?case using same_trans [OF same_emit(1) Emit.IH] by simp
next
  case (Emit_response r p)
  show ?case using same_trans [OF same_emit(3) Emit_response.IH] by simp
qed (simp_all add: same_subscriptions_def demands_def)

lemma demands_advance: "demands (advance lc p s) = demands s"
  using same_advance by (simp add: same_subscriptions_def)

lemma same_bridge_answers: "same_subscriptions s (bridge_answers lc i a s)"
proof -
  have "same_subscriptions s (s\<lparr>ht_plans := ps\<rparr>)" for ps by (simp add: same_subscriptions_def demands_def)
  then show ?thesis
    using same_trans [OF _ same_advance] by (simp add: bridge_answers_def split: option.split plan.split)
qed

lemma same_pull_available: "same_subscriptions s (pull_available_packages lc p s)"
proof -
  have "same_subscriptions s (emit_frame f (s\<lparr>ht_sequence := n\<rparr>))" for f n
    by (simp add: same_subscriptions_def demands_def emit_frame_def)
  then show ?thesis by (simp add: pull_available_packages_def Let_def same_advance)
qed

subsection \<open>Every handle has one place\<close>

definition counted :: "('k \<Rightarrow> subject) \<Rightarrow> hub_transport \<Rightarrow> ('k \<times> held) list \<Rightarrow> bool" where
  "counted x s m \<longleftrightarrow> distinct (map fst m)
     \<and> (\<forall>(k, e) \<in> set m. (hd_handle e, x k) \<in> set (ht_opened s) \<and> 1 \<le> hd_count e)"

definition placed :: "hub_transport \<Rightarrow> bool" where
  "placed s \<longleftrightarrow>
     mset (map fst (ht_opened s)) = mset (handles s) + mset (ht_unsubscribed s) + mset (ht_replaced s)
     \<and> distinct (map fst (ht_opened s)) \<and> (\<forall>(h, x) \<in> set (ht_opened s). h < ht_next_handle s)
     \<and> counted Entities s (ht_generic s) \<and> counted Package_events s (ht_packages s)"

lemma placed_same: "same_subscriptions s t \<Longrightarrow> placed s \<Longrightarrow> placed t"
  by (simp add: placed_def same_subscriptions_def demands_def handles_def counted_def)

lemma mset_update_new:
  "k \<notin> fst ` set m \<Longrightarrow>
     image_mset (f \<circ> snd) (mset (AList.update k e m)) = add_mset (f e) (image_mset (f \<circ> snd) (mset m))"
  by (induction m) auto

lemma mset_update_same:
  "map_of m k = Some e \<Longrightarrow> f e' = f e \<Longrightarrow> map (f \<circ> snd) (AList.update k e' m) = map (f \<circ> snd) m"
  by (induction m) auto

lemma delete_absent: "k \<notin> fst ` set m \<Longrightarrow> AList.delete k m = m"
  by (induction m) auto

lemma mset_delete:
  "distinct (map fst m) \<Longrightarrow> map_of m k = Some e \<Longrightarrow>
     image_mset (f \<circ> snd) (mset m) = add_mset (f e) (image_mset (f \<circ> snd) (mset (AList.delete k m)))"
  by (induction m) (auto simp: delete_absent)

lemma set_update: "set (AList.update k e m) \<subseteq> insert (k, e) (set m)"
  by (induction m) auto

lemma counted_update:
  assumes "counted x s m" "(hd_handle e, x k) \<in> set (ht_opened s)" "1 \<le> hd_count e"
  shows "counted x s (AList.update k e m)"
  using assms set_update [of k e m] by (auto simp: counted_def distinct_update)

lemma counted_delete: "counted x s m \<Longrightarrow> counted x s (AList.delete k m)"
  using distinct_delete [of m k] by (auto simp: counted_def) (auto simp: AList.delete_eq)

lemma counted_more: "counted x s m \<Longrightarrow> set (ht_opened s) \<subseteq> set (ht_opened t) \<Longrightarrow> counted x t m"
  by (auto simp: counted_def)

lemma counted_entry:
  "counted x s m \<Longrightarrow> map_of m k = Some e \<Longrightarrow> (hd_handle e, x k) \<in> set (ht_opened s) \<and> 1 \<le> hd_count e"
  by (auto simp: counted_def dest!: map_of_SomeD)

lemma fresh_handle: "placed s \<Longrightarrow> ht_next_handle s \<notin> fst ` set (ht_opened s)"
  by (auto simp: placed_def)

lemma placed_open:
  assumes "placed s"
    and "ht_opened t = ht_opened s @ [(ht_next_handle s, x)]" "ht_next_handle t = ht_next_handle s + 1"
    and "mset (handles t) + mset (ht_replaced t) = add_mset (ht_next_handle s) (mset (handles s) + mset (ht_replaced s))"
    and "ht_unsubscribed t = ht_unsubscribed s"
    and "counted Entities t (ht_generic t)" "counted Package_events t (ht_packages t)"
  shows "placed t"
  using assms fresh_handle [OF assms(1)] unfolding placed_def
  by (auto simp: less_Suc_eq) 

lemma placed_package_ensure:
  assumes "placed s" "ensure_package_event_subscription b k s = Inr t"
  shows "placed t"
proof (cases "map_of (ht_packages s) k")
  case (Some e)
  have c: "counted Package_events s (ht_packages s)" using assms(1) by (simp add: placed_def)
  have t: "t = s\<lparr>ht_packages := AList.update k (e\<lparr>hd_count := hd_count e + 1\<rparr>) (ht_packages s)\<rparr>"
    using assms(2) by (simp add: ensure_package_event_subscription_def Some)
  have "counted Package_events s (ht_packages t)"
    unfolding t using counted_update [OF c, of "e\<lparr>hd_count := hd_count e + 1\<rparr>" k] counted_entry [OF c Some] by simp
  moreover have "handles t = handles s"
    by (simp add: t handles_def mset_update_same [OF Some])
  ultimately show ?thesis using assms(1) by (simp add: placed_def t counted_def)
next
  case None
  then have t: "t = (open_handle (Package_events k) s)\<lparr>ht_packages :=
      AList.update k \<lparr>hd_count = 1, hd_handle = ht_next_handle s\<rparr> (ht_packages s)\<rparr>"
    using assms(2) by (simp add: ensure_package_event_subscription_def split: if_splits)
  have c: "counted Entities s (ht_generic s)" "counted Package_events s (ht_packages s)"
    using assms(1) by (simp_all add: placed_def)
  have n: "k \<notin> fst ` set (ht_packages s)" using None by (simp add: map_of_eq_None_iff)
  show ?thesis
  proof (rule placed_open [OF assms(1), of t "Package_events k"])
    show "counted Entities t (ht_generic t)"
      using c(1) by (auto simp: t open_handle_def counted_def)
    have "counted Package_events t (ht_packages s)" using c(2) by (auto simp: t open_handle_def counted_def)
    then show "counted Package_events t (ht_packages t)"
      unfolding t by (simp add: open_handle_def) (rule counted_update; simp add: open_handle_def)
  qed (simp_all add: t open_handle_def handles_def mset_update_new [OF n])
qed

lemma placed_package_release:
  assumes "placed s"
  shows "placed (release_package_event_subscription k s)"
proof (cases "map_of (ht_packages s) k")
  case (Some e)
  have c: "counted Package_events s (ht_packages s)" using assms by (simp add: placed_def)
  then have d: "distinct (map fst (ht_packages s))" by (simp add: counted_def)
  show ?thesis
  proof (cases "1 < hd_count e")
    case True
    let ?t = "s\<lparr>ht_packages := AList.update k (e\<lparr>hd_count := hd_count e - 1\<rparr>) (ht_packages s)\<rparr>"
    have "counted Package_events s (ht_packages ?t)"
      using counted_update [OF c, of "e\<lparr>hd_count := hd_count e - 1\<rparr>" k] counted_entry [OF c Some] True by simp
    moreover have "handles ?t = handles s" by (simp add: handles_def mset_update_same [OF Some])
    ultimately show ?thesis using assms True
      by (simp add: placed_def counted_def release_package_event_subscription_def Some)
  next
    case False
    then have t: "release_package_event_subscription k s =
        (unsubscribe_handle (hd_handle e) s)\<lparr>ht_packages := AList.delete k (ht_packages s)\<rparr>"
      by (simp add: release_package_event_subscription_def Some)
    show ?thesis using assms mset_delete [OF d Some, of hd_handle] counted_delete [OF c, of k]
      by (simp add: placed_def t unsubscribe_handle_def handles_def counted_def)
  qed
qed (simp add: release_package_event_subscription_def assms)

lemma placed_generic_release:
  assumes "placed s"
  shows "placed (release_generic_entity_subscription f s)"
proof (cases "f = session_family \<or> f = session_type_family \<or> map_of (ht_generic s) f = None")
  case False
  then obtain e where e: "map_of (ht_generic s) f = Some e" by auto
  have c: "counted Entities s (ht_generic s)" using assms by (simp add: placed_def)
  then have d: "distinct (map fst (ht_generic s))" by (simp add: counted_def)
  show ?thesis
  proof (cases "1 < hd_count e")
    case True
    let ?t = "s\<lparr>ht_generic := AList.update f (e\<lparr>hd_count := hd_count e - 1\<rparr>) (ht_generic s)\<rparr>"
    have "counted Entities s (ht_generic ?t)"
      using counted_update [OF c, of "e\<lparr>hd_count := hd_count e - 1\<rparr>" f] counted_entry [OF c e] True by simp
    moreover have "handles ?t = handles s" by (simp add: handles_def mset_update_same [OF e])
    ultimately show ?thesis using assms True False
      by (simp add: placed_def counted_def release_generic_entity_subscription_def e)
  next
    case low: False
    then have t: "release_generic_entity_subscription f s =
        (unsubscribe_handle (hd_handle e) s)\<lparr>ht_generic := AList.delete f (ht_generic s)\<rparr>"
      using False by (simp add: release_generic_entity_subscription_def e)
    show ?thesis using assms mset_delete [OF d e, of hd_handle] counted_delete [OF c, of f]
      by (simp add: placed_def t unsubscribe_handle_def handles_def counted_def)
  qed
qed (use assms in \<open>auto simp: release_generic_entity_subscription_def\<close>)

lemma placed_session_ensure:
  assumes "placed s"
  shows "ensure_session_entity_subscription b s = Inr t \<Longrightarrow> placed t"
    and "ensure_session_type_entity_subscription b s = Inr t \<Longrightarrow> placed t"
proof -
  have c: "counted Entities s (ht_generic s)" "counted Package_events s (ht_packages s)"
    using assms by (simp_all add: placed_def)
  show "placed t" if "ensure_session_entity_subscription b s = Inr t"
  proof (cases "ht_session s")
    case None
    then have t: "t = (open_handle (Entities session_family) s)\<lparr>ht_session := Some (ht_next_handle s)\<rparr>"
      using that by (simp add: ensure_session_entity_subscription_def split: if_splits)
    show ?thesis
      by (rule placed_open [OF assms, of t "Entities session_family"])
        (use c in \<open>auto simp: t None open_handle_def handles_def option_list_def counted_def\<close>)
  qed (use that assms in \<open>simp add: ensure_session_entity_subscription_def\<close>)
  show "placed t" if "ensure_session_type_entity_subscription b s = Inr t"
  proof (cases "ht_session_type s")
    case None
    then have t: "t = (open_handle (Entities session_type_family) s)\<lparr>ht_session_type := Some (ht_next_handle s)\<rparr>"
      using that by (simp add: ensure_session_type_entity_subscription_def split: if_splits)
    show ?thesis
      by (rule placed_open [OF assms, of t "Entities session_type_family"])
        (use c in \<open>auto simp: t None open_handle_def handles_def option_list_def counted_def\<close>)
  qed (use that assms in \<open>simp add: ensure_session_type_entity_subscription_def\<close>)
qed

lemma placed_generic_ensure:
  assumes "placed s" "ensure_generic_entity_subscription b f s = Inr t"
  shows "placed t"
proof (cases "f = session_family \<or> f = session_type_family")
  case True
  then show ?thesis using assms placed_session_ensure [OF assms(1)]
    by (auto simp: ensure_generic_entity_subscription_def split: if_splits)
next
  case g: False
  have c: "counted Entities s (ht_generic s)" "counted Package_events s (ht_packages s)"
    using assms(1) by (simp_all add: placed_def)
  show ?thesis
  proof (cases "map_of (ht_generic s) f")
    case (Some e)
    have t: "t = s\<lparr>ht_generic := AList.update f (e\<lparr>hd_count := hd_count e + 1\<rparr>) (ht_generic s)\<rparr>"
      using assms(2) g by (simp add: ensure_generic_entity_subscription_def Some)
    have "counted Entities s (ht_generic t)"
      unfolding t using counted_update [OF c(1), of "e\<lparr>hd_count := hd_count e + 1\<rparr>" f] counted_entry [OF c(1) Some] by simp
    moreover have "handles t = handles s" by (simp add: t handles_def mset_update_same [OF Some])
    ultimately show ?thesis using assms(1) by (simp add: placed_def t counted_def)
  next
    case None
    then have t: "t = (open_handle (Entities f) s)\<lparr>ht_generic :=
        AList.update f \<lparr>hd_count = 1, hd_handle = ht_next_handle s\<rparr> (ht_generic s)\<rparr>"
      using assms(2) g by (simp add: ensure_generic_entity_subscription_def split: if_splits)
    have n: "f \<notin> fst ` set (ht_generic s)" using None by (simp add: map_of_eq_None_iff)
    show ?thesis
    proof (rule placed_open [OF assms(1), of t "Entities f"])
      show "counted Package_events t (ht_packages t)" using c(2) by (auto simp: t open_handle_def counted_def)
      have "counted Entities t (ht_generic s)" using c(1) by (auto simp: t open_handle_def counted_def)
      then show "counted Entities t (ht_generic t)"
        unfolding t by (simp add: open_handle_def) (rule counted_update; simp add: open_handle_def)
    qed (simp_all add: t open_handle_def handles_def mset_update_new [OF n])
  qed
qed

lemma placed_connect:
  assumes "placed s"
  shows "placed (hub_connect b lc h s)"
proof -
  have c: "counted Entities s (ht_generic s)" "counted Package_events s (ht_packages s)"
    using assms by (simp_all add: placed_def)
  let ?u = "(if br_events b then open_handle Daemon_events s else s)\<lparr>ht_ingress := Some h,
      ht_daemon_events := if br_events b then Some (ht_next_handle s) else None,
      ht_replaced := ht_replaced s @ option_list (ht_daemon_events s)\<rparr>"
  have "placed ?u"
  proof (cases "br_events b")
    case True
    show ?thesis
      by (rule placed_open [OF assms, of ?u Daemon_events])
        (use c True in \<open>auto simp: open_handle_def handles_def option_list_def counted_def\<close>)
  next
    case False
    then show ?thesis using assms by (auto simp: placed_def handles_def option_list_def counted_def)
  qed
  moreover have "same_subscriptions ?u (hub_connect b lc h s)"
    unfolding hub_connect_def Let_def by (rule same_advance)
  ultimately show ?thesis using placed_same by blast
qed

lemma placed_disconnect: "placed s \<Longrightarrow> placed (hub_disconnect s)"
  by (simp add: placed_def hub_disconnect_def handles_def option_list_def counted_def)

lemma placed_pull:
  assumes "placed s" "entity_pull b lc p s = Inr t"
  shows "placed t"
proof -
  have a: "placed (advance lc q s)" for q using placed_same [OF same_advance assms(1)] .
  show ?thesis
    using assms(2) a placed_session_ensure [OF assms(1)] placed_generic_ensure [OF assms(1)]
      placed_same [OF same_pull_available assms(1)] assms(1)
    by (auto simp: entity_pull_def Let_def split: option.splits if_split_asm)
qed

lemma placed_step: "placed s \<Longrightarrow> placed (hub_step b lc e s)"
proof (cases e)
  case (Hub_sends r)
  assume p: "placed s"
  have "placed t" if "hub_send b lc r s = Inr t" for t
    using that p placed_session_ensure [OF p] placed_pull [OF p] placed_generic_release [OF p]
      placed_package_ensure [OF p] placed_package_release [OF p] placed_same [OF same_advance p]
    by (cases r) (auto split: option.splits)
  then show ?thesis using p by (simp add: Hub_sends split: sum.split)
next
  case Microtask
  assume "placed s"
  then show ?thesis
    by (simp add: Microtask microtask_def placed_def handles_def counted_def split: list.split)
qed (simp_all add: placed_connect placed_disconnect placed_same [OF same_bridge_answers] placed_same [OF same_emit(2)])

definition is_new_hub :: "hub_transport \<Rightarrow> bool" where
  "is_new_hub s \<longleftrightarrow> s = new_hub_transport"

interpretation hub_system: step_system is_new_hub "hub_step b lc" placed
proof unfold_locales
  show "placed s" if "is_new_hub s" for s
    using that by (simp add: is_new_hub_def new_hub_transport_def placed_def handles_def option_list_def counted_def)
qed (rule placed_step)

lemma run_placed: "placed (run_hub b lc es)"
  unfolding run_hub_def by (rule hub_system.run_inv) (simp add: is_new_hub_def)

subsection \<open>Demand\<close>

text \<open>What the client asked for: how many holders each family and each package event has.\<close>

type_synonym demand = "(string \<Rightarrow> nat) \<times> (event_key \<Rightarrow> nat)"

definition count_of :: "('k \<times> held) list \<Rightarrow> 'k \<Rightarrow> nat" where
  "count_of m k = (case map_of m k of None \<Rightarrow> 0 | Some e \<Rightarrow> hd_count e)"

definition abs_demand :: "hub_transport \<Rightarrow> demand" where
  "abs_demand s = (count_of (ht_generic s), count_of (ht_packages s))"

definition held_family :: "string \<Rightarrow> bool" where
  "held_family f \<longleftrightarrow> f \<notin> {status_family, session_family, session_type_family, app_family, package_navigation_family,
     package_family, spawn_target_family, available_package_family}"

fun spec_send :: "bridge \<Rightarrow> control_request \<Rightarrow> demand \<Rightarrow> demand" where
  "spec_send b (Entity_pull p) (d, e) =
     (case family_named p of
        Some f \<Rightarrow> if held_family f \<and> (br_entity_frames b \<or> 0 < d f) then (d(f := d f + 1), e) else (d, e)
      | None \<Rightarrow> (d, e))"
| "spec_send b (Entity_release p) (d, e) =
     (case family_named p of Some f \<Rightarrow> if specialized f then (d, e) else (d(f := d f - 1), e) | None \<Rightarrow> (d, e))"
| "spec_send b (Events_subscribe p) (d, e) =
     (case event_spec p of
        Some k \<Rightarrow> if br_package_events b \<or> 0 < e k then (d, e(k := e k + 1)) else (d, e)
      | None \<Rightarrow> (d, e))"
| "spec_send b (Events_release p) (d, e) =
     (case event_spec p of Some k \<Rightarrow> (d, e(k := e k - 1)) | None \<Rightarrow> (d, e))"
| "spec_send b _ d = d"

fun spec_hub :: "bridge \<Rightarrow> hub_event \<Rightarrow> demand \<Rightarrow> demand" where
  "spec_hub b Hub_disconnects d = (\<lambda>f. 0, \<lambda>k. 0)"
| "spec_hub b (Hub_sends r) d = spec_send b r d"
| "spec_hub b _ d = d"

lemma count_update [simp]: "count_of (AList.update k e m) = (count_of m)(k := hd_count e)"
  by (rule ext) (simp add: count_of_def update_conv')

lemma count_delete [simp]: "count_of (AList.delete k m) = (count_of m)(k := 0)"
  by (rule ext) (simp add: count_of_def delete_conv')

lemma count_pos: "counted x s m \<Longrightarrow> 0 < count_of m k \<longleftrightarrow> map_of m k \<noteq> None"
  using counted_entry [of x s m k] by (auto simp: count_of_def split: option.splits)

lemma abs_same: "same_subscriptions s t \<Longrightarrow> abs_demand t = abs_demand s"
  by (simp add: same_subscriptions_def demands_def abs_demand_def)

lemma abs_generic_ensure:
  assumes "placed s" "f \<noteq> session_family" "f \<noteq> session_type_family"
  shows "abs_demand (case ensure_generic_entity_subscription b f s of Inl _ \<Rightarrow> s | Inr t \<Rightarrow> t) =
    (case abs_demand s of (d, e) \<Rightarrow> if br_entity_frames b \<or> 0 < d f then (d(f := d f + 1), e) else (d, e))"
  using assms count_pos [of Entities s "ht_generic s" f]
  by (auto simp: ensure_generic_entity_subscription_def abs_demand_def open_handle_def placed_def count_of_def
      split: option.splits)

lemma abs_generic_release:
  assumes "placed s"
  shows "abs_demand (release_generic_entity_subscription f s) =
    (case abs_demand s of (d, e) \<Rightarrow> if specialized f then (d, e) else (d(f := d f - 1), e))"
proof -
  have "1 \<le> hd_count e" if "map_of (ht_generic s) f = Some e" for e
    using assms counted_entry [OF _ that] by (auto simp: placed_def)
  then show ?thesis
    by (auto simp: release_generic_entity_subscription_def abs_demand_def unsubscribe_handle_def specialized_def
        fun_eq_iff split: option.splits) (auto simp: count_of_def)
qed

lemma abs_package_ensure:
  assumes "placed s"
  shows "abs_demand (case ensure_package_event_subscription b k s of Inl _ \<Rightarrow> s | Inr t \<Rightarrow> t) =
    (case abs_demand s of (d, e) \<Rightarrow> if br_package_events b \<or> 0 < e k then (d, e(k := e k + 1)) else (d, e))"
  using assms count_pos [of Package_events s "ht_packages s" k]
  by (auto simp: ensure_package_event_subscription_def abs_demand_def open_handle_def placed_def count_of_def
      split: option.splits)

lemma abs_package_release:
  assumes "placed s"
  shows "abs_demand (release_package_event_subscription k s) = (case abs_demand s of (d, e) \<Rightarrow> (d, e(k := e k - 1)))"
proof -
  have "1 \<le> hd_count e" if "map_of (ht_packages s) k = Some e" for e
    using assms counted_entry [OF _ that] by (auto simp: placed_def)
  then show ?thesis
    by (auto simp: release_package_event_subscription_def abs_demand_def unsubscribe_handle_def
        fun_eq_iff split: option.splits) (auto simp: count_of_def)
qed

lemma abs_session_ensure:
  "abs_demand (case ensure_session_entity_subscription b s of Inl _ \<Rightarrow> s | Inr t \<Rightarrow> t) = abs_demand s"
  "abs_demand (case ensure_session_type_entity_subscription b s of Inl _ \<Rightarrow> s | Inr t \<Rightarrow> t) = abs_demand s"
  by (simp_all add: ensure_session_entity_subscription_def ensure_session_type_entity_subscription_def
      abs_demand_def open_handle_def split: option.split)

lemma abs_pull:
  assumes "placed s"
  shows "abs_demand (case entity_pull b lc p s of Inl _ \<Rightarrow> s | Inr t \<Rightarrow> t) = spec_send b (Entity_pull p) (abs_demand s)"
proof -
  obtain d e where d: "abs_demand s = (d, e)" by (cases "abs_demand s")
  have a: "abs_demand (advance lc q s) = (d, e)" for q using abs_same [OF same_advance] d by simp
  show ?thesis
  proof (cases "family_named p")
    case None
    then show ?thesis by (simp add: entity_pull_def d)
  next
    case (Some f)
    show ?thesis
    proof (cases "held_family f")
      case True
      then show ?thesis
        using abs_generic_ensure [OF assms, of f b] by (simp add: entity_pull_def Some held_family_def d Let_def)
    next
      case False
      then show ?thesis
        using abs_session_ensure [where b = b and s = s] abs_same [OF same_pull_available [where s = s and lc = lc and p = p]]
        by (simp add: entity_pull_def Some d Let_def a) (auto simp: held_family_def)
    qed
  qed
qed

lemma abs_step: "placed s \<Longrightarrow> abs_demand (hub_step b lc x s) = spec_hub b x (abs_demand s)"
proof (cases x)
  case (Hub_connects h)
  have "demands (hub_connect b lc h s) = demands s"
    by (simp only: hub_connect_def Let_def demands_advance) (simp add: demands_def open_handle_def)
  then show ?thesis by (simp add: Hub_connects demands_def abs_demand_def)
next
  case (Hub_sends r)
  assume p: "placed s"
  obtain d e where d: "abs_demand s = (d, e)" by (cases "abs_demand s")
  show ?thesis
    using abs_pull [OF p, of b lc] abs_session_ensure [where b = b and s = s] abs_generic_release [OF p]
      abs_package_ensure [OF p, of b] abs_package_release [OF p] abs_same [OF same_advance [where s = s and lc = lc]]
    by (cases r) (simp_all add: Hub_sends d split: option.split)
next
  case Hub_disconnects
  then show ?thesis by (simp add: abs_demand_def hub_disconnect_def count_of_def fun_eq_iff)
next
  case Microtask
  then show ?thesis by (simp add: abs_demand_def microtask_def split: list.split)
qed (simp_all add: abs_same [OF same_bridge_answers] abs_same [OF same_emit(2)])

subsection \<open>Disconnected\<close>

fun connects :: "hub_event \<Rightarrow> bool" where
  "connects (Hub_connects h) = True"
| "connects _ = False"

lemma ingress_ensure:
  "ensure_session_entity_subscription b s = Inr t \<Longrightarrow> ht_ingress t = ht_ingress s \<and> ht_delivered t = ht_delivered s"
  "ensure_session_type_entity_subscription b s = Inr t \<Longrightarrow> ht_ingress t = ht_ingress s \<and> ht_delivered t = ht_delivered s"
  "ensure_package_event_subscription b k s = Inr t \<Longrightarrow> ht_ingress t = ht_ingress s \<and> ht_delivered t = ht_delivered s"
  by (auto simp: ensure_session_entity_subscription_def ensure_session_type_entity_subscription_def
      ensure_package_event_subscription_def open_handle_def split: option.splits if_splits)

lemma ingress_generic:
  "ensure_generic_entity_subscription b f s = Inr t \<Longrightarrow> ht_ingress t = ht_ingress s \<and> ht_delivered t = ht_delivered s"
  using ingress_ensure
  by (auto simp: ensure_generic_entity_subscription_def open_handle_def split: option.splits if_splits)

lemma ingress_release:
  "ht_ingress (release_generic_entity_subscription f s) = ht_ingress s"
  "ht_delivered (release_generic_entity_subscription f s) = ht_delivered s"
  "ht_ingress (release_package_event_subscription k s) = ht_ingress s"
  "ht_delivered (release_package_event_subscription k s) = ht_delivered s"
  by (simp_all add: release_generic_entity_subscription_def release_package_event_subscription_def
      unsubscribe_handle_def split: option.split)

lemma ingress_same: "same_subscriptions s t \<Longrightarrow> ht_ingress t = ht_ingress s \<and> ht_delivered t = ht_delivered s"
  by (simp add: same_subscriptions_def)

lemma ingress_send:
  assumes "hub_send b lc r s = Inr t"
  shows "ht_ingress t = ht_ingress s \<and> ht_delivered t = ht_delivered s"
  using assms ingress_ensure [where b = b and s = s and t = t] ingress_generic [where b = b and s = s and t = t]
    ingress_same [OF same_advance [where s = s and lc = lc]]
    ingress_same [OF same_pull_available [where s = s and lc = lc]]
  by (cases r) (auto simp: entity_pull_def Let_def ingress_release split: option.splits if_split_asm)

lemma unheard_step:
  "ht_ingress s = None \<Longrightarrow> \<not> connects x \<Longrightarrow>
     ht_ingress (hub_step b lc x s) = None \<and> ht_delivered (hub_step b lc x s) = ht_delivered s"
  using ingress_same [OF same_bridge_answers [where s = s and lc = lc]] ingress_send [where b = b and lc = lc and s = s]
  by (cases x) (auto simp: hub_disconnect_def microtask_def emit_all_def split: sum.split list.split)

lemma unheard_run:
  "ht_ingress s = None \<Longrightarrow> list_all (\<lambda>x. \<not> connects x) es \<Longrightarrow>
     ht_delivered (fold (hub_step b lc) es s) = ht_delivered s"
  using unheard_step by (induction es arbitrary: s) auto

subsection \<open>Properties\<close>

text \<open>
  C19. A bridge subscription has one place: after any history of connects, disconnects, requests,
  answers and frames, each handle the bridge handed out is exactly one of held by the transport
  (for the family or event it was opened for), unsubscribed, or a daemon-event handle that a
  further \<open>connect\<close> replaced; so no handle is unsubscribed twice or while it is held, and after a
  disconnect none is held.
\<close>

theorem subscriptions_have_one_place:
  "let s = run_hub b lc es in
     distinct (handles s @ ht_unsubscribed s @ ht_replaced s)
     \<and> set (map fst (ht_opened s)) = set (handles s @ ht_unsubscribed s @ ht_replaced s)
     \<and> list_all (\<lambda>(f, e). (hd_handle e, Entities f) \<in> set (ht_opened s)) (ht_generic s)
     \<and> list_all (\<lambda>(k, e). (hd_handle e, Package_events k) \<in> set (ht_opened s)) (ht_packages s)
     \<and> handles (hub_disconnect s) = []"
proof -
  define s where "s = run_hub b lc es"
  have p: "placed s" by (simp add: s_def run_placed)
  then have m: "mset (map fst (ht_opened s)) = mset (handles s @ ht_unsubscribed s @ ht_replaced s)"
    by (simp add: placed_def)
  have "distinct (handles s @ ht_unsubscribed s @ ht_replaced s)"
    using p mset_eq_imp_distinct_iff [OF m] by (simp add: placed_def)
  moreover have "set (map fst (ht_opened s)) = set (handles s @ ht_unsubscribed s @ ht_replaced s)"
    using mset_eq_setD [OF m] .
  ultimately show ?thesis
    using p unfolding s_def [symmetric] Let_def
    by (auto simp: placed_def counted_def list_all_iff handles_def hub_disconnect_def option_list_def)
qed

text \<open>
  C20. The reference counts are the demand. However pulls, releases, event subscriptions and
  disconnects are ordered, the transport holds for each entity family and each package event
  exactly as many references as a plain counter that adds one per demand, takes one (at most down
  to none) per release and starts again at a disconnect; the process-wide families are never
  counted, and nothing else changes a count.
\<close>

theorem demand_refines:
  "abs_demand (run_hub b lc es) = fold (spec_hub b) es (\<lambda>f. 0, \<lambda>k. 0)"
proof -
  have "placed s \<Longrightarrow> abs_demand (fold (hub_step b lc) es s) = fold (spec_hub b) es (abs_demand s)" for s
    by (induction es arbitrary: s) (simp_all add: abs_step placed_step)
  moreover have "placed new_hub_transport" using run_placed [where es = "[]"] by (simp add: run_hub_def)
  moreover have "abs_demand new_hub_transport = (\<lambda>f. 0, \<lambda>k. 0)"
    by (simp add: abs_demand_def new_hub_transport_def count_of_def fun_eq_iff)
  ultimately show ?thesis by (simp add: run_hub_def)
qed

text \<open>
  A disconnected client hears nothing: until it connects again, no frame is delivered, whatever was
  queued, answered late or still arrives.
\<close>

theorem disconnected_hears_nothing:
  "list_all (\<lambda>x. \<not> connects x) later \<Longrightarrow>
     ht_delivered (fold (hub_step b lc) later (hub_disconnect s)) = ht_delivered s"
  using unheard_run [of "hub_disconnect s" later b lc] by (simp add: hub_disconnect_def)

end
