(* ===== verification/Hub_Entities.thy ===== *)
theory Hub_Entities
  imports Hub_Request_Laws
begin

text \<open>
  The Hub's entity frames through the projection (theory \<open>Hub_Projection\<close>) into the entity store
  (theory \<open>Entity_Store\<close>), as \<open>createBotsterWebClient\<close> (\<open>src/botster/client.ts\<close>) wires them: the
  rows the store ends with are typed, a snapshot means the upserts of its items, and a session
  type keeps the id its author gave it. And what the live harness records holds no secret.
\<close>

subsection \<open>Hub frames on the store\<close>

definition store_frame :: "hub_frame \<Rightarrow> entity_store \<Rightarrow> entity_store" where
  "store_frame f s = (case f of Entity_frame e \<Rightarrow> apply_frame e s | _ \<Rightarrow> s)"

definition hub_apply :: "daemon_frame \<Rightarrow> entity_store \<Rightarrow> entity_store" where
  "hub_apply fr s = fold store_frame (entity_frames_of fr) s"

lemma hub_apply_simps:
  "hub_apply (Hub_snapshot f q items) s =
     apply_frame (Entity_snapshot f (List.map_filter (snapshot_record f) items) (Some (of_nat q))) s"
  "hub_apply (Hub_upsert f q i v) s = (case upsert_record f i v of None \<Rightarrow> s
     | Some r \<Rightarrow> apply_frame (Entity_delta Entity_upsert f i (Some r) (Some (of_nat q))) s)"
  "hub_apply (Hub_patch f q i p) s = apply_frame (Entity_delta Entity_patch f i
     (Some (record_of i (read_config_object (Some p)))) (Some (of_nat q))) s"
  "hub_apply (Hub_remove f q i) s = apply_frame (Entity_delta Entity_remove f i None (Some (of_nat q))) s"
  "hub_apply (Hub_entity_error f c m) s = s"
  by (simp_all add: hub_apply_def entity_frames_of_def store_frame_def List.map_filter_def split: option.split)

lemma snapshot_record_canonical: "snapshot_record f v = canonical_record f (Some v)"
  by (auto simp: snapshot_record_def canonical_record_def specialized_def generic_plugin_entity_record_def
      split: option.splits)

lemma upsert_record_canonical: "canonical_record f (Some v) = Some r \<Longrightarrow> upsert_record f i v = Some r"
  by (simp add: upsert_record_def)

subsection \<open>Typed rows\<close>

text \<open>What the screens rely on: a row of a specialized family has the properties its type names.\<close>

definition session_row :: "entity_record \<Rightarrow> bool" where
  "session_row r \<longleftrightarrow> is_daemon_session_entity (Some (J_object (er_fields r)))"

definition session_type_row :: "entity_record \<Rightarrow> bool" where
  "session_type_row r \<longleftrightarrow> has_texts [''session_type_id'', ''definition_id'', ''source'', ''source_name'', ''label'', ''role'',
       ''interaction'', ''lifecycle'', ''command'', ''working_directory_policy'', ''target_id''] (Some (J_object (er_fields r)))
     \<and> has_flags [''editable'', ''available''] (Some (J_object (er_fields r)))"

definition typed_row :: "string \<Rightarrow> entity_record \<Rightarrow> bool" where
  "typed_row f r = (if f = session_family then session_row r
     else if f = session_type_family then session_type_row r else True)"

fun patches :: "string \<Rightarrow> daemon_frame \<Rightarrow> bool" where
  "patches f (Hub_patch g _ _ _) = (f = g)"
| "patches f _ = False"

lemma field_without_id:
  "k \<noteq> ''id'' \<Longrightarrow> map_of (er_fields (record_of i kvs)) k = map_of kvs k"
  by (simp add: record_of_def delete_conv')

lemma typed_record_id: "typed_row f (r\<lparr>er_id := i\<rparr>) = typed_row f r"
  by (simp add: typed_row_def session_row_def session_type_row_def)

lemma session_record_typed:
  assumes "is_daemon_session_entity v"
  shows "session_row (session_entity_record v)"
proof -
  obtain kvs where v: "v = Some (J_object kvs)"
    using assms by (auto simp: is_daemon_session_entity_def elim: is_record.elims)
  have f: "map_of (er_fields (session_entity_record v)) k = field k v" if "k \<noteq> ''id''" for k
    using field_without_id [OF that] by (simp add: session_entity_record_def v)
  show ?thesis using assms
    by (simp add: session_row_def is_daemon_session_entity_def has_texts_def has_numbers_def f)
qed

lemma session_type_record_typed:
  assumes "is_daemon_session_type v"
  shows "session_type_row (session_type_entity_record v)"
proof -
  obtain kvs where v: "v = Some (J_object kvs)"
    using assms by (auto simp: is_daemon_session_type_def elim: is_record.elims)
  have f: "map_of (er_fields (session_type_entity_record v)) k =
      (if k = ''definition_id'' then text_json (read_config_string (field ''id'' v) []) else field k v)"
    if "k \<noteq> ''id''" for k
    using field_without_id [OF that] by (simp add: session_type_entity_record_def v update_conv')
  show ?thesis using assms
    by (simp add: session_type_row_def is_daemon_session_type_def has_texts_def has_flags_def f)
qed

lemma canonical_typed: "canonical_record f v = Some r \<Longrightarrow> typed_row f r"
  by (auto simp: canonical_record_def typed_row_def session_record_typed session_type_record_typed split: if_splits)

lemma upsert_typed: "upsert_record f i v = Some r \<Longrightarrow> typed_row f r"
  using canonical_typed
  by (auto simp: upsert_record_def typed_row_def specialized_def split: option.splits if_splits)

definition rows_typed :: "string \<Rightarrow> entity_store \<Rightarrow> bool" where
  "rows_typed f s \<longleftrightarrow> (\<forall>r \<in> snd ` set (family_of f s). typed_row f r)"

lemma rows_update: "snd ` set (AList.update i r m) \<subseteq> insert r (snd ` set m)"
  by (induction m) auto

lemma rows_snapshot: "snd ` set (snapshot_records rs) \<subseteq> set rs"
proof -
  have "snd ` set (fold (\<lambda>r. AList.update (er_id r) r) rs m) \<subseteq> snd ` set m \<union> set rs" for m
  proof (induction rs arbitrary: m)
    case (Cons r rs)
    show ?case using Cons [of "AList.update (er_id r) r m"] rows_update [of "er_id r" r m] by auto
  qed simp
  from this [of "[]"] show ?thesis by (simp add: snapshot_records_def)
qed

lemma rows_delta:
  assumes "rows_typed f s" "oper \<noteq> Entity_patch \<or> g \<noteq> f" "rec = None \<or> (\<exists>r. rec = Some r \<and> (g = f \<longrightarrow> typed_row f r))"
  shows "rows_typed f (apply_frame (Entity_delta oper g i rec q) s)"
proof (cases "g = f")
  case False
  then show ?thesis using assms(1) by (simp add: rows_typed_def apply_delta_def Let_def split: option.split)
next
  case True
  let ?m = "family_of f s" and ?t = "apply_frame (Entity_delta oper g i rec q) s"
  have old: "typed_row f (snd x)" if "x \<in> set ?m" for x
    using assms(1) that by (simp add: rows_typed_def)
  have new: "typed_row f (snd x)" if "rec = Some r" "x \<in> set (AList.update i (r\<lparr>er_id := i\<rparr>) ?m)" for r x
  proof -
    have "snd x = r\<lparr>er_id := i\<rparr> \<or> snd x \<in> snd ` set ?m"
      using that(2) rows_update [of i "r\<lparr>er_id := i\<rparr>" ?m] by blast
    then show ?thesis using old assms(3) that(1) True by (auto simp: typed_record_id)
  qed
  have "family_of f ?t = (if is_stale_delta f q s then ?m else if oper = Entity_remove then AList.delete i ?m
      else (case rec of None \<Rightarrow> ?m | Some r \<Rightarrow> AList.update i (r\<lparr>er_id := i\<rparr>) ?m))"
    using assms(2) True by (simp add: apply_delta_def Let_def split: option.split)
  then consider "family_of f ?t = ?m" | "family_of f ?t = AList.delete i ?m"
    | r where "rec = Some r" "family_of f ?t = AList.update i (r\<lparr>er_id := i\<rparr>) ?m"
    by (cases rec) (metis option.case)+
  then show ?thesis
  proof cases
    case 1
    then show ?thesis using old by (simp add: rows_typed_def)
  next
    case 2
    then show ?thesis using old by (auto simp: rows_typed_def AList.delete_eq)
  next
    case 3
    then show ?thesis using new [OF 3(1)] unfolding rows_typed_def by auto
  qed
qed

lemma family_snapshot:
  "family_of g (hub_apply (Hub_snapshot f q items) s) =
     (if g = f then snapshot_records (List.map_filter (snapshot_record f) items) else family_of g s)"
  by (auto simp: hub_apply_simps Let_def family_of_def set_family_def update_conv')

lemma rows_hub_apply:
  assumes "rows_typed f s" "\<not> patches f fr"
  shows "rows_typed f (hub_apply fr s)"
proof (cases fr)
  case (Hub_snapshot g q items)
  have "set (List.map_filter (snapshot_record f) items) \<subseteq> Collect (typed_row f)"
    using canonical_typed by (auto simp: List.map_filter_def snapshot_record_canonical)
  then show ?thesis
    using assms(1) subset_trans [OF rows_snapshot [of "List.map_filter (snapshot_record f) items"], of "Collect (typed_row f)"]
    by (auto simp: Hub_snapshot rows_typed_def family_snapshot split: if_splits)
next
  case (Hub_upsert g q i v)
  have "rows_typed f (apply_frame (Entity_delta Entity_upsert g i (Some r) (Some (of_nat q))) s)"
    if "upsert_record g i v = Some r" for r
    by (rule rows_delta [OF assms(1)]) (use upsert_typed [OF that] in auto)
  then show ?thesis using assms(1) by (simp add: Hub_upsert hub_apply_simps split: option.split)
next
  case (Hub_patch g q i p)
  then show ?thesis
    using assms rows_delta [OF assms(1), of Entity_patch g]
    by (simp add: hub_apply_simps)
next
  case (Hub_remove g q i)
  then show ?thesis using rows_delta [OF assms(1), of Entity_remove g None] by (simp add: hub_apply_simps)
qed (simp add: hub_apply_simps assms(1))

subsection \<open>A snapshot and the upserts of its items\<close>

definition upserts_of :: "string \<Rightarrow> nat \<Rightarrow> json list \<Rightarrow> daemon_frame list" where
  "upserts_of f q items = List.map_filter
     (\<lambda>v. map_option (\<lambda>r. Hub_upsert f q (er_id r) v) (canonical_record f (Some v))) items"

lemma map_filter_Cons:
  "List.map_filter g (x # xs) = (case g x of None \<Rightarrow> List.map_filter g xs | Some y \<Rightarrow> y # List.map_filter g xs)"
  by (simp add: List.map_filter_def split: option.split)

definition at_sequence :: "string \<Rightarrow> nat \<Rightarrow> entity_store \<Rightarrow> bool" where
  "at_sequence f q s \<longleftrightarrow> map_of (es_sequences s) f = Some (of_nat q)"

lemma upsert_at_sequence:
  assumes "at_sequence f q s" "canonical_record f (Some v) = Some r"
  defines "t \<equiv> hub_apply (Hub_upsert f q (er_id r) v) s"
  shows "at_sequence f q t" "map_of (es_sequences t) = map_of (es_sequences s)"
    and "family_of g t = (if g = f then AList.update (er_id r) r (family_of f s) else family_of g s)"
proof -
  have t: "t = apply_delta Entity_upsert f (er_id r) (Some r) (Some (of_nat q)) s"
    by (simp add: t_def hub_apply_simps upsert_record_canonical [OF assms(2)])
  have n: "\<not> is_stale_delta f (Some (of_nat q)) s" using assms(1) by (simp add: is_stale_delta_def at_sequence_def)
  show e: "map_of (es_sequences t) = map_of (es_sequences s)"
    using assms(1) n by (auto simp: t apply_delta_def Let_def newer_def at_sequence_def fun_eq_iff)
  then show "at_sequence f q t" using assms(1) by (simp add: at_sequence_def)
  show "family_of g t = (if g = f then AList.update (er_id r) r (family_of f s) else family_of g s)"
    using n by (simp add: t apply_delta_def Let_def)
qed

lemma upserts_fold:
  assumes "at_sequence f q s"
  shows "family_of g (fold hub_apply (upserts_of f q items) s) =
      (if g = f then fold (\<lambda>r. AList.update (er_id r) r) (List.map_filter (snapshot_record f) items) (family_of f s)
       else family_of g s)
    \<and> map_of (es_sequences (fold hub_apply (upserts_of f q items) s)) = map_of (es_sequences s)"
  using assms
proof (induction items arbitrary: s)
  case Nil
  then show ?case by (simp add: upserts_of_def List.map_filter_def)
next
  case (Cons v items)
  show ?case
  proof (cases "canonical_record f (Some v)")
    case None
    then show ?thesis using Cons by (simp add: upserts_of_def map_filter_Cons snapshot_record_canonical)
  next
    case (Some r)
    note u = upsert_at_sequence [OF Cons.prems Some]
    show ?thesis using Cons.IH [OF u(1)] u(2,3) Some
      by (simp add: upserts_of_def map_filter_Cons snapshot_record_canonical)
  qed
qed

subsection \<open>Properties\<close>

text \<open>
  C15. The rows of the session and session-type families are typed: whatever snapshots, upserts,
  removals and errors the Hub sends for any families, and whatever patches it sends for other
  families, each row the store lists for the family has the properties its Hub type requires with
  their types; entries that lack one are left out.
\<close>

theorem session_rows_typed:
  "if list_ex (patches f) frs then True
   else list_all (typed_row f) (list_records f (fold hub_apply frs empty_store))"
proof -
  have "rows_typed f s \<Longrightarrow> \<not> list_ex (patches f) frs \<Longrightarrow> rows_typed f (fold hub_apply frs s)" for s
    by (induction frs arbitrary: s) (auto simp: rows_hub_apply)
  moreover have "rows_typed f empty_store" by (simp add: rows_typed_def empty_store_def family_of_def)
  ultimately show ?thesis by (auto simp: rows_typed_def list_records_def list_all_iff)
qed

text \<open>
  C29. A snapshot is equivalent to an empty snapshot followed by one upsert per item: from any store
  they leave the same rows in the same order in every family and the same sequence numbers, for
  any family, items of any shape (those that do not project are dropped by both), repeated ids
  included.
\<close>

theorem snapshot_equals_upserts:
  "let one = hub_apply (Hub_snapshot f q items) s;
       many = fold hub_apply (Hub_snapshot f q [] # upserts_of f q items) s
   in family_of g one = family_of g many \<and> map_of (es_sequences one) = map_of (es_sequences many)"
proof -
  define e where "e = hub_apply (Hub_snapshot f q []) s"
  have e: "at_sequence f q e" "family_of f e = []" "family_of g e = (if g = f then [] else family_of g s)"
    "map_of (es_sequences e) = (map_of (es_sequences s))(f := Some (of_nat q))"
    by (auto simp: e_def hub_apply_simps Let_def at_sequence_def family_of_def set_family_def snapshot_records_def
        List.map_filter_def update_conv' fun_eq_iff)
  have "map_of (es_sequences (hub_apply (Hub_snapshot f q items) s)) = (map_of (es_sequences s))(f := Some (of_nat q))"
    by (auto simp: hub_apply_simps Let_def update_conv' fun_eq_iff)
  then show ?thesis
    using upserts_fold [OF e(1), of g items] e family_snapshot [of g f q items s]
    by (simp add: Let_def e_def [symmetric] snapshot_records_def)
qed

text \<open>
  A session type is stored under its composite id and keeps the id its author gave it, which is
  what edits and deletions are addressed by: after the Hub upserts a well-formed session type, the
  store answers for its id with the bare id as \<open>definition_id\<close> and the composite id as
  \<open>session_type_id\<close>.
\<close>

theorem session_type_keeps_definition_id:
  assumes "is_daemon_session_type (Some v)" "field ''id'' (Some v) = text_json i"
    and "field ''session_type_id'' (Some v) = text_json c" "\<not> is_stale_delta session_type_family (Some (of_nat q)) s"
  shows "case get_record session_type_family c (hub_apply (Hub_upsert session_type_family q c v) s) of
      None \<Rightarrow> False
    | Some r \<Rightarrow> er_id r = c \<and> map_of (er_fields r) ''definition_id'' = text_json i
        \<and> map_of (er_fields r) ''session_type_id'' = text_json c"
proof -
  have r: "canonical_record session_type_family (Some v) = Some (session_type_entity_record (Some v))"
    using assms(1) by (simp add: canonical_record_def families)
  obtain kvs where v: "v = J_object kvs"
    using assms(1) by (auto simp: is_daemon_session_type_def elim: is_record.elims)
  have "hub_apply (Hub_upsert session_type_family q c v) s =
      apply_delta Entity_upsert session_type_family c (Some (session_type_entity_record (Some v))) (Some (of_nat q)) s"
    by (simp add: hub_apply_simps upsert_record_canonical [OF r])
  then have "get_record session_type_family c (hub_apply (Hub_upsert session_type_family q c v) s) =
      Some ((session_type_entity_record (Some v))\<lparr>er_id := c\<rparr>)"
    using assms(4) by (simp add: get_record_def apply_delta_def Let_def update_conv')
  then show ?thesis
    using assms(2,3) by (simp add: session_type_entity_record_def v field_without_id update_conv')
qed

definition sample_session_type :: json where
  "sample_session_type = obj
     [(''session_type_id'', text_json ''repo/dev''), (''id'', text_json ''dev''), (''source'', text_json ''repo''),
      (''source_name'', text_json ''repo''), (''editable'', flag_json True), (''label'', text_json ''Dev''),
      (''role'', text_json ''agent''), (''interaction'', text_json ''terminal''), (''lifecycle'', text_json ''task''),
      (''command'', text_json ''run''), (''working_directory_policy'', text_json ''package_root''),
      (''target_id'', text_json ''t1''), (''available'', flag_json True)]"

lemma session_type_keeps_definition_id_witness:
  "(case get_record ''session_type'' ''repo/dev''
        (hub_apply (Hub_upsert session_type_family 3 ''repo/dev'' sample_session_type) empty_store) of
      None \<Rightarrow> False | Some r \<Rightarrow> map_of (er_fields r) ''definition_id'' = text_json ''dev'')"
proof -
  have "is_daemon_session_type (Some sample_session_type)"
    "field ''id'' (Some sample_session_type) = text_json ''dev''"
    "field ''session_type_id'' (Some sample_session_type) = text_json ''repo/dev''"
    by (simp_all add: sample_session_type_def is_daemon_session_type_def has_texts_def has_flags_def
        exI [of "\<lambda>x. x" True])
  moreover have "\<not> is_stale_delta session_type_family (Some (of_nat 3)) empty_store"
    by (simp add: is_stale_delta_def empty_store_def)
  ultimately show ?thesis
    using session_type_keeps_definition_id [of sample_session_type "''dev''" "''repo/dev''" 3 empty_store]
    by (auto simp: session_type_family_def split: option.splits)
qed

text \<open>
  The live harness never records a grant secret: in what it records, at any depth, every value
  under \<open>grant_secret\<close> is the redaction mark, and a payload that has no such key is recorded as it
  is.
\<close>

theorem recorded_payload_redacted:
  "list_all (\<lambda>x. x = J_string ''[redacted]'') (granted_secrets (redacted_harness_payload v))
   \<and> (if granted_secrets v = [] then redacted_harness_payload v = v else True)"
  using granted_secrets_redacted [of _ v] redacted_unchanged [of v] by (auto simp: list_all_iff)

end
