(* ===== verification/Plugin_Logs.thy ===== *)
theory Plugin_Logs
  imports Base
begin

text \<open>
  The plugin log view of one package: the pages and the cursor of \<open>src/botster/pluginLogs.ts\<close> and
  the reads of \<open>src/app/usePluginLogs.ts\<close>.

  \<^item> The hook's refs and its React state are one record; an owner is the package with the serial of
    the object \<open>useMemo\<close> makes for it; an effect that runs for a new owner is a step.
  \<^item> A dispatched read is a call with the epoch and the owner its closure holds.
  \<^item> What the Hub answers is the function \<open>hub\<close>: the answer to a read of an owner at a time.
\<close>

subsection \<open>Pages\<close>

record log_record =
  lr_seq :: nat
  lr_generation :: nat
  lr_at_ms :: nat
  lr_level :: string
  lr_message :: string
  lr_fields_json :: "string option"
  lr_dropped_before :: nat

record plugin_logs =
  pl_package_name :: string
  pl_records :: "log_record list"
  pl_next_seq :: nat
  pl_first_available_seq :: nat
  pl_log_id :: "string option"

record log_page =
  lp_package_name :: string
  lp_records :: "log_record list"
  lp_next_seq :: nat
  lp_evicted :: "(nat \<times> nat) option"
  lp_rate_limited :: "(nat \<times> nat) list"

definition plugin_log_page :: "plugin_logs \<Rightarrow> nat option \<Rightarrow> log_page" where
  "plugin_log_page logs after_seq =
     (let first_unread = (case after_seq of None \<Rightarrow> 0 | Some n \<Rightarrow> n) + 1 in
      \<lparr>lp_package_name = pl_package_name logs, lp_records = pl_records logs, lp_next_seq = pl_next_seq logs,
       lp_evicted = (if first_unread < pl_first_available_seq logs
         then Some (first_unread, pl_first_available_seq logs - 1) else None),
       lp_rate_limited = map (\<lambda>r. (lr_seq r, lr_dropped_before r))
         (filter (\<lambda>r. 0 < lr_dropped_before r) (pl_records logs))\<rparr>)"

subsection \<open>The view\<close>

record log_view =
  lv_loaded :: bool
  lv_log_id :: "string option"
  lv_cursor :: nat
  lv_records :: "log_record list"
  lv_evicted :: "(nat \<times> nat) list"
  lv_restarted :: bool

record log_read =
  ld_after_seq :: nat
  ld_reset :: bool

definition empty_plugin_log_view :: log_view where
  "empty_plugin_log_view = \<lparr>lv_loaded = False, lv_log_id = None, lv_cursor = 0, lv_records = [],
     lv_evicted = [], lv_restarted = False\<rparr>"

datatype read_kind = Open | Newer

definition next_plugin_log_read :: "log_view \<Rightarrow> read_kind \<Rightarrow> log_read" where
  "next_plugin_log_read v kind =
     (if kind = Open \<or> \<not> lv_loaded v then \<lparr>ld_after_seq = 0, ld_reset = False\<rparr>
      else \<lparr>ld_after_seq = lv_cursor v, ld_reset = False\<rparr>)"

definition last_seq :: "log_record list \<Rightarrow> nat \<Rightarrow> nat" where
  "last_seq rs d = (if rs = [] then d else lr_seq (last rs))"

definition view_from_page :: "plugin_logs \<Rightarrow> bool \<Rightarrow> log_view" where
  "view_from_page logs restarted =
     (let records = sort_key lr_seq (pl_records logs); first = pl_first_available_seq logs in
      \<lparr>lv_loaded = True, lv_log_id = pl_log_id logs, lv_cursor = max (last_seq records 0) (first - 1),
       lv_records = records, lv_evicted = (if 1 < first then [(1, first - 1)] else []), lv_restarted = restarted\<rparr>)"

definition apply_plugin_log_page :: "log_view \<Rightarrow> plugin_logs \<Rightarrow> log_read \<Rightarrow> log_view \<times> log_read option" where
  "apply_plugin_log_page v logs r =
     (if ld_reset r then (view_from_page logs (lv_loaded v), None)
      else if \<not> lv_loaded v then (view_from_page logs False, None)
      else if pl_log_id logs \<noteq> lv_log_id v then (v, Some \<lparr>ld_after_seq = 0, ld_reset = True\<rparr>)
      else let fresh = sort_key lr_seq (filter (\<lambda>x. lv_cursor v < lr_seq x) (pl_records logs));
               first = pl_first_available_seq logs
           in (v\<lparr>lv_cursor := max (max (last_seq fresh (lv_cursor v)) (first - 1)) (lv_cursor v),
                 lv_records := lv_records v @ fresh,
                 lv_evicted := (if lv_cursor v + 1 < first
                    then lv_evicted v @ [(lv_cursor v + 1, first - 1)] else lv_evicted v),
                 lv_restarted := False\<rparr>, None))"

definition plugin_log_refusal_message :: "string option \<Rightarrow> string option \<Rightarrow> string" where
  "plugin_log_refusal_message error_kind reason =
     (if error_kind = Some ''plugin_logs_capacity'' then ''The Hub could not fund a copy of this page; try again.''
      else (case reason of Some r \<Rightarrow> r | None \<Rightarrow> ''Plugin logs could not be read.''))"

subsection \<open>The reads\<close>

datatype log_status = Log_idle | Log_loading | Log_refused string

record log_owner =
  lo_package :: nat
  lo_serial :: nat

record log_call =
  lc_epoch :: nat
  lc_owner :: log_owner
  lc_read :: log_read

record log_reader =
  lg_owner :: log_owner
  lg_epoch :: nat
  lg_view :: log_view
  lg_in_flight :: bool
  lg_failed :: "log_read option"
  lg_shown :: "log_owner \<times> log_view \<times> log_status"
  lg_calls :: "(nat \<times> log_call) list"
  lg_next_call :: nat

text \<open>The action's result: a page, a refusal with its error kind and reason, or a failed dispatch.\<close>

datatype log_answer =
    Page plugin_logs
  | Refused "string option" "string option"
  | Dispatch_failed "string option"

definition run_read :: "log_read \<Rightarrow> log_reader \<Rightarrow> log_reader" where
  "run_read r s = s\<lparr>lg_calls := lg_calls s @ [(lg_next_call s, \<lparr>lc_epoch = lg_epoch s, lc_owner = lg_owner s, lc_read = r\<rparr>)],
     lg_next_call := lg_next_call s + 1\<rparr>"

definition show_view :: "log_status \<Rightarrow> log_reader \<Rightarrow> log_reader" where
  "show_view st s = s\<lparr>lg_shown := (lg_owner s, lg_view s, st)\<rparr>"

definition begin_read :: "log_read \<Rightarrow> log_reader \<Rightarrow> log_reader" where
  "begin_read r s = run_read r (s\<lparr>lg_in_flight := True\<rparr>)"

definition refuse_read :: "log_read \<Rightarrow> string \<Rightarrow> log_reader \<Rightarrow> log_reader" where
  "refuse_read r message s = show_view (Log_refused message) (s\<lparr>lg_in_flight := False, lg_failed := Some r\<rparr>)"

definition read_answered :: "log_read \<Rightarrow> log_answer \<Rightarrow> log_reader \<Rightarrow> log_reader" where
  "read_answered r a s =
     (case a of
        Refused error_kind reason \<Rightarrow> refuse_read r (plugin_log_refusal_message error_kind reason) s
      | Dispatch_failed message \<Rightarrow>
          refuse_read r (case message of Some m \<Rightarrow> m | None \<Rightarrow> ''Plugin logs could not be read.'') s
      | Page logs \<Rightarrow>
          (let (v, follow_up) = apply_plugin_log_page (lg_view s) logs r;
               t = s\<lparr>lg_view := v, lg_failed := None\<rparr>
           in (case follow_up of
                 Some f \<Rightarrow> run_read f (show_view Log_loading t)
               | None \<Rightarrow> show_view Log_idle (t\<lparr>lg_in_flight := False\<rparr>))))"

definition call_settles :: "nat \<Rightarrow> log_answer \<Rightarrow> log_reader \<Rightarrow> log_reader" where
  "call_settles i a s =
     (case map_of (lg_calls s) i of None \<Rightarrow> s
      | Some c \<Rightarrow>
          let t = s\<lparr>lg_calls := AList.delete i (lg_calls s)\<rparr> in
          if lc_epoch c \<noteq> lg_epoch s then t else read_answered (lc_read c) a t)"

definition unmount :: "log_reader \<Rightarrow> log_reader" where
  "unmount s = s\<lparr>lg_epoch := lg_epoch s + 1, lg_in_flight := False\<rparr>"

text \<open>A new owner: the old effect's clean-up, then the effect.\<close>

definition new_owner :: "nat \<Rightarrow> log_reader \<Rightarrow> log_reader" where
  "new_owner package s =
     (let s = unmount s;
          s = s\<lparr>lg_owner := \<lparr>lo_package = package, lo_serial = lg_epoch s + 1\<rparr>, lg_epoch := lg_epoch s + 1, lg_view := empty_plugin_log_view, lg_failed := None,
                lg_in_flight := False\<rparr>
      in begin_read (next_plugin_log_read empty_plugin_log_view Open) s)"

definition load_newer :: "log_reader \<Rightarrow> log_reader" where
  "load_newer s = (if lg_in_flight s then s
     else begin_read (next_plugin_log_read (lg_view s) Newer) (show_view Log_loading s))"

definition retry :: "log_reader \<Rightarrow> log_reader" where
  "retry s = (case lg_failed s of None \<Rightarrow> s
     | Some r \<Rightarrow> if lg_in_flight s then s else begin_read r (show_view Log_loading s))"

text \<open>What the component renders: an empty, loading view until the owner's first answer.\<close>

definition rendered :: "log_reader \<Rightarrow> log_view \<times> log_status" where
  "rendered s = (case lg_shown s of (ow, v, st) \<Rightarrow>
     if ow = lg_owner s then (v, st) else (empty_plugin_log_view, Log_loading))"

text \<open>The component mounts for its first owner.\<close>

definition mounted :: "nat \<Rightarrow> log_reader" where
  "mounted package = begin_read (next_plugin_log_read empty_plugin_log_view Open)
     \<lparr>lg_owner = \<lparr>lo_package = package, lo_serial = 1\<rparr>, lg_epoch = 1, lg_view = empty_plugin_log_view, lg_in_flight = False, lg_failed = None,
      lg_shown = (\<lparr>lo_package = package, lo_serial = 1\<rparr>, empty_plugin_log_view, Log_loading), lg_calls = [], lg_next_call = 0\<rparr>"

datatype log_event =
    Owner_changes nat
  | Load_newer
  | Retry
  | Unmount
  | Call_settles nat nat

type_synonym log_hub = "nat \<Rightarrow> nat \<Rightarrow> log_read \<Rightarrow> log_answer"

fun log_step :: "log_hub \<Rightarrow> log_event \<Rightarrow> log_reader \<Rightarrow> log_reader" where
  "log_step hub (Owner_changes package) s = new_owner package s"
| "log_step hub Load_newer s = load_newer s"
| "log_step hub Retry s = retry s"
| "log_step hub Unmount s = unmount s"
| "log_step hub (Call_settles i n) s =
     (case map_of (lg_calls s) i of None \<Rightarrow> s
      | Some c \<Rightarrow> call_settles i (hub n (lo_package (lc_owner c)) (lc_read c)) s)"

definition run_logs :: "log_hub \<Rightarrow> nat \<Rightarrow> log_event list \<Rightarrow> log_reader" where
  "run_logs hub package es = fold (log_step hub) es (mounted package)"

subsection \<open>What the Hub's pages promise\<close>

text \<open>
  \<open>book ow i\<close> is the log an owner's package keeps under a log id: its records in order of their
  sequence numbers, from 1. A page holds, of the log it names, every record after the cursor that
  is still retained, up to the page's last one.
\<close>

type_synonym log_book = "nat \<Rightarrow> string option \<Rightarrow> log_record list"

definition well_kept :: "log_book \<Rightarrow> bool" where
  "well_kept book \<longleftrightarrow> (\<forall>ow i. sorted_wrt (<) (map lr_seq (book ow i)) \<and> (\<forall>r \<in> set (book ow i). 1 \<le> lr_seq r))"

definition honest_page :: "log_book \<Rightarrow> nat \<Rightarrow> log_read \<Rightarrow> plugin_logs \<Rightarrow> bool" where
  "honest_page book ow r logs \<longleftrightarrow>
     (let low = max (ld_after_seq r) (pl_first_available_seq logs - 1);
          top = last_seq (sort_key lr_seq (pl_records logs)) low
      in distinct (pl_records logs)
         \<and> set (pl_records logs) = {x \<in> set (book ow (pl_log_id logs)). low < lr_seq x \<and> lr_seq x \<le> top})"

definition honest_hub :: "log_book \<Rightarrow> log_hub \<Rightarrow> bool" where
  "honest_hub book hub \<longleftrightarrow> well_kept book \<and>
     (\<forall>n ow r. case hub n ow r of Page logs \<Rightarrow> honest_page book ow r logs | _ \<Rightarrow> True)"

definition evicted_in :: "(nat \<times> nat) list \<Rightarrow> nat \<Rightarrow> bool" where
  "evicted_in gaps q \<longleftrightarrow> list_ex (\<lambda>(a, b). a \<le> q \<and> q \<le> b) gaps"

end
