(* ===== verification/Plugin_Log_Laws.thy ===== *)
theory Plugin_Log_Laws
  imports Plugin_Logs
begin

text \<open>
  Laws of the plugin log view: with a Hub that answers honestly the view is the log, gap-free up to
  its cursor; one read at a time; a click costs at most two requests; a late answer is ignored.
\<close>

subsection \<open>Pages\<close>

lemma sort_page:
  assumes "sorted_wrt (<) (map lr_seq book)" "distinct xs" "set xs \<subseteq> set book"
  shows "sorted_wrt (<) (map lr_seq (sort_key lr_seq xs))"
proof -
  have "inj_on lr_seq (set book)" using assms(1) by (simp add: strict_sorted_iff distinct_map)
  then have "distinct (map lr_seq (sort_key lr_seq xs))"
    using assms(2,3) by (auto simp: distinct_map intro: inj_on_subset)
  then show ?thesis by (simp add: strict_sorted_iff)
qed

lemma last_seq_max: "sorted_wrt (<) (map lr_seq rs) \<Longrightarrow> x \<in> set rs \<Longrightarrow> lr_seq x \<le> last_seq rs d"
proof (induction rs rule: rev_induct)
  case (snoc y rs)
  then show ?case by (auto simp: last_seq_def sorted_wrt_append less_imp_le)
qed simp

lemma last_seq_low: "(\<forall>x \<in> set rs. low < lr_seq x) \<Longrightarrow> c \<le> low \<Longrightarrow> max (last_seq rs c) low = last_seq rs low"
  by (cases rs rule: rev_cases) (auto simp: last_seq_def)

definition view_ok :: "log_book \<Rightarrow> nat \<Rightarrow> log_view \<Rightarrow> bool" where
  "view_ok book p v \<longleftrightarrow>
     (if \<not> lv_loaded v then v = empty_plugin_log_view
      else sorted_wrt (<) (map lr_seq (lv_records v))
        \<and> set (lv_records v) = {x \<in> set (book p (lv_log_id v)). lr_seq x \<le> lv_cursor v
            \<and> \<not> evicted_in (lv_evicted v) (lr_seq x)}
        \<and> (\<forall>(a, b) \<in> set (lv_evicted v). b \<le> lv_cursor v))"

definition read_fits :: "log_read \<Rightarrow> log_view \<Rightarrow> bool" where
  "read_fits r v \<longleftrightarrow> ld_after_seq r = (if ld_reset r \<or> \<not> lv_loaded v then 0 else lv_cursor v)"

lemma honest_records:
  assumes "well_kept book" "honest_page book p r logs"
  defines "low \<equiv> max (ld_after_seq r) (pl_first_available_seq logs - 1)"
    and "rs \<equiv> sort_key lr_seq (pl_records logs)"
  shows "sorted_wrt (<) (map lr_seq rs)" "\<forall>x \<in> set rs. low < lr_seq x"
    and "set rs = {x \<in> set (book p (pl_log_id logs)). low < lr_seq x \<and> lr_seq x \<le> last_seq rs low}"
proof -
  have h: "distinct (pl_records logs)"
    "set (pl_records logs) = {x \<in> set (book p (pl_log_id logs)). low < lr_seq x \<and> lr_seq x \<le> last_seq rs low}"
    using assms(2) unfolding honest_page_def Let_def low_def rs_def by simp_all
  show "sorted_wrt (<) (map lr_seq rs)"
    unfolding rs_def by (rule sort_page [of "book p (pl_log_id logs)"])
      (use assms(1) h in \<open>auto simp: well_kept_def\<close>)
  show "\<forall>x \<in> set rs. low < lr_seq x" using h(2) by (simp add: rs_def)
  show "set rs = {x \<in> set (book p (pl_log_id logs)). low < lr_seq x \<and> lr_seq x \<le> last_seq rs low}"
    using h(2) by (simp add: rs_def)
qed

lemma first_page_ok:
  assumes "well_kept book" "honest_page book p r logs" "ld_after_seq r = 0"
  shows "view_ok book p (view_from_page logs b)"
proof -
  note h = honest_records [OF assms(1,2)]
  let ?rs = "sort_key lr_seq (pl_records logs)" and ?low = "pl_first_available_seq logs - 1"
  have c: "max (last_seq ?rs 0) ?low = last_seq ?rs ?low"
    using last_seq_low [of ?rs ?low 0] h(2) assms(3) by simp
  have pos: "1 \<le> lr_seq x" if "x \<in> set (book p (pl_log_id logs))" for x
    using assms(1) that by (auto simp: well_kept_def)
  have le: "?low \<le> last_seq ?rs ?low" using c by (metis max.cobounded2)
  have e: "evicted_in (if 1 < pl_first_available_seq logs then [(1, ?low)] else []) q = (1 \<le> q \<and> q \<le> ?low)" for q
    by (auto simp: evicted_in_def)
  have s: "set ?rs = {x \<in> set (book p (pl_log_id logs)). lr_seq x \<le> last_seq ?rs ?low \<and> \<not> (1 \<le> lr_seq x \<and> lr_seq x \<le> ?low)}"
    using h(3) assms(3) pos by (auto simp del: set_sort)
  show ?thesis
    using h(1) s e le unfolding view_ok_def view_from_page_def Let_def
    by (simp add: c del: set_sort One_nat_def)
qed

lemma newer_page_ok:
  assumes "well_kept book" "honest_page book p r logs" "ld_after_seq r = lv_cursor v"
    and "view_ok book p v" "lv_loaded v" "pl_log_id logs = lv_log_id v" "\<not> ld_reset r"
  shows "view_ok book p (fst (apply_plugin_log_page v logs r))"
proof -
  note h = honest_records [OF assms(1,2), unfolded assms(3,6)]
  let ?rs = "sort_key lr_seq (pl_records logs)" and ?first = "pl_first_available_seq logs"
  let ?low = "max (lv_cursor v) (?first - 1)" and ?b = "book p (lv_log_id v)"
  have f: "filter (\<lambda>x. lv_cursor v < lr_seq x) (pl_records logs) = pl_records logs"
    using h(2) by (auto simp: filter_id_conv)
  have c: "max (max (last_seq ?rs (lv_cursor v)) (?first - 1)) (lv_cursor v) = last_seq ?rs ?low"
    using last_seq_low [of ?rs ?low "lv_cursor v"] h(2) by (simp add: max.commute max.left_commute)
  have le: "?low \<le> last_seq ?rs ?low" using last_seq_low [of ?rs ?low ?low] h(2) by (metis max.cobounded2 order_refl)
  have v: "sorted_wrt (<) (map lr_seq (lv_records v))" "\<forall>(a, b) \<in> set (lv_evicted v). b \<le> lv_cursor v"
    "set (lv_records v) = {x \<in> set ?b. lr_seq x \<le> lv_cursor v \<and> \<not> evicted_in (lv_evicted v) (lr_seq x)}"
    using assms(4,5) by (simp_all add: view_ok_def)
  let ?gaps = "if lv_cursor v + 1 < ?first then lv_evicted v @ [(lv_cursor v + 1, ?first - 1)] else lv_evicted v"
  have old: "\<not> evicted_in (lv_evicted v) q" if "lv_cursor v < q" for q
    using v(2) that by (fastforce simp: evicted_in_def list_ex_iff)
  have e: "evicted_in ?gaps q = (evicted_in (lv_evicted v) q \<or> lv_cursor v < q \<and> q \<le> ?first - 1)" for q
    by (auto simp: evicted_in_def)
  have s: "set (lv_records v) \<union> set ?rs = {x \<in> set ?b. lr_seq x \<le> last_seq ?rs ?low \<and> \<not> evicted_in ?gaps (lr_seq x)}"
    unfolding v(3) h(3) e using old le by (auto simp: not_le)
  have w: "sorted_wrt (<) (map lr_seq (lv_records v @ ?rs))"
    using v(1,3) h(1,2) by (auto simp: sorted_wrt_append simp del: set_sort)
  have g: "\<forall>(a, b) \<in> set ?gaps. b \<le> last_seq ?rs ?low" using v(2) le by (auto split: if_splits)
  have "apply_plugin_log_page v logs r = (v\<lparr>lv_cursor := last_seq ?rs ?low, lv_records := lv_records v @ ?rs,
      lv_evicted := ?gaps, lv_restarted := False\<rparr>, None)"
    using assms(5-7) unfolding apply_plugin_log_page_def Let_def f c by simp
  then show ?thesis using w s g assms(5) by (simp add: view_ok_def del: set_sort)
qed

lemma page_ok:
  assumes "well_kept book" "honest_page book p r logs" "read_fits r v" "view_ok book p v"
    and "apply_plugin_log_page v logs r = (w, f)"
  shows "view_ok book p w"
    and "f \<noteq> None \<Longrightarrow> w = v \<and> \<not> ld_reset r \<and> f = Some \<lparr>ld_after_seq = 0, ld_reset = True\<rparr>"
proof -
  show "view_ok book p w"
  proof (cases "ld_reset r \<or> \<not> lv_loaded v")
    case True
    then have "ld_after_seq r = 0" using assms(3) by (simp add: read_fits_def)
    then show ?thesis using first_page_ok [OF assms(1,2)] assms(5) True
      by (auto simp: apply_plugin_log_page_def split: if_splits)
  next
    case False
    then have a: "ld_after_seq r = lv_cursor v" using assms(3) by (simp add: read_fits_def)
    show ?thesis
    proof (cases "pl_log_id logs = lv_log_id v")
      case True
      then show ?thesis using newer_page_ok [OF assms(1,2) a assms(4)] False assms(5) by simp
    next
      case other: False
      then show ?thesis using assms(4,5) False by (simp add: apply_plugin_log_page_def)
    qed
  qed
  show "f \<noteq> None \<Longrightarrow> w = v \<and> \<not> ld_reset r \<and> f = Some \<lparr>ld_after_seq = 0, ld_reset = True\<rparr>"
    using assms(5) by (auto simp: apply_plugin_log_page_def Let_def split: if_splits)
qed

subsection \<open>The reader\<close>

text \<open>The calls of the current epoch; at most one, while a read is in flight, for the view as it is.\<close>

definition current_calls :: "log_reader \<Rightarrow> (nat \<times> log_call) list" where
  "current_calls s = filter (\<lambda>x. lc_epoch (snd x) = lg_epoch s) (lg_calls s)"

definition reader_ok :: "(nat \<Rightarrow> log_view \<Rightarrow> bool) \<Rightarrow> log_reader \<Rightarrow> bool" where
  "reader_ok ok s \<longleftrightarrow> ok (lo_package (lg_owner s)) (lg_view s)
     \<and> length (current_calls s) = (if lg_in_flight s then 1 else 0)
     \<and> (\<forall>x \<in> set (lg_calls s). lc_epoch (snd x) \<le> lg_epoch s)
     \<and> (\<forall>x \<in> set (lg_calls s). fst x < lg_next_call s)
     \<and> (\<forall>x \<in> set (current_calls s). lc_owner (snd x) = lg_owner s \<and> read_fits (lc_read (snd x)) (lg_view s))
     \<and> (\<forall>r \<in> set_option (lg_failed s). read_fits r (lg_view s))
     \<and> distinct (map fst (lg_calls s))"

text \<open>A property \<open>ok\<close> of a package's view that the empty view has and every answered page keeps.\<close>

definition pages_keep :: "(nat \<Rightarrow> log_view \<Rightarrow> bool) \<Rightarrow> log_hub \<Rightarrow> bool" where
  "pages_keep ok hub \<longleftrightarrow> (\<forall>p. ok p empty_plugin_log_view)
     \<and> (\<forall>n p r logs v. hub n p r = Page logs \<longrightarrow> read_fits r v \<longrightarrow> ok p v
          \<longrightarrow> ok p (fst (apply_plugin_log_page v logs r)))"

lemma next_read_fits: "read_fits (next_plugin_log_read v Newer) v"
  "read_fits (next_plugin_log_read empty_plugin_log_view k) empty_plugin_log_view"
  by (auto simp: read_fits_def next_plugin_log_read_def empty_plugin_log_view_def)

lemma empty_view_ok: "view_ok book p empty_plugin_log_view"
  by (simp add: view_ok_def empty_plugin_log_view_def)

lemma current_later:
  assumes "reader_ok ok s" "lg_calls t = lg_calls s" "lg_epoch s < lg_epoch t"
  shows "current_calls t = []"
  using assms by (fastforce simp: current_calls_def filter_empty_conv reader_ok_def)

lemma reader_okI:
  assumes "reader_ok ok s" "lg_calls t = lg_calls s" "lg_next_call t = lg_next_call s" "lg_epoch s < lg_epoch t"
    and "\<not> lg_in_flight t" "ok (lo_package (lg_owner t)) (lg_view t)"
    and "lg_failed t = None \<or> lg_failed t = lg_failed s \<and> lg_view t = lg_view s"
  shows "reader_ok ok t"
proof -
  have "\<forall>x \<in> set (lg_calls t). lc_epoch (snd x) \<le> lg_epoch t"
    using assms(1,2,4) by (fastforce simp: reader_ok_def)
  moreover have "\<forall>r \<in> set_option (lg_failed t). read_fits r (lg_view t)"
    using assms(1,7) by (auto simp: reader_ok_def)
  ultimately show ?thesis
    using assms(1-3,5,6) current_later [OF assms(1,2,4)] by (simp add: reader_ok_def)
qed

lemma run_read_ok:
  assumes "reader_ok ok (s\<lparr>lg_in_flight := False\<rparr>)" "read_fits r (lg_view s)" "lg_in_flight s"
  shows "reader_ok ok (run_read r s)"
  using assms by (auto simp: reader_ok_def run_read_def current_calls_def)

lemma begin_read_ok:
  assumes "reader_ok ok s" "\<not> lg_in_flight s" "read_fits r (lg_view s)"
  shows "reader_ok ok (begin_read r s)"
proof -
  have "reader_ok ok (s\<lparr>lg_in_flight := True, lg_in_flight := False\<rparr>)"
    using assms(1,2) by (simp add: reader_ok_def current_calls_def)
  then show ?thesis unfolding begin_read_def by (intro run_read_ok) (use assms in simp_all)
qed

lemma reader_ok_shown [simp]: "reader_ok ok (s\<lparr>lg_shown := x\<rparr>) = reader_ok ok s"
  by (simp add: reader_ok_def current_calls_def)

lemma show_view_ok [simp]: "reader_ok ok (show_view st s) = reader_ok ok s"
  by (simp add: show_view_def)

lemma show_view_same [simp]: "lg_view (show_view st s) = lg_view s" "lg_in_flight (show_view st s) = lg_in_flight s"
  by (simp_all add: show_view_def)

lemma unmount_ok: "reader_ok ok s \<Longrightarrow> reader_ok ok (unmount s)"
  by (rule reader_okI [of ok s]) (simp_all add: unmount_def reader_ok_def)

lemma new_owner_ok: "ok p empty_plugin_log_view \<Longrightarrow> reader_ok ok s \<Longrightarrow> reader_ok ok (new_owner p s)"
  unfolding new_owner_def Let_def
  by (rule begin_read_ok, rule reader_okI [of ok s]) (simp_all add: unmount_def next_read_fits)

lemma load_newer_ok: "reader_ok ok s \<Longrightarrow> reader_ok ok (load_newer s)"
  unfolding load_newer_def by (auto intro!: begin_read_ok simp: next_read_fits)

lemma retry_ok:
  assumes "reader_ok ok s"
  shows "reader_ok ok (retry s)"
proof (cases "lg_failed s")
  case (Some r)
  then have "read_fits r (lg_view s)" using assms by (simp add: reader_ok_def)
  then show ?thesis using assms Some by (auto simp: retry_def intro!: begin_read_ok)
qed (simp add: retry_def assms)

text \<open>A settled call leaves the list; the answer of a call of an earlier epoch changes nothing else.\<close>

lemma delete_calls: "AList.delete i xs = filter (\<lambda>x. fst x \<noteq> i) xs"
  by (induction xs) auto

lemma stale_call_ok:
  assumes "reader_ok ok s" "map_of (lg_calls s) i = Some c" "lc_epoch c \<noteq> lg_epoch s"
  shows "reader_ok ok (s\<lparr>lg_calls := AList.delete i (lg_calls s)\<rparr>)"
proof -
  have k: "x = (i, c)" if "x \<in> set (lg_calls s)" "fst x = i" for x
    using assms(1,2) that
    by (cases x) (auto simp: reader_ok_def dest!: map_of_SomeD intro: eq_key_imp_eq_value)
  have "current_calls (s\<lparr>lg_calls := AList.delete i (lg_calls s)\<rparr>) = current_calls s"
    using k assms(3) by (auto simp: current_calls_def delete_calls intro!: filter_cong)
  moreover have "distinct (map fst (AList.delete i (lg_calls s)))"
    using assms(1) by (simp add: reader_ok_def distinct_delete)
  moreover have "set (AList.delete i (lg_calls s)) \<subseteq> set (lg_calls s)" by (auto simp: delete_calls)
  ultimately show ?thesis using assms(1) by (auto simp: reader_ok_def)
qed

lemma current_call:
  assumes "reader_ok ok s" "map_of (lg_calls s) i = Some c" "lc_epoch c = lg_epoch s"
  shows "lg_in_flight s" "lc_owner c = lg_owner s" "read_fits (lc_read c) (lg_view s)"
    and "reader_ok ok (s\<lparr>lg_calls := AList.delete i (lg_calls s), lg_in_flight := False\<rparr>)"
proof -
  have m: "(i, c) \<in> set (current_calls s)"
    using map_of_SomeD [OF assms(2)] assms(3) by (simp add: current_calls_def)
  then show fl: "lg_in_flight s" using assms(1) by (auto simp: reader_ok_def split: if_splits)
  show "lc_owner c = lg_owner s" "read_fits (lc_read c) (lg_view s)"
    using assms(1) m by (fastforce simp: reader_ok_def)+
  obtain x where "current_calls s = [x]"
    using assms(1) fl by (auto simp: reader_ok_def length_Suc_conv)
  then have "current_calls s = [(i, c)]" using m by simp
  then have "filter (\<lambda>x. fst x \<noteq> i) (current_calls s) = []" by simp
  then have "current_calls (s\<lparr>lg_calls := AList.delete i (lg_calls s), lg_in_flight := False\<rparr>) = []"
    by (auto simp: current_calls_def delete_calls filter_empty_conv)
  moreover have "distinct (map fst (AList.delete i (lg_calls s)))"
    using assms(1) by (simp add: reader_ok_def distinct_delete)
  moreover have "set (AList.delete i (lg_calls s)) \<subseteq> set (lg_calls s)" by (auto simp: delete_calls)
  ultimately show "reader_ok ok (s\<lparr>lg_calls := AList.delete i (lg_calls s), lg_in_flight := False\<rparr>)"
    using assms(1) by (auto simp: reader_ok_def)
qed

lemma follow_up_reset:
  assumes "apply_plugin_log_page v logs r = (w, Some f)"
  shows "w = v" "\<not> ld_reset r" "f = \<lparr>ld_after_seq = 0, ld_reset = True\<rparr>"
  using assms by (auto simp: apply_plugin_log_page_def Let_def split: if_splits)

lemma read_answered_ok:
  assumes "\<And>logs. a = Page logs \<Longrightarrow> ok (lo_package (lg_owner s)) (fst (apply_plugin_log_page (lg_view s) logs r))"
    and "reader_ok ok (s\<lparr>lg_in_flight := False\<rparr>)" "lg_in_flight s" "read_fits r (lg_view s)"
  shows "reader_ok ok (read_answered r a s)"
proof -
  have refused: "reader_ok ok (refuse_read r m s)" for m
    using assms(2,4) by (simp add: refuse_read_def reader_ok_def show_view_def current_calls_def)
  show ?thesis
  proof (cases a)
    case (Page logs)
    obtain v f where a: "apply_plugin_log_page (lg_view s) logs r = (v, f)" by fastforce
    have v: "ok (lo_package (lg_owner s)) v" using assms(1) [OF Page] a by simp
    show ?thesis
    proof (cases f)
      case None
      have "reader_ok ok (s\<lparr>lg_view := v, lg_failed := None, lg_in_flight := False\<rparr>)"
      proof -
        have "current_calls (s\<lparr>lg_in_flight := False\<rparr>) = []" using assms(2) by (simp add: reader_ok_def)
        then show ?thesis using assms(2) v by (simp add: reader_ok_def current_calls_def)
      qed
      then show ?thesis by (simp add: read_answered_def Page a None)
    next
      case (Some g)
      note g = follow_up_reset [OF a [unfolded Some]]
      have "reader_ok ok (s\<lparr>lg_view := v, lg_failed := None, lg_shown := x, lg_in_flight := False\<rparr>)" for x
        using assms(2) by (simp add: reader_ok_def current_calls_def g(1))
      then show ?thesis
        using assms(3) by (simp add: read_answered_def Page a Some)
          (rule run_read_ok, simp_all add: show_view_def read_fits_def g(3))
    qed
  qed (simp_all add: read_answered_def refused)
qed

lemma call_settles_ok:
  assumes "pages_keep ok hub" "reader_ok ok s" "map_of (lg_calls s) i = Some c"
  shows "reader_ok ok (call_settles i (hub n (lo_package (lc_owner c)) (lc_read c)) s)"
proof (cases "lc_epoch c = lg_epoch s")
  case True
  note c = current_call [OF assms(2,3) True]
  have h: "ok (lo_package (lg_owner s)) (fst (apply_plugin_log_page (lg_view s) logs (lc_read c)))"
    if "hub n (lo_package (lg_owner s)) (lc_read c) = Page logs" for logs
    using assms(1,2) that c(3) by (simp add: pages_keep_def reader_ok_def)
  show ?thesis unfolding call_settles_def
    by (simp add: assms(3) True, rule read_answered_ok) (use c h in \<open>simp_all\<close>)
next
  case False
  then show ?thesis using stale_call_ok [OF assms(2,3)] assms(3) by (simp add: call_settles_def)
qed

lemma log_step_ok: "pages_keep ok hub \<Longrightarrow> reader_ok ok s \<Longrightarrow> reader_ok ok (log_step hub e s)"
  by (cases e) (auto simp: new_owner_ok load_newer_ok retry_ok unmount_ok call_settles_ok pages_keep_def
      split: option.split)

lemma mounted_ok: "pages_keep ok hub \<Longrightarrow> reader_ok ok (mounted p)"
  unfolding mounted_def
  by (rule begin_read_ok) (simp_all add: pages_keep_def reader_ok_def current_calls_def next_read_fits)

lemma run_logs_ok:
  assumes "pages_keep ok hub"
  shows "reader_ok ok (run_logs hub p es)"
proof -
  have "reader_ok ok s \<Longrightarrow> reader_ok ok (fold (log_step hub) es s)" for s
    by (induction es arbitrary: s) (simp_all add: log_step_ok assms)
  then show ?thesis by (simp add: run_logs_def mounted_ok [OF assms])
qed

lemma honest_keeps:
  assumes "honest_hub book hub"
  shows "pages_keep (view_ok book) hub"
proof -
  have "honest_page book p r logs" if "hub n p r = Page logs" for n p r logs
  proof -
    have "case hub n p r of Page logs \<Rightarrow> honest_page book p r logs | _ \<Rightarrow> True"
      using assms unfolding honest_hub_def by blast
    then show ?thesis using that by simp
  qed
  then show ?thesis
    using assms unfolding pages_keep_def honest_hub_def
    by (metis empty_view_ok page_ok(1) prod.collapse)
qed

subsection \<open>What is shown\<close>

definition shown_ok :: "log_reader \<Rightarrow> bool" where
  "shown_ok s \<longleftrightarrow> lo_serial (fst (lg_shown s)) \<le> lo_serial (lg_owner s)
     \<and> lo_serial (lg_owner s) \<le> lg_epoch s
     \<and> (if fst (lg_shown s) = lg_owner s
        then fst (snd (lg_shown s)) = lg_view s \<and> (lg_in_flight s \<longrightarrow> snd (snd (lg_shown s)) = Log_loading)
        else lg_view s = empty_plugin_log_view)"

lemma show_view_shown: "shown_ok s \<Longrightarrow> (lg_in_flight s \<longrightarrow> st = Log_loading) \<Longrightarrow> shown_ok (show_view st s)"
  by (simp add: shown_ok_def show_view_def)

lemma read_answered_shown:
  assumes "shown_ok s"
  shows "shown_ok (read_answered r a s)"
proof (cases a)
  case (Page logs)
  obtain v f where a: "apply_plugin_log_page (lg_view s) logs r = (v, f)" by fastforce
  show ?thesis using assms
    by (cases f) (simp_all add: read_answered_def Page a shown_ok_def show_view_def run_read_def)
qed (use assms in \<open>simp_all add: read_answered_def shown_ok_def refuse_read_def show_view_def\<close>)

lemma log_step_shown:
  assumes "shown_ok s"
  shows "shown_ok (log_step hub e s)"
proof (cases e)
  case (Call_settles i n)
  have "shown_ok (s\<lparr>lg_calls := AList.delete i (lg_calls s)\<rparr>)" using assms by (simp add: shown_ok_def)
  then show ?thesis using assms
    by (auto simp: Call_settles call_settles_def Let_def read_answered_shown split: option.split)
qed (use assms in \<open>auto simp: shown_ok_def new_owner_def unmount_def load_newer_def retry_def begin_read_def run_read_def
    show_view_def Let_def split: option.split if_splits\<close>)

interpretation shown_system: step_system "\<lambda>s. s = mounted p" "log_step hub" shown_ok
proof unfold_locales
  show "shown_ok s" if "s = mounted p" for s
    using that by (simp add: shown_ok_def mounted_def begin_read_def run_read_def)
qed (rule log_step_shown)

lemma run_logs_shown: "shown_ok (run_logs hub p es)"
  unfolding run_logs_def by (rule shown_system.run_inv) simp

lemma shown_view: "shown_ok s \<Longrightarrow> fst (rendered s) = lg_view s"
  "shown_ok s \<Longrightarrow> lg_in_flight s \<Longrightarrow> snd (rendered s) = Log_loading"
  by (auto simp: shown_ok_def rendered_def split: prod.split if_splits)

text \<open>
  C22. Plugin logs, one read at a time. Whatever the Hub answers and in whatever order the user clicks,
  the package changes, the view closes and answers arrive, at most one call of the current epoch is
  outstanding, exactly while a read is in flight; what is rendered is the view the next read starts
  from, and it is shown as loading while a read is in flight.
\<close>

theorem one_log_read:
  "let s = run_logs hub package es in
     length (current_calls s) = (if lg_in_flight s then 1 else 0) \<and> fst (rendered s) = lg_view s
     \<and> (if lg_in_flight s then snd (rendered s) = Log_loading else True)"
  using run_logs_ok [of "\<lambda>_ _. True" hub package es] shown_view [OF run_logs_shown [of hub package es]]
  by (simp add: Let_def reader_ok_def pages_keep_def)

lemma view_unloaded: "view_ok book p v \<Longrightarrow> \<not> lv_loaded v \<Longrightarrow> lv_records v = []"
  by (simp add: view_ok_def empty_plugin_log_view_def)

lemma view_complete:
  assumes "well_kept book" "view_ok book p v" "lv_loaded v"
  shows "lv_records v = filter (\<lambda>r. lr_seq r \<le> lv_cursor v \<and> \<not> evicted_in (lv_evicted v) (lr_seq r)) (book p (lv_log_id v))"
    (is "_ = ?f")
proof -
  have "sorted_wrt (<) (map lr_seq (book p (lv_log_id v)))" using assms(1) by (simp add: well_kept_def)
  then have f: "sorted_wrt (<) (map lr_seq ?f)" by (simp add: sorted_wrt_map sorted_wrt_filter)
  have e: "set (lv_records v) = set ?f" "sorted_wrt (<) (map lr_seq (lv_records v))"
    using assms(2,3) by (auto simp: view_ok_def)
  have "inj_on lr_seq (set (lv_records v) \<union> set ?f)"
    using f unfolding e(1) by (simp add: strict_sorted_iff distinct_map)
  moreover have "map lr_seq (lv_records v) = map lr_seq ?f"
    using e f by (intro strict_sorted_equal) (simp_all add: e(1))
  ultimately show ?thesis by (simp add: map_inj_on)
qed

text \<open>
  C21. Plugin logs are complete. With a Hub whose pages are honest about the log they name (every
  retained record after the cursor, up to the page's last), the records rendered for a package are the
  records of its log up to the cursor, in order and none twice, without those in the gaps the view
  reports as evicted: no record is lost without being reported, whatever the Hub truncates, evicts,
  refuses or restarts, and no record of another package or of an earlier log is mixed in.
\<close>

theorem log_view_complete:
  assumes "honest_hub book hub"
  shows "let s = run_logs hub package es; v = fst (rendered s) in
    if lv_loaded v then lv_records v = filter (\<lambda>r. lr_seq r \<le> lv_cursor v \<and> \<not> evicted_in (lv_evicted v) (lr_seq r))
      (book (lo_package (lg_owner s)) (lv_log_id v))
    else lv_records v = []"
proof -
  let ?s = "run_logs hub package es"
  have ok: "view_ok book (lo_package (lg_owner ?s)) (lg_view ?s)"
    using run_logs_ok [OF honest_keeps [OF assms], of package es] by (simp add: reader_ok_def)
  have w: "well_kept book" using assms by (simp add: honest_hub_def)
  show ?thesis
    using view_complete [OF w ok] view_unloaded [OF ok] by (simp add: Let_def shown_view run_logs_shown)
qed

definition log_line :: "nat \<Rightarrow> log_record" where
  "log_line q = \<lparr>lr_seq = q, lr_generation = 1, lr_at_ms = q, lr_level = ''info'', lr_message = ''line'',
     lr_fields_json = None, lr_dropped_before = 0\<rparr>"

definition log_lines :: "nat list \<Rightarrow> nat \<Rightarrow> plugin_logs" where
  "log_lines qs first = \<lparr>pl_package_name = ''tools'', pl_records = map log_line qs, pl_next_seq = 6,
     pl_first_available_seq = first, pl_log_id = Some ''log-1''\<rparr>"

text \<open>Five records; the first page starts after the evicted record 1, the second after record 4.\<close>

definition small_hub :: log_hub where
  "small_hub n p r = (if r = \<lparr>ld_after_seq = 0, ld_reset = False\<rparr> then Page (log_lines [3, 2] 2)
     else if r = \<lparr>ld_after_seq = 3, ld_reset = False\<rparr> then Page (log_lines [5] 5)
     else Refused None None)"

lemma log_line_seq [simp]: "lr_seq (log_line q) = q"
  by (simp add: log_line_def)

lemma log_line_eq [simp]: "log_line q = log_line r \<longleftrightarrow> q = r"
  by (auto simp: log_line_def)

lemma small_hub_honest: "honest_hub (\<lambda>_ _. map log_line [1, 2, 3, 4, 5]) small_hub"
proof -
  have "well_kept (\<lambda>_ _. map log_line [1, 2, 3, 4, 5])" by (simp add: well_kept_def)
  moreover have "honest_page (\<lambda>_ _. map log_line [1, 2, 3, 4, 5]) p \<lparr>ld_after_seq = 0, ld_reset = False\<rparr> (log_lines [3, 2] 2)" for p
    by (auto simp: honest_page_def log_lines_def last_seq_def)
  moreover have "honest_page (\<lambda>_ _. map log_line [1, 2, 3, 4, 5]) p \<lparr>ld_after_seq = 3, ld_reset = False\<rparr> (log_lines [5] 5)" for p
    by (auto simp: honest_page_def log_lines_def last_seq_def)
  ultimately show ?thesis by (simp add: honest_hub_def small_hub_def)
qed

theorem log_view_complete_witness:
  "let s = run_logs small_hub 1 [Call_settles 0 0, Load_newer, Call_settles 1 1]; v = fst (rendered s) in
     lv_loaded v \<and> map lr_seq (lv_records v) = [2, 3, 5] \<and> lv_evicted v = [(1, 1), (4, 4)]
     \<and> lv_records v = filter (\<lambda>r. lr_seq r \<le> lv_cursor v \<and> \<not> evicted_in (lv_evicted v) (lr_seq r))
         (map log_line [1, 2, 3, 4, 5])"
proof -
  let ?s = "run_logs small_hub 1 [Call_settles 0 0, Load_newer, Call_settles 1 1]"
  have f: "lv_loaded (fst (rendered ?s)) \<and> map lr_seq (lv_records (fst (rendered ?s))) = [2, 3, 5]
      \<and> lv_evicted (fst (rendered ?s)) = [(1, 1), (4, 4)]"
    by code_simp
  show ?thesis
    using log_view_complete [OF small_hub_honest, of 1 "[Call_settles 0 0, Load_newer, Call_settles 1 1]"] f
    by (simp add: Let_def)
qed

subsection \<open>Requests\<close>

definition log_click :: "log_event \<Rightarrow> nat" where
  "log_click e = (case e of Owner_changes _ \<Rightarrow> 1 | Load_newer \<Rightarrow> 1 | Retry \<Rightarrow> 1 | _ \<Rightarrow> 0)"

text \<open>Every read sent counts once, and once more while it may still be answered with a follow-up.\<close>

definition may_follow :: "log_reader \<Rightarrow> nat" where
  "may_follow s = length (filter (\<lambda>x. \<not> ld_reset (lc_read (snd x))) (current_calls s))"

lemma length_filter_twice: "length (filter P (filter Q xs)) \<le> length (filter P xs)"
  by (induction xs) auto

lemma may_follow_begin: "may_follow (begin_read r s) \<le> may_follow s + 1"
  by (simp add: may_follow_def begin_read_def run_read_def current_calls_def)

lemma calls_begin [simp]: "lg_next_call (begin_read r s) = lg_next_call s + 1"
  by (simp add: begin_read_def run_read_def)

lemma may_follow_shown [simp]: "may_follow (show_view st s) = may_follow s" "lg_next_call (show_view st s) = lg_next_call s"
  by (simp_all add: may_follow_def show_view_def current_calls_def)

lemma may_follow_later:
  assumes "reader_ok ok s" "lg_calls t = lg_calls s" "lg_epoch s < lg_epoch t"
  shows "may_follow t = 0"
  using current_later [OF assms] by (simp add: may_follow_def)

lemma answered_requests:
  assumes "current_calls s = []" "may_follow s = 0"
  shows "lg_next_call (read_answered r a s) + may_follow (read_answered r a s)
     \<le> lg_next_call s + (if ld_reset r then 0 else 1)"
proof (cases a)
  case (Page logs)
  obtain v f where a: "apply_plugin_log_page (lg_view s) logs r = (v, f)" by fastforce
  show ?thesis
  proof (cases f)
    case (Some g)
    note g = follow_up_reset [OF a [unfolded Some]]
    show ?thesis using assms
      by (simp add: read_answered_def Page a Some show_view_def run_read_def may_follow_def current_calls_def g)
  qed (use assms in \<open>simp add: read_answered_def Page a show_view_def may_follow_def current_calls_def\<close>)
qed (use assms in \<open>simp_all add: read_answered_def refuse_read_def show_view_def may_follow_def current_calls_def\<close>)

lemma log_step_requests:
  assumes ok: "reader_ok ok s"
  shows "lg_next_call (log_step hub e s) + may_follow (log_step hub e s)
     \<le> lg_next_call s + may_follow s + 2 * log_click e"
proof (cases e)
  case (Owner_changes p)
  let ?t = "(unmount s)\<lparr>lg_owner := \<lparr>lo_package = p, lo_serial = lg_epoch (unmount s) + 1\<rparr>,
      lg_epoch := lg_epoch (unmount s) + 1, lg_view := empty_plugin_log_view, lg_failed := None, lg_in_flight := False\<rparr>"
  have "may_follow ?t = 0" by (rule may_follow_later [OF ok]) (simp_all add: unmount_def)
  then show ?thesis
    using may_follow_begin [of "next_plugin_log_read empty_plugin_log_view Open" ?t]
    by (simp add: Owner_changes log_click_def new_owner_def Let_def unmount_def)
next
  case Load_newer
  then show ?thesis
    using may_follow_begin [of "next_plugin_log_read (lg_view s) Newer" "show_view Log_loading s"]
    by (simp add: log_click_def load_newer_def)
next
  case Retry
  then show ?thesis
    using may_follow_begin [of _ "show_view Log_loading s"]
    by (simp add: log_click_def retry_def split: option.split)
next
  case Unmount
  have "may_follow (unmount s) = 0" by (rule may_follow_later [OF ok]) (simp_all add: unmount_def)
  then show ?thesis by (simp add: Unmount log_click_def unmount_def)
next
  case (Call_settles i n)
  show ?thesis
  proof (cases "map_of (lg_calls s) i")
    case (Some c)
    let ?t = "s\<lparr>lg_calls := AList.delete i (lg_calls s)\<rparr>"
    show ?thesis
    proof (cases "lc_epoch c = lg_epoch s")
      case True
      have m: "(i, c) \<in> set (current_calls s)"
        using map_of_SomeD [OF Some] True by (simp add: current_calls_def)
      have t: "current_calls ?t = []"
        using current_call(4) [OF ok Some True] by (simp add: reader_ok_def current_calls_def)
      have "(if ld_reset (lc_read c) then 0 else 1) \<le> may_follow s"
      proof (cases "ld_reset (lc_read c)")
        case False
        then have "(i, c) \<in> set (filter (\<lambda>x. \<not> ld_reset (lc_read (snd x))) (current_calls s))" using m by simp
        then have "0 < may_follow s" unfolding may_follow_def by (rule length_pos_if_in_set)
        then show ?thesis by simp
      qed simp
      then show ?thesis
        using answered_requests [OF t, of "lc_read c" "hub n (lo_package (lc_owner c)) (lc_read c)"] t
        by (simp add: Call_settles Some True call_settles_def log_click_def may_follow_def)
    next
      case False
      have "current_calls ?t = filter (\<lambda>x. fst x \<noteq> i) (current_calls s)"
        by (simp add: current_calls_def delete_calls conj_commute)
      then have "may_follow ?t \<le> may_follow s" unfolding may_follow_def by (simp only: length_filter_twice)
      then show ?thesis using False by (simp add: Call_settles Some call_settles_def log_click_def)
    qed
  qed (simp add: Call_settles log_click_def)
qed

text \<open>
  C34. Plugin logs, no polling. Mounting, a package change, \<open>Load newer\<close> and \<open>Retry\<close> each send at most
  two reads, whatever the Hub answers: a page of another log is followed by one reset read, and the
  reset read by none.
\<close>

theorem log_requests_bounded:
  "lg_next_call (run_logs hub package es) \<le> 2 * (1 + (\<Sum>e\<leftarrow>es. log_click e))"
proof -
  let ?ok = "\<lambda>_ _. True"
  have keep: "pages_keep ?ok hub" by (simp add: pages_keep_def)
  have *: "reader_ok ?ok s \<Longrightarrow> lg_next_call (fold (log_step hub) es s) + may_follow (fold (log_step hub) es s)
      \<le> lg_next_call s + may_follow s + 2 * (\<Sum>e\<leftarrow>es. log_click e)" for s
  proof (induction es arbitrary: s)
    case (Cons e es s)
    from Cons.IH [OF log_step_ok [OF keep Cons.prems, of e]] log_step_requests [OF Cons.prems, of hub e]
    show ?case by (simp only: fold_simps list.map sum_list.Cons add_mult_distrib2)
  qed simp
  have "lg_next_call (mounted package) + may_follow (mounted package) \<le> 2"
    by (simp add: mounted_def begin_read_def run_read_def may_follow_def current_calls_def)
  then show ?thesis using * [OF mounted_ok [OF keep], of package] by (simp add: run_logs_def)
qed

end
