(* ===== verification/Quarantine_Rows.thy ===== *)
theory Quarantine_Rows
  imports Hub_Actions "HOL-Library.AList"
begin

text \<open>
  The quarantine rows of the Hub settings: \<open>src/botster/hubQuarantines.ts\<close>, the outcomes of
  \<open>src/app/actionFeedback.ts\<close> and the Resolve operations of \<open>src/app/useHubActions.ts\<close>.

  \<^item> The hook's outcomes, its sequence and the closures of its dispatches are one record; a dispatch
    that carries a quarantine target is known by its sequence number.
  \<^item> A dispatch's result, its failure and a \<open>status_refresh\<close> frame are events, in any order.
\<close>

subsection \<open>Quarantines\<close>

definition is_daemon_quarantine :: "json \<Rightarrow> bool" where
  "is_daemon_quarantine e \<longleftrightarrow> is_record (Some e)
     \<and> (if field ''kind'' (Some e) = Some (J_string ''package'')
        then read_config_string (field ''package_name'' (Some e)) [] \<noteq> []
        else if field ''kind'' (Some e) = Some (J_string ''repository_session_types'')
        then read_config_string (field ''root'' (Some e)) [] \<noteq> [] else False)"

definition hub_quarantines :: "json option \<Rightarrow> json list" where
  "hub_quarantines status =
     (case array_of (field ''quarantines'' status) of None \<Rightarrow> []
      | Some entries \<Rightarrow> filter is_daemon_quarantine entries)"

definition listed_target_json :: "json \<Rightarrow> json" where
  "listed_target_json q =
     (if field ''kind'' (Some q) = Some (J_string ''package'')
      then obj [(''kind'', Some (J_string ''package'')), (''package_name'', field ''package_name'' (Some q))]
      else obj [(''kind'', Some (J_string ''repository_session_types'')), (''root'', field ''root'' (Some q))])"

definition quarantine_target_key :: "quarantine_target \<Rightarrow> string" where
  "quarantine_target_key t =
     (case t of Package_target p \<Rightarrow> ''package:'' @ p | Repository_target r \<Rightarrow> ''repository_session_types:'' @ r)"

definition resolve_quarantine_action :: "json \<Rightarrow> action_binding" where
  "resolve_quarantine_action q =
     \<lparr>ab_id = ''botster.hub.resolve_quarantine'', ab_target = None, ab_label = Some ''Resolve'', ab_disabled = None,
      ab_params = Some ((''target'', listed_target_json q) #
        (case field ''quarantined_at_ms'' (Some q) of None \<Rightarrow> [] | Some n \<Rightarrow> [(''quarantined_at_ms'', n)])),
      ab_plugin_surface = None\<rparr>"

subsection \<open>Row outcomes\<close>

datatype row_state =
    Row_pending
  | Row_refreshing
  | Row_refused string
  | Row_stale string
  | Row_failed string

record row_outcome =
  ro_state :: row_state
  ro_operation :: string
  ro_at_ms :: "rat option"

type_synonym row_outcomes = "string \<rightharpoonup> row_outcome"

definition replace_outcome :: "row_outcomes \<Rightarrow> string \<Rightarrow> row_outcome \<Rightarrow> row_state option \<Rightarrow> row_outcomes" where
  "replace_outcome current k entry outcome = current(k := map_option (\<lambda>st. entry\<lparr>ro_state := st\<rparr>) outcome)"

definition start_quarantine_resolve :: "row_outcomes \<Rightarrow> string \<Rightarrow> string \<Rightarrow> rat option \<Rightarrow> row_outcomes" where
  "start_quarantine_resolve current k operation at_ms =
     current(k \<mapsto> \<lparr>ro_state = Row_pending, ro_operation = operation, ro_at_ms = at_ms\<rparr>)"

definition settle_quarantine_result :: "row_outcomes \<Rightarrow> string \<Rightarrow> string \<Rightarrow> row_state \<Rightarrow> row_outcomes" where
  "settle_quarantine_result current k operation outcome =
     (case current k of None \<Rightarrow> current
      | Some entry \<Rightarrow>
          if ro_operation entry \<noteq> operation \<or> ro_state entry \<noteq> Row_pending then current
          else replace_outcome current k entry (Some outcome))"

definition settle_quarantine_refresh :: "row_outcomes \<Rightarrow> string \<Rightarrow> string \<Rightarrow> row_state option \<Rightarrow> row_outcomes" where
  "settle_quarantine_refresh current k operation outcome =
     (case current k of None \<Rightarrow> current
      | Some entry \<Rightarrow>
          if ro_operation entry \<noteq> operation \<or> ro_state entry \<noteq> Row_pending \<and> ro_state entry \<noteq> Row_refreshing then current
          else replace_outcome current k entry outcome)"

definition quarantine_key :: "json \<Rightarrow> string" where
  "quarantine_key q = (if field ''kind'' (Some q) = Some (J_string ''package'')
     then quarantine_target_key (Package_target (read_config_string (field ''package_name'' (Some q)) []))
     else quarantine_target_key (Repository_target (read_config_string (field ''root'' (Some q)) [])))"

definition quarantine_row_outcome :: "json \<Rightarrow> row_outcomes \<Rightarrow> row_state option" where
  "quarantine_row_outcome q outcomes =
     (case outcomes (quarantine_key q) of None \<Rightarrow> None
      | Some entry \<Rightarrow>
          if map_option J_number (ro_at_ms entry) = field ''quarantined_at_ms'' (Some q)
          then Some (ro_state entry) else None)"

subsection \<open>What the results mean\<close>

datatype resolve_answer =
    Answered bool "string option" "json option"
  | Dispatch_error "string option"

definition or_text :: "string option \<Rightarrow> string \<Rightarrow> string" where
  "or_text a b = (case a of None \<Rightarrow> b | Some s \<Rightarrow> s)"

definition quarantine_resolve_outcome :: "bool \<Rightarrow> string option \<Rightarrow> json option \<Rightarrow> row_state option" where
  "quarantine_resolve_outcome accepted reason result =
     (if string_of (field ''request_type'' result) \<noteq> Some ''resolve_quarantine'' then None
      else if accepted then Some Row_refreshing
      else Some (Row_refused (or_text reason ''Resolve quarantine failed'')))"

definition answer_outcome :: "resolve_answer \<Rightarrow> row_state" where
  "answer_outcome a =
     (case a of
        Answered accepted reason result \<Rightarrow>
          (case quarantine_resolve_outcome accepted reason result of Some st \<Rightarrow> st
           | None \<Rightarrow> Row_failed (or_text reason ''Resolve quarantine failed''))
      | Dispatch_error m \<Rightarrow> Row_failed (or_text m ''Resolve quarantine failed''))"

record status_refresh =
  sr_cause :: string
  sr_target :: "json option"
  sr_operation_id :: "string option"
  sr_ok :: bool
  sr_error :: "string option"

definition quarantine_refresh_outcome :: "status_refresh \<Rightarrow> row_state option" where
  "quarantine_refresh_outcome p =
     (if sr_ok p then None
      else Some (Row_stale (''Quarantine resolved, but the Hub status could not be read again (''
        @ or_text (sr_error p) ''unknown error'' @ ''). The list may be out of date.'')))"

subsection \<open>The hook\<close>

record quarantine_board =
  qb_rows :: row_outcomes
  qb_sequence :: nat
  qb_keys :: "nat \<rightharpoonup> string"

definition empty_board :: quarantine_board where
  "empty_board = \<lparr>qb_rows = Map.empty, qb_sequence = 0, qb_keys = Map.empty\<rparr>"

definition operation_name :: "nat \<Rightarrow> string" where
  "operation_name n = ''resolve-'' @ digits n"

definition outcome_key :: "action_binding \<Rightarrow> string option" where
  "outcome_key a = (if ab_id a = ''botster.hub.resolve_quarantine''
     then map_option quarantine_target_key (quarantine_target_from_action a) else None)"

definition dispatch_resolve :: "action_binding \<Rightarrow> quarantine_board \<Rightarrow> quarantine_board \<times> action_binding" where
  "dispatch_resolve a b =
     (case outcome_key a of None \<Rightarrow> (b, a)
      | Some k \<Rightarrow>
          (let n = qb_sequence b + 1 in
           (b\<lparr>qb_rows := start_quarantine_resolve (qb_rows b) k (operation_name n) (quarantined_at_ms_from_action a),
              qb_sequence := n, qb_keys := (qb_keys b)(n \<mapsto> k)\<rparr>,
            a\<lparr>ab_params := Some (AList.update ''operation_id'' (J_string (operation_name n))
              (case ab_params a of None \<Rightarrow> [] | Some ps \<Rightarrow> ps))\<rparr>)))"

definition resolve_answered :: "nat \<Rightarrow> resolve_answer \<Rightarrow> quarantine_board \<Rightarrow> quarantine_board" where
  "resolve_answered n a b =
     (case qb_keys b n of None \<Rightarrow> b
      | Some k \<Rightarrow> b\<lparr>qb_rows := settle_quarantine_result (qb_rows b) k (operation_name n) (answer_outcome a)\<rparr>)"

definition refresh_operation :: "status_refresh \<Rightarrow> (string \<times> string) option" where
  "refresh_operation p =
     (case quarantine_target_from_action (resolve_quarantine_action (J_object [])
          \<lparr>ab_params := Some (case sr_target p of None \<Rightarrow> [] | Some t \<Rightarrow> [(''target'', t)])\<rparr>) of
        None \<Rightarrow> None
      | Some t \<Rightarrow>
          (case sr_operation_id p of None \<Rightarrow> None
           | Some i \<Rightarrow> if sr_cause p \<noteq> ''resolve_quarantine'' \<or> i = [] then None else Some (quarantine_target_key t, i)))"

definition status_refreshed :: "status_refresh \<Rightarrow> quarantine_board \<Rightarrow> quarantine_board" where
  "status_refreshed p b =
     (case refresh_operation p of None \<Rightarrow> b
      | Some (k, i) \<Rightarrow> b\<lparr>qb_rows := settle_quarantine_refresh (qb_rows b) k i (quarantine_refresh_outcome p)\<rparr>)"

datatype board_event =
    Resolve_dispatched action_binding
  | Resolve_answered nat resolve_answer
  | Status_refreshed status_refresh

fun board_step :: "board_event \<Rightarrow> quarantine_board \<Rightarrow> quarantine_board" where
  "board_step (Resolve_dispatched a) b = fst (dispatch_resolve a b)"
| "board_step (Resolve_answered n a) b = resolve_answered n a b"
| "board_step (Status_refreshed p) b = status_refreshed p b"

definition run_board :: "board_event list \<Rightarrow> quarantine_board" where
  "run_board es = fold board_step es empty_board"

subsection \<open>The specification: a row belongs to its newest operation\<close>

text \<open>What one operation says of its row, from its own answer and its own refresh alone.\<close>

fun own_step :: "nat \<Rightarrow> string \<Rightarrow> board_event \<Rightarrow> row_state option \<Rightarrow> row_state option" where
  "own_step n k (Resolve_dispatched a) st = st"
| "own_step n k (Resolve_answered m a) st =
     (if m = n \<and> st = Some Row_pending then Some (answer_outcome a) else st)"
| "own_step n k (Status_refreshed p) st =
     (if refresh_operation p = Some (k, operation_name n) \<and> (st = Some Row_pending \<or> st = Some Row_refreshing)
      then quarantine_refresh_outcome p else st)"

fun resolve_key :: "board_event \<Rightarrow> string option" where
  "resolve_key (Resolve_dispatched a) = outcome_key a"
| "resolve_key _ = None"

fun event_at_ms :: "board_event \<Rightarrow> rat option" where
  "event_at_ms (Resolve_dispatched a) = quarantined_at_ms_from_action a"
| "event_at_ms _ = None"

text \<open>The newest operation on a key, when it was dispatched for, and the events after it.\<close>

fun newest :: "nat \<Rightarrow> string \<Rightarrow> board_event list \<Rightarrow> (nat \<times> rat option \<times> board_event list) option" where
  "newest n k [] = None"
| "newest n k (e # es) =
     (let m = (if resolve_key e = None then n else n + 1) in
      case newest m k es of Some x \<Rightarrow> Some x
      | None \<Rightarrow> if resolve_key e = Some k then Some (m, event_at_ms e, es) else None)"

definition specified_row :: "board_event list \<Rightarrow> string \<Rightarrow> row_outcome option" where
  "specified_row es k =
     (case newest 0 k es of None \<Rightarrow> None
      | Some (n, at_ms, later) \<Rightarrow>
          map_option (\<lambda>st. \<lparr>ro_state = st, ro_operation = operation_name n, ro_at_ms = at_ms\<rparr>)
            (fold (own_step n k) later (Some Row_pending)))"

subsection \<open>The rows refine it\<close>

fun undigits :: "nat \<Rightarrow> string \<Rightarrow> nat" where
  "undigits acc [] = acc"
| "undigits acc (c # cs) = undigits (10 * acc + (of_char c - 48)) cs"

lemma undigits_append: "undigits acc (cs @ ds) = undigits (undigits acc cs) ds"
  by (induction cs arbitrary: acc) simp_all

lemma undigits_digits: "undigits 0 (digits n) = n"
proof (induction n rule: digits.induct)
  case (1 n)
  show ?case
  proof (cases "n < 10")
    case True
    then show ?thesis by (simp add: digits.simps [of n])
  next
    case False
    then show ?thesis using 1 by (simp add: digits.simps [of n] undigits_append)
  qed
qed

lemma operation_name_inj [simp]: "operation_name m = operation_name n \<longleftrightarrow> m = n"
  by (metis operation_name_def same_append_eq undigits_digits)

definition operations :: "board_event list \<Rightarrow> nat" where
  "operations es = length (filter (\<lambda>e. resolve_key e \<noteq> None) es)"

lemma newest_snoc:
  "newest n k (es @ [e]) =
     (if resolve_key e = Some k then Some (n + operations (es @ [e]), event_at_ms e, [])
      else map_option (\<lambda>(m, t, later). (m, t, later @ [e])) (newest n k es))"
  by (induction es arbitrary: n) (auto simp: operations_def Let_def split: option.splits)

lemma newest_bound: "newest n k es = Some (m, t, later) \<Longrightarrow> m \<le> n + operations es"
  by (induction es arbitrary: n) (fastforce simp: operations_def Let_def split: option.splits if_splits)+

lemma run_board_snoc: "run_board (es @ [e]) = board_step e (run_board es)"
  by (simp add: run_board_def)

lemma sequence_counts: "qb_sequence (run_board es) = operations es"
proof (induction es rule: rev_induct)
  case (snoc e es)
  then show ?case
    by (cases e) (auto simp: run_board_snoc operations_def dispatch_resolve_def resolve_answered_def status_refreshed_def
        Let_def split: option.split)
qed (simp add: run_board_def empty_board_def operations_def)

lemma newest_owns: "newest 0 k es = Some (n, t, later) \<Longrightarrow> qb_keys (run_board es) n = Some k"
proof (induction es arbitrary: n t later rule: rev_induct)
  case (snoc e es)
  show ?case
  proof (cases e)
    case (Resolve_dispatched a)
    show ?thesis
    proof (cases "resolve_key e = Some k")
      case True
      then show ?thesis using snoc.prems
        by (auto simp: newest_snoc run_board_snoc Resolve_dispatched dispatch_resolve_def Let_def sequence_counts operations_def)
    next
      case False
      then obtain l where "newest 0 k es = Some (n, t, l)" using snoc.prems by (auto simp: newest_snoc)
      then show ?thesis using snoc.IH newest_bound [of 0 k es n t l]
        by (auto simp: run_board_snoc Resolve_dispatched dispatch_resolve_def Let_def sequence_counts split: option.split)
    qed
  qed (use snoc in \<open>auto simp: newest_snoc run_board_snoc resolve_answered_def status_refreshed_def split: option.split\<close>)
qed simp

text \<open>One step on the row of a key: no operation owns it, a new one takes it, or its owner keeps it.\<close>

definition row_of :: "nat \<Rightarrow> rat option \<Rightarrow> row_state option \<Rightarrow> row_outcome option" where
  "row_of n at_ms = map_option (\<lambda>st. \<lparr>ro_state = st, ro_operation = operation_name n, ro_at_ms = at_ms\<rparr>)"

lemmas board_defs = dispatch_resolve_def start_quarantine_resolve_def resolve_answered_def status_refreshed_def
  settle_quarantine_result_def settle_quarantine_refresh_def replace_outcome_def

lemma free_row_step:
  "qb_rows b k = None \<Longrightarrow> resolve_key e \<noteq> Some k \<Longrightarrow> qb_rows (board_step e b) k = None"
  by (cases e) (auto simp: board_defs Let_def split: option.split)

lemma taken_row_step:
  "resolve_key e = Some k \<Longrightarrow>
     qb_rows (board_step e b) k = row_of (qb_sequence b + 1) (event_at_ms e) (Some Row_pending)"
  by (cases e) (simp_all add: board_defs Let_def row_of_def)

lemma owned_row_step:
  assumes "resolve_key e \<noteq> Some k" "qb_keys b n = Some k" "qb_rows b k = row_of n t st"
  shows "qb_rows (board_step e b) k = row_of n t (own_step n k e st)"
proof (cases e)
  case (Resolve_dispatched a)
  then show ?thesis using assms by (auto simp: board_defs Let_def split: option.split)
next
  case (Resolve_answered m a)
  then show ?thesis using assms by (cases st) (auto simp: board_defs row_of_def split: option.split)
next
  case (Status_refreshed p)
  then show ?thesis using assms by (cases st) (auto simp: board_defs row_of_def split: option.split)
qed

lemma specified_row_cases:
  "specified_row es k = (case newest 0 k es of None \<Rightarrow> None
     | Some (n, t, later) \<Rightarrow> row_of n t (fold (own_step n k) later (Some Row_pending)))"
  unfolding specified_row_def row_of_def ..

text \<open>
  C23. Quarantine rows refine their specification. Whatever the order of Resolve clicks, answers,
  failures and status refreshes, for one target or many, the outcome a row holds is what its newest
  Resolve operation says from that operation's own answer and refresh: a late answer of an older
  operation, an answer after the refresh, or another target's event never changes it.
\<close>

theorem quarantine_rows_refine: "qb_rows (run_board es) k = specified_row es k"
proof (induction es rule: rev_induct)
  case (snoc e es)
  note row = snoc.IH [unfolded specified_row_cases]
  show ?case
  proof (cases "resolve_key e = Some k")
    case True
    then show ?thesis
      by (simp add: run_board_snoc taken_row_step specified_row_cases newest_snoc sequence_counts operations_def)
  next
    case other: False
    show ?thesis
    proof (cases "newest 0 k es")
      case None
      then show ?thesis using row other
        by (simp add: run_board_snoc free_row_step specified_row_cases newest_snoc)
    next
      case (Some x)
      obtain n t later where x: "x = (n, t, later)" by (cases x) auto
      then show ?thesis
        using owned_row_step [OF other newest_owns [OF Some [unfolded x]], of t "fold (own_step n k) later (Some Row_pending)"]
          row Some other by (simp add: run_board_snoc specified_row_cases newest_snoc)
    qed
  qed
qed (simp add: run_board_def empty_board_def specified_row_def)

subsection \<open>A listed quarantine can be resolved\<close>

lemma listed_target:
  assumes "q \<in> set (hub_quarantines status)"
  shows "quarantine_target_of (Some q) \<noteq> None"
    and "quarantine_target_from_action (resolve_quarantine_action q) = quarantine_target_of (Some q)"
    and "outcome_key (resolve_quarantine_action q) = Some (quarantine_key q)"
proof -
  have "is_daemon_quarantine q" using assms by (auto simp: hub_quarantines_def split: option.splits)
  note q = this [unfolded is_daemon_quarantine_def]
  have s: "v = Some (J_string (read_config_string v []))" if "read_config_string v [] \<noteq> []" for v
    using that by (auto simp: read_config_string_def elim: string_of.elims split: option.splits)
  show t: "quarantine_target_of (Some q) \<noteq> None"
    using q by (auto simp: quarantine_target_of_def split: if_splits)
  show e: "quarantine_target_from_action (resolve_quarantine_action q) = quarantine_target_of (Some q)"
    using q s [of "field ''package_name'' (Some q)"] s [of "field ''root'' (Some q)"]
    by (auto simp: quarantine_target_from_action_def param_def resolve_quarantine_action_def listed_target_json_def
        quarantine_target_of_def obj_def List.map_filter_def field_def read_config_string_def split: if_splits option.splits)
  show "outcome_key (resolve_quarantine_action q) = Some (quarantine_key q)"
    using q t unfolding outcome_key_def e
    by (auto simp: resolve_quarantine_action_def quarantine_target_of_def quarantine_key_def split: if_splits)
qed

lemma tagged_target:
  "quarantine_target_from_action (a\<lparr>ab_params := Some (AList.update ''operation_id'' v
     (case ab_params a of None \<Rightarrow> [] | Some ps \<Rightarrow> ps))\<rparr>) = quarantine_target_from_action a"
  by (simp add: quarantine_target_from_action_def param_def update_conv' split: option.split)

text \<open>
  A listed quarantine can be resolved. Every quarantine the settings list names a target; the
  Resolve action its row offers carries that target to the Hub transport also after the hook has
  tagged it, with the operation the hook counts; and the outcome of that operation is kept under the
  key the row looks up.
\<close>

theorem listed_quarantine_resolvable:
  "list_all (\<lambda>q. let (b, a) = dispatch_resolve (resolve_quarantine_action q) board in
       quarantine_target_from_action a = quarantine_target_of (Some q) \<and> quarantine_target_of (Some q) \<noteq> None
       \<and> quarantine_operation_id_from_action a = Some (operation_name (qb_sequence b))
       \<and> qb_sequence b = qb_sequence board + 1
       \<and> map_option ro_operation (qb_rows b (quarantine_key q)) = quarantine_operation_id_from_action a)
     (hub_quarantines status)"
  unfolding list_all_iff
proof
  fix q assume q: "q \<in> set (hub_quarantines status)"
  note q = listed_target [OF q]
  show "let (b, a) = dispatch_resolve (resolve_quarantine_action q) board in
       quarantine_target_from_action a = quarantine_target_of (Some q) \<and> quarantine_target_of (Some q) \<noteq> None
       \<and> quarantine_operation_id_from_action a = Some (operation_name (qb_sequence b))
       \<and> qb_sequence b = qb_sequence board + 1
       \<and> map_option ro_operation (qb_rows b (quarantine_key q)) = quarantine_operation_id_from_action a"
    using q
    by (simp add: dispatch_resolve_def Let_def tagged_target)
      (simp add: quarantine_operation_id_from_action_def param_def update_conv' operation_name_def start_quarantine_resolve_def)
qed

end
