(* ===== verification/Session_Type_Forms.thy ===== *)
theory Session_Type_Forms
  imports Hub_Action_Laws
begin

text \<open>
  The forms that author session types: the value readers of \<open>src/app/values.ts\<close>, the form of
  \<open>src/app/sessionTypes.ts\<close> and the actions \<open>src/app/useSessionTypeControl.ts\<close> dispatches, with
  the proof that an edit that changes nothing loses nothing on its way to the Hub.

  \<^item> The display texts of the dialogs are left out; \<open>String(id)\<close> is taken of texts only.
  \<^item> A \<open>Record<string, string>\<close> is a list of pairs in the order of its keys.
  \<^item> \<open>toLowerCase\<close> and \<open>localeCompare\<close> are arguments.
\<close>

subsection \<open>Values\<close>

definition string_value :: "json option \<Rightarrow> string \<Rightarrow> string" where
  "string_value v fallback = (case string_of v of None \<Rightarrow> fallback | Some s \<Rightarrow> if s = [] then fallback else s)"

definition string_array :: "json option \<Rightarrow> string list" where
  "string_array v = (case array_of v of None \<Rightarrow> [] | Some xs \<Rightarrow> List.map_filter (string_of \<circ> Some) xs)"

definition string_pairs :: "json option \<Rightarrow> (string \<times> string) list" where
  "string_pairs v = List.map_filter (\<lambda>(k, x). map_option (Pair k) (string_of (Some x))) (read_config_object v)"

definition join_token_list :: "string list \<Rightarrow> string" where
  "join_token_list xs = join '', '' xs"

definition format_metadata :: "(string \<times> string) list \<Rightarrow> string" where
  "format_metadata m = join [CHR 0x0A] (map (\<lambda>(k, v). k @ ''='' @ v) m)"

text \<open>\<open>split\<close> at every character that satisfies \<open>p\<close>\<close>

fun split_at :: "(char \<Rightarrow> bool) \<Rightarrow> string \<Rightarrow> string list" where
  "split_at p [] = [[]]"
| "split_at p (c # cs) =
     (if p c then [] # split_at p cs
      else (case split_at p cs of [] \<Rightarrow> [[c]] | w # ws \<Rightarrow> (c # w) # ws))"

definition parse_token_list :: "string \<Rightarrow> string list" where
  "parse_token_list input =
     filter (\<lambda>t. t \<noteq> []) (map trim (split_at (\<lambda>c. blank c \<or> c = CHR '','') input))"

text \<open>The \<open>\r\<close> that may end a line is trimmed with the rest.\<close>

definition parse_metadata :: "string \<Rightarrow> (string \<times> string) list" where
  "parse_metadata input =
     fold (\<lambda>line m.
        (let k = trim (takeWhile (\<lambda>c. c \<noteq> CHR ''='') line);
             v = trim (drop 1 (dropWhile (\<lambda>c. c \<noteq> CHR ''='') line))
         in if CHR ''='' \<notin> set line \<or> hd line = CHR ''='' \<or> k = [] then m else AList.update k v m))
       (filter (\<lambda>l. l \<noteq> []) (map trim (split_at (\<lambda>c. c = CHR 0x0A) input))) []"

definition token_list_from_form :: "string \<Rightarrow> string list option \<Rightarrow> string list" where
  "token_list_from_form t seeded =
     (case seeded of None \<Rightarrow> parse_token_list t
      | Some xs \<Rightarrow> if t = join_token_list xs then xs else parse_token_list t)"

definition environment_from_form :: "string \<Rightarrow> (string \<times> string) list option \<Rightarrow> (string \<times> string) list" where
  "environment_from_form t seeded =
     (case seeded of None \<Rightarrow> parse_metadata t
      | Some m \<Rightarrow> if t = format_metadata m then m else parse_metadata t)"

subsection \<open>The form\<close>

datatype form_mode = Create | Edit

datatype preset_id = Preset_agent | Preset_shell | Preset_custom

record session_type_preset =
  ps_role :: string
  ps_interaction :: string
  ps_lifecycle :: string
  ps_traits :: string

definition session_type_presets :: "(preset_id \<times> session_type_preset) list" where
  "session_type_presets =
     [(Preset_agent, \<lparr>ps_role = ''botster.agent'', ps_interaction = ''interactive'', ps_lifecycle = ''task'',
        ps_traits = ''terminal''\<rparr>),
      (Preset_shell, \<lparr>ps_role = ''botster.accessory'', ps_interaction = ''interactive'', ps_lifecycle = ''task'',
        ps_traits = ''terminal''\<rparr>)]"

record session_type_form =
  sf_mode :: form_mode
  sf_source :: string
  sf_source_target_id :: string
  sf_session_type_id :: "string option"
  sf_definition_target_id :: string
  sf_id :: string
  sf_label :: string
  sf_description :: string
  sf_icon :: string
  sf_id_locked :: bool
  sf_preset :: preset_id
  sf_role :: string
  sf_interaction :: string
  sf_traits :: string
  sf_lifecycle :: string
  sf_shell_command :: bool
  sf_command :: string
  sf_args :: string
  sf_working_directory_policy :: string
  sf_working_directory_path :: string
  sf_environment :: string
  sf_allowed_environment_overrides :: string
  sf_context_keys :: string
  sf_seeded_traits :: "string list option"
  sf_seeded_args :: "string list option"
  sf_seeded_context :: "string list option"
  sf_seeded_overrides :: "string list option"
  sf_seeded_environment :: "(string \<times> string) list option"
  sf_submitting :: bool
  sf_error :: "string option"

definition empty_session_type_form :: session_type_form where
  "empty_session_type_form = \<lparr>sf_mode = Create, sf_source = ''device'', sf_source_target_id = [],
     sf_session_type_id = None, sf_definition_target_id = [], sf_id = [], sf_label = [], sf_description = [],
     sf_icon = [], sf_id_locked = False, sf_preset = Preset_custom, sf_role = [], sf_interaction = [],
     sf_traits = [], sf_lifecycle = [], sf_shell_command = False, sf_command = [], sf_args = [],
     sf_working_directory_policy = ''package_root'', sf_working_directory_path = [], sf_environment = [],
     sf_allowed_environment_overrides = [], sf_context_keys = [], sf_seeded_traits = None,
     sf_seeded_args = None, sf_seeded_context = None, sf_seeded_overrides = None,
     sf_seeded_environment = None, sf_submitting = False, sf_error = None\<rparr>"

subsection \<open>Names\<close>

definition id_char :: "char \<Rightarrow> bool" where
  "id_char c \<longleftrightarrow> (97 \<le> (of_char c :: nat) \<and> (of_char c :: nat) \<le> 122) \<or> (48 \<le> (of_char c :: nat) \<and> (of_char c :: nat) \<le> 57)"

text \<open>Each run of other characters becomes one dash.\<close>

fun dash_runs :: "bool \<Rightarrow> string \<Rightarrow> string" where
  "dash_runs in_run [] = []"
| "dash_runs in_run (c # cs) =
     (if id_char c then c # dash_runs False cs
      else if in_run then dash_runs True cs else CHR ''-'' # dash_runs True cs)"

definition strip_dashes :: "string \<Rightarrow> string" where
  "strip_dashes s = rev (dropWhile (\<lambda>c. c = CHR ''-'') (rev (dropWhile (\<lambda>c. c = CHR ''-'') s)))"

definition session_type_id_from_name :: "(string \<Rightarrow> string) \<Rightarrow> string \<Rightarrow> string" where
  "session_type_id_from_name to_lower_case name =
     take 128 (strip_dashes (dash_runs False (to_lower_case (trim name))))"

definition apply_session_type_name :: "(string \<Rightarrow> string) \<Rightarrow> session_type_form \<Rightarrow> string \<Rightarrow> session_type_form" where
  "apply_session_type_name to_lower_case f name =
     (if sf_mode f = Create \<and> \<not> sf_id_locked f
      then f\<lparr>sf_label := name, sf_id := session_type_id_from_name to_lower_case name\<rparr>
      else f\<lparr>sf_label := name\<rparr>)"

subsection \<open>Presets and homes\<close>

definition apply_session_type_preset :: "session_type_form \<Rightarrow> preset_id \<Rightarrow> session_type_form" where
  "apply_session_type_preset f p =
     (case map_of session_type_presets p of None \<Rightarrow> f\<lparr>sf_preset := Preset_custom\<rparr>
      | Some x \<Rightarrow> f\<lparr>sf_preset := p, sf_role := ps_role x, sf_interaction := ps_interaction x,
          sf_lifecycle := ps_lifecycle x, sf_traits := ps_traits x, sf_seeded_traits := None\<rparr>)"

definition create_session_type_form :: "preset_id \<Rightarrow> session_type_form" where
  "create_session_type_form p = apply_session_type_preset empty_session_type_form p"

definition infer_session_type_preset :: "string \<Rightarrow> string \<Rightarrow> string \<Rightarrow> preset_id" where
  "infer_session_type_preset role interaction lifecycle =
     (case find (\<lambda>(p, x). trim role = ps_role x \<and> trim interaction = ps_interaction x \<and> trim lifecycle = ps_lifecycle x)
        session_type_presets of None \<Rightarrow> Preset_custom | Some (p, _) \<Rightarrow> p)"

definition apply_session_type_home_kind :: "session_type_form \<Rightarrow> bool \<Rightarrow> string list \<Rightarrow> session_type_form" where
  "apply_session_type_home_kind f repo spawn_points =
     (if \<not> repo then f\<lparr>sf_source := ''device'', sf_source_target_id := []\<rparr>
      else f\<lparr>sf_source := ''repo'', sf_source_target_id :=
        (if sf_source_target_id f \<in> set spawn_points then sf_source_target_id f
         else (case spawn_points of [t] \<Rightarrow> t | _ \<Rightarrow> []))\<rparr>)"

definition session_type_mutation_source_from_record :: "json option \<Rightarrow> json" where
  "session_type_mutation_source_from_record r =
     (let source = string_value (field ''source'' r) ''device'' in
      if source = ''repo''
      then obj [(''source'', text_json ''repo''), (''target_id'', text_json (string_value (field ''target_id'' r) []))]
      else obj [(''source'', text_json source)])"

subsection \<open>From the form\<close>

definition form_mutation_source :: "session_type_form \<Rightarrow> json" where
  "form_mutation_source f =
     (if sf_source f = ''repo''
      then obj [(''source'', text_json ''repo''), (''target_id'', text_json (sf_source_target_id f))]
      else obj [(''source'', text_json (sf_source f))])"

definition form_working_directory :: "session_type_form \<Rightarrow> json" where
  "form_working_directory f =
     (let policy = trim (sf_working_directory_policy f); path = trim (sf_working_directory_path f) in
      if policy = ''relative'' then obj [(''policy'', text_json ''relative''), (''path'', text_json path)]
      else if policy = ''package_root'' \<or> policy = [] then obj [(''policy'', text_json ''package_root'')]
      else obj [(''policy'', text_json policy), (''path'', present path)])"

definition session_type_definition_from_form :: "session_type_form \<Rightarrow> json" where
  "session_type_definition_from_form f = obj
     [(''id'', text_json (trim (sf_id f))), (''label'', text_json (trim (sf_label f))),
      (''description'', present (trim (sf_description f))), (''icon'', present (trim (sf_icon f))),
      (''role'', text_json (trim (sf_role f))), (''interaction'', text_json (trim (sf_interaction f))),
      (''traits'', texts_json (token_list_from_form (sf_traits f) (sf_seeded_traits f))),
      (''lifecycle'', text_json (trim (sf_lifecycle f))),
      (''execution'', Some (obj [(''mode'', text_json (if sf_shell_command f then ''shell_command'' else ''relative_executable''))])),
      (''command'', text_json (trim (sf_command f))),
      (''args'', texts_json (token_list_from_form (sf_args f) (sf_seeded_args f))),
      (''working_directory'', Some (form_working_directory f)),
      (''environment'', Some (J_object (map (\<lambda>(k, v). (k, J_string v))
         (environment_from_form (sf_environment f) (sf_seeded_environment f))))),
      (''allowed_environment_overrides'',
         texts_json (token_list_from_form (sf_allowed_environment_overrides f) (sf_seeded_overrides f))),
      (''context'', texts_json (token_list_from_form (sf_context_keys f) (sf_seeded_context f))),
      (''target_id'', present (trim (sf_definition_target_id f)))]"

subsection \<open>From the Hub's authoring definition\<close>

definition session_type_form_from_authoring_definition :: "json option \<Rightarrow> session_type_form option" where
  "session_type_form_from_authoring_definition e =
     (let d = field ''definition'' e; source = field ''source'' e;
          kind = string_value (field ''source'' source) [];
          word = (\<lambda>k. string_value (field k d) []);
          dir = field ''working_directory'' d;
          traits = string_array (field ''traits'' d); args = string_array (field ''args'' d);
          context_keys = string_array (field ''context'' d);
          overrides = string_array (field ''allowed_environment_overrides'' d);
          environment = string_pairs (field ''environment'' d)
      in if (case field ''id'' d of None \<Rightarrow> True | Some i \<Rightarrow> \<not> truthy i) \<or> kind = [] then None
         else Some \<lparr>sf_mode = Edit, sf_source = kind,
           sf_source_target_id = (if kind = ''repo'' then string_value (field ''target_id'' source) [] else []),
           sf_session_type_id = Some (string_value (field ''session_type_id'' e) []),
           sf_definition_target_id = word ''target_id'', sf_id = word ''id'', sf_label = word ''label'',
           sf_description = word ''description'', sf_icon = word ''icon'', sf_id_locked = True,
           sf_preset = infer_session_type_preset (word ''role'') (word ''interaction'') (word ''lifecycle''),
           sf_role = word ''role'', sf_interaction = word ''interaction'', sf_traits = join_token_list traits,
           sf_lifecycle = word ''lifecycle'',
           sf_shell_command = (string_value (field ''mode'' (field ''execution'' d)) ''relative_executable'' = ''shell_command''),
           sf_command = word ''command'', sf_args = join_token_list args,
           sf_working_directory_policy = string_value (field ''policy'' dir) ''package_root'',
           sf_working_directory_path = string_value (field ''path'' dir) [],
           sf_environment = format_metadata environment,
           sf_allowed_environment_overrides = join_token_list overrides,
           sf_context_keys = join_token_list context_keys, sf_seeded_traits = Some traits,
           sf_seeded_args = Some args, sf_seeded_context = Some context_keys, sf_seeded_overrides = Some overrides,
           sf_seeded_environment = Some environment, sf_submitting = False, sf_error = None\<rparr>)"

definition rejected_session_type_form :: "session_type_form \<Rightarrow> string option \<Rightarrow> json option \<Rightarrow> session_type_form" where
  "rejected_session_type_form f reason result =
     (let message = or_else reason ''Botster could not save this session type.'' in
      f\<lparr>sf_submitting := False, sf_error := Some (case string_of (field ''error_kind'' result) of
          None \<Rightarrow> message | Some k \<Rightarrow> if k = [] then message else k @ '': '' @ message)\<rparr>)"

definition session_type_form_is_structurally_complete :: "session_type_form \<Rightarrow> bool" where
  "session_type_form_is_structurally_complete f \<longleftrightarrow>
     trim (sf_id f) \<noteq> [] \<and> trim (sf_label f) \<noteq> [] \<and> trim (sf_role f) \<noteq> [] \<and> trim (sf_interaction f) \<noteq> []
     \<and> trim (sf_lifecycle f) \<noteq> [] \<and> trim (sf_command f) \<noteq> []
     \<and> (sf_source f \<noteq> ''repo'' \<or> trim (sf_source_target_id f) \<noteq> [])"

subsection \<open>Rows by source\<close>

fun group_rows :: "json list \<Rightarrow> (string \<times> json list) list \<Rightarrow> (string \<times> json list) list" where
  "group_rows [] groups = groups"
| "group_rows (r # rs) groups =
     (let source = string_value (field ''source'' (Some r)) [] in
      group_rows rs (AList.update source ((case map_of groups source of None \<Rightarrow> [] | Some xs \<Rightarrow> xs) @ [r]) groups))"

definition group_session_types_by_source :: "string comparator \<Rightarrow> json list \<Rightarrow> (string \<times> json list) list" where
  "group_session_types_by_source locale_compare rows = Sorting_Algorithms.sort (key fst locale_compare) (group_rows rows [])"

subsection \<open>The control's actions\<close>

definition submit_session_type :: "session_type_form \<Rightarrow> action_binding" where
  "submit_session_type f =
     \<lparr>ab_id = ''botster.session_type.daemon_request'', ab_target = sf_session_type_id f,
      ab_label = Some (if sf_mode f = Edit then ''Update session type'' else ''Create session type''),
      ab_disabled = None,
      ab_params = Some [(''daemon_request'', obj
        [(''request_type'', text_json (if sf_mode f = Edit then ''update_session_type'' else ''create_session_type'')),
         (''source'', Some (form_mutation_source f)), (''definition'', Some (session_type_definition_from_form f))])],
      ab_plugin_surface = None\<rparr>"

text \<open>Submitting: nothing unless the form is complete and idle; else it is busy and its action is dispatched.\<close>

definition submit_session_type_form :: "session_type_form option \<Rightarrow> session_type_form option \<times> action_binding option" where
  "submit_session_type_form form =
     (case form of None \<Rightarrow> (None, None)
      | Some f \<Rightarrow>
          if \<not> session_type_form_is_structurally_complete f \<or> sf_submitting f then (Some f, None)
          else (Some (f\<lparr>sf_submitting := True, sf_error := None\<rparr>), Some (submit_session_type f)))"

definition load_session_type_for_edit :: "json option \<Rightarrow> action_binding option" where
  "load_session_type_for_edit row =
     (let i = string_value (field ''session_type_id'' row) (string_value (field ''id'' row) []) in
      if i = [] then None
      else Some \<lparr>ab_id = ''botster.session_type.daemon_request'', ab_target = Some i,
        ab_label = Some ''Load session type for edit'', ab_disabled = None,
        ab_params = Some [(''daemon_request'', obj [(''request_type'', text_json ''show_session_type_definition''),
          (''session_type_id'', text_json i)])], ab_plugin_surface = None\<rparr>)"

definition session_type_management_supported :: "json option \<Rightarrow> bool" where
  "session_type_management_supported status =
     (case status of None \<Rightarrow> True
      | Some _ \<Rightarrow> (case array_of (field ''features'' (field ''compatibility'' status)) of None \<Rightarrow> False
          | Some xs \<Rightarrow> J_string ''session_type_entity_subscriptions'' \<in> set xs))"

definition session_type_form_has_advanced_values :: "session_type_form \<Rightarrow> bool" where
  "session_type_form_has_advanced_values f \<longleftrightarrow> sf_working_directory_policy f = ''relative''
     \<or> trim (sf_working_directory_path f) \<noteq> [] \<or> trim (sf_environment f) \<noteq> []
     \<or> trim (sf_allowed_environment_overrides f) \<noteq> [] \<or> trim (sf_context_keys f) \<noteq> []
     \<or> trim (sf_description f) \<noteq> [] \<or> trim (sf_args f) \<noteq> [] \<or> sf_id_locked f"

definition working_directory_policy_options :: "string \<Rightarrow> string list" where
  "working_directory_policy_options current =
     (let known = [''package_root'', ''relative'']; t = trim current in
      if t \<noteq> [] \<and> t \<notin> set known then known @ [t] else known)"

definition working_directory_policy_select_value :: "string \<Rightarrow> string" where
  "working_directory_policy_select_value policy = (if trim policy = [] then ''package_root'' else trim policy)"

text \<open>The hook's form and pending deletion, and what the handlers of its dispatches do to them.\<close>

record session_type_control =
  tc_form :: "session_type_form option"
  tc_delete :: "json option"

definition open_create_session_type :: "session_type_control \<Rightarrow> session_type_control" where
  "open_create_session_type s = s\<lparr>tc_form := Some (create_session_type_form Preset_agent)\<rparr>"

definition edit_loaded :: "bool \<Rightarrow> json option \<Rightarrow> session_type_control \<Rightarrow> session_type_control" where
  "edit_loaded accepted result s =
     (if \<not> accepted then s
      else (case session_type_form_from_authoring_definition (field ''session_type_definition'' result) of
          None \<Rightarrow> s | Some f \<Rightarrow> s\<lparr>tc_form := Some f\<rparr>))"

definition submit_session_type_control :: "session_type_control \<Rightarrow> session_type_control \<times> action_binding option" where
  "submit_session_type_control s =
     (let (form, a) = submit_session_type_form (tc_form s) in (s\<lparr>tc_form := form\<rparr>, a))"

definition submit_answered :: "bool \<Rightarrow> string option \<Rightarrow> json option \<Rightarrow> session_type_control \<Rightarrow> session_type_control" where
  "submit_answered accepted reason result s =
     (if accepted then s\<lparr>tc_form := None\<rparr>
      else s\<lparr>tc_form := map_option (\<lambda>f. rejected_session_type_form f reason result) (tc_form s)\<rparr>)"

definition submit_failed :: "string option \<Rightarrow> session_type_control \<Rightarrow> session_type_control" where
  "submit_failed message s = s\<lparr>tc_form := map_option (\<lambda>f. f\<lparr>sf_submitting := False,
     sf_error := Some (or_else message ''Botster could not save this session type.'')\<rparr>) (tc_form s)\<rparr>"

definition confirm_delete_session_type :: "session_type_control \<Rightarrow> session_type_control \<times> action_binding option" where
  "confirm_delete_session_type s =
     (let row = tc_delete s; i = string_value (field ''definition_id'' row) [] in
      if i = [] then (s, None)
      else (s\<lparr>tc_delete := None\<rparr>, Some \<lparr>ab_id = ''botster.session_type.daemon_request'',
        ab_target = Some (string_value (field ''session_type_id'' row) (read_config_string (field ''id'' row) [])),
        ab_label = Some ''Delete session type'', ab_disabled = None,
        ab_params = Some [(''daemon_request'', obj [(''request_type'', text_json ''delete_session_type''),
          (''source'', Some (session_type_mutation_source_from_record row)), (''session_type_id'', text_json i)])],
        ab_plugin_surface = None\<rparr>))"

subsection \<open>An unchanged edit\<close>

lemma untouched_seeds [simp]:
  "token_list_from_form (join_token_list xs) (Some xs) = xs"
  "environment_from_form (format_metadata m) (Some m) = m"
  by (simp_all add: token_list_from_form_def environment_from_form_def)

text \<open>What the Hub's definition of a session type says; a text or list that is left out is empty.\<close>

record hub_definition =
  hd_id :: string
  hd_label :: string
  hd_description :: string
  hd_icon :: string
  hd_role :: string
  hd_interaction :: string
  hd_traits :: "string list"
  hd_lifecycle :: string
  hd_shell_command :: bool
  hd_command :: string
  hd_args :: "string list"
  hd_relative_to :: "string option"
  hd_environment :: "(string \<times> string) list"
  hd_overrides :: "string list"
  hd_context :: "string list"
  hd_target_id :: string

definition says_text :: "json option \<Rightarrow> string \<Rightarrow> bool" where
  "says_text v s \<longleftrightarrow> v = text_json s \<or> s = [] \<and> v \<in> {None, Some J_null}"

definition says_texts :: "json option \<Rightarrow> string list \<Rightarrow> bool" where
  "says_texts v xs \<longleftrightarrow> v = texts_json xs \<or> xs = [] \<and> v = None"

abbreviation pairs_json :: "(string \<times> string) list \<Rightarrow> json option" where
  "pairs_json m \<equiv> Some (J_object (map (\<lambda>(k, x). (k, J_string x)) m))"

definition says_pairs :: "json option \<Rightarrow> (string \<times> string) list \<Rightarrow> bool" where
  "says_pairs v m \<longleftrightarrow> v = pairs_json m \<or> m = [] \<and> v = None"

definition says_directory :: "json option \<Rightarrow> string option \<Rightarrow> bool" where
  "says_directory v r \<longleftrightarrow> (case r of
     None \<Rightarrow> v = None \<or> field ''policy'' v = text_json ''package_root''
   | Some p \<Rightarrow> field ''policy'' v = text_json ''relative'' \<and> field ''path'' v = text_json p)"

definition says_execution :: "json option \<Rightarrow> bool \<Rightarrow> bool" where
  "says_execution v shell \<longleftrightarrow>
     (if shell then field ''mode'' v = text_json ''shell_command''
      else v = None \<or> field ''mode'' v = text_json ''relative_executable'')"

definition says_definition :: "json option \<Rightarrow> hub_definition \<Rightarrow> bool" where
  "says_definition d h \<longleftrightarrow>
     list_all (\<lambda>(k, s). says_text (field k d) s)
       [(''id'', hd_id h), (''label'', hd_label h), (''description'', hd_description h), (''icon'', hd_icon h),
        (''role'', hd_role h), (''interaction'', hd_interaction h), (''lifecycle'', hd_lifecycle h),
        (''command'', hd_command h), (''target_id'', hd_target_id h)]
     \<and> list_all (\<lambda>(k, xs). says_texts (field k d) xs)
       [(''traits'', hd_traits h), (''args'', hd_args h), (''allowed_environment_overrides'', hd_overrides h),
        (''context'', hd_context h)]
     \<and> says_pairs (field ''environment'' d) (hd_environment h)
     \<and> says_execution (field ''execution'' d) (hd_shell_command h)
     \<and> says_directory (field ''working_directory'' d) (hd_relative_to h)"

text \<open>The home of a session type: the device, or the repository of a spawn point\<close>

definition says_home :: "json option \<Rightarrow> string option \<Rightarrow> bool" where
  "says_home v home \<longleftrightarrow> (case home of
     None \<Rightarrow> field ''source'' v = text_json ''device''
   | Some t \<Rightarrow> field ''source'' v = text_json ''repo'' \<and> field ''target_id'' v = text_json t)"

text \<open>
  What the Hub may be asked to write: the required texts are there, no text begins or ends with a
  blank (the form trims them), and a relative directory has a path (the empty one is lost, see below).
\<close>

definition savable :: "string option \<Rightarrow> hub_definition \<Rightarrow> bool" where
  "savable home h \<longleftrightarrow>
     list_all (\<lambda>s. s \<noteq> []) [hd_id h, hd_label h, hd_role h, hd_interaction h, hd_lifecycle h, hd_command h]
     \<and> list_all (\<lambda>s. trim s = s) [hd_id h, hd_label h, hd_description h, hd_icon h, hd_role h, hd_interaction h,
         hd_lifecycle h, hd_command h, hd_target_id h]
     \<and> (case hd_relative_to h of None \<Rightarrow> True | Some p \<Rightarrow> p \<noteq> [] \<and> trim p = p)
     \<and> (case home of None \<Rightarrow> True | Some t \<Rightarrow> trim t \<noteq> [])"

text \<open>The request an unchanged edit should make, field by field.\<close>

definition home_sent :: "string option \<Rightarrow> json" where
  "home_sent home = (case home of
     None \<Rightarrow> obj [(''source'', text_json ''device'')]
   | Some t \<Rightarrow> obj [(''source'', text_json ''repo''), (''target_id'', text_json t)])"

definition definition_sent :: "hub_definition \<Rightarrow> json" where
  "definition_sent h =
     (let text_if_any = (\<lambda>s. if s = [] then None else text_json s);
          texts_if_any = (\<lambda>xs. if xs = [] then None else texts_json xs)
      in obj
       [(''id'', text_json (hd_id h)), (''label'', text_json (hd_label h)),
        (''description'', text_if_any (hd_description h)), (''icon'', text_if_any (hd_icon h)),
        (''role'', text_json (hd_role h)), (''interaction'', text_json (hd_interaction h)),
        (''traits'', texts_if_any (hd_traits h)), (''lifecycle'', text_json (hd_lifecycle h)),
        (''execution'', Some (obj [(''mode'',
           text_json (if hd_shell_command h then ''shell_command'' else ''relative_executable''))])),
        (''command'', text_json (hd_command h)), (''args'', texts_if_any (hd_args h)),
        (''working_directory'', Some (case hd_relative_to h of
             None \<Rightarrow> obj [(''policy'', text_json ''package_root'')]
           | Some p \<Rightarrow> obj [(''policy'', text_json ''relative''), (''path'', text_json p)])),
        (''environment'', if hd_environment h = [] then None else pairs_json (hd_environment h)),
        (''allowed_environment_overrides'', texts_if_any (hd_overrides h)),
        (''context'', texts_if_any (hd_context h)), (''target_id'', text_if_any (hd_target_id h))])"

lemma trim_Nil [simp]: "trim [] = []"
  by (simp add: trim_def)

lemma authoring_form:
  assumes "session_type_form_from_authoring_definition e = Some f"
  defines "d \<equiv> field ''definition'' e"
  shows "sf_mode f = Edit" "sf_source f = string_value (field ''source'' (field ''source'' e)) []"
    and "sf_source f \<noteq> []"
    and "sf_source_target_id f = (if sf_source f = ''repo'' then string_value (field ''target_id'' (field ''source'' e)) [] else [])"
    and "sf_id f = string_value (field ''id'' d) []" "sf_label f = string_value (field ''label'' d) []"
    and "sf_description f = string_value (field ''description'' d) []" "sf_icon f = string_value (field ''icon'' d) []"
    and "sf_role f = string_value (field ''role'' d) []" "sf_interaction f = string_value (field ''interaction'' d) []"
    and "sf_lifecycle f = string_value (field ''lifecycle'' d) []" "sf_command f = string_value (field ''command'' d) []"
    and "sf_definition_target_id f = string_value (field ''target_id'' d) []"
    and "sf_shell_command f = (string_value (field ''mode'' (field ''execution'' d)) ''relative_executable'' = ''shell_command'')"
    and "sf_working_directory_policy f = string_value (field ''policy'' (field ''working_directory'' d)) ''package_root''"
    and "sf_working_directory_path f = string_value (field ''path'' (field ''working_directory'' d)) []"
    and "token_list_from_form (sf_traits f) (sf_seeded_traits f) = string_array (field ''traits'' d)"
    and "token_list_from_form (sf_args f) (sf_seeded_args f) = string_array (field ''args'' d)"
    and "token_list_from_form (sf_context_keys f) (sf_seeded_context f) = string_array (field ''context'' d)"
    and "token_list_from_form (sf_allowed_environment_overrides f) (sf_seeded_overrides f)
      = string_array (field ''allowed_environment_overrides'' d)"
    and "environment_from_form (sf_environment f) (sf_seeded_environment f) = string_pairs (field ''environment'' d)"
  using assms unfolding session_type_form_from_authoring_definition_def Let_def
  by (auto simp: d_def split: if_split_asm)

lemma string_of_texts [simp]: "filter (\<lambda>x. \<exists>y. string_of (Some x) = Some y) (map J_string xs) = map J_string xs"
  by (induction xs) auto

lemma says_text_value: "says_text v s \<Longrightarrow> string_value v [] = s"
  by (auto simp: says_text_def string_value_def)

lemma says_texts_array: "says_texts v xs \<Longrightarrow> string_array v = xs"
  by (auto simp: says_texts_def string_array_def List.map_filter_def comp_def)

lemma says_pairs_value: "says_pairs v m \<Longrightarrow> string_pairs v = m"
  by (auto simp: says_pairs_def string_pairs_def List.map_filter_def filter_map comp_def case_prod_unfold)

lemma string_list_texts [simp]: "string_list (texts_json xs) = (if xs = [] then None else texts_json xs)"
  by (simp add: string_list_def Let_def)

lemma string_record_pairs_json [simp]: "string_record (pairs_json m) = map (\<lambda>(k, x). (k, J_string x)) m"
  by (simp add: string_record_def filter_map comp_def case_prod_unfold)

lemma says_definition_sent: "says_definition (Some (definition_sent h)) h"
  by (simp add: says_definition_def definition_sent_def Let_def says_text_def says_texts_def says_pairs_def
      says_execution_def says_directory_def split: option.split)

lemma says_execution_value:
  "says_execution v shell \<Longrightarrow> (string_value (field ''mode'' v) ''relative_executable'' = ''shell_command'') = shell"
  by (cases v) (auto simp: says_execution_def string_value_def field_def split: if_splits)

lemma says_definition_parts:
  assumes "says_definition d h"
  shows "string_value (field ''id'' d) [] = hd_id h" "string_value (field ''label'' d) [] = hd_label h"
    and "string_value (field ''description'' d) [] = hd_description h" "string_value (field ''icon'' d) [] = hd_icon h"
    and "string_value (field ''role'' d) [] = hd_role h" "string_value (field ''interaction'' d) [] = hd_interaction h"
    and "string_value (field ''lifecycle'' d) [] = hd_lifecycle h" "string_value (field ''command'' d) [] = hd_command h"
    and "string_value (field ''target_id'' d) [] = hd_target_id h" "string_array (field ''traits'' d) = hd_traits h"
    and "string_array (field ''args'' d) = hd_args h" "string_array (field ''context'' d) = hd_context h"
    and "string_array (field ''allowed_environment_overrides'' d) = hd_overrides h"
    and "string_pairs (field ''environment'' d) = hd_environment h"
    and "(string_value (field ''mode'' (field ''execution'' d)) ''relative_executable'' = ''shell_command'') = hd_shell_command h"
    and "says_directory (field ''working_directory'' d) (hd_relative_to h)"
  using assms unfolding says_definition_def
  by (simp_all add: says_text_value says_texts_array says_pairs_value says_execution_value)

lemma opened_form:
  assumes "says_home (field ''source'' e) home" "says_definition (field ''definition'' e) h" "savable home h"
  obtains f where "session_type_form_from_authoring_definition e = Some f"
proof -
  let ?d = "field ''definition'' e"
  have "field ''id'' ?d = text_json (hd_id h)" "hd_id h \<noteq> []"
    using assms(2,3) by (auto simp: says_definition_def says_text_def savable_def)
  moreover have "string_value (field ''source'' (field ''source'' e)) [] \<noteq> []"
    using assms(1) by (auto simp: says_home_def string_value_def split: option.splits)
  ultimately have "session_type_form_from_authoring_definition e \<noteq> None"
    by (simp add: session_type_form_from_authoring_definition_def Let_def)
  then show thesis using that by blast
qed

lemma opened_source:
  assumes "session_type_form_from_authoring_definition e = Some f" "says_home (field ''source'' e) home" "savable home h"
  shows "form_mutation_source f = home_sent home" "sf_source f = ''repo'' \<Longrightarrow> trim (sf_source_target_id f) \<noteq> []"
    and "session_type_mutation_source (Some (home_sent home)) = Some (home_sent home)"
  using assms(2,3) authoring_form(2,4) [OF assms(1)]
  by (auto simp: says_home_def home_sent_def form_mutation_source_def string_value_def savable_def
      session_type_mutation_source_def Let_def split: option.splits)

lemma opened_directory:
  assumes "sf_working_directory_policy f = string_value (field ''policy'' v) ''package_root''"
    and "sf_working_directory_path f = string_value (field ''path'' v) []"
    and "says_directory v r" "case r of None \<Rightarrow> True | Some p \<Rightarrow> p \<noteq> [] \<and> trim p = p"
    and "field ''working_directory'' w = Some (form_working_directory f)"
  shows "authored_directory w = Some (case r of None \<Rightarrow> obj [(''policy'', text_json ''package_root'')]
    | Some p \<Rightarrow> obj [(''policy'', text_json ''relative''), (''path'', text_json p)])"
proof -
  have t: "trim ''package_root'' = ''package_root''" "trim ''relative'' = ''relative''" "field k None = None" for k
    by (simp_all add: trim_def blank_def field_def)
  show ?thesis using assms(3,4)
    by (auto simp: authored_directory_def assms(1,2,5) form_working_directory_def says_directory_def string_value_def
        t Let_def split: option.splits)
qed

lemma opened_definition:
  assumes "session_type_form_from_authoring_definition e = Some f"
    and "says_definition (field ''definition'' e) h" "savable home h"
  shows "session_type_definition (Some (session_type_definition_from_form f)) = Some (definition_sent h)"
    and "trim (sf_id f) \<noteq> []" "trim (sf_label f) \<noteq> []" "trim (sf_role f) \<noteq> []" "trim (sf_interaction f) \<noteq> []"
    and "trim (sf_lifecycle f) \<noteq> []" "trim (sf_command f) \<noteq> []"
proof -
  let ?w = "Some (session_type_definition_from_form f)"
  note f = authoring_form [OF assms(1)] and h = says_definition_parts [OF assms(2)]
  have t: "trim (hd_id h) = hd_id h" "trim (hd_label h) = hd_label h" "trim (hd_description h) = hd_description h"
    "trim (hd_icon h) = hd_icon h" "trim (hd_role h) = hd_role h" "trim (hd_interaction h) = hd_interaction h"
    "trim (hd_lifecycle h) = hd_lifecycle h" "trim (hd_command h) = hd_command h" "trim (hd_target_id h) = hd_target_id h"
    and ne: "hd_id h \<noteq> []" "hd_label h \<noteq> []" "hd_role h \<noteq> []" "hd_interaction h \<noteq> []" "hd_lifecycle h \<noteq> []"
      "hd_command h \<noteq> []"
    and r: "case hd_relative_to h of None \<Rightarrow> True | Some p \<Rightarrow> p \<noteq> [] \<and> trim p = p"
    using assms(3) by (simp_all add: savable_def)
  show "trim (sf_id f) \<noteq> []" "trim (sf_label f) \<noteq> []" "trim (sf_role f) \<noteq> []" "trim (sf_interaction f) \<noteq> []"
    "trim (sf_lifecycle f) \<noteq> []" "trim (sf_command f) \<noteq> []"
    by (simp_all add: f h t ne)
  have dir: "authored_directory ?w = Some (case hd_relative_to h of None \<Rightarrow> obj [(''policy'', text_json ''package_root'')]
      | Some p \<Rightarrow> obj [(''policy'', text_json ''relative''), (''path'', text_json p)])"
    by (rule opened_directory [OF f(15,16) h(16) r]) (simp add: session_type_definition_from_form_def)
  note w = session_type_definition_from_form_def f h t
  have env: "authored_environment ?w = (if hd_environment h = [] then None else pairs_json (hd_environment h))"
    by (simp add: authored_environment_def w Let_def)
  have "execution_mode ?w = Some (if hd_shell_command h then ''shell_command'' else ''relative_executable'')"
    by (simp add: execution_mode_def w Let_def)
  moreover have "authored_definition ?w m = definition_sent h"
    if "m = (if hd_shell_command h then ''shell_command'' else ''relative_executable'')" for m
    unfolding authored_definition_def dir env definition_sent_def Let_def that by (simp add: w present_def)
  ultimately show "session_type_definition ?w = Some (definition_sent h)"
    by (simp add: session_type_definition_def) (simp add: w ne)
qed

text \<open>
  C32. An unchanged edit is lossless. Let the Hub's authoring entry say any definition \<open>h\<close>, of the
  device or of a repository, that can be saved: its required texts are there, no text begins or ends
  with a blank (the form trims them) and a relative working directory has a path. Then the entry opens
  as a form, the form as it is may be submitted, and the request the transport makes of it is an
  update of the same source with exactly the definition \<open>h\<close>, written out here field by field: label,
  description, icon, role, traits, execution mode, command, arguments, working directory (the default
  one written out), environment, overrides, context and target. Arguments, traits, context keys and
  environment values survive also where the form's texts could not be parsed back. A definition of a
  package is left out (the form forgets its name).
\<close>

theorem session_type_edit_lossless:
  assumes "says_home (field ''source'' e) home" "says_definition (field ''definition'' e) h" "savable home h"
  shows "\<exists>f a. session_type_form_from_authoring_definition e = Some f
    \<and> snd (submit_session_type_form (Some f)) = Some a
    \<and> session_type_request_from_action a = Some (request_of ''update_session_type''
        [(''source'', Some (home_sent home)), (''definition'', Some (definition_sent h))])
    \<and> says_definition (Some (definition_sent h)) h \<and> says_home (Some (home_sent home)) home"
proof -
  obtain f where f: "session_type_form_from_authoring_definition e = Some f" by (rule opened_form [OF assms])
  note d = opened_definition [OF f assms(2,3)] and src = opened_source [OF f assms(1,3)]
  have "\<not> sf_submitting f"
    using f unfolding session_type_form_from_authoring_definition_def Let_def by (auto split: if_split_asm)
  moreover have "session_type_form_is_structurally_complete f"
    using d src(2) by (simp add: session_type_form_is_structurally_complete_def)
  ultimately have "snd (submit_session_type_form (Some f)) = Some (submit_session_type f)"
    by (simp add: submit_session_type_form_def)
  moreover have "session_type_request_from_action (submit_session_type f) = Some (request_of ''update_session_type''
      [(''source'', Some (home_sent home)), (''definition'', Some (definition_sent h))])"
    by (simp add: session_type_request_from_action_def submit_session_type_def param_def authoring_form(1) [OF f] Let_def
        src d(1))
  moreover have "says_home (Some (home_sent home)) home" by (simp add: says_home_def home_sent_def split: option.split)
  ultimately show ?thesis using f says_definition_sent by blast
qed

definition claude_definition :: hub_definition where
  "claude_definition = \<lparr>hd_id = ''claude'', hd_label = ''Claude'', hd_description = [], hd_icon = ''bot'',
     hd_role = ''botster.agent'', hd_interaction = ''interactive'', hd_traits = [''terminal''], hd_lifecycle = ''task'',
     hd_shell_command = True, hd_command = ''claude'', hd_args = [''-p'', ''a, b''], hd_relative_to = Some ''tools'',
     hd_environment = [(''MOTD'', ''a'' @ [CHR 0x0A] @ '' b=c'')], hd_overrides = [], hd_context = [''prompt''],
     hd_target_id = []\<rparr>"

definition authored_claude :: json where
  "authored_claude = obj
     [(''session_type_id'', text_json ''repo:claude''),
      (''source'', Some (obj [(''source'', text_json ''repo''), (''target_id'', text_json ''main'')])),
      (''definition'', Some (obj
        [(''id'', text_json ''claude''), (''label'', text_json ''Claude''), (''description'', Some J_null),
         (''icon'', text_json ''bot''), (''role'', text_json ''botster.agent''),
         (''interaction'', text_json ''interactive''), (''traits'', texts_json [''terminal'']),
         (''lifecycle'', text_json ''task''), (''execution'', Some (obj [(''mode'', text_json ''shell_command'')])),
         (''command'', text_json ''claude''), (''args'', texts_json [''-p'', ''a, b'']),
         (''working_directory'', Some (obj [(''policy'', text_json ''relative''), (''path'', text_json ''tools'')])),
         (''environment'', Some (obj [(''MOTD'', text_json (''a'' @ [CHR 0x0A] @ '' b=c''))])),
         (''allowed_environment_overrides'', texts_json []), (''context'', texts_json [''prompt''])]))]"

theorem session_type_edit_lossless_witness:
  "\<exists>f a d. session_type_form_from_authoring_definition (Some authored_claude) = Some f
    \<and> snd (submit_session_type_form (Some f)) = Some a
    \<and> field ''definition'' (session_type_request_from_action a) = Some d
    \<and> field ''args'' (Some d) = texts_json [''-p'', ''a, b''] \<and> field ''icon'' (Some d) = text_json ''bot''
    \<and> field ''environment'' (Some d) = Some (obj [(''MOTD'', text_json (''a'' @ [CHR 0x0A] @ '' b=c''))])
    \<and> field ''context'' (Some d) = texts_json [''prompt'']
    \<and> field ''path'' (field ''working_directory'' (Some d)) = text_json ''tools''"
proof -
  let ?e = "Some authored_claude"
  have home: "says_home (field ''source'' ?e) (Some ''main'')" by (simp add: says_home_def authored_claude_def)
  have def: "says_definition (field ''definition'' ?e) claude_definition"
    by (simp add: says_definition_def authored_claude_def claude_definition_def says_text_def says_texts_def
        says_pairs_def says_execution_def says_directory_def) (simp add: obj_def List.map_filter_simps)
  have ok: "savable (Some ''main'') claude_definition"
    by (simp add: savable_def claude_definition_def trim_def blank_def)
  obtain f a where
    "session_type_form_from_authoring_definition ?e = Some f" "snd (submit_session_type_form (Some f)) = Some a"
    and r: "session_type_request_from_action a = Some (request_of ''update_session_type''
        [(''source'', Some (home_sent (Some ''main''))), (''definition'', Some (definition_sent claude_definition))])"
    using session_type_edit_lossless [OF home def ok] by blast
  moreover have "field ''definition'' (session_type_request_from_action a) = Some (definition_sent claude_definition)"
    by (simp add: r request_of_def)
  moreover have "let d = Some (definition_sent claude_definition) in
      field ''args'' d = texts_json [''-p'', ''a, b''] \<and> field ''icon'' d = text_json ''bot''
      \<and> field ''environment'' d = Some (obj [(''MOTD'', text_json (''a'' @ [CHR 0x0A] @ '' b=c''))])
      \<and> field ''context'' d = texts_json [''prompt'']
      \<and> field ''path'' (field ''working_directory'' d) = text_json ''tools''"
    by (simp add: definition_sent_def claude_definition_def Let_def) (simp add: obj_def List.map_filter_simps)
  ultimately show ?thesis by (simp add: Let_def)
qed

text \<open>
  A relative working directory without a path is lost. The form keeps the empty path, which the
  protocol requires of a relative directory, but the transport then leaves the working directory
  out, so the Hub runs the session type in the source root.
\<close>

theorem empty_relative_path_lost:
  fixes g :: session_type_form
  shows "let f = g\<lparr>sf_working_directory_policy := ''relative'', sf_working_directory_path := []\<rparr>;
      d = session_type_definition_from_form f in
    field ''path'' (field ''working_directory'' (Some d)) = text_json []
    \<and> (case session_type_definition (Some d) of None \<Rightarrow> True | Some x \<Rightarrow> field ''working_directory'' (Some x) = None)"
proof -
  let ?d = "session_type_definition_from_form (g\<lparr>sf_working_directory_policy := ''relative'', sf_working_directory_path := []\<rparr>)"
  have p: "trim ''relative'' = ''relative''" by (simp add: trim_def blank_def)
  have w: "field ''working_directory'' (Some ?d) = Some (obj [(''policy'', text_json ''relative''), (''path'', text_json [])])"
    by (simp add: session_type_definition_from_form_def form_working_directory_def p)
  have "authored_directory (Some ?d) = None" by (simp add: authored_directory_def w)
  then have "field ''working_directory'' (Some (authored_definition (Some ?d) m)) = None" for m
    by (simp add: authored_definition_def Let_def)
  then show ?thesis by (simp add: w Let_def session_type_definition_def split: option.split)
qed

subsection \<open>Names and groups\<close>

lemma dash_runs_chars: "c \<in> set (dash_runs b s) \<Longrightarrow> id_char c \<or> c = CHR ''-''"
  by (induction b s rule: dash_runs.induct) (auto split: if_splits)

lemma strip_dashes_head: "strip_dashes s = c # cs \<Longrightarrow> c \<noteq> CHR ''-''"
proof -
  assume a: "strip_dashes s = c # cs"
  let ?t = "dropWhile (\<lambda>c. c = CHR ''-'') s"
  obtain ys where y: "?t = strip_dashes s @ ys"
    unfolding strip_dashes_def by (metis rev_append rev_rev_ident takeWhile_dropWhile_id)
  show "c \<noteq> CHR ''-''" using hd_dropWhile [of "\<lambda>c. c = CHR ''-''" s] y a by auto
qed

text \<open>A derived identifier has at most 128 characters, of the allowed kinds, and begins with no dash.\<close>

lemma session_type_id_shape:
  "length (session_type_id_from_name lc name) \<le> 128"
  "c \<in> set (session_type_id_from_name lc name) \<Longrightarrow> id_char c \<or> c = CHR ''-''"
  "session_type_id_from_name lc name = c # cs \<Longrightarrow> c \<noteq> CHR ''-''"
proof -
  let ?s = "strip_dashes (dash_runs False (lc (trim name)))"
  show "length (session_type_id_from_name lc name) \<le> 128" by (simp add: session_type_id_from_name_def)
  show "id_char c \<or> c = CHR ''-''" if "c \<in> set (session_type_id_from_name lc name)"
  proof -
    have "c \<in> set ?s" using that unfolding session_type_id_from_name_def by (rule in_set_takeD)
    then have "c \<in> set (dash_runs False (lc (trim name)))"
      unfolding strip_dashes_def by (auto dest!: set_dropWhileD)
    then show ?thesis by (rule dash_runs_chars)
  qed
  show "c \<noteq> CHR ''-''" if "session_type_id_from_name lc name = c # cs"
    using that strip_dashes_head by (cases ?s) (auto simp: session_type_id_from_name_def)
qed

text \<open>A group holds the rows of its source, in their order.\<close>

lemma group_rows_of:
  "map_of (group_rows rows groups) t =
     (let xs = filter (\<lambda>r. string_value (field ''source'' (Some r)) [] = t) rows in
      case map_of groups t of None \<Rightarrow> if xs = [] then None else Some xs | Some ys \<Rightarrow> Some (ys @ xs))"
  by (induction rows groups rule: group_rows.induct) (auto simp: Let_def update_conv' split: option.split)

end
