(* ===== verification/Routing.thy ===== *)
theory Routing
  imports Session_Type_Forms
begin

text \<open>
  The routes of \<open>src/app/routing.ts\<close>: a path read as a route and a route written as a path.

  \<^item> \<open>encodeURIComponent\<close> and \<open>decodeURIComponent\<close> are fields of the record \<open>uri\<close>; decoding throws on a
    malformed escape (\<open>None\<close>), and so does reading the path.
  \<^item> An absent property and one that is \<open>undefined\<close> or \<open>false\<close> are the same here: every reader tests
    truth only.
\<close>

subsection \<open>Routes\<close>

datatype settings_section = General | Spawn_points | Session_types | Extensions | Support

definition hub_settings_sections :: "(settings_section \<times> string) list" where
  "hub_settings_sections = [(General, ''general''), (Spawn_points, ''spawn-points''), (Session_types, ''session-types''),
     (Extensions, ''extensions''), (Support, ''support'')]"

datatype app_route =
    Dashboard
  | Apps "string option" "string option" bool
  | Hub_settings "settings_section option"
  | Session_route string

record uri =
  uri_encode :: "string \<Rightarrow> string"
  uri_decode :: "string \<Rightarrow> string option"

definition section_name :: "settings_section \<Rightarrow> string" where
  "section_name x = the (map_of hub_settings_sections x)"

definition section_named :: "string \<Rightarrow> settings_section" where
  "section_named s = (case find (\<lambda>(x, n). n = s) hub_settings_sections of Some (x, _) \<Rightarrow> x | None \<Rightarrow> General)"

subsection \<open>Reading a path\<close>

definition normalized_path :: "string \<Rightarrow> string" where
  "normalized_path p =
     (let q = rev (dropWhile (\<lambda>c. c = CHR ''/'') (rev p)) in if q = [] then ''/'' else q)"

definition starts_with :: "string \<Rightarrow> string \<Rightarrow> bool" where
  "starts_with p s \<longleftrightarrow> take (length p) s = p"

fun decode_all :: "uri \<Rightarrow> string list \<Rightarrow> string list option" where
  "decode_all u [] = Some []"
| "decode_all u (s # ss) =
     (case uri_decode u s of None \<Rightarrow> None | Some t \<Rightarrow> map_option ((#) t) (decode_all u ss))"

definition path_segments :: "uri \<Rightarrow> string \<Rightarrow> string list option" where
  "path_segments u p = decode_all u (filter (\<lambda>s. s \<noteq> []) (split_at (\<lambda>c. c = CHR ''/'') p))"

definition segment :: "string list \<Rightarrow> nat \<Rightarrow> string option" where
  "segment ss i = (if i < length ss then Some (ss ! i) else None)"

definition packages_route :: "string list \<Rightarrow> app_route" where
  "packages_route ss =
     (case segment ss 0 of None \<Rightarrow> Apps None None False
      | Some p \<Rightarrow>
          if p = [] then Apps None None False
          else if segment ss 1 = Some ''settings'' then Apps (Some p) None True
          else if segment ss 1 = Some ''surfaces'' \<and> or_else (segment ss 2) [] \<noteq> [] then Apps (Some p) (segment ss 2) False
          else Apps (Some p) None False)"

definition apps_route :: "string list \<Rightarrow> app_route" where
  "apps_route ss =
     (case segment ss 0 of None \<Rightarrow> Apps None None False
      | Some p \<Rightarrow>
          if p = [] then Apps None None False
          else if segment ss 1 = Some ''settings'' then Apps (Some p) (segment ss 2) True
          else Apps (Some p) (segment ss 1) False)"

definition other_route :: "uri \<Rightarrow> string \<Rightarrow> app_route option" where
  "other_route u p =
     (if p = ''/settings'' \<or> starts_with ''/settings/'' p then Some (Hub_settings (Some (section_named (drop 10 p))))
      else if p = ''/apps'' then Some (Apps None None False)
      else if starts_with ''/packages/'' p then map_option packages_route (path_segments u (drop 10 p))
      else if starts_with ''/apps/'' p then map_option apps_route (path_segments u (drop 6 p))
      else Some Dashboard)"

definition app_route_from_pathname :: "uri \<Rightarrow> string \<Rightarrow> app_route option" where
  "app_route_from_pathname u pathname =
     (let p = normalized_path pathname in
      if p = ''/diagnostics'' \<or> starts_with ''/diagnostics/'' p then Some (Hub_settings (Some Support))
      else if p = ''/spawn-points'' \<or> starts_with ''/spawn-points/'' p then Some (Hub_settings (Some Spawn_points))
      else if starts_with ''/sessions/'' p then
        (case uri_decode u (drop 10 p) of None \<Rightarrow> None
         | Some i \<Rightarrow> if i \<noteq> [] then Some (Session_route i) else other_route u p)
      else other_route u p)"

definition supports_hub_route_path :: "uri \<Rightarrow> string option \<Rightarrow> bool option" where
  "supports_hub_route_path u route_path =
     (case route_path of None \<Rightarrow> Some False
      | Some p \<Rightarrow> if p = [] then Some False
          else map_option (\<lambda>r. case r of Apps (Some q) _ _ \<Rightarrow> q \<noteq> [] | _ \<Rightarrow> False) (app_route_from_pathname u p))"

subsection \<open>Writing a path\<close>

definition app_route_path :: "uri \<Rightarrow> app_route \<Rightarrow> string" where
  "app_route_path u r =
     (case r of
        Hub_settings section \<Rightarrow> (case section of None \<Rightarrow> ''/settings'' | Some x \<Rightarrow> ''/settings/'' @ section_name x)
      | Session_route i \<Rightarrow> ''/sessions/'' @ uri_encode u i
      | Dashboard \<Rightarrow> ''/dashboard''
      | Apps package surface settings \<Rightarrow>
          (let p = or_else package []; s = or_else surface [] in
           if p = [] then ''/apps''
           else if settings then
             ''/apps/'' @ uri_encode u p @ ''/settings'' @ (if s = [] then [] else ''/'' @ uri_encode u s)
           else if s \<noteq> [] then ''/apps/'' @ uri_encode u p @ ''/'' @ uri_encode u s
           else ''/apps''))"

subsection \<open>Round trip\<close>

text \<open>What \<open>encodeURIComponent\<close> and \<open>decodeURIComponent\<close> are documented to do.\<close>

definition uri_ok :: "uri \<Rightarrow> bool" where
  "uri_ok u \<longleftrightarrow> (\<forall>s. uri_decode u (uri_encode u s) = Some s \<and> CHR ''/'' \<notin> set (uri_encode u s)
     \<and> (uri_encode u s = [] \<longleftrightarrow> s = []) \<and> (CHR ''%'' \<notin> set s \<longrightarrow> uri_decode u s = Some s))"

fun canonical_route :: "app_route \<Rightarrow> bool" where
  "canonical_route (Apps package surface settings) =
     (case package of None \<Rightarrow> surface = None \<and> \<not> settings
      | Some p \<Rightarrow> p \<noteq> [] \<and> surface \<noteq> Some [] \<and> (settings \<or> surface \<noteq> None \<and> surface \<noteq> Some ''settings''))"
| "canonical_route (Hub_settings section) = (section \<noteq> None)"
| "canonical_route (Session_route i) = (i \<noteq> [])"
| "canonical_route Dashboard = True"

lemma split_at_none: "\<forall>c \<in> set s. \<not> p c \<Longrightarrow> split_at p s = [s]"
  by (induction s) auto

lemma split_at_append:
  "\<forall>c \<in> set s. \<not> p c \<Longrightarrow> p d \<Longrightarrow> split_at p (s @ d # t) = s # split_at p t"
  by (induction s) auto

lemma normalized_path_idle: "p \<noteq> [] \<Longrightarrow> last p \<noteq> CHR ''/'' \<Longrightarrow> normalized_path p = p"
  by (cases p rule: rev_cases) (auto simp: normalized_path_def)

lemma uri_okD:
  assumes "uri_ok u"
  shows "uri_decode u (uri_encode u s) = Some s" "\<forall>c \<in> set (uri_encode u s). c \<noteq> CHR ''/''"
    and "uri_encode u s = [] \<longleftrightarrow> s = []" "CHR ''%'' \<notin> set s \<Longrightarrow> uri_decode u s = Some s"
proof -
  have "uri_decode u (uri_encode u s) = Some s \<and> CHR ''/'' \<notin> set (uri_encode u s) \<and> (uri_encode u s = [] \<longleftrightarrow> s = [])
      \<and> (CHR ''%'' \<notin> set s \<longrightarrow> uri_decode u s = Some s)"
    using assms unfolding uri_ok_def by blast
  then show "uri_decode u (uri_encode u s) = Some s" "\<forall>c \<in> set (uri_encode u s). c \<noteq> CHR ''/''"
    "uri_encode u s = [] \<longleftrightarrow> s = []" "CHR ''%'' \<notin> set s \<Longrightarrow> uri_decode u s = Some s" by auto
qed

lemma ends_encoded:
  assumes "uri_ok u" "s \<noteq> []"
  shows "normalized_path (p @ uri_encode u s) = p @ uri_encode u s"
proof -
  have "uri_encode u s \<noteq> []" using assms by (simp add: uri_okD)
  moreover from this have "last (uri_encode u s) \<noteq> CHR ''/''" using uri_okD(2) [OF assms(1), of s] by simp
  ultimately show ?thesis by (intro normalized_path_idle) simp_all
qed

lemma one_segment: "uri_ok u \<Longrightarrow> s \<noteq> [] \<Longrightarrow> path_segments u (uri_encode u s) = Some [s]"
  by (simp add: path_segments_def split_at_none uri_okD)

lemma next_segment:
  "uri_ok u \<Longrightarrow> s \<noteq> [] \<Longrightarrow> path_segments u (uri_encode u s @ CHR ''/'' # p) = map_option ((#) s) (path_segments u p)"
  by (simp add: path_segments_def split_at_append uri_okD)

text \<open>Every path below \<open>/apps/\<close> is read by \<open>apps_route\<close>.\<close>

lemma apps_path:
  assumes "normalized_path (''/apps/'' @ p) = ''/apps/'' @ p" "path_segments u p = Some ss"
  shows "app_route_from_pathname u (''/apps/'' @ p) = Some (apps_route ss)"
  using assms by (simp add: app_route_from_pathname_def other_route_def starts_with_def Let_def)

lemma app_settings_path:
  assumes "uri_ok u" "p \<noteq> []"
  shows "app_route_from_pathname u (''/apps/'' @ uri_encode u p @ ''/settings'') = Some (Apps (Some p) None True)"
    and "s \<noteq> [] \<Longrightarrow> app_route_from_pathname u (''/apps/'' @ uri_encode u p @ ''/settings/'' @ uri_encode u s)
      = Some (Apps (Some p) (Some s) True)"
proof -
  have d: "uri_decode u ''settings'' = Some ''settings''" by (rule uri_okD(4) [OF assms(1)]) simp
  have t: "path_segments u ''settings'' = Some [''settings'']" using d by (simp add: path_segments_def)
  have "app_route_from_pathname u (''/apps/'' @ uri_encode u p @ ''/settings'') = Some (apps_route [p, ''settings''])"
    using next_segment [OF assms, of "''settings''"] t
    by (intro apps_path) (simp_all add: normalized_path_idle)
  then show "app_route_from_pathname u (''/apps/'' @ uri_encode u p @ ''/settings'') = Some (Apps (Some p) None True)"
    using assms(2) by (simp add: apps_route_def segment_def)
  show "app_route_from_pathname u (''/apps/'' @ uri_encode u p @ ''/settings/'' @ uri_encode u s) = Some (Apps (Some p) (Some s) True)"
    if s: "s \<noteq> []"
  proof -
    have w: "path_segments u (''settings/'' @ uri_encode u s) = Some [''settings'', s]"
      using one_segment [OF assms(1) s] d by (simp add: path_segments_def)
    have "app_route_from_pathname u (''/apps/'' @ uri_encode u p @ ''/settings/'' @ uri_encode u s) = Some (apps_route [p, ''settings'', s])"
      using next_segment [OF assms, of "''settings/'' @ uri_encode u s"] w
        ends_encoded [OF assms(1) s, of "''/apps/'' @ uri_encode u p @ ''/settings/''"]
      by (intro apps_path) simp_all
    then show ?thesis using assms(2) by (simp add: apps_route_def segment_def)
  qed
qed

lemma section_path:
  "app_route_from_pathname u (''/settings/'' @ section_name x) = Some (Hub_settings (Some x))"
  by (cases x) (simp_all add: app_route_from_pathname_def other_route_def starts_with_def section_name_def section_named_def
      hub_settings_sections_def normalized_path_def Let_def)

text \<open>
  C33. A route survives its URL. Reading the path of a canonical route gives the route back, whatever
  the names of packages, surfaces and sessions hold. Canonical is every route with names that are
  not empty, except a package without a surface (its path is that of all apps), settings without a
  section (general is read) and an app surface named \<open>settings\<close>.
\<close>

theorem route_roundtrip:
  assumes "uri_ok u" "canonical_route r"
  shows "app_route_from_pathname u (app_route_path u r) = Some r"
proof (cases r)
  case Dashboard
  then show ?thesis
    by (simp add: app_route_path_def app_route_from_pathname_def other_route_def starts_with_def normalized_path_def Let_def)
next
  case (Hub_settings sec)
  then show ?thesis using assms(2) section_path by (cases sec) (auto simp: app_route_path_def)
next
  case (Session_route i)
  then have "normalized_path (''/sessions/'' @ uri_encode u i) = ''/sessions/'' @ uri_encode u i"
    using assms by (intro ends_encoded) simp_all
  then show ?thesis using assms Session_route
    by (simp add: app_route_path_def app_route_from_pathname_def starts_with_def uri_okD Let_def)
next
  case (Apps package surface settings)
  show ?thesis
  proof (cases package)
    case None
    then show ?thesis using assms(2) Apps
      by (simp add: app_route_path_def or_else_def app_route_from_pathname_def other_route_def starts_with_def
          normalized_path_def Let_def)
  next
    case (Some p)
    note e = ends_encoded [OF assms(1)] one_segment [OF assms(1)] next_segment [OF assms(1)]
    have p: "p \<noteq> []" "surface \<noteq> Some []" "settings \<or> surface \<noteq> None \<and> surface \<noteq> Some ''settings''"
      using assms(2) Apps Some by simp_all
    show ?thesis
    proof (cases settings)
      case True
      then show ?thesis using app_settings_path [OF assms(1) p(1)] p(1,2) Apps Some
        by (cases surface) (auto simp: app_route_path_def or_else_def)
    next
      case False
      then obtain s where s: "surface = Some s" "s \<noteq> []" "s \<noteq> ''settings''" using p by auto
      have "app_route_from_pathname u (''/apps/'' @ uri_encode u p @ ''/'' @ uri_encode u s) = Some (apps_route [p, s])"
        using e(1) [OF s(2), of "''/apps/'' @ uri_encode u p @ ''/''"] e(2) [OF s(2)] e(3) [OF p(1)]
        by (intro apps_path) simp_all
      then show ?thesis using False p s Apps Some
        by (simp add: app_route_path_def or_else_def apps_route_def segment_def)
    qed
  qed
qed

text \<open>A codec of this kind that escapes two characters only, and a route with both.\<close>

definition escape :: "char \<Rightarrow> string" where
  "escape c = (if c = CHR ''%'' then ''%25'' else if c = CHR ''/'' then ''%2F'' else [c])"

fun unescape :: "string \<Rightarrow> string option" where
  "unescape [] = Some []"
| "unescape (c # cs) =
     (if c \<noteq> CHR ''%'' then map_option ((#) c) (unescape cs)
      else (case cs of
          x # y # rest \<Rightarrow>
            if [x, y] = ''25'' then map_option ((#) CHR ''%'') (unescape rest)
            else if [x, y] = ''2F'' then map_option ((#) CHR ''/'') (unescape rest)
            else None
        | _ \<Rightarrow> None))"

definition small_uri :: uri where
  "small_uri = \<lparr>uri_encode = \<lambda>s. concat (map escape s), uri_decode = unescape\<rparr>"

lemma small_uri_ok: "uri_ok small_uri"
proof -
  have a: "unescape (concat (map escape s)) = Some s" for s by (induction s) (simp_all add: escape_def)
  have b: "CHR ''%'' \<notin> set s \<Longrightarrow> unescape s = Some s" for s by (induction s) auto
  show ?thesis unfolding uri_ok_def small_uri_def
    by (simp add: a b) (auto simp: escape_def split: if_splits)
qed

theorem route_roundtrip_witness:
  "app_route_path small_uri (Apps (Some ''acme/tools'') (Some ''100%'') False) = ''/apps/acme%2Ftools/100%25''
   \<and> app_route_from_pathname small_uri ''/apps/acme%2Ftools/100%25'' = Some (Apps (Some ''acme/tools'') (Some ''100%'') False)"
proof -
  have p: "app_route_path small_uri (Apps (Some ''acme/tools'') (Some ''100%'') False) = ''/apps/acme%2Ftools/100%25''"
    by (simp add: app_route_path_def or_else_def small_uri_def escape_def)
  show ?thesis
    using route_roundtrip [OF small_uri_ok, of "Apps (Some ''acme/tools'') (Some ''100%'') False"] p by simp
qed

text \<open>
  The route of an app surface named \<open>settings\<close> is read back as the settings of its package.
\<close>

theorem surface_named_settings:
  assumes "uri_ok u" "p \<noteq> []" "uri_encode u ''settings'' = ''settings''"
  shows "app_route_from_pathname u (app_route_path u (Apps (Some p) (Some ''settings'') False)) = Some (Apps (Some p) None True)"
  using app_settings_path(1) [OF assms(1,2)] assms by (simp add: app_route_path_def or_else_def)

text \<open>A path with a malformed escape makes reading it throw, in whichever segment it stands.\<close>

theorem malformed_path_throws:
  "uri_decode u ''%'' = None \<Longrightarrow> app_route_from_pathname u ''/apps/%'' = None"
  by (simp add: app_route_from_pathname_def other_route_def normalized_path_def starts_with_def path_segments_def Let_def)

end
