(* ===== verification/Spawn_Forms.thy ===== *)
theory Spawn_Forms
  imports Session_Type_Forms
begin

text \<open>
  Starting a session: the form of \<open>src/app/spawnSession.ts\<close> and the picker control of
  \<open>src/app/useSpawnControl.ts\<close>.

  \<^item> The hook's state is a record; a dispatched list call is known by the generation its closure holds,
    a dispatched spawn call by a number. Their results and failures are events in any order.
  \<^item> \<open>String(record.id)\<close> is taken of texts only; a row of the store has a text for its id.
\<close>

subsection \<open>The form\<close>

datatype list_status = List_loading | List_ready | List_error

record spawn_option =
  so_session_type_id :: string
  so_label :: string
  so_available :: bool

record spawn_form =
  wf_target_id :: string
  wf_target_label :: string
  wf_session_type_id :: string
  wf_prompt :: string
  wf_submitting :: bool
  wf_error :: "string option"
  wf_generation :: nat
  wf_status :: list_status
  wf_options :: "spawn_option list"

definition spawn_session_form_for_target :: "json option \<Rightarrow> nat \<Rightarrow> spawn_form" where
  "spawn_session_form_for_target target g =
     (let t = string_value (field ''target_id'' target) (read_config_string (field ''id'' target) []) in
      \<lparr>wf_target_id = t,
       wf_target_label = string_value (field ''label'' target) (string_value (field ''title'' target) t),
       wf_session_type_id = [], wf_prompt = [], wf_submitting = False, wf_error = None, wf_generation = g,
       wf_status = List_loading, wf_options = []\<rparr>)"

definition list_session_types_for_target_action :: "string \<Rightarrow> action_binding" where
  "list_session_types_for_target_action t =
     \<lparr>ab_id = ''botster.session_type.daemon_request'', ab_target = Some t,
      ab_label = Some ''List session types for spawn point'', ab_disabled = None,
      ab_params = Some [(''daemon_request'', obj [(''request_type'', text_json ''list_session_types_for_target''),
        (''target_id'', text_json t)])], ab_plugin_surface = None\<rparr>"

fun spawn_options :: "json list \<Rightarrow> spawn_option list option" where
  "spawn_options [] = Some []"
| "spawn_options (row # rows) =
     (let i = trim (read_config_string (field ''session_type_id'' (Some row)) []) in
      if i = [] then None
      else map_option ((#) \<lparr>so_session_type_id = i, so_label = string_value (field ''label'' (Some row)) i,
        so_available = (field ''available'' (Some row) \<noteq> Some (J_bool False))\<rparr>) (spawn_options rows))"

definition spawn_session_options_from_hub_list :: "json option \<Rightarrow> spawn_option list option" where
  "spawn_session_options_from_hub_list v = (case array_of v of None \<Rightarrow> None | Some rows \<Rightarrow> spawn_options rows)"

record list_result =
  lt_accepted :: bool
  lt_reason :: "string option"
  lt_session_types :: "json option"

definition list_failed :: "spawn_form \<Rightarrow> string \<Rightarrow> spawn_form" where
  "list_failed f m = f\<lparr>wf_status := List_error, wf_options := [], wf_session_type_id := [], wf_error := Some m\<rparr>"

definition apply_spawn_session_list_result ::
    "spawn_form option \<Rightarrow> string \<Rightarrow> nat \<Rightarrow> list_result \<Rightarrow> spawn_form option" where
  "apply_spawn_session_list_result form t g r =
     (case form of None \<Rightarrow> None
      | Some f \<Rightarrow>
          if wf_target_id f \<noteq> t \<or> wf_generation f \<noteq> g then None
          else if \<not> lt_accepted r
          then Some (list_failed f (or_else (lt_reason r) ''Botster could not load session types for this spawn point.''))
          else (case spawn_session_options_from_hub_list (lt_session_types r) of
              None \<Rightarrow> Some (list_failed f
                (or_else (lt_reason r) ''Botster returned an incomplete session type list for this spawn point.''))
            | Some options \<Rightarrow> Some (f\<lparr>wf_status := List_ready, wf_options := options,
                wf_session_type_id := (case filter so_available options of [x] \<Rightarrow> so_session_type_id x | _ \<Rightarrow> []),
                wf_error := None\<rparr>)))"

definition spawn_session_action :: "spawn_form \<Rightarrow> string \<Rightarrow> action_binding" where
  "spawn_session_action f session_id =
     \<lparr>ab_id = ''botster.spawn_point.spawn_session'', ab_target = Some (wf_target_id f),
      ab_label = Some ''Start session'', ab_disabled = None,
      ab_params = Some [(''session_type_id'', J_string (wf_session_type_id f)), (''session_id'', J_string session_id),
        (''prompt'', J_string (trim (wf_prompt f)))], ab_plugin_surface = None\<rparr>"

definition rejected_spawn_session_form :: "spawn_form \<Rightarrow> string option \<Rightarrow> spawn_form" where
  "rejected_spawn_session_form f reason =
     f\<lparr>wf_submitting := False, wf_error := Some (or_else reason ''Botster could not start this session.'')\<rparr>"

subsection \<open>The control\<close>

record spawn_control =
  wc_form :: "spawn_form option"
  wc_generation :: nat
  wc_lists :: "nat \<rightharpoonup> string"
  wc_spawns :: "(nat \<times> spawn_form) list"
  wc_next_spawn :: nat
  wc_dispatched :: "action_binding list"
  wc_answers :: "(nat \<times> string \<times> list_result) list"


definition open_spawn_session :: "json option \<Rightarrow> spawn_control \<Rightarrow> spawn_control" where
  "open_spawn_session target s =
     (let g = wc_generation s + 1; f = spawn_session_form_for_target target g in
      s\<lparr>wc_generation := g, wc_form := Some f, wc_lists := (wc_lists s)(g \<mapsto> wf_target_id f),
        wc_dispatched := wc_dispatched s @ [list_session_types_for_target_action (wf_target_id f)]\<rparr>)"

definition list_answered :: "nat \<Rightarrow> list_result \<Rightarrow> spawn_control \<Rightarrow> spawn_control" where
  "list_answered g r s =
     (case wc_lists s g of None \<Rightarrow> s
      | Some t \<Rightarrow> s\<lparr>wc_form := (case apply_spawn_session_list_result (wc_form s) t g r of
            Some f \<Rightarrow> Some f | None \<Rightarrow> wc_form s),
          wc_answers := wc_answers s @ [(g, t, r)]\<rparr>)"

definition submit_spawn_session :: "string \<Rightarrow> spawn_control \<Rightarrow> spawn_control" where
  "submit_spawn_session session_id s =
     (case wc_form s of None \<Rightarrow> s
      | Some f \<Rightarrow>
          if wf_session_type_id f = [] \<or> wf_submitting f then s
          else s\<lparr>wc_form := Some (f\<lparr>wf_submitting := True, wf_error := None\<rparr>),
            wc_spawns := wc_spawns s @ [(wc_next_spawn s, f)], wc_next_spawn := wc_next_spawn s + 1,
            wc_dispatched := wc_dispatched s @ [spawn_session_action f session_id]\<rparr>)"

definition spawn_answered :: "nat \<Rightarrow> bool \<Rightarrow> string option \<Rightarrow> spawn_control \<Rightarrow> spawn_control" where
  "spawn_answered n accepted reason s =
     (case map_of (wc_spawns s) n of None \<Rightarrow> s
      | Some _ \<Rightarrow> s\<lparr>wc_spawns := AList.delete n (wc_spawns s),
          wc_form := (if accepted then None
            else map_option (\<lambda>f. rejected_spawn_session_form f reason) (wc_form s))\<rparr>)"

text \<open>The dialog's changes to the form.\<close>

definition choose_session_type :: "string \<Rightarrow> spawn_control \<Rightarrow> spawn_control" where
  "choose_session_type i s = s\<lparr>wc_form := map_option (\<lambda>f. f\<lparr>wf_session_type_id := i, wf_error := None\<rparr>) (wc_form s)\<rparr>"

definition write_prompt :: "string \<Rightarrow> spawn_control \<Rightarrow> spawn_control" where
  "write_prompt t s = s\<lparr>wc_form := map_option (\<lambda>f. f\<lparr>wf_prompt := t, wf_error := None\<rparr>) (wc_form s)\<rparr>"

definition dismiss_spawn_session :: "spawn_control \<Rightarrow> spawn_control" where
  "dismiss_spawn_session s = s\<lparr>wc_form := None\<rparr>"

datatype spawn_event =
    Open_spawn "json option"
  | List_answered nat list_result
  | Choose_session_type string
  | Write_prompt string
  | Submit_spawn string
  | Spawn_answered nat bool "string option"
  | Dismiss_spawn

fun spawn_step :: "spawn_event \<Rightarrow> spawn_control \<Rightarrow> spawn_control" where
  "spawn_step (Open_spawn t) s = open_spawn_session t s"
| "spawn_step (List_answered g r) s = list_answered g r s"
| "spawn_step (Choose_session_type i) s = choose_session_type i s"
| "spawn_step (Write_prompt t) s = write_prompt t s"
| "spawn_step (Submit_spawn i) s = submit_spawn_session i s"
| "spawn_step (Spawn_answered n a m) s = spawn_answered n a m s"
| "spawn_step Dismiss_spawn s = dismiss_spawn_session s"

subsection \<open>The picker shows its own spawn point's types\<close>









text \<open>
  The result of a spawn is applied to whichever form is open. Dismissing the dialog while a spawn is
  pending and opening another spawn point's form lets the first spawn's result close the second form.
\<close>

theorem late_spawn_result_closes_other_form:
  fixes s :: spawn_control and f g :: spawn_form
  assumes "wc_form s = Some f" "wf_session_type_id f \<noteq> []" "\<not> wf_submitting f" "wc_spawns s = []"
  shows "wc_form (fold spawn_step [Submit_spawn i, Dismiss_spawn, Open_spawn t, Write_prompt p] s) \<noteq> None"
    and "wc_form (fold spawn_step [Submit_spawn i, Dismiss_spawn, Open_spawn t, Write_prompt p,
      Spawn_answered (wc_next_spawn s) True None] s) = None"
  using assms
  by (simp_all add: submit_spawn_session_def dismiss_spawn_session_def open_spawn_session_def write_prompt_def
      spawn_answered_def Let_def)

text \<open>What the picker dispatches is what the transport asks for: the form's spawn point, type and prompt.\<close>

theorem spawn_action_requested:
  assumes "wf_session_type_id f \<noteq> []" "session_id \<noteq> []" "wf_target_id f \<noteq> []"
  shows "\<exists>k. spawn_session \<lparr>ha_request_id = i, ha_action = spawn_session_action f session_id\<rparr> =
    await (request_of ''spawn_session_type''
      [(''session_type_id'', text_json (wf_session_type_id f)), (''session_id'', text_json session_id),
       (''request'', Some (obj [(''target_id'', text_json (wf_target_id f)),
          (''context'', Some (obj [(''prompt'', present (trim (trim (wf_prompt f))))]))]))]) k"
  using assms by (simp add: spawn_session_def spawn_session_action_def param_def or_else_def Let_def) blast

end
