(* ===== verification/Spawn_Target_Forms.thy ===== *)
theory Spawn_Target_Forms
  imports Session_Type_Forms
begin

text \<open>
  The spawn point form of \<open>src/app/spawnTargets.ts\<close> with the submission of
  \<open>src/app/useSpawnControl.ts\<close>. Metadata is edited as one line \<open>key=value\<close> for each entry; unlike
  the session type form, this form keeps no seed.
\<close>

subsection \<open>The form\<close>

record spawn_target_form =
  tf_mode :: form_mode
  tf_target_id :: string
  tf_original_target_id :: "string option"
  tf_label :: string
  tf_root :: string
  tf_kind :: string
  tf_enabled :: bool
  tf_metadata :: string

definition empty_spawn_target_form :: spawn_target_form where
  "empty_spawn_target_form = \<lparr>tf_mode = Create, tf_target_id = [], tf_original_target_id = None, tf_label = [],
     tf_root = [], tf_kind = ''directory'', tf_enabled = True, tf_metadata = []\<rparr>"

definition spawn_target_form_from_record :: "json option \<Rightarrow> spawn_target_form" where
  "spawn_target_form_from_record r =
     (let t = string_value (field ''target_id'' r) (read_config_string (field ''id'' r) []) in
      \<lparr>tf_mode = Edit, tf_target_id = t, tf_original_target_id = Some t,
       tf_label = string_value (field ''label'' r) (string_value (field ''title'' r) t),
       tf_root = string_value (field ''root'' r) [], tf_kind = string_value (field ''kind'' r) ''directory'',
       tf_enabled = (field ''enabled'' r \<noteq> Some (J_bool False)),
       tf_metadata = format_metadata (string_pairs (field ''metadata'' r))\<rparr>)"

definition spawn_target_id_from_label :: "(string \<Rightarrow> string) \<Rightarrow> string \<Rightarrow> string" where
  "spawn_target_id_from_label to_lower_case label = strip_dashes (dash_runs False (to_lower_case (trim label)))"

definition submit_spawn_target_form :: "(string \<Rightarrow> string) \<Rightarrow> spawn_target_form \<Rightarrow> action_binding option" where
  "submit_spawn_target_form to_lower_case f =
     (let root = trim (tf_root f); label = trim (tf_label f); kind = trim (tf_kind f);
          target_id = (if trim (tf_target_id f) \<noteq> [] then trim (tf_target_id f)
            else spawn_target_id_from_label to_lower_case label);
          edit = (tf_mode f = Edit);
          addressed = (if edit then tf_original_target_id f else Some target_id)
      in if root = [] \<or> label = [] \<or> target_id = [] \<or> edit \<and> or_else (tf_original_target_id f) [] = [] then None
         else Some \<lparr>ab_id = ''botster.spawn_target.daemon_request'', ab_target = addressed,
           ab_label = Some (if edit then ''Save spawn point'' else ''Create spawn point''), ab_disabled = None,
           ab_params = Some [(''daemon_request'', obj
             [(''request_type'', text_json (if edit then ''update_spawn_target'' else ''create_spawn_target'')),
              (''target_id'', map_option J_string addressed), (''label'', text_json label), (''root'', text_json root),
              (''enabled'', flag_json (tf_enabled f)),
              (''kind'', text_json (if kind = [] then ''directory'' else kind)),
              (''metadata'', Some (J_object (map (\<lambda>(k, v). (k, J_string v)) (parse_metadata (tf_metadata f)))))])],
           ab_plugin_surface = None\<rparr>)"

definition delete_spawn_target_action :: "json option \<Rightarrow> action_binding option" where
  "delete_spawn_target_action r =
     (let t = string_value (field ''target_id'' r) (read_config_string (field ''id'' r) []) in
      if t = [] then None
      else Some \<lparr>ab_id = ''botster.spawn_target.daemon_request'', ab_target = Some t,
        ab_label = Some ''Delete spawn point'', ab_disabled = None,
        ab_params = Some [(''daemon_request'', obj [(''request_type'', text_json ''delete_spawn_target''),
          (''target_id'', text_json t)])], ab_plugin_surface = None\<rparr>)"

subsection \<open>Metadata as lines\<close>

text \<open>What a line can hold.\<close>

definition plain_entry :: "string \<times> string \<Rightarrow> bool" where
  "plain_entry e \<longleftrightarrow> (case e of (k, v) \<Rightarrow> k \<noteq> [] \<and> trim k = k \<and> trim v = v \<and> CHR ''='' \<notin> set k
     \<and> CHR 0x0A \<notin> set k \<and> CHR 0x0A \<notin> set v)"

definition plain_metadata :: "(string \<times> string) list \<Rightarrow> bool" where
  "plain_metadata m \<longleftrightarrow> list_all plain_entry m \<and> distinct (map fst m)"

lemma trim_idle:
  assumes "s \<noteq> []" "\<not> blank (hd s)" "\<not> blank (last s)"
  shows "trim s = s"
proof -
  have "dropWhile blank s = s" "dropWhile blank (rev s) = rev s"
    using assms by (simp_all add: dropWhile_eq_self_iff hd_rev)
  then show ?thesis by (simp add: trim_def)
qed

lemma trimmed_ends:
  assumes "trim s = s" "s \<noteq> []"
  shows "\<not> blank (hd s)" "\<not> blank (last s)"
proof -
  let ?d = "dropWhile blank s"
  have r: "rev s = dropWhile blank (rev ?d)" using assms(1) by (metis trim_def rev_rev_ident)
  have "length s \<le> length ?d"
    using r length_dropWhile_le [of blank "rev ?d"] by (metis length_rev)
  then have "?d = s" by (metis dropWhile_eq_drop drop_eq_Nil diff_diff_cancel length_drop length_dropWhile_le
      append_self_conv2 takeWhile_dropWhile_id length_append add_le_same_cancel2 le_zero_eq length_0_conv)
  then show "\<not> blank (hd s)" using assms(2) hd_dropWhile [of blank s] by simp
  show "\<not> blank (last s)"
    using r assms(2) hd_dropWhile [of blank "rev ?d"] by (metis hd_rev rev_is_Nil_conv)
qed

lemma trimmed_line:
  assumes "plain_entry (k, v)"
  shows "trim (k @ ''='' @ v) = k @ ''='' @ v"
proof (rule trim_idle)
  have k: "k \<noteq> []" "\<not> blank (hd k)" using assms trimmed_ends [of k] by (simp_all add: plain_entry_def)
  show "k @ ''='' @ v \<noteq> []" "\<not> blank (hd (k @ ''='' @ v))" using k by simp_all
  show "\<not> blank (last (k @ ''='' @ v))"
  proof (cases "v = []")
    case False
    then show ?thesis using assms trimmed_ends(2) [of v] by (simp add: plain_entry_def)
  qed (simp add: blank_def)
qed

lemma split_join_lines:
  assumes "ls \<noteq> []" "\<forall>l \<in> set ls. CHR 0x0A \<notin> set l"
  shows "split_at (\<lambda>c. c = CHR 0x0A) (join [CHR 0x0A] ls) = ls"
  using assms
proof (induction ls rule: list_nonempty_induct)
  case (single l)
  have "split_at p s = [s]" if "\<forall>c \<in> set s. \<not> p c" for p and s using that by (induction s) auto
  from this [of l "\<lambda>c. c = CHR 0x0A"] show ?case using single by auto
next
  case (cons l ls)
  have s: "split_at p (s @ d # t) = s # split_at p t" if "\<forall>c \<in> set s. \<not> p c" "p d" for p s d t
    using that by (induction s) auto
  obtain y ys where "ls = y # ys" using cons(1) by (cases ls) auto
  then have "join [CHR 0x0A] (l # ls) = l @ CHR 0x0A # join [CHR 0x0A] ls" by simp
  moreover have "\<forall>c \<in> set l. \<not> c = CHR 0x0A" using cons(3) by auto
  ultimately show ?case using s [of l "\<lambda>c. c = CHR 0x0A" "CHR 0x0A"] cons(2,3) by simp
qed

lemma parse_line:
  assumes "plain_entry (k, v)" "k \<notin> fst ` set m"
  shows "(let i = trim (takeWhile (\<lambda>c. c \<noteq> CHR ''='') (k @ ''='' @ v));
              w = trim (drop 1 (dropWhile (\<lambda>c. c \<noteq> CHR ''='') (k @ ''='' @ v)))
          in if CHR ''='' \<notin> set (k @ ''='' @ v) \<or> hd (k @ ''='' @ v) = CHR ''='' \<or> i = [] then m else AList.update i w m)
    = m @ [(k, v)]"
proof -
  have k: "k \<noteq> []" "trim k = k" "trim v = v" "\<forall>c \<in> set k. c \<noteq> CHR ''=''"
    using assms(1) by (auto simp: plain_entry_def)
  have s: "takeWhile (\<lambda>c. c \<noteq> CHR ''='') (k @ ''='' @ v) = k" "dropWhile (\<lambda>c. c \<noteq> CHR ''='') (k @ ''='' @ v) = ''='' @ v"
    using k(4) by (simp_all add: takeWhile_append2 dropWhile_append2)
  have h: "hd k \<noteq> CHR ''=''" using k(1,4) by simp
  have u: "AList.update k v m = m @ [(k, v)]" using assms(2) by (induction m) auto
  show ?thesis unfolding Let_def s by (simp add: k h u)
qed

lemma parse_lines:
  assumes "list_all plain_entry es" "distinct (map fst (m @ es))"
  shows "fold (\<lambda>line m. (let k = trim (takeWhile (\<lambda>c. c \<noteq> CHR ''='') line);
             v = trim (drop 1 (dropWhile (\<lambda>c. c \<noteq> CHR ''='') line))
         in if CHR ''='' \<notin> set line \<or> hd line = CHR ''='' \<or> k = [] then m else AList.update k v m))
       (map (\<lambda>(k, v). k @ ''='' @ v) es) m = m @ es"
  using assms
proof (induction es arbitrary: m)
  case (Cons e es)
  obtain k v where e: "e = (k, v)" by (cases e)
  have "plain_entry (k, v)" "k \<notin> fst ` set m" using Cons.prems e by auto
  note line = parse_line [OF this]
  show ?case using Cons.IH [of "m @ [(k, v)]"] Cons.prems
    unfolding e list.map fold_simps case_prod_conv line by simp
qed simp

text \<open>Metadata that a line can hold is read back as it was written, entry by entry and in order.\<close>

lemma metadata_roundtrip:
  assumes "plain_metadata m"
  shows "parse_metadata (format_metadata m) = m"
proof (cases "m = []")
  case True
  then show ?thesis by (simp add: parse_metadata_def format_metadata_def)
next
  case False
  let ?ls = "map (\<lambda>(k, v). k @ ''='' @ v) m"
  have p: "list_all plain_entry m" "distinct (map fst m)" using assms by (simp_all add: plain_metadata_def)
  have t: "map trim ?ls = ?ls"
    using p(1) trimmed_line by (fastforce simp: list_all_iff)
  have n: "filter (\<lambda>l. l \<noteq> []) ?ls = ?ls" by (auto simp: filter_id_conv)
  have "\<forall>l \<in> set ?ls. CHR 0x0A \<notin> set l" using p(1) by (auto simp: list_all_iff plain_entry_def)
  then have "split_at (\<lambda>c. c = CHR 0x0A) (format_metadata m) = ?ls"
    using False unfolding format_metadata_def by (intro split_join_lines) simp_all
  then show ?thesis unfolding parse_metadata_def using parse_lines [OF p(1), of "[]"] p(2) by (simp only: t n) simp
qed

subsection \<open>An unchanged edit\<close>

definition formable :: "spawn_target \<Rightarrow> bool" where
  "formable t \<longleftrightarrow> trim (st_target_id t) \<noteq> []
     \<and> list_all (\<lambda>s. s \<noteq> [] \<and> trim s = s) [st_label t, st_root t, st_kind t]
     \<and> plain_metadata (or_else (st_metadata t) [])"

lemma string_pairs_metadata [simp]: "string_pairs (Some (metadata_json m)) = or_else m []"
proof -
  have "List.map_filter (\<lambda>(k, x). map_option (Pair k) (string_of (Some x))) (map (\<lambda>(k, v). (k, J_string v)) xs) = xs" for xs
    by (induction xs) (auto simp: List.map_filter_def)
  then show ?thesis by (simp add: string_pairs_def metadata_json_def)
qed

lemma record_field: "map_of (er_fields (entity i kvs)) k = field k (Some (obj kvs))"
  by (simp add: entity_def field_def)

lemma string_value_text [simp]: "string_value (text_json s) d = (if s = [] then d else s)"
  by (simp add: string_value_def)

text \<open>
  C30. Saving a spawn point unchanged loses nothing. When the record projected from a Hub spawn point is
  opened in the form and saved as it is, the transport asks for an update of that spawn point with its
  label, root, enablement, kind and metadata, just as the record's own edit action does, provided its
  texts are not blank at their ends and each metadata entry fits on a line.
\<close>

theorem spawn_point_edit_lossless:
  assumes "formable t"
  shows "Option.bind (submit_spawn_target_form lc
      (spawn_target_form_from_record (Some (J_object (er_fields (spawn_target_record t))))))
      spawn_target_request_from_action
    = Some (request_of ''update_spawn_target''
        [(''target_id'', text_json (st_target_id t)), (''label'', text_json (st_label t)),
         (''root'', text_json (st_root t)), (''enabled'', flag_json (st_enabled t)),
         (''kind'', text_json (st_kind t)), (''metadata'', Some (metadata_json (st_metadata t)))])"
proof -
  have a: "trim (st_target_id t) \<noteq> []" "st_target_id t \<noteq> []" "st_label t \<noteq> []" "trim (st_label t) = st_label t"
    "st_root t \<noteq> []" "trim (st_root t) = st_root t" "st_kind t \<noteq> []" "trim (st_kind t) = st_kind t"
    "parse_metadata (format_metadata (or_else (st_metadata t) [])) = or_else (st_metadata t) []"
    using assms by (auto simp: formable_def metadata_roundtrip)
  let ?f = "spawn_target_form_from_record (Some (J_object (er_fields (spawn_target_record t))))"
  have f: "?f = \<lparr>tf_mode = Edit, tf_target_id = st_target_id t, tf_original_target_id = Some (st_target_id t),
      tf_label = st_label t, tf_root = st_root t, tf_kind = st_kind t, tf_enabled = st_enabled t,
      tf_metadata = format_metadata (or_else (st_metadata t) [])\<rparr>"
    by (simp add: spawn_target_form_from_record_def spawn_target_record_def record_field a Let_def)
  show ?thesis
    unfolding f submit_spawn_target_form_def
    by (simp add: a or_else_def [of "Some _"] spawn_target_request_from_action_def param_def Let_def present_def)
      (simp add: metadata_json_def string_record_fixed list_all_iff case_prod_unfold)
qed

definition sample_spawn_point :: spawn_target where
  "sample_spawn_point = \<lparr>st_target_id = ''t'', st_label = ''L'', st_root = ''/r'', st_enabled = True,
     st_kind = ''directory'', st_metadata = Some [(''team'', ''a=b'')]\<rparr>"

theorem spawn_point_edit_lossless_witness:
  "formable sample_spawn_point
   \<and> Option.bind (submit_spawn_target_form (\<lambda>s. s)
      (spawn_target_form_from_record (Some (J_object (er_fields (spawn_target_record sample_spawn_point))))))
      spawn_target_request_from_action
    = Some (request_of ''update_spawn_target''
        [(''target_id'', text_json ''t''), (''label'', text_json ''L''), (''root'', text_json ''/r''),
         (''enabled'', flag_json True), (''kind'', text_json ''directory''),
         (''metadata'', Some (J_object [(''team'', J_string ''a=b'')]))])"
proof -
  have f: "formable sample_spawn_point"
    by (simp add: formable_def sample_spawn_point_def plain_metadata_def plain_entry_def trim_def blank_def or_else_def)
  show ?thesis using spawn_point_edit_lossless [OF f, of "\<lambda>s. s"] f
    by (simp add: sample_spawn_point_def metadata_json_def or_else_def)
qed

text \<open>
  A metadata value with a line break is not read back as it was, so an edit of anything else changes it.
\<close>

theorem metadata_line_break_lost:
  "parse_metadata (format_metadata [(''note'', ''a'' @ [CHR 0x0A] @ ''b'')]) = [(''note'', ''a'')]"
  by (simp add: parse_metadata_def format_metadata_def trim_def blank_def)

end
