(* ===== verification/Spec2Isabelle.thy ===== *)
theory Spec2Isabelle
  imports Data_Plane_Screen Data_Plane_Pump Action_Dispatcher Terminal_Channel_Delivery Control_Delivery Data_Plane_Reports Connection_Laws Subscription_Findings Hub_Transport_Laws Hub_Entities Plugin_Log_Laws Quarantine_Rows Routing Spawn_Forms Spawn_Target_Forms
begin

text \<open>
  A verification library for the Botster web client (\<open>src/\<close>, TypeScript). The client shows a hub's
  sessions in a browser. It keeps one encrypted WebRTC connection to the hub, sends host requests
  over its control channel, opens one data channel for each terminal, runs a terminal data plane
  between a terminal view and such a channel, turns the hub's data into entity frames and the
  operator's actions into requests, and folds entity frames into a store.

  Parts, and the theories that hold them. Names are the source's, in the style of Isabelle; every
  theory says in its first text block what it holds.

  \<^item> \<open>Base\<close>, \<open>Bytes\<close>, \<open>Utf8\<close>: what the components share. JavaScript maps and sets as insertion
    ordered lists (the interface \<open>js_map\<close>, interpreted on association lists), computations that
    throw as sums, byte lists and big-endian fields, UTF-16 strings with the two Web text codecs
    (the interface \<open>codec\<close>), state machines with an invariant (the interface \<open>step_system\<close>, which
    every component with state interprets on its own step function).
  \<^item> \<open>Protocol_Tables\<close>, \<open>Terminal_Protocol\<close>, \<open>Terminal_Input_Frames\<close>: the codecs of
    \<open>src/botster/generated/terminal-protocol.ts\<close>, both directions of the terminal stream and all the
    input frames. Shown: the round trips, exactness of the encoder, and what pasted text is cut into.
  \<^item> \<open>Terminal_Input\<close>: \<open>terminalInputEvents.ts\<close> and \<open>terminalInputEncoding.ts\<close>, from DOM events to
    semantic input to operations. Shown: the pointer stays in the grid, wheel deltas are conserved,
    what an operation is accounted with.
  \<^item> \<open>Data_Plane\<close>, \<open>Data_Plane_Steps\<close>: the state machine of \<open>hubTerminalDataPlane.ts\<close>, with one event
    for each call, callback, timer and microtask. \<open>Data_Plane_Inputs\<close> shows that inputs are
    settled exactly once within the bounds of queue and window, \<open>Data_Plane_Reports\<close> that the
    listeners and the callers of \<open>writePaste\<close> hear of exactly the settled ones, \<open>Data_Plane_Route\<close> and
    \<open>Data_Plane_Screen\<close> that live output waits for the screen and keeps its order, that frames of
    another life of the route change nothing and that a detached plane is silent, and
    \<open>Data_Plane_Pump\<close> that the queue and the newest geometry do not get stuck.
  \<^item> \<open>Entity_Store\<close>: \<open>entities.ts\<close>, refined to an abstract map of families. \<open>Action_Dispatcher\<close>:
    \<open>actions.ts\<close>, each action answered once.
  \<^item> \<open>Delivery_Chunks\<close>, \<open>Terminal_Chunks\<close>: the parsers and the sealed chunks of
    \<open>webrtcDaemonClient.ts\<close>. \<open>Terminal_Channel\<close> is a terminal's data channel, with the laws and the
    end-to-end delivery in \<open>Terminal_Channel_Laws\<close> and \<open>Terminal_Channel_Delivery\<close>.
  \<^item> \<open>Control_Requests\<close>: requests of the host-control channel with their 32 slots, and in
    \<open>Control_Slots\<close> and \<open>Control_Laws\<close> the conservation of slots and callers. \<open>Control_Channel\<close>
    extends that state with the reassembly of responses; \<open>Control_Channel_Laws\<close> and
    \<open>Control_Delivery\<close> show that the books of retained bytes are exact and bounded, that a message
    is put together exactly, and that its reply reaches the request it names.
  \<^item> \<open>Connection_Attempts\<close>: \<open>connect\<close>, the attempts with their deadlines, the phases of
    \<open>open\<close>, retry, loss and \<open>disconnect\<close>; an attempt is named by its generation. \<open>Connection_Laws\<close>
    shows that one attempt is in progress at most, that a demanded reconnection never stalls, that
    disconnecting is final and that superseded attempts are harmless, for all lifecycle callbacks.
  \<^item> \<open>Subscriptions\<close>: entity and package-event subscriptions with their reserved channels.
    \<open>Subscription_Laws\<close> relates every operation to what it may change; \<open>Subscription_Delivery\<close> shows
    that listeners hear no gaps (each sequence begins with its own subscription's snapshot), nothing after
    \<open>unsubscribe\<close> and nothing from a channel that is not theirs or is superseded; \<open>Subscription_Findings\<close> has two runs that lose a subscription.
  \<^item> \<open>Hub_Values\<close>, \<open>Hub_Requests\<close>, \<open>Hub_Records\<close>: the values, requests and daemon DTOs of
    \<open>hubTransport.ts\<close>. \<open>Hub_Packages\<close>, \<open>Hub_Catalog\<close>, \<open>Hub_Projection\<close> are its projections of apps,
    packages, navigation, spawn points, sessions and status to entity frames, \<open>Hub_Actions\<close> its
    \<open>dispatchDaemonAction\<close> with every kind of action as a plan of emitted frames and awaited requests.
    \<open>Hub_Wire\<close> has the daemon protocol's request types as a checker of values;
    \<open>Hub_Request_Laws\<close> and \<open>Hub_Action_Laws\<close> show that what an action sends is typed, that an action ends,
    is answered once and is accepted only on the Hub's word (against a specification of which answer
    confirms which action; selecting a session or a package is the client's own affair), that an authored definition is a normal form
    and that saving a spawn point loses nothing, but that an update without a label clears it.
  \<^item> \<open>Hub_Transport\<close> is \<open>createHubTransport\<close>: subscriptions counted by demand, suspended actions, the
    microtask queue of frames. \<open>Hub_Transport_Laws\<close> shows that each opened subscription is held in one
    place, replaced or unsubscribed, and refines the counts to the demand a client has stated.
    \<open>Hub_Entities\<close> composes the transport's frames with the entity store as \<open>client.ts\<close> wires them: rows of the
    specialized families are typed, and a snapshot is its upserts.
  \<^item> \<open>Plugin_Logs\<close>: \<open>pluginLogs.ts\<close> and \<open>usePluginLogs.ts\<close>, with \<open>Plugin_Log_Laws\<close>: against a Hub with
    honest pages the view is the log without its reported gaps; one read at a time; two requests a click.
    \<open>Quarantine_Rows\<close>: \<open>hubQuarantines.ts\<close> and the Resolve operations of \<open>useHubActions.ts\<close>, refined to
    rows that belong to their newest operation.
  \<^item> \<open>Session_Type_Forms\<close>, \<open>Spawn_Target_Forms\<close>, \<open>Spawn_Forms\<close>, \<open>Routing\<close>: the models behind the dialogs of
    \<open>src/app/\<close>. Shown: a session type or a spawn point that is opened and saved unchanged is sent as the
    Hub gave it, through the transport's own projection, with the request written out field by field;
    the picker of a new session shows its own
    spawn point's types; a canonical route survives its URL.

  How the parts interact. The data plane hands input frames to a terminal channel and receives its
  route events; the model of the plane takes them as events and the model of the channel delivers
  them, so their composition is the sequence of events. The control channel is the request state
  extended by a record, and settles pending requests by the same operations. Every state machine is
  a total step function on an event type, and a run folds it over an arbitrary event list, so the
  properties of runs hold for every interleaving of calls, callbacks, timers and microtasks,
  including those a browser would never produce.

  Bounds and fuel. Limits are the source's constants, as definitions. No definition needs fuel:
  loops are structural recursions over the lists they consume or have a termination proof.

  Parameters. WebCrypto, \<open>JSON.parse\<close>, \<open>atob\<close> and conversions to numbers are fields of the record
  \<open>platform\<close>; \<open>gcm_ok\<close> states that opening what was sealed gives it back. \<open>JSON.stringify\<close>,
  \<open>toLowerCase\<close>, \<open>localeCompare\<close>, the URI codec and the answers of the daemon bridge and of the Hub are arguments of the definitions that use them.

  Not modelled. React rendering, the hooks (\<open>src/app/use*.ts\<close>) except those named above, the vendored terminal
  renderer, diagnostics recorders for the live harness, test support and the scripts, and type
  declarations without code. Nor are the other models behind the views (plugin routes, surfaces,
  notices), the texts of connection diagnostics and action toasts, and the forwarding of frames by
  \<open>HubConnection\<close>.
\<close>

end
